(* ===== verification/Prelude.thy ===== *)
theory Prelude
  imports Main "HOL-Library.Multiset" "HOL-Library.Char_ord" "HOL-Library.List_Lexorder" "HOL-Library.Product_Lexorder"
begin

text \<open>
  Shared vocabulary of the development: the exceptions the services raise, the programs
  that read and write the database and may raise (every handler of the services is one),
  the database transaction, a small calculus of success, failure and invariants for such
  programs, the few JavaScript string operations the services use, and the generic facts on
  lists and tables that the component theories share.
\<close>

section \<open>Collections\<close>

named_theorems prog_simps \<open>running a primitive program\<close>
named_theorems prog_iff \<open>what it takes for a program to return normally\<close>
named_theorems keeps_intros \<open>programs that keep an invariant\<close>

section \<open>Exceptions\<close>

text \<open>
  NestJS exceptions carry an HTTP status and a machine code; plain \<open>Error\<close>s carry the
  message; \<open>P2002\<close> is Prisma's unique-constraint violation and \<open>DbRange\<close> the rejection
  of a value that does not fit a \<open>DECIMAL(12,2)\<close> column.
\<close>

datatype exn =
    BadRequest string
  | Conflict string
  | NotFound string
  | Forbidden string
  | Unprocessable string
  | Unauthorized string
  | HttpError nat string
  | JsError string
  | IllegalBinding string
  | P2002 string
  | DbRange string

type_synonym 'a res = "exn + 'a"

section \<open>Programs over a database\<close>

text \<open>
  A handler is a function from the database to a result and the database it leaves behind.
  Both components matter on failure: effects committed before the exception stay.
\<close>

type_synonym ('s, 'a) prog = "'s \<Rightarrow> 'a res \<times> 's"

definition ret :: "'a \<Rightarrow> ('s, 'a) prog" where
  "ret x s = (Inr x, s)"

definition raise :: "exn \<Rightarrow> ('s, 'a) prog" where
  "raise e s = (Inl e, s)"

definition seq :: "('s, 'a) prog \<Rightarrow> ('a \<Rightarrow> ('s, 'b) prog) \<Rightarrow> ('s, 'b) prog" where
  "seq m k s = (case m s of (Inl e, s') \<Rightarrow> (Inl e, s') | (Inr x, s') \<Rightarrow> k x s')"

definition reads :: "('s \<Rightarrow> 'a) \<Rightarrow> ('s, 'a) prog" where
  "reads f s = (Inr (f s), s)"

definition writes :: "('s \<Rightarrow> 's) \<Rightarrow> ('s, unit) prog" where
  "writes f s = (Inr (), f s)"

definition lift :: "'a res \<Rightarrow> ('s, 'a) prog" where
  "lift r s = (r, s)"

definition require :: "bool \<Rightarrow> exn \<Rightarrow> ('s, unit) prog" where
  "require b e s = ((if b then Inr () else Inl e), s)"

definition check :: "bool \<Rightarrow> exn \<Rightarrow> unit res" where
  "check b e = (if b then Inr () else Inl e)"

definition found :: "'a option \<Rightarrow> exn \<Rightarrow> ('s, 'a) prog" where
  "found v e s = ((case v of None \<Rightarrow> Inl e | Some x \<Rightarrow> Inr x), s)"

text \<open>\<open>$transaction\<close>: an exception inside rolls every write of the body back.\<close>

definition transaction :: "('s, 'a) prog \<Rightarrow> ('s, 'a) prog" where
  "transaction m s = (case m s of (Inl e, _) \<Rightarrow> (Inl e, s) | (Inr x, s') \<Rightarrow> (Inr x, s'))"

text \<open>\<open>try\<close> and \<open>catch\<close>: the handler runs in the state the exception left.\<close>

definition attempt :: "('s, 'a) prog \<Rightarrow> (exn \<Rightarrow> ('s, 'a) prog) \<Rightarrow> ('s, 'a) prog" where
  "attempt m h s = (case m s of (Inl e, s') \<Rightarrow> h e s' | (Inr x, s') \<Rightarrow> (Inr x, s'))"

primrec each :: "('a \<Rightarrow> ('s, unit) prog) \<Rightarrow> 'a list \<Rightarrow> ('s, unit) prog" where
  "each f [] = ret ()"
| "each f (x # xs) = seq (f x) (\<lambda>_. each f xs)"

definition bindr :: "'a res \<Rightarrow> ('a \<Rightarrow> 'b res) \<Rightarrow> 'b res" where
  "bindr r f = (case r of Inl e \<Rightarrow> Inl e | Inr x \<Rightarrow> f x)"

subsection \<open>Running programs\<close>

lemma ret_run [simp, prog_simps]: "ret x s = (Inr x, s)"
  by (simp add: ret_def)

lemma raise_run [simp, prog_simps]: "raise e s = (Inl e, s)"
  by (simp add: raise_def)

lemma reads_run [simp, prog_simps]: "reads f s = (Inr (f s), s)"
  by (simp add: reads_def)

lemma writes_run [simp, prog_simps]: "writes f s = (Inr (), f s)"
  by (simp add: writes_def)

lemma lift_run [simp, prog_simps]: "lift r s = (r, s)"
  by (simp add: lift_def)

lemma require_run [simp, prog_simps]: "require b e s = ((if b then Inr () else Inl e), s)"
  by (simp add: require_def)

lemma found_run [simp, prog_simps]:
  "found None e s = (Inl e, s)" "found (Some x) e s = (Inr x, s)"
  by (simp_all add: found_def)

lemma seq_Inr [simp, prog_simps]: "m s = (Inr x, s') \<Longrightarrow> seq m k s = k x s'"
  by (simp add: seq_def)

lemma seq_Inl [simp, prog_simps]: "m s = (Inl e, s') \<Longrightarrow> seq m k s = (Inl e, s')"
  by (simp add: seq_def)

lemma bindr_simps [simp]: "bindr (Inl e) f = Inl e" "bindr (Inr x) f = f x"
  by (simp_all add: bindr_def)

lemma check_simps [simp]: "check True e = Inr ()" "check False e = Inl e"
  by (simp_all add: check_def)

subsection \<open>Normal return and failure\<close>

lemma ret_iff [prog_iff]: "ret x s = (Inr y, s') \<longleftrightarrow> y = x \<and> s' = s"
  by auto

lemma raise_iff [prog_iff]: "raise e s = (Inr y, s') \<longleftrightarrow> False"
  by simp

lemma reads_iff [prog_iff]: "reads f s = (Inr y, s') \<longleftrightarrow> y = f s \<and> s' = s"
  by auto

lemma writes_iff [prog_iff]: "writes f s = (Inr y, s') \<longleftrightarrow> s' = f s"
  by auto

lemma lift_iff [prog_iff]: "lift r s = (Inr y, s') \<longleftrightarrow> r = Inr y \<and> s' = s"
  by auto

lemma require_iff [prog_iff]: "require b e s = (Inr y, s') \<longleftrightarrow> b \<and> s' = s"
  by auto

lemma found_iff [prog_iff]: "found v e s = (Inr y, s') \<longleftrightarrow> v = Some y \<and> s' = s"
  by (cases v) auto

lemma seq_iff [prog_iff]:
  "seq m k s = (Inr y, s') \<longleftrightarrow> (\<exists>x s1. m s = (Inr x, s1) \<and> k x s1 = (Inr y, s'))"
  by (auto simp: seq_def split: prod.splits sum.splits)

lemma transaction_iff [prog_iff]: "transaction m s = (Inr y, s') \<longleftrightarrow> m s = (Inr y, s')"
  by (auto simp: transaction_def split: prod.splits sum.splits)

lemma bindr_iff [prog_iff]: "bindr r f = Inr y \<longleftrightarrow> (\<exists>x. r = Inr x \<and> f x = Inr y)"
  by (cases r) auto

lemma check_iff [prog_iff]: "check b e = Inr y \<longleftrightarrow> b"
  by (simp add: check_def)

lemma each_Nil_iff [prog_iff]: "each f [] s = (Inr y, s') \<longleftrightarrow> s' = s"
  by auto

lemma each_Cons_iff [prog_iff]:
  "each f (x # xs) s = (Inr y, s') \<longleftrightarrow>
     (\<exists>s1. f x s = (Inr (), s1) \<and> each f xs s1 = (Inr (), s'))"
  by (auto simp: seq_iff)

text \<open>The all-or-nothing law of a transaction.\<close>

lemma transaction_rollback: "transaction m s = (Inl e, s') \<Longrightarrow> s' = s"
  by (auto simp: transaction_def split: prod.splits sum.splits)

lemma transaction_fails: "m s = (Inl e, t) \<Longrightarrow> transaction m s = (Inl e, s)"
  by (simp add: transaction_def)

lemma transaction_commits: "m s = (Inr x, t) \<Longrightarrow> transaction m s = (Inr x, t)"
  by (simp add: transaction_def)

subsection \<open>Invariants\<close>

definition keeps :: "('s \<Rightarrow> bool) \<Rightarrow> ('s, 'a) prog \<Rightarrow> bool" where
  "keeps I m \<longleftrightarrow> (\<forall>s. I s \<longrightarrow> I (snd (m s)))"

lemma keepsD: "keeps I m \<Longrightarrow> I s \<Longrightarrow> m s = (r, s') \<Longrightarrow> I s'"
  by (metis keeps_def snd_conv)

lemma keepsI: "(\<And>s r s'. I s \<Longrightarrow> m s = (r, s') \<Longrightarrow> I s') \<Longrightarrow> keeps I m"
  by (metis keeps_def prod.collapse)

lemma keeps_ret [keeps_intros]: "keeps I (ret x)"
  by (simp add: keeps_def)

lemma keeps_raise [keeps_intros]: "keeps I (raise e)"
  by (simp add: keeps_def)

lemma keeps_reads [keeps_intros]: "keeps I (reads f)"
  by (simp add: keeps_def)

lemma keeps_lift [keeps_intros]: "keeps I (lift r)"
  by (simp add: keeps_def)

lemma keeps_require [keeps_intros]: "keeps I (require b e)"
  by (simp add: keeps_def)

lemma keeps_found [keeps_intros]: "keeps I (found v e)"
  by (cases v) (simp_all add: keeps_def)

lemma keeps_writes: "(\<And>s. I s \<Longrightarrow> I (f s)) \<Longrightarrow> keeps I (writes f)"
  by (simp add: keeps_def)

lemma keeps_seq [keeps_intros]: "keeps I m \<Longrightarrow> (\<And>x. keeps I (k x)) \<Longrightarrow> keeps I (seq m k)"
  unfolding keeps_def seq_def by (fastforce split: prod.splits sum.splits)

lemma keeps_attempt [keeps_intros]:
  "keeps I m \<Longrightarrow> (\<And>e. keeps I (h e)) \<Longrightarrow> keeps I (attempt m h)"
  unfolding keeps_def attempt_def by (fastforce split: prod.splits sum.splits)

lemma keeps_if [keeps_intros]: "(b \<Longrightarrow> keeps I m) \<Longrightarrow> (\<not> b \<Longrightarrow> keeps I n) \<Longrightarrow> keeps I (if b then m else n)"
  by simp

lemma keeps_let [keeps_intros]: "keeps I (f v) \<Longrightarrow> keeps I (let x = v in f x)"
  by simp

lemma keeps_case_option [keeps_intros]:
  "keeps I m \<Longrightarrow> (\<And>x. keeps I (k x)) \<Longrightarrow> keeps I (case v of None \<Rightarrow> m | Some x \<Rightarrow> k x)"
  by (cases v) simp_all

lemma keeps_prod [keeps_intros]: "(\<And>x y. keeps I (k x y)) \<Longrightarrow> keeps I (case p of (x, y) \<Rightarrow> k x y)"
  by (cases p) simp

text \<open>A handler that treats a unique violation and rethrows anything else.\<close>

lemma keeps_unique [keeps_intros]:
  "(\<And>c. keeps I (m c)) \<Longrightarrow> keeps I n \<Longrightarrow>
     keeps I (case ex of BadRequest c \<Rightarrow> n | Conflict c \<Rightarrow> n | NotFound c \<Rightarrow> n | Forbidden c \<Rightarrow> n | Unprocessable c \<Rightarrow> n | Unauthorized c \<Rightarrow> n | HttpError k c \<Rightarrow> n | JsError c \<Rightarrow> n
       | IllegalBinding c \<Rightarrow> n | P2002 c \<Rightarrow> m c | DbRange c \<Rightarrow> n)"
  by (cases ex) simp_all

lemma keeps_each [keeps_intros]: "(\<And>x. keeps I (f x)) \<Longrightarrow> keeps I (each f xs)"
  by (induction xs) (auto intro: keeps_intros)

text \<open>
  Inside a transaction the invariant may be broken on the way; only a committed body has to
  restore it.
\<close>

lemma keeps_transaction:
  assumes "\<And>s x s'. I s \<Longrightarrow> m s = (Inr x, s') \<Longrightarrow> I s'"
  shows "keeps I (transaction m)"
  using assms unfolding keeps_def transaction_def by (auto split: prod.splits sum.splits)

lemma keeps_transaction_body: "keeps I m \<Longrightarrow> keeps I (transaction m)"
  by (rule keeps_transaction) (rule keepsD)

subsection \<open>Programs that change nothing\<close>

text \<open>A read or check in front: either it stops the run where it is, or the run goes on.\<close>

definition still :: "('s, 'a) prog \<Rightarrow> bool" where
  "still m \<longleftrightarrow> (\<forall>s. snd (m s) = s)"

lemma still_simps [simp]: "still (reads f)" "still (lift r)" "still (require p ex)" "still (found v ex)" "still (raise ex)" "still (ret x)"
  by (auto simp: still_def found_def require_def)

lemma still_seq: "still m \<Longrightarrow> (\<And>x. still (k x)) \<Longrightarrow> still (seq m k)"
  by (auto simp: still_def seq_def split: prod.splits sum.splits) (metis snd_conv)+

lemma seq_still:
  assumes "still m"
  shows "snd (seq m k s) = s \<or> (\<exists>x. m s = (Inr x, s) \<and> seq m k s = k x s)"
proof (cases "m s")
  case (Pair r t)
  with assms have "t = s" by (metis still_def snd_conv)
  with Pair show ?thesis by (cases r) (simp_all add: seq_def)
qed

lemma still_step:
  assumes "still m" "Q s" "\<And>x. m s = (Inr x, s) \<Longrightarrow> Q (snd (k x s))"
  shows "Q (snd (seq m k s))"
  using seq_still [OF assms(1), of k s] assms(2,3) by auto

section \<open>JavaScript strings\<close>

definition js_space :: "char \<Rightarrow> bool" where
  "js_space c \<longleftrightarrow> of_char c \<in> {9, 10, 11, 12, 13, 32, 160 :: nat}"

definition js_trim :: "string \<Rightarrow> string" where
  "js_trim s = rev (dropWhile js_space (rev (dropWhile js_space s)))"

text \<open>
  Case mapping on Latin-1. The micro sign and the y with diaeresis, whose upper-case forms
  lie outside it, are left as they are.
\<close>

definition js_upper_char :: "char \<Rightarrow> string" where
  "js_upper_char c = (let n = (of_char c :: nat) in
     if 97 \<le> n \<and> n \<le> 122 \<or> 224 \<le> n \<and> n \<le> 254 \<and> n \<noteq> 247 then [char_of (n - 32)]
     else if n = 223 then ''SS''
     else [c])"

definition js_upper :: "string \<Rightarrow> string" where
  "js_upper s = concat (map js_upper_char s)"

definition js_lower_char :: "char \<Rightarrow> char" where
  "js_lower_char c = (let n = (of_char c :: nat) in
     if 65 \<le> n \<and> n \<le> 90 \<or> 192 \<le> n \<and> n \<le> 222 \<and> n \<noteq> 215 then char_of (n + 32) else c)"

definition js_lower :: "string \<Rightarrow> string" where
  "js_lower = map js_lower_char"

text \<open>\<open>s?.trim()\<close> is truthy.\<close>

definition non_blank :: "string \<Rightarrow> bool" where
  "non_blank s \<longleftrightarrow> js_trim s \<noteq> []"

section \<open>Tables\<close>

text \<open>\<open>updateMany\<close>: how many rows match, and the table with the matching rows rewritten.\<close>

definition count_where :: "('r \<Rightarrow> bool) \<Rightarrow> 'r list \<Rightarrow> nat" where
  "count_where p t = length (filter p t)"

definition update_where :: "('r \<Rightarrow> bool) \<Rightarrow> ('r \<Rightarrow> 'r) \<Rightarrow> 'r list \<Rightarrow> 'r list" where
  "update_where p f t = map (\<lambda>r. if p r then f r else r) t"

lemma length_update_where [simp]: "length (update_where p f t) = length t"
  by (simp add: update_where_def)

lemma map_update_where:
  "(\<And>r. r \<in> set t \<Longrightarrow> p r \<Longrightarrow> g (f r) = g r) \<Longrightarrow> map g (update_where p f t) = map g t"
  by (auto simp: update_where_def)

lemma set_update_where: "set (update_where p f t) = (\<lambda>r. if p r then f r else r) ` set t"
  by (simp add: update_where_def)

lemma in_update_where:
  "r' \<in> set (update_where p f t) \<longleftrightarrow>
     (\<exists>r \<in> set t. (p r \<and> r' = f r) \<or> (\<not> p r \<and> r' = r))"
  by (auto simp: update_where_def)

lemma find_Some_iff_key:
  "distinct (map key t) \<Longrightarrow> find (\<lambda>r. key r = k) t = Some r \<longleftrightarrow> r \<in> set t \<and> key r = k"
  by (induction t) (auto simp: image_iff)

lemma find_None_iff_key: "find (\<lambda>r. key r = k) t = None \<longleftrightarrow> k \<notin> key ` set t"
  by (auto simp: find_None_iff)

lemma find_in_set: "find p t = Some r \<Longrightarrow> r \<in> set t \<and> p r"
  by (auto simp: find_Some_iff)

lemma find_snoc: "\<forall>y \<in> set t. \<not> p y \<Longrightarrow> p r \<Longrightarrow> find p (t @ [r]) = Some r"
  by (induction t) simp_all

lemma find_update_where:
  "(\<And>r. p (f r) = p r) \<Longrightarrow> find p (update_where q f t) = map_option (\<lambda>r. if q r then f r else r) (find p t)"
  by (induction t) (auto simp: update_where_def)

lemma distinct_key_eq:
  "distinct (map key t) \<Longrightarrow> r \<in> set t \<Longrightarrow> r' \<in> set t \<Longrightarrow> key r = key r' \<Longrightarrow> r = r'"
  by (metis distinct_map inj_onD)

lemma count_where_one_key:
  "distinct (map key t) \<Longrightarrow> count_where (\<lambda>r. key r = k \<and> p r) t \<le> 1"
proof (induction t)
  case Nil
  then show ?case by (simp add: count_where_def)
next
  case (Cons a t)
  show ?case
  proof (cases "key a = k \<and> p a")
    case True
    with Cons.prems have "filter (\<lambda>r. key r = k \<and> p r) t = []"
      by (auto simp: filter_empty_conv) (metis image_eqI)
    with True show ?thesis by (simp add: count_where_def)
  next
    case False
    with Cons show ?thesis by (auto simp: count_where_def)
  qed
qed

lemma count_where_0: "count_where p t = 0 \<longleftrightarrow> (\<forall>r \<in> set t. \<not> p r)"
  by (simp add: count_where_def filter_empty_conv)

lemma count_where_pos: "count_where p t \<noteq> 0 \<longleftrightarrow> (\<exists>r \<in> set t. p r)"
  by (simp add: count_where_0)

text \<open>\<open>orderBy\<close>: the rows sorted by a key, stable, as the database returns them.\<close>

definition order_by :: "('r \<Rightarrow> 'k::linorder) \<Rightarrow> 'r list \<Rightarrow> 'r list" where
  "order_by = sort_key"

lemma set_order_by [simp]: "set (order_by k t) = set t"
  by (simp add: order_by_def)

lemma distinct_order_by: "distinct (map g (order_by k t)) \<longleftrightarrow> distinct (map g t)"
  by (metis mset_sort order_by_def distinct_map mset_eq_imp_distinct_iff set_sort)

end
