(* ===== verification/Js_Number.thy ===== *)
theory Js_Number
  imports Prelude "HOL-Library.Log_Nat"
begin

text \<open>
  JavaScript numbers. The services compute with IEEE binary64 values, so a finite number is
  modelled as the rational it denotes and every arithmetic operation of the source that can
  round is followed by \<open>fl64\<close>, round-to-nearest-even onto 53 significant bits. The exponent
  is unbounded: amounts of money are far away from overflow and from subnormal numbers.

  The component theories use two laws of rounding only, the relative error bound and the
  exactness on integers up to \<open>2 ^ 53\<close>. They are the interface \<open>rounding\<close>; the facts about money
  arithmetic are proved inside it, and the interpretation \<open>b64\<close> discharges the laws for
  \<open>fl64\<close>.
\<close>

section \<open>Rounding to the nearest number\<close>

definition exponent :: "rat \<Rightarrow> int" where
  "exponent x =
     (case quotient_of x of (a, b) \<Rightarrow>
        let e = bitlen a - bitlen b in if 2 powi e \<le> x then e else e - 1)"

definition round_half_even :: "rat \<Rightarrow> int" where
  "round_half_even y =
     (let f = \<lfloor>y\<rfloor>; d = y - of_int f in
      if d < 1/2 then f else if d > 1/2 then f + 1 else if even f then f else f + 1)"

definition fl64 :: "rat \<Rightarrow> rat" where
  "fl64 x =
     (if x = 0 then 0
      else let e = exponent \<bar>x\<bar> - 52
           in of_int (round_half_even (x * 2 powi (- e))) * 2 powi e)"

text \<open>\<open>Math.round\<close>: ties go towards plus infinity.\<close>

definition js_round :: "rat \<Rightarrow> int" where
  "js_round x = \<lfloor>x + 1/2\<rfloor>"

text \<open>Numbers at the boundary, where the code tests \<open>Number.isFinite\<close> or \<open>Object.is\<close>.\<close>

datatype js_number = Fin rat | NegZero | NonFinite

subsection \<open>Laws of \<open>fl64\<close>\<close>

lemma round_half_even_error: "\<bar>of_int (round_half_even y) - y\<bar> \<le> 1/2"
proof -
  have "of_int \<lfloor>y\<rfloor> \<le> y" and "y < of_int \<lfloor>y\<rfloor> + 1" by linarith+
  then show ?thesis by (auto simp: round_half_even_def Let_def)
qed

lemma round_half_even_int: "round_half_even (of_int n) = n"
  by (simp add: round_half_even_def)

lemma exponent_bounds:
  assumes "0 < x"
  shows "2 powi exponent x \<le> x" and "x < 2 powi (exponent x + 1)"
proof -
  obtain a b where q: "quotient_of x = (a, b)" by (cases "quotient_of x")
  then have b: "0 < b" and x: "x = of_int a / of_int b"
    by (auto simp: quotient_of_denom_pos quotient_of_div)
  with assms have a: "0 < a" by (simp add: zero_less_divide_iff)
  define m n where "m = nat (bitlen a)" and "n = nat (bitlen b)"
  have bm: "bitlen a = int m" and bn: "bitlen b = int n"
    by (simp_all add: m_def n_def bitlen_nonneg)
  have nat_pred: "nat (int i - 1) = i - 1" for i by (simp add: nat_diff_distrib')
  have a1: "2 ^ (m - 1) \<le> a" and a2: "a < 2 ^ m"
    using bitlen_bounds [OF a] by (simp_all only: bm nat_pred nat_int)
  have b1: "2 ^ (n - 1) \<le> b" and b2: "b < 2 ^ n"
    using bitlen_bounds [OF b] by (simp_all only: bn nat_pred nat_int)
  have pos: "0 < i" if "c < 2 ^ i" "0 < c" for c :: int and i
    using that by (cases i) auto
  have m: "0 < m" and n: "0 < n" using pos [OF a2 a] pos [OF b2 b] .
  have lo: "2 powi (int m - int n - 1) \<le> x"
  proof -
    have "(2::rat) ^ (m - 1) * of_int b \<le> of_int a * 2 ^ n"
    proof (rule mult_mono)
      show "(2::rat) ^ (m - 1) \<le> of_int a" using a1 by (metis of_int_le_iff of_int_numeral of_int_power)
      show "of_int b \<le> (2::rat) ^ n" using b2 by (metis less_le of_int_le_iff of_int_numeral of_int_power)
    qed (use a b in auto)
    then have "(2::rat) ^ (m - 1) / 2 ^ n \<le> x" using b by (simp add: x field_simps)
    moreover have "(2::rat) powi (int m - int n - 1) = 2 ^ (m - 1) / 2 ^ n"
      using m by (simp add: power_int_diff power_diff)
    ultimately show ?thesis by simp
  qed
  have hi: "x < 2 powi (int m - int n + 1)"
  proof -
    have "of_int a * (2::rat) ^ (n - 1) < 2 ^ m * of_int b"
    proof (rule mult_less_le_imp_less)
      show "of_int a < (2::rat) ^ m" using a2 by (metis of_int_less_iff of_int_numeral of_int_power)
      show "(2::rat) ^ (n - 1) \<le> of_int b" using b1 by (metis of_int_le_iff of_int_numeral of_int_power)
    qed (use a in auto)
    then have "x < 2 ^ m / 2 ^ (n - 1)" using b by (simp add: x field_simps)
    moreover have "(2::rat) powi (int m - int n + 1) = 2 ^ m / 2 ^ (n - 1)"
      using n by (simp add: power_int_diff power_int_add power_diff)
    ultimately show ?thesis by simp
  qed
  show "2 powi exponent x \<le> x" using lo by (simp add: exponent_def q bm bn Let_def)
  show "x < 2 powi (exponent x + 1)" using hi by (auto simp: exponent_def q bm bn Let_def)
qed

lemma fl64_error: "\<bar>fl64 x - x\<bar> \<le> \<bar>x\<bar> / 2 ^ 53"
proof (cases "x = 0")
  case True
  then show ?thesis by (simp add: fl64_def)
next
  case False
  define e where "e = exponent \<bar>x\<bar> - 52"
  define y where "y = x * 2 powi (- e)"
  have pos: "(0::rat) < 2 powi e" by simp
  have x: "x = y * 2 powi e" by (simp add: y_def power_int_minus)
  have "fl64 x = of_int (round_half_even y) * 2 powi e"
    using False unfolding fl64_def Let_def e_def y_def by simp
  with x have "fl64 x - x = (of_int (round_half_even y) - y) * 2 powi e"
    by (simp add: left_diff_distrib)
  then have "\<bar>fl64 x - x\<bar> = \<bar>of_int (round_half_even y) - y\<bar> * 2 powi e"
    using pos by (simp add: abs_mult)
  also have "\<dots> \<le> 1/2 * 2 powi e"
    using round_half_even_error [of y] pos by (intro mult_right_mono) auto
  also have "\<dots> = 2 powi exponent \<bar>x\<bar> / 2 ^ 53"
    by (simp add: e_def power_int_diff)
  also have "\<dots> \<le> \<bar>x\<bar> / 2 ^ 53"
    using exponent_bounds(1) [of "\<bar>x\<bar>"] False by (intro divide_right_mono) auto
  finally show ?thesis .
qed

lemma fl64_int:
  assumes "\<bar>n\<bar> \<le> 2 ^ 53"
  shows "fl64 (of_int n) = of_int n"
proof (cases "n = 0")
  case True
  then show ?thesis by (simp add: fl64_def)
next
  case False
  define E where "E = exponent \<bar>of_int n\<bar>"
  have le: "2 powi E \<le> (of_int \<bar>n\<bar> :: rat)"
    using exponent_bounds(1) [of "\<bar>of_int n\<bar>"] False by (simp add: E_def)
  have "(2::rat) powi E \<le> 2 powi 53"
  proof -
    have "(of_int \<bar>n\<bar> :: rat) \<le> of_int (2 ^ 53)" using assms by (simp only: of_int_le_iff)
    with le show ?thesis by simp
  qed
  have E: "E \<le> 53"
  proof (rule ccontr)
    assume "\<not> E \<le> 53"
    then have "(2::rat) powi 53 < 2 powi E" by (intro power_int_strict_increasing) auto
    with \<open>2 powi E \<le> 2 powi 53\<close> show False by simp
  qed
  have "\<exists>k. of_int n * (2::rat) powi (- (E - 52)) = of_int k"
  proof (cases "E \<le> 52")
    case True
    then have "(2::rat) powi (- (E - 52)) = of_int (2 ^ nat (52 - E))"
      by (simp add: power_int_def)
    then show ?thesis by (metis of_int_mult)
  next
    case False
    with E have E53: "E = 53" by simp
    have "(9007199254740992 :: rat) \<le> of_int \<bar>n\<bar>" using le E53 by simp
    then have "9007199254740992 \<le> \<bar>n\<bar>" by linarith
    with assms have n: "n = 2 ^ 53 \<or> n = - (2 ^ 53)" by auto
    have "of_int n * (2::rat) powi (- (E - 52)) = of_int (n div 2)"
      using n E53 by (auto simp: power_int_minus)
    then show ?thesis by blast
  qed
  then obtain k where k: "of_int n * (2::rat) powi (- (E - 52)) = of_int k" by blast
  have "fl64 (of_int n) = of_int k * 2 powi (E - 52)"
    using False k by (simp add: fl64_def E_def [symmetric] Let_def round_half_even_int)
  also have "\<dots> = of_int n * ((2::rat) powi (- (E - 52)) * 2 powi (E - 52))"
    by (simp add: k [symmetric])
  also have "\<dots> = of_int n" by (simp add: power_int_add [symmetric])
  finally show ?thesis .
qed

text \<open>Between two powers of two the values of \<open>fl64\<close> lie on a grid.\<close>

lemma round_half_even_near: "\<bar>y - of_int n\<bar> < 1/2 \<Longrightarrow> round_half_even y = n"
proof -
  assume y: "\<bar>y - of_int n\<bar> < 1/2"
  then have "\<lfloor>y\<rfloor> = n \<or> \<lfloor>y\<rfloor> = n - 1" by linarith
  then show ?thesis using y by (auto simp: round_half_even_def Let_def)
qed

lemma exponent_unique:
  assumes "2 powi e \<le> x" "x < 2 powi (e + 1)"
  shows "exponent x = e"
proof -
  have "(0::rat) < 2 powi e" by simp
  with assms(1) have "0 < x" by linarith
  note b = exponent_bounds [OF this]
  have mono: "(2::rat) powi i \<le> 2 powi j" if "i \<le> j" for i j using that by (intro power_int_increasing) auto
  have "\<not> e + 1 \<le> exponent x" using mono [of "e + 1" "exponent x"] b assms by linarith
  moreover have "\<not> exponent x + 1 \<le> e" using mono [of "exponent x + 1" e] b assms by linarith
  ultimately show ?thesis by simp
qed

lemma fl64_grid:
  assumes x: "2 powi e \<le> x" "x < 2 powi (e + 1)" and n: "\<bar>x * 2 powi (52 - e) - of_int n\<bar> < 1/2"
  shows "fl64 x = of_int n * 2 powi (e - 52)"
proof -
  have "(0::rat) < 2 powi e" by simp
  with x have "0 < x" by linarith
  moreover from this have "exponent \<bar>x\<bar> = e" using exponent_unique [OF x] by simp
  ultimately show ?thesis using round_half_even_near [OF n] by (simp add: fl64_def Let_def)
qed

subsection \<open>The nearest integer\<close>

lemma js_round_eqI: "\<bar>x - of_int n\<bar> < 1/2 \<Longrightarrow> js_round x = n"
  unfolding js_round_def floor_eq_iff by (simp only: abs_less_iff) linarith

lemma js_round_int [simp]: "js_round (of_int n) = n"
  by (simp add: js_round_eqI)

lemma js_round_error: "\<bar>of_int (js_round x) - x\<bar> \<le> 1/2"
  unfolding js_round_def by linarith

lemma js_round_mono: "x \<le> y \<Longrightarrow> js_round x \<le> js_round y"
  by (simp add: js_round_def floor_mono)

section \<open>The interface of a rounding operation\<close>

definition fsum :: "(rat \<Rightarrow> rat) \<Rightarrow> rat list \<Rightarrow> rat" where
  "fsum fl xs = foldl (\<lambda>t x. fl (t + x)) 0 xs"

locale rounding =
  fixes fl :: "rat \<Rightarrow> rat"
  assumes relative_error: "\<bar>fl x - x\<bar> \<le> \<bar>x\<bar> / 2 ^ 53"
    and exact_int: "\<bar>n\<bar> \<le> 2 ^ 53 \<Longrightarrow> fl (of_int n) = of_int n"
begin

lemma fl_0 [simp]: "fl 0 = 0"
  using exact_int [of 0] by simp

lemma fl_nonneg: "0 \<le> fl x" if "0 \<le> x"
proof -
  have "x / 2 ^ 53 \<le> x" using that by simp
  then show ?thesis using relative_error [of x] that by linarith
qed

text \<open>Rounding a value that is already close to \<open>y\<close> keeps it close.\<close>

lemma fl_close: "\<bar>x - y\<bar> \<le> d \<Longrightarrow> \<bar>fl x - y\<bar> \<le> d + (\<bar>y\<bar> + d) / 2 ^ 53"
proof -
  assume d: "\<bar>x - y\<bar> \<le> d"
  then have "\<bar>x\<bar> \<le> \<bar>y\<bar> + d" by linarith
  then have "\<bar>x\<bar> / 2 ^ 53 \<le> (\<bar>y\<bar> + d) / 2 ^ 53" by (simp add: divide_right_mono)
  with relative_error [of x] d show ?thesis by linarith
qed

text \<open>
  Dividing an integer by a positive scale and multiplying it back, with a rounding after
  each operation, lands within half a unit of the integer: \<open>Math.round\<close> recovers it.
\<close>

lemma scale_roundtrip:
  assumes s: "0 < s" and m: "\<bar>m\<bar> \<le> 2 ^ 50"
  shows "js_round (fl (fl (of_int m / of_int s) * of_int s)) = m"
proof (rule js_round_eqI)
  have M: "\<bar>of_int m :: rat\<bar> \<le> 2 ^ 50"
    using m by (metis of_int_abs of_int_le_iff of_int_numeral of_int_power)
  have "\<bar>fl (of_int m / of_int s) - of_int m / of_int s\<bar> \<le> \<bar>of_int m / of_int s\<bar> / 2 ^ 53"
    by (rule relative_error)
  then have "\<bar>fl (of_int m / of_int s) * of_int s - of_int m\<bar> \<le> \<bar>of_int m\<bar> / 2 ^ 53"
    using s by (simp add: abs_le_iff field_simps)
  from fl_close [OF this] M
  show "\<bar>fl (fl (of_int m / of_int s) * of_int s) - of_int m\<bar> < 1/2" by simp
qed

text \<open>
  Adding \<open>n\<close> converted amounts one by one in floating point drifts by at most \<open>3 n\<close> units of
  relative error.
\<close>

lemma fsum_drift:
  assumes s: "0 < s" and ms: "\<forall>m \<in> set ms. 0 \<le> m" and n: "length ms \<le> 2 ^ 50"
  shows "\<bar>fsum fl (map (\<lambda>m. fl (of_int m / of_int s)) ms) - of_int (sum_list ms) / of_int s\<bar>
    \<le> 3 * of_nat (length ms) * (of_int (sum_list ms) / of_int s) / 2 ^ 53"
  using ms n
proof (induction ms rule: rev_induct)
  case Nil
  then show ?case by (simp add: fsum_def)
next
  case (snoc m ms)
  define k :: rat where "k = of_nat (length ms)"
  define S :: rat where "S = of_int (sum_list ms) / of_int s"
  define y :: rat where "y = of_int m / of_int s"
  define t where "t = fsum fl (map (\<lambda>m. fl (of_int m / of_int s)) ms)"
  have S0: "0 \<le> S" using snoc.prems s by (simp add: S_def sum_list_nonneg)
  have y0: "0 \<le> y" using snoc.prems s by (simp add: y_def)
  have k0: "0 \<le> k" by (simp add: k_def)
  have "of_nat (length ms) \<le> (of_nat (2 ^ 50) :: rat)"
    using snoc.prems(2) by (simp only: of_nat_le_iff) simp
  then have k1: "k \<le> 2 ^ 50" by (simp add: k_def)
  have IH: "\<bar>t - S\<bar> \<le> 3 * k * S / 2 ^ 53"
    using snoc by (simp add: t_def S_def k_def)
  have ey: "\<bar>fl y - y\<bar> \<le> y / 2 ^ 53" using relative_error [of y] y0 by simp
  define d where "d = 3 * k * S / 2 ^ 53 + y / 2 ^ 53"
  have d: "\<bar>(t + fl y) - (S + y)\<bar> \<le> d" using IH ey unfolding d_def by linarith
  have "\<bar>fl (t + fl y) - (S + y)\<bar> \<le> d + (\<bar>S + y\<bar> + d) / 2 ^ 53" by (rule fl_close [OF d])
  also have "\<dots> \<le> 3 * (k + 1) * (S + y) / 2 ^ 53"
  proof -
    have kS: "0 \<le> k * S" and ky: "0 \<le> k * y" using k0 S0 y0 by simp_all
    have "k * S \<le> 2 ^ 50 * S" using k1 S0 by (intro mult_right_mono) auto
    then have "d \<le> S + y" using S0 y0 by (simp add: d_def)
    then have "d + (\<bar>S + y\<bar> + d) / 2 ^ 53 \<le> d + 2 * (S + y) / 2 ^ 53" using S0 y0 by simp
    also have "\<dots> \<le> 3 * (k + 1) * (S + y) / 2 ^ 53"
      using kS ky S0 y0 by (simp add: d_def field_simps)
    finally show ?thesis .
  qed
  finally show ?case
    by (simp add: fsum_def t_def S_def y_def k_def add_divide_distrib distrib_right)
qed

lemma fsum_zero: "\<forall>m \<in> set ms. m = 0 \<Longrightarrow> fsum fl (map (\<lambda>m. fl (of_int m / of_int s)) ms) = 0"
  by (induction ms rule: rev_induct) (simp_all add: fsum_def)

text \<open>
  Hence the running total converts back to the exact sum of minor units while the number of
  parts times their sum stays below \<open>2 ^ 49\<close>.
\<close>

lemma fsum_roundtrip:
  assumes s: "0 < s" and ms: "\<forall>m \<in> set ms. 0 \<le> m" and n: "int (length ms) * sum_list ms \<le> 2 ^ 49"
  shows "js_round (fl (fsum fl (map (\<lambda>m. fl (of_int m / of_int s)) ms) * of_int s)) = sum_list ms"
proof (cases "sum_list ms = 0")
  case True
  then have "\<forall>m \<in> set ms. m = 0" using ms sum_list_nonneg_eq_0_iff [of ms] by simp
  then show ?thesis using True fsum_zero [of ms s] js_round_int [of 0] by simp
next
  case False
  then have "1 \<le> sum_list ms" using sum_list_nonneg [of ms] ms by force
  then have "int (length ms) * 1 \<le> int (length ms) * sum_list ms" by (intro mult_left_mono) auto
  with n have len: "length ms \<le> 2 ^ 50" by simp
  show ?thesis
  proof (rule js_round_eqI)
    define t where "t = fsum fl (map (\<lambda>m. fl (of_int m / of_int s)) ms)"
    define S :: rat where "S = of_int (sum_list ms)"
    define k :: rat where "k = of_nat (length ms)"
    have S0: "0 \<le> S" using ms by (simp add: S_def sum_list_nonneg)
    have "(of_int (int (length ms) * sum_list ms) :: rat) \<le> of_int (2 ^ 49)" using n by (simp only: of_int_le_iff)
    then have kS: "k * S \<le> 2 ^ 49" by (simp add: k_def S_def)
    have S1: "S \<le> 2 ^ 49"
    proof (cases "ms = []")
      case False
      then have "1 \<le> k" by (simp add: k_def Suc_le_eq)
      with S0 have "S \<le> k * S" by (simp add: mult_le_cancel_right1)
      with kS show ?thesis by simp
    qed (simp add: S_def)
    have "\<bar>t - S / of_int s\<bar> \<le> 3 * k * (S / of_int s) / 2 ^ 53"
      using fsum_drift [OF s ms len] by (simp add: t_def S_def k_def)
    then have "\<bar>t * of_int s - S\<bar> \<le> 3 * (k * S) / 2 ^ 53"
      using s by (simp add: abs_le_iff field_simps)
    with kS have "\<bar>t * of_int s - S\<bar> \<le> 3/16" by simp
    from fl_close [OF this] have c: "\<bar>fl (t * of_int s) - S\<bar> \<le> 3/16 + (\<bar>S\<bar> + 3/16) / 2 ^ 53" .
    have "(\<bar>S\<bar> + 3/16) / 2 ^ 53 \<le> (2 ^ 49 + 3/16) / (2 ^ 53 :: rat)"
      using S0 S1 by (intro divide_right_mono) auto
    also have "\<dots> < 1/4" by simp
    finally have "\<bar>fl (t * of_int s) - S\<bar> < 1/2" using c by linarith
    then show "\<bar>fl (t * of_int s) - of_int (sum_list ms)\<bar> < 1/2" by (simp add: S_def)
  qed
qed

text \<open>\<open>Math.floor(a / b)\<close> is integer division, although the quotient is rounded.\<close>

lemma floor_quotient:
  assumes a: "0 \<le> a" "a < 2 ^ 53" and b: "0 < b"
  shows "\<lfloor>fl (of_int a / of_int b)\<rfloor> = a div b"
proof -
  define q where "q = a div b"
  define x :: rat where "x = of_int a / of_int b"
  have q0: "0 \<le> q" using a b by (simp add: q_def pos_imp_zdiv_nonneg_iff)
  have A: "(of_int a :: rat) < 2 ^ 53"
    using a(2) by (metis of_int_less_iff of_int_numeral of_int_power)
  have ab: "a = q * b + a mod b" "0 \<le> a mod b" "a mod b \<le> b - 1"
    using b by (simp_all add: q_def)
  have x0: "0 \<le> x" using a b by (simp add: x_def)
  have err: "\<bar>fl x - x\<bar> < 1 / of_int b"
  proof -
    have "\<bar>fl x - x\<bar> \<le> x / 2 ^ 53" using relative_error [of x] x0 by simp
    also have "\<dots> < 1 / of_int b" using A b by (simp add: x_def field_simps)
    finally show ?thesis .
  qed
  have up: "x \<le> of_int q + 1 - 1 / of_int b"
  proof -
    have "(of_int a :: rat) \<le> of_int (q * b + b - 1)" using ab by (simp only: of_int_le_iff)
    then show ?thesis using b by (simp add: x_def field_simps)
  qed
  have "of_int q \<le> fl x"
  proof (cases "a mod b = 0")
    case True
    then have x: "x = of_int q" using ab b by (simp add: x_def)
    have "q \<le> a" using ab b q0 by (metis True add.right_neutral mult_left_le mult.commute
      zero_less_imp_eq_int le_add1 add_0 int_one_le_iff_zero_less mult_le_cancel_left1 not_le)
    then have "\<bar>q\<bar> \<le> 2 ^ 53" using q0 a by linarith
    then show ?thesis using exact_int x by simp
  next
    case False
    with ab have "1 \<le> a mod b" by linarith
    then have "(of_int (q * b + 1) :: rat) \<le> of_int a" using ab by (simp only: of_int_le_iff)
    then have "(of_int q * of_int b + 1) / of_int b \<le> x"
      using b unfolding x_def by (intro divide_right_mono) auto
    then have "of_int q + 1 / of_int b \<le> x" using b by (simp add: add_divide_distrib)
    with err show ?thesis by linarith
  qed
  moreover have "fl x < of_int q + 1" using err up by linarith
  ultimately show ?thesis by (simp add: floor_eq_iff x_def q_def)
qed

end

interpretation b64: rounding fl64
  by unfold_locales (rule fl64_error, rule fl64_int)

end
