(* ===== verification/Money.thy ===== *)
theory Money
  imports Js_Number
begin

text \<open>
  The money policy of \<open>src/src/fees/money.ts\<close>: currencies and their minor-unit digits, the
  conversions between major-unit JavaScript numbers and integer minor units, and the exact
  sum and product. Below it stands the storage side: a \<open>DECIMAL(12,2)\<close> column holds an
  integer number of hundredths, \<open>Decimal.toNumber\<close> reads it as the nearest number, and a
  write rounds to the scale of the column and rejects what does not fit.
\<close>

section \<open>Currencies\<close>

datatype CurrencyCode = SAR | AED | QAR | BHD | KWD | OMR

fun minorDigitsFor :: "CurrencyCode \<Rightarrow> nat" where
  "minorDigitsFor SAR = 2"
| "minorDigitsFor AED = 2"
| "minorDigitsFor QAR = 2"
| "minorDigitsFor BHD = 3"
| "minorDigitsFor KWD = 3"
| "minorDigitsFor OMR = 3"

definition scaleFor :: "CurrencyCode \<Rightarrow> int" where
  "scaleFor c = 10 ^ minorDigitsFor c"

lemma scaleFor_pos [simp]: "0 < scaleFor c"
  by (simp add: scaleFor_def)

lemma scaleFor_2 [simp]: "scaleFor SAR = 100" "scaleFor AED = 100" "scaleFor QAR = 100"
  by (simp_all add: scaleFor_def)

section \<open>Conversions\<close>

definition to_minor :: "rat \<Rightarrow> CurrencyCode \<Rightarrow> int" where
  "to_minor amount c = js_round (fl64 (amount * of_int (scaleFor c)))"

definition toMinor :: "js_number \<Rightarrow> CurrencyCode \<Rightarrow> int res" where
  "toMinor amount c =
     (case amount of
        Fin x \<Rightarrow> Inr (to_minor x c)
      | NegZero \<Rightarrow> Inr 0
      | NonFinite \<Rightarrow> Inl (JsError ''money: cannot convert non-finite amount''))"

definition fromMinor :: "int \<Rightarrow> CurrencyCode \<Rightarrow> rat" where
  "fromMinor minor c = fl64 (of_int minor / of_int (scaleFor c))"

definition roundMoney :: "rat \<Rightarrow> CurrencyCode \<Rightarrow> rat" where
  "roundMoney amount c = fromMinor (to_minor amount c) c"

definition addMoney :: "rat list \<Rightarrow> CurrencyCode \<Rightarrow> rat" where
  "addMoney amounts c = fromMinor (foldl (\<lambda>sum a. sum + to_minor a c) 0 amounts) c"

text \<open>The count is a JavaScript number too; \<open>Number.isInteger\<close> is tested first.\<close>

definition mulMoney :: "rat \<Rightarrow> rat \<Rightarrow> CurrencyCode \<Rightarrow> rat res" where
  "mulMoney unitAmount n c =
     (if of_int \<lfloor>n\<rfloor> \<noteq> n then Inl (JsError ''money: mulMoney count must be an integer'')
      else Inr (fromMinor (to_minor unitAmount c * \<lfloor>n\<rfloor>) c))"

section \<open>Decimal columns\<close>

type_synonym dec2 = int

definition dec_num :: "dec2 \<Rightarrow> rat" where
  "dec_num k = fl64 (of_int k / 100)"

datatype money_value = MoneyNull | MoneyNumber rat | MoneyDecimal dec2

fun moneyToNumber :: "money_value \<Rightarrow> rat" where
  "moneyToNumber MoneyNull = 0"
| "moneyToNumber (MoneyNumber x) = x"
| "moneyToNumber (MoneyDecimal k) = dec_num k"

definition dec_round :: "rat \<Rightarrow> int" where
  "dec_round x = (if 0 \<le> x then \<lfloor>x + 1/2\<rfloor> else - \<lfloor>- x + 1/2\<rfloor>)"

definition to_dec :: "rat \<Rightarrow> dec2 res" where
  "to_dec x = (let k = dec_round (100 * x) in
     if \<bar>k\<bar> < 10 ^ 12 then Inr k else Inl (DbRange ''numeric field overflow''))"

text \<open>The same for the \<open>DECIMAL(14,2)\<close> columns of the treasury.\<close>

definition to_dec14 :: "rat \<Rightarrow> dec2 res" where
  "to_dec14 x = (let k = dec_round (100 * x) in
     if \<bar>k\<bar> < 10 ^ 14 then Inr k else Inl (DbRange ''numeric field overflow''))"

text \<open>A number passed as an equality filter on a column matches the rows that read as it.\<close>

definition dec_matches :: "dec2 \<Rightarrow> rat \<Rightarrow> bool" where
  "dec_matches k x \<longleftrightarrow> dec_num k = x"

section \<open>Round trips\<close>

lemma to_minor_fromMinor [simp]: "\<bar>m\<bar> \<le> 2 ^ 50 \<Longrightarrow> to_minor (fromMinor m c) c = m"
  unfolding to_minor_def fromMinor_def by (rule b64.scale_roundtrip) simp_all

lemma fromMinor_inj: "\<bar>m\<bar> \<le> 2 ^ 50 \<Longrightarrow> \<bar>n\<bar> \<le> 2 ^ 50 \<Longrightarrow> fromMinor m c = fromMinor n c \<longleftrightarrow> m = n"
  by (metis to_minor_fromMinor)

lemma fromMinor_0 [simp]: "fromMinor 0 c = 0"
  by (simp add: fromMinor_def)

lemma to_minor_0 [simp]: "to_minor 0 c = 0"
  using js_round_int [of 0] by (simp add: to_minor_def)

lemma fromMinor_nonneg: "0 \<le> m \<Longrightarrow> 0 \<le> fromMinor m c"
  unfolding fromMinor_def by (rule b64.fl_nonneg) (simp add: less_imp_le)

lemma dec_num_fromMinor: "minorDigitsFor c = 2 \<Longrightarrow> dec_num k = fromMinor k c"
  by (simp add: dec_num_def fromMinor_def scaleFor_def)

lemma to_minor_dec_num [simp]: "minorDigitsFor c = 2 \<Longrightarrow> \<bar>k\<bar> \<le> 2 ^ 50 \<Longrightarrow> to_minor (dec_num k) c = k"
  by (simp add: dec_num_fromMinor)

lemma to_minor_dec_num_12 [simp]: "minorDigitsFor c = 2 \<Longrightarrow> \<bar>k\<bar> < 10 ^ 12 \<Longrightarrow> to_minor (dec_num k) c = k"
  by (rule to_minor_dec_num) simp_all

lemma dec_num_0 [simp]: "dec_num 0 = 0"
  by (simp add: dec_num_def)

lemma dec_num_inj: "\<bar>m\<bar> \<le> 2 ^ 50 \<Longrightarrow> \<bar>n\<bar> \<le> 2 ^ 50 \<Longrightarrow> dec_num m = dec_num n \<longleftrightarrow> m = n"
  using fromMinor_inj [of m n SAR] by (simp add: dec_num_fromMinor [of SAR])

lemma dec_matches_dec_num [simp]:
  "\<bar>m\<bar> \<le> 2 ^ 50 \<Longrightarrow> \<bar>n\<bar> \<le> 2 ^ 50 \<Longrightarrow> dec_matches m (dec_num n) \<longleftrightarrow> m = n"
  by (simp add: dec_matches_def dec_num_inj)

lemma dec_round_eqI: "\<bar>x - of_int n\<bar> < 1/2 \<Longrightarrow> dec_round x = n"
proof -
  assume x: "\<bar>x - of_int n\<bar> < 1/2"
  then have "\<bar>- x - of_int (- n)\<bar> < 1/2" by linarith
  with x show ?thesis
    using js_round_eqI [of x n] js_round_eqI [of "- x" "- n"]
    by (simp add: dec_round_def js_round_def)
qed

lemma dec_round_error: "\<bar>of_int (dec_round x) - x\<bar> \<le> 1/2"
  using js_round_error [of x] js_round_error [of "- x"]
  unfolding dec_round_def js_round_def by (cases "0 \<le> x") (simp_all only: if_True if_False of_int_minus abs_le_iff, linarith+)

text \<open>A number that came out of \<open>fromMinor\<close> is stored as exactly its minor units.\<close>

lemma dec_num_close: "\<bar>100 * dec_num k - of_int k\<bar> \<le> \<bar>of_int k\<bar> / 2 ^ 53"
proof -
  have "\<bar>dec_num k - of_int k / 100\<bar> \<le> \<bar>of_int k / 100\<bar> / 2 ^ 53"
    unfolding dec_num_def by (rule fl64_error)
  then show ?thesis by (simp add: abs_le_iff field_simps)
qed

lemma to_dec_dec_num: "\<bar>k\<bar> < 10 ^ 12 \<Longrightarrow> to_dec (dec_num k) = Inr k"
proof -
  assume k: "\<bar>k\<bar> < 10 ^ 12"
  then have "(of_int \<bar>k\<bar> :: rat) < of_int (10 ^ 12)" by (simp only: of_int_less_iff)
  then have "\<bar>of_int k :: rat\<bar> / 2 ^ 53 < 1/2" by simp
  with dec_num_close [of k] have "\<bar>100 * dec_num k - of_int k\<bar> < 1/2" by linarith
  then have "dec_round (100 * dec_num k) = k" by (rule dec_round_eqI)
  with k show ?thesis by (simp add: to_dec_def)
qed

lemma to_dec_fromMinor: "minorDigitsFor c = 2 \<Longrightarrow> \<bar>m\<bar> < 10 ^ 12 \<Longrightarrow> to_dec (fromMinor m c) = Inr m"
  by (simp add: dec_num_fromMinor [symmetric] to_dec_dec_num)

lemma to_dec_bound: "to_dec x = Inr k \<Longrightarrow> \<bar>k\<bar> < 10 ^ 12"
  by (auto simp: to_dec_def Let_def split: if_splits)

text \<open>And what the column accepts is never a rounded image of a bigger amount.\<close>

lemma to_dec_dec_numD:
  assumes "to_dec (dec_num m) = Inr k"
  shows "k = m"
proof (cases "\<bar>m\<bar> < 10 ^ 12")
  case True
  with assms to_dec_dec_num show ?thesis by simp
next
  case False
  define x where "x = 100 * dec_num m"
  have k: "k = dec_round x" "\<bar>k\<bar> < 10 ^ 12"
    using assms by (auto simp: to_dec_def x_def Let_def split: if_splits)
  have "\<bar>of_int k - x\<bar> \<le> 1/2"
    unfolding k(1) by (rule dec_round_error)
  moreover have "\<bar>x - of_int m\<bar> \<le> \<bar>of_int m\<bar> / 2 ^ 53" unfolding x_def by (rule dec_num_close)
  ultimately have d: "\<bar>of_int k - of_int m :: rat\<bar> \<le> 1/2 + \<bar>of_int m\<bar> / 2 ^ 53" by linarith
  have K: "(of_int \<bar>k\<bar> :: rat) \<le> 10 ^ 12 - 1"
  proof -
    have "\<bar>k\<bar> \<le> 10 ^ 12 - 1" using k(2) by linarith
    then have "(of_int \<bar>k\<bar> :: rat) \<le> of_int (10 ^ 12 - 1)" by (simp only: of_int_le_iff)
    then show ?thesis by simp
  qed
  have M: "(10 :: rat) ^ 12 \<le> of_int \<bar>m\<bar>"
  proof -
    have "(of_int (10 ^ 12) :: rat) \<le> of_int \<bar>m\<bar>" using False by (simp only: of_int_le_iff)
    then show ?thesis by simp
  qed
  have "\<bar>of_int m :: rat\<bar> - \<bar>of_int k\<bar> \<le> 1/2 + \<bar>of_int m\<bar> / 2 ^ 53" using d by linarith
  with K M show ?thesis by simp
qed

lemma to_dec_fromMinorD: "minorDigitsFor c = 2 \<Longrightarrow> to_dec (fromMinor m c) = Inr k \<Longrightarrow> k = m"
  by (metis dec_num_fromMinor to_dec_dec_numD)

lemma foldl_to_minor: "foldl (\<lambda>t a. t + to_minor a c) n xs = n + sum_list (map (\<lambda>a. to_minor a c) xs)"
  by (induction xs arbitrary: n) simp_all

section \<open>Properties\<close>

text \<open>
  Converting minor units to a major-unit JavaScript number and back is the identity for
  every currency, although the division and the multiplication are rounded to binary64;
  the bound 2 to the 50 is far above what a \<open>DECIMAL(12,2)\<close> column can hold.
\<close>

theorem minor_roundtrip:
  "\<bar>m\<bar> \<le> 2 ^ 50 \<Longrightarrow> toMinor (Fin (fromMinor m c)) c = Inr m"
  by (simp add: toMinor_def)

lemma minor_roundtrip_witness: "toMinor (Fin (fromMinor 1999 SAR)) SAR = Inr 1999"
  by (rule minor_roundtrip) simp

text \<open>
  \<open>addMoney\<close> is exact. Adding amounts that denote whole minor units gives the number
  nearest to the exact decimal total, so 0.1 + 0.2 is 0.3, whatever the currency.
\<close>

theorem addMoney_exact:
  "\<forall>m \<in> set ms. \<bar>m\<bar> \<le> 2 ^ 50 \<Longrightarrow>
     addMoney (map (\<lambda>m. fromMinor m c) ms) c = fromMinor (sum_list ms) c"
proof -
  assume "\<forall>m \<in> set ms. \<bar>m\<bar> \<le> 2 ^ 50"
  then have "map (\<lambda>a. to_minor (fromMinor a c) c) ms = ms" by (intro map_idI) auto
  then show ?thesis by (simp add: addMoney_def foldl_to_minor o_def)
qed

lemma addMoney_exact_witness:
  "addMoney [fromMinor 10 SAR, fromMinor 20 SAR] SAR = fromMinor 30 SAR"
  using addMoney_exact [of "[10, 20]" SAR] by simp

end
