(* ===== verification/Fees.thy ===== *)
theory Fees
  imports Money
begin

text \<open>
  The fee engine of \<open>src/src/fees/fee-engine.ts\<close>: the platform's service fee, the delivery fee
  and the authoritative grand total of an order.
\<close>

section \<open>Policy constants\<close>

definition QIFT_SERVICE_FEE_RATE :: rat where
  "QIFT_SERVICE_FEE_RATE = fl64 (3 / 100)"

definition QIFT_MIN_SERVICE_FEE :: int where
  "QIFT_MIN_SERVICE_FEE = 5"

definition FAST_DELIVERY_FEE :: int where
  "FAST_DELIVERY_FEE = 15"

definition STANDARD_DELIVERY_FEE :: int where
  "STANDARD_DELIVERY_FEE = 0"

definition FEE_POLICY_VERSION :: string where
  "FEE_POLICY_VERSION = ''fee-v1''"

datatype DeliverySpeed = Same_day | Fast

record FeeInput =
  fi_itemSubtotal :: rat
  fi_deliverySpeed :: DeliverySpeed

record FeePolicy =
  fp_serviceFeeRate :: rat
  fp_minServiceFee :: int
  fp_fastDeliveryFee :: int
  fp_standardDeliveryFee :: int
  fp_version :: string

record FeeBreakdown =
  fb_itemSubtotal :: rat
  fb_deliveryFee :: int
  fb_serviceFee :: int
  fb_grandTotal :: rat
  fb_policy :: FeePolicy

section \<open>Operations\<close>

definition feePolicySnapshot :: FeePolicy where
  "feePolicySnapshot =
     \<lparr> fp_serviceFeeRate = QIFT_SERVICE_FEE_RATE,
       fp_minServiceFee = QIFT_MIN_SERVICE_FEE,
       fp_fastDeliveryFee = FAST_DELIVERY_FEE,
       fp_standardDeliveryFee = STANDARD_DELIVERY_FEE,
       fp_version = FEE_POLICY_VERSION \<rparr>"

definition serviceFeeFor :: "rat \<Rightarrow> int" where
  "serviceFeeFor itemSubtotal =
     max QIFT_MIN_SERVICE_FEE (js_round (fl64 (itemSubtotal * QIFT_SERVICE_FEE_RATE)))"

definition deliveryFeeFor :: "DeliverySpeed \<Rightarrow> int" where
  "deliveryFeeFor speed = (if speed = Fast then FAST_DELIVERY_FEE else STANDARD_DELIVERY_FEE)"

definition computeFees :: "FeeInput \<Rightarrow> FeeBreakdown" where
  "computeFees inp =
     (let itemSubtotal = fi_itemSubtotal inp;
          deliveryFee = deliveryFeeFor (fi_deliverySpeed inp);
          serviceFee = serviceFeeFor itemSubtotal;
          grandTotal = addMoney [itemSubtotal, of_int deliveryFee, of_int serviceFee] SAR
      in \<lparr> fb_itemSubtotal = itemSubtotal, fb_deliveryFee = deliveryFee,
           fb_serviceFee = serviceFee, fb_grandTotal = grandTotal,
           fb_policy = feePolicySnapshot \<rparr>)"

section \<open>Lemmas\<close>

lemma service_fee_floor: "QIFT_MIN_SERVICE_FEE \<le> serviceFeeFor x"
  by (simp add: serviceFeeFor_def)

lemma to_minor_whole: "\<bar>n\<bar> \<le> 2 ^ 40 \<Longrightarrow> to_minor (of_int n) SAR = 100 * n"
proof -
  assume "\<bar>n\<bar> \<le> 2 ^ 40"
  then have "fl64 (of_int (n * 100)) = of_int (n * 100)" by (intro fl64_int) simp
  then show ?thesis
    unfolding to_minor_def by (simp only: scaleFor_2 of_int_mult [symmetric] js_round_int)
qed

text \<open>The computed rate is within two rounding errors of three per cent.\<close>

lemma service_fee_close:
  assumes "0 \<le> m" and "m \<le> 10 ^ 12"
  shows "\<bar>fl64 (fromMinor m SAR * QIFT_SERVICE_FEE_RATE) - of_int m * 3 / 10000\<bar> < 1 / 10 ^ 5"
proof -
  define x where "x = fromMinor m SAR"
  have m: "(0::rat) \<le> of_int m" "(of_int m :: rat) \<le> 10 ^ 12"
    using assms by (simp, metis of_int_le_iff of_int_numeral of_int_power)
  have r: "\<bar>QIFT_SERVICE_FEE_RATE - 3/100\<bar> \<le> (3/100) / 2 ^ 53"
    using fl64_error [of "3/100"] by (simp add: QIFT_SERVICE_FEE_RATE_def)
  have x: "\<bar>x - of_int m / 100\<bar> \<le> of_int m / 100 / 2 ^ 53"
    using fl64_error [of "of_int m / 100"] m by (simp add: x_def fromMinor_def)
  have x0: "0 \<le> x" unfolding x_def by (rule fromMinor_nonneg) (rule assms)
  have pow: "(2::rat) ^ 53 = 9007199254740992" "(10::rat) ^ 12 = 1000000000000" "(10::rat) ^ 10 = 10000000000"
    by simp_all
  have x1: "x \<le> 10 ^ 10 + 1" using abs_le_D1 [OF x] m unfolding pow by linarith
  have "\<bar>x * QIFT_SERVICE_FEE_RATE - of_int m * 3 / 10000\<bar>
      = \<bar>x * (QIFT_SERVICE_FEE_RATE - 3/100) + (x - of_int m / 100) * (3/100)\<bar>"
    by (simp add: algebra_simps)
  also have "\<dots> \<le> x * \<bar>QIFT_SERVICE_FEE_RATE - 3/100\<bar> + \<bar>x - of_int m / 100\<bar> * (3/100)"
  proof -
    have "\<bar>x * (QIFT_SERVICE_FEE_RATE - 3/100)\<bar> = x * \<bar>QIFT_SERVICE_FEE_RATE - 3/100\<bar>"
      using x0 by (simp only: abs_mult abs_of_nonneg)
    moreover have "\<bar>(x - of_int m / 100) * (3/100)\<bar> = \<bar>x - of_int m / 100\<bar> * (3/100)"
      by (simp only: abs_mult)
    ultimately show ?thesis
      using abs_triangle_ineq [of "x * (QIFT_SERVICE_FEE_RATE - 3/100)" "(x - of_int m / 100) * (3/100)"]
      by linarith
  qed
  also have "\<dots> \<le> (10 ^ 10 + 1) * ((3/100) / 2 ^ 53) + (10 ^ 10 / 2 ^ 53) * (3/100)"
  proof (intro add_mono mult_mono)
    show "\<bar>x - of_int m / 100\<bar> \<le> 10 ^ 10 / 2 ^ 53" using x m by simp
  qed (use x1 r in auto)
  also have "\<dots> \<le> 1 / 10 ^ 6" by simp
  finally have c: "\<bar>x * QIFT_SERVICE_FEE_RATE - of_int m * 3 / 10000\<bar> \<le> 1 / 10 ^ 6" .
  have "\<bar>fl64 (x * QIFT_SERVICE_FEE_RATE) - of_int m * 3 / 10000\<bar>
      \<le> 1 / 10 ^ 6 + (\<bar>of_int m * 3 / 10000\<bar> + 1 / 10 ^ 6) / 2 ^ 53"
    by (rule b64.fl_close [OF c])
  also have "\<bar>of_int m * 3 / 10000\<bar> = (of_int m * 3 / 10000 :: rat)" using m by simp
  also have "1 / 10 ^ 6 + (of_int m * 3 / 10000 + 1 / 10 ^ 6) / 2 ^ 53
      \<le> 1 / 10 ^ 6 + (10 ^ 12 * 3 / 10000 + 1 / 10 ^ 6) / (2 ^ 53 :: rat)"
    using m by (intro add_left_mono divide_right_mono add_right_mono mult_right_mono) auto
  also have "\<dots> < 1 / 10 ^ 5" by simp
  finally show ?thesis by (simp only: x_def)
qed

section \<open>Properties\<close>

text \<open>
  The grand total of an order is exact: in minor units it is the item subtotal plus one
  hundred times the whole-riyal fees, for every catalogue price up to ten billion riyals.
\<close>

theorem computeFees_total:
  assumes "0 \<le> m" and "m \<le> 10 ^ 12"
  shows "to_minor (fb_grandTotal (computeFees \<lparr>fi_itemSubtotal = fromMinor m SAR, fi_deliverySpeed = d\<rparr>)) SAR
    = m + 100 * deliveryFeeFor d + 100 * serviceFeeFor (fromMinor m SAR)"
proof -
  define f where "f = serviceFeeFor (fromMinor m SAR)"
  have M: "(of_int m :: rat) \<le> 10 ^ 12"
    using assms by (metis of_int_le_iff of_int_numeral of_int_power)
  have pow: "(10::rat) ^ 5 = 100000" "(10::rat) ^ 12 = 1000000000000" "(10::rat) ^ 9 = 1000000000"
    by simp_all
  have "fl64 (fromMinor m SAR * QIFT_SERVICE_FEE_RATE) < 10 ^ 9"
    using service_fee_close [OF assms, unfolded abs_less_iff] M unfolding pow by linarith
  then have "js_round (fl64 (fromMinor m SAR * QIFT_SERVICE_FEE_RATE)) \<le> js_round (of_int (10 ^ 9))"
    by (intro js_round_mono) (simp add: less_imp_le)
  then have "js_round (fl64 (fromMinor m SAR * QIFT_SERVICE_FEE_RATE)) \<le> 10 ^ 9"
    by (simp only: js_round_int)
  then have f: "5 \<le> f" "f \<le> 10 ^ 9"
    by (auto simp: f_def serviceFeeFor_def QIFT_MIN_SERVICE_FEE_def)
  have d: "0 \<le> deliveryFeeFor d" "deliveryFeeFor d \<le> 15"
    by (simp_all add: deliveryFeeFor_def FAST_DELIVERY_FEE_def STANDARD_DELIVERY_FEE_def)
  have "to_minor (of_int (deliveryFeeFor d)) SAR = 100 * deliveryFeeFor d"
    "to_minor (of_int f) SAR = 100 * f"
    using d f by (intro to_minor_whole; simp)+
  then show ?thesis
    using assms f d by (simp add: computeFees_def Let_def addMoney_def f_def [symmetric])
qed

lemma computeFees_total_witness:
  "to_minor (fb_grandTotal (computeFees \<lparr>fi_itemSubtotal = fromMinor 1999 SAR, fi_deliverySpeed = Fast\<rparr>)) SAR
    = 1999 + 100 * deliveryFeeFor Fast + 100 * serviceFeeFor (fromMinor 1999 SAR)"
  by (rule computeFees_total) simp_all

end
