(* ===== verification/Tax.thy ===== *)
theory Tax
  imports Money
begin

text \<open>
  The tax engine of \<open>src/src/fees/tax-engine.ts\<close>: Saudi VAT on the Qift platform fee under the
  agent model, VAT on the merchant's goods leg, in integer minor units with one half-up
  division. The products and quotients are JavaScript numbers and are rounded as such; the
  lemmas show that below \<open>2 ^ 53\<close> the rounding never shows.
\<close>

section \<open>Data\<close>

definition SAUDI_VAT_RATE :: rat where
  "SAUDI_VAT_RATE = fl64 (15 / 100)"

definition TAX_RULE_VERSION :: string where
  "TAX_RULE_VERSION = ''sa-vat-agent-v3''"

datatype TaxTreatment = Full_value_standard | Agent_fee_only

definition DEFAULT_TAX_TREATMENT :: TaxTreatment where
  "DEFAULT_TAX_TREATMENT = Agent_fee_only"

definition DEFAULT_PRICES_INCLUDE_VAT :: bool where
  "DEFAULT_PRICES_INCLUDE_VAT = False"

record TaxInput =
  ti_subtotalAmount :: rat
  ti_platformFeeAmount :: rat
  ti_treatment :: "TaxTreatment option"
  ti_pricesIncludeVat :: "bool option"
  ti_vatRate :: "rat option"

record TaxSnapshot =
  ts_ruleVersion :: string
  ts_vatRate :: rat
  ts_taxTreatment :: TaxTreatment
  ts_pricesIncludeVat :: bool
  ts_taxableBase :: rat
  ts_vatAmount :: rat
  ts_facilitatedValue :: rat
  ts_notes :: string

record TaxBreakdown =
  tb_taxTreatment :: TaxTreatment
  tb_pricesIncludeVat :: bool
  tb_taxableAmount :: rat
  tb_vatRate :: rat
  tb_vatAmount :: rat
  tb_totalBeforeVat :: rat
  tb_totalAmount :: rat
  tb_facilitatedValue :: rat
  tb_taxSnapshot :: TaxSnapshot

definition PROVISIONAL_NOTE :: string where
  "PROVISIONAL_NOTE =
     ''Saudi VAT (agent model). Qift is an AGENT, not the seller: VAT applies ''
     @ ''to the Qift platform fee only; the goods value is the merchant'' @ [CHR 0x27]
     @ ''s and is excluded as facilitated pass-through. No VAT is remitted to ZATCA ''
     @ ''yet. Frozen on the invoice for historical correctness.''"

section \<open>Exact arithmetic in minor units\<close>

definition RATE_SCALE :: int where
  "RATE_SCALE = 10000"

definition rateBasisPoints :: "rat \<Rightarrow> int" where
  "rateBasisPoints rate = js_round (fl64 (rate * of_int RATE_SCALE))"

definition assertNonNegativeMinor :: "int \<Rightarrow> unit res" where
  "assertNonNegativeMinor minor =
     check (\<not> minor < 0) (JsError ''tax_engine_negative_base_unsupported'')"

text \<open>The remainder operator on numbers: exact, with the sign of the dividend.\<close>

definition js_rem :: "rat \<Rightarrow> rat \<Rightarrow> rat" where
  "js_rem x y = (if 0 \<le> x / y then x - y * of_int \<lfloor>x / y\<rfloor> else x + y * of_int \<lfloor>- (x / y)\<rfloor>)"

definition vatOnMinor :: "int \<Rightarrow> int \<Rightarrow> int res" where
  "vatOnMinor baseMinor rateBp =
     bindr (assertNonNegativeMinor baseMinor) (\<lambda>_.
       let scaled = fl64 (of_int (baseMinor * rateBp));
           q = \<lfloor>fl64 (scaled / of_int RATE_SCALE)\<rfloor>;
           r = js_rem scaled (of_int RATE_SCALE)
       in Inr (q + (if of_int RATE_SCALE \<le> fl64 (2 * r) then 1 else 0)))"

definition extractNetMinor :: "int \<Rightarrow> int \<Rightarrow> int res" where
  "extractNetMinor grossMinor rateBp =
     bindr (assertNonNegativeMinor grossMinor) (\<lambda>_.
       let den = RATE_SCALE + rateBp;
           num = fl64 (of_int (grossMinor * RATE_SCALE));
           q = \<lfloor>fl64 (num / of_int den)\<rfloor>;
           r = js_rem num (of_int den)
       in Inr (q + (if of_int den \<le> fl64 (2 * r) then 1 else 0)))"

definition round2 :: "rat \<Rightarrow> rat" where
  "round2 n = fromMinor (to_minor n SAR) SAR"

section \<open>The Qift fee leg\<close>

definition computeTax :: "TaxInput \<Rightarrow> TaxBreakdown res" where
  "computeTax inp =
     (let taxTreatment = (case ti_treatment inp of None \<Rightarrow> DEFAULT_TAX_TREATMENT | Some t \<Rightarrow> t);
          pricesIncludeVat =
            (case ti_pricesIncludeVat inp of None \<Rightarrow> DEFAULT_PRICES_INCLUDE_VAT | Some b \<Rightarrow> b);
          vatRate = (case ti_vatRate inp of None \<Rightarrow> SAUDI_VAT_RATE | Some r \<Rightarrow> r);
          isAgent = (taxTreatment = Agent_fee_only);
          qiftChargeBase =
            (if isAgent then ti_platformFeeAmount inp
             else fl64 (ti_subtotalAmount inp + ti_platformFeeAmount inp));
          facilitatedValue = (if isAgent then round2 (ti_subtotalAmount inp) else 0);
          rateBp = rateBasisPoints vatRate;
          chargeMinor = to_minor qiftChargeBase SAR
      in bindr
           (if pricesIncludeVat then
              bindr (extractNetMinor chargeMinor rateBp) (\<lambda>netMinor.
                Inr (fromMinor netMinor SAR, fromMinor (chargeMinor - netMinor) SAR,
                     fromMinor chargeMinor SAR))
            else
              bindr (vatOnMinor chargeMinor rateBp) (\<lambda>vatMinor.
                Inr (fromMinor chargeMinor SAR, fromMinor vatMinor SAR,
                     fromMinor (chargeMinor + vatMinor) SAR)))
           (\<lambda>(taxableAmount, vatAmount, totalAmount).
              Inr \<lparr> tb_taxTreatment = taxTreatment,
                    tb_pricesIncludeVat = pricesIncludeVat,
                    tb_taxableAmount = taxableAmount,
                    tb_vatRate = vatRate,
                    tb_vatAmount = vatAmount,
                    tb_totalBeforeVat = taxableAmount,
                    tb_totalAmount = totalAmount,
                    tb_facilitatedValue = facilitatedValue,
                    tb_taxSnapshot =
                      \<lparr> ts_ruleVersion = TAX_RULE_VERSION,
                        ts_vatRate = vatRate,
                        ts_taxTreatment = taxTreatment,
                        ts_pricesIncludeVat = pricesIncludeVat,
                        ts_taxableBase = taxableAmount,
                        ts_vatAmount = vatAmount,
                        ts_facilitatedValue = facilitatedValue,
                        ts_notes = PROVISIONAL_NOTE \<rparr> \<rparr>))"

section \<open>The merchant goods leg\<close>

definition MERCHANT_GOODS_TAX_TREATMENT :: string where
  "MERCHANT_GOODS_TAX_TREATMENT = ''merchant_goods_standard''"

definition MERCHANT_NOT_VAT_REGISTERED_TAX_TREATMENT :: string where
  "MERCHANT_NOT_VAT_REGISTERED_TAX_TREATMENT = ''merchant_not_vat_registered''"

record MerchantGoodsTaxInput =
  mi_goodsSubtotalAmount :: rat
  mi_vatRegistered :: bool
  mi_vatNumber :: "string option"
  mi_pricesIncludeVat :: "bool option"
  mi_vatRate :: "rat option"

record MerchantGoodsTaxSnapshot =
  ms_ruleVersion :: string
  ms_vatRate :: rat
  ms_taxTreatment :: string
  ms_vatRegistered :: bool
  ms_vatNumber :: "string option"
  ms_pricesIncludeVat :: bool
  ms_taxableBase :: rat
  ms_vatAmount :: rat
  ms_notes :: string

record MerchantGoodsTaxBreakdown =
  mb_taxTreatment :: string
  mb_pricesIncludeVat :: bool
  mb_taxableAmount :: rat
  mb_vatRate :: rat
  mb_vatAmount :: rat
  mb_totalAmount :: rat
  mb_taxSnapshot :: MerchantGoodsTaxSnapshot

definition MERCHANT_GOODS_NOTE :: string where
  "MERCHANT_GOODS_NOTE =
     ''Saudi VAT (agent model), merchant goods leg. The merchant is the ''
     @ ''legal seller: this VAT is the MERCHANT'' @ [CHR 0x27] @ ''s output VAT on the goods, ''
     @ ''recorded by Qift on the merchant'' @ [CHR 0x27] @ ''s behalf '' @ [char_of (226::nat), char_of (128::nat), char_of (148::nat)]
     @ '' not Qift revenue, not Qift VAT. No VAT is remitted to ZATCA yet. Frozen on the invoice ''
     @ ''for historical correctness.''"

definition MERCHANT_NOT_REGISTERED_NOTE :: string where
  "MERCHANT_NOT_REGISTERED_NOTE =
     ''Saudi VAT (agent model), merchant goods leg '' @ [char_of (226::nat), char_of (128::nat), char_of (148::nat)]
     @ '' merchant_not_vat_registered: the merchant (legal seller) is NOT ''
     @ ''VAT-registered, so no VAT is charged on the goods (KSA mandatory ''
     @ ''registration threshold SAR 375k). The total equals the goods ''
     @ ''subtotal. Not Qift revenue, not Qift VAT. Frozen on the invoice ''
     @ ''for historical correctness.''"

definition computeMerchantGoodsTax :: "MerchantGoodsTaxInput \<Rightarrow> MerchantGoodsTaxBreakdown res" where
  "computeMerchantGoodsTax inp =
     (let pricesIncludeVat =
            (case mi_pricesIncludeVat inp of None \<Rightarrow> DEFAULT_PRICES_INCLUDE_VAT | Some b \<Rightarrow> b);
          vatNumber = mi_vatNumber inp;
          goods = mi_goodsSubtotalAmount inp
      in if \<not> mi_vatRegistered inp then
           (let totalAmount = round2 goods in
            Inr \<lparr> mb_taxTreatment = MERCHANT_NOT_VAT_REGISTERED_TAX_TREATMENT,
                  mb_pricesIncludeVat = pricesIncludeVat,
                  mb_taxableAmount = totalAmount,
                  mb_vatRate = 0,
                  mb_vatAmount = 0,
                  mb_totalAmount = totalAmount,
                  mb_taxSnapshot =
                    \<lparr> ms_ruleVersion = TAX_RULE_VERSION,
                      ms_vatRate = 0,
                      ms_taxTreatment = MERCHANT_NOT_VAT_REGISTERED_TAX_TREATMENT,
                      ms_vatRegistered = False,
                      ms_vatNumber = vatNumber,
                      ms_pricesIncludeVat = pricesIncludeVat,
                      ms_taxableBase = totalAmount,
                      ms_vatAmount = 0,
                      ms_notes = MERCHANT_NOT_REGISTERED_NOTE \<rparr> \<rparr>)
         else
           (let vatRate = (case mi_vatRate inp of None \<Rightarrow> SAUDI_VAT_RATE | Some r \<Rightarrow> r);
                rateBp = rateBasisPoints vatRate;
                goodsMinor = to_minor goods SAR
            in bindr
                 (if pricesIncludeVat then
                    bindr (extractNetMinor goodsMinor rateBp) (\<lambda>netMinor.
                      Inr (fromMinor netMinor SAR, fromMinor (goodsMinor - netMinor) SAR,
                           fromMinor goodsMinor SAR))
                  else
                    bindr (vatOnMinor goodsMinor rateBp) (\<lambda>vatMinor.
                      Inr (fromMinor goodsMinor SAR, fromMinor vatMinor SAR,
                           fromMinor (goodsMinor + vatMinor) SAR)))
                 (\<lambda>(taxableAmount, vatAmount, totalAmount).
                    Inr \<lparr> mb_taxTreatment = MERCHANT_GOODS_TAX_TREATMENT,
                          mb_pricesIncludeVat = pricesIncludeVat,
                          mb_taxableAmount = taxableAmount,
                          mb_vatRate = vatRate,
                          mb_vatAmount = vatAmount,
                          mb_totalAmount = totalAmount,
                          mb_taxSnapshot =
                            \<lparr> ms_ruleVersion = TAX_RULE_VERSION,
                              ms_vatRate = vatRate,
                              ms_taxTreatment = MERCHANT_GOODS_TAX_TREATMENT,
                              ms_vatRegistered = True,
                              ms_vatNumber = vatNumber,
                              ms_pricesIncludeVat = pricesIncludeVat,
                              ms_taxableBase = taxableAmount,
                              ms_vatAmount = vatAmount,
                              ms_notes = MERCHANT_GOODS_NOTE \<rparr> \<rparr>)))"

section \<open>Rounding never shows\<close>

lemma js_rem_int:
  assumes "0 \<le> a" and "0 < b"
  shows "js_rem (of_int a) (of_int b) = of_int (a mod b)"
proof -
  have "\<lfloor>of_int a / (of_int b :: rat)\<rfloor> = a div b" by (rule floor_divide_of_int_eq)
  then have "js_rem (of_int a) (of_int b) = of_int a - of_int b * of_int (a div b)"
    using assms by (simp add: js_rem_def)
  also have "\<dots> = of_int (a - b * (a div b))" by simp
  finally show ?thesis by (simp add: minus_mult_div_eq_mod)
qed

text \<open>Half-up division of integers, the rule of both computations.\<close>

definition half_up :: "int \<Rightarrow> int \<Rightarrow> int" where
  "half_up a b = a div b + (if b \<le> 2 * (a mod b) then 1 else 0)"

lemma half_up_nearest:
  assumes "0 < b"
  shows "2 * (half_up a b * b - a) \<le> b" and "- b < 2 * (half_up a b * b - a)"
proof -
  have m: "0 \<le> a mod b" "a mod b < b" and a: "a = a div b * b + a mod b" using assms by simp_all
  have e: "half_up a b * b - a = (if b \<le> 2 * (a mod b) then b else 0) - a mod b"
    by (subst (2) a) (simp add: half_up_def algebra_simps)
  show "2 * (half_up a b * b - a) \<le> b" "- b < 2 * (half_up a b * b - a)"
    unfolding e using m assms by (cases "b \<le> 2 * (a mod b)"; simp; linarith)+
qed

lemma half_up_nonneg: "0 \<le> a \<Longrightarrow> 0 < b \<Longrightarrow> 0 \<le> half_up a b"
  by (simp add: half_up_def pos_imp_zdiv_nonneg_iff)

lemma half_up_le: "0 < b \<Longrightarrow> a \<le> c * b \<Longrightarrow> half_up a b \<le> c"
proof -
  assume b: "0 < b" and a: "a \<le> c * b"
  have "2 * (half_up a b * b) \<le> 2 * a + b" using half_up_nearest(1) [OF b, of a] by simp
  also have "\<dots> \<le> (2 * c + 1) * b" using a by (simp add: algebra_simps)
  finally have "(2 * half_up a b) * b \<le> (2 * c + 1) * b" by simp
  then have "2 * half_up a b \<le> 2 * c + 1" using b mult_le_cancel_right_pos by blast
  then show ?thesis by simp
qed

lemma division_step:
  assumes "0 \<le> a" and "a < 2 ^ 53" and "0 < b" and "b \<le> 2 ^ 50"
  shows "\<lfloor>fl64 (of_int a / of_int b)\<rfloor> + (if of_int b \<le> fl64 (2 * js_rem (of_int a) (of_int b)) then 1 else 0)
    = half_up a b"
proof -
  have r: "0 \<le> a mod b" "a mod b < b" using assms by simp_all
  have "fl64 (2 * js_rem (of_int a) (of_int b)) = fl64 (of_int (2 * (a mod b)))"
    using assms by (simp add: js_rem_int)
  also have "\<dots> = of_int (2 * (a mod b))"
  proof (rule fl64_int)
    have "b \<le> 1125899906842624" using assms(4) by simp
    then have "\<bar>2 * (a mod b)\<bar> \<le> 9007199254740992" using r by linarith
    then show "\<bar>2 * (a mod b)\<bar> \<le> 2 ^ 53" by simp
  qed
  finally have "(of_int b \<le> fl64 (2 * js_rem (of_int a) (of_int b))) \<longleftrightarrow> b \<le> 2 * (a mod b)"
    by (simp only: of_int_le_iff)
  then show ?thesis using b64.floor_quotient [OF assms(1-3)] by (simp add: half_up_def)
qed

lemma vatOnMinor_exact:
  assumes "0 \<le> base" and "0 \<le> bp" and "base * bp < 2 ^ 53"
  shows "vatOnMinor base bp = Inr (half_up (base * bp) 10000)"
proof -
  have "fl64 (of_int (base * bp)) = of_int (base * bp)"
    using assms by (intro fl64_int) simp
  moreover have "0 \<le> base * bp" using assms by simp
  ultimately show ?thesis
    using division_step [of "base * bp" 10000] assms
    by (simp add: vatOnMinor_def assertNonNegativeMinor_def RATE_SCALE_def)
qed

lemma extractNetMinor_exact:
  assumes "0 \<le> gross" and "0 \<le> bp" and "bp \<le> 10000" and "gross * 10000 < 2 ^ 53"
  shows "extractNetMinor gross bp = Inr (half_up (gross * 10000) (10000 + bp))"
proof -
  have "fl64 (of_int (gross * 10000)) = of_int (gross * 10000)"
    using assms by (intro fl64_int) simp
  moreover have "0 \<le> gross * 10000" using assms by simp
  ultimately show ?thesis
    using division_step [of "gross * 10000" "10000 + bp"] assms
    by (simp add: extractNetMinor_def assertNonNegativeMinor_def RATE_SCALE_def)
qed

lemma negative_base_refused:
  "m < 0 \<Longrightarrow> vatOnMinor m bp = Inl (JsError ''tax_engine_negative_base_unsupported'')"
  "m < 0 \<Longrightarrow> extractNetMinor m bp = Inl (JsError ''tax_engine_negative_base_unsupported'')"
  by (simp_all add: vatOnMinor_def extractNetMinor_def assertNonNegativeMinor_def)

lemma rateBasisPoints_scaled: "\<bar>bp\<bar> \<le> 2 ^ 50 \<Longrightarrow> rateBasisPoints (fl64 (of_int bp / 10000)) = bp"
  using b64.scale_roundtrip [of 10000 bp] by (simp add: rateBasisPoints_def RATE_SCALE_def)

lemma saudi_basis_points [simp]: "rateBasisPoints SAUDI_VAT_RATE = 1500"
  using rateBasisPoints_scaled [of 1500] by (simp add: SAUDI_VAT_RATE_def)

section \<open>Properties\<close>

text \<open>
  The VAT-exclusive fee invoice. Under the default treatment the Qift charge is the
  platform fee only; its VAT is 15 per cent rounded half up in halalas (so 41.30 gives 6.20),
  the total is the exact sum of the two, and the goods value enters neither.
\<close>

theorem computeTax_exclusive:
  assumes "0 \<le> fee" and "fee < 10 ^ 12"
  shows "\<exists>b. computeTax \<lparr>ti_subtotalAmount = goods, ti_platformFeeAmount = fromMinor fee SAR,
                ti_treatment = None, ti_pricesIncludeVat = None, ti_vatRate = None\<rparr> = Inr b
    \<and> to_minor (tb_vatAmount b) SAR = half_up (fee * 1500) 10000
    \<and> to_minor (tb_totalAmount b) SAR = fee + half_up (fee * 1500) 10000
    \<and> to_minor (tb_taxableAmount b) SAR = fee
    \<and> tb_facilitatedValue b = round2 goods"
proof -
  define v where "v = half_up (fee * 1500) 10000"
  have "fee * 1500 < 2 ^ 53" using assms by simp
  then have v: "vatOnMinor fee 1500 = Inr v" using assms by (simp add: vatOnMinor_exact v_def)
  have "0 \<le> v" "v \<le> fee" using assms by (auto simp: v_def intro: half_up_nonneg half_up_le)
  then show ?thesis
    using assms v by (simp add: computeTax_def Let_def DEFAULT_TAX_TREATMENT_def
      DEFAULT_PRICES_INCLUDE_VAT_def v_def [symmetric])
qed

lemma computeTax_exclusive_witness:
  "\<exists>b. computeTax \<lparr>ti_subtotalAmount = 100, ti_platformFeeAmount = fromMinor 4130 SAR,
                ti_treatment = None, ti_pricesIncludeVat = None, ti_vatRate = None\<rparr> = Inr b
    \<and> to_minor (tb_vatAmount b) SAR = 620 \<and> to_minor (tb_totalAmount b) SAR = 4750"
  using computeTax_exclusive [of 4130 100] by (auto simp: half_up_def)

text \<open>
  The VAT-inclusive goods invoice of a registered merchant. The net base is the gross
  divided by 1.15 and rounded half up, the VAT is the exact complement, and net plus VAT is
  the shelf price to the halala: no independent rounding can leak.
\<close>

theorem merchant_goods_inclusive:
  assumes "0 \<le> gross" and "gross < 9 * 10 ^ 11"
  shows "\<exists>b. computeMerchantGoodsTax \<lparr>mi_goodsSubtotalAmount = fromMinor gross SAR,
                mi_vatRegistered = True, mi_vatNumber = n, mi_pricesIncludeVat = Some True,
                mi_vatRate = None\<rparr> = Inr b
    \<and> to_minor (mb_taxableAmount b) SAR = half_up (gross * 10000) 11500
    \<and> to_minor (mb_taxableAmount b) SAR + to_minor (mb_vatAmount b) SAR = gross
    \<and> to_minor (mb_totalAmount b) SAR = gross
    \<and> ms_vatNumber (mb_taxSnapshot b) = n"
proof -
  define v where "v = half_up (gross * 10000) 11500"
  have "gross * 10000 < 2 ^ 53" using assms by simp
  then have v: "extractNetMinor gross 1500 = Inr v"
    using assms by (simp add: extractNetMinor_exact v_def)
  have "0 \<le> v" "v \<le> gross" using assms by (auto simp: v_def intro: half_up_nonneg half_up_le)
  then show ?thesis
    using assms v by (simp add: computeMerchantGoodsTax_def Let_def v_def [symmetric])
qed

lemma merchant_goods_inclusive_witness:
  "\<exists>b. computeMerchantGoodsTax \<lparr>mi_goodsSubtotalAmount = fromMinor 11500 SAR,
                mi_vatRegistered = True, mi_vatNumber = None, mi_pricesIncludeVat = Some True,
                mi_vatRate = None\<rparr> = Inr b
    \<and> to_minor (mb_taxableAmount b) SAR = 10000 \<and> to_minor (mb_totalAmount b) SAR = 11500"
  using merchant_goods_inclusive [of 11500 None] by (auto simp: half_up_def)

end
