(* ===== verification/Approval.thy ===== *)
theory Approval
  imports Prelude
begin

text \<open>
  The approval policy of \<open>src/src/settlement/settlement-approval-policy.ts\<close>: amount bands in
  minor units and the level of approval a batch execution needs, measured on the action and
  on the day's aggregate including it.
\<close>

definition policy_version :: string where
  "policy_version = ''sc-32.1-opening@pilot-1''"

definition t1Minor :: int where "t1Minor = 500000"

definition t2Minor :: int where "t2Minor = 5000000"

definition approvalTtlHours :: int where "approvalTtlHours = 72"

definition executedAtMaxAgeHours :: int where "executedAtMaxAgeHours = 168"

definition executedAtMaxSkewHours :: int where "executedAtMaxSkewHours = 24"

datatype ExecutionBand = Le_t1 | T1_t2 | Gt_t2

definition executionBand :: "int \<Rightarrow> ExecutionBand" where
  "executionBand amountMinor =
     (if amountMinor \<le> t1Minor then Le_t1 else if amountMinor \<le> t2Minor then T1_t2 else Gt_t2)"

record ExecutionApprovalRequirement =
  rq_level :: nat
  rq_approvalsNeeded :: nat
  rq_seniorRequired :: bool
  rq_band :: ExecutionBand
  rq_aggregateBand :: ExecutionBand
  rq_policyVersion :: string

definition requiredExecutionApproval :: "int \<Rightarrow> int \<Rightarrow> ExecutionApprovalRequirement" where
  "requiredExecutionApproval netMinor otherMinorToday =
     (let band = executionBand netMinor;
          aggregateBand = executionBand (netMinor + otherMinorToday);
          effective =
            (if aggregateBand = Gt_t2 \<or> band = Gt_t2 then Gt_t2
             else if aggregateBand = T1_t2 \<or> band = T1_t2 then T1_t2 else Le_t1);
          level = (if effective = Gt_t2 then 3 else 2)
      in \<lparr> rq_level = level,
           rq_approvalsNeeded = (if level = 3 then 2 else 1),
           rq_seniorRequired = (level = 3),
           rq_band = band,
           rq_aggregateBand = effective,
           rq_policyVersion = policy_version \<rparr>)"

lemmas approval_defs = requiredExecutionApproval_def executionBand_def t1Minor_def t2Minor_def Let_def

text \<open>The requirement in closed form.\<close>

lemma requirement_level:
  "rq_level (requiredExecutionApproval n a) = (if t2Minor < max n (n + a) then 3 else 2)"
  by (auto simp: approval_defs max_def)

lemma requirement_approvals:
  "rq_approvalsNeeded (requiredExecutionApproval n a) = (if t2Minor < max n (n + a) then 2 else 1)"
  by (auto simp: approval_defs max_def)

lemma requirement_senior:
  "rq_seniorRequired (requiredExecutionApproval n a) \<longleftrightarrow> t2Minor < max n (n + a)"
  by (auto simp: approval_defs max_def)

text \<open>
  Anti-fragmentation. When a position is paid in several parts on one day, the last part,
  seen together with the parts before it, needs at least the approvals, the level and the
  senior seat the whole position would have needed in one execution.
\<close>

theorem fragmentation_never_lowers:
  assumes "\<forall>p \<in> set (parts :: int list). 0 \<le> p"
  shows "rq_level (requiredExecutionApproval (sum_list parts + last_part) 0)
           \<le> rq_level (requiredExecutionApproval last_part (sum_list parts))
    \<and> rq_approvalsNeeded (requiredExecutionApproval (sum_list parts + last_part) 0)
           \<le> rq_approvalsNeeded (requiredExecutionApproval last_part (sum_list parts))
    \<and> (rq_seniorRequired (requiredExecutionApproval (sum_list parts + last_part) 0)
         \<longrightarrow> rq_seniorRequired (requiredExecutionApproval last_part (sum_list parts)))"
proof -
  have "0 \<le> sum_list parts" using assms by (simp add: sum_list_nonneg)
  then show ?thesis
    by (simp add: requirement_level requirement_approvals requirement_senior add.commute)
qed

lemma fragmentation_never_lowers_witness:
  "rq_level (requiredExecutionApproval (3000000 + 3000000) 0)
     \<le> rq_level (requiredExecutionApproval 3000000 3000000)
   \<and> rq_seniorRequired (requiredExecutionApproval 3000000 3000000)"
  using fragmentation_never_lowers [of "[3000000]" 3000000] by (simp add: approval_defs)

end
