(* ===== verification/Json.thy ===== *)
theory Json
  imports Prelude Js_Number
begin

text \<open>
  JSON values and their canonical serialisation (\<open>canonicalJson\<close> of
  \<open>src/src/settlement/settlement-statement.ts\<close>), with the parts of the language it rests on:
  \<open>JSON.stringify\<close> on primitives, that is string escaping and \<open>Number::toString\<close> (the
  shortest decimal that reads back as the number). Strings are sequences of code units below
  256. The SHA-256 digest is a parameter of the model wherever a hash is computed.
\<close>

section \<open>Values\<close>

datatype json =
    JNull
  | JUndef
  | JBool bool
  | JNum rat
  | JStr string
  | JArr "json list"
  | JObj "(string \<times> json) list"

section \<open>Decimal digits\<close>

definition digit_char :: "nat \<Rightarrow> char" where
  "digit_char d = char_of (48 + d)"

fun nat_str :: "nat \<Rightarrow> string" where
  "nat_str n = (if n < 10 then [digit_char n] else nat_str (n div 10) @ [digit_char (n mod 10)])"

declare nat_str.simps [simp del]

definition int_str :: "int \<Rightarrow> string" where
  "int_str k = (if k < 0 then ''-'' @ nat_str (nat (- k)) else nat_str (nat k))"

definition char_digit :: "char \<Rightarrow> nat" where
  "char_digit c = of_char c - 48"

definition digits_val :: "string \<Rightarrow> nat" where
  "digits_val = foldl (\<lambda>v c. 10 * v + char_digit c) 0"

section \<open>Number to string\<close>

text \<open>
  The position \<open>n\<close> of the decimal point of a positive number: \<open>10 ^ (n - 1) \<le> x < 10 ^ n\<close>.
\<close>

definition point_position :: "rat \<Rightarrow> int" where
  "point_position x =
     (if 1 \<le> x then int (length (nat_str (nat \<lfloor>x\<rfloor>)))
      else 1 - int (length (nat_str (nat (\<lceil>1 / x\<rceil> - 1)))))"

definition nearest_digits :: "rat \<Rightarrow> int \<Rightarrow> nat \<Rightarrow> int" where
  "nearest_digits x n k = js_round (x / 10 powi (n - int k))"

fun shortest_from :: "nat \<Rightarrow> rat \<Rightarrow> int \<Rightarrow> nat \<Rightarrow> int \<times> int" where
  "shortest_from 0 x n k = (nearest_digits x n k, n - int k)"
| "shortest_from (Suc fuel) x n k =
     (if fl64 (of_int (nearest_digits x n k) * 10 powi (n - int k)) = x
      then (nearest_digits x n k, n - int k)
      else shortest_from fuel x n (Suc k))"

text \<open>Seventeen digits always identify a binary64 number, so the search is bounded by that.\<close>

definition shortest_decimal :: "rat \<Rightarrow> int \<times> int" where
  "shortest_decimal x = shortest_from 17 x (point_position x) 1"

definition strip_zeros :: "string \<Rightarrow> string" where
  "strip_zeros ds = rev (dropWhile (\<lambda>c. c = CHR ''0'') (rev ds))"

text \<open>
  The layout rules of the language for \<open>k\<close> significant digits \<open>ds\<close> with the decimal point
  after position \<open>n\<close>.
\<close>

definition layout :: "string \<Rightarrow> int \<Rightarrow> string" where
  "layout ds n =
     (let k = int (length ds) in
      if k \<le> n \<and> n \<le> 21 then ds @ replicate (nat (n - k)) (CHR ''0'')
      else if 0 < n \<and> n \<le> 21 then take (nat n) ds @ ''.'' @ drop (nat n) ds
      else if -6 < n \<and> n \<le> 0 then ''0.'' @ replicate (nat (- n)) (CHR ''0'') @ ds
      else (let e = n - 1; suffix = ''e'' @ (if 0 \<le> e then ''+'' else ''-'') @ nat_str (nat \<bar>e\<bar>)
            in if k = 1 then ds @ suffix else take 1 ds @ ''.'' @ drop 1 ds @ suffix))"

definition positive_str :: "rat \<Rightarrow> string" where
  "positive_str x =
     (case shortest_decimal x of (s, e) \<Rightarrow>
        let ds = nat_str (nat s) in layout (strip_zeros ds) (int (length ds) + e))"

definition num_str :: "rat \<Rightarrow> string" where
  "num_str x =
     (if x = 0 then ''0''
      else if x < 0 then ''-'' @ positive_str (- x)
      else positive_str x)"

section \<open>String escaping\<close>

definition hex_digit :: "nat \<Rightarrow> char" where
  "hex_digit d = (if d < 10 then char_of (48 + d) else char_of (87 + d))"

definition escape_char :: "char \<Rightarrow> string" where
  "escape_char c =
     (let n = (of_char c :: nat); bs = CHR 0x5C in
      if n = 8 then [bs, CHR ''b'']
      else if n = 9 then [bs, CHR ''t'']
      else if n = 10 then [bs, CHR ''n'']
      else if n = 12 then [bs, CHR ''f'']
      else if n = 13 then [bs, CHR ''r'']
      else if n = 34 then [bs, CHR 0x22]
      else if n = 92 then [bs, bs]
      else if n < 32 then [bs, CHR ''u'', CHR ''0'', CHR ''0'', hex_digit (n div 16), hex_digit (n mod 16)]
      else [c])"

definition json_string :: "string \<Rightarrow> string" where
  "json_string s = [CHR 0x22] @ concat (map escape_char s) @ [CHR 0x22]"

section \<open>Canonical JSON\<close>

primrec comma_sep :: "string list \<Rightarrow> string" where
  "comma_sep [] = ''''"
| "comma_sep (x # xs) = (case xs of [] \<Rightarrow> x | _ \<Rightarrow> x @ '','' @ comma_sep xs)"

text \<open>
  \<open>Object.entries\<close>, without the undefined fields, stably sorted by key in code-unit order;
  each entry printed as key, colon, value.
\<close>

definition sorted_fields :: "(string \<times> 'a) list \<Rightarrow> (string \<times> 'a) list" where
  "sorted_fields = sort_key fst"

fun canonicalJson :: "json \<Rightarrow> string" where
  "canonicalJson JNull = ''null''"
| "canonicalJson JUndef = ''''"
| "canonicalJson (JBool b) = (if b then ''true'' else ''false'')"
| "canonicalJson (JNum x) = num_str x"
| "canonicalJson (JStr s) = json_string s"
| "canonicalJson (JArr vs) = ''['' @ comma_sep (map canonicalJson vs) @ '']''"
| "canonicalJson (JObj fs) =
     ''{'' @ comma_sep (map (\<lambda>(k, v). json_string k @ '':'' @ v)
       (sorted_fields (map (\<lambda>(k, v). (k, canonicalJson v)) (filter (\<lambda>(k, v). v \<noteq> JUndef) fs)))) @ ''}''"

section \<open>Objects by key\<close>

text \<open>Reading a field of an object, and an optional value as a field.\<close>

definition jfield :: "json \<Rightarrow> string \<Rightarrow> json" where
  "jfield v k = (case v of JObj fs \<Rightarrow> (case map_of fs k of None \<Rightarrow> JUndef | Some w \<Rightarrow> w) | _ \<Rightarrow> JUndef)"

definition jopt :: "string option \<Rightarrow> json" where
  "jopt v = (case v of None \<Rightarrow> JNull | Some s \<Rightarrow> JStr s)"

section \<open>Dropping fields\<close>

text \<open>
  The recursive sanitiser the ledger and the audit trail apply to metadata: fields whose
  lower-cased name is on a deny list are dropped, in nested objects and arrays too.
\<close>

fun strip_keys :: "string list \<Rightarrow> json \<Rightarrow> json" where
  "strip_keys deny (JArr vs) = JArr (map (strip_keys deny) vs)"
| "strip_keys deny (JObj fs) =
     JObj (map (\<lambda>(k, v). (k, strip_keys deny v)) (filter (\<lambda>(k, v). js_lower k \<notin> set deny) fs))"
| "strip_keys deny v = v"

fun free_of_keys :: "string list \<Rightarrow> json \<Rightarrow> bool" where
  "free_of_keys deny (JArr vs) = (\<forall>v \<in> set vs. free_of_keys deny v)"
| "free_of_keys deny (JObj fs) = (\<forall>(k, v) \<in> set fs. js_lower k \<notin> set deny \<and> free_of_keys deny v)"
| "free_of_keys deny v = True"

lemma free_of_keys_strip: "free_of_keys deny (strip_keys deny v)"
  by (induction deny v rule: strip_keys.induct) auto

lemma strip_keys_clean: "free_of_keys deny v \<Longrightarrow> strip_keys deny v = v"
proof (induction deny v rule: strip_keys.induct)
  case (2 deny fs)
  then have "filter (\<lambda>(k, v). js_lower k \<notin> set deny) fs = fs" by (auto simp: filter_id_conv)
  moreover have "map (\<lambda>(k, v). (k, strip_keys deny v)) fs = fs"
    using 2 by (intro map_idI) fastforce
  ultimately show ?case by simp
qed (auto intro: map_idI)

section \<open>Lemmas\<close>

lemma sort_key_perm_distinct:
  assumes "mset xs = mset ys" and "distinct (map f xs)"
  shows "sort_key f xs = sort_key f ys"
proof (rule sort_key_inj_key_eq)
  show "mset xs = mset (sort_key f ys)" using assms(1) by simp
  show "inj_on f (set xs)" using assms(2) by (simp add: distinct_map)
qed simp

lemma sorted_fields_perm:
  "mset fs = mset gs \<Longrightarrow> distinct (map fst fs) \<Longrightarrow> sorted_fields fs = sorted_fields gs"
  unfolding sorted_fields_def by (rule sort_key_perm_distinct)

section \<open>Properties\<close>

text \<open>
  The canonical bytes do not depend on the order in which an object's fields were
  written: permuting the fields of an object with distinct names leaves its serialisation
  unchanged.
\<close>

theorem canonicalJson_field_order:
  assumes "mset fs = mset gs" and "distinct (map fst fs)"
  shows "canonicalJson (JObj fs) = canonicalJson (JObj gs)"
proof -
  define h :: "(string \<times> json) list \<Rightarrow> (string \<times> string) list"
    where "h = (\<lambda>fs. map (\<lambda>(k, v). (k, canonicalJson v)) (filter (\<lambda>(k, v). v \<noteq> JUndef) fs))"
  have m: "mset (h fs) = mset (h gs)" using assms(1) by (simp add: h_def)
  have "map fst (h fs) = map fst (filter (\<lambda>(k, v). v \<noteq> JUndef) fs)"
    by (induction fs) (auto simp: h_def)
  then have "distinct (map fst (h fs))" using assms(2) by (simp add: distinct_map_filter)
  from sorted_fields_perm [OF m this] show ?thesis by (simp add: h_def)
qed

lemma canonicalJson_field_order_witness:
  "canonicalJson (JObj [(''b'', JNum 1), (''a'', JStr ''x'')]) = ''{'' @ [CHR 0x22] @ ''a'' @ [CHR 0x22] @ '':'' @ [CHR 0x22] @ ''x'' @ [CHR 0x22] @ '','' @ [CHR 0x22] @ ''b'' @ [CHR 0x22] @ '':1}''
   \<and> canonicalJson (JObj [(''b'', JNum 1), (''a'', JStr ''x'')]) = canonicalJson (JObj [(''a'', JStr ''x''), (''b'', JNum 1)])"
proof
  show "canonicalJson (JObj [(''b'', JNum 1), (''a'', JStr ''x'')]) = canonicalJson (JObj [(''a'', JStr ''x''), (''b'', JNum 1)])"
    by (rule canonicalJson_field_order) simp_all
qed code_simp

end
