(* ===== verification/References.thy ===== *)
theory References
  imports Json
begin

text \<open>
  Human-readable references (\<open>src/src/references/reference.ts\<close>): the prefix registry, minting
  and formatting, the normalisation of free-form input, and the bounded allocation loop. The
  random integers a mint draws are an argument.
\<close>

section \<open>The registry\<close>

datatype ReferenceKind = RandomRef | SequentialRef | ReservedRef

datatype ReferencePrefix = QP | QB | QG | QF | QC | QS | QN | QD

fun REFERENCE_PREFIXES :: "ReferencePrefix \<Rightarrow> ReferenceKind \<times> string" where
  "REFERENCE_PREFIXES QP = (RandomRef, ''personal_order'')"
| "REFERENCE_PREFIXES QB = (RandomRef, ''business_campaign'')"
| "REFERENCE_PREFIXES QG = (RandomRef, ''recipient_gift'')"
| "REFERENCE_PREFIXES QF = (RandomRef, ''merchant_fulfillment'')"
| "REFERENCE_PREFIXES QC = (SequentialRef, ''qift_service_invoice'')"
| "REFERENCE_PREFIXES QS = (RandomRef, ''settlement_batch'')"
| "REFERENCE_PREFIXES QN = (RandomRef, ''credit_note'')"
| "REFERENCE_PREFIXES QD = (SequentialRef, ''qift_credit_note'')"

fun prefix_str :: "ReferencePrefix \<Rightarrow> string" where
  "prefix_str QP = ''QP''" | "prefix_str QB = ''QB''" | "prefix_str QG = ''QG''" | "prefix_str QF = ''QF''"
| "prefix_str QC = ''QC''" | "prefix_str QS = ''QS''" | "prefix_str QN = ''QN''" | "prefix_str QD = ''QD''"

definition prefix_keys :: "ReferencePrefix list" where
  "prefix_keys = [QP, QB, QG, QF, QC, QS, QN, QD]"

definition ref_kind :: "ReferencePrefix \<Rightarrow> ReferenceKind" where
  "ref_kind p = fst (REFERENCE_PREFIXES p)"

definition REFERENCE_ALPHABET :: string where
  "REFERENCE_ALPHABET = ''ABCDEFGHJKMNPQRSTUVWXYZ23456789''"

definition RANDOM_GROUP :: nat where "RANDOM_GROUP = 4"

definition RANDOM_BODY_LENGTH :: nat where "RANDOM_BODY_LENGTH = RANDOM_GROUP * 2"

section \<open>Character classes\<close>

definition is_digit :: "char \<Rightarrow> bool" where
  "is_digit c \<longleftrightarrow> (48 :: nat) \<le> of_char c \<and> of_char c \<le> (57 :: nat)"

definition is_upper_alnum :: "char \<Rightarrow> bool" where
  "is_upper_alnum c \<longleftrightarrow> is_digit c \<or> (65 :: nat) \<le> of_char c \<and> of_char c \<le> (90 :: nat)"

section \<open>Minting and formatting\<close>

definition randomGroup :: "nat list \<Rightarrow> string" where
  "randomGroup draws = map (\<lambda>i. REFERENCE_ALPHABET ! i) draws"

text \<open>\<open>draw\<close> is the sequence of \<open>randomInt(31)\<close> results the mint consumes.\<close>

definition generateReference :: "ReferencePrefix \<Rightarrow> (nat \<Rightarrow> nat) \<Rightarrow> string res" where
  "generateReference p draw =
     (if ref_kind p \<noteq> RandomRef
      then Inl (JsError (''reference_prefix_not_random: '' @ prefix_str p))
      else Inr (prefix_str p @ ''-'' @ randomGroup (map draw [0..<RANDOM_GROUP]) @ ''-''
                @ randomGroup (map draw [RANDOM_GROUP..<RANDOM_BODY_LENGTH])))"

definition pad_start :: "nat \<Rightarrow> char \<Rightarrow> string \<Rightarrow> string" where
  "pad_start n c s = replicate (n - length s) c @ s"

definition formatSequentialReference :: "ReferencePrefix \<Rightarrow> int \<Rightarrow> int \<Rightarrow> string res" where
  "formatSequentialReference p seriesYear value =
     (if ref_kind p \<noteq> SequentialRef
      then Inl (JsError (''reference_prefix_not_sequential: '' @ prefix_str p))
      else if seriesYear < 2020 \<or> 2099 < seriesYear
      then Inl (JsError (''reference_series_year_invalid: '' @ int_str seriesYear))
      else if value < 1
      then Inl (JsError (''reference_sequence_value_invalid: '' @ int_str value))
      else Inr (prefix_str p @ ''-'' @ int_str seriesYear @ ''-'' @ pad_start 5 (CHR ''0'') (int_str value)))"

section \<open>Normalisation\<close>

definition compact_form :: "string \<Rightarrow> string" where
  "compact_form s = filter is_upper_alnum (js_upper s)"

definition starts_with :: "string \<Rightarrow> string \<Rightarrow> bool" where
  "starts_with s p \<longleftrightarrow> take (length p) s = p"

text \<open>The expression \<open>^(20\d{2})(\d{1,7})$\<close>: its two groups, when it matches.\<close>

definition sequential_body :: "string \<Rightarrow> (string \<times> string) option" where
  "sequential_body b =
     (if list_all is_digit b \<and> starts_with b ''20'' \<and> 5 \<le> length b \<and> length b \<le> 11
      then Some (take 4 b, drop 4 b) else None)"

definition random_body :: "string \<Rightarrow> bool" where
  "random_body b \<longleftrightarrow> length b = RANDOM_BODY_LENGTH \<and> (\<forall>c \<in> set b. c \<in> set REFERENCE_ALPHABET)"

definition normalizeReference :: "string \<Rightarrow> string option res" where
  "normalizeReference input =
     (if input = [] then Inr None
      else case find (\<lambda>p. starts_with (compact_form input) (prefix_str p)) prefix_keys of
        None \<Rightarrow> Inr None
      | Some p \<Rightarrow>
          let body = drop (length (prefix_str p)) (compact_form input) in
          if ref_kind p = SequentialRef
          then (case sequential_body body of
                  None \<Rightarrow> Inr None
                | Some (y, v) \<Rightarrow>
                    if digits_val v < 1 then Inr None
                    else bindr (formatSequentialReference p (int (digits_val y)) (int (digits_val v)))
                           (\<lambda>r. Inr (Some r)))
          else if \<not> random_body body then Inr None
          else Inr (Some (prefix_str p @ ''-'' @ take RANDOM_GROUP body @ ''-'' @ drop RANDOM_GROUP body)))"

definition isCanonicalReference :: "string \<Rightarrow> bool res" where
  "isCanonicalReference value = bindr (normalizeReference value) (\<lambda>r. Inr (r = Some value))"

section \<open>Allocation\<close>

definition MAX_ALLOCATION_ATTEMPTS :: nat where "MAX_ALLOCATION_ATTEMPTS = 5"

text \<open>\<open>draw n\<close> is the sequence of draws of attempt \<open>n\<close>.\<close>

fun allocate_from :: "nat \<Rightarrow> ReferencePrefix \<Rightarrow> (string \<Rightarrow> bool) \<Rightarrow> (nat \<Rightarrow> nat \<Rightarrow> nat) \<Rightarrow> nat \<Rightarrow> string res" where
  "allocate_from 0 p isTaken draw n = Inl (JsError (''reference_allocation_exhausted: '' @ prefix_str p))"
| "allocate_from (Suc k) p isTaken draw n =
     bindr (generateReference p (draw n)) (\<lambda>candidate.
       if \<not> isTaken candidate then Inr candidate else allocate_from k p isTaken draw (Suc n))"

definition allocateReference :: "ReferencePrefix \<Rightarrow> (string \<Rightarrow> bool) \<Rightarrow> (nat \<Rightarrow> nat \<Rightarrow> nat) \<Rightarrow> string res" where
  "allocateReference p isTaken draw = allocate_from MAX_ALLOCATION_ATTEMPTS p isTaken draw 0"

section \<open>Lemmas\<close>

subsection \<open>Digits\<close>

lemma of_digit_char: "d < 10 \<Longrightarrow> (of_char (digit_char d) :: nat) = 48 + d"
  by (simp add: digit_char_def)

lemma is_digit_digit_char [simp]: "d < 10 \<Longrightarrow> is_digit (digit_char d)"
  by (simp add: is_digit_def of_digit_char)

lemma digits_val_snoc: "digits_val (s @ [c]) = 10 * digits_val s + char_digit c"
  by (simp add: digits_val_def)

lemma digits_val_nat_str [simp]: "digits_val (nat_str n) = n"
proof (induction n rule: nat_str.induct)
  case (1 n)
  show ?case
  proof (cases "n < 10")
    case True
    then show ?thesis by (simp add: nat_str.simps [of n] digits_val_def char_digit_def of_digit_char)
  next
    case False
    then show ?thesis
      by (simp add: nat_str.simps [of n] digits_val_snoc 1 char_digit_def of_digit_char)
  qed
qed

lemma nat_str_digits: "list_all is_digit (nat_str n)"
proof (induction n rule: nat_str.induct)
  case (1 n)
  then show ?case by (cases "n < 10") (simp_all add: nat_str.simps [of n])
qed

lemma nat_str_length: "0 < k \<Longrightarrow> n < 10 ^ k \<Longrightarrow> length (nat_str n) \<le> k"
proof (induction k arbitrary: n)
  case (Suc k)
  show ?case
  proof (cases "n < 10")
    case True
    then show ?thesis by (simp add: nat_str.simps [of n])
  next
    case False
    then have "k \<noteq> 0" using Suc.prems by (cases k) auto
    with False Suc.IH [of "n div 10"] Suc.prems show ?thesis
      by (simp add: nat_str.simps [of n] less_mult_imp_div_less mult.commute)
  qed
qed simp

lemma nat_str_nonempty [simp]: "nat_str n \<noteq> []"
  by (simp add: nat_str.simps [of n])

lemma digits_val_zeros: "digits_val (replicate k (CHR ''0'') @ s) = digits_val s"
proof -
  have "foldl (\<lambda>v c. 10 * v + char_digit c) 0 (replicate k (CHR ''0'')) = 0"
    by (induction k) (simp_all add: char_digit_def)
  then show ?thesis by (simp add: digits_val_def)
qed

subsection \<open>Compact forms\<close>

lemma compact_append [simp]: "compact_form (s @ t) = compact_form s @ compact_form t"
  by (simp add: compact_form_def js_upper_def)

lemma upper_alnum_fixed: "is_upper_alnum c \<Longrightarrow> js_upper_char c = [c]"
  by (auto simp: is_upper_alnum_def is_digit_def js_upper_char_def)

lemma compact_id: "list_all is_upper_alnum s \<Longrightarrow> compact_form s = s"
  by (induction s) (simp_all add: compact_form_def js_upper_def upper_alnum_fixed)

lemma compact_dash [simp]: "compact_form ''-'' = []"
  by (simp add: compact_form_def js_upper_def js_upper_char_def is_upper_alnum_def is_digit_def)

lemma compact_dash_Cons [simp]: "compact_form (CHR ''-'' # s) = compact_form s"
  using compact_append [of "''-''" s] by simp

lemma compact_prefix [simp]: "compact_form (prefix_str p) = prefix_str p"
  by (rule compact_id, cases p) (simp_all add: is_upper_alnum_def is_digit_def)

lemma alphabet_alnum: "c \<in> set REFERENCE_ALPHABET \<Longrightarrow> is_upper_alnum c"
  by (auto simp: REFERENCE_ALPHABET_def is_upper_alnum_def is_digit_def)

lemma find_prefix: "find (\<lambda>q. starts_with (prefix_str p @ s) (prefix_str q)) prefix_keys = Some p"
  by (cases p) (simp_all add: prefix_keys_def starts_with_def)

lemma drop_prefix [simp]: "drop (length (prefix_str p)) (prefix_str p @ s) = s"
  by simp

subsection \<open>Normal forms\<close>

text \<open>The canonical strings: what minting and formatting produce, within the parsed range.\<close>

definition canonical_random :: "ReferencePrefix \<Rightarrow> string \<Rightarrow> string" where
  "canonical_random p b = prefix_str p @ ''-'' @ take RANDOM_GROUP b @ ''-'' @ drop RANDOM_GROUP b"

lemma normalize_random:
  assumes "ref_kind p = RandomRef" "random_body b" "s \<noteq> []" "compact_form s = prefix_str p @ b"
  shows "normalizeReference s = Inr (Some (canonical_random p b))"
  using assms by (simp add: normalizeReference_def find_prefix canonical_random_def)

lemma compact_canonical_random: "random_body b \<Longrightarrow> compact_form (canonical_random p b) = prefix_str p @ b"
proof -
  assume "random_body b"
  then have "list_all is_upper_alnum b" using alphabet_alnum by (auto simp: random_body_def list_all_iff)
  then have "compact_form (take RANDOM_GROUP b) = take RANDOM_GROUP b" "compact_form (drop RANDOM_GROUP b) = drop RANDOM_GROUP b"
    by (meson compact_id list_all_iff in_set_takeD in_set_dropD)+
  then show ?thesis by (simp add: canonical_random_def)
qed

lemma nat_str_year:
  assumes "2020 \<le> y" "y \<le> 2099"
  shows "length (nat_str y) = 4 \<and> starts_with (nat_str y) ''20''"
proof -
  have "y div 10 div 10 = 20" "\<not> y < 10" "\<not> y div 10 < 10" using assms by (simp_all add: div_mult2_eq [symmetric])
  moreover have "nat_str 20 = ''20''" by code_simp
  ultimately have "nat_str y = (''20'' @ [digit_char (y div 10 mod 10)]) @ [digit_char (y mod 10)]"
    by (simp add: nat_str.simps [of y] nat_str.simps [of "y div 10"])
  then show ?thesis by (simp add: starts_with_def)
qed

lemma pad_digits: "list_all is_digit (pad_start 5 (CHR ''0'') (nat_str v))"
  using nat_str_digits [of v] by (auto simp: pad_start_def list_all_iff is_digit_def)

lemma pad_value: "digits_val (pad_start 5 (CHR ''0'') (nat_str v)) = v"
  by (simp add: pad_start_def digits_val_zeros)

lemma pad_length:
  "v < 10 ^ 7 \<Longrightarrow> length (pad_start 5 (CHR ''0'') (nat_str v)) \<le> 7 \<and> 1 \<le> length (pad_start 5 (CHR ''0'') (nat_str v))"
  using nat_str_length [of 7 v] by (auto simp: pad_start_def)

definition canonical_sequential :: "ReferencePrefix \<Rightarrow> nat \<Rightarrow> nat \<Rightarrow> string" where
  "canonical_sequential p y v = prefix_str p @ ''-'' @ nat_str y @ ''-'' @ pad_start 5 (CHR ''0'') (nat_str v)"

lemma formatSequential_iff:
  "formatSequentialReference p (int y) (int v) = Inr r \<longleftrightarrow>
     ref_kind p = SequentialRef \<and> 2020 \<le> y \<and> y \<le> 2099 \<and> 1 \<le> v \<and> r = canonical_sequential p y v"
  by (auto simp: formatSequentialReference_def canonical_sequential_def int_str_def)

lemma compact_canonical_sequential:
  "compact_form (canonical_sequential p y v) = prefix_str p @ nat_str y @ pad_start 5 (CHR ''0'') (nat_str v)"
proof -
  have "compact_form (nat_str y) = nat_str y" "compact_form (pad_start 5 (CHR ''0'') (nat_str v)) = pad_start 5 (CHR ''0'') (nat_str v)"
    using nat_str_digits pad_digits
    by (auto intro!: compact_id simp: list_all_iff is_upper_alnum_def)
  then show ?thesis by (simp add: canonical_sequential_def)
qed

lemma normalize_sequential:
  assumes p: "ref_kind p = SequentialRef" and y: "2020 \<le> y" "y \<le> 2099" and v: "1 \<le> v" "v < 10 ^ 7"
    and s: "s \<noteq> []" "compact_form s = prefix_str p @ nat_str y @ pad_start 5 (CHR ''0'') (nat_str v)"
  shows "normalizeReference s = Inr (Some (canonical_sequential p y v))"
proof -
  let ?b = "nat_str y @ pad_start 5 (CHR ''0'') (nat_str v)"
  have "sequential_body ?b = Some (nat_str y, pad_start 5 (CHR ''0'') (nat_str v))"
    using nat_str_year [OF y] pad_length [OF v(2)] nat_str_digits [of y] pad_digits [of v]
    by (auto simp: sequential_body_def starts_with_def)
  then show ?thesis
    using p y v s formatSequential_iff [of p y v]
    by (auto simp: normalizeReference_def find_prefix pad_value bindr_iff)
qed

lemma digits_bound: "length ds \<le> k \<Longrightarrow> list_all is_digit ds \<Longrightarrow> digits_val ds < 10 ^ k"
proof (induction ds arbitrary: k rule: rev_induct)
  case Nil
  then show ?case by (simp add: digits_val_def)
next
  case (snoc c ds)
  then obtain k' where k: "k = Suc k'" by (cases k) auto
  with snoc have "digits_val ds < 10 ^ k'" "char_digit c < 10"
    by (auto simp: is_digit_def char_digit_def)
  then show ?case by (simp add: digits_val_snoc k)
qed

lemma canonical_nonempty: "canonical_random p b \<noteq> []" "canonical_sequential p y v \<noteq> []"
  by (simp_all add: canonical_random_def canonical_sequential_def)

text \<open>Every successful normalisation is one of the two canonical shapes.\<close>

lemma normalize_shapes:
  assumes "normalizeReference s = Inr (Some r)"
  shows "(\<exists>p b. ref_kind p = RandomRef \<and> random_body b \<and> r = canonical_random p b)
    \<or> (\<exists>p y v. ref_kind p = SequentialRef \<and> 2020 \<le> y \<and> y \<le> 2099 \<and> 1 \<le> v \<and> v < 10 ^ 7
          \<and> r = canonical_sequential p y v)"
proof -
  from assms obtain p where p: "find (\<lambda>p. starts_with (compact_form s) (prefix_str p)) prefix_keys = Some p"
    by (auto simp: normalizeReference_def split: if_splits option.splits)
  define b where "b = drop (length (prefix_str p)) (compact_form s)"
  show ?thesis
  proof (cases "ref_kind p = SequentialRef")
    case True
    with assms p b_def obtain y v where yv: "sequential_body b = Some (y, v)" "1 \<le> digits_val v"
      "formatSequentialReference p (int (digits_val y)) (int (digits_val v)) = Inr r"
      by (auto simp: normalizeReference_def prog_iff Let_def split: if_splits option.splits)
    then have "length v \<le> 7" "list_all is_digit v"
      by (auto simp: sequential_body_def list_all_iff dest: in_set_dropD split: if_splits)
    from digits_bound [OF this] yv formatSequential_iff show ?thesis by blast
  next
    case False
    then have "ref_kind p = RandomRef" by (cases p) (simp_all add: ref_kind_def)
    moreover have "random_body b \<and> r = canonical_random p b"
      using False assms p
      by (auto simp: normalizeReference_def Let_def canonical_random_def b_def split: if_splits)
    ultimately show ?thesis by blast
  qed
qed

lemma generate_shape:
  assumes "generateReference p draw = Inr r" and "\<And>i. draw i < 31"
  shows "ref_kind p = RandomRef \<and> random_body (randomGroup (map draw [0..<8])) \<and> r = canonical_random p (randomGroup (map draw [0..<8]))"
proof -
  have len: "length REFERENCE_ALPHABET = 31" by code_simp
  have app: "randomGroup (xs @ ys) = randomGroup xs @ randomGroup ys" for xs ys
    by (simp add: randomGroup_def)
  have "[0..<8::nat] = [0..<4] @ [4..<8]" by (simp add: upt_rec numeral_nat)
  then have split: "randomGroup (map draw [0..<8]) = randomGroup (map draw [0..<4]) @ randomGroup (map draw [4..<8])"
    by (simp only: map_append app)
  have "random_body (randomGroup (map draw [0..<8]))"
    using assms(2) len by (auto simp: random_body_def randomGroup_def RANDOM_BODY_LENGTH_def RANDOM_GROUP_def)
  moreover have "ref_kind p = RandomRef"
    "r = prefix_str p @ ''-'' @ randomGroup (map draw [0..<4]) @ ''-'' @ randomGroup (map draw [4..<8])"
    using assms(1) by (auto simp: generateReference_def RANDOM_GROUP_def RANDOM_BODY_LENGTH_def split: if_splits)
  moreover have "length (randomGroup (map draw [0..<4])) = 4" by (simp add: randomGroup_def)
  ultimately show ?thesis by (simp add: canonical_random_def split RANDOM_GROUP_def)
qed

text \<open>
  The expression accepts every year from 2000, the formatter refuses those before 2020, so a
  well-shaped legal number of such a year makes normalisation throw.
\<close>

lemma normalize_old_year_throws: "\<exists>e. normalizeReference ''QC-2019-00001'' = Inl e"
  by (intro exI) code_simp

text \<open>
  What the two issuers return, normalised: a minted reference is a fixed point, a formatted
  legal number only while its value has at most seven digits, the range of the expression.
\<close>

lemma minted_normal:
  assumes "generateReference p (\<lambda>i. draw i mod 31) = Inr r"
  shows "normalizeReference r = Inr (Some r)"
proof -
  let ?b = "randomGroup (map (\<lambda>i. draw i mod 31) [0..<8])"
  have b: "ref_kind p = RandomRef" "random_body ?b" "r = canonical_random p ?b"
    using generate_shape [OF assms] by simp_all
  show ?thesis
    unfolding b(3) by (rule normalize_random [OF b(1,2) canonical_nonempty(1) compact_canonical_random [OF b(2)]])
qed

lemma nat_str_long: "10 ^ k \<le> n \<Longrightarrow> k < length (nat_str n)"
proof (induction k arbitrary: n)
  case (Suc k)
  from Suc.prems have "\<not> n < 10" "10 ^ k \<le> n div 10"
    using order_trans [of 10 "10 ^ Suc k" n] by (auto simp: less_eq_div_iff_mult_less_eq mult.commute)
  with Suc.IH [of "n div 10"] show ?case by (simp add: nat_str.simps [of n])
qed simp

lemma long_number_unknown:
  assumes p: "ref_kind p = SequentialRef" and v: "10 ^ 7 \<le> v" and y: "2020 \<le> y" "y \<le> 2099"
  shows "normalizeReference (canonical_sequential p y v) = Inr None"
proof -
  have "7 < length (pad_start 5 (CHR ''0'') (nat_str v))"
    using nat_str_long [OF v] by (simp add: pad_start_def)
  then have "sequential_body (nat_str y @ pad_start 5 (CHR ''0'') (nat_str v)) = None"
    using nat_str_year [OF y] by (simp add: sequential_body_def)
  then show ?thesis
    using p canonical_nonempty(2) by (simp add: normalizeReference_def find_prefix compact_canonical_sequential)
qed

lemma formatted_normal:
  assumes "formatSequentialReference p (int y) (int v) = Inr r"
  shows "normalizeReference r = Inr (if v < 10 ^ 7 then Some r else None)"
proof -
  have shape: "ref_kind p = SequentialRef" "2020 \<le> y" "y \<le> 2099" "1 \<le> v" "r = canonical_sequential p y v"
    using assms unfolding formatSequential_iff by simp_all
  show ?thesis
  proof (cases "v < 10 ^ 7")
    case True
    with normalize_sequential [OF shape(1-4) True, of r] shape(5) show ?thesis
      by (simp add: compact_canonical_sequential canonical_nonempty)
  next
    case False
    with long_number_unknown [OF shape(1) _ shape(2,3), of v] shape(5) show ?thesis by simp
  qed
qed

text \<open>The first legal number that is issued and not recognised.\<close>

lemma eight_digits_unknown:
  "\<exists>r. formatSequentialReference QC 2026 10000000 = Inr r \<and> normalizeReference r = Inr None"
proof -
  have "formatSequentialReference QC (int 2026) (int 10000000) = Inr (canonical_sequential QC 2026 10000000)"
    unfolding formatSequential_iff by (simp add: ref_kind_def)
  with formatted_normal [OF this] show ?thesis by simp
qed

section \<open>Properties\<close>

text \<open>
  C39: normal forms are canonical. If normalising some input gives the reference r, then every
  spelling with the same letters and digits as r (any case, dashes, spaces or punctuation)
  normalises to r, and r itself is recognised as canonical.
\<close>

theorem normalize_canonical:
  assumes "normalizeReference s = Inr (Some r)"
  shows "(\<forall>t. t \<noteq> [] \<and> compact_form t = compact_form r \<longrightarrow> normalizeReference t = Inr (Some r))
    \<and> isCanonicalReference r = Inr True"
proof -
  have all: "\<forall>t. t \<noteq> [] \<and> compact_form t = compact_form r \<longrightarrow> normalizeReference t = Inr (Some r)"
    using normalize_shapes [OF assms]
    by (auto simp: normalize_random compact_canonical_random normalize_sequential compact_canonical_sequential)
  moreover have "r \<noteq> []"
    using normalize_shapes [OF assms] by (auto simp: canonical_random_def canonical_sequential_def)
  ultimately show ?thesis by (simp add: isCanonicalReference_def)
qed

lemma normalize_canonical_witness:
  "normalizeReference ''qb/7xkm.3npq'' = Inr (Some ''QB-7XKM-3NPQ'')"
proof -
  have "normalizeReference ''qb 7xkm 3npq'' = Inr (Some ''QB-7XKM-3NPQ'')" by code_simp
  moreover have "compact_form ''qb/7xkm.3npq'' = compact_form ''QB-7XKM-3NPQ''" by code_simp
  ultimately show ?thesis using normalize_canonical by blast
qed

text \<open>
  C40: which issued references are canonical. Minting succeeds exactly for the prefixes of the
  random kind, whatever is drawn (any index below 31, the size of the alphabet), and what it
  mints is canonical. Formatting
  a legal number succeeds exactly for a sequential prefix, a year from 2020 to 2099 and a
  positive value, and what it formats is canonical exactly when the value has at most seven
  digits: a longer number is issued, yet normalisation does not recognise it.
\<close>

theorem issued_references_canonical:
  "(case generateReference p (\<lambda>i. draw i mod 31) of
      Inr r \<Rightarrow> ref_kind p = RandomRef \<and> isCanonicalReference r = Inr True
    | Inl _ \<Rightarrow> ref_kind p \<noteq> RandomRef)
   \<and> (case formatSequentialReference p y v of
      Inr r \<Rightarrow> (ref_kind p = SequentialRef \<and> 2020 \<le> y \<and> y \<le> 2099 \<and> 1 \<le> v)
        \<and> isCanonicalReference r = Inr (v < 10 ^ 7)
        \<and> normalizeReference r = Inr (if v < 10 ^ 7 then Some r else None)
    | Inl _ \<Rightarrow> \<not> (ref_kind p = SequentialRef \<and> 2020 \<le> y \<and> y \<le> 2099 \<and> 1 \<le> v))"
proof (rule conjI)
  show "case generateReference p (\<lambda>i. draw i mod 31) of
      Inr r \<Rightarrow> ref_kind p = RandomRef \<and> isCanonicalReference r = Inr True
    | Inl _ \<Rightarrow> ref_kind p \<noteq> RandomRef"
  proof (cases "generateReference p (\<lambda>i. draw i mod 31)")
    case (Inr r)
    from generate_shape [OF this] minted_normal [OF this] show ?thesis
      by (simp add: Inr isCanonicalReference_def)
  qed (simp add: generateReference_def split: if_splits)
  show "case formatSequentialReference p y v of
      Inr r \<Rightarrow> (ref_kind p = SequentialRef \<and> 2020 \<le> y \<and> y \<le> 2099 \<and> 1 \<le> v)
        \<and> isCanonicalReference r = Inr (v < 10 ^ 7)
        \<and> normalizeReference r = Inr (if v < 10 ^ 7 then Some r else None)
    | Inl _ \<Rightarrow> \<not> (ref_kind p = SequentialRef \<and> 2020 \<le> y \<and> y \<le> 2099 \<and> 1 \<le> v)"
  proof (cases "formatSequentialReference p y v")
    case (Inr r)
    then have args: "ref_kind p = SequentialRef \<and> 2020 \<le> y \<and> y \<le> 2099 \<and> 1 \<le> v"
      by (auto simp: formatSequentialReference_def split: if_splits)
    then have "formatSequentialReference p (int (nat y)) (int (nat v)) = Inr r" using Inr by simp
    from formatted_normal [OF this] args have "normalizeReference r = Inr (if v < 10 ^ 7 then Some r else None)"
      by (simp add: nat_less_iff)
    with Inr args show ?thesis by (simp add: isCanonicalReference_def)
  qed (auto simp: formatSequentialReference_def split: if_splits)
qed

end
