(* ===== verification/Keyed_Log.thy ===== *)
theory Keyed_Log
  imports Prelude
begin

text \<open>
  Append-only tables with an optional unique key, and the write pattern the services share on
  them: create the row, and when the unique key is already taken return the row that holds
  it. The ledger, the guaranteed audit trail and the issued statements are such tables; the
  contract of the insert is the locale \<open>keyed_log\<close>, and what a client may rely on after any
  number of writes is proved inside it.
\<close>

definition key_taken :: "('r \<Rightarrow> string option) \<Rightarrow> 'r \<Rightarrow> 'r list \<Rightarrow> bool" where
  "key_taken key r t \<longleftrightarrow> key r \<noteq> None \<and> (\<exists>r' \<in> set t. key r' = key r)"

definition keys_of :: "('r \<Rightarrow> string option) \<Rightarrow> 'r list \<Rightarrow> string list" where
  "keys_of key t = map the (filter (\<lambda>k. k \<noteq> None) (map key t))"

definition keyed_post ::
  "('r \<Rightarrow> string option) \<Rightarrow> ('r \<Rightarrow> 'r list \<Rightarrow> 'r list res) \<Rightarrow> 'r \<Rightarrow> ('r list, 'r) prog"
where
  "keyed_post key insert_row r t =
     (case insert_row r t of
        Inr t' \<Rightarrow> (Inr r, t')
      | Inl e \<Rightarrow>
          (case e of
             P2002 c \<Rightarrow>
               (case key r of
                  None \<Rightarrow> (Inl e, t)
                | Some k \<Rightarrow>
                    (case find (\<lambda>r'. key r' = Some k) t of
                       Some r' \<Rightarrow> (Inr r', t)
                     | None \<Rightarrow> (Inl e, t)))
           | _ \<Rightarrow> (Inl e, t)))"

lemma keys_of_append [simp]: "keys_of key (t @ [r]) = keys_of key t @ (case key r of None \<Rightarrow> [] | Some k \<Rightarrow> [k])"
  by (auto simp: keys_of_def split: option.splits)

lemma keys_of_Nil [simp]: "keys_of key [] = []"
  by (simp add: keys_of_def)

lemma in_keys_of: "k \<in> set (keys_of key t) \<longleftrightarrow> (\<exists>r \<in> set t. key r = Some k)"
  by (force simp: keys_of_def)

lemma keys_of_unique:
  "distinct (keys_of key t) \<Longrightarrow> r \<in> set t \<Longrightarrow> key r = Some k \<Longrightarrow> r' \<in> set t \<Longrightarrow> key r' = Some k \<Longrightarrow> r = r'"
proof (induction t rule: rev_induct)
  case (snoc a t)
  then show ?case by (cases "key a") (auto simp: in_keys_of)
qed simp

text \<open>The first row with a key that occurs.\<close>

lemma find_key:
  "\<exists>r' \<in> set t. key r' = Some k \<Longrightarrow> \<exists>r0. find (\<lambda>r'. key r' = Some k) t = Some r0 \<and> r0 \<in> set t \<and> key r0 = Some k"
  by (induction t) auto

lemma find_key_append:
  "find p (t @ us) = (case find p t of Some r \<Rightarrow> Some r | None \<Rightarrow> find p us)"
  by (induction t) auto

locale keyed_log =
  fixes key :: "'r \<Rightarrow> string option"
    and insert_row :: "'r \<Rightarrow> 'r list \<Rightarrow> 'r list res"
  assumes appends: "insert_row r t = Inr t' \<Longrightarrow> t' = t @ [r] \<and> \<not> key_taken key r t"
    and conflict: "key_taken key r t \<Longrightarrow> \<exists>c. insert_row r t = Inl (P2002 c)"
begin

text \<open>Every write keeps the table or extends it by one row at the end.\<close>

lemma post_cases:
  assumes "keyed_post key insert_row r t = (x, t')"
  shows "(x = Inr r \<and> t' = t @ [r] \<and> \<not> key_taken key r t)
    \<or> (t' = t \<and> (\<exists>r' \<in> set t. x = Inr r' \<and> key r' = key r \<and> key r \<noteq> None))
    \<or> (t' = t \<and> (\<exists>e. x = Inl e \<and> insert_row r t = Inl e))"
proof (cases "insert_row r t")
  case (Inr u)
  with assms appends [OF Inr] show ?thesis by (simp add: keyed_post_def)
next
  case (Inl e)
  show ?thesis
  proof (cases "\<exists>c k r'. e = P2002 c \<and> key r = Some k \<and> find (\<lambda>r'. key r' = Some k) t = Some r'")
    case True
    then obtain c k r' where h: "e = P2002 c" "key r = Some k" "find (\<lambda>r'. key r' = Some k) t = Some r'"
      by blast
    with find_in_set [OF h(3)] assms Inl show ?thesis by (auto simp: keyed_post_def)
  next
    case False
    with Inl assms show ?thesis
      by (simp add: keyed_post_def split: exn.splits option.splits)
  qed
qed

lemma post_prefix: "keyed_post key insert_row r t = (x, t') \<Longrightarrow> \<exists>us. t' = t @ us"
  using post_cases by fastforce

text \<open>No key ever labels two rows.\<close>

lemma post_keys:
  assumes "keyed_post key insert_row r t = (x, t')" and "distinct (keys_of key t)"
  shows "distinct (keys_of key t')"
  using post_cases [OF assms(1)] assms(2)
  by (auto simp: key_taken_def in_keys_of split: option.splits)

text \<open>Once a key is taken, posting under it again changes nothing and returns that row.\<close>

lemma post_existing:
  assumes "\<exists>r' \<in> set t. key r' = Some k" and "key r = Some k"
  shows "\<exists>r0. r0 \<in> set t \<and> key r0 = Some k \<and> keyed_post key insert_row r t = (Inr r0, t)"
proof -
  obtain c where "insert_row r t = Inl (P2002 c)"
    using conflict [of r t] assms by (auto simp: key_taken_def)
  moreover obtain r0 where "find (\<lambda>r'. key r' = Some k) t = Some r0" "r0 \<in> set t" "key r0 = Some k"
    using find_key [OF assms(1)] by blast
  ultimately show ?thesis using assms(2) by (auto simp: keyed_post_def)
qed

lemma post_again:
  assumes "keyed_post key insert_row r t = (Inr r1, t1)" and "key r = Some k" and "key r2 = Some k"
    and "distinct (keys_of key t)"
  shows "keyed_post key insert_row r2 t1 = (Inr r1, t1)"
proof -
  have mem: "r1 \<in> set t1" "key r1 = Some k"
    using post_cases [OF assms(1)] assms(2) by auto
  obtain r0 where r0: "r0 \<in> set t1" "key r0 = Some k" "keyed_post key insert_row r2 t1 = (Inr r0, t1)"
    using post_existing [of t1 k r2] mem assms(3) by auto
  have "distinct (keys_of key t1)" by (rule post_keys [OF assms(1,4)])
  then have "r0 = r1" using r0(1,2) mem by (rule keys_of_unique)
  with r0 show ?thesis by simp
qed

end

end
