(* ===== verification/Ledger.thy ===== *)
theory Ledger
  imports Keyed_Log Json Money Fees
begin

text \<open>
  The financial ledger: the event vocabulary and idempotency keys of
  \<open>src/src/financial/financial-events.ts\<close>, the write path of
  \<open>financial-ledger.service.ts\<close> and the postings of a paid order (\<open>order-ledger.ts\<close>). The
  table is a list in insertion order with the two unique constraints of the schema; it is an
  instance of \<open>keyed_log\<close>, so the append-only and idempotency facts are that locale's.
\<close>

section \<open>Events\<close>

datatype FinancialEventType =
    ORDER_PAID | QIFT_SERVICE_FEE_ACCRUED | MERCHANT_PAYABLE_ACCRUED | DELIVERY_FEE_ACCRUED
  | CORPORATE_INVOICE_ISSUED | MERCHANT_INVOICE_ISSUED
  | INVOICE_PAYMENT_RECEIVED | QIFT_REVENUE_RECOGNIZED
  | MERCHANT_REMITTANCE_PAID
  | SETTLEMENT_STARTED | SETTLEMENT_COMPLETED | SETTLEMENT_SUPERSEDED
  | REFUND_REQUESTED | REFUND_APPROVED | REFUND_PAID
  | MERCHANT_RECEIVABLE_ACCRUED | MERCHANT_RECEIVABLE_RECOVERED | CHARGEBACK_CREATED
  | INTERNAL_TRANSFER_COMPLETED

fun event_name :: "FinancialEventType \<Rightarrow> string" where
  "event_name ORDER_PAID = ''order.paid''"
| "event_name QIFT_SERVICE_FEE_ACCRUED = ''qift.service_fee.accrued''"
| "event_name MERCHANT_PAYABLE_ACCRUED = ''merchant.payable.accrued''"
| "event_name DELIVERY_FEE_ACCRUED = ''delivery.fee.accrued''"
| "event_name CORPORATE_INVOICE_ISSUED = ''corporate.invoice.issued''"
| "event_name MERCHANT_INVOICE_ISSUED = ''merchant.invoice.issued''"
| "event_name INVOICE_PAYMENT_RECEIVED = ''invoice.payment.received''"
| "event_name QIFT_REVENUE_RECOGNIZED = ''qift.revenue.recognized''"
| "event_name MERCHANT_REMITTANCE_PAID = ''merchant.remittance.paid''"
| "event_name SETTLEMENT_STARTED = ''settlement.started''"
| "event_name SETTLEMENT_COMPLETED = ''settlement.completed''"
| "event_name SETTLEMENT_SUPERSEDED = ''settlement.superseded''"
| "event_name REFUND_REQUESTED = ''refund.requested''"
| "event_name REFUND_APPROVED = ''refund.approved''"
| "event_name REFUND_PAID = ''refund.paid''"
| "event_name MERCHANT_RECEIVABLE_ACCRUED = ''merchant.receivable.accrued''"
| "event_name MERCHANT_RECEIVABLE_RECOVERED = ''merchant.receivable.recovered''"
| "event_name CHARGEBACK_CREATED = ''chargeback.created''"
| "event_name INTERNAL_TRANSFER_COMPLETED = ''treasury.internal_transfer.completed''"

definition ledgerIdempotencyKey :: "FinancialEventType \<Rightarrow> string \<Rightarrow> string" where
  "ledgerIdempotencyKey e anchor = event_name e @ '':'' @ anchor"

section \<open>Input and rows\<close>

record RecordLedgerInput =
  li_eventType :: string
  li_reasonCode :: string
  li_actorType :: string
  li_actorId :: "string option"
  li_amount :: js_number
  li_currency :: string
  li_direction :: string
  li_counterpartyType :: "string option"
  li_orderId :: "string option"
  li_paymentId :: "string option"
  li_campaignId :: "string option"
  li_orgId :: "string option"
  li_storeId :: "string option"
  li_metadata :: "json option"
  li_idempotencyKey :: "string option"

record LedgerEntry =
  le_eventType :: string
  le_reasonCode :: string
  le_actorType :: string
  le_actorId :: "string option"
  le_amount :: dec2
  le_currency :: string
  le_direction :: string
  le_counterpartyType :: "string option"
  le_orderId :: "string option"
  le_paymentId :: "string option"
  le_campaignId :: "string option"
  le_orgId :: "string option"
  le_storeId :: "string option"
  le_metadata :: json
  le_idempotencyKey :: "string option"

section \<open>Sanitising\<close>

definition SENSITIVE_METADATA_KEYS :: "string list" where
  "SENSITIVE_METADATA_KEYS =
     [''address'', ''addressline'', ''addressline1'', ''addressline2'', ''line1'', ''line2'',
      ''street'', ''building'', ''buildingnumber'', ''district'', ''neighborhood'', ''city'',
      ''region'', ''postalcode'', ''zip'', ''phone'', ''phonenumber'', ''mobile'',
      ''recipientaddress'', ''recipientphone'', ''lat'', ''lng'', ''latitude'', ''longitude'',
      ''coordinates'', ''geo'']"

definition stripSensitive :: "json \<Rightarrow> json" where
  "stripSensitive = strip_keys SENSITIVE_METADATA_KEYS"

definition sanitizeLedgerMetadata :: "json option \<Rightarrow> json option" where
  "sanitizeLedgerMetadata m = (case m of None \<Rightarrow> None | Some v \<Rightarrow> Some (stripSensitive v))"

definition SETTLEMENT_LIFECYCLE_MARKERS :: "string list" where
  "SETTLEMENT_LIFECYCLE_MARKERS =
     [event_name SETTLEMENT_STARTED, event_name SETTLEMENT_COMPLETED, event_name SETTLEMENT_SUPERSEDED]"

section \<open>The write path\<close>

text \<open>\<open>x?.trim() || null\<close>.\<close>

definition trimmed_or_null :: "string option \<Rightarrow> string option" where
  "trimmed_or_null v = (case v of None \<Rightarrow> None | Some s \<Rightarrow> (if non_blank s then Some (js_trim s) else None))"

fun positive_number :: "js_number \<Rightarrow> bool" where
  "positive_number (Fin x) = (0 < x)"
| "positive_number NegZero = False"
| "positive_number NonFinite = False"

definition is_lifecycle_marker :: "RecordLedgerInput \<Rightarrow> bool" where
  "is_lifecycle_marker i \<longleftrightarrow>
     li_eventType i \<in> set SETTLEMENT_LIFECYCLE_MARKERS \<and> li_amount i = Fin 0"

definition number_value :: "js_number \<Rightarrow> rat" where
  "number_value v = (case v of Fin x \<Rightarrow> x | _ \<Rightarrow> 0)"

text \<open>The checks of \<open>record\<close>, in order, and the row it then tries to create.\<close>

definition validate_entry :: "RecordLedgerInput \<Rightarrow> LedgerEntry res" where
  "validate_entry i =
     (if is_lifecycle_marker i \<and> trimmed_or_null (li_idempotencyKey i) = None
      then Inl (BadRequest ''settlement lifecycle markers require a deterministic idempotencyKey'')
      else if \<not> is_lifecycle_marker i \<and> \<not> positive_number (li_amount i)
      then Inl (BadRequest ''ledger amount must be a positive, finite number'')
      else let currency = js_upper (js_trim (li_currency i)) in
      if currency = [] then Inl (BadRequest ''ledger currency is required'')
      else if li_direction i \<noteq> ''credit'' \<and> li_direction i \<noteq> ''debit''
      then Inl (BadRequest ''ledger direction must be credit or debit'')
      else let eventType = js_trim (li_eventType i);
               reasonCode = js_trim (li_reasonCode i);
               actorType = js_trim (li_actorType i) in
      if eventType = [] \<or> reasonCode = [] \<or> actorType = []
      then Inl (BadRequest ''ledger eventType, reasonCode and actorType are required'')
      else bindr (to_dec (number_value (li_amount i))) (\<lambda>amount.
        Inr \<lparr> le_eventType = eventType, le_reasonCode = reasonCode, le_actorType = actorType,
              le_actorId = li_actorId i, le_amount = amount, le_currency = currency,
              le_direction = li_direction i, le_counterpartyType = li_counterpartyType i,
              le_orderId = li_orderId i, le_paymentId = li_paymentId i,
              le_campaignId = li_campaignId i, le_orgId = li_orgId i, le_storeId = li_storeId i,
              le_metadata = (case sanitizeLedgerMetadata (li_metadata i) of None \<Rightarrow> JNull | Some v \<Rightarrow> v),
              le_idempotencyKey = trimmed_or_null (li_idempotencyKey i) \<rparr>))"

text \<open>
  The table's constraints: unique \<open>idempotencyKey\<close>, and unique \<open>(orderId, reasonCode)\<close> with
  null order ids distinct from one another.
\<close>

definition order_reason_taken :: "LedgerEntry \<Rightarrow> LedgerEntry list \<Rightarrow> bool" where
  "order_reason_taken r t \<longleftrightarrow> le_orderId r \<noteq> None \<and>
     (\<exists>r' \<in> set t. le_orderId r' = le_orderId r \<and> le_reasonCode r' = le_reasonCode r)"

definition insert_entry :: "LedgerEntry \<Rightarrow> LedgerEntry list \<Rightarrow> LedgerEntry list res" where
  "insert_entry r t =
     (if order_reason_taken r t then Inl (P2002 ''orderId_reasonCode'')
      else if key_taken le_idempotencyKey r t then Inl (P2002 ''idempotencyKey'')
      else Inr (t @ [r]))"

definition record_entry :: "RecordLedgerInput \<Rightarrow> (LedgerEntry list, LedgerEntry) prog" where
  "record_entry i = seq (lift (validate_entry i)) (keyed_post le_idempotencyKey insert_entry)"

definition findByIdempotencyKey :: "string \<Rightarrow> LedgerEntry list \<Rightarrow> LedgerEntry option" where
  "findByIdempotencyKey k t = find (\<lambda>r. le_idempotencyKey r = Some k) t"

definition findByOrder :: "string \<Rightarrow> LedgerEntry list \<Rightarrow> LedgerEntry list" where
  "findByOrder k t = filter (\<lambda>r. le_orderId r = Some k) t"

definition findByStore :: "string \<Rightarrow> LedgerEntry list \<Rightarrow> LedgerEntry list" where
  "findByStore k t = filter (\<lambda>r. le_storeId r = Some k) t"

definition findByCampaign :: "string \<Rightarrow> LedgerEntry list \<Rightarrow> LedgerEntry list" where
  "findByCampaign k t = filter (\<lambda>r. le_campaignId r = Some k) t"

definition countByReasonCode :: "string \<Rightarrow> LedgerEntry list \<Rightarrow> nat" where
  "countByReasonCode c t = count_where (\<lambda>r. le_reasonCode r = c) t"

section \<open>The postings of a paid order\<close>

record PaidOrderForLedger =
  po_id :: string
  po_userId :: string
  po_storeId :: "string option"
  po_productPrice :: rat
  po_serviceFee :: rat
  po_deliveryFee :: rat
  po_totalAmount :: rat
  po_currency :: string
  po_paymentProvider :: string

definition order_entry ::
  "PaidOrderForLedger \<Rightarrow> string option \<Rightarrow> FinancialEventType \<Rightarrow> string \<Rightarrow> string \<Rightarrow> string option \<Rightarrow> rat
    \<Rightarrow> string \<Rightarrow> string \<Rightarrow> RecordLedgerInput"
where
  "order_entry ord paymentId event reason actorType actorId amount direction counterparty =
     \<lparr> li_eventType = event_name event, li_reasonCode = reason, li_actorType = actorType,
       li_actorId = actorId, li_amount = Fin amount, li_currency = po_currency ord,
       li_direction = direction, li_counterpartyType = Some counterparty,
       li_orderId = Some (po_id ord), li_paymentId = paymentId, li_campaignId = None,
       li_orgId = None, li_storeId = po_storeId ord,
       li_metadata = Some (JObj [(''feePolicyVersion'', JStr FEE_POLICY_VERSION),
                                 (''paymentProvider'', JStr (po_paymentProvider ord))]),
       li_idempotencyKey = Some (ledgerIdempotencyKey event (po_id ord)) \<rparr>"

text \<open>\<open>order.storeId\<close> in a condition: present and not the empty string.\<close>

definition truthy :: "string option \<Rightarrow> bool" where
  "truthy v \<longleftrightarrow> v \<noteq> None \<and> v \<noteq> Some []"

definition buildOrderLedgerEntries :: "PaidOrderForLedger \<Rightarrow> string option \<Rightarrow> RecordLedgerInput list" where
  "buildOrderLedgerEntries ord paymentId =
     [order_entry ord paymentId ORDER_PAID ''ORDER_PAID'' ''user'' (Some (po_userId ord))
        (po_totalAmount ord) ''credit'' ''sender'']
     @ (if 0 < po_serviceFee ord
        then [order_entry ord paymentId QIFT_SERVICE_FEE_ACCRUED ''QIFT_SERVICE_FEE'' ''system'' None
                (po_serviceFee ord) ''credit'' ''qift'']
        else [])
     @ (if truthy (po_storeId ord) \<and> 0 < po_productPrice ord
        then [order_entry ord paymentId MERCHANT_PAYABLE_ACCRUED ''MERCHANT_PAYABLE'' ''system'' None
                (po_productPrice ord) ''debit'' ''merchant'']
        else [])
     @ (if 0 < po_deliveryFee ord
        then [order_entry ord paymentId DELIVERY_FEE_ACCRUED ''DELIVERY_FEE'' ''system'' None
                (po_deliveryFee ord) ''debit'' ''merchant'']
        else [])"

section \<open>Lemmas\<close>

interpretation ledger: keyed_log le_idempotencyKey insert_entry
  by unfold_locales (auto simp: insert_entry_def split: if_splits)

lemma trimmed_or_null_Some: "trimmed_or_null v = Some k \<Longrightarrow> k \<noteq> []"
  by (auto simp: trimmed_or_null_def non_blank_def split: option.splits if_splits)

text \<open>What every accepted posting satisfies, whatever the caller sent.\<close>

definition entry_ok :: "LedgerEntry \<Rightarrow> bool" where
  "entry_ok r \<longleftrightarrow>
     0 \<le> le_amount r \<and> le_amount r < 10 ^ 12
     \<and> le_eventType r \<noteq> [] \<and> le_reasonCode r \<noteq> [] \<and> le_actorType r \<noteq> [] \<and> le_currency r \<noteq> []
     \<and> (le_direction r = ''credit'' \<or> le_direction r = ''debit'')
     \<and> free_of_keys SENSITIVE_METADATA_KEYS (le_metadata r)"

lemma to_dec_nonneg: "to_dec x = Inr k \<Longrightarrow> 0 \<le> x \<Longrightarrow> 0 \<le> k"
  by (auto simp: to_dec_def dec_round_def Let_def split: if_splits)

lemma validate_entry_amount:
  "validate_entry i = Inr r \<Longrightarrow> is_lifecycle_marker i \<or> positive_number (li_amount i)"
  by (auto simp: validate_entry_def split: if_splits)

lemma validate_entry_ok:
  assumes "validate_entry i = Inr r"
  shows "entry_ok r"
proof -
  have "0 \<le> number_value (li_amount i)"
    using validate_entry_amount [OF assms]
    by (cases "li_amount i") (auto simp: number_value_def is_lifecycle_marker_def)
  then show ?thesis
    using assms to_dec_nonneg to_dec_bound
    by (fastforce simp: validate_entry_def entry_ok_def Let_def prog_iff sanitizeLedgerMetadata_def
          stripSensitive_def free_of_keys_strip split: if_splits option.splits)
qed

lemma validate_entry_key:
  "validate_entry i = Inr r \<Longrightarrow> le_idempotencyKey r = trimmed_or_null (li_idempotencyKey i)"
  by (auto simp: validate_entry_def Let_def prog_iff split: if_splits)

text \<open>The database constraints and the contents of every row, as one invariant.\<close>

definition ledger_ok :: "LedgerEntry list \<Rightarrow> bool" where
  "ledger_ok t \<longleftrightarrow>
     distinct (keys_of le_idempotencyKey t)
     \<and> (\<forall>r \<in> set t. entry_ok r)"

lemma record_entry_cases:
  assumes "record_entry i t = (x, t')"
  shows "(\<exists>r. validate_entry i = Inr r \<and> x = Inr r \<and> t' = t @ [r] \<and> \<not> key_taken le_idempotencyKey r t)
    \<or> (t' = t \<and> (\<exists>r r'. validate_entry i = Inr r \<and> r' \<in> set t \<and> x = Inr r'
          \<and> le_idempotencyKey r' = le_idempotencyKey r \<and> le_idempotencyKey r \<noteq> None))
    \<or> (t' = t \<and> (\<exists>e. x = Inl e))"
proof (cases "validate_entry i")
  case (Inl e)
  with assms have "x = Inl e" "t' = t" by (auto simp: record_entry_def)
  then show ?thesis by simp
next
  case (Inr r)
  with assms have "keyed_post le_idempotencyKey insert_entry r t = (x, t')"
    by (simp add: record_entry_def)
  from ledger.post_cases [OF this] Inr show ?thesis by auto
qed

lemma record_entry_prefix: "record_entry i t = (x, t') \<Longrightarrow> \<exists>us. t' = t @ us"
  using record_entry_cases by fastforce

lemma record_entry_keeps: "keeps ledger_ok (record_entry i)"
proof (rule keepsI)
  fix t x t'
  assume inv: "ledger_ok t" and run: "record_entry i t = (x, t')"
  from record_entry_cases [OF run] show "ledger_ok t'"
  proof (elim disjE exE conjE)
    fix r assume r: "validate_entry i = Inr r" "t' = t @ [r]" "\<not> key_taken le_idempotencyKey r t"
    then show ?thesis using inv validate_entry_ok [OF r(1)]
      by (auto simp: ledger_ok_def key_taken_def in_keys_of split: option.splits)
  qed (use inv in simp_all)
qed

lemma record_entry_key:
  assumes "record_entry i t = (Inr r, t')"
  shows "r \<in> set t' \<and> le_idempotencyKey r = trimmed_or_null (li_idempotencyKey i)"
  using record_entry_cases [OF assms] validate_entry_key by fastforce

lemma record_entry_replay:
  assumes "record_entry i t = (Inr r, t')" and "ledger_ok t"
    and "trimmed_or_null (li_idempotencyKey i) = Some k"
    and "trimmed_or_null (li_idempotencyKey j) = Some k"
    and "validate_entry j = Inr r2"
  shows "record_entry j t' = (Inr r, t')"
proof -
  obtain r1 where r1: "validate_entry i = Inr r1"
    "keyed_post le_idempotencyKey insert_entry r1 t = (Inr r, t')"
    using assms(1) by (auto simp: record_entry_def prog_iff)
  have "keyed_post le_idempotencyKey insert_entry r2 t' = (Inr r, t')"
    by (rule ledger.post_again [OF r1(2)])
       (use assms r1 validate_entry_key in \<open>auto simp: ledger_ok_def\<close>)
  with assms(5) show ?thesis by (simp add: record_entry_def)
qed

text \<open>A sequence of postings by anyone, in any order, each succeeding or failing.\<close>

primrec post_all :: "RecordLedgerInput list \<Rightarrow> LedgerEntry list \<Rightarrow> LedgerEntry list" where
  "post_all [] t = t"
| "post_all (i # is) t = post_all is (snd (record_entry i t))"

lemma post_all_prefix: "\<exists>us. post_all is t = t @ us"
proof (induction "is" arbitrary: t)
  case (Cons i "is")
  obtain us where "snd (record_entry i t) = t @ us"
    using record_entry_prefix [of i t] by (cases "record_entry i t") auto
  moreover from Cons obtain vs where "post_all is (t @ us) = (t @ us) @ vs" by blast
  ultimately show ?case by simp
qed simp

lemma post_all_ok: "ledger_ok t \<Longrightarrow> ledger_ok (post_all is t)"
  using record_entry_keeps by (induction "is" arbitrary: t) (auto simp: keeps_def)

text \<open>Each posting adds at most one row, and never a second row of one order and reason.\<close>

lemma post_all_bounded: "\<exists>us. post_all is t = t @ us \<and> length us \<le> length is"
proof (induction "is" arbitrary: t)
  case (Cons i "is")
  obtain us where us: "snd (record_entry i t) = t @ us" "length us \<le> 1"
    using record_entry_cases [of i t] by (cases "record_entry i t") fastforce
  from Cons obtain vs where "post_all is (t @ us) = (t @ us) @ vs" "length vs \<le> length is" by blast
  with us show ?case by (intro exI [of _ "us @ vs"]) simp
qed simp

definition order_reasons :: "LedgerEntry list \<Rightarrow> (string option \<times> string) list" where
  "order_reasons t = map (\<lambda>r. (le_orderId r, le_reasonCode r)) (filter (\<lambda>r. le_orderId r \<noteq> None) t)"

lemma order_reasons_Nil [simp]: "order_reasons [] = []"
  by (simp add: order_reasons_def)

lemma record_entry_inserts:
  assumes "record_entry i t = (x, t')" "t' \<noteq> t"
  shows "\<exists>r. insert_entry r t = Inr t'"
proof (cases "validate_entry i")
  case (Inr r)
  with assms show ?thesis
    by (auto simp: record_entry_def keyed_post_def split: sum.splits option.splits if_splits exn.splits)
qed (use assms in \<open>simp add: record_entry_def\<close>)

lemma insert_entry_reasons:
  "insert_entry r t = Inr t' \<Longrightarrow> distinct (order_reasons t) \<Longrightarrow> distinct (order_reasons t')"
  by (auto simp: insert_entry_def order_reason_taken_def order_reasons_def split: if_splits) metis

lemma record_entry_reasons:
  assumes "record_entry i t = (x, t')" "distinct (order_reasons t)"
  shows "distinct (order_reasons t')"
  using record_entry_inserts [OF assms(1)] insert_entry_reasons [of _ t t'] assms(2) by (cases "t' = t") auto

lemma post_all_reasons: "distinct (order_reasons t) \<Longrightarrow> distinct (order_reasons (post_all is t))"
proof (induction "is" arbitrary: t)
  case (Cons i "is")
  from Cons.IH [OF record_entry_reasons [of i t _ "snd (record_entry i t)"]] Cons.prems show ?case
    by (cases "record_entry i t") simp
qed simp

text \<open>Once a keyed posting has been tried, trying it again never changes the table.\<close>

lemma keyed_post_blocked:
  "key_taken le_idempotencyKey r t \<or> order_reason_taken r t
    \<Longrightarrow> snd (keyed_post le_idempotencyKey insert_entry r t) = t"
  by (auto simp: keyed_post_def insert_entry_def split: option.splits)

lemma record_entry_blocks:
  assumes "validate_entry i = Inr r" and "le_idempotencyKey r \<noteq> None" and "record_entry i t = (x, t')"
  shows "key_taken le_idempotencyKey r t' \<or> order_reason_taken r t'"
  using assms
  by (auto simp: record_entry_def keyed_post_def insert_entry_def key_taken_def split: if_splits option.splits)

lemma blocked_append:
  "key_taken le_idempotencyKey r t \<or> order_reason_taken r t \<Longrightarrow>
     key_taken le_idempotencyKey r (t @ us) \<or> order_reason_taken r (t @ us)"
  by (auto simp: key_taken_def order_reason_taken_def)

lemma record_entry_again:
  assumes "trimmed_or_null (li_idempotencyKey i) \<noteq> None"
  shows "snd (record_entry i (snd (record_entry i t) @ us)) = snd (record_entry i t) @ us"
proof (cases "validate_entry i")
  case (Inl e)
  then show ?thesis by (simp add: record_entry_def)
next
  case (Inr r)
  then have "le_idempotencyKey r \<noteq> None" using assms validate_entry_key by simp
  from blocked_append [OF record_entry_blocks [OF Inr this], of t _ "snd (record_entry i t)" us]
  have "key_taken le_idempotencyKey r (snd (record_entry i t) @ us)
    \<or> order_reason_taken r (snd (record_entry i t) @ us)"
    by (metis prod.collapse)
  from keyed_post_blocked [OF this] Inr show ?thesis by (simp add: record_entry_def)
qed

lemma post_all_append: "post_all (is @ js) t = post_all js (post_all is t)"
  by (induction "is" arbitrary: t) simp_all

lemma post_all_again:
  "\<forall>i \<in> set is. trimmed_or_null (li_idempotencyKey i) \<noteq> None \<Longrightarrow>
     post_all is (post_all is t @ us) = post_all is t @ us"
proof (induction "is" arbitrary: t us)
  case (Cons i "is")
  obtain vs where vs: "post_all is (snd (record_entry i t)) = snd (record_entry i t) @ vs"
    using post_all_prefix by blast
  have "snd (record_entry i (snd (record_entry i t) @ vs @ us)) = snd (record_entry i t) @ vs @ us"
    using Cons.prems by (intro record_entry_again) simp
  with Cons.IH [of "snd (record_entry i t)" us] Cons.prems vs show ?case by simp
qed simp

subsection \<open>The keys of an order\<close>

lemma js_trim_rear:
  assumes "js_trim s = s" and "s \<noteq> []" and "\<not> js_space c"
  shows "js_trim ((c # p) @ s) = (c # p) @ s"
proof -
  have "length (dropWhile js_space (rev (dropWhile js_space s))) = length s"
    using assms(1) unfolding js_trim_def by (metis length_rev)
  moreover have "length (dropWhile js_space s) \<le> length s" by (rule length_dropWhile_le)
  moreover have "length (dropWhile js_space (rev (dropWhile js_space s))) \<le> length (dropWhile js_space s)"
    by (metis length_dropWhile_le length_rev)
  ultimately have len: "length (dropWhile js_space s) = length s" by linarith
  have lead: "dropWhile js_space s = s"
    using takeWhile_dropWhile_id [of js_space s] len
    by (metis append_eq_append_conv append_self_conv2 length_append add_cancel_left_left length_0_conv)
  then have "dropWhile js_space (rev s) = rev s"
    using assms(1) unfolding js_trim_def by (metis rev_rev_ident)
  moreover obtain z zs where z: "rev s = z # zs" using assms(2) by (cases "rev s") auto
  moreover have "dropWhile js_space zs \<noteq> z # zs"
    using length_dropWhile_le [of js_space zs] by (metis Suc_n_not_le_n length_Cons)
  ultimately have "\<not> js_space z" by (auto split: if_splits)
  with z have "dropWhile js_space (rev s @ rev p @ [c]) = rev s @ rev p @ [c]" by simp
  then show ?thesis using assms(3) by (simp add: js_trim_def)
qed

lemma event_name_head: "\<exists>c p. event_name e @ '':'' = c # p \<and> \<not> js_space c"
  by (cases e) (simp_all add: js_space_def)

lemma order_key_trimmed:
  assumes "js_trim oid = oid" and "oid \<noteq> []"
  shows "trimmed_or_null (Some (ledgerIdempotencyKey e oid)) = Some (ledgerIdempotencyKey e oid)"
proof -
  obtain c p where "event_name e @ '':'' = c # p" "\<not> js_space c" using event_name_head by blast
  then have "js_trim ((event_name e @ '':'') @ oid) = (event_name e @ '':'') @ oid"
    using js_trim_rear [OF assms, of c p] by simp
  then have "js_trim (ledgerIdempotencyKey e oid) = ledgerIdempotencyKey e oid"
    by (simp add: ledgerIdempotencyKey_def)
  moreover have "ledgerIdempotencyKey e oid \<noteq> []" by (simp add: ledgerIdempotencyKey_def)
  ultimately show ?thesis by (simp add: trimmed_or_null_def non_blank_def)
qed

lemma order_key_some:
  "trimmed_or_null (Some (ledgerIdempotencyKey e oid)) \<noteq> None"
proof -
  obtain c p where cp: "event_name e @ '':'' = c # p" "\<not> js_space c" using event_name_head by blast
  have key: "ledgerIdempotencyKey e oid = c # p @ oid"
    using cp(1) by (metis append_Cons append_assoc append_Nil ledgerIdempotencyKey_def append.assoc)
  have "dropWhile js_space (rev (p @ oid) @ [c]) \<noteq> []"
    using cp(2) by (auto simp: dropWhile_eq_Nil_conv)
  then have "js_trim (ledgerIdempotencyKey e oid) \<noteq> []"
    using cp(2) by (simp add: js_trim_def key)
  then show ?thesis by (simp add: trimmed_or_null_def non_blank_def)
qed

lemma order_entries_keyed:
  "i \<in> set (buildOrderLedgerEntries ord pid) \<Longrightarrow> trimmed_or_null (li_idempotencyKey i) \<noteq> None"
  using order_key_some by (auto simp: buildOrderLedgerEntries_def order_entry_def split: if_splits)

subsection \<open>Posting an order\<close>

text \<open>An order whose postings are well formed: what \<open>record\<close> itself checks of them.\<close>

definition order_well_formed :: "PaidOrderForLedger \<Rightarrow> bool" where
  "order_well_formed ord \<longleftrightarrow>
     js_trim (po_id ord) = po_id ord \<and> po_id ord \<noteq> [] \<and> js_upper (js_trim (po_currency ord)) \<noteq> []"

text \<open>Nothing of the order has been posted for this event yet.\<close>

definition unposted :: "PaidOrderForLedger \<Rightarrow> FinancialEventType \<Rightarrow> string \<Rightarrow> LedgerEntry list \<Rightarrow> bool" where
  "unposted ord event reason t \<longleftrightarrow>
     (\<forall>r \<in> set t. \<not> (le_orderId r = Some (po_id ord) \<and> le_reasonCode r = reason)
        \<and> le_idempotencyKey r \<noteq> Some (ledgerIdempotencyKey event (po_id ord)))"

definition posting_of :: "PaidOrderForLedger \<Rightarrow> FinancialEventType \<Rightarrow> string \<Rightarrow> int \<Rightarrow> LedgerEntry \<Rightarrow> bool" where
  "posting_of ord event reason k r \<longleftrightarrow>
     le_orderId r = Some (po_id ord) \<and> le_reasonCode r = reason \<and> le_amount r = k
     \<and> le_idempotencyKey r = Some (ledgerIdempotencyKey event (po_id ord))"

lemma event_name_positive: "event_name e \<noteq> []" "js_trim (event_name e) = event_name e"
  by (cases e; simp add: js_trim_def js_space_def)+

lemma order_entry_posts:
  assumes wf: "order_well_formed ord" and k: "0 < k" "k < 10 ^ 12" and amount: "amount = dec_num k"
    and fresh: "unposted ord event reason t"
    and reason: "reason \<noteq> []" "js_trim reason = reason" and actor: "actorType \<noteq> []" "js_trim actorType = actorType"
    and dir: "dir = ''credit'' \<or> dir = ''debit''"
    and mk: "event \<notin> {SETTLEMENT_STARTED, SETTLEMENT_COMPLETED, SETTLEMENT_SUPERSEDED}"
  shows "\<exists>r. record_entry (order_entry ord pid event reason actorType actor amount dir cp) t = (Inr r, t @ [r])
    \<and> posting_of ord event reason k r"
proof -
  let ?i = "order_entry ord pid event reason actorType actor amount dir cp"
  have "dec_num k \<noteq> 0" using k dec_num_inj [of k 0] by simp
  moreover have "0 \<le> dec_num k" using k fromMinor_nonneg [of k SAR] dec_num_fromMinor [of SAR k] by simp
  ultimately have pos: "0 < amount" using amount by simp
  have key: "trimmed_or_null (li_idempotencyKey ?i) = Some (ledgerIdempotencyKey event (po_id ord))"
    using wf order_key_trimmed by (simp add: order_entry_def order_well_formed_def)
  have "\<not> is_lifecycle_marker ?i" using pos by (simp add: is_lifecycle_marker_def order_entry_def)
  moreover have "to_dec amount = Inr k" using amount k by (simp add: to_dec_dec_num)
  ultimately have "\<exists>r. validate_entry ?i = Inr r \<and> posting_of ord event reason k r"
    using key pos wf reason actor dir event_name_positive [of event]
    by (simp add: validate_entry_def order_entry_def Let_def number_value_def posting_of_def order_well_formed_def)
  then obtain r where r: "validate_entry ?i = Inr r" "posting_of ord event reason k r" by blast
  then have "insert_entry r t = Inr (t @ [r])"
    using fresh by (auto simp: insert_entry_def order_reason_taken_def key_taken_def posting_of_def unposted_def)
  with r show ?thesis by (simp add: record_entry_def keyed_post_def)
qed

lemma order_keys_differ:
  "ledgerIdempotencyKey e oid = ledgerIdempotencyKey e' oid \<longleftrightarrow> event_name e = event_name e'"
  by (simp add: ledgerIdempotencyKey_def)

definition amount_of_reason :: "(string \<Rightarrow> bool) \<Rightarrow> LedgerEntry list \<Rightarrow> int" where
  "amount_of_reason p rows = sum_list (map le_amount (filter (\<lambda>r. p (le_reasonCode r)) rows))"

lemma dec_num_pos_iff: "0 \<le> k \<Longrightarrow> k < 10 ^ 12 \<Longrightarrow> 0 < dec_num k \<longleftrightarrow> 0 < k"
  using dec_num_inj [of k 0] fromMinor_nonneg [of k SAR] dec_num_fromMinor [of SAR k]
  by (cases "k = 0") (simp_all add: less_le)

lemma post_order_step:
  assumes "0 \<le> k" "k < 10 ^ 12" "order_well_formed ord" "unposted ord event reason t"
    and "reason \<noteq> []" "js_trim reason = reason" and "actorType \<noteq> []" "js_trim actorType = actorType"
    and "dir = ''credit'' \<or> dir = ''debit''"
    and "event \<notin> {SETTLEMENT_STARTED, SETTLEMENT_COMPLETED, SETTLEMENT_SUPERSEDED}"
    and "b \<longleftrightarrow> 0 < dec_num k"
  shows "\<exists>rs. post_all (if b then [order_entry ord pid event reason actorType actor (dec_num k) dir cp] else []) t = t @ rs
    \<and> (\<forall>r \<in> set rs. posting_of ord event reason k r) \<and> sum_list (map le_amount rs) = k"
proof (cases "k = 0")
  case True
  then show ?thesis using assms(11) by (intro exI [of _ "[]"]) simp
next
  case False
  then have pos: "0 < k" and "0 < dec_num k" using assms dec_num_pos_iff by auto
  from order_entry_posts [OF assms(3) pos assms(2) refl assms(4-10)]
  obtain r where "record_entry (order_entry ord pid event reason actorType actor (dec_num k) dir cp) t = (Inr r, t @ [r])"
    "posting_of ord event reason k r" by blast
  then show ?thesis using \<open>0 < dec_num k\<close> assms(11) by (intro exI [of _ "[r]"]) (simp add: posting_of_def)
qed

lemma unposted_rows:
  "unposted ord event reason t \<Longrightarrow> \<forall>r \<in> set rs. posting_of ord event' reason' k r \<Longrightarrow>
     reason \<noteq> reason' \<Longrightarrow> event_name event \<noteq> event_name event' \<Longrightarrow> unposted ord event reason (t @ rs)"
  by (auto simp: unposted_def posting_of_def order_keys_differ)

lemma amount_of_reason_rows:
  assumes "\<forall>r \<in> set rs. posting_of ord event reason k r"
  shows "amount_of_reason p rs = (if p reason then sum_list (map le_amount rs) else 0)"
proof -
  have "filter (\<lambda>r. p (le_reasonCode r)) rs = (if p reason then rs else [])"
    using assms by (auto simp: posting_of_def filter_id_conv filter_empty_conv)
  then show ?thesis by (simp add: amount_of_reason_def)
qed

lemma amount_of_reason_append [simp]:
  "amount_of_reason p (xs @ ys) = amount_of_reason p xs + amount_of_reason p ys"
  by (simp add: amount_of_reason_def)

lemma findByOrder_append [simp]: "findByOrder oid (xs @ ys) = findByOrder oid xs @ findByOrder oid ys"
  by (simp add: findByOrder_def)

lemma findByOrder_rows:
  "\<forall>r \<in> set rs. posting_of ord event reason k r \<Longrightarrow> findByOrder (po_id ord) rs = rs"
  by (simp add: findByOrder_def posting_of_def filter_id_conv)

section \<open>Properties\<close>

text \<open>
  C36: the ledger is append-only. Whatever postings are attempted in whatever order, keyed or
  not, every row stays at its place through any later postings, each of which adds at most one
  row; every row keeps the content rules (a non-negative amount within the column, non-empty
  codes and currency, a credit or debit direction, no sensitive metadata); no key ever labels
  two rows and no order has two rows of one reason.
\<close>

theorem ledger_append_only:
  "(\<exists>us. post_all (is @ js) [] = post_all is [] @ us \<and> length us \<le> length js)
   \<and> list_all entry_ok (post_all is [])
   \<and> distinct (keys_of le_idempotencyKey (post_all is []))
   \<and> distinct (order_reasons (post_all is []))"
proof -
  have "ledger_ok (post_all is [])" by (rule post_all_ok) (simp add: ledger_ok_def)
  moreover have "distinct (order_reasons (post_all is []))" by (rule post_all_reasons) simp
  ultimately show ?thesis
    using post_all_bounded [of js "post_all is []"] by (simp add: post_all_append ledger_ok_def list_all_iff)
qed

definition sample_marker :: RecordLedgerInput where
  "sample_marker =
     \<lparr> li_eventType = event_name SETTLEMENT_STARTED, li_reasonCode = ''SETTLEMENT_STARTED'',
       li_actorType = ''system'', li_actorId = None, li_amount = Fin 0, li_currency = ''sar '',
       li_direction = ''debit'', li_counterpartyType = None, li_orderId = None, li_paymentId = None,
       li_campaignId = None, li_orgId = None, li_storeId = None,
       li_metadata = Some (JObj [(''City'', JStr ''x''), (''batch'', JObj [(''phone'', JStr ''y'')])]),
       li_idempotencyKey = Some (ledgerIdempotencyKey SETTLEMENT_STARTED ''b1'') \<rparr>"

definition sample_marker_row :: LedgerEntry where
  "sample_marker_row =
     \<lparr> le_eventType = event_name SETTLEMENT_STARTED, le_reasonCode = ''SETTLEMENT_STARTED'',
       le_actorType = ''system'', le_actorId = None, le_amount = 0, le_currency = ''SAR'',
       le_direction = ''debit'', le_counterpartyType = None, le_orderId = None, le_paymentId = None,
       le_campaignId = None, le_orgId = None, le_storeId = None,
       le_metadata = JObj [(''batch'', JObj [])],
       le_idempotencyKey = Some (ledgerIdempotencyKey SETTLEMENT_STARTED ''b1'') \<rparr>"

lemma sample_marker_posts: "record_entry sample_marker [] = (Inr sample_marker_row, [sample_marker_row])"
  by code_simp

text \<open>
  Posting is idempotent by key. After a posting under a deterministic key succeeded, any
  well-formed posting under the same key, whatever its amount or content, returns the original
  row and writes nothing.
\<close>

theorem posting_idempotent:
  assumes "record_entry i (post_all is []) = (Inr r, t')"
    and "trimmed_or_null (li_idempotencyKey i) = Some k"
    and "trimmed_or_null (li_idempotencyKey j) = Some k"
    and "validate_entry j = Inr r2"
  shows "record_entry j t' = (Inr r, t')"
proof -
  have "ledger_ok (post_all is [])" by (rule post_all_ok) (simp add: ledger_ok_def)
  from record_entry_replay [OF assms(1) this assms(2-4)] show ?thesis .
qed

lemma posting_idempotent_witness:
  "record_entry (sample_marker\<lparr> li_eventType := ''order.paid'', li_amount := Fin 75 \<rparr>) [sample_marker_row]
   = (Inr sample_marker_row, [sample_marker_row])"
proof (rule posting_idempotent)
  show "record_entry sample_marker (post_all [] []) = (Inr sample_marker_row, [sample_marker_row])"
    by (simp add: sample_marker_posts)
  show "trimmed_or_null (li_idempotencyKey sample_marker) = Some (ledgerIdempotencyKey SETTLEMENT_STARTED ''b1'')"
    by code_simp
  show "trimmed_or_null (li_idempotencyKey (sample_marker\<lparr> li_eventType := ''order.paid'', li_amount := Fin 75 \<rparr>))
    = Some (ledgerIdempotencyKey SETTLEMENT_STARTED ''b1'')"
    by code_simp
  show "validate_entry (sample_marker\<lparr> li_eventType := ''order.paid'', li_amount := Fin 75 \<rparr>)
    = Inr (sample_marker_row\<lparr> le_eventType := ''order.paid'', le_amount := 7500 \<rparr>)"
    by code_simp
qed

text \<open>
  The postings of a paid order allocate the captured total exactly. For an order of a
  store whose price, service fee and delivery fee add up to its total, posted once to a ledger
  that has nothing of it, the rows of the order carry the total under ORDER_PAID and the same
  total over the other reasons together; and posting the order again, after anything else was
  posted, adds no row.
\<close>

theorem order_postings_conserve:
  assumes wf: "order_well_formed ord" and store: "truthy (po_storeId ord)"
    and cols: "po_serviceFee ord = dec_num s" "po_productPrice ord = dec_num p"
      "po_deliveryFee ord = dec_num d" "po_totalAmount ord = dec_num (s + p + d)"
    and nonneg: "0 \<le> s" "0 \<le> p" "0 \<le> d" and total: "0 < s + p + d" "s + p + d < 10 ^ 12"
    and fresh: "findByOrder (po_id ord) t = []"
      "\<forall>e. findByIdempotencyKey (ledgerIdempotencyKey e (po_id ord)) t = None"
  shows "amount_of_reason (\<lambda>c. c = ''ORDER_PAID'') (findByOrder (po_id ord) (post_all (buildOrderLedgerEntries ord pid) t)) = s + p + d
    \<and> amount_of_reason (\<lambda>c. c \<noteq> ''ORDER_PAID'') (findByOrder (po_id ord) (post_all (buildOrderLedgerEntries ord pid) t)) = s + p + d
    \<and> post_all (buildOrderLedgerEntries ord pid) (post_all (buildOrderLedgerEntries ord pid) t @ us)
        = post_all (buildOrderLedgerEntries ord pid) t @ us"
proof -
  have free: "unposted ord e c t" for e c
    using fresh by (auto simp: unposted_def findByOrder_def findByIdempotencyKey_def filter_empty_conv find_None_iff)
  have tpos: "True \<longleftrightarrow> 0 < dec_num (s + p + d)" using total dec_num_pos_iff by simp
  note trim = js_trim_def js_space_def
  have "\<exists>rs. post_all (if True then [order_entry ord pid ORDER_PAID ''ORDER_PAID'' ''user'' (Some (po_userId ord)) (dec_num (s + p + d)) ''credit'' ''sender''] else []) (t) = (t) @ rs
      \<and> (\<forall>r \<in> set rs. posting_of ord ORDER_PAID ''ORDER_PAID'' (s + p + d) r) \<and> sum_list (map le_amount rs) = (s + p + d)"
    by (rule post_order_step [OF _ _ wf free]) (use nonneg total tpos in \<open>simp_all add: trim\<close>)
  then obtain r1 where r1: "post_all (if True then [order_entry ord pid ORDER_PAID ''ORDER_PAID'' ''user'' (Some (po_userId ord)) (dec_num (s + p + d)) ''credit'' ''sender''] else []) (t) = (t) @ r1"
      "\<forall>r \<in> set r1. posting_of ord ORDER_PAID ''ORDER_PAID'' (s + p + d) r" "sum_list (map le_amount r1) = (s + p + d)"
    by blast
  have f2: "unposted ord QIFT_SERVICE_FEE_ACCRUED ''QIFT_SERVICE_FEE'' (t @ r1)"
    by (rule unposted_rows [OF free r1(2)]) simp_all
  have "\<exists>rs. post_all (if 0 < dec_num s then [order_entry ord pid QIFT_SERVICE_FEE_ACCRUED ''QIFT_SERVICE_FEE'' ''system'' None (dec_num s) ''credit'' ''qift''] else []) (t @ r1) = (t @ r1) @ rs
      \<and> (\<forall>r \<in> set rs. posting_of ord QIFT_SERVICE_FEE_ACCRUED ''QIFT_SERVICE_FEE'' s r) \<and> sum_list (map le_amount rs) = s"
    by (rule post_order_step [OF _ _ wf f2]) (use nonneg total tpos in \<open>simp_all add: trim\<close>)
  then obtain r2 where r2: "post_all (if 0 < dec_num s then [order_entry ord pid QIFT_SERVICE_FEE_ACCRUED ''QIFT_SERVICE_FEE'' ''system'' None (dec_num s) ''credit'' ''qift''] else []) (t @ r1) = (t @ r1) @ r2"
      "\<forall>r \<in> set r2. posting_of ord QIFT_SERVICE_FEE_ACCRUED ''QIFT_SERVICE_FEE'' s r" "sum_list (map le_amount r2) = s"
    by blast
  have f3: "unposted ord MERCHANT_PAYABLE_ACCRUED ''MERCHANT_PAYABLE'' ((t @ r1) @ r2)"
    by (rule unposted_rows [OF unposted_rows [OF free r1(2)] r2(2)]) simp_all
  have "\<exists>rs. post_all (if 0 < dec_num p then [order_entry ord pid MERCHANT_PAYABLE_ACCRUED ''MERCHANT_PAYABLE'' ''system'' None (dec_num p) ''debit'' ''merchant''] else []) ((t @ r1) @ r2) = ((t @ r1) @ r2) @ rs
      \<and> (\<forall>r \<in> set rs. posting_of ord MERCHANT_PAYABLE_ACCRUED ''MERCHANT_PAYABLE'' p r) \<and> sum_list (map le_amount rs) = p"
    by (rule post_order_step [OF _ _ wf f3]) (use nonneg total tpos in \<open>simp_all add: trim\<close>)
  then obtain r3 where r3: "post_all (if 0 < dec_num p then [order_entry ord pid MERCHANT_PAYABLE_ACCRUED ''MERCHANT_PAYABLE'' ''system'' None (dec_num p) ''debit'' ''merchant''] else []) ((t @ r1) @ r2) = ((t @ r1) @ r2) @ r3"
      "\<forall>r \<in> set r3. posting_of ord MERCHANT_PAYABLE_ACCRUED ''MERCHANT_PAYABLE'' p r" "sum_list (map le_amount r3) = p"
    by blast
  have f4: "unposted ord DELIVERY_FEE_ACCRUED ''DELIVERY_FEE'' (((t @ r1) @ r2) @ r3)"
    by (rule unposted_rows [OF unposted_rows [OF unposted_rows [OF free r1(2)] r2(2)] r3(2)]) simp_all
  have "\<exists>rs. post_all (if 0 < dec_num d then [order_entry ord pid DELIVERY_FEE_ACCRUED ''DELIVERY_FEE'' ''system'' None (dec_num d) ''debit'' ''merchant''] else []) (((t @ r1) @ r2) @ r3) = (((t @ r1) @ r2) @ r3) @ rs
      \<and> (\<forall>r \<in> set rs. posting_of ord DELIVERY_FEE_ACCRUED ''DELIVERY_FEE'' d r) \<and> sum_list (map le_amount rs) = d"
    by (rule post_order_step [OF _ _ wf f4]) (use nonneg total tpos in \<open>simp_all add: trim\<close>)
  then obtain r4 where r4: "post_all (if 0 < dec_num d then [order_entry ord pid DELIVERY_FEE_ACCRUED ''DELIVERY_FEE'' ''system'' None (dec_num d) ''debit'' ''merchant''] else []) (((t @ r1) @ r2) @ r3) = (((t @ r1) @ r2) @ r3) @ r4"
      "\<forall>r \<in> set r4. posting_of ord DELIVERY_FEE_ACCRUED ''DELIVERY_FEE'' d r" "sum_list (map le_amount r4) = d"
    by blast
  have all: "post_all (buildOrderLedgerEntries ord pid) t = t @ r1 @ r2 @ r3 @ r4"
    unfolding buildOrderLedgerEntries_def post_all_append cols store using r1(1) r2(1) r3(1) r4(1)
    by (simp only: eqTrueI [OF store] simp_thms if_True append_assoc)
  note rows = r1(2) r2(2) r3(2) r4(2)
  show ?thesis
    using post_all_again [of "buildOrderLedgerEntries ord pid" t us] order_entries_keyed
      r1(3) r2(3) r3(3) r4(3)
    by (simp add: all fresh rows [THEN findByOrder_rows] rows [THEN amount_of_reason_rows])
qed

definition sample_order :: PaidOrderForLedger where
  "sample_order = \<lparr> po_id = ''o1'', po_userId = ''u1'', po_storeId = Some ''s1'',
     po_productPrice = dec_num 10000, po_serviceFee = dec_num 1500, po_deliveryFee = dec_num 0,
     po_totalAmount = dec_num 11500, po_currency = ''SAR'', po_paymentProvider = ''stub'' \<rparr>"

lemma order_postings_conserve_witness:
  "amount_of_reason (\<lambda>c. c = ''ORDER_PAID'') (findByOrder ''o1'' (post_all (buildOrderLedgerEntries sample_order None) [])) = 11500"
proof -
  have "order_well_formed sample_order" "truthy (po_storeId sample_order)" by code_simp+
  from order_postings_conserve [OF this, where s = 1500 and p = 10000 and d = 0 and t = "[]" and pid = None]
  show ?thesis by (simp add: sample_order_def findByOrder_def findByIdempotencyKey_def)
qed

end
