(* ===== verification/Audit_Trail.thy ===== *)
theory Audit_Trail
  imports Keyed_Log Json
begin

text \<open>
  The audit trail of \<open>src/src/audit/audit.service.ts\<close>: the guaranteed write, keyed by the
  occurrence it documents, and the best-effort write. The table is a list in insertion order
  with a unique, nullable \<open>auditKey\<close>; it is an instance of \<open>keyed_log\<close>.
\<close>

section \<open>Rows\<close>

record AuditRecordInput =
  ai_actorUserId :: "string option"
  ai_actorType :: string
  ai_action :: string
  ai_targetType :: string
  ai_targetId :: "string option"
  ai_metadata :: "json option"

record AuditLog =
  al_auditKey :: "string option"
  al_actorUserId :: "string option"
  al_actorType :: string
  al_action :: string
  al_targetType :: string
  al_targetId :: "string option"
  al_metadata :: json

definition PII_DENYLIST :: "string list" where
  "PII_DENYLIST =
     [''recipientname'', ''name'', ''phone'', ''phonenumber'', ''email'', ''address'',
      ''addressline'', ''city'', ''district'', ''lat'', ''lng'', ''location'', ''note'',
      ''giftmessage'']"

definition stripPii :: "json \<Rightarrow> json" where
  "stripPii = strip_keys PII_DENYLIST"

section \<open>Writes\<close>

definition audit_row :: "AuditRecordInput \<Rightarrow> string option \<Rightarrow> (json \<Rightarrow> json) \<Rightarrow> AuditLog" where
  "audit_row i key clean =
     \<lparr> al_auditKey = key, al_actorUserId = ai_actorUserId i, al_actorType = ai_actorType i,
       al_action = ai_action i, al_targetType = ai_targetType i, al_targetId = ai_targetId i,
       al_metadata = (case ai_metadata i of None \<Rightarrow> JNull | Some v \<Rightarrow> clean v) \<rparr>"

definition insert_audit :: "AuditLog \<Rightarrow> AuditLog list \<Rightarrow> AuditLog list res" where
  "insert_audit r t =
     (if key_taken al_auditKey r t then Inl (P2002 ''auditKey'') else Inr (t @ [r]))"

text \<open>A taken key is a normal return: the act was already audited.\<close>

definition recordGuaranteed :: "AuditRecordInput \<Rightarrow> string \<Rightarrow> (AuditLog list, unit) prog" where
  "recordGuaranteed i auditKey t =
     (if \<not> non_blank auditKey then (Inl (JsError ''audit_key_required''), t)
      else case insert_audit (audit_row i (Some auditKey) stripPii) t of
        Inr t' \<Rightarrow> (Inr (), t')
      | Inl e \<Rightarrow> (case e of P2002 _ \<Rightarrow> (Inr (), t) | _ \<Rightarrow> (Inl e, t)))"

text \<open>The best-effort write swallows every failure and keeps the metadata as given.\<close>

definition record_best_effort :: "AuditRecordInput \<Rightarrow> (AuditLog list, unit) prog" where
  "record_best_effort i t =
     (case insert_audit (audit_row i None (\<lambda>v. v)) t of
        Inr t' \<Rightarrow> (Inr (), t')
      | Inl e \<Rightarrow> (Inr (), t))"

section \<open>Lemmas\<close>

interpretation audit: keyed_log al_auditKey insert_audit
  by unfold_locales (auto simp: insert_audit_def split: if_splits)

lemma recordGuaranteed_post:
  "recordGuaranteed i k t = (x, t') \<Longrightarrow> non_blank k \<Longrightarrow>
     t' = snd (keyed_post al_auditKey insert_audit (audit_row i (Some k) stripPii) t) \<and> x = Inr ()"
  using find_key [of t al_auditKey k]
  by (auto simp: recordGuaranteed_def keyed_post_def insert_audit_def key_taken_def audit_row_def
      split: if_splits option.splits)

lemma recordGuaranteed_returns: "non_blank k \<Longrightarrow> fst (recordGuaranteed i k t) = Inr ()"
  by (simp add: recordGuaranteed_def insert_audit_def)

definition audited :: "string \<Rightarrow> AuditLog list \<Rightarrow> bool" where
  "audited k t \<longleftrightarrow> (\<exists>r \<in> set t. al_auditKey r = Some k)"

lemma recordGuaranteed_audited: "non_blank k \<Longrightarrow> audited k (snd (recordGuaranteed i k t))"
  by (auto simp: recordGuaranteed_def insert_audit_def key_taken_def audited_def audit_row_def)

lemma audited_append [simp]: "audited k (t @ us) \<longleftrightarrow> audited k t \<or> audited k us"
  by (auto simp: audited_def)

lemma recordGuaranteed_replay:
  "audited k t \<Longrightarrow> recordGuaranteed i k t = (if non_blank k then Inr () else Inl (JsError ''audit_key_required''), t)"
  by (auto simp: recordGuaranteed_def insert_audit_def key_taken_def audited_def audit_row_def)

lemma recordGuaranteed_prefix: "\<exists>us. snd (recordGuaranteed i k t) = t @ us"
  by (auto simp: recordGuaranteed_def insert_audit_def)

lemma record_best_effort_run [simp]: "record_best_effort i t = (Inr (), t @ [audit_row i None (\<lambda>v. v)])"
  by (simp add: record_best_effort_def insert_audit_def key_taken_def audit_row_def)

text \<open>The trail as its invariant: one row per key, and no personal data on a keyed row.\<close>

definition audit_ok :: "AuditLog list \<Rightarrow> bool" where
  "audit_ok t \<longleftrightarrow> distinct (keys_of al_auditKey t)
     \<and> (\<forall>r \<in> set t. al_auditKey r \<noteq> None \<longrightarrow> free_of_keys PII_DENYLIST (al_metadata r))"

lemma audit_ok_guaranteed: "audit_ok t \<Longrightarrow> audit_ok (snd (recordGuaranteed i k t))"
  by (auto simp: recordGuaranteed_def insert_audit_def key_taken_def audit_ok_def audit_row_def in_keys_of
      stripPii_def free_of_keys_strip split: option.splits)

lemma audit_ok_best_effort: "audit_ok t \<Longrightarrow> audit_ok (snd (record_best_effort i t))"
  by (simp add: audit_ok_def audit_row_def)

datatype audit_call = Guaranteed AuditRecordInput string | BestEffort AuditRecordInput

fun audit_step :: "audit_call \<Rightarrow> (AuditLog list, unit) prog" where
  "audit_step (Guaranteed i k) = recordGuaranteed i k"
| "audit_step (BestEffort i) = record_best_effort i"

definition audit_all :: "audit_call list \<Rightarrow> AuditLog list \<Rightarrow> AuditLog list" where
  "audit_all cs t = fold (\<lambda>c t. snd (audit_step c t)) cs t"

lemma audit_all_simps [simp]:
  "audit_all [] t = t" "audit_all (c # cs) t = audit_all cs (snd (audit_step c t))"
  by (simp_all add: audit_all_def)

lemma audit_all_ok: "audit_ok t \<Longrightarrow> audit_ok (audit_all cs t)"
proof (induction cs arbitrary: t)
  case (Cons c cs)
  then show ?case by (cases c) (simp_all only: audit_all_simps audit_step.simps audit_ok_guaranteed audit_ok_best_effort)
qed simp

lemma audit_all_prefix: "\<exists>us. audit_all cs t = t @ us"
proof (induction cs arbitrary: t)
  case (Cons c cs)
  have "\<exists>us. snd (audit_step c t) = t @ us"
    by (cases c) (simp_all add: recordGuaranteed_prefix)
  then obtain us where "snd (audit_step c t) = t @ us" ..
  with Cons [of "t @ us"] show ?case by auto
qed simp

section \<open>Properties\<close>

text \<open>
  C37: guaranteed audits are exactly-once. When a guaranteed write returns, exactly one row
  carries its key, whatever other audit writes came before and come after; a retry of the same
  occurrence after them returns normally and writes nothing; and no keyed row ever carries a
  field on the personal-data deny list.
\<close>

theorem guaranteed_audit_exactly_once:
  assumes "recordGuaranteed i k (audit_all cs []) = (Inr (), t)"
  shows "(\<exists>!r. r \<in> set (audit_all ds t) \<and> al_auditKey r = Some k)
    \<and> recordGuaranteed j k (audit_all ds t) = (Inr (), audit_all ds t)
    \<and> (\<forall>r \<in> set (audit_all ds t). al_auditKey r \<noteq> None \<longrightarrow> free_of_keys PII_DENYLIST (al_metadata r))"
proof -
  have nb: "non_blank k" using assms by (auto simp: recordGuaranteed_def split: if_splits)
  have t: "t = snd (recordGuaranteed i k (audit_all cs []))" using assms by simp
  have "audit_ok (audit_all cs [])" by (rule audit_all_ok) (simp add: audit_ok_def)
  from audit_all_ok [OF audit_ok_guaranteed [OF this]] have ok: "audit_ok (audit_all ds t)" unfolding t .
  obtain us where "audit_all ds t = t @ us" using audit_all_prefix by blast
  with recordGuaranteed_audited [OF nb, of i] have aud: "audited k (audit_all ds t)" unfolding t by simp
  then obtain r where r: "r \<in> set (audit_all ds t)" "al_auditKey r = Some k" by (auto simp: audited_def)
  have "r' = r" if "r' \<in> set (audit_all ds t)" "al_auditKey r' = Some k" for r'
    using ok that r by (intro keys_of_unique [of al_auditKey "audit_all ds t" r' k r]) (simp_all add: audit_ok_def)
  with r have "\<exists>!r. r \<in> set (audit_all ds t) \<and> al_auditKey r = Some k" by blast
  with recordGuaranteed_replay [OF aud, of j] nb ok show ?thesis by (simp add: audit_ok_def)
qed

definition sample_audit :: AuditRecordInput where
  "sample_audit = \<lparr> ai_actorUserId = Some ''admin'', ai_actorType = ''admin'', ai_action = ''settlement.approved'',
     ai_targetType = ''system'', ai_targetId = Some ''b1'', ai_metadata = Some (JObj [(''Phone'', JStr ''5'')]) \<rparr>"

lemma guaranteed_audit_exactly_once_witness:
  "\<exists>t. recordGuaranteed sample_audit ''k1'' (audit_all [BestEffort sample_audit] []) = (Inr (), t)
     \<and> recordGuaranteed (sample_audit\<lparr> ai_action := ''other'' \<rparr>) ''k1'' (audit_all [Guaranteed sample_audit ''k2''] t)
        = (Inr (), audit_all [Guaranteed sample_audit ''k2''] t)"
proof -
  obtain t where t: "recordGuaranteed sample_audit ''k1'' (audit_all [BestEffort sample_audit] []) = (Inr (), t)"
    using recordGuaranteed_returns [of "''k1''" sample_audit "audit_all [BestEffort sample_audit] []"]
    by (cases "recordGuaranteed sample_audit ''k1'' (audit_all [BestEffort sample_audit] [])")
       (simp add: non_blank_def js_trim_def js_space_def)
  from guaranteed_audit_exactly_once [OF this] t show ?thesis by blast
qed

end
