(* ===== verification/Calculator.thy ===== *)
theory Calculator
  imports Money Json
begin

text \<open>
  The settlement calculator (\<open>src/src/settlement/settlement-calculator.ts\<close>): the currency
  gate, and the one calculation that turns the items of a batch and its adjustments into the
  enumerated lines and the net. Amounts are finite numbers: they are read from decimal
  columns or from the frozen JSON of a batch.
\<close>

section \<open>Currencies\<close>

fun currency_str :: "CurrencyCode \<Rightarrow> string" where
  "currency_str SAR = ''SAR''" | "currency_str AED = ''AED''" | "currency_str QAR = ''QAR''"
| "currency_str BHD = ''BHD''" | "currency_str KWD = ''KWD''" | "currency_str OMR = ''OMR''"

definition KNOWN_CURRENCIES :: "CurrencyCode list" where
  "KNOWN_CURRENCIES = [SAR, AED, QAR]"

definition UNSAFE_3DP_CURRENCIES :: "CurrencyCode list" where
  "UNSAFE_3DP_CURRENCIES = [KWD, BHD, OMR]"

definition asCurrencyCode :: "string \<Rightarrow> CurrencyCode res" where
  "asCurrencyCode raw =
     (let c = js_upper raw in
      if c \<in> currency_str ` set UNSAFE_3DP_CURRENCIES
      then Inl (JsError (''settlement_currency_scale_unsupported:'' @ c))
      else case find (\<lambda>k. currency_str k = c) KNOWN_CURRENCIES of
        None \<Rightarrow> Inl (JsError (''settlement_unknown_currency:'' @ raw))
      | Some k \<Rightarrow> Inr k)"

section \<open>Types\<close>

record SettlementItemInput =
  ii_itemId :: string
  ii_occurrenceType :: string
  ii_occurrenceId :: string
  ii_amount :: rat
  ii_currency :: string
  ii_references :: "json option"

record SettlementAdjustments =
  adj_marketplaceAdjustments :: "rat option"
  adj_refunds :: "rat option"
  adj_chargebacks :: "rat option"
  adj_reserveHeld :: "rat option"
  adj_reserveReleased :: "rat option"
  adj_manualAdjustments :: "rat option"
  adj_receivableRecovery :: "rat option"

definition no_adjustments :: SettlementAdjustments where
  "no_adjustments =
     \<lparr> adj_marketplaceAdjustments = None, adj_refunds = None, adj_chargebacks = None,
       adj_reserveHeld = None, adj_reserveReleased = None, adj_manualAdjustments = None,
       adj_receivableRecovery = None \<rparr>"

record SettlementLines =
  ln_merchantGross :: rat
  ln_marketplaceAdjustments :: rat
  ln_qiftFees :: rat
  ln_taxes :: rat
  ln_refunds :: rat
  ln_chargebacks :: rat
  ln_reserveHeld :: rat
  ln_reserveReleased :: rat
  ln_manualAdjustments :: rat
  ln_receivableRecovery :: rat

record SettlementCalculation =
  calc_currency :: string
  calc_lines :: SettlementLines
  calc_netAmount :: rat
  calc_itemCount :: nat

definition MixedCurrencyError :: "string \<Rightarrow> string \<Rightarrow> exn" where
  "MixedCurrencyError a b = JsError (''settlement_currencies_never_sum:'' @ a @ '':'' @ b)"

section \<open>The calculation\<close>

fun gross_minor :: "CurrencyCode \<Rightarrow> SettlementItemInput list \<Rightarrow> int \<Rightarrow> int res" where
  "gross_minor currency [] acc = Inr acc"
| "gross_minor currency (i # is) acc =
     bindr (asCurrencyCode (ii_currency i)) (\<lambda>c.
       if c \<noteq> currency then Inl (MixedCurrencyError (currency_str currency) (currency_str c))
       else gross_minor currency is (acc + to_minor (ii_amount i) currency))"

definition adjustment_minor :: "CurrencyCode \<Rightarrow> rat option \<Rightarrow> int" where
  "adjustment_minor c v = to_minor (case v of None \<Rightarrow> 0 | Some x \<Rightarrow> x) c"

text \<open>The lines and the net for a gross in minor units.\<close>

definition settlement_net :: "CurrencyCode \<Rightarrow> int \<Rightarrow> SettlementAdjustments \<Rightarrow> int" where
  "settlement_net c grossMinor adj =
     grossMinor + adjustment_minor c (adj_marketplaceAdjustments adj)
     - adjustment_minor c (adj_refunds adj) - adjustment_minor c (adj_chargebacks adj)
     - adjustment_minor c (adj_reserveHeld adj) + adjustment_minor c (adj_reserveReleased adj)
     + adjustment_minor c (adj_manualAdjustments adj) - adjustment_minor c (adj_receivableRecovery adj)"

definition settlement_calculation ::
  "CurrencyCode \<Rightarrow> int \<Rightarrow> SettlementAdjustments \<Rightarrow> nat \<Rightarrow> SettlementCalculation"
where
  "settlement_calculation currency grossMinor adj itemCount =
     (let line = (\<lambda>v. fromMinor (adjustment_minor currency v) currency) in
      \<lparr> calc_currency = currency_str currency,
        calc_lines =
          \<lparr> ln_merchantGross = fromMinor grossMinor currency,
            ln_marketplaceAdjustments = line (adj_marketplaceAdjustments adj),
            ln_qiftFees = 0, ln_taxes = 0,
            ln_refunds = line (adj_refunds adj),
            ln_chargebacks = line (adj_chargebacks adj),
            ln_reserveHeld = line (adj_reserveHeld adj),
            ln_reserveReleased = line (adj_reserveReleased adj),
            ln_manualAdjustments = line (adj_manualAdjustments adj),
            ln_receivableRecovery = line (adj_receivableRecovery adj) \<rparr>,
        calc_netAmount = fromMinor (settlement_net currency grossMinor adj) currency,
        calc_itemCount = itemCount \<rparr>)"

definition calculateSettlement ::
  "SettlementItemInput list \<Rightarrow> SettlementAdjustments \<Rightarrow> SettlementCalculation res"
where
  "calculateSettlement items adjustments =
     (case items of
        [] \<Rightarrow> Inl (JsError ''settlement_empty_composition'')
      | i0 # _ \<Rightarrow>
        bindr (asCurrencyCode (ii_currency i0)) (\<lambda>currency.
        bindr (gross_minor currency items 0) (\<lambda>grossMinor.
        Inr (settlement_calculation currency grossMinor adjustments (length items)))))"

text \<open>The calculation as the JSON value that is frozen and hashed.\<close>

definition lines_json :: "SettlementLines \<Rightarrow> json" where
  "lines_json l = JObj
     [(''merchantGross'', JNum (ln_merchantGross l)),
      (''marketplaceAdjustments'', JNum (ln_marketplaceAdjustments l)),
      (''qiftFees'', JNum (ln_qiftFees l)), (''taxes'', JNum (ln_taxes l)),
      (''refunds'', JNum (ln_refunds l)), (''chargebacks'', JNum (ln_chargebacks l)),
      (''reserveHeld'', JNum (ln_reserveHeld l)), (''reserveReleased'', JNum (ln_reserveReleased l)),
      (''manualAdjustments'', JNum (ln_manualAdjustments l)),
      (''receivableRecovery'', JNum (ln_receivableRecovery l))]"

definition calculation_json :: "SettlementCalculation \<Rightarrow> json" where
  "calculation_json c = JObj
     [(''currency'', JStr (calc_currency c)), (''lines'', lines_json (calc_lines c)),
      (''netAmount'', JNum (calc_netAmount c)), (''itemCount'', JNum (of_nat (calc_itemCount c)))]"

section \<open>Lemmas\<close>

lemma asCurrencyCode_known: "asCurrencyCode raw = Inr c \<Longrightarrow> c \<in> {SAR, AED, QAR} \<and> js_upper raw = currency_str c"
  by (auto simp: asCurrencyCode_def KNOWN_CURRENCIES_def Let_def split: if_splits)

lemma asCurrencyCode_2dp: "asCurrencyCode raw = Inr c \<Longrightarrow> minorDigitsFor c = 2"
  using asCurrencyCode_known by fastforce

lemma upper_currency [simp]: "js_upper (currency_str c) = currency_str c"
  by (cases c) (simp_all add: js_upper_def js_upper_char_def)

lemma currency_str_inj: "currency_str c = currency_str d \<longleftrightarrow> c = d"
  by (cases c; cases d) simp_all

lemma asCurrencyCode_str: "c \<in> {SAR, AED, QAR} \<Longrightarrow> asCurrencyCode (currency_str c) = Inr c"
  by (auto simp: asCurrencyCode_def KNOWN_CURRENCIES_def UNSAFE_3DP_CURRENCIES_def)

lemma asCurrencyCode_idem: "asCurrencyCode raw = Inr c \<Longrightarrow> asCurrencyCode (currency_str c) = Inr c"
  using asCurrencyCode_known asCurrencyCode_str by blast

lemma gross_minor_iff:
  "gross_minor c is acc = Inr g \<longleftrightarrow>
     (\<forall>i \<in> set is. asCurrencyCode (ii_currency i) = Inr c)
     \<and> g = acc + sum_list (map (\<lambda>i. to_minor (ii_amount i) c) is)"
  by (induction "is" arbitrary: acc) (auto simp: prog_iff bindr_def split: sum.splits)

text \<open>One currency: what the items of a successful calculation have in common.\<close>

definition items_gross :: "CurrencyCode \<Rightarrow> SettlementItemInput list \<Rightarrow> int" where
  "items_gross c items = sum_list (map (\<lambda>i. to_minor (ii_amount i) c) items)"

lemma calculateSettlement_iff:
  "calculateSettlement items adj = Inr r \<longleftrightarrow>
     items \<noteq> [] \<and> (\<exists>c. (\<forall>i \<in> set items. asCurrencyCode (ii_currency i) = Inr c)
       \<and> r = settlement_calculation c (items_gross c items) adj (length items))"
proof (cases items)
  case Nil
  then show ?thesis by (simp add: calculateSettlement_def)
next
  case (Cons i0 rest)
  then show ?thesis
    unfolding items_gross_def calculateSettlement_def
    by (auto simp: prog_iff gross_minor_iff simp del: gross_minor.simps)
qed

lemma settlement_net_recovery:
  "settlement_net c g (no_adjustments\<lparr> adj_receivableRecovery := Some x \<rparr>) = g - to_minor x c"
  by (simp add: settlement_net_def adjustment_minor_def no_adjustments_def)

lemma settlement_net_none: "settlement_net c g no_adjustments = g"
  by (simp add: settlement_net_def adjustment_minor_def no_adjustments_def)

section \<open>Properties\<close>

text \<open>
  The settlement calculation is exact and single-currency. When it succeeds on items
  whose amounts come from decimal columns, all items are in one supported two-decimal
  currency, the gross line is the exact total of the columns, and the enumerated lines balance
  to the net to the last minor unit.
\<close>

theorem calculateSettlement_exact:
  assumes "calculateSettlement (map2 (\<lambda>i k. i\<lparr> ii_amount := dec_num k \<rparr>) items ks) adj = Inr r"
    and "length ks = length items" and "\<forall>k \<in> set ks. \<bar>k\<bar> < 10 ^ 12"
  shows "\<exists>c \<in> {SAR, AED, QAR}. calc_currency r = currency_str c
    \<and> (\<forall>i \<in> set items. js_upper (ii_currency i) = currency_str c)
    \<and> ln_merchantGross (calc_lines r) = fromMinor (sum_list ks) c
    \<and> (\<exists>mp rf cb rh rr ma rec. calc_netAmount r = fromMinor (sum_list ks + mp - rf - cb - rh + rr + ma - rec) c
        \<and> calc_lines r = \<lparr> ln_merchantGross = fromMinor (sum_list ks) c,
            ln_marketplaceAdjustments = fromMinor mp c, ln_qiftFees = 0, ln_taxes = 0,
            ln_refunds = fromMinor rf c, ln_chargebacks = fromMinor cb c,
            ln_reserveHeld = fromMinor rh c, ln_reserveReleased = fromMinor rr c,
            ln_manualAdjustments = fromMinor ma c, ln_receivableRecovery = fromMinor rec c \<rparr>)"
proof -
  let ?is = "map2 (\<lambda>i k. i\<lparr> ii_amount := dec_num k \<rparr>) items ks"
  from assms(1) obtain c where cur: "\<forall>i \<in> set ?is. asCurrencyCode (ii_currency i) = Inr c"
    and r: "r = settlement_calculation c (items_gross c ?is) adj (length ?is)" and ne: "?is \<noteq> []"
    unfolding calculateSettlement_iff by blast
  have each: "asCurrencyCode (ii_currency i) = Inr c" if "i \<in> set items" for i
  proof -
    from that obtain n where n: "n < length items" "items ! n = i" by (auto simp: in_set_conv_nth)
    then have "?is ! n \<in> set ?is" using assms(2) by (intro nth_mem) simp
    with cur have "asCurrencyCode (ii_currency (?is ! n)) = Inr c" by blast
    with n assms(2) show ?thesis by simp
  qed
  obtain i0 where "i0 \<in> set items" using ne by (cases items) auto
  from each [OF this] have c: "c \<in> {SAR, AED, QAR}" "minorDigitsFor c = 2"
    using asCurrencyCode_known asCurrencyCode_2dp by blast+
  have "map (\<lambda>i. to_minor (ii_amount i) c) ?is = ks"
    using assms(2,3) c(2) by (intro nth_equalityI) simp_all
  then have "items_gross c ?is = sum_list ks" by (simp add: items_gross_def)
  then have r: "r = settlement_calculation c (sum_list ks) adj (length ?is)" using r by simp
  have "\<exists>mp rf cb rh rr ma rec. calc_netAmount r = fromMinor (sum_list ks + mp - rf - cb - rh + rr + ma - rec) c
        \<and> calc_lines r = \<lparr> ln_merchantGross = fromMinor (sum_list ks) c,
            ln_marketplaceAdjustments = fromMinor mp c, ln_qiftFees = 0, ln_taxes = 0,
            ln_refunds = fromMinor rf c, ln_chargebacks = fromMinor cb c,
            ln_reserveHeld = fromMinor rh c, ln_reserveReleased = fromMinor rr c,
            ln_manualAdjustments = fromMinor ma c, ln_receivableRecovery = fromMinor rec c \<rparr>"
    unfolding r settlement_calculation_def settlement_net_def Let_def SettlementCalculation.simps
    by (intro exI conjI) (rule refl)+
  moreover have "calc_currency r = currency_str c" "ln_merchantGross (calc_lines r) = fromMinor (sum_list ks) c"
    unfolding r by (simp_all add: settlement_calculation_def Let_def)
  ultimately show ?thesis
    using c(1) each asCurrencyCode_known by (intro bexI [of _ c]) blast+
qed

definition sample_item :: "string \<Rightarrow> SettlementItemInput" where
  "sample_item k = \<lparr> ii_itemId = k, ii_occurrenceType = ''gift'', ii_occurrenceId = k,
     ii_amount = 0, ii_currency = ''sar'', ii_references = None \<rparr>"

lemma calculateSettlement_exact_witness:
  "\<exists>r. calculateSettlement (map2 (\<lambda>i k. i\<lparr> ii_amount := dec_num k \<rparr>) [sample_item ''a'', sample_item ''b''] [1010, 2020]) no_adjustments = Inr r
     \<and> ln_merchantGross (calc_lines r) = fromMinor 3030 SAR"
proof -
  have "asCurrencyCode ''sar'' = Inr SAR" by code_simp
  then obtain r where r: "calculateSettlement (map2 (\<lambda>i k. i\<lparr> ii_amount := dec_num k \<rparr>) [sample_item ''a'', sample_item ''b''] [1010, 2020]) no_adjustments = Inr r"
    by (simp add: calculateSettlement_def sample_item_def)
  have len: "length [1010, 2020 :: int] = length [sample_item ''a'', sample_item ''b'']"
    and bd: "\<forall>k \<in> set [1010, 2020 :: int]. \<bar>k\<bar> < 10 ^ 12" by simp_all
  from calculateSettlement_exact [OF r len bd] obtain c where c: "\<forall>i \<in> set [sample_item ''a'', sample_item ''b'']. js_upper (ii_currency i) = currency_str c"
    and g: "ln_merchantGross (calc_lines r) = fromMinor (sum_list [1010, 2020]) c"
    by blast
  have "js_upper ''sar'' = currency_str c" using c by (simp add: sample_item_def)
  moreover have "js_upper ''sar'' = currency_str SAR" by code_simp
  ultimately have "ln_merchantGross (calc_lines r) = fromMinor 3030 SAR" using g currency_str_inj [of c SAR] by simp
  with r show ?thesis by blast
qed

end
