(* ===== verification/Dates.thy ===== *)
theory Dates
  imports Json
begin

text \<open>
  Time. The settlement subsystem reads the clock through the injected \<open>SettlementClock\<close>
  (\<open>src/src/settlement/settlement-clock.ts\<close>); an instant is its number of milliseconds since
  the epoch, and \<open>Date.prototype.toISOString\<close> is the proleptic Gregorian calendar.
\<close>

type_synonym instant = int

definition day_ms :: int where "day_ms = 86400000"

definition hour_ms :: int where "hour_ms = 3600000"

text \<open>The civil date of a day number, counting from 1970-01-01: year, month, day.\<close>

definition civil_from_days :: "int \<Rightarrow> int \<times> int \<times> int" where
  "civil_from_days days =
     (let z = days + 719468;
          era = z div 146097;
          doe = z mod 146097;
          yoe = (doe - doe div 1460 + doe div 36524 - doe div 146096) div 365;
          doy = doe - (365 * yoe + yoe div 4 - yoe div 100);
          mp = (5 * doy + 2) div 153;
          d = doy - (153 * mp + 2) div 5 + 1;
          m = (if mp < 10 then mp + 3 else mp - 9);
          y = yoe + era * 400 + (if m \<le> 2 then 1 else 0)
      in (y, m, d))"

definition utc_year :: "instant \<Rightarrow> int" where
  "utc_year t = fst (civil_from_days (t div day_ms))"

definition pad_int :: "nat \<Rightarrow> int \<Rightarrow> string" where
  "pad_int n k = (let s = nat_str (nat k) in replicate (n - length s) (CHR ''0'') @ s)"

definition iso_year :: "int \<Rightarrow> string" where
  "iso_year y =
     (if 0 \<le> y \<and> y \<le> 9999 then pad_int 4 y
      else (if y < 0 then ''-'' else ''+'') @ pad_int 6 \<bar>y\<bar>)"

definition toISOString :: "instant \<Rightarrow> string" where
  "toISOString t =
     (let ms = t mod day_ms in
      case civil_from_days (t div day_ms) of (y, m, d) \<Rightarrow>
        iso_year y @ ''-'' @ pad_int 2 m @ ''-'' @ pad_int 2 d @ ''T''
        @ pad_int 2 (ms div hour_ms) @ '':'' @ pad_int 2 (ms div 60000 mod 60) @ '':''
        @ pad_int 2 (ms div 1000 mod 60) @ ''.'' @ pad_int 3 (ms mod 1000) @ ''Z'')"

text \<open>Midnight UTC of the day of an instant (\<open>setUTCHours(0, 0, 0, 0)\<close>).\<close>

definition utc_day_start :: "instant \<Rightarrow> instant" where
  "utc_day_start t = t - t mod day_ms"

text \<open>
  \<open>Date.parse\<close> on the full format \<open>YYYY-MM-DDTHH:mm:ss.sssZ\<close> that \<open>toISOString\<close> writes;
  \<open>None\<close> is NaN. The other formats the language accepts do not occur in what the services store.
\<close>

definition days_from_civil :: "int \<Rightarrow> int \<Rightarrow> int \<Rightarrow> int" where
  "days_from_civil y m d =
     (let y' = (if m \<le> 2 then y - 1 else y);
          yoe = y' mod 400;
          doy = (153 * (if 2 < m then m - 3 else m + 9) + 2) div 5 + d - 1
      in (y' div 400) * 146097 + (yoe * 365 + yoe div 4 - yoe div 100 + doy) - 719468)"

definition number_at :: "nat \<Rightarrow> nat \<Rightarrow> string \<Rightarrow> int" where
  "number_at i n s = int (digits_val (take n (drop i s)))"

definition iso_shape :: "string \<Rightarrow> bool" where
  "iso_shape s \<longleftrightarrow> map (\<lambda>c. if CHR ''0'' \<le> c \<and> c \<le> CHR ''9'' then CHR ''0'' else c) s = ''0000-00-00T00:00:00.000Z''"

definition date_parse :: "string \<Rightarrow> instant option" where
  "date_parse s =
     (if \<not> iso_shape s then None
      else let y = number_at 0 4 s; mo = number_at 5 2 s; d = number_at 8 2 s;
               h = number_at 11 2 s; mi = number_at 14 2 s; sec = number_at 17 2 s; ms = number_at 20 3 s
      in if 1 \<le> mo \<and> mo \<le> 12 \<and> 1 \<le> d \<and> d \<le> 31 \<and> mi < 60 \<and> sec < 60
           \<and> (h < 24 \<or> h = 24 \<and> mi = 0 \<and> sec = 0 \<and> ms = 0)
         then Some (days_from_civil y mo d * day_ms + h * hour_ms + mi * 60000 + sec * 1000 + ms)
         else None)"

lemma utc_day_start_le: "utc_day_start t \<le> t"
  by (simp add: utc_day_start_def day_ms_def)

lemma toISOString_samples:
  "toISOString 0 = ''1970-01-01T00:00:00.000Z''"
  "toISOString 1709251199999 = ''2024-02-29T23:59:59.999Z''"
  "toISOString (- 1) = ''1969-12-31T23:59:59.999Z''"
  by code_simp+

lemma date_parse_samples:
  "date_parse (toISOString 1709251199999) = Some 1709251199999" "date_parse (toISOString (- 1)) = Some (- 1)"
  "date_parse ''2024-13-01T00:00:00.000Z'' = None" "date_parse ''yesterday'' = None"
  by code_simp+

end
