(* ===== verification/Statement.thy ===== *)
theory Statement
  imports Calculator Dates
begin

text \<open>
  The documents of a settlement: the frozen batch record and the statement generated from it
  (\<open>src/src/settlement/settlement-statement.ts\<close>) and the credit note
  (\<open>settlement-credit-note.ts\<close>). A document is a JSON value with the source's fields, and its
  hash is the digest of its canonical bytes; the digest (SHA-256, hexadecimal) is the
  argument \<open>sha\<close>.
\<close>

section \<open>The frozen batch\<close>

record FrozenCompositionEntry =
  fc_itemId :: string
  fc_occurrenceType :: string
  fc_occurrenceId :: string
  fc_amount :: rat
  fc_currency :: string
  fc_references :: "json option"

record RecoveryAllocation =
  ra_receivableId :: string
  ra_occurrenceId :: string
  ra_amount :: rat
  ra_amountRecoveredAtPlan :: rat
  ra_balanceAfter :: rat

record FrozenBatchRecord =
  fz_settlementId :: string
  fz_settlementReference :: string
  fz_storeId :: string
  fz_currency :: string
  fz_windowType :: string
  fz_composition :: "FrozenCompositionEntry list"
  fz_calculationSnapshot :: SettlementCalculation
  fz_recoveryAllocation :: "RecoveryAllocation list option"

record RemittanceEvidence =
  rv_remittanceId :: string
  rv_bankTransferReference :: string
  rv_executedAt :: string
  rv_amount :: rat

record ZeroNetClosureFacts =
  cf_closedAt :: string
  cf_issuedUnderReplayEngine :: string

definition ZERO_NET_NO_TRANSFER_TEXT :: string where
  "ZERO_NET_NO_TRANSFER_TEXT = ''No bank transfer occurred. The frozen net of this settlement batch is exactly zero; this Settlement Statement is the sole and complete instrument of closure (Settlement Constitution '' @ [char_of (0xA7::nat)] @ ''26). No remittance exists for this batch and none is due.''"

section \<open>Digests\<close>

definition hashCanonical :: "(string \<Rightarrow> string) \<Rightarrow> string \<Rightarrow> string" where
  "hashCanonical sha canonical = sha canonical"

definition calculationHash :: "(string \<Rightarrow> string) \<Rightarrow> SettlementCalculation \<Rightarrow> string" where
  "calculationHash sha snapshot = hashCanonical sha (canonicalJson (calculation_json snapshot))"

section \<open>The statement\<close>

record SettlementStatement =
  ss_statementVersion :: string
  ss_settlementReference :: string
  ss_settlementId :: string
  ss_storeId :: string
  ss_currency :: string
  ss_windowType :: string
  ss_issuedAt :: string
  ss_coveredOccurrences :: "FrozenCompositionEntry list"
  ss_lines :: SettlementLines
  ss_netAmount :: rat
  ss_itemCount :: nat
  ss_remittance :: "RemittanceEvidence option"
  ss_calculationHash :: string
  ss_closure :: "(ZeroNetClosureFacts \<times> rat \<times> rat \<times> rat) option"

text \<open>
  A covered occurrence carries the composition entry without its item id, and \<open>{}\<close> for
  absent references; the opening position is the gross line, the recovery line and the net.
\<close>

definition occurrence_json :: "FrozenCompositionEntry \<Rightarrow> json" where
  "occurrence_json c = JObj
     [(''occurrenceType'', JStr (fc_occurrenceType c)), (''occurrenceId'', JStr (fc_occurrenceId c)),
      (''amount'', JNum (fc_amount c)), (''currency'', JStr (fc_currency c)),
      (''references'', case fc_references c of None \<Rightarrow> JObj [] | Some r \<Rightarrow> r)]"

definition remittance_json :: "RemittanceEvidence option \<Rightarrow> json" where
  "remittance_json v = (case v of None \<Rightarrow> JNull | Some r \<Rightarrow> JObj
     [(''remittanceId'', JStr (rv_remittanceId r)),
      (''bankTransferReference'', JStr (rv_bankTransferReference r)),
      (''executedAt'', JStr (rv_executedAt r)), (''amount'', JNum (rv_amount r))])"

definition closure_json :: "(ZeroNetClosureFacts \<times> rat \<times> rat \<times> rat) option \<Rightarrow> json" where
  "closure_json v = (case v of None \<Rightarrow> JUndef | Some (c, gross, recovery, net) \<Rightarrow> JObj
     [(''closureType'', JStr ''ZERO_NET_NO_TRANSFER''),
      (''noTransferStatement'', JStr ZERO_NET_NO_TRANSFER_TEXT),
      (''closedAt'', JStr (cf_closedAt c)),
      (''issuedUnderReplayEngine'', JStr (cf_issuedUnderReplayEngine c)),
      (''openingPosition'', JObj [(''merchantGross'', JNum gross), (''receivableRecovery'', JNum recovery),
                                 (''net'', JNum net)])])"

definition statement_json :: "SettlementStatement \<Rightarrow> json" where
  "statement_json s = JObj
     [(''statementVersion'', JStr (ss_statementVersion s)),
      (''settlementReference'', JStr (ss_settlementReference s)),
      (''settlementId'', JStr (ss_settlementId s)), (''storeId'', JStr (ss_storeId s)),
      (''currency'', JStr (ss_currency s)), (''windowType'', JStr (ss_windowType s)),
      (''issuedAt'', JStr (ss_issuedAt s)),
      (''coveredOccurrences'', JArr (map occurrence_json (ss_coveredOccurrences s))),
      (''lines'', lines_json (ss_lines s)), (''netAmount'', JNum (ss_netAmount s)),
      (''itemCount'', JNum (of_nat (ss_itemCount s))),
      (''remittance'', remittance_json (ss_remittance s)),
      (''calculationHash'', JStr (ss_calculationHash s)),
      (''closure'', closure_json (ss_closure s))]"

definition statementHash :: "(string \<Rightarrow> string) \<Rightarrow> SettlementStatement \<Rightarrow> string" where
  "statementHash sha s = hashCanonical sha (canonicalJson (statement_json s))"

definition signableDigest :: "(string \<Rightarrow> string) \<Rightarrow> SettlementStatement \<Rightarrow> string" where
  "signableDigest sha s = statementHash sha s"

definition generateSettlementStatement ::
  "(string \<Rightarrow> string) \<Rightarrow> FrozenBatchRecord \<Rightarrow> string \<Rightarrow> RemittanceEvidence option
    \<Rightarrow> ZeroNetClosureFacts option \<Rightarrow> SettlementStatement res"
where
  "generateSettlementStatement sha frozen issuedAt remittance closure =
     (if closure \<noteq> None \<and> remittance \<noteq> None
      then Inl (JsError ''statement_closure_and_remittance_exclusive'')
      else let snapshot = fz_calculationSnapshot frozen in
        Inr \<lparr> ss_statementVersion = (case closure of None \<Rightarrow> ''v1'' | Some _ \<Rightarrow> ''v2''),
          ss_settlementReference = fz_settlementReference frozen,
          ss_settlementId = fz_settlementId frozen,
          ss_storeId = fz_storeId frozen,
          ss_currency = fz_currency frozen,
          ss_windowType = fz_windowType frozen,
          ss_issuedAt = issuedAt,
          ss_coveredOccurrences = fz_composition frozen,
          ss_lines = calc_lines snapshot,
          ss_netAmount = calc_netAmount snapshot,
          ss_itemCount = calc_itemCount snapshot,
          ss_remittance = (case closure of None \<Rightarrow> remittance | Some _ \<Rightarrow> None),
          ss_calculationHash = calculationHash sha snapshot,
          ss_closure = (case closure of None \<Rightarrow> None | Some c \<Rightarrow>
            Some (c, ln_merchantGross (calc_lines snapshot), ln_receivableRecovery (calc_lines snapshot),
                  calc_netAmount snapshot)) \<rparr>)"

section \<open>The credit note\<close>

record CreditNoteFacts =
  nf_referenceNumber :: string
  nf_refundId :: string
  nf_noteType :: string
  nf_invoiceType :: string
  nf_invoiceId :: string
  nf_merchantInvoiceNumber :: "string option"
  nf_merchantCreditNoteNumber :: "string option"
  nf_qiftCreditNoteNumber :: "string option"
  nf_issuerType :: string
  nf_issuanceSource :: string
  nf_onBehalfAuthorizationRef :: "string option"
  nf_creditNoteUuid :: "string option"
  nf_originalInvoiceNumber :: "string option"
  nf_netComponent :: "rat option"
  nf_reasonCode :: "string option"
  nf_taxRuleVersion :: "string option"
  nf_buyerSnapshot :: "json option"
  nf_issuerSnapshot :: "json option"
  nf_storeId :: "string option"
  nf_orgId :: string
  nf_campaignId :: string
  nf_currency :: string
  nf_amount :: rat
  nf_vatComponent :: rat
  nf_reason :: string
  nf_issuedAt :: string
  nf_issuedBy :: string
  nf_statementSettlementId :: "string option"

definition jnum_opt :: "rat option \<Rightarrow> json" where
  "jnum_opt v = (case v of None \<Rightarrow> JNull | Some x \<Rightarrow> JNum x)"

definition json_or_null :: "json option \<Rightarrow> json" where
  "json_or_null v = (case v of None \<Rightarrow> JNull | Some x \<Rightarrow> x)"

definition buildCreditNoteDocument :: "CreditNoteFacts \<Rightarrow> json" where
  "buildCreditNoteDocument f = JObj
     [(''documentVersion'', JStr ''v3''),
      (''referenceNumber'', JStr (nf_referenceNumber f)),
      (''refundId'', JStr (nf_refundId f)),
      (''noteType'', JStr (nf_noteType f)),
      (''invoice'', JObj
        [(''invoiceType'', JStr (nf_invoiceType f)), (''invoiceId'', JStr (nf_invoiceId f)),
         (''merchantInvoiceNumber'', jopt (nf_merchantInvoiceNumber f)),
         (''originalInvoiceNumber'', jopt (nf_originalInvoiceNumber f))]),
      (''issuerType'', JStr (nf_issuerType f)),
      (''issuanceSource'', JStr (nf_issuanceSource f)),
      (''onBehalfAuthorizationRef'', jopt (nf_onBehalfAuthorizationRef f)),
      (''creditNoteUuid'', jopt (nf_creditNoteUuid f)),
      (''merchantCreditNoteNumber'', jopt (nf_merchantCreditNoteNumber f)),
      (''qiftCreditNoteNumber'', jopt (nf_qiftCreditNoteNumber f)),
      (''netComponent'', jnum_opt (nf_netComponent f)),
      (''reasonCode'', jopt (nf_reasonCode f)),
      (''taxRuleVersion'', jopt (nf_taxRuleVersion f)),
      (''buyerSnapshot'', json_or_null (nf_buyerSnapshot f)),
      (''issuerSnapshot'', json_or_null (nf_issuerSnapshot f)),
      (''storeId'', jopt (nf_storeId f)),
      (''orgId'', JStr (nf_orgId f)),
      (''campaignId'', JStr (nf_campaignId f)),
      (''currency'', JStr (nf_currency f)),
      (''amount'', JNum (nf_amount f)),
      (''vatComponent'', JNum (nf_vatComponent f)),
      (''reason'', JStr (nf_reason f)),
      (''issuedAt'', JStr (nf_issuedAt f)),
      (''issuedBy'', JStr (nf_issuedBy f)),
      (''statementSettlementId'', jopt (nf_statementSettlementId f))]"

definition creditNoteCanonical :: "CreditNoteFacts \<Rightarrow> string" where
  "creditNoteCanonical f = canonicalJson (buildCreditNoteDocument f)"

definition creditNoteHash :: "(string \<Rightarrow> string) \<Rightarrow> CreditNoteFacts \<Rightarrow> string" where
  "creditNoteHash sha f = hashCanonical sha (creditNoteCanonical f)"

end
