(* ===== verification/States.thy ===== *)
theory States
  imports Prelude
begin

text \<open>
  The lifecycle laws: settlement items and batches
  (\<open>src/src/settlement/settlement-states.ts\<close>) and merchant receivables
  (\<open>settlement-receivable-states.ts\<close>). Each law is a transition table and an assertion that
  throws on every move the table does not list. What follows from such a pair for whole
  sequences of moves is proved once, in the locale \<open>lifecycle\<close>.
\<close>

section \<open>States and tables\<close>

datatype ItemState = I_pending | I_eligible | I_held | I_ready | I_settled | I_reversed | I_disputed

datatype BatchState = B_ready | B_failed | B_held | B_settled | B_superseded

datatype ReceivableState = R_open | R_partially_recovered | R_recovered | R_written_off | R_disputed

fun ITEM_TRANSITIONS :: "ItemState \<Rightarrow> ItemState list" where
  "ITEM_TRANSITIONS I_pending = [I_eligible, I_held, I_disputed]"
| "ITEM_TRANSITIONS I_eligible = [I_ready, I_held, I_disputed]"
| "ITEM_TRANSITIONS I_held = [I_eligible, I_disputed]"
| "ITEM_TRANSITIONS I_ready = [I_settled, I_eligible, I_held, I_disputed]"
| "ITEM_TRANSITIONS I_settled = [I_reversed]"
| "ITEM_TRANSITIONS I_reversed = []"
| "ITEM_TRANSITIONS I_disputed = [I_eligible, I_held]"

fun BATCH_TRANSITIONS :: "BatchState \<Rightarrow> BatchState list" where
  "BATCH_TRANSITIONS B_ready = [B_settled, B_failed, B_superseded]"
| "BATCH_TRANSITIONS B_failed = [B_ready, B_held, B_superseded]"
| "BATCH_TRANSITIONS B_held = [B_ready, B_superseded]"
| "BATCH_TRANSITIONS B_settled = []"
| "BATCH_TRANSITIONS B_superseded = []"

fun RECEIVABLE_TRANSITIONS :: "ReceivableState \<Rightarrow> ReceivableState list" where
  "RECEIVABLE_TRANSITIONS R_open = [R_partially_recovered, R_recovered, R_written_off, R_disputed]"
| "RECEIVABLE_TRANSITIONS R_partially_recovered = [R_recovered, R_written_off, R_disputed]"
| "RECEIVABLE_TRANSITIONS R_recovered = []"
| "RECEIVABLE_TRANSITIONS R_written_off = []"
| "RECEIVABLE_TRANSITIONS R_disputed = [R_open, R_partially_recovered, R_written_off]"

section \<open>Names\<close>

fun item_state_name :: "ItemState \<Rightarrow> string" where
  "item_state_name I_pending = ''pending''"
| "item_state_name I_eligible = ''eligible''"
| "item_state_name I_held = ''held''"
| "item_state_name I_ready = ''ready''"
| "item_state_name I_settled = ''settled''"
| "item_state_name I_reversed = ''reversed''"
| "item_state_name I_disputed = ''disputed''"

fun batch_state_name :: "BatchState \<Rightarrow> string" where
  "batch_state_name B_ready = ''ready''"
| "batch_state_name B_failed = ''failed''"
| "batch_state_name B_held = ''held''"
| "batch_state_name B_settled = ''settled''"
| "batch_state_name B_superseded = ''superseded''"

fun receivable_state_name :: "ReceivableState \<Rightarrow> string" where
  "receivable_state_name R_open = ''open''"
| "receivable_state_name R_partially_recovered = ''partially_recovered''"
| "receivable_state_name R_recovered = ''recovered''"
| "receivable_state_name R_written_off = ''written_off''"
| "receivable_state_name R_disputed = ''disputed''"

section \<open>Assertions\<close>

definition IllegalSettlementTransition :: "string \<Rightarrow> string \<Rightarrow> string \<Rightarrow> exn" where
  "IllegalSettlementTransition grain fr to =
     JsError (''illegal_settlement_transition:'' @ grain @ '':'' @ fr @ ''->'' @ to)"

definition assertItemTransition :: "ItemState \<Rightarrow> ItemState \<Rightarrow> unit res" where
  "assertItemTransition fr to =
     check (to \<in> set (ITEM_TRANSITIONS fr))
       (IllegalSettlementTransition ''item'' (item_state_name fr) (item_state_name to))"

definition assertBatchTransition :: "BatchState \<Rightarrow> BatchState \<Rightarrow> unit res" where
  "assertBatchTransition fr to =
     check (to \<in> set (BATCH_TRANSITIONS fr))
       (IllegalSettlementTransition ''batch'' (batch_state_name fr) (batch_state_name to))"

definition assertReceivableTransition :: "ReceivableState \<Rightarrow> ReceivableState \<Rightarrow> unit res" where
  "assertReceivableTransition fr to =
     check (to \<in> set (RECEIVABLE_TRANSITIONS fr))
       (JsError (''illegal_receivable_transition:'' @ receivable_state_name fr @ ''->''
          @ receivable_state_name to))"

section \<open>Walks under a lifecycle law\<close>

text \<open>A sequence of moves, each asserted before it is made.\<close>

primrec walk :: "('s \<Rightarrow> 's \<Rightarrow> unit res) \<Rightarrow> 's \<Rightarrow> 's list \<Rightarrow> 's res" where
  "walk move s [] = Inr s"
| "walk move s (t # ts) = bindr (move s t) (\<lambda>_. walk move t ts)"

locale lifecycle =
  fixes moves :: "'s \<Rightarrow> 's list"
    and assert :: "'s \<Rightarrow> 's \<Rightarrow> unit res"
  assumes assert_table: "assert s t = Inr () \<longleftrightarrow> t \<in> set (moves s)"
begin

lemma illegal_refused: "t \<notin> set (moves s) \<Longrightarrow> \<exists>e. assert s t = Inl e"
  using assert_table [of s t] by (cases "assert s t") auto

lemma walk_append:
  "walk assert s (ts @ us) = bindr (walk assert s ts) (\<lambda>t. walk assert t us)"
  by (induction ts arbitrary: s) (auto simp: bindr_def split: sum.splits)

text \<open>A set of states that the table never leaves cannot be left by any walk.\<close>

lemma walk_closed:
  assumes "\<And>s. s \<in> A \<Longrightarrow> set (moves s) \<subseteq> A"
  shows "walk assert s ts = Inr t \<Longrightarrow> s \<in> A \<Longrightarrow> t \<in> A"
proof (induction ts arbitrary: s)
  case Nil
  then show ?case by simp
next
  case (Cons u us)
  then have "assert s u = Inr ()" and w: "walk assert u us = Inr t"
    by (auto simp: bindr_def split: sum.splits)
  then have "u \<in> A" using assms Cons.prems(2) assert_table by blast
  with w show ?case by (rule Cons.IH)
qed

lemma terminal_stays:
  assumes "moves s = []"
  shows "walk assert s ts = Inr t \<Longrightarrow> ts = [] \<and> t = s"
proof (cases ts)
  case Nil
  then show "walk assert s ts = Inr t \<Longrightarrow> ts = [] \<and> t = s" by simp
next
  case (Cons u us)
  obtain e where "assert s u = Inl e" using illegal_refused [of u s] assms by auto
  then show "walk assert s ts = Inr t \<Longrightarrow> ts = [] \<and> t = s" by (simp add: Cons)
qed

end

interpretation item_law: lifecycle ITEM_TRANSITIONS assertItemTransition
  by unfold_locales (simp add: assertItemTransition_def check_def)

interpretation batch_law: lifecycle BATCH_TRANSITIONS assertBatchTransition
  by unfold_locales (simp add: assertBatchTransition_def check_def)

interpretation receivable_law: lifecycle RECEIVABLE_TRANSITIONS assertReceivableTransition
  by unfold_locales (simp add: assertReceivableTransition_def check_def)

lemmas transition_iff =
  item_law.assert_table batch_law.assert_table receivable_law.assert_table

section \<open>Properties\<close>

text \<open>
  Money is paid once. Under the item law no sequence of asserted moves leads from a
  settled item to anything but settled or reversed: a paid item can never become eligible
  for a second batch.
\<close>

theorem settled_item_never_recirculates:
  "walk assertItemTransition I_settled ts = Inr s \<Longrightarrow> s = I_settled \<or> s = I_reversed"
  by (drule item_law.walk_closed [of "{I_settled, I_reversed}", rotated]) auto

lemma settled_item_never_recirculates_witness:
  "walk assertItemTransition I_settled [I_reversed] = Inr I_reversed
   \<and> (I_reversed = I_settled \<or> I_reversed = I_reversed)"
proof -
  have w: "walk assertItemTransition I_settled [I_reversed] = Inr I_reversed"
    by (simp add: assertItemTransition_def)
  show ?thesis using w settled_item_never_recirculates [OF w] by simp
qed

text \<open>
  The terminal states are terminal. A settled or superseded batch, and a recovered or
  written-off receivable, admit no asserted move at all, under any sequence of attempts.
\<close>

theorem terminal_states_terminal:
  "(walk assertBatchTransition B_settled ts = Inr b \<longrightarrow> ts = [] \<and> b = B_settled)
   \<and> (walk assertBatchTransition B_superseded ts = Inr b \<longrightarrow> ts = [] \<and> b = B_superseded)
   \<and> (walk assertReceivableTransition R_recovered us = Inr r \<longrightarrow> us = [] \<and> r = R_recovered)
   \<and> (walk assertReceivableTransition R_written_off us = Inr r \<longrightarrow> us = [] \<and> r = R_written_off)"
  using batch_law.terminal_stays [of B_settled ts b] batch_law.terminal_stays [of B_superseded ts b]
    receivable_law.terminal_stays [of R_recovered us r]
    receivable_law.terminal_stays [of R_written_off us r]
  by auto

lemma terminal_states_terminal_witness:
  "walk assertBatchTransition B_settled [] = Inr B_settled
   \<and> walk assertBatchTransition B_settled [B_failed] \<noteq> Inr B_failed"
  using terminal_states_terminal [of "[B_failed]" B_failed "[]" R_recovered] by auto

end
