(* ===== verification/Database.thy ===== *)
theory Database
  imports Ledger Audit_Trail References Statement States
begin

text \<open>
  The database of the settlement subsystem: one list per table of \<open>src/prisma/schema.prisma\<close>,
  rows as records with the columns the services read or write, the Prisma calls as programs
  (\<open>create\<close> with its unique constraints, \<open>updateMany\<close> with its count, \<open>update\<close> by id), and
  what an invocation of a handler draws from its surroundings: the readings of the clock, new
  ids, random draws, environment variables and the digest function. Decimal columns are
  integers of hundredths; JSON columns hold the typed value the services write to them.
\<close>

section \<open>Rows\<close>

record SettlementItem =
  si_id :: string
  si_occurrenceType :: string
  si_occurrenceId :: string
  si_storeId :: string
  si_currency :: string
  si_amount :: dec2
  si_state :: ItemState
  si_batchId :: "string option"
  si_holdType :: "string option"
  si_holdEvidence :: "string option"
  si_createdAt :: instant

record SettlementBatch =
  sb_id :: string
  sb_settlementReference :: string
  sb_storeId :: string
  sb_currency :: string
  sb_status :: BatchState
  sb_windowType :: string
  sb_grossAmount :: dec2
  sb_netAmount :: dec2
  sb_composition :: "FrozenCompositionEntry list"
  sb_calculationSnapshot :: SettlementCalculation
  sb_supersededById :: "string option"
  sb_failureEvidence :: "string option"
  sb_closureType :: "string option"
  sb_closedAt :: "instant option"
  sb_assembledBy :: "string option"
  sb_recoveryAllocation :: "RecoveryAllocation list option"
  sb_createdAt :: instant

record SettlementReceivable =
  sr_id :: string
  sr_storeId :: string
  sr_currency :: string
  sr_amount :: dec2
  sr_occurrenceType :: string
  sr_occurrenceId :: string
  sr_state :: ReceivableState
  sr_amountRecovered :: dec2
  sr_stagedBySettlementId :: "string option"
  sr_accruedAt :: instant
  sr_recoveredAt :: "instant option"
  sr_recoveredBySettlementId :: "string option"

record SettlementRemittance =
  rm_id :: string
  rm_settlementId :: string
  rm_settlementReference :: string
  rm_storeId :: string
  rm_currency :: string
  rm_amount :: dec2
  rm_bankTransferReference :: string
  rm_executedAt :: instant
  rm_executedBy :: string
  rm_createdAt :: instant

record SettlementApproval =
  sa_id :: string
  sa_settlementId :: string
  sa_settlementReference :: string
  sa_calculationHash :: string
  sa_requiredLevel :: nat
  sa_approvedBy :: string
  sa_approvedAt :: instant
  sa_note :: "string option"

record SettlementExecutionPreview =
  sp_id :: string
  sp_settlementId :: string
  sp_settlementReference :: string
  sp_calculationHash :: string
  sp_replayVerified :: bool
  sp_previewedBy :: string
  sp_previewedAt :: instant

record SettlementStatementRecord =
  st_settlementId :: string
  st_settlementReference :: string
  st_storeId :: string
  st_statementVersion :: string
  st_payload :: SettlementStatement
  st_canonicalJson :: string
  st_statementHash :: string
  st_issuedAt :: instant

record SettlementStatementSignature =
  sg_id :: string
  sg_settlementId :: string
  sg_statementHash :: string
  sg_algorithm :: string
  sg_keyId :: string
  sg_signature :: string
  sg_signedBy :: string
  sg_signedAt :: instant

record SettlementReplayRecord =
  rp_id :: string
  rp_settlementId :: string
  rp_settlementReference :: string
  rp_replayEngineVersion :: string
  rp_calculationReplayVerified :: bool
  rp_statementIntegrityVerified :: bool
  rp_statementIdentical :: bool
  rp_ranBy :: string
  rp_ranAt :: instant

record PaymentReceipt =
  pr_id :: string
  pr_invoiceType :: string
  pr_invoiceId :: string
  pr_orgId :: "string option"
  pr_campaignId :: "string option"
  pr_storeId :: "string option"
  pr_amount :: dec2
  pr_currency :: string
  pr_rail :: string
  pr_bankReference :: string
  pr_receivedAt :: instant
  pr_recordedBy :: string

record CorporateInvoice =
  ci_id :: string
  ci_invoiceNumber :: string
  ci_orgId :: string
  ci_campaignId :: string
  ci_status :: string
  ci_balanceStatus :: string
  ci_currency :: string
  ci_platformFeeAmount :: dec2
  ci_vatAmount :: "dec2 option"
  ci_totalAmount :: dec2
  ci_recipientCount :: int
  ci_taxSnapshot :: "json option"
  ci_buyerSnapshot :: "json option"
  ci_sellerSnapshot :: "json option"
  ci_issuedAt :: "instant option"
  ci_dueDate :: "instant option"
  ci_paidAt :: "instant option"

record MerchantInvoice =
  mi_id :: string
  mi_storeId :: string
  mi_orgId :: string
  mi_campaignId :: string
  mi_status :: string
  mi_merchantInvoiceNumber :: "string option"
  mi_externalId :: "string option"
  mi_url :: "string option"
  mi_invoiceNumberSource :: string
  mi_onBehalfAuthorizationRef :: "string option"
  mi_storeName :: "string option"
  mi_currency :: string
  mi_goodsSubtotal :: dec2
  mi_vatAmount :: dec2
  mi_totalAmount :: dec2
  mi_recipientCount :: int
  mi_issuedAt :: "instant option"
  mi_dueDate :: "instant option"
  mi_paidAt :: "instant option"

record SettlementRefund =
  rf_id :: string
  rf_invoiceType :: string
  rf_invoiceId :: string
  rf_storeId :: "string option"
  rf_orgId :: string
  rf_campaignId :: string
  rf_currency :: string
  rf_amount :: dec2
  rf_vatComponent :: dec2
  rf_reason :: string
  rf_evidenceRef :: string
  rf_refundedAt :: instant
  rf_recordedBy :: string
  rf_settlementInteraction :: string

record RefundRequest =
  rx_id :: string
  rx_invoiceType :: string
  rx_invoiceId :: string
  rx_orgId :: string
  rx_storeId :: "string option"
  rx_currency :: string
  rx_amount :: dec2
  rx_vatComponent :: dec2
  rx_reason :: string
  rx_reasonCode :: "string option"
  rx_recipientType :: string
  rx_method :: string
  rx_snapshotHash :: string
  rx_state :: string
  rx_requestedBy :: string
  rx_requestedAt :: instant
  rx_approvedBy :: "string option"
  rx_approvedAt :: "instant option"
  rx_executedBy :: "string option"
  rx_executedAt :: "instant option"
  rx_cancelledBy :: "string option"
  rx_cancelledAt :: "instant option"
  rx_refundId :: "string option"
  rx_createdAt :: instant

record NumberSequence =
  ns_seriesKey :: string
  ns_lastValue :: int

record CreditNote =
  cn_id :: string
  cn_facts :: CreditNoteFacts
  cn_currentVersion :: nat
  cn_canonicalJson :: string
  cn_documentHash :: string

record CreditNoteVersion =
  cv_creditNoteId :: string
  cv_versionNumber :: nat
  cv_changeReason :: string
  cv_canonicalJson :: string
  cv_documentHash :: string
  cv_statementSettlementId :: "string option"
  cv_createdBy :: string

record GiftCampaign =
  gc_id :: string
  gc_referenceNumber :: "string option"

record ClaimableGift =
  cg_campaignId :: "string option"
  cg_status :: string
  cg_expiresAt :: instant

record Store =
  so_id :: string
  so_payoutIdentityVerifiedAt :: "instant option"
  so_payoutIdentityEvidence :: "string option"

text \<open>The treasury tables; their amounts are \<open>DECIMAL(14,2)\<close>.\<close>

record TreasuryAttestation =
  at_id :: string
  at_accountType :: string
  at_currency :: string
  at_balance :: dec2
  at_asOfDate :: instant
  at_source :: string
  at_evidenceRef :: string
  at_notes :: "string option"
  at_recordedBy :: string
  at_createdAt :: instant

record TreasuryReconciliation =
  tr_id :: string
  tr_accountType :: string
  tr_currency :: string
  tr_asOfDate :: instant
  tr_attestationId :: "string option"
  tr_status :: string
  tr_bankBalance :: "dec2 option"
  tr_ledgerCashBalance :: dec2
  tr_obligationsBalance :: dec2
  tr_bankVsCashDelta :: "dec2 option"
  tr_cashVsObligationsDelta :: dec2
  tr_differenceCount :: nat
  tr_canonicalJson :: string
  tr_snapshotHash :: string
  tr_computedBy :: string
  tr_createdAt :: instant
  tr_investigatedBy :: "string option"
  tr_investigatedAt :: "instant option"
  tr_investigationNotes :: "string option"
  tr_resolvedBy :: "string option"
  tr_resolvedAt :: "instant option"
  tr_resolutionNotes :: "string option"
  tr_resolutionEvidenceRef :: "string option"
  tr_resolutionKind :: "string option"
  tr_resolutionMatchedRunId :: "string option"

record TreasuryInternalTransfer =
  tt_id :: string
  tt_settlementId :: string
  tt_settlementReference :: string
  tt_currency :: string
  tt_confirmedAmount :: dec2
  tt_bankReference :: string
  tt_valueDate :: instant
  tt_accountFromMasked :: string
  tt_accountToMasked :: string
  tt_status :: string
  tt_recordedBy :: string
  tt_notes :: "string option"
  tt_createdAt :: instant

section \<open>The database\<close>

record db =
  db_items :: "SettlementItem list"
  db_batches :: "SettlementBatch list"
  db_receivables :: "SettlementReceivable list"
  db_remittances :: "SettlementRemittance list"
  db_approvals :: "SettlementApproval list"
  db_previews :: "SettlementExecutionPreview list"
  db_statements :: "SettlementStatementRecord list"
  db_signatures :: "SettlementStatementSignature list"
  db_replays :: "SettlementReplayRecord list"
  db_receipts :: "PaymentReceipt list"
  db_corporate :: "CorporateInvoice list"
  db_merchant :: "MerchantInvoice list"
  db_refunds :: "SettlementRefund list"
  db_refundRequests :: "RefundRequest list"
  db_sequences :: "NumberSequence list"
  db_creditNotes :: "CreditNote list"
  db_creditNoteVersions :: "CreditNoteVersion list"
  db_campaigns :: "GiftCampaign list"
  db_claims :: "ClaimableGift list"
  db_stores :: "Store list"
  db_attestations :: "TreasuryAttestation list"
  db_reconciliations :: "TreasuryReconciliation list"
  db_transfers :: "TreasuryInternalTransfer list"
  db_ledger :: "LedgerEntry list"
  db_audit :: "AuditLog list"

section \<open>Surroundings of a handler\<close>

text \<open>
  \<open>clk e n\<close> is the reading of the injected clock at the n-th call site of the handler,
  \<open>en_dbNow\<close> the database's own \<open>now()\<close> for \<open>createdAt\<close> defaults, \<open>en_uuid e n\<close> the n-th id
  the database generates, \<open>en_draw e n k\<close> the random draws of the k-th reference candidate of
  attempt n. The ledger's generated columns are not part of its rows: \<open>en_ledgerStamp e n\<close> is the
  id and the creation instant of its n-th row.
\<close>

record env =
  clk :: "nat \<Rightarrow> instant"
  en_dbNow :: instant
  en_uuid :: "nat \<Rightarrow> string"
  en_draw :: "nat \<Rightarrow> nat \<Rightarrow> nat \<Rightarrow> nat"
  en_gates :: "string option"
  en_seniors :: "string option"
  en_sha :: "string \<Rightarrow> string"
  en_ledgerStamp :: "nat \<Rightarrow> string \<times> instant"

section \<open>Prisma calls\<close>

definition on_table ::
  "('s \<Rightarrow> 't) \<Rightarrow> (('t \<Rightarrow> 't) \<Rightarrow> 's \<Rightarrow> 's) \<Rightarrow> ('t, 'a) prog \<Rightarrow> ('s, 'a) prog"
where
  "on_table get upd m s = (case m (get s) of (x, t) \<Rightarrow> (x, upd (\<lambda>_. t) s))"

definition create ::
  "('s \<Rightarrow> 'r list) \<Rightarrow> (('r list \<Rightarrow> 'r list) \<Rightarrow> 's \<Rightarrow> 's) \<Rightarrow> ('r \<Rightarrow> 'r \<Rightarrow> bool) \<Rightarrow> 'r \<Rightarrow> ('s, 'r) prog"
where
  "create get upd clash r s =
     (if \<exists>r' \<in> set (get s). clash r r' then (Inl (P2002 ''unique''), s)
      else (Inr r, upd (\<lambda>t. t @ [r]) s))"

definition updateMany ::
  "('s \<Rightarrow> 'r list) \<Rightarrow> (('r list \<Rightarrow> 'r list) \<Rightarrow> 's \<Rightarrow> 's) \<Rightarrow> ('r \<Rightarrow> bool) \<Rightarrow> ('r \<Rightarrow> 'r) \<Rightarrow> ('s, nat) prog"
where
  "updateMany get upd p f s = (Inr (count_where p (get s)), upd (update_where p f) s)"

text \<open>\<open>update where id\<close>: raises when no row has the id.\<close>

definition update_row ::
  "('s \<Rightarrow> 'r list) \<Rightarrow> (('r list \<Rightarrow> 'r list) \<Rightarrow> 's \<Rightarrow> 's) \<Rightarrow> ('r \<Rightarrow> bool) \<Rightarrow> ('r \<Rightarrow> 'r) \<Rightarrow> ('s, 'r) prog"
where
  "update_row get upd p f s =
     (case find p (get s) of
        None \<Rightarrow> (Inl (JsError ''P2025''), s)
      | Some r \<Rightarrow> (Inr (f r), upd (update_where p f) s))"

definition ledger_record :: "RecordLedgerInput \<Rightarrow> (db, LedgerEntry) prog" where
  "ledger_record i = on_table db_ledger db_ledger_update (record_entry i)"

definition audit_guaranteed :: "AuditRecordInput \<Rightarrow> string \<Rightarrow> (db, unit) prog" where
  "audit_guaranteed i k = on_table db_audit db_audit_update (recordGuaranteed i k)"

definition audit_record :: "AuditRecordInput \<Rightarrow> (db, unit) prog" where
  "audit_record i = on_table db_audit db_audit_update (record_best_effort i)"

definition ledger_base :: "FinancialEventType \<Rightarrow> string \<Rightarrow> string \<Rightarrow> js_number \<Rightarrow> string \<Rightarrow> string \<Rightarrow> RecordLedgerInput" where
  "ledger_base event reason actor amount currency direction =
     \<lparr> li_eventType = event_name event, li_reasonCode = reason, li_actorType = ''user'',
       li_actorId = Some actor, li_amount = amount, li_currency = currency,
       li_direction = direction, li_counterpartyType = None, li_orderId = None,
       li_paymentId = None, li_campaignId = None, li_orgId = None, li_storeId = None,
       li_metadata = None, li_idempotencyKey = None \<rparr>"

definition audit_input :: "string \<Rightarrow> string \<Rightarrow> string \<Rightarrow> string option \<Rightarrow> (string \<times> json) list \<Rightarrow> AuditRecordInput" where
  "audit_input actor action targetType targetId metadata =
     \<lparr> ai_actorUserId = Some actor, ai_actorType = ''user'', ai_action = action,
       ai_targetType = targetType, ai_targetId = targetId, ai_metadata = Some (JObj metadata) \<rparr>"

section \<open>Lemmas\<close>

lemma create_iff [prog_iff]:
  "create get upd clash r s = (Inr x, s') \<longleftrightarrow>
     (\<forall>r' \<in> set (get s). \<not> clash r r') \<and> x = r \<and> s' = upd (\<lambda>t. t @ [r]) s"
  by (auto simp: create_def)

lemma updateMany_iff [prog_iff]:
  "updateMany get upd p f s = (Inr n, s') \<longleftrightarrow> n = count_where p (get s) \<and> s' = upd (update_where p f) s"
  by (auto simp: updateMany_def)

lemma updateMany_run [simp]:
  "updateMany get upd p f s = (Inr (count_where p (get s)), upd (update_where p f) s)"
  by (simp add: updateMany_def)

lemma update_row_iff [prog_iff]:
  "update_row get upd p f s = (Inr x, s') \<longleftrightarrow>
     (\<exists>r. find p (get s) = Some r \<and> x = f r \<and> s' = upd (update_where p f) s)"
  by (auto simp: update_row_def split: option.splits)

lemma on_table_iff [prog_iff]:
  "on_table get upd m s = (x, s') \<longleftrightarrow> (\<exists>t. m (get s) = (x, t) \<and> s' = upd (\<lambda>_. t) s)"
  by (auto simp: on_table_def split: prod.splits)

text \<open>Writes to a table keep whatever does not look at that table.\<close>

lemma keeps_create: "(\<And>f s. I s \<Longrightarrow> I (upd f s)) \<Longrightarrow> keeps I (create get upd clash r)"
  by (simp add: keeps_def create_def)

lemma keeps_updateMany: "(\<And>f s. I s \<Longrightarrow> I (upd f s)) \<Longrightarrow> keeps I (updateMany get upd p f)"
  by (simp add: keeps_def)

end
