(* ===== verification/Engine.thy ===== *)
theory Engine
  imports Database
begin

text \<open>
  The settlement engine (\<open>src/src/settlement/settlement-engine.service.ts\<close>): simulation,
  assembly, the failure lane, supersession and the two terminal closes, with the one path that
  consumes a recovery allocation. A handler that reads first and writes in a transaction
  afterwards is split at that point into what it read and its transaction, so that the
  transaction can be studied on a database that has moved on in between.
\<close>

section \<open>Reads\<close>

definition loadBatch :: "string \<Rightarrow> (db, SettlementBatch) prog" where
  "loadBatch batchId s =
     found (find (\<lambda>b. sb_id b = batchId) (db_batches s)) (NotFound ''settlement_batch_not_found'') s"

definition eligibleItems :: "string \<Rightarrow> string \<Rightarrow> db \<Rightarrow> SettlementItem list" where
  "eligibleItems storeId currency s =
     order_by (\<lambda>i. (si_createdAt i, si_id i))
       (filter (\<lambda>i. si_storeId i = storeId \<and> si_state i = I_eligible \<and> si_currency i = js_upper currency)
         (db_items s))"

definition toCalculatorInput :: "SettlementItem \<Rightarrow> SettlementItemInput" where
  "toCalculatorInput i =
     \<lparr> ii_itemId = si_id i, ii_occurrenceType = si_occurrenceType i,
       ii_occurrenceId = si_occurrenceId i, ii_amount = moneyToNumber (MoneyDecimal (si_amount i)),
       ii_currency = si_currency i, ii_references = None \<rparr>"

text \<open>The references of each merchant invoice among the items, keyed by occurrence.\<close>

definition occurrenceReferences :: "SettlementItem list \<Rightarrow> db \<Rightarrow> (string \<times> json) list" where
  "occurrenceReferences items s =
     (let invoiceIds = map si_occurrenceId (filter (\<lambda>i. si_occurrenceType i = ''merchant_invoice'') items);
          invoices = filter (\<lambda>v. mi_id v \<in> set invoiceIds) (db_merchant s);
          campaigns = filter (\<lambda>c. gc_id c \<in> mi_campaignId ` set invoices) (db_campaigns s);
          qb = (\<lambda>cid. case find (\<lambda>c. gc_id c = cid) campaigns of None \<Rightarrow> None | Some c \<Rightarrow> gc_referenceNumber c)
      in map (\<lambda>v. (''merchant_invoice:'' @ mi_id v,
                  JObj [(''merchantInvoiceNumber'', jopt (mi_merchantInvoiceNumber v)),
                        (''campaignReference'', jopt (qb (mi_campaignId v)))])) invoices)"

section \<open>Recovery planning\<close>

definition recoverable :: "SettlementReceivable \<Rightarrow> bool" where
  "recoverable r \<longleftrightarrow> sr_state r \<in> {R_open, R_partially_recovered} \<and> sr_stagedBySettlementId r = None"

fun plan_loop ::
  "CurrencyCode \<Rightarrow> SettlementReceivable list \<Rightarrow> int \<Rightarrow> RecoveryAllocation list \<times> int"
where
  "plan_loop c [] budgetMinor = ([], 0)"
| "plan_loop c (r # rs) budgetMinor =
     (if budgetMinor \<le> 0 then ([], 0)
      else let recoveredMinor = to_minor (moneyToNumber (MoneyDecimal (sr_amountRecovered r))) c;
               balanceMinor = to_minor (moneyToNumber (MoneyDecimal (sr_amount r))) c - recoveredMinor
           in if balanceMinor \<le> 0 then plan_loop c rs budgetMinor
              else let take = min balanceMinor budgetMinor;
                       rest = plan_loop c rs (budgetMinor - take)
                   in (\<lparr> ra_receivableId = sr_id r, ra_occurrenceId = sr_occurrenceId r,
                         ra_amount = fromMinor take c,
                         ra_amountRecoveredAtPlan = fromMinor recoveredMinor c,
                         ra_balanceAfter = fromMinor (balanceMinor - take) c \<rparr> # fst rest,
                       take + snd rest))"

definition planRecovery ::
  "string \<Rightarrow> string \<Rightarrow> SettlementItemInput list \<Rightarrow> db \<Rightarrow> (RecoveryAllocation list \<times> rat) res"
where
  "planRecovery storeId currency items s =
     (let rows = order_by (\<lambda>r. (sr_accruedAt r, sr_id r))
            (filter (\<lambda>r. sr_storeId r = storeId \<and> sr_currency r = currency \<and> recoverable r)
              (db_receivables s))
      in bindr (asCurrencyCode currency) (\<lambda>code.
           let plan = plan_loop code rows (items_gross code items)
           in Inr (fst plan, fromMinor (snd plan) code)))"

section \<open>Simulation\<close>

record SettlementSimulation =
  sim_snapshotAt :: string
  sim_storeId :: string
  sim_currency :: string
  sim_itemCount :: nat
  sim_calculation :: "SettlementCalculation option"
  sim_recoveryAllocation :: "RecoveryAllocation list"

definition simulate :: "env \<Rightarrow> string \<Rightarrow> string \<Rightarrow> string \<Rightarrow> (db, SettlementSimulation) prog" where
  "simulate e actorUserId storeId currency =
     seq (reads (eligibleItems storeId currency)) (\<lambda>items.
     if items = []
     then ret \<lparr> sim_snapshotAt = toISOString (clk e 0), sim_storeId = storeId,
                sim_currency = js_upper currency, sim_itemCount = 0, sim_calculation = None,
                sim_recoveryAllocation = [] \<rparr>
     else
     seq (reads (planRecovery storeId (js_upper currency) (map toCalculatorInput items))) (\<lambda>planned.
     seq (lift planned) (\<lambda>(allocation, total).
     seq (lift (calculateSettlement (map toCalculatorInput items)
                 (no_adjustments\<lparr> adj_receivableRecovery := Some total \<rparr>))) (\<lambda>calculation.
     seq (audit_record (audit_input actorUserId ''settlement.simulated'' ''store'' (Some storeId)
            [(''itemCount'', JNum (of_nat (length items))), (''currency'', JStr (calc_currency calculation))])) (\<lambda>_.
     ret \<lparr> sim_snapshotAt = toISOString (clk e 0), sim_storeId = storeId,
           sim_currency = calc_currency calculation, sim_itemCount = length items,
           sim_calculation = Some calculation, sim_recoveryAllocation = allocation \<rparr>)))))"

section \<open>Assembly\<close>

text \<open>What the assembly has decided on before its transaction.\<close>

record AssemblyPlan =
  ap_items :: "SettlementItem list"
  ap_storeId :: string
  ap_allocation :: "RecoveryAllocation list"
  ap_calculation :: SettlementCalculation
  ap_composition :: "FrozenCompositionEntry list"

definition composition_of :: "(string \<times> json) list \<Rightarrow> SettlementItem list \<Rightarrow> FrozenCompositionEntry list" where
  "composition_of refs items =
     map (\<lambda>i. \<lparr> fc_itemId = si_id i, fc_occurrenceType = si_occurrenceType i,
                fc_occurrenceId = si_occurrenceId i,
                fc_amount = moneyToNumber (MoneyDecimal (si_amount i)), fc_currency = si_currency i,
                fc_references =
                  Some (case map_of (rev refs) (si_occurrenceType i @ '':'' @ si_occurrenceId i) of
                          None \<Rightarrow> JObj [] | Some v \<Rightarrow> v) \<rparr>) items"

definition all_assertable :: "ItemState \<Rightarrow> SettlementItem list \<Rightarrow> unit res" where
  "all_assertable to items =
     foldr (\<lambda>i r. bindr (assertItemTransition (si_state i) to) (\<lambda>_. r)) items (Inr ())"

text \<open>
  The three reads happen one after the other: items from the first database, receivables from
  the second, references from the third.
\<close>

definition plan_assembly :: "string \<Rightarrow> string \<Rightarrow> db \<Rightarrow> db \<Rightarrow> db \<Rightarrow> AssemblyPlan res" where
  "plan_assembly storeId currency s1 s2 s3 =
     (let items = eligibleItems storeId currency s1; inputs = map toCalculatorInput items in
      bindr (check (items \<noteq> []) (BadRequest ''settlement_nothing_eligible'')) (\<lambda>_.
      bindr (planRecovery storeId (js_upper currency) inputs s2) (\<lambda>(allocation, total).
      bindr (calculateSettlement inputs (no_adjustments\<lparr> adj_receivableRecovery := Some total \<rparr>)) (\<lambda>calculation.
      bindr (asCurrencyCode (calc_currency calculation)) (\<lambda>code.
      bindr (check (\<not> to_minor (calc_netAmount calculation) code < 0)
              (BadRequest ''settlement_negative_net_deferred'')) (\<lambda>_.
      bindr (all_assertable I_ready items) (\<lambda>_.
      Inr \<lparr> ap_items = items, ap_storeId = storeId, ap_allocation = allocation,
            ap_calculation = calculation,
            ap_composition = composition_of (occurrenceReferences items s3) items \<rparr>)))))))"

definition batch_clash :: "SettlementBatch \<Rightarrow> SettlementBatch \<Rightarrow> bool" where
  "batch_clash b b' \<longleftrightarrow> sb_id b' = sb_id b \<or> sb_settlementReference b' = sb_settlementReference b"

definition create_batch ::
  "env \<Rightarrow> string \<Rightarrow> string \<Rightarrow> AssemblyPlan \<Rightarrow> string \<Rightarrow> (db, SettlementBatch) prog"
where
  "create_batch e actorUserId reference p newId =
     (let c = ap_calculation p in
      seq (lift (to_dec (ln_merchantGross (calc_lines c)))) (\<lambda>gross.
      seq (lift (to_dec (calc_netAmount c))) (\<lambda>net.
      create db_batches db_batches_update batch_clash
        \<lparr> sb_id = newId, sb_settlementReference = reference, sb_storeId = ap_storeId p,
          sb_currency = calc_currency c, sb_status = B_ready, sb_windowType = ''manual'',
          sb_grossAmount = gross, sb_netAmount = net, sb_composition = ap_composition p,
          sb_calculationSnapshot = c, sb_supersededById = None, sb_failureEvidence = None,
          sb_closureType = None, sb_closedAt = None, sb_assembledBy = Some actorUserId,
          sb_recoveryAllocation = Some (ap_allocation p), sb_createdAt = en_dbNow e \<rparr>)))"

text \<open>The guarded bind of every item, counting the rows it hit.\<close>

fun bind_items :: "string \<Rightarrow> SettlementItem list \<Rightarrow> (db, nat) prog" where
  "bind_items bid [] = ret 0"
| "bind_items bid (i # is) =
     seq (updateMany db_items db_items_update
           (\<lambda>r. si_id r = si_id i \<and> si_state r = I_eligible \<and> si_batchId r = None
                \<and> si_amount r = si_amount i)
           (\<lambda>r. r\<lparr> si_state := I_ready, si_batchId := Some bid \<rparr>)) (\<lambda>n.
     seq (bind_items bid is) (\<lambda>m. ret (n + m)))"

definition stage_receivable :: "string \<Rightarrow> RecoveryAllocation \<Rightarrow> (db, unit) prog" where
  "stage_receivable bid alloc =
     seq (updateMany db_receivables db_receivables_update
           (\<lambda>r. sr_id r = ra_receivableId alloc \<and> recoverable r
                \<and> dec_matches (sr_amountRecovered r) (ra_amountRecoveredAtPlan alloc))
           (\<lambda>r. r\<lparr> sr_stagedBySettlementId := Some bid \<rparr>)) (\<lambda>n.
     require (n = 1) (Conflict ''settlement_receivables_contended''))"

definition assembly_transaction ::
  "env \<Rightarrow> string \<Rightarrow> AssemblyPlan \<Rightarrow> string \<Rightarrow> string \<Rightarrow> (db, SettlementBatch) prog"
where
  "assembly_transaction e actorUserId p reference newId =
     transaction (
       seq (create_batch e actorUserId reference p newId) (\<lambda>created.
       seq (bind_items (sb_id created) (ap_items p)) (\<lambda>bound.
       seq (require (bound = length (ap_items p)) (Conflict ''settlement_items_contended'')) (\<lambda>_.
       seq (each (stage_receivable (sb_id created)) (ap_allocation p)) (\<lambda>_.
       seq (ledger_record ((ledger_base SETTLEMENT_STARTED ''SETTLEMENT_STARTED'' actorUserId (Fin 0)
              (calc_currency (ap_calculation p)) ''debit'')
              \<lparr> li_storeId := Some (ap_storeId p),
                li_idempotencyKey := Some (ledgerIdempotencyKey SETTLEMENT_STARTED (sb_id created)),
                li_metadata := Some (JObj
                  [(''settlementReference'', JStr reference),
                   (''itemCount'', JNum (of_nat (length (ap_items p)))),
                   (''netAmount'', JNum (calc_netAmount (ap_calculation p)))]) \<rparr>)) (\<lambda>_.
       seq (audit_guaranteed (audit_input actorUserId ''settlement.batch.assembled'' ''store'' (Some (ap_storeId p))
              [(''settlementId'', JStr (sb_id created)), (''settlementReference'', JStr reference),
               (''itemCount'', JNum (of_nat (length (ap_items p)))),
               (''grossAmount'', JNum (ln_merchantGross (calc_lines (ap_calculation p)))),
               (''netAmount'', JNum (calc_netAmount (ap_calculation p))),
               (''currency'', JStr (calc_currency (ap_calculation p)))])
              (''settlement.batch.assembled:'' @ sb_id created)) (\<lambda>_.
       ret created)))))))"

definition MAX_ASSEMBLE_ATTEMPTS :: nat where "MAX_ASSEMBLE_ATTEMPTS = 3"

definition reference_taken :: "db \<Rightarrow> string \<Rightarrow> bool" where
  "reference_taken s c \<longleftrightarrow> (\<exists>b \<in> set (db_batches s). sb_settlementReference b = c)"

text \<open>A fresh candidate only after a unique violation, a bounded number of times.\<close>

fun assembly_attempts :: "nat \<Rightarrow> env \<Rightarrow> string \<Rightarrow> AssemblyPlan \<Rightarrow> nat \<Rightarrow> (db, SettlementBatch) prog" where
  "assembly_attempts 0 e actorUserId p n = raise (JsError ''unreachable'')"
| "assembly_attempts (Suc fuel) e actorUserId p n =
     seq (reads (\<lambda>s. allocateReference QS (reference_taken s) (en_draw e n))) (\<lambda>allocated.
     seq (lift allocated) (\<lambda>reference.
     attempt (assembly_transaction e actorUserId p reference (en_uuid e n))
       (\<lambda>ex. case ex of
               P2002 c \<Rightarrow> (if n < MAX_ASSEMBLE_ATTEMPTS - 1
                          then assembly_attempts fuel e actorUserId p (Suc n) else raise ex)
             | _ \<Rightarrow> raise ex)))"

definition assembleBatch :: "env \<Rightarrow> string \<Rightarrow> string \<Rightarrow> string \<Rightarrow> (db, SettlementBatch) prog" where
  "assembleBatch e actorUserId storeId currency =
     seq (reads (\<lambda>s. plan_assembly storeId currency s s s)) (\<lambda>planned.
     seq (lift planned) (\<lambda>p.
     assembly_attempts MAX_ASSEMBLE_ATTEMPTS e actorUserId p 0))"

section \<open>The failure lane\<close>

text \<open>
  Each of the three reads the batch, asserts the transition on what it read, and then updates
  the row by id alone.
\<close>

definition set_status ::
  "string \<Rightarrow> BatchState \<Rightarrow> (SettlementBatch \<Rightarrow> SettlementBatch) \<Rightarrow> (db, SettlementBatch) prog"
where
  "set_status batchId st f =
     update_row db_batches db_batches_update (\<lambda>b. sb_id b = batchId) (\<lambda>b. f (b\<lparr> sb_status := st \<rparr>))"

definition batch_audit :: "string \<Rightarrow> string \<Rightarrow> SettlementBatch \<Rightarrow> (string \<times> json) list \<Rightarrow> AuditRecordInput" where
  "batch_audit actor action b extra =
     audit_input actor action ''store'' (Some (sb_storeId b))
       ([(''settlementId'', JStr (sb_id b)),
         (''settlementReference'', JStr (sb_settlementReference b))] @ extra)"

definition markFailed_write :: "string \<Rightarrow> SettlementBatch \<Rightarrow> string \<Rightarrow> (db, SettlementBatch) prog" where
  "markFailed_write actorUserId batch evidence =
     seq (set_status (sb_id batch) B_failed (\<lambda>b. b\<lparr> sb_failureEvidence := Some (js_trim evidence) \<rparr>)) (\<lambda>updated.
     seq (audit_record (batch_audit actorUserId ''settlement.batch.failed'' batch
            [(''evidence'', JStr (js_trim evidence))])) (\<lambda>_.
     ret updated))"

definition markFailed :: "string \<Rightarrow> string \<Rightarrow> string \<Rightarrow> (db, SettlementBatch) prog" where
  "markFailed actorUserId batchId evidence =
     seq (loadBatch batchId) (\<lambda>batch.
     seq (lift (assertBatchTransition (sb_status batch) B_failed)) (\<lambda>_.
     seq (require (non_blank evidence) (BadRequest ''failure_evidence_required'')) (\<lambda>_.
     markFailed_write actorUserId batch evidence)))"

definition retry_write :: "string \<Rightarrow> SettlementBatch \<Rightarrow> (db, SettlementBatch) prog" where
  "retry_write actorUserId batch =
     seq (set_status (sb_id batch) B_ready (\<lambda>b. b)) (\<lambda>updated.
     seq (audit_record (batch_audit actorUserId ''settlement.batch.retried'' batch [])) (\<lambda>_.
     ret updated))"

definition retry :: "string \<Rightarrow> string \<Rightarrow> (db, SettlementBatch) prog" where
  "retry actorUserId batchId =
     seq (loadBatch batchId) (\<lambda>batch.
     seq (lift (assertBatchTransition (sb_status batch) B_ready)) (\<lambda>_.
     retry_write actorUserId batch))"

definition holdBatch_write :: "string \<Rightarrow> SettlementBatch \<Rightarrow> string \<Rightarrow> (db, SettlementBatch) prog" where
  "holdBatch_write actorUserId batch evidence =
     seq (set_status (sb_id batch) B_held (\<lambda>b. b)) (\<lambda>updated.
     seq (audit_record (batch_audit actorUserId ''settlement.batch.held'' batch
            [(''evidence'', JStr (js_trim evidence))])) (\<lambda>_.
     ret updated))"

definition holdBatch :: "string \<Rightarrow> string \<Rightarrow> string \<Rightarrow> (db, SettlementBatch) prog" where
  "holdBatch actorUserId batchId evidence =
     seq (loadBatch batchId) (\<lambda>batch.
     seq (lift (assertBatchTransition (sb_status batch) B_held)) (\<lambda>_.
     seq (require (non_blank evidence) (BadRequest ''hold_evidence_required'')) (\<lambda>_.
     holdBatch_write actorUserId batch evidence)))"

section \<open>Supersession\<close>

record SupersedeHold =
  hd_holdType :: string
  hd_holdEvidence :: string

definition SUPERSEDE_ITEM_DISPOSITION :: "string \<Rightarrow> ItemState option" where
  "SUPERSEDE_ITEM_DISPOSITION cause =
     (if cause = ''composition_drift'' then Some I_eligible
      else if cause = ''hold_landed'' then Some I_held
      else if cause = ''dispute_landed'' then Some I_disputed
      else if cause = ''withdrawn'' then Some I_eligible
      else None)"

definition HOLD_TYPES :: "string list" where
  "HOLD_TYPES = [''risk_review'', ''verification_pending'', ''dispute_adjacent'', ''regulatory'', ''manual'']"

definition hold_ok :: "SupersedeHold option \<Rightarrow> bool" where
  "hold_ok hold = (case hold of None \<Rightarrow> False
     | Some h \<Rightarrow> hd_holdType h \<in> set HOLD_TYPES \<and> non_blank (hd_holdEvidence h))"

definition items_of_batch :: "string \<Rightarrow> db \<Rightarrow> SettlementItem list" where
  "items_of_batch batchId s =
     order_by (\<lambda>i. (si_createdAt i, si_id i)) (filter (\<lambda>i. si_batchId i = Some batchId) (db_items s))"

definition item_disposition :: "ItemState \<Rightarrow> string list \<Rightarrow> SettlementItem \<Rightarrow> ItemState" where
  "item_disposition disposition affected i = (if si_id i \<in> set affected then disposition else I_eligible)"

definition release_item ::
  "string \<Rightarrow> ItemState \<Rightarrow> string list \<Rightarrow> SupersedeHold option \<Rightarrow> SettlementItem \<Rightarrow> (db, unit) prog"
where
  "release_item batchId disposition affected hold i =
     (let to = item_disposition disposition affected i in
      seq (lift (assertItemTransition (si_state i) to)) (\<lambda>_.
      seq (updateMany db_items db_items_update
            (\<lambda>r. si_id r = si_id i \<and> si_batchId r = Some batchId \<and> si_state r = si_state i)
            (\<lambda>r. let r' = r\<lparr> si_state := to, si_batchId := None \<rparr> in
              if si_id i \<in> set affected \<and> disposition = I_held
              then (case hold of None \<Rightarrow> r'
                    | Some h \<Rightarrow> r'\<lparr> si_holdType := Some (hd_holdType h),
                                   si_holdEvidence := Some (js_trim (hd_holdEvidence h)) \<rparr>)
              else r')) (\<lambda>n.
      require (n = 1) (Conflict ''settlement_items_contended''))))"

definition supersede_transaction ::
  "string \<Rightarrow> SettlementBatch \<Rightarrow> string \<Rightarrow> ItemState \<Rightarrow> string list \<Rightarrow> SupersedeHold option
    \<Rightarrow> SettlementItem list \<Rightarrow> (db, unit) prog"
where
  "supersede_transaction actorUserId batch cause disposition affected hold items =
     transaction (
       seq (set_status (sb_id batch) B_superseded (\<lambda>b. b)) (\<lambda>_.
       seq (each (release_item (sb_id batch) disposition affected hold) items) (\<lambda>_.
       seq (updateMany db_receivables db_receivables_update
             (\<lambda>r. sr_stagedBySettlementId r = Some (sb_id batch))
             (\<lambda>r. r\<lparr> sr_stagedBySettlementId := None \<rparr>)) (\<lambda>_.
       seq (ledger_record ((ledger_base SETTLEMENT_SUPERSEDED ''SETTLEMENT_SUPERSEDED'' actorUserId (Fin 0)
              (sb_currency batch) ''debit'')
              \<lparr> li_storeId := Some (sb_storeId batch),
                li_idempotencyKey := Some (ledgerIdempotencyKey SETTLEMENT_SUPERSEDED (sb_id batch)),
                li_metadata := Some (JObj
                  [(''settlementReference'', JStr (sb_settlementReference batch)),
                   (''cause'', JStr cause)]) \<rparr>)) (\<lambda>_.
       audit_guaranteed (batch_audit actorUserId ''settlement.batch.superseded'' batch
              ([(''cause'', JStr cause), (''affectedItemIds'', JArr (map JStr affected))]
               @ (case hold of None \<Rightarrow> [] | Some h \<Rightarrow> [(''holdType'', JStr (hd_holdType h))])))
              (''settlement.batch.superseded:'' @ sb_id batch))))))"

definition supersede ::
  "string \<Rightarrow> string \<Rightarrow> string \<Rightarrow> string list \<Rightarrow> SupersedeHold option \<Rightarrow> (db, SettlementBatch) prog"
where
  "supersede actorUserId batchId cause affectedItemIds hold =
     seq (found (SUPERSEDE_ITEM_DISPOSITION cause) (BadRequest ''supersede_cause_unknown'')) (\<lambda>disposition.
     seq (require (disposition = I_held \<longrightarrow> hold_ok hold) (BadRequest ''hold_type_and_evidence_required'')) (\<lambda>_.
     seq (loadBatch batchId) (\<lambda>batch.
     seq (lift (assertBatchTransition (sb_status batch) B_superseded)) (\<lambda>_.
     seq (reads (\<lambda>s. find (\<lambda>r. rm_settlementId r = batchId) (db_remittances s))) (\<lambda>remitted.
     seq (require (remitted = None) (Conflict ''supersede_refused_remittance_exists'')) (\<lambda>_.
     seq (reads (items_of_batch batchId)) (\<lambda>items.
     seq (require (set affectedItemIds \<subseteq> si_id ` set items) (BadRequest ''supersede_item_not_in_batch'')) (\<lambda>_.
     seq (supersede_transaction actorUserId batch cause disposition affectedItemIds hold items) (\<lambda>_.
     loadBatch batchId)))))))))"

section \<open>Consuming the recovery allocation\<close>

definition next_receivable_state :: "RecoveryAllocation \<Rightarrow> ReceivableState" where
  "next_receivable_state alloc = (if ra_balanceAfter alloc \<le> 0 then R_recovered else R_partially_recovered)"

definition consume_one ::
  "string \<Rightarrow> SettlementBatch \<Rightarrow> instant \<Rightarrow> (string \<times> json) list \<Rightarrow> RecoveryAllocation \<Rightarrow> (db, unit) prog"
where
  "consume_one actorUserId batch when postingMetadata alloc =
     (let nextState = next_receivable_state alloc in
      seq (reads (\<lambda>s. find (\<lambda>r. sr_id r = ra_receivableId alloc) (db_receivables s))) (\<lambda>read.
      seq (found read (Conflict ''settlement_receivables_contended'')) (\<lambda>row.
      seq (lift (if sr_state row \<noteq> nextState then assertReceivableTransition (sr_state row) nextState
                 else Inr ())) (\<lambda>_.
      seq (lift (to_dec (fl64 (ra_amountRecoveredAtPlan alloc + ra_amount alloc)))) (\<lambda>recovered.
      seq (updateMany db_receivables db_receivables_update
            (\<lambda>r. sr_id r = ra_receivableId alloc \<and> sr_stagedBySettlementId r = Some (sb_id batch)
                 \<and> sr_state r = sr_state row
                 \<and> dec_matches (sr_amountRecovered r) (ra_amountRecoveredAtPlan alloc))
            (\<lambda>r. let r' = r\<lparr> sr_state := nextState, sr_amountRecovered := recovered,
                             sr_stagedBySettlementId := None \<rparr>
                 in if nextState = R_recovered
                    then r'\<lparr> sr_recoveredAt := Some when, sr_recoveredBySettlementId := Some (sb_id batch) \<rparr>
                    else r')) (\<lambda>n.
      seq (require (n = 1) (Conflict ''settlement_receivables_contended'')) (\<lambda>_.
      seq (ledger_record ((ledger_base MERCHANT_RECEIVABLE_RECOVERED ''MERCHANT_RECEIVABLE'' actorUserId
             (Fin (ra_amount alloc)) (sb_currency batch) ''debit'')
             \<lparr> li_counterpartyType := Some ''merchant'', li_storeId := Some (sb_storeId batch),
               li_idempotencyKey := Some (ledgerIdempotencyKey MERCHANT_RECEIVABLE_RECOVERED
                 (ra_receivableId alloc @ '':'' @ sb_id batch)),
               li_metadata := Some (JObj
                 ([(''settlementReference'', JStr (sb_settlementReference batch)),
                   (''receivableId'', JStr (ra_receivableId alloc)),
                   (''refundId'', JStr (ra_occurrenceId alloc))] @ postingMetadata)) \<rparr>)) (\<lambda>_.
      ret ()))))))))"

definition consumeRecoveryAllocation ::
  "string \<Rightarrow> SettlementBatch \<Rightarrow> instant \<Rightarrow> (string \<times> json) list \<Rightarrow> (db, unit) prog"
where
  "consumeRecoveryAllocation actorUserId batch when postingMetadata =
     each (consume_one actorUserId batch when postingMetadata)
       (case sb_recoveryAllocation batch of None \<Rightarrow> [] | Some a \<Rightarrow> a)"

section \<open>The terminal closes\<close>

definition member_ids :: "SettlementBatch \<Rightarrow> string list" where
  "member_ids batch = map fc_itemId (sb_composition batch)"

definition remitted_type :: string where "remitted_type = ''remitted''"

definition zero_net_type :: string where "zero_net_type = ''zero_net_no_transfer''"

text \<open>The guarded close and the guarded settling of every member, shared by both lanes.\<close>

definition close_batch :: "SettlementBatch \<Rightarrow> string \<Rightarrow> instant \<Rightarrow> (db, unit) prog" where
  "close_batch batch closureType closedAt =
     seq (updateMany db_batches db_batches_update
           (\<lambda>b. sb_id b = sb_id batch \<and> sb_status b = B_ready)
           (\<lambda>b. b\<lparr> sb_status := B_settled, sb_closureType := Some closureType,
                   sb_closedAt := Some closedAt \<rparr>)) (\<lambda>closed.
     seq (require (closed = 1) (Conflict ''settlement_batch_contended'')) (\<lambda>_.
     seq (lift (assertItemTransition I_ready I_settled)) (\<lambda>_.
     seq (updateMany db_items db_items_update
           (\<lambda>i. si_id i \<in> set (member_ids batch) \<and> si_batchId i = Some (sb_id batch) \<and> si_state i = I_ready)
           (\<lambda>i. i\<lparr> si_state := I_settled \<rparr>)) (\<lambda>settledItems.
     require (settledItems = length (member_ids batch)) (Conflict ''settlement_items_contended'')))))"

record SettleEvidence =
  ev_bankTransferReference :: string
  ev_executedAt :: instant
  ev_executedBy :: string

text \<open>What follows the remittance inside the settling transaction.\<close>

definition settle_record ::
  "string \<Rightarrow> SettlementBatch \<Rightarrow> SettleEvidence \<Rightarrow> SettlementRemittance \<Rightarrow> (db, SettlementRemittance) prog"
where
  "settle_record actorUserId batch evidence created =
     seq (consumeRecoveryAllocation actorUserId batch (ev_executedAt evidence)
           [(''accountFrom'', JStr ''safeguarding''), (''accountTo'', JStr ''operating'')]) (\<lambda>_.
     seq (ledger_record ((ledger_base SETTLEMENT_COMPLETED ''SETTLEMENT_COMPLETED'' actorUserId (Fin 0)
            (sb_currency batch) ''debit'')
            \<lparr> li_storeId := Some (sb_storeId batch),
              li_idempotencyKey := Some (ledgerIdempotencyKey SETTLEMENT_COMPLETED (sb_id batch)),
              li_metadata := Some (JObj
                [(''settlementReference'', JStr (sb_settlementReference batch)),
                 (''remittanceId'', JStr (rm_id created)),
                 (''bankTransferReference'', JStr (ev_bankTransferReference evidence))]) \<rparr>)) (\<lambda>_.
     seq (audit_guaranteed (batch_audit actorUserId ''settlement.batch.settled'' batch
            [(''remittanceId'', JStr (rm_id created)),
             (''itemCount'', JNum (of_nat (length (member_ids batch))))])
            (''settlement.batch.settled:'' @ sb_id batch)) (\<lambda>_.
     ret created)))"

definition remittance_clash :: "SettlementRemittance \<Rightarrow> SettlementRemittance \<Rightarrow> bool" where
  "remittance_clash r r' \<longleftrightarrow> rm_id r' = rm_id r \<or> rm_settlementId r' = rm_settlementId r"

definition new_remittance :: "env \<Rightarrow> SettlementBatch \<Rightarrow> SettleEvidence \<Rightarrow> SettlementRemittance" where
  "new_remittance e batch evidence =
     \<lparr> rm_id = en_uuid e 10, rm_settlementId = sb_id batch,
       rm_settlementReference = sb_settlementReference batch, rm_storeId = sb_storeId batch,
       rm_currency = sb_currency batch, rm_amount = sb_netAmount batch,
       rm_bankTransferReference = ev_bankTransferReference evidence,
       rm_executedAt = ev_executedAt evidence, rm_executedBy = ev_executedBy evidence,
       rm_createdAt = en_dbNow e \<rparr>"

definition settle_transaction ::
  "env \<Rightarrow> string \<Rightarrow> SettlementBatch \<Rightarrow> SettleEvidence \<Rightarrow> (db, SettlementRemittance) prog"
where
  "settle_transaction e actorUserId batch evidence =
     transaction (
       seq (close_batch batch remitted_type (clk e 10)) (\<lambda>_.
       seq (create db_remittances db_remittances_update remittance_clash (new_remittance e batch evidence)) (\<lambda>created.
       settle_record actorUserId batch evidence created)))"

record Settled =
  sd_batch :: SettlementBatch
  sd_remittance :: SettlementRemittance
  sd_replayed :: bool

definition markSettled ::
  "env \<Rightarrow> string \<Rightarrow> string \<Rightarrow> SettleEvidence \<Rightarrow> (db, Settled) prog"
where
  "markSettled e actorUserId batchId evidence =
     seq (loadBatch batchId) (\<lambda>batch.
     if sb_status batch = B_settled
     then if sb_closureType batch = Some zero_net_type
          then raise (Conflict ''settlement_closed_zero_net'')
          else
          seq (reads (\<lambda>s. find (\<lambda>r. rm_settlementId r = batchId) (db_remittances s))) (\<lambda>read.
          seq (found read (Conflict ''settled_without_remittance'')) (\<lambda>remittance.
          ret \<lparr> sd_batch = batch, sd_remittance = remittance, sd_replayed = True \<rparr>))
     else
     seq (lift (assertBatchTransition (sb_status batch) B_settled)) (\<lambda>_.
     seq (settle_transaction e actorUserId batch evidence) (\<lambda>remittance.
     seq (loadBatch batchId) (\<lambda>after.
     ret \<lparr> sd_batch = after, sd_remittance = remittance, sd_replayed = False \<rparr>))))"

definition zero_net_record :: "string \<Rightarrow> SettlementBatch \<Rightarrow> instant \<Rightarrow> (db, unit) prog" where
  "zero_net_record actorUserId batch closedAt =
     seq (consumeRecoveryAllocation actorUserId batch closedAt
           [(''closureType'', JStr zero_net_type), (''closedAt'', JStr (toISOString closedAt)),
            (''internalTransferDue'', JBool True)]) (\<lambda>_.
     seq (ledger_record ((ledger_base SETTLEMENT_COMPLETED ''SETTLEMENT_COMPLETED'' actorUserId (Fin 0)
            (sb_currency batch) ''debit'')
            \<lparr> li_storeId := Some (sb_storeId batch),
              li_idempotencyKey := Some (ledgerIdempotencyKey SETTLEMENT_COMPLETED (sb_id batch)),
              li_metadata := Some (JObj
                [(''settlementReference'', JStr (sb_settlementReference batch)),
                 (''closureType'', JStr zero_net_type),
                 (''closedAt'', JStr (toISOString closedAt))]) \<rparr>)) (\<lambda>_.
     audit_guaranteed (batch_audit actorUserId ''settlement.batch.closed_zero_net'' batch
            [(''itemCount'', JNum (of_nat (length (member_ids batch)))),
             (''closedAt'', JStr (toISOString closedAt)), (''noTransfer'', JBool True)])
            (''settlement.batch.closed_zero_net:'' @ sb_id batch)))"

definition zero_net_transaction ::
  "env \<Rightarrow> string \<Rightarrow> SettlementBatch \<Rightarrow> instant \<Rightarrow> (db, unit) prog"
where
  "zero_net_transaction e actorUserId batch closedAt =
     transaction (
       seq (close_batch batch zero_net_type closedAt) (\<lambda>_.
       zero_net_record actorUserId batch closedAt))"

definition markSettledZeroNet :: "env \<Rightarrow> string \<Rightarrow> string \<Rightarrow> (db, SettlementBatch \<times> bool) prog" where
  "markSettledZeroNet e actorUserId batchId =
     seq (loadBatch batchId) (\<lambda>batch.
     if sb_status batch = B_settled
     then if sb_closureType batch = Some zero_net_type then ret (batch, True)
          else raise (Conflict ''settlement_already_remitted'')
     else
     seq (lift (assertBatchTransition (sb_status batch) B_settled)) (\<lambda>_.
     seq (lift (asCurrencyCode (sb_currency batch))) (\<lambda>code.
     seq (require (to_minor (moneyToNumber (MoneyDecimal (sb_netAmount batch))) code = 0)
           (Conflict ''zero_net_close_requires_exact_zero'')) (\<lambda>_.
     seq (zero_net_transaction e actorUserId batch (clk e 11)) (\<lambda>_.
     seq (loadBatch batchId) (\<lambda>after.
     ret (after, False)))))))"

section \<open>Read seams\<close>

record FrozenView =
  fv_status :: BatchState
  fv_assembledBy :: "string option"
  fv_closureType :: "string option"
  fv_closedAt :: "instant option"
  fv_frozen :: FrozenBatchRecord

definition frozen_of :: "SettlementBatch \<Rightarrow> FrozenBatchRecord" where
  "frozen_of batch =
     \<lparr> fz_settlementId = sb_id batch, fz_settlementReference = sb_settlementReference batch,
       fz_storeId = sb_storeId batch, fz_currency = sb_currency batch,
       fz_windowType = sb_windowType batch, fz_composition = sb_composition batch,
       fz_calculationSnapshot = sb_calculationSnapshot batch,
       fz_recoveryAllocation = sb_recoveryAllocation batch \<rparr>"

definition frozenRecord :: "string \<Rightarrow> (db, FrozenView) prog" where
  "frozenRecord batchId =
     seq (loadBatch batchId) (\<lambda>batch.
     ret \<lparr> fv_status = sb_status batch, fv_assembledBy = sb_assembledBy batch,
           fv_closureType = sb_closureType batch, fv_closedAt = sb_closedAt batch,
           fv_frozen = frozen_of batch \<rparr>)"

definition zeroNetClosedGrossMinor ::
  "string \<Rightarrow> string \<Rightarrow> string \<Rightarrow> instant \<Rightarrow> instant \<Rightarrow> db \<Rightarrow> int res"
where
  "zeroNetClosedGrossMinor own storeId currency dayStart dayEnd s =
     bindr (asCurrencyCode currency) (\<lambda>code.
     Inr (sum_list (map (\<lambda>b. to_minor (moneyToNumber (MoneyDecimal (sb_grossAmount b))) code)
       (filter (\<lambda>b. sb_storeId b = storeId \<and> sb_currency b = currency \<and> sb_id b \<noteq> own
          \<and> sb_closureType b = Some zero_net_type
          \<and> (case sb_closedAt b of None \<Rightarrow> False | Some t \<Rightarrow> dayStart \<le> t \<and> t < dayEnd)) (db_batches s)))))"

definition batchItems :: "string \<Rightarrow> (db, SettlementItem list) prog" where
  "batchItems batchId = seq (loadBatch batchId) (\<lambda>_. reads (items_of_batch batchId))"

definition listBatches :: "string option \<Rightarrow> db \<Rightarrow> SettlementBatch list" where
  "listBatches storeId s =
     take 100 (rev (order_by (\<lambda>b. (sb_createdAt b, sb_id b))
       (filter (\<lambda>b. truthy storeId \<longrightarrow> Some (sb_storeId b) = storeId) (db_batches s))))"

definition linkSuccessor :: "string \<Rightarrow> string \<Rightarrow> (db, SettlementBatch) prog" where
  "linkSuccessor supersededId successorId =
     seq (require (supersededId \<noteq> successorId) (BadRequest ''successor_cannot_be_self'')) (\<lambda>_.
     seq (loadBatch successorId) (\<lambda>_.
     seq (updateMany db_batches db_batches_update
           (\<lambda>b. sb_id b = supersededId \<and> sb_status b = B_superseded \<and> sb_supersededById b = None)
           (\<lambda>b. b\<lparr> sb_supersededById := Some successorId \<rparr>)) (\<lambda>n.
     if n = 0
     then seq (loadBatch supersededId) (\<lambda>batch.
          if truthy (sb_supersededById batch) then ret batch
          else raise (Conflict ''successor_link_requires_superseded''))
     else loadBatch supersededId)))"

end
