(* ===== verification/Assembly.thy ===== *)
theory Assembly
  imports Engine "HOL-Library.Sublist"
begin

text \<open>
  What the engine's handlers do when nothing contends with them: the recovery plan in closed
  form, and the success of assembly and of the remitted close with the tables they leave.
\<close>

section \<open>Postings that cannot fail\<close>

lemma posting_returns:
  assumes "validate_entry i = Inr r" and "li_orderId i = None"
  shows "\<exists>r' t'. record_entry i t = (Inr r', t')"
proof -
  have "le_orderId r = None" using assms by (auto simp: validate_entry_def Let_def prog_iff split: if_splits)
  then have ins: "insert_entry r t = (if key_taken le_idempotencyKey r t then Inl (P2002 ''idempotencyKey'') else Inr (t @ [r]))"
    by (simp add: insert_entry_def order_reason_taken_def)
  show ?thesis
  proof (cases "key_taken le_idempotencyKey r t")
    case True
    then obtain k where k: "le_idempotencyKey r = Some k" "\<exists>r' \<in> set t. le_idempotencyKey r' = Some k"
      unfolding key_taken_def by (metis not_None_eq)
    from ledger.post_existing [OF k(2,1)] assms(1) show ?thesis by (auto simp: record_entry_def)
  next
    case False
    with ins assms(1) show ?thesis by (simp add: record_entry_def keyed_post_def)
  qed
qed

lemma ledger_returns:
  "validate_entry i = Inr r \<Longrightarrow> li_orderId i = None \<Longrightarrow> \<exists>r' lg. ledger_record i s = (Inr r', s\<lparr> db_ledger := lg \<rparr>)"
  using posting_returns [of i r "db_ledger s"] by (auto simp: ledger_record_def on_table_def)

lemma audit_returns:
  "non_blank k \<Longrightarrow> \<exists>au. audit_guaranteed i k s = (Inr (), s\<lparr> db_audit := au \<rparr>)"
  using recordGuaranteed_returns [of k i "db_audit s"]
  by (cases "recordGuaranteed i k (db_audit s)") (auto simp: audit_guaranteed_def on_table_def)

lemma js_trim_nonempty: "c \<in> set s \<Longrightarrow> \<not> js_space c \<Longrightarrow> js_trim s \<noteq> []"
proof -
  assume c: "c \<in> set s" "\<not> js_space c"
  have "c \<in> set (dropWhile js_space s)"
    using c by (induction s) auto
  then have "dropWhile js_space (rev (dropWhile js_space s)) \<noteq> []"
    using c by (auto simp: dropWhile_eq_Nil_conv)
  then show ?thesis by (simp add: js_trim_def)
qed

lemma non_blank_prefix: "\<not> js_space c \<Longrightarrow> non_blank ((c # p) @ s)"
  unfolding non_blank_def by (rule js_trim_nonempty [of c]) auto

lemma settlement_audit_key: "non_blank (''settlement.'' @ s)"
  by (rule non_blank_prefix) (simp add: js_space_def)

text \<open>A lifecycle marker in a real currency is always accepted.\<close>

definition ledger_currency :: "string \<Rightarrow> bool" where
  "ledger_currency c \<longleftrightarrow> js_upper (js_trim c) \<noteq> []"

lemma ledger_currency_str: "ledger_currency (currency_str c)"
  by (cases c) (simp_all add: ledger_currency_def js_trim_def js_space_def js_upper_def js_upper_char_def)

lemma marker_valid:
  assumes "event \<in> {SETTLEMENT_STARTED, SETTLEMENT_COMPLETED, SETTLEMENT_SUPERSEDED}" and "ledger_currency cur"
    and "reason \<noteq> []" "js_trim reason = reason"
  shows "\<exists>r. validate_entry ((ledger_base event reason u (Fin 0) cur ''debit'')
    \<lparr> li_storeId := st, li_idempotencyKey := Some (ledgerIdempotencyKey event anchor), li_metadata := md \<rparr>) = Inr r"
proof -
  have "to_dec 0 = Inr 0" using to_dec_dec_num [of 0] by simp
  moreover have "event_name event \<in> set SETTLEMENT_LIFECYCLE_MARKERS"
    using assms(1) by (auto simp: SETTLEMENT_LIFECYCLE_MARKERS_def)
  moreover have "js_trim ''user'' = ''user''" by (simp add: js_trim_def js_space_def)
  ultimately show ?thesis
    using assms order_key_some [of event anchor] event_name_positive [of event]
    by (simp add: validate_entry_def ledger_base_def is_lifecycle_marker_def Let_def number_value_def
        ledger_currency_def)
qed

lemma marker_returns:
  assumes "event \<in> {SETTLEMENT_STARTED, SETTLEMENT_COMPLETED, SETTLEMENT_SUPERSEDED}" and "ledger_currency cur"
    and "reason \<noteq> []" "js_trim reason = reason"
  shows "\<exists>r lg. ledger_record ((ledger_base event reason u (Fin 0) cur ''debit'')
    \<lparr> li_storeId := st, li_idempotencyKey := Some (ledgerIdempotencyKey event anchor), li_metadata := md \<rparr>) s
      = (Inr r, s\<lparr> db_ledger := lg \<rparr>)"
proof -
  from marker_valid [OF assms] obtain r where v: "validate_entry ((ledger_base event reason u (Fin 0) cur ''debit'')
    \<lparr> li_storeId := st, li_idempotencyKey := Some (ledgerIdempotencyKey event anchor), li_metadata := md \<rparr>) = Inr r"
    by blast
  show ?thesis by (rule ledger_returns [OF v]) (simp add: ledger_base_def)
qed

lemma money_valid:
  assumes "0 < k" "k < 10 ^ 12" and "ledger_currency cur" and "reason \<noteq> []" "js_trim reason = reason"
    and "dir = ''credit'' \<or> dir = ''debit''" and "event \<notin> {SETTLEMENT_STARTED, SETTLEMENT_COMPLETED, SETTLEMENT_SUPERSEDED}"
  shows "\<exists>r. validate_entry ((ledger_base event reason u (Fin (dec_num k)) cur dir)
    \<lparr> li_counterpartyType := cp, li_storeId := st, li_idempotencyKey := Some key, li_metadata := md \<rparr>) = Inr r"
proof -
  have pos: "0 < dec_num k" using assms dec_num_pos_iff by simp
  have "to_dec (dec_num k) = Inr k" using assms by (simp add: to_dec_dec_num)
  moreover have "js_trim ''user'' = ''user''" by (simp add: js_trim_def js_space_def)
  ultimately show ?thesis
    using assms pos event_name_positive [of event]
    by (auto simp: validate_entry_def ledger_base_def is_lifecycle_marker_def Let_def number_value_def
        ledger_currency_def)
qed

section \<open>The recovery plan\<close>

definition receivable_ok :: "SettlementReceivable \<Rightarrow> bool" where
  "receivable_ok r \<longleftrightarrow> 0 \<le> sr_amountRecovered r \<and> sr_amountRecovered r \<le> sr_amount r \<and> sr_amount r < 10 ^ 12"

text \<open>
  The allocation part for a row: it takes \<open>k\<close> from a balance, quoting the recovered amount it
  was computed against.
\<close>

definition allocates :: "SettlementReceivable \<Rightarrow> int \<Rightarrow> RecoveryAllocation \<Rightarrow> bool" where
  "allocates r k a \<longleftrightarrow> 0 < k \<and> sr_amountRecovered r + k \<le> sr_amount r
     \<and> ra_receivableId a = sr_id r \<and> ra_occurrenceId a = sr_occurrenceId r
     \<and> ra_amount a = dec_num k \<and> ra_amountRecoveredAtPlan a = dec_num (sr_amountRecovered r)
     \<and> ra_balanceAfter a = dec_num (sr_amount r - sr_amountRecovered r - k)"

definition alloc_minor :: "RecoveryAllocation \<Rightarrow> int" where
  "alloc_minor a = dec_round (100 * ra_amount a)"

lemma allocates_minor: "receivable_ok r \<Longrightarrow> allocates r k a \<Longrightarrow> alloc_minor a = k"
  using to_dec_dec_num [of k] by (auto simp: allocates_def receivable_ok_def alloc_minor_def to_dec_def Let_def split: if_splits)

lemma plan_loop_spec:
  assumes "minorDigitsFor c = 2" and "\<forall>r \<in> set rs. receivable_ok r"
  shows "\<exists>ks rows. length ks = length rows \<and> length rows = length (fst (plan_loop c rs b))
    \<and> (\<forall>n < length rows. allocates (rows ! n) (ks ! n) (fst (plan_loop c rs b) ! n))
    \<and> snd (plan_loop c rs b) = sum_list ks \<and> sum_list ks \<le> max 0 b
    \<and> subseq rows rs"
  using assms(2)
proof (induction rs arbitrary: b)
  case Nil
  show ?case by (intro exI [of _ "[]"]) simp
next
  case (Cons r rs)
  have bounds: "0 \<le> sr_amountRecovered r" "sr_amountRecovered r \<le> sr_amount r" "sr_amount r < 10 ^ 12"
    using Cons.prems by (simp_all add: receivable_ok_def)
  then have mins: "to_minor (dec_num (sr_amountRecovered r)) c = sr_amountRecovered r"
    "to_minor (dec_num (sr_amount r)) c = sr_amount r"
    using assms(1) by simp_all
  have fm: "fromMinor k c = dec_num k" for k by (simp add: dec_num_fromMinor [OF assms(1)])
  define bal where "bal = sr_amount r - sr_amountRecovered r"
  consider "b \<le> 0" | "0 < b" "bal \<le> 0" | "0 < b" "0 < bal" by linarith
  then show ?case
  proof cases
    case 1
    then show ?thesis by (intro exI [of _ "[]"]) simp
  next
    case 2
    then have step: "plan_loop c (r # rs) b = plan_loop c rs b" using mins by (simp add: bal_def)
    from Cons.IH [of b] Cons.prems obtain ks rows where "length ks = length rows" "length rows = length (fst (plan_loop c rs b))"
      "\<forall>n < length rows. allocates (rows ! n) (ks ! n) (fst (plan_loop c rs b) ! n)"
      "snd (plan_loop c rs b) = sum_list ks" "sum_list ks \<le> max 0 b" "subseq rows rs" by auto
    then show ?thesis unfolding step by (intro exI [of _ ks] exI [of _ rows]) auto
  next
    case 3
    define k where "k = min bal b"
    define a where "a = \<lparr> ra_receivableId = sr_id r, ra_occurrenceId = sr_occurrenceId r,
      ra_amount = dec_num k, ra_amountRecoveredAtPlan = dec_num (sr_amountRecovered r),
      ra_balanceAfter = dec_num (bal - k) \<rparr>"
    have step: "plan_loop c (r # rs) b = (a # fst (plan_loop c rs (b - k)), k + snd (plan_loop c rs (b - k)))"
      using 3 mins by (simp add: bal_def k_def a_def fm Let_def)
    have al: "allocates r k a" using 3 by (auto simp: allocates_def a_def bal_def k_def min_def)
    from Cons.IH [of "b - k"] Cons.prems obtain ks rows where ih: "length ks = length rows"
      "length rows = length (fst (plan_loop c rs (b - k)))"
      "\<forall>n < length rows. allocates (rows ! n) (ks ! n) (fst (plan_loop c rs (b - k)) ! n)"
      "snd (plan_loop c rs (b - k)) = sum_list ks" "sum_list ks \<le> max 0 (b - k)" "subseq rows rs" by auto
    have "\<forall>n < length (r # rows). allocates ((r # rows) ! n) ((k # ks) ! n) ((a # fst (plan_loop c rs (b - k))) ! n)"
      using al ih(3) by (auto simp: nth_Cons split: nat.splits)
    moreover have "k + sum_list ks \<le> max 0 b" using ih(5) 3 by (auto simp: k_def)
    ultimately show ?thesis
      unfolding step using ih by (intro exI [of _ "k # ks"] exI [of _ "r # rows"]) auto
  qed
qed

text \<open>The plan read off row by row: distinct receivables, each allocated a part of its balance.\<close>

lemma plan_loop_rows:
  assumes "minorDigitsFor c = 2" and "\<forall>r \<in> set rs. receivable_ok r" and "distinct (map sr_id rs)"
  shows "distinct (map ra_receivableId (fst (plan_loop c rs b)))
    \<and> (\<forall>a \<in> set (fst (plan_loop c rs b)). \<exists>r \<in> set rs. \<exists>k. allocates r k a)
    \<and> 0 \<le> snd (plan_loop c rs b) \<and> snd (plan_loop c rs b) \<le> max 0 b
    \<and> snd (plan_loop c rs b) = sum_list (map alloc_minor (fst (plan_loop c rs b)))"
proof -
  from plan_loop_spec [OF assms(1,2), of b] obtain ks rows where spec: "length ks = length rows"
    "length rows = length (fst (plan_loop c rs b))"
    "\<forall>n < length rows. allocates (rows ! n) (ks ! n) (fst (plan_loop c rs b) ! n)"
    "snd (plan_loop c rs b) = sum_list ks" "sum_list ks \<le> max 0 b" "subseq rows rs" by blast
  have "map ra_receivableId (fst (plan_loop c rs b)) = map sr_id rows"
    using spec(2,3) by (intro nth_equalityI) (simp_all add: allocates_def)
  moreover have "distinct (map sr_id rows)"
    using assms(3) subseq_map [OF spec(6), of sr_id] by (auto simp: subseq_conv_nths simp del: distinct_map)
  moreover have in_rs: "rows ! n \<in> set rs" if "n < length rows" for n
    using that spec(6) by (meson nth_mem subseq_order.order_trans subseq_singleton_left)
  then have "ks = map alloc_minor (fst (plan_loop c rs b))"
    using spec(1-3) assms(2) by (intro nth_equalityI) (simp, metis allocates_minor length_map nth_map)
  moreover have "\<exists>r \<in> set rs. \<exists>k. allocates r k a" if "a \<in> set (fst (plan_loop c rs b))" for a
  proof -
    from that spec(2) obtain n where n: "n < length rows" "fst (plan_loop c rs b) ! n = a"
      by (metis in_set_conv_nth)
    with spec(3) have "allocates (rows ! n) (ks ! n) a" by blast
    moreover have "rows ! n \<in> set rs" using n in_rs by blast
    ultimately show ?thesis by blast
  qed
  moreover have "0 \<le> sum_list ks"
  proof (rule sum_list_nonneg)
    fix k assume "k \<in> set ks"
    then obtain n where "n < length rows" "ks ! n = k" using spec(1) by (metis in_set_conv_nth)
    with spec(3) show "0 \<le> k" by (auto simp: allocates_def)
  qed
  ultimately show ?thesis using spec(4,5) by simp
qed

section \<open>Guarded updates that all hit\<close>

lemma count_key:
  "distinct (map key t) \<Longrightarrow> r \<in> set t \<Longrightarrow> key r = k \<Longrightarrow> p r \<Longrightarrow> count_where (\<lambda>r. key r = k \<and> p r) t = 1"
  using count_where_one_key [of key t k p] count_where_pos [of "\<lambda>r. key r = k \<and> p r" t] by force

lemma update_key:
  "distinct (map key t) \<Longrightarrow> r \<in> set t \<Longrightarrow> key r = k \<Longrightarrow> p r \<Longrightarrow>
     update_where (\<lambda>r. key r = k \<and> p r) f t = update_where (\<lambda>r. key r = k) f t"
  unfolding update_where_def by (rule map_cong) (auto dest: distinct_key_eq)

lemma update_ids_Cons:
  "(\<And>r. key (f r) = key r) \<Longrightarrow> k \<notin> K \<Longrightarrow>
     update_where (\<lambda>r. key r \<in> K) f (update_where (\<lambda>r. key r = k) f t) = update_where (\<lambda>r. key r \<in> insert k K) f t"
  unfolding update_where_def by auto

lemma update_no_ids: "update_where (\<lambda>r. False) f t = t"
  by (simp add: update_where_def)

lemma in_update_key: "r \<in> set t \<Longrightarrow> key r \<noteq> k \<Longrightarrow> r \<in> set (update_where (\<lambda>r. key r = k) f t)"
  by (auto simp: in_update_where)

lemma map_update_key: "(\<And>r. key (f r) = key r) \<Longrightarrow> map key (update_where p f t) = map key t"
  by (rule map_update_where) simp

definition bound_row :: "string \<Rightarrow> SettlementItem \<Rightarrow> SettlementItem" where
  "bound_row bid r = r\<lparr> si_state := I_ready, si_batchId := Some bid \<rparr>"

lemma items_update: "f (db_items s) = t \<Longrightarrow> db_items_update f s = s\<lparr> db_items := t \<rparr>"
  by (cases s) simp

lemma receivables_update: "f (db_receivables s) = t \<Longrightarrow> db_receivables_update f s = s\<lparr> db_receivables := t \<rparr>"
  by (cases s) simp

lemma batches_update: "f (db_batches s) = t \<Longrightarrow> db_batches_update f s = s\<lparr> db_batches := t \<rparr>"
  by (cases s) simp

lemma bind_items_run:
  assumes "distinct (map si_id (db_items s))" "distinct (map si_id is)"
    and "\<forall>i \<in> set is. i \<in> set (db_items s) \<and> si_state i = I_eligible \<and> si_batchId i = None"
  shows "bind_items bid is s =
    (Inr (length is), s\<lparr> db_items := update_where (\<lambda>r. si_id r \<in> si_id ` set is) (bound_row bid) (db_items s) \<rparr>)"
  using assms
proof (induction "is" arbitrary: s)
  case Nil
  then show ?case by (simp add: update_no_ids)
next
  case (Cons i "is")
  let ?s = "s\<lparr> db_items := update_where (\<lambda>r. si_id r = si_id i) (bound_row bid) (db_items s) \<rparr>"
  have keyf: "si_id (bound_row bid r) = si_id r" for r by (simp add: bound_row_def)
  have hit: "count_where (\<lambda>r. si_id r = si_id i \<and> si_state r = I_eligible \<and> si_batchId r = None \<and> si_amount r = si_amount i) (db_items s) = 1"
    "update_where (\<lambda>r. si_id r = si_id i \<and> si_state r = I_eligible \<and> si_batchId r = None \<and> si_amount r = si_amount i)
      (bound_row bid) (db_items s) = update_where (\<lambda>r. si_id r = si_id i) (bound_row bid) (db_items s)"
    using Cons.prems by (intro count_key [where r = i] update_key [where r = i]; simp)+
  have "bind_items bid is ?s = (Inr (length is),
      ?s\<lparr> db_items := update_where (\<lambda>r. si_id r \<in> si_id ` set is) (bound_row bid) (db_items ?s) \<rparr>)"
  proof (rule Cons.IH)
    show "distinct (map si_id (db_items ?s))" using Cons.prems(1) by (simp add: map_update_key keyf)
    show "distinct (map si_id is)" using Cons.prems(2) by simp
    show "\<forall>j \<in> set is. j \<in> set (db_items ?s) \<and> si_state j = I_eligible \<and> si_batchId j = None"
      using Cons.prems(2,3) by (auto intro!: in_update_key) (metis image_eqI)
  qed
  moreover have "update_where (\<lambda>r. si_id r \<in> si_id ` set is) (bound_row bid)
      (update_where (\<lambda>r. si_id r = si_id i) (bound_row bid) (db_items s))
    = update_where (\<lambda>r. si_id r \<in> insert (si_id i) (si_id ` set is)) (bound_row bid) (db_items s)"
    using Cons.prems(2) by (intro update_ids_Cons keyf) auto
  moreover have "updateMany db_items db_items_update
      (\<lambda>r. si_id r = si_id i \<and> si_state r = I_eligible \<and> si_batchId r = None \<and> si_amount r = si_amount i)
      (bound_row bid) s = (Inr 1, ?s)"
    using hit items_update [of "update_where _ (bound_row bid)", OF hit(2)] by simp
  moreover have "(\<lambda>r. r\<lparr> si_state := I_ready, si_batchId := Some bid \<rparr>) = bound_row bid"
    by (rule ext) (simp add: bound_row_def)
  ultimately show ?case
    by (simp del: updateMany_run)
qed

definition staged_row :: "string \<Rightarrow> SettlementReceivable \<Rightarrow> SettlementReceivable" where
  "staged_row bid r = r\<lparr> sr_stagedBySettlementId := Some bid \<rparr>"

lemma stage_run:
  assumes "distinct (map sr_id (db_receivables s))" "distinct (map ra_receivableId as)"
    and "\<forall>a \<in> set as. \<exists>r \<in> set (db_receivables s). recoverable r \<and> (\<exists>k. allocates r k a)"
  shows "each (stage_receivable bid) as s =
    (Inr (), s\<lparr> db_receivables := update_where (\<lambda>r. sr_id r \<in> ra_receivableId ` set as) (staged_row bid) (db_receivables s) \<rparr>)"
  using assms
proof (induction "as" arbitrary: s)
  case Nil
  then show ?case by (simp add: update_no_ids)
next
  case (Cons a "as")
  let ?s = "s\<lparr> db_receivables := update_where (\<lambda>r. sr_id r = ra_receivableId a) (staged_row bid) (db_receivables s) \<rparr>"
  have keyf: "sr_id (staged_row bid r) = sr_id r" for r by (simp add: staged_row_def)
  obtain r k where r: "r \<in> set (db_receivables s)" "recoverable r" "allocates r k a" using Cons.prems(3) by auto
  then have m: "sr_id r = ra_receivableId a" "recoverable r \<and> dec_matches (sr_amountRecovered r) (ra_amountRecoveredAtPlan a)"
    by (simp_all add: allocates_def dec_matches_def)
  have hit: "count_where (\<lambda>r. sr_id r = ra_receivableId a \<and> recoverable r \<and> dec_matches (sr_amountRecovered r) (ra_amountRecoveredAtPlan a)) (db_receivables s) = 1"
    "update_where (\<lambda>r. sr_id r = ra_receivableId a \<and> recoverable r \<and> dec_matches (sr_amountRecovered r) (ra_amountRecoveredAtPlan a))
      (staged_row bid) (db_receivables s) = update_where (\<lambda>r. sr_id r = ra_receivableId a) (staged_row bid) (db_receivables s)"
    using Cons.prems(1) r(1) m by (intro count_key [where r = r] update_key [where r = r]; simp)+
  have rest: "each (stage_receivable bid) as ?s = (Inr (),
      ?s\<lparr> db_receivables := update_where (\<lambda>r. sr_id r \<in> ra_receivableId ` set as) (staged_row bid) (db_receivables ?s) \<rparr>)"
  proof (rule Cons.IH)
    show "distinct (map sr_id (db_receivables ?s))" using Cons.prems(1) by (simp add: map_update_key keyf)
    show "distinct (map ra_receivableId as)" using Cons.prems(2) by simp
    show "\<forall>a' \<in> set as. \<exists>r \<in> set (db_receivables ?s). recoverable r \<and> (\<exists>k. allocates r k a')"
    proof
      fix a' assume a': "a' \<in> set as"
      with Cons.prems(3) obtain r' k' where r': "r' \<in> set (db_receivables s)" "recoverable r'" "allocates r' k' a'" by auto
      moreover have "sr_id r' \<noteq> ra_receivableId a" using Cons.prems(2) a' r'(3) by (simp add: allocates_def) (metis image_eqI)
      ultimately show "\<exists>r \<in> set (db_receivables ?s). recoverable r \<and> (\<exists>k. allocates r k a')"
        by (auto intro!: bexI [of _ r'] in_update_key)
    qed
  qed
  have ids: "update_where (\<lambda>r. sr_id r \<in> ra_receivableId ` set as) (staged_row bid)
      (update_where (\<lambda>r. sr_id r = ra_receivableId a) (staged_row bid) (db_receivables s))
    = update_where (\<lambda>r. sr_id r \<in> insert (ra_receivableId a) (ra_receivableId ` set as)) (staged_row bid) (db_receivables s)"
    using Cons.prems(2) by (intro update_ids_Cons keyf) auto
  have "updateMany db_receivables db_receivables_update
      (\<lambda>r. sr_id r = ra_receivableId a \<and> recoverable r \<and> dec_matches (sr_amountRecovered r) (ra_amountRecoveredAtPlan a))
      (staged_row bid) s = (Inr 1, ?s)"
    using hit receivables_update [of "update_where _ (staged_row bid)", OF hit(2)] by simp
  moreover have "sr_stagedBySettlementId_update (\<lambda>_. Some bid) = staged_row bid"
    by (rule ext) (simp add: staged_row_def)
  ultimately have "stage_receivable bid a s = (Inr (), ?s)"
    by (simp add: stage_receivable_def del: updateMany_run)
  with rest ids show ?case by simp
qed

section \<open>Assembly on a quiet database\<close>

text \<open>
  The rows an assembly for a store finds: distinct ids, eligible items in no batch with
  non-negative amounts whose total fits the column, receivables within their bounds.
\<close>

definition gross_of :: "SettlementItem list \<Rightarrow> int" where
  "gross_of items = sum_list (map si_amount items)"

definition assembly_ready :: "string \<Rightarrow> string \<Rightarrow> CurrencyCode \<Rightarrow> db \<Rightarrow> bool" where
  "assembly_ready storeId currency c s \<longleftrightarrow>
     asCurrencyCode currency = Inr c \<and> eligibleItems storeId currency s \<noteq> []
     \<and> distinct (map si_id (db_items s)) \<and> distinct (map sr_id (db_receivables s))
     \<and> (\<forall>i \<in> set (eligibleItems storeId currency s). si_batchId i = None \<and> 0 \<le> si_amount i \<and> si_amount i < 10 ^ 12)
     \<and> gross_of (eligibleItems storeId currency s) < 10 ^ 12
     \<and> (\<forall>r \<in> set (db_receivables s). receivable_ok r)"

lemma eligible_item:
  "i \<in> set (eligibleItems storeId currency s) \<Longrightarrow> i \<in> set (db_items s) \<and> si_state i = I_eligible
     \<and> si_storeId i = storeId \<and> si_currency i = js_upper currency"
  by (auto simp: eligibleItems_def)

lemma eligible_distinct: "distinct (map si_id (db_items s)) \<Longrightarrow> distinct (map si_id (eligibleItems storeId currency s))"
  by (simp add: eligibleItems_def distinct_order_by distinct_map_filter)

lemma inputs_gross:
  "minorDigitsFor c = 2 \<Longrightarrow> \<forall>i \<in> set items. \<bar>si_amount i\<bar> < 10 ^ 12 \<Longrightarrow>
     items_gross c (map toCalculatorInput items) = gross_of items"
  by (induction items) (simp_all add: items_gross_def gross_of_def toCalculatorInput_def)

lemma all_assertable_iff: "all_assertable to items = Inr () \<longleftrightarrow> (\<forall>i \<in> set items. assertItemTransition (si_state i) to = Inr ())"
  by (induction items) (auto simp: all_assertable_def bindr_iff)

lemma assembly_plans:
  assumes ready: "assembly_ready storeId currency c s"
  shows "\<exists>p R. plan_assembly storeId currency s s s = Inr p \<and> ap_items p = eligibleItems storeId currency s
    \<and> ap_storeId p = storeId \<and> ap_composition p = composition_of (occurrenceReferences (ap_items p) s) (ap_items p)
    \<and> 0 \<le> R \<and> R \<le> gross_of (ap_items p) \<and> R = sum_list (map alloc_minor (ap_allocation p))
    \<and> ap_calculation p = settlement_calculation c (gross_of (ap_items p))
        (no_adjustments\<lparr> adj_receivableRecovery := Some (fromMinor R c) \<rparr>) (length (ap_items p))
    \<and> calc_netAmount (ap_calculation p) = fromMinor (gross_of (ap_items p) - R) c
    \<and> distinct (map ra_receivableId (ap_allocation p))
    \<and> (\<forall>a \<in> set (ap_allocation p). \<exists>r \<in> set (db_receivables s). recoverable r \<and> (\<exists>k. allocates r k a))"
proof -
  let ?items = "eligibleItems storeId currency s" and ?in = "map toCalculatorInput (eligibleItems storeId currency s)"
  have cur: "asCurrencyCode currency = Inr c" and ne: "?items \<noteq> []"
    and amounts: "\<forall>i \<in> set ?items. 0 \<le> si_amount i \<and> si_amount i < 10 ^ 12"
    using ready by (simp_all add: assembly_ready_def)
  from cur have digits: "minorDigitsFor c = 2" and up: "js_upper currency = currency_str c"
    and code: "asCurrencyCode (currency_str c) = Inr c"
    using asCurrencyCode_2dp asCurrencyCode_known asCurrencyCode_idem by blast+
  have gross: "items_gross c ?in = gross_of ?items"
    using amounts by (intro inputs_gross digits) auto
  have G: "0 \<le> gross_of ?items" unfolding gross_of_def using amounts by (intro sum_list_nonneg) auto
  define rows where "rows = order_by (\<lambda>r. (sr_accruedAt r, sr_id r))
    (filter (\<lambda>r. sr_storeId r = storeId \<and> sr_currency r = js_upper currency \<and> recoverable r) (db_receivables s))"
  have rows: "\<forall>r \<in> set rows. receivable_ok r" "distinct (map sr_id rows)" "\<forall>r \<in> set rows. r \<in> set (db_receivables s) \<and> recoverable r"
    using ready by (auto simp: rows_def assembly_ready_def distinct_order_by distinct_map_filter)
  define alloc where "alloc = fst (plan_loop c rows (gross_of ?items))"
  define R where "R = snd (plan_loop c rows (gross_of ?items))"
  from plan_loop_rows [OF digits rows(1,2), of "gross_of ?items"] G rows(3)
  have R: "0 \<le> R" "R \<le> gross_of ?items" "R = sum_list (map alloc_minor alloc)" and al: "distinct (map ra_receivableId alloc)"
    "\<forall>a \<in> set alloc. \<exists>r \<in> set (db_receivables s). recoverable r \<and> (\<exists>k. allocates r k a)"
    unfolding R_def alloc_def by (simp_all add: max_def) blast
  have Rb: "\<bar>R\<bar> \<le> 2 ^ 50" "\<bar>gross_of ?items - R\<bar> \<le> 2 ^ 50"
    using R ready by (auto simp: assembly_ready_def)
  have plan: "planRecovery storeId (js_upper currency) ?in s = Inr (alloc, fromMinor R c)"
    using code gross by (simp add: planRecovery_def rows_def up alloc_def R_def Let_def)
  let ?adj = "no_adjustments\<lparr> adj_receivableRecovery := Some (fromMinor R c) \<rparr>"
  let ?calc = "settlement_calculation c (gross_of ?items) ?adj (length ?items)"
  have calc: "calculateSettlement ?in ?adj = Inr ?calc"
  proof -
    have "asCurrencyCode (ii_currency x) = Inr c" if "x \<in> set ?in" for x
      using that eligible_item up code by (fastforce simp: toCalculatorInput_def)
    then show ?thesis using ne gross by (auto simp: calculateSettlement_iff)
  qed
  have net: "calc_netAmount ?calc = fromMinor (gross_of ?items - R) c"
    using Rb(1) by (simp add: settlement_calculation_def settlement_net_recovery Let_def)
  have "calc_currency ?calc = currency_str c" by (simp add: settlement_calculation_def Let_def)
  moreover have "all_assertable I_ready ?items = Inr ()"
    using eligible_item by (fastforce simp: all_assertable_iff assertItemTransition_def)
  ultimately have "plan_assembly storeId currency s s s = Inr \<lparr> ap_items = ?items, ap_storeId = storeId,
      ap_allocation = alloc, ap_calculation = ?calc, ap_composition = composition_of (occurrenceReferences ?items s) ?items \<rparr>"
    using ne plan calc net code Rb R by (simp add: plan_assembly_def Let_def)
  then show ?thesis using R al net by (intro exI [of _ R] exI) auto
qed

text \<open>The transaction of an uncontended plan commits, and leaves exactly these tables.\<close>

lemma assembly_commits:
  assumes "distinct (map si_id (db_items s))" "distinct (map sr_id (db_receivables s))"
    and "distinct (map si_id (ap_items p))"
    and "\<forall>i \<in> set (ap_items p). i \<in> set (db_items s) \<and> si_state i = I_eligible \<and> si_batchId i = None"
    and "distinct (map ra_receivableId (ap_allocation p))"
    and "\<forall>a \<in> set (ap_allocation p). \<exists>r \<in> set (db_receivables s). recoverable r \<and> (\<exists>k. allocates r k a)"
    and "to_dec (ln_merchantGross (calc_lines (ap_calculation p))) = Inr g"
    and "to_dec (calc_netAmount (ap_calculation p)) = Inr n" and "calc_currency (ap_calculation p) = currency_str c"
    and "\<forall>b \<in> set (db_batches s). sb_id b \<noteq> nid \<and> sb_settlementReference b \<noteq> reference"
  shows "\<exists>b lg au. assembly_transaction e u p reference nid s = (Inr b,
      s\<lparr> db_batches := db_batches s @ [b],
         db_items := update_where (\<lambda>r. si_id r \<in> si_id ` set (ap_items p)) (bound_row nid) (db_items s),
         db_receivables := update_where (\<lambda>r. sr_id r \<in> ra_receivableId ` set (ap_allocation p)) (staged_row nid) (db_receivables s),
         db_ledger := lg, db_audit := au \<rparr>)
    \<and> sb_id b = nid \<and> sb_settlementReference b = reference \<and> sb_status b = B_ready \<and> sb_storeId b = ap_storeId p
    \<and> sb_currency b = currency_str c \<and> sb_grossAmount b = g \<and> sb_netAmount b = n
    \<and> sb_composition b = ap_composition p \<and> sb_calculationSnapshot b = ap_calculation p
    \<and> sb_closureType b = None \<and> sb_recoveryAllocation b = Some (ap_allocation p) \<and> sb_assembledBy b = Some u"
proof -
  define b where "b = \<lparr> sb_id = nid, sb_settlementReference = reference, sb_storeId = ap_storeId p,
    sb_currency = calc_currency (ap_calculation p), sb_status = B_ready, sb_windowType = ''manual'',
    sb_grossAmount = g, sb_netAmount = n, sb_composition = ap_composition p,
    sb_calculationSnapshot = ap_calculation p, sb_supersededById = None, sb_failureEvidence = None,
    sb_closureType = None, sb_closedAt = None, sb_assembledBy = Some u,
    sb_recoveryAllocation = Some (ap_allocation p), sb_createdAt = en_dbNow e \<rparr>"
  let ?s1 = "s\<lparr> db_batches := db_batches s @ [b] \<rparr>"
  let ?s2 = "?s1\<lparr> db_items := update_where (\<lambda>r. si_id r \<in> si_id ` set (ap_items p)) (bound_row nid) (db_items s) \<rparr>"
  let ?s3 = "?s2\<lparr> db_receivables := update_where (\<lambda>r. sr_id r \<in> ra_receivableId ` set (ap_allocation p)) (staged_row nid) (db_receivables s) \<rparr>"
  have "db_batches_update (\<lambda>t. t @ [b]) s = ?s1" by (rule batches_update) simp
  then have create: "create_batch e u reference p nid s = (Inr b, ?s1)"
    using assms(7,8,10) by (auto simp: create_batch_def Let_def seq_def create_def b_def [symmetric] batch_clash_def)
      (simp_all add: b_def)
  have bind: "bind_items nid (ap_items p) ?s1 = (Inr (length (ap_items p)), ?s2)"
    using bind_items_run [of ?s1 "ap_items p" nid] assms(1,3,4) by simp
  have stage: "each (stage_receivable nid) (ap_allocation p) ?s2 = (Inr (), ?s3)"
    using stage_run [of ?s2 "ap_allocation p" nid] assms(2,5,6) by simp
  let ?post = "ledger_record ((ledger_base SETTLEMENT_STARTED ''SETTLEMENT_STARTED'' u (Fin 0)
              (calc_currency (ap_calculation p)) ''debit'')
              \<lparr> li_storeId := Some (ap_storeId p),
                li_idempotencyKey := Some (ledgerIdempotencyKey SETTLEMENT_STARTED nid),
                li_metadata := Some (JObj
                  [(''settlementReference'', JStr reference),
                   (''itemCount'', JNum (of_nat (length (ap_items p)))),
                   (''netAmount'', JNum (calc_netAmount (ap_calculation p)))]) \<rparr>)"
  have "\<exists>r lg. ?post ?s3 = (Inr r, ?s3\<lparr> db_ledger := lg \<rparr>)"
    by (rule marker_returns) (simp_all add: assms(9) ledger_currency_str js_trim_def js_space_def)
  then obtain r lg where post: "?post ?s3 = (Inr r, ?s3\<lparr> db_ledger := lg \<rparr>)" by blast
  let ?audit = "audit_guaranteed (audit_input u ''settlement.batch.assembled'' ''store'' (Some (ap_storeId p))
              [(''settlementId'', JStr nid), (''settlementReference'', JStr reference),
               (''itemCount'', JNum (of_nat (length (ap_items p)))),
               (''grossAmount'', JNum (ln_merchantGross (calc_lines (ap_calculation p)))),
               (''netAmount'', JNum (calc_netAmount (ap_calculation p))),
               (''currency'', JStr (calc_currency (ap_calculation p)))])
              (''settlement.batch.assembled:'' @ nid)"
  have "\<exists>au. ?audit (?s3\<lparr> db_ledger := lg \<rparr>) = (Inr (), ?s3\<lparr> db_ledger := lg, db_audit := au \<rparr>)"
    using audit_returns [OF settlement_audit_key [of "''batch.assembled:'' @ nid"]] by simp
  then obtain au where audit: "?audit (?s3\<lparr> db_ledger := lg \<rparr>) = (Inr (), ?s3\<lparr> db_ledger := lg, db_audit := au \<rparr>)" by blast
  have id: "sb_id b = nid" by (simp add: b_def)
  have "assembly_transaction e u p reference nid s = (Inr b, ?s3\<lparr> db_ledger := lg, db_audit := au \<rparr>)"
    unfolding assembly_transaction_def
    by (rule transaction_commits) (simp add: create id bind stage post audit del: append.simps)
  then show ?thesis using assms(9) by (intro exI [of _ b] exI [of _ lg] exI [of _ au]) (simp add: b_def)
qed

section \<open>The close of a ready batch\<close>

text \<open>
  A batch as assembly leaves it: its row is ready, its members are its own ready items, and
  the receivables it allocated are still staged by it with the balance it was computed
  against.
\<close>

definition settled_row :: "SettlementItem \<Rightarrow> SettlementItem" where
  "settled_row i = i\<lparr> si_state := I_settled \<rparr>"

definition closed_row :: "string \<Rightarrow> instant \<Rightarrow> SettlementBatch \<Rightarrow> SettlementBatch" where
  "closed_row closureType t b = b\<lparr> sb_status := B_settled, sb_closureType := Some closureType, sb_closedAt := Some t \<rparr>"

definition closable :: "SettlementBatch \<Rightarrow> db \<Rightarrow> bool" where
  "closable b s \<longleftrightarrow> b \<in> set (db_batches s) \<and> sb_status b = B_ready \<and> distinct (map sb_id (db_batches s))
     \<and> distinct (map si_id (db_items s)) \<and> distinct (member_ids b)
     \<and> (\<forall>k \<in> set (member_ids b). \<exists>i \<in> set (db_items s). si_id i = k \<and> si_batchId i = Some (sb_id b) \<and> si_state i = I_ready)"

lemma count_ids:
  assumes "distinct (map key t)" "distinct ks" "\<forall>k \<in> set ks. \<exists>r \<in> set t. key r = k \<and> p r"
  shows "count_where (\<lambda>r. key r \<in> set ks \<and> p r) t = length ks"
proof -
  let ?rows = "filter (\<lambda>r. key r \<in> set ks \<and> p r) t"
  have "distinct (map key ?rows)" using assms(1) by (rule distinct_map_filter)
  moreover have "key ` set ?rows = set ks" using assms(3) by (auto simp: image_iff)
  ultimately show ?thesis using assms(2)
    by (metis count_where_def distinct_card length_map list.set_map)
qed

lemma close_batch_run:
  assumes "closable b s"
  shows "close_batch b ct t s = (Inr (),
    s\<lparr> db_batches := update_where (\<lambda>b'. sb_id b' = sb_id b) (closed_row ct t) (db_batches s),
       db_items := update_where (\<lambda>i. si_id i \<in> set (member_ids b) \<and> si_batchId i = Some (sb_id b) \<and> si_state i = I_ready)
         settled_row (db_items s) \<rparr>)"
proof -
  let ?s1 = "s\<lparr> db_batches := update_where (\<lambda>b'. sb_id b' = sb_id b) (closed_row ct t) (db_batches s) \<rparr>"
  have c: "count_where (\<lambda>b'. sb_id b' = sb_id b \<and> sb_status b' = B_ready) (db_batches s) = 1"
    "update_where (\<lambda>b'. sb_id b' = sb_id b \<and> sb_status b' = B_ready) (closed_row ct t) (db_batches s)
      = update_where (\<lambda>b'. sb_id b' = sb_id b) (closed_row ct t) (db_batches s)"
    using assms by (intro count_key [where r = b] update_key [where r = b]; simp add: closable_def)+
  have one: "db_batches_update (update_where (\<lambda>b'. sb_id b' = sb_id b \<and> sb_status b' = B_ready) (closed_row ct t)) s = ?s1"
    by (rule batches_update) (rule c(2))
  have n: "count_where (\<lambda>i. si_id i \<in> set (member_ids b) \<and> si_batchId i = Some (sb_id b) \<and> si_state i = I_ready) (db_items s)
    = length (member_ids b)"
    using assms by (intro count_ids) (auto simp: closable_def)
  have "db_items_update (update_where P settled_row) ?s1 = ?s1\<lparr> db_items := update_where P settled_row (db_items s) \<rparr>" for P
    by (rule items_update) simp
  moreover have "(\<lambda>b'. b'\<lparr> sb_status := B_settled, sb_closureType := Some ct, sb_closedAt := Some t \<rparr>) = closed_row ct t"
    "(\<lambda>i. i\<lparr> si_state := I_settled \<rparr>) = settled_row"
    by (rule ext, simp add: closed_row_def settled_row_def)+
  ultimately show ?thesis
    using n c(1) by (simp add: close_batch_def assertItemTransition_def one)
qed

section \<open>Consuming what was staged\<close>

text \<open>The binary64 sum of two column values is stored as the exact sum.\<close>

lemma to_dec_sum:
  assumes "0 \<le> p" "0 \<le> k" "p + k < 10 ^ 12"
  shows "to_dec (fl64 (dec_num p + dec_num k)) = Inr (p + k)"
proof -
  let ?x = "dec_num p + dec_num k" and ?n = "of_int (p + k) :: rat"
  have "?n < of_int (10 ^ 12)" "0 \<le> ?n" using assms by (simp_all only: of_int_less_iff of_int_0_le_iff)
  moreover have "\<bar>100 * dec_num p - of_int p\<bar> \<le> of_int p / 2 ^ 53" "\<bar>100 * dec_num k - of_int k\<bar> \<le> of_int k / 2 ^ 53"
    using dec_num_close [of p] dec_num_close [of k] assms by simp_all
  then have "\<bar>100 * ?x - ?n\<bar> \<le> of_int p / 2 ^ 53 + of_int k / 2 ^ 53"
    unfolding distrib_left of_int_add by linarith
  then have "\<bar>100 * ?x - ?n\<bar> \<le> ?n / 2 ^ 53" by (simp add: add_divide_distrib)
  moreover have "\<bar>fl64 ?x - ?x\<bar> \<le> \<bar>?x\<bar> / 2 ^ 53" by (rule fl64_error)
  ultimately have "\<bar>100 * fl64 ?x - ?n\<bar> < 1/2" by (simp add: abs_le_iff abs_less_iff abs_if split: if_splits)
  then have "dec_round (100 * fl64 ?x) = p + k" by (rule dec_round_eqI)
  with assms show ?thesis by (simp add: to_dec_def)
qed

definition consumed_row :: "string \<Rightarrow> instant \<Rightarrow> RecoveryAllocation \<Rightarrow> SettlementReceivable \<Rightarrow> SettlementReceivable" where
  "consumed_row bid t a r =
     (let r' = r\<lparr> sr_state := next_receivable_state a,
                   sr_amountRecovered := dec_round (100 * fl64 (ra_amountRecoveredAtPlan a + ra_amount a)),
                   sr_stagedBySettlementId := None \<rparr>
      in if next_receivable_state a = R_recovered
         then r'\<lparr> sr_recoveredAt := Some t, sr_recoveredBySettlementId := Some bid \<rparr> else r')"

definition consume_rows :: "string \<Rightarrow> instant \<Rightarrow> RecoveryAllocation list \<Rightarrow> SettlementReceivable list \<Rightarrow> SettlementReceivable list" where
  "consume_rows bid t as rows = fold (\<lambda>a. update_where (\<lambda>r. sr_id r = ra_receivableId a) (consumed_row bid t a)) as rows"

text \<open>A receivable as staging leaves it.\<close>

definition staged_for :: "string \<Rightarrow> RecoveryAllocation \<Rightarrow> SettlementReceivable \<Rightarrow> bool" where
  "staged_for bid a r \<longleftrightarrow> sr_stagedBySettlementId r = Some bid \<and> sr_state r \<in> {R_open, R_partially_recovered}
     \<and> receivable_ok r \<and> (\<exists>k. allocates r k a)"

lemma staged_moves:
  "staged_for bid a r \<Longrightarrow> sr_state r \<noteq> next_receivable_state a \<Longrightarrow>
     assertReceivableTransition (sr_state r) (next_receivable_state a) = Inr ()"
  by (auto simp: staged_for_def next_receivable_state_def assertReceivableTransition_def split: if_splits)

lemma staged_sum:
  assumes "staged_for bid a r"
  shows "to_dec (fl64 (ra_amountRecoveredAtPlan a + ra_amount a)) = Inr (sr_amountRecovered (consumed_row bid t a r))"
proof -
  from assms obtain k where k: "allocates r k a" "receivable_ok r" by (auto simp: staged_for_def)
  then have "to_dec (fl64 (ra_amountRecoveredAtPlan a + ra_amount a)) = Inr (sr_amountRecovered r + k)"
    using to_dec_sum [of "sr_amountRecovered r" k] by (simp add: allocates_def receivable_ok_def)
  then show ?thesis by (auto simp: consumed_row_def Let_def to_dec_def split: if_splits)
qed

lemma receivable_posts:
  assumes "staged_for bid a r" and "ledger_currency (sb_currency b)"
  shows "\<exists>r' lg. ledger_record ((ledger_base MERCHANT_RECEIVABLE_RECOVERED ''MERCHANT_RECEIVABLE'' u
             (Fin (ra_amount a)) (sb_currency b) ''debit'')
             \<lparr> li_counterpartyType := Some ''merchant'', li_storeId := Some (sb_storeId b),
               li_idempotencyKey := Some key, li_metadata := md \<rparr>) s = (Inr r', s\<lparr> db_ledger := lg \<rparr>)"
proof -
  from assms(1) obtain k where k: "0 < k" "k < 10 ^ 12" "ra_amount a = dec_num k"
    by (auto simp: staged_for_def allocates_def receivable_ok_def)
  have "\<exists>v. validate_entry ((ledger_base MERCHANT_RECEIVABLE_RECOVERED ''MERCHANT_RECEIVABLE'' u
             (Fin (dec_num k)) (sb_currency b) ''debit'')
             \<lparr> li_counterpartyType := Some ''merchant'', li_storeId := Some (sb_storeId b),
               li_idempotencyKey := Some key, li_metadata := md \<rparr>) = Inr v"
    using k(1,2) assms(2) by (intro money_valid) (simp_all add: js_trim_def js_space_def)
  then obtain v where v: "validate_entry ((ledger_base MERCHANT_RECEIVABLE_RECOVERED ''MERCHANT_RECEIVABLE'' u
             (Fin (dec_num k)) (sb_currency b) ''debit'')
             \<lparr> li_counterpartyType := Some ''merchant'', li_storeId := Some (sb_storeId b),
               li_idempotencyKey := Some key, li_metadata := md \<rparr>) = Inr v" by blast
  show ?thesis unfolding k(3) by (rule ledger_returns [OF v]) (simp add: ledger_base_def)
qed

lemma consume_one_run:
  assumes "distinct (map sr_id (db_receivables s))" "r \<in> set (db_receivables s)" "staged_for (sb_id b) a r"
    and "ledger_currency (sb_currency b)"
  shows "\<exists>lg. consume_one u b t md a s = (Inr (),
    s\<lparr> db_receivables := update_where (\<lambda>r. sr_id r = ra_receivableId a) (consumed_row (sb_id b) t a) (db_receivables s),
       db_ledger := lg \<rparr>)"
proof -
  have id: "sr_id r = ra_receivableId a" using assms(3) by (auto simp: staged_for_def allocates_def)
  have read: "find (\<lambda>r. sr_id r = ra_receivableId a) (db_receivables s) = Some r"
    using find_Some_iff_key [OF assms(1)] assms(2) id by blast
  let ?rows = "update_where (\<lambda>r. sr_id r = ra_receivableId a) (consumed_row (sb_id b) t a) (db_receivables s)"
  let ?P = "\<lambda>r'. sr_id r' = ra_receivableId a \<and> sr_stagedBySettlementId r' = Some (sb_id b)
    \<and> sr_state r' = sr_state r \<and> dec_matches (sr_amountRecovered r') (ra_amountRecoveredAtPlan a)"
  have hit: "count_where ?P (db_receivables s) = 1"
    "update_where ?P (consumed_row (sb_id b) t a) (db_receivables s) = ?rows"
    using assms(1,2,3) id
    by (intro count_key [where r = r] update_key [where r = r]; auto simp: staged_for_def allocates_def dec_matches_def)+
  have upd: "db_receivables_update (update_where ?P (consumed_row (sb_id b) t a)) s = s\<lparr> db_receivables := ?rows \<rparr>"
    by (rule receivables_update) (rule hit(2))
  let ?post = "ledger_record ((ledger_base MERCHANT_RECEIVABLE_RECOVERED ''MERCHANT_RECEIVABLE'' u
             (Fin (ra_amount a)) (sb_currency b) ''debit'')
             \<lparr> li_counterpartyType := Some ''merchant'', li_storeId := Some (sb_storeId b),
               li_idempotencyKey := Some (ledgerIdempotencyKey MERCHANT_RECEIVABLE_RECOVERED
                 (ra_receivableId a @ '':'' @ sb_id b)),
               li_metadata := Some (JObj
                 ([(''settlementReference'', JStr (sb_settlementReference b)),
                   (''receivableId'', JStr (ra_receivableId a)),
                   (''refundId'', JStr (ra_occurrenceId a))] @ md)) \<rparr>)"
  have "\<exists>v lg. ?post (s\<lparr> db_receivables := ?rows \<rparr>) = (Inr v, s\<lparr> db_receivables := ?rows, db_ledger := lg \<rparr>)"
    by (rule receivable_posts [OF assms(3,4)])
  then obtain v lg where post: "?post (s\<lparr> db_receivables := ?rows \<rparr>) = (Inr v, s\<lparr> db_receivables := ?rows, db_ledger := lg \<rparr>)"
    by blast
  have rec: "to_dec (fl64 (ra_amountRecoveredAtPlan a + ra_amount a))
      = Inr (dec_round (100 * fl64 (ra_amountRecoveredAtPlan a + ra_amount a)))"
    using staged_sum [OF assms(3), of t] by (auto simp: to_dec_def Let_def split: if_splits)
  have f: "(\<lambda>r. let r' = r\<lparr> sr_state := next_receivable_state a,
        sr_amountRecovered := dec_round (100 * fl64 (ra_amountRecoveredAtPlan a + ra_amount a)), sr_stagedBySettlementId := None \<rparr>
      in if next_receivable_state a = R_recovered
         then r'\<lparr> sr_recoveredAt := Some t, sr_recoveredBySettlementId := Some (sb_id b) \<rparr> else r') = consumed_row (sb_id b) t a"
    by (rule ext) (simp only: consumed_row_def)
  have moves: "(if sr_state r \<noteq> next_receivable_state a then assertReceivableTransition (sr_state r) (next_receivable_state a)
      else Inr ()) = Inr ()"
    using staged_moves [OF assms(3)] by simp
  have "consume_one u b t md a s = (Inr (), s\<lparr> db_receivables := ?rows, db_ledger := lg \<rparr>)"
    unfolding consume_one_def Let_def [of "next_receivable_state a"]
    using hit(1) by (simp add: read moves rec f upd post del: append.simps)
  then show ?thesis by blast
qed

lemma consume_rows_Cons:
  "consume_rows bid t (a # as) rows = consume_rows bid t as (update_where (\<lambda>r. sr_id r = ra_receivableId a) (consumed_row bid t a) rows)"
  by (simp add: consume_rows_def)

lemma consumed_row_id: "sr_id (consumed_row bid t a r) = sr_id r"
  by (simp add: consumed_row_def Let_def)

lemma consume_run:
  assumes "distinct (map sr_id (db_receivables s))" "distinct (map ra_receivableId as)"
    and "\<forall>a \<in> set as. \<exists>r \<in> set (db_receivables s). staged_for (sb_id b) a r" and "ledger_currency (sb_currency b)"
  shows "\<exists>lg. each (consume_one u b t md) as s = (Inr (),
    s\<lparr> db_receivables := consume_rows (sb_id b) t as (db_receivables s), db_ledger := lg \<rparr>)"
  using assms(1-3)
proof (induction "as" arbitrary: s)
  case Nil
  show ?case by (intro exI [of _ "db_ledger s"]) (simp add: consume_rows_def)
next
  case (Cons a "as")
  obtain r where r: "r \<in> set (db_receivables s)" "staged_for (sb_id b) a r" using Cons.prems(3) by auto
  let ?rows = "update_where (\<lambda>r. sr_id r = ra_receivableId a) (consumed_row (sb_id b) t a) (db_receivables s)"
  obtain lg where one: "consume_one u b t md a s = (Inr (), s\<lparr> db_receivables := ?rows, db_ledger := lg \<rparr>)"
    using consume_one_run [OF Cons.prems(1) r assms(4)] by blast
  let ?s = "s\<lparr> db_receivables := ?rows, db_ledger := lg \<rparr>"
  have "\<exists>lg'. each (consume_one u b t md) as ?s = (Inr (),
    ?s\<lparr> db_receivables := consume_rows (sb_id b) t as (db_receivables ?s), db_ledger := lg' \<rparr>)"
  proof (rule Cons.IH)
    show "distinct (map sr_id (db_receivables ?s))" using Cons.prems(1) by (simp add: map_update_key consumed_row_id)
    show "distinct (map ra_receivableId as)" using Cons.prems(2) by simp
    show "\<forall>a' \<in> set as. \<exists>r \<in> set (db_receivables ?s). staged_for (sb_id b) a' r"
    proof
      fix a' assume a': "a' \<in> set as"
      with Cons.prems(3) obtain r' where r': "r' \<in> set (db_receivables s)" "staged_for (sb_id b) a' r'" by auto
      then have "sr_id r' = ra_receivableId a'" by (auto simp: staged_for_def allocates_def)
      then have "sr_id r' \<noteq> ra_receivableId a" using Cons.prems(2) a' by auto (metis image_eqI)
      with r' show "\<exists>r \<in> set (db_receivables ?s). staged_for (sb_id b) a' r"
        by (auto intro!: bexI [of _ r'] in_update_key)
    qed
  qed
  then show ?case by (auto simp: one consume_rows_Cons)
qed

lemma settle_record_run:
  assumes "distinct (map sr_id (db_receivables s))" "distinct (map ra_receivableId as)"
    and "\<forall>a \<in> set as. \<exists>r \<in> set (db_receivables s). staged_for (sb_id b) a r" and "ledger_currency (sb_currency b)"
    and "sb_recoveryAllocation b = Some as"
  shows "\<exists>lg au. settle_record u b ev c s = (Inr c,
    s\<lparr> db_receivables := consume_rows (sb_id b) (ev_executedAt ev) as (db_receivables s), db_ledger := lg, db_audit := au \<rparr>)"
proof -
  let ?md = "[(''accountFrom'', JStr ''safeguarding''), (''accountTo'', JStr ''operating'')]"
  let ?rows = "consume_rows (sb_id b) (ev_executedAt ev) as (db_receivables s)"
  obtain lg where consume: "each (consume_one u b (ev_executedAt ev) ?md) as s = (Inr (), s\<lparr> db_receivables := ?rows, db_ledger := lg \<rparr>)"
    using consume_run [OF assms(1-4)] by blast
  let ?post = "ledger_record ((ledger_base SETTLEMENT_COMPLETED ''SETTLEMENT_COMPLETED'' u (Fin 0)
            (sb_currency b) ''debit'')
            \<lparr> li_storeId := Some (sb_storeId b),
              li_idempotencyKey := Some (ledgerIdempotencyKey SETTLEMENT_COMPLETED (sb_id b)),
              li_metadata := Some (JObj
                [(''settlementReference'', JStr (sb_settlementReference b)),
                 (''remittanceId'', JStr (rm_id c)),
                 (''bankTransferReference'', JStr (ev_bankTransferReference ev))]) \<rparr>)"
  let ?s1 = "s\<lparr> db_receivables := ?rows, db_ledger := lg \<rparr>"
  have "\<exists>r lg'. ?post ?s1 = (Inr r, ?s1\<lparr> db_ledger := lg' \<rparr>)"
    by (rule marker_returns) (simp_all add: assms(4) js_trim_def js_space_def)
  then obtain r lg' where post: "?post ?s1 = (Inr r, ?s1\<lparr> db_ledger := lg' \<rparr>)" by blast
  let ?audit = "audit_guaranteed (batch_audit u ''settlement.batch.settled'' b
            [(''remittanceId'', JStr (rm_id c)), (''itemCount'', JNum (of_nat (length (member_ids b))))])
            (''settlement.batch.settled:'' @ sb_id b)"
  let ?s2 = "s\<lparr> db_receivables := ?rows, db_ledger := lg' \<rparr>"
  have "\<exists>au. ?audit ?s2 = (Inr (), ?s2\<lparr> db_audit := au \<rparr>)"
    using audit_returns [OF settlement_audit_key [of "''batch.settled:'' @ sb_id b"]] by simp
  then obtain au where audit: "?audit ?s2 = (Inr (), ?s2\<lparr> db_audit := au \<rparr>)" by blast
  have "settle_record u b ev c s = (Inr c, ?s2\<lparr> db_audit := au \<rparr>)"
    by (simp add: settle_record_def consumeRecoveryAllocation_def assms(5) consume post audit del: append.simps)
  then show ?thesis by blast
qed

text \<open>Everything a close needs: the batch is as assembly left it and no remittance has its ids.\<close>

definition settleable :: "env \<Rightarrow> SettlementBatch \<Rightarrow> RecoveryAllocation list \<Rightarrow> db \<Rightarrow> bool" where
  "settleable e b as s \<longleftrightarrow> closable b s \<and> sb_recoveryAllocation b = Some as \<and> ledger_currency (sb_currency b)
     \<and> distinct (map sr_id (db_receivables s)) \<and> distinct (map ra_receivableId as)
     \<and> (\<forall>a \<in> set as. \<exists>r \<in> set (db_receivables s). staged_for (sb_id b) a r)
     \<and> (\<forall>r \<in> set (db_remittances s). rm_settlementId r \<noteq> sb_id b \<and> rm_id r \<noteq> en_uuid e 10)"

lemma settle_commits:
  assumes "settleable e b as s"
  shows "\<exists>lg au. settle_transaction e u b ev s = (Inr (new_remittance e b ev),
    s\<lparr> db_batches := update_where (\<lambda>b'. sb_id b' = sb_id b) (closed_row remitted_type (clk e 10)) (db_batches s),
       db_items := update_where (\<lambda>i. si_id i \<in> set (member_ids b) \<and> si_batchId i = Some (sb_id b) \<and> si_state i = I_ready)
         settled_row (db_items s),
       db_remittances := db_remittances s @ [new_remittance e b ev],
       db_receivables := consume_rows (sb_id b) (ev_executedAt ev) as (db_receivables s),
       db_ledger := lg, db_audit := au \<rparr>)"
proof -
  let ?s1 = "s\<lparr> db_batches := update_where (\<lambda>b'. sb_id b' = sb_id b) (closed_row remitted_type (clk e 10)) (db_batches s),
       db_items := update_where (\<lambda>i. si_id i \<in> set (member_ids b) \<and> si_batchId i = Some (sb_id b) \<and> si_state i = I_ready)
         settled_row (db_items s) \<rparr>"
  let ?s2 = "?s1\<lparr> db_remittances := db_remittances s @ [new_remittance e b ev] \<rparr>"
  have close: "close_batch b remitted_type (clk e 10) s = (Inr (), ?s1)"
    using assms by (intro close_batch_run) (simp add: settleable_def)
  have "db_remittances_update (\<lambda>t. t @ [new_remittance e b ev]) ?s1 = ?s2" by (cases s) simp
  then have create: "create db_remittances db_remittances_update remittance_clash (new_remittance e b ev) ?s1
      = (Inr (new_remittance e b ev), ?s2)"
    using assms by (auto simp: create_def settleable_def remittance_clash_def new_remittance_def)
  have "\<exists>lg au. settle_record u b ev (new_remittance e b ev) ?s2 = (Inr (new_remittance e b ev),
    ?s2\<lparr> db_receivables := consume_rows (sb_id b) (ev_executedAt ev) as (db_receivables ?s2), db_ledger := lg, db_audit := au \<rparr>)"
    using assms by (intro settle_record_run) (simp_all add: settleable_def)
  then obtain lg au where rest: "settle_record u b ev (new_remittance e b ev) ?s2 = (Inr (new_remittance e b ev),
    ?s2\<lparr> db_receivables := consume_rows (sb_id b) (ev_executedAt ev) as (db_receivables s), db_ledger := lg, db_audit := au \<rparr>)"
    by auto
  have "settle_transaction e u b ev s = (Inr (new_remittance e b ev),
    ?s2\<lparr> db_receivables := consume_rows (sb_id b) (ev_executedAt ev) as (db_receivables s), db_ledger := lg, db_audit := au \<rparr>)"
    unfolding settle_transaction_def by (rule transaction_commits) (simp add: close create rest)
  then show ?thesis by auto
qed

section \<open>What the close recovers\<close>

lemma sum_update_key:
  fixes g :: "'r \<Rightarrow> int"
  assumes "distinct (map key t)" "r \<in> set t" "key r = k"
  shows "sum_list (map g (update_where (\<lambda>r. key r = k) f t)) = sum_list (map g t) + (g (f r) - g r)"
  using assms
proof (induction t)
  case (Cons x t)
  show ?case
  proof (cases "r = x")
    case True
    with Cons.prems have "\<forall>y \<in> set t. key y \<noteq> k" by (auto simp: image_iff)
    then have "update_where (\<lambda>r. key r = k) f t = t" by (simp add: update_where_def map_idI)
    with True Cons.prems(3) show ?thesis by (simp add: update_where_def)
  next
    case False
    with Cons show ?thesis by (auto simp: update_where_def image_iff)
  qed
qed simp

lemma consumed_amount:
  assumes "staged_for bid a r"
  shows "sr_amountRecovered (consumed_row bid t a r) = sr_amountRecovered r + alloc_minor a"
    and "receivable_ok (consumed_row bid t a r)"
proof -
  from assms obtain k where k: "allocates r k a" "receivable_ok r" by (auto simp: staged_for_def)
  then have "to_dec (fl64 (ra_amountRecoveredAtPlan a + ra_amount a)) = Inr (sr_amountRecovered r + k)"
    using to_dec_sum [of "sr_amountRecovered r" k] by (simp add: allocates_def receivable_ok_def)
  with staged_sum [OF assms, of t] have eq: "sr_amountRecovered (consumed_row bid t a r) = sr_amountRecovered r + k" by simp
  then show "sr_amountRecovered (consumed_row bid t a r) = sr_amountRecovered r + alloc_minor a"
    using k by (simp add: allocates_minor)
  have "sr_amount (consumed_row bid t a r) = sr_amount r" by (simp add: consumed_row_def Let_def)
  with eq k show "receivable_ok (consumed_row bid t a r)" by (auto simp: receivable_ok_def allocates_def)
qed

lemma consume_total:
  assumes "distinct (map sr_id rows)" "distinct (map ra_receivableId as)"
    and "\<forall>a \<in> set as. \<exists>r \<in> set rows. staged_for bid a r" "\<forall>r \<in> set rows. receivable_ok r"
  shows "sum_list (map sr_amountRecovered (consume_rows bid t as rows)) = sum_list (map sr_amountRecovered rows) + sum_list (map alloc_minor as)
    \<and> (\<forall>r \<in> set (consume_rows bid t as rows). receivable_ok r)"
  using assms
proof (induction "as" arbitrary: rows)
  case Nil
  then show ?case by (simp add: consume_rows_def)
next
  case (Cons a "as")
  obtain r where r: "r \<in> set rows" "staged_for bid a r" using Cons.prems(3) by auto
  then have id: "sr_id r = ra_receivableId a" by (auto simp: staged_for_def allocates_def)
  let ?rows = "update_where (\<lambda>r. sr_id r = ra_receivableId a) (consumed_row bid t a) rows"
  have sum: "sum_list (map sr_amountRecovered ?rows) = sum_list (map sr_amountRecovered rows) + alloc_minor a"
    using sum_update_key [OF Cons.prems(1) r(1) id] consumed_amount(1) [OF r(2)] by simp
  have "receivable_ok r'" if "r' \<in> set ?rows" for r'
    using that Cons.prems(1,4) r id consumed_amount(2) [OF r(2)] by (auto simp: in_update_where dest: distinct_key_eq)
  moreover have "\<exists>r \<in> set ?rows. staged_for bid a' r" if "a' \<in> set as" for a'
  proof -
    from that Cons.prems(3) obtain r' where r': "r' \<in> set rows" "staged_for bid a' r'" by auto
    then have "sr_id r' = ra_receivableId a'" by (auto simp: staged_for_def allocates_def)
    then have "sr_id r' \<noteq> ra_receivableId a" using Cons.prems(2) that by auto (metis image_eqI)
    with r' show ?thesis by (auto intro!: bexI [of _ r'] in_update_key)
  qed
  moreover have "distinct (map sr_id ?rows)" using Cons.prems(1) by (simp add: map_update_key consumed_row_id)
  moreover have "distinct (map ra_receivableId as)" using Cons.prems(2) by simp
  ultimately have "sum_list (map sr_amountRecovered (consume_rows bid t as ?rows)) = sum_list (map sr_amountRecovered ?rows) + sum_list (map alloc_minor as)
    \<and> (\<forall>r \<in> set (consume_rows bid t as ?rows). receivable_ok r)" by (intro Cons.IH) blast+
  with sum show ?case by (simp add: consume_rows_Cons)
qed

text \<open>Staging leaves every allocated receivable as its consumption expects it.\<close>

lemma staged_after:
  assumes "r \<in> set rows" "recoverable r" "receivable_ok r" "allocates r k a" "ra_receivableId a \<in> K"
  shows "\<exists>r' \<in> set (update_where (\<lambda>r. sr_id r \<in> K) (staged_row bid) rows). staged_for bid a r'"
proof -
  have "staged_row bid r \<in> set (update_where (\<lambda>r. sr_id r \<in> K) (staged_row bid) rows)"
    using assms by (auto simp: in_update_where allocates_def)
  moreover have "staged_for bid a (staged_row bid r)"
    using assms by (auto simp: staged_for_def staged_row_def recoverable_def receivable_ok_def allocates_def)
  ultimately show ?thesis by blast
qed

lemma staged_total:
  "sum_list (map sr_amountRecovered (update_where p (staged_row bid) rows)) = sum_list (map sr_amountRecovered rows)"
  "(\<forall>r \<in> set rows. receivable_ok r) \<Longrightarrow> \<forall>r \<in> set (update_where p (staged_row bid) rows). receivable_ok r"
  "map sr_id (update_where p (staged_row bid) rows) = map sr_id rows"
  by (simp_all add: map_update_where staged_row_def receivable_ok_def in_update_where ball_conj_distrib split: if_splits)
     (auto simp: in_update_where staged_row_def receivable_ok_def)

definition recovered_total :: "db \<Rightarrow> int" where
  "recovered_total s = sum_list (map sr_amountRecovered (db_receivables s))"

section \<open>From assembly to the remittance\<close>

lemma member_ids_composition: "sb_composition b = composition_of refs items \<Longrightarrow> member_ids b = map si_id items"
  by (simp add: member_ids_def composition_of_def o_def)

lemma bound_in:
  "i \<in> set t \<Longrightarrow> si_id i \<in> K \<Longrightarrow> bound_row bid i \<in> set (update_where (\<lambda>r. si_id r \<in> K) (bound_row bid) t)"
  by (auto simp: in_update_where)

lemma assembled_settleable:
  assumes ready: "assembly_ready storeId currency c s" and ids: "distinct (map sb_id (db_batches s))"
    and fresh: "\<forall>b \<in> set (db_batches s). sb_id b \<noteq> nid \<and> sb_settlementReference b \<noteq> reference"
      "\<forall>r \<in> set (db_remittances s). rm_settlementId r \<noteq> nid \<and> rm_id r \<noteq> en_uuid e' 10"
  shows "\<exists>p b s1 as. plan_assembly storeId currency s s s = Inr p \<and> assembly_transaction e u p reference nid s = (Inr b, s1)
    \<and> settleable e' b as s1 \<and> sb_id b = nid \<and> sb_currency b = currency_str c \<and> sb_settlementReference b = reference
    \<and> member_ids b = map si_id (eligibleItems storeId currency s)
    \<and> sb_netAmount b = gross_of (eligibleItems storeId currency s) - sum_list (map alloc_minor as)
    \<and> 0 \<le> sb_netAmount b \<and> recovered_total s1 = recovered_total s
    \<and> (\<forall>r \<in> set (db_receivables s1). receivable_ok r) \<and> db_remittances s1 = db_remittances s
    \<and> map sr_id (db_receivables s1) = map sr_id (db_receivables s)
    \<and> db_batches s1 = db_batches s @ [b]
    \<and> db_items s1 = update_where (\<lambda>r. si_id r \<in> set (member_ids b)) (bound_row nid) (db_items s)"
proof -
  let ?items = "eligibleItems storeId currency s"
  from assembly_plans [OF ready] obtain p R where p: "plan_assembly storeId currency s s s = Inr p" "ap_items p = ?items"
    "ap_composition p = composition_of (occurrenceReferences (ap_items p) s) (ap_items p)"
    and R: "0 \<le> R" "R \<le> gross_of ?items" "R = sum_list (map alloc_minor (ap_allocation p))"
    and calc: "ap_calculation p = settlement_calculation c (gross_of ?items)
        (no_adjustments\<lparr> adj_receivableRecovery := Some (fromMinor R c) \<rparr>) (length (ap_items p))"
      "calc_netAmount (ap_calculation p) = fromMinor (gross_of ?items - R) c"
    and al: "distinct (map ra_receivableId (ap_allocation p))"
      "\<forall>a \<in> set (ap_allocation p). \<exists>r \<in> set (db_receivables s). recoverable r \<and> (\<exists>k. allocates r k a)"
    by auto
  have digits: "minorDigitsFor c = 2" using ready asCurrencyCode_2dp by (auto simp: assembly_ready_def)
  have bounds: "gross_of ?items < 10 ^ 12" "distinct (map si_id (db_items s))" "distinct (map sr_id (db_receivables s))"
    "\<forall>r \<in> set (db_receivables s). receivable_ok r" "\<forall>i \<in> set ?items. si_batchId i = None"
    using ready by (auto simp: assembly_ready_def)
  have items: "distinct (map si_id ?items)" "\<forall>i \<in> set ?items. i \<in> set (db_items s) \<and> si_state i = I_eligible \<and> si_batchId i = None"
    using eligible_distinct [OF bounds(2)] eligible_item bounds(5) by auto
  have dec: "to_dec (ln_merchantGross (calc_lines (ap_calculation p))) = Inr (gross_of ?items)"
    "to_dec (calc_netAmount (ap_calculation p)) = Inr (gross_of ?items - R)"
    "calc_currency (ap_calculation p) = currency_str c"
    using R bounds(1) digits unfolding calc(2) by (simp_all add: calc(1) settlement_calculation_def Let_def to_dec_fromMinor)
  from assembly_commits [where p = p and u = u and e = e, OF bounds(2,3) _ _ al dec fresh(1)] items p(2)
  obtain b lg au where b: "assembly_transaction e u p reference nid s = (Inr b,
      s\<lparr> db_batches := db_batches s @ [b],
         db_items := update_where (\<lambda>r. si_id r \<in> si_id ` set ?items) (bound_row nid) (db_items s),
         db_receivables := update_where (\<lambda>r. sr_id r \<in> ra_receivableId ` set (ap_allocation p)) (staged_row nid) (db_receivables s),
         db_ledger := lg, db_audit := au \<rparr>)"
    "sb_id b = nid" "sb_settlementReference b = reference" "sb_status b = B_ready" "sb_currency b = currency_str c"
    "sb_netAmount b = gross_of ?items - R"
    "sb_composition b = ap_composition p" "sb_recoveryAllocation b = Some (ap_allocation p)"
    by auto
  have mem: "member_ids b = map si_id ?items" using b(7) p(2,3) member_ids_composition by metis
  define s1 where "s1 = s\<lparr> db_batches := db_batches s @ [b],
         db_items := update_where (\<lambda>r. si_id r \<in> si_id ` set ?items) (bound_row nid) (db_items s),
         db_receivables := update_where (\<lambda>r. sr_id r \<in> ra_receivableId ` set (ap_allocation p)) (staged_row nid) (db_receivables s),
         db_ledger := lg, db_audit := au \<rparr>"
  have "\<exists>i \<in> set (db_items s1). si_id i = k \<and> si_batchId i = Some (sb_id b) \<and> si_state i = I_ready" if "k \<in> set (member_ids b)" for k
  proof -
    from that mem obtain i where i: "i \<in> set ?items" "si_id i = k" by auto
    with items(2) have "bound_row nid i \<in> set (db_items s1)" unfolding s1_def by (auto intro: bound_in)
    with i b(2) show ?thesis by (intro bexI [of _ "bound_row nid i"]) (simp_all add: bound_row_def)
  qed
  moreover have "distinct (map si_id (db_items s1))" using bounds(2) by (simp add: s1_def map_update_key bound_row_def)
  moreover have "distinct (map sb_id (db_batches s1))" using ids fresh(1) b(2) by (auto simp: s1_def)
  ultimately have "closable b s1" using b(4) items(1) mem by (simp add: closable_def s1_def)
  moreover have "\<forall>a \<in> set (ap_allocation p). \<exists>r \<in> set (db_receivables s1). staged_for nid a r"
    using al(2) bounds(4) by (fastforce simp: s1_def intro: staged_after)
  ultimately have "settleable e' b (ap_allocation p) s1"
    using b(2,5,8) al(1) bounds(3) fresh(2) by (simp add: settleable_def s1_def staged_total(3) ledger_currency_str)
  moreover have "recovered_total s1 = recovered_total s" "map sr_id (db_receivables s1) = map sr_id (db_receivables s)"
    by (simp_all add: recovered_total_def s1_def staged_total)
  moreover have "\<forall>r \<in> set (db_receivables s1). receivable_ok r"
    using staged_total(2) [OF bounds(4)] by (simp add: s1_def)
  moreover have "assembly_transaction e u p reference nid s = (Inr b, s1)" using b(1) by (simp add: s1_def)
  ultimately show ?thesis
    using p(1) b(2,3,5,6) R mem by (intro exI [of _ p] exI [of _ b] exI [of _ s1] exI [of _ "ap_allocation p"])
      (simp add: s1_def)
qed

section \<open>Properties\<close>

text \<open>
  C4: money conservation from assembly to payout. On a database where nothing contends, a
  store with eligible items can always be assembled and the batch settled; afterwards the
  remittance together with what was recovered on the store's receivables is exactly the total
  of the eligible items, the payout is never negative, no receivable is over-recovered, and
  every one of the items is settled under the new batch.
\<close>

theorem assembly_to_remittance_conserves:
  assumes "assembly_ready storeId currency c s" and "distinct (map sb_id (db_batches s))"
    and "\<forall>b \<in> set (db_batches s). sb_id b \<noteq> nid \<and> sb_settlementReference b \<noteq> reference"
    and "\<forall>r \<in> set (db_remittances s). rm_settlementId r \<noteq> nid \<and> rm_id r \<noteq> en_uuid e' 10"
  shows "\<exists>p b s1 r s2. plan_assembly storeId currency s s s = Inr p
    \<and> assembly_transaction e u p reference nid s = (Inr b, s1)
    \<and> settle_transaction e' u' b evidence s1 = (Inr r, s2)
    \<and> rm_amount r + (recovered_total s2 - recovered_total s) = gross_of (eligibleItems storeId currency s)
    \<and> 0 \<le> rm_amount r \<and> db_remittances s2 = db_remittances s @ [r]
    \<and> (\<forall>q \<in> set (db_receivables s2). 0 \<le> sr_amountRecovered q \<and> sr_amountRecovered q \<le> sr_amount q)
    \<and> (\<forall>i \<in> set (eligibleItems storeId currency s).
         i\<lparr> si_batchId := Some nid, si_state := I_settled \<rparr> \<in> set (db_items s2))"
proof -
  let ?items = "eligibleItems storeId currency s"
  from assembled_settleable [OF assms, of e u] obtain p b s1 as where
    p: "plan_assembly storeId currency s s s = Inr p" "assembly_transaction e u p reference nid s = (Inr b, s1)"
    and st: "settleable e' b as s1" "sb_id b = nid" "member_ids b = map si_id ?items"
    and net: "sb_netAmount b = gross_of ?items - sum_list (map alloc_minor as)" "0 \<le> sb_netAmount b"
    and rec: "recovered_total s1 = recovered_total s" "\<forall>r \<in> set (db_receivables s1). receivable_ok r"
    and tabs: "db_remittances s1 = db_remittances s"
      "db_items s1 = update_where (\<lambda>r. si_id r \<in> set (member_ids b)) (bound_row nid) (db_items s)"
    by blast
  from settle_commits [OF st(1), of u' evidence] obtain s2 where
    s2: "settle_transaction e' u' b evidence s1 = (Inr (new_remittance e' b evidence), s2)"
    "db_items s2 = update_where (\<lambda>i. si_id i \<in> set (member_ids b) \<and> si_batchId i = Some (sb_id b) \<and> si_state i = I_ready)
         settled_row (db_items s1)"
    "db_remittances s2 = db_remittances s1 @ [new_remittance e' b evidence]"
    "db_receivables s2 = consume_rows (sb_id b) (ev_executedAt evidence) as (db_receivables s1)"
    by fastforce
  have "recovered_total s2 = recovered_total s1 + sum_list (map alloc_minor as)
    \<and> (\<forall>r \<in> set (db_receivables s2). receivable_ok r)"
    unfolding recovered_total_def s2(4) using st(1) rec(2) by (intro consume_total) (simp_all add: settleable_def)
  then have "rm_amount (new_remittance e' b evidence) + (recovered_total s2 - recovered_total s) = gross_of ?items"
    "\<forall>q \<in> set (db_receivables s2). 0 \<le> sr_amountRecovered q \<and> sr_amountRecovered q \<le> sr_amount q"
    using net(1) rec(1) by (auto simp: new_remittance_def receivable_ok_def)
  moreover have "i\<lparr> si_batchId := Some nid, si_state := I_settled \<rparr> \<in> set (db_items s2)" if "i \<in> set ?items" for i
  proof -
    have "bound_row nid i \<in> set (db_items s1)"
      using that eligible_item [OF that] st(3) by (simp add: tabs(2)) (rule bound_in, auto)
    then have "settled_row (bound_row nid i) \<in> set (db_items s2)"
      using that st(2,3) by (auto simp: s2(2) in_update_where bound_row_def intro!: bexI [of _ "bound_row nid i"])
    then show ?thesis by (simp add: settled_row_def bound_row_def)
  qed
  ultimately show ?thesis
    using p s2(1,3) net(2) tabs(1) by (intro exI [of _ p] exI [of _ b] exI [of _ s1] exI [of _ "new_remittance e' b evidence"] exI [of _ s2])
      (simp add: new_remittance_def)
qed

text \<open>A small database for the witnesses: two stores with an item each, one with a debt.\<close>

definition demo_item :: "string \<Rightarrow> string \<Rightarrow> int \<Rightarrow> SettlementItem" where
  "demo_item k store amount =
     \<lparr> si_id = k, si_occurrenceType = ''gift'', si_occurrenceId = k, si_storeId = store,
       si_currency = ''SAR'', si_amount = amount, si_state = I_eligible, si_batchId = None,
       si_holdType = None, si_holdEvidence = None, si_createdAt = 0 \<rparr>"

definition demo_receivable :: SettlementReceivable where
  "demo_receivable =
     \<lparr> sr_id = ''r1'', sr_storeId = ''A'', sr_currency = ''SAR'', sr_amount = 3000,
       sr_occurrenceType = ''refund'', sr_occurrenceId = ''f1'', sr_state = R_open,
       sr_amountRecovered = 0, sr_stagedBySettlementId = None, sr_accruedAt = 0,
       sr_recoveredAt = None, sr_recoveredBySettlementId = None \<rparr>"

definition demo_db :: db where
  "demo_db =
     \<lparr> db_items = [demo_item ''i1'' ''A'' 10050, demo_item ''i2'' ''B'' 2000], db_batches = [],
       db_receivables = [demo_receivable], db_remittances = [], db_approvals = [], db_previews = [],
       db_statements = [], db_signatures = [], db_replays = [], db_receipts = [], db_corporate = [],
       db_merchant = [], db_refunds = [], db_refundRequests = [], db_sequences = [], db_creditNotes = [], db_creditNoteVersions = [],
       db_campaigns = [], db_claims = [], db_stores = [], db_attestations = [], db_reconciliations = [], db_transfers = [],
       db_ledger = [], db_audit = [] \<rparr>"

definition demo_env :: "string \<Rightarrow> env" where
  "demo_env k = \<lparr> clk = (\<lambda>_. 0), en_dbNow = 0, en_uuid = (\<lambda>_. k), en_draw = (\<lambda>_ _ _. 0),
     en_gates = None, en_seniors = None, en_sha = (\<lambda>x. x), en_ledgerStamp = (\<lambda>n. ([], 0)) \<rparr>"

definition demo_evidence :: SettleEvidence where
  "demo_evidence = \<lparr> ev_bankTransferReference = ''T1'', ev_executedAt = 0, ev_executedBy = ''u2'' \<rparr>"

lemma sar_code: "asCurrencyCode ''SAR'' = Inr SAR" "js_upper ''SAR'' = ''SAR''"
  by code_simp+

lemma demo_eligible: "eligibleItems ''A'' ''SAR'' demo_db = [demo_item ''i1'' ''A'' 10050]"
  "eligibleItems ''B'' ''SAR'' demo_db = [demo_item ''i2'' ''B'' 2000]"
  by (simp_all add: eligibleItems_def demo_db_def demo_item_def sar_code order_by_def)

lemma demo_ready: "assembly_ready ''A'' ''SAR'' SAR demo_db"
  by (simp add: assembly_ready_def demo_eligible sar_code gross_of_def)
     (simp add: demo_db_def demo_item_def demo_receivable_def receivable_ok_def)

lemma assembly_to_remittance_conserves_witness:
  "\<exists>p b s1 r s2. plan_assembly ''A'' ''SAR'' demo_db demo_db demo_db = Inr p
    \<and> assembly_transaction (demo_env ''x'') ''u1'' p ''QS-1'' ''b1'' demo_db = (Inr b, s1)
    \<and> settle_transaction (demo_env ''m1'') ''u2'' b demo_evidence s1 = (Inr r, s2)
    \<and> rm_amount r + recovered_total s2 = 10050"
proof -
  have "distinct (map sb_id (db_batches demo_db))"
    "\<forall>b \<in> set (db_batches demo_db). sb_id b \<noteq> ''b1'' \<and> sb_settlementReference b \<noteq> ''QS-1''"
    "\<forall>r \<in> set (db_remittances demo_db). rm_settlementId r \<noteq> ''b1'' \<and> rm_id r \<noteq> en_uuid (demo_env ''m1'') 10"
    by (simp_all add: demo_db_def)
  from assembly_to_remittance_conserves [OF demo_ready this, of "demo_env ''x''" "''u1''" "''u2''" demo_evidence]
  obtain p b s1 r s2 where "plan_assembly ''A'' ''SAR'' demo_db demo_db demo_db = Inr p"
    "assembly_transaction (demo_env ''x'') ''u1'' p ''QS-1'' ''b1'' demo_db = (Inr b, s1)"
    "settle_transaction (demo_env ''m1'') ''u2'' b demo_evidence s1 = (Inr r, s2)"
    "rm_amount r + (recovered_total s2 - recovered_total demo_db) = gross_of (eligibleItems ''A'' ''SAR'' demo_db)" by blast
  moreover have "recovered_total demo_db = 0" by (simp add: recovered_total_def demo_db_def demo_receivable_def)
  moreover have "gross_of (eligibleItems ''A'' ''SAR'' demo_db) = 10050" by (simp add: demo_eligible gross_of_def demo_item_def)
  ultimately show ?thesis by (intro exI [of _ p] exI [of _ b] exI [of _ s1] exI [of _ r] exI [of _ s2]) simp
qed

end
