(* ===== verification/Receipts.thy ===== *)
theory Receipts
  imports Database
begin

text \<open>
  Invoice receipts and coverage (\<open>src/src/settlement/settlement-receipts.service.ts\<close>):
  recording a bank receipt against an invoice, deriving the invoice's payment status from its
  receipts and credits, and the artifacts of a paid invoice. A serializable transaction is a
  program that runs on its own; the retry after a serialization failure is therefore the
  identity.
\<close>

section \<open>Types\<close>

definition REVENUE_RECOGNITION_POLICY :: string where
  "REVENUE_RECOGNITION_POLICY = ''on_full_payment@pilot-v1''"

definition corporate_type :: string where "corporate_type = ''corporate_invoice''"

definition merchant_type :: string where "merchant_type = ''merchant_invoice''"

definition INVOICE_TYPES :: "string list" where
  "INVOICE_TYPES = [corporate_type, merchant_type]"

record RecordReceiptInput =
  ri_invoiceType :: string
  ri_invoiceId :: string
  ri_amount :: js_number
  ri_currency :: "string option"
  ri_bankReference :: string
  ri_receivedAt :: "instant option"
  ri_rail :: "string option"

record InvoiceFacts =
  if_id :: string
  if_status :: string
  if_totalAmount :: rat
  if_orgId :: string
  if_campaignId :: string
  if_storeId :: "string option"
  if_platformFeeAmount :: "rat option"
  if_invoiceNumber :: "string option"

record Coverage =
  cov_invoiceType :: string
  cov_invoiceId :: string
  cov_totalAmount :: rat
  cov_creditedAmount :: rat
  cov_receiptCount :: nat
  cov_amountReceived :: rat
  cov_balance :: rat
  cov_covered :: bool
  cov_paymentStatus :: string
  cov_balanceStatus :: string
  cov_status :: string

section \<open>Reads\<close>

definition receipt_gates_open :: "env \<Rightarrow> unit res" where
  "receipt_gates_open e = check (en_gates e = Some ''true'') (Conflict ''financial_gates_not_attested'')"

definition assertSar :: "string \<Rightarrow> unit res" where
  "assertSar currency = check (currency = ''SAR'') (BadRequest ''receipt_invoice_currency_unsupported'')"

definition loadInvoice :: "string \<Rightarrow> string \<Rightarrow> db \<Rightarrow> InvoiceFacts res" where
  "loadInvoice invoiceType invoiceId s =
     (if invoiceType = merchant_type
      then (case find (\<lambda>v. mi_id v = invoiceId) (db_merchant s) of
              None \<Rightarrow> Inl (NotFound ''invoice_not_found'')
            | Some v \<Rightarrow> bindr (assertSar (mi_currency v)) (\<lambda>_.
                Inr \<lparr> if_id = mi_id v, if_status = mi_status v,
                      if_totalAmount = moneyToNumber (MoneyDecimal (mi_totalAmount v)),
                      if_orgId = mi_orgId v, if_campaignId = mi_campaignId v,
                      if_storeId = Some (mi_storeId v), if_platformFeeAmount = None,
                      if_invoiceNumber = mi_merchantInvoiceNumber v \<rparr>))
      else (case find (\<lambda>v. ci_id v = invoiceId) (db_corporate s) of
              None \<Rightarrow> Inl (NotFound ''invoice_not_found'')
            | Some v \<Rightarrow> bindr (assertSar (ci_currency v)) (\<lambda>_.
                Inr \<lparr> if_id = ci_id v, if_status = ci_status v,
                      if_totalAmount = moneyToNumber (MoneyDecimal (ci_totalAmount v)),
                      if_orgId = ci_orgId v, if_campaignId = ci_campaignId v,
                      if_storeId = None,
                      if_platformFeeAmount = Some (moneyToNumber (MoneyDecimal (ci_platformFeeAmount v))),
                      if_invoiceNumber = Some (ci_invoiceNumber v) \<rparr>)))"

definition receipts_of :: "string \<Rightarrow> string \<Rightarrow> db \<Rightarrow> PaymentReceipt list" where
  "receipts_of invoiceType invoiceId s =
     filter (\<lambda>r. pr_invoiceType r = invoiceType \<and> pr_invoiceId r = invoiceId) (db_receipts s)"

definition receipts_minor :: "PaymentReceipt list \<Rightarrow> int" where
  "receipts_minor rs = sum_list (map (\<lambda>r. to_minor (moneyToNumber (MoneyDecimal (pr_amount r))) SAR) rs)"

definition receiptTotalMinor :: "string \<Rightarrow> string \<Rightarrow> db \<Rightarrow> int" where
  "receiptTotalMinor invoiceType invoiceId s = receipts_minor (receipts_of invoiceType invoiceId s)"

definition fee_credits :: "string \<Rightarrow> db \<Rightarrow> SettlementRefund list" where
  "fee_credits invoiceId s =
     filter (\<lambda>r. rf_invoiceType r = corporate_type \<and> rf_invoiceId r = invoiceId
        \<and> rf_settlementInteraction r = ''invoice_reduced'') (db_refunds s)"

definition feeCreditsMinor :: "string \<Rightarrow> string \<Rightarrow> db \<Rightarrow> int" where
  "feeCreditsMinor invoiceType invoiceId s =
     (if invoiceType \<noteq> corporate_type then 0
      else sum_list (map (\<lambda>r. to_minor (moneyToNumber (MoneyDecimal (rf_amount r))) SAR) (fee_credits invoiceId s)))"

section \<open>Coverage\<close>

definition target_type :: "string \<Rightarrow> string" where
  "target_type invoiceType = (if invoiceType = merchant_type then ''store'' else ''organization'')"

definition target_id :: "string \<Rightarrow> InvoiceFacts \<Rightarrow> string option" where
  "target_id invoiceType v = (if invoiceType = merchant_type then if_storeId v else Some (if_orgId v))"

definition item_clash :: "SettlementItem \<Rightarrow> SettlementItem \<Rightarrow> bool" where
  "item_clash i i' \<longleftrightarrow> si_id i' = si_id i
     \<or> si_occurrenceType i' = si_occurrenceType i \<and> si_occurrenceId i' = si_occurrenceId i"

definition ensureCoverageArtifacts :: "env \<Rightarrow> string \<Rightarrow> string \<Rightarrow> InvoiceFacts \<Rightarrow> (db, unit) prog" where
  "ensureCoverageArtifacts e actorUserId invoiceType v =
     (if invoiceType = corporate_type
      then
        seq (reads (fee_credits (if_id v))) (\<lambda>credits.
        let creditedNetMinor = sum_list (map (\<lambda>r. to_minor (moneyToNumber (MoneyDecimal (rf_amount r))) SAR
              - to_minor (moneyToNumber (MoneyDecimal (rf_vatComponent r))) SAR) credits);
            fee = (case if_platformFeeAmount v of None \<Rightarrow> 0 | Some x \<Rightarrow> x);
            feeNet = fromMinor (max 0 (to_minor fee SAR - creditedNetMinor)) SAR in
        if 0 < feeNet
        then seq (ledger_record ((ledger_base QIFT_REVENUE_RECOGNIZED ''QIFT_REVENUE'' actorUserId (Fin feeNet) ''SAR'' ''credit'')
               \<lparr> li_counterpartyType := Some ''company'', li_campaignId := Some (if_campaignId v),
                 li_orgId := Some (if_orgId v),
                 li_idempotencyKey := Some (ledgerIdempotencyKey QIFT_REVENUE_RECOGNIZED (if_id v)),
                 li_metadata := Some (JObj
                   [(''invoiceId'', JStr (if_id v)), (''invoiceNumber'', jopt (if_invoiceNumber v)),
                    (''recognitionPolicy'', JStr REVENUE_RECOGNITION_POLICY)]) \<rparr>)) (\<lambda>_. ret ())
        else ret ())
      else case if_storeId v of
        None \<Rightarrow> ret ()
      | Some storeId \<Rightarrow>
          if storeId = [] then ret ()
          else
          attempt
            (seq (lift (to_dec (if_totalAmount v))) (\<lambda>amount.
             seq (create db_items db_items_update item_clash
                   \<lparr> si_id = en_uuid e 1, si_occurrenceType = merchant_type, si_occurrenceId = if_id v,
                     si_storeId = storeId, si_currency = ''SAR'', si_amount = amount,
                     si_state = I_pending, si_batchId = None, si_holdType = None,
                     si_holdEvidence = None, si_createdAt = en_dbNow e \<rparr>) (\<lambda>item.
             audit_record (audit_input actorUserId ''settlement.item.created'' ''store'' (Some storeId)
                   [(''settlementItemId'', JStr (si_id item)), (''occurrenceType'', JStr merchant_type),
                    (''occurrenceId'', JStr (if_id v)), (''invoiceNumber'', jopt (if_invoiceNumber v)),
                    (''amount'', JNum (if_totalAmount v)), (''state'', JStr ''pending'')]))))
            (\<lambda>ex. case ex of P2002 c \<Rightarrow> ret () | _ \<Rightarrow> raise ex))"

text \<open>The derived position of an invoice.\<close>

record Position =
  ps_paidMinor :: int
  ps_creditsMinor :: int
  ps_totalMinor :: int
  ps_coveredByPayment :: bool
  ps_coveredByCredit :: bool

definition position_of :: "string \<Rightarrow> string \<Rightarrow> InvoiceFacts \<Rightarrow> PaymentReceipt list \<Rightarrow> db \<Rightarrow> Position" where
  "position_of invoiceType invoiceId v receipts s =
     (let paidMinor = receipts_minor receipts;
          creditsMinor = feeCreditsMinor invoiceType invoiceId s;
          totalMinor = to_minor (if_totalAmount v) SAR - creditsMinor;
          coveredByPayment = (receipts \<noteq> [] \<and> paidMinor \<ge> totalMinor)
      in \<lparr> ps_paidMinor = paidMinor, ps_creditsMinor = creditsMinor, ps_totalMinor = totalMinor,
           ps_coveredByPayment = coveredByPayment,
           ps_coveredByCredit = (\<not> coveredByPayment \<and> totalMinor \<le> 0 \<and> creditsMinor > 0) \<rparr>)"

definition payment_status :: "Position \<Rightarrow> string" where
  "payment_status p = (if ps_paidMinor p \<le> 0 then ''unpaid''
     else if ps_coveredByPayment p then ''paid'' else ''partially_paid'')"

definition balance_status :: "Position \<Rightarrow> string" where
  "balance_status p = (if ps_coveredByPayment p then ''closed_by_payment''
     else if ps_coveredByCredit p then ''closed_by_credit''
     else if ps_creditsMinor p > 0 then ''partially_credited'' else ''open'')"

definition coverage_of :: "string \<Rightarrow> string \<Rightarrow> InvoiceFacts \<Rightarrow> PaymentReceipt list \<Rightarrow> Position \<Rightarrow> Coverage" where
  "coverage_of invoiceType invoiceId v receipts p =
     \<lparr> cov_invoiceType = invoiceType, cov_invoiceId = invoiceId,
       cov_totalAmount = fromMinor (ps_totalMinor p) SAR,
       cov_creditedAmount = fromMinor (ps_creditsMinor p) SAR,
       cov_receiptCount = length receipts,
       cov_amountReceived = fromMinor (ps_paidMinor p) SAR,
       cov_balance = fromMinor (ps_totalMinor p - ps_paidMinor p) SAR,
       cov_covered = ps_coveredByPayment p, cov_paymentStatus = payment_status p,
       cov_balanceStatus = balance_status p, cov_status = if_status v \<rparr>"

definition close_by_credit ::
  "string \<Rightarrow> string \<Rightarrow> InvoiceFacts \<Rightarrow> Position \<Rightarrow> (db, unit) prog"
where
  "close_by_credit actorUserId invoiceId v p =
     seq (updateMany db_corporate db_corporate_update
           (\<lambda>c. ci_id c = invoiceId \<and> ci_status c = ''issued'' \<and> ci_balanceStatus c \<noteq> ''closed_by_credit'')
           (\<lambda>c. c\<lparr> ci_balanceStatus := ''closed_by_credit'' \<rparr>)) (\<lambda>closed.
     if closed = 1
     then audit_guaranteed (audit_input actorUserId ''finance.invoice.closed_by_credit'' ''organization''
            (Some (if_orgId v))
            [(''invoiceId'', JStr invoiceId), (''invoiceNumber'', jopt (if_invoiceNumber v)),
             (''creditedAmount'', JNum (fromMinor (ps_creditsMinor p) SAR)),
             (''amountReceived'', JNum (fromMinor (ps_paidMinor p) SAR))])
            (''finance.invoice.closed_by_credit:'' @ invoiceId)
     else ret ())"

definition paid_audit ::
  "string \<Rightarrow> string \<Rightarrow> string \<Rightarrow> InvoiceFacts \<Rightarrow> Coverage \<Rightarrow> string \<times> json \<Rightarrow> (db, unit) prog"
where
  "paid_audit actorUserId invoiceType invoiceId v result extra =
     audit_guaranteed (audit_input actorUserId ''finance.invoice.paid'' (target_type invoiceType)
         (target_id invoiceType v)
         [(''invoiceType'', JStr invoiceType), (''invoiceId'', JStr invoiceId),
          (''invoiceNumber'', jopt (if_invoiceNumber v)), (''totalAmount'', JNum (cov_totalAmount result)),
          (''receiptCount'', JNum (of_nat (cov_receiptCount result))), extra])
       (''finance.invoice.paid:'' @ invoiceType @ '':'' @ invoiceId)"

definition flip_paid :: "string \<Rightarrow> string \<Rightarrow> instant \<Rightarrow> (db, nat) prog" where
  "flip_paid invoiceType invoiceId paidAt =
     (if invoiceType = merchant_type
      then updateMany db_merchant db_merchant_update
             (\<lambda>m. mi_id m = invoiceId \<and> mi_status m = ''issued'')
             (\<lambda>m. m\<lparr> mi_status := ''paid'', mi_paidAt := Some paidAt \<rparr>)
      else updateMany db_corporate db_corporate_update
             (\<lambda>c. ci_id c = invoiceId \<and> ci_status c = ''issued'')
             (\<lambda>c. c\<lparr> ci_status := ''paid'', ci_paidAt := Some paidAt,
                     ci_balanceStatus := ''closed_by_payment'' \<rparr>))"

text \<open>The healing lane of an invoice that already reads as paid.\<close>

definition heal_paid ::
  "env \<Rightarrow> string \<Rightarrow> string \<Rightarrow> string \<Rightarrow> InvoiceFacts \<Rightarrow> Coverage \<Rightarrow> (db, Coverage) prog"
where
  "heal_paid e actorUserId invoiceType invoiceId v result =
     seq (ensureCoverageArtifacts e actorUserId invoiceType v) (\<lambda>_.
     seq (paid_audit actorUserId invoiceType invoiceId v result (''healed'', JBool True)) (\<lambda>_.
     seq (if invoiceType = corporate_type
          then updateMany db_corporate db_corporate_update
                 (\<lambda>c. ci_id c = invoiceId \<and> ci_status c = ''paid'' \<and> ci_balanceStatus c = ''open'')
                 (\<lambda>c. c\<lparr> ci_balanceStatus := ''closed_by_payment'' \<rparr>)
          else ret 0) (\<lambda>_.
     ret (result\<lparr> cov_status := ''paid'', cov_balanceStatus := ''closed_by_payment'' \<rparr>))))"

definition deriveAndApplyCoverage :: "env \<Rightarrow> string \<Rightarrow> string \<Rightarrow> string \<Rightarrow> (db, Coverage) prog" where
  "deriveAndApplyCoverage e actorUserId invoiceType invoiceId =
     seq (reads (loadInvoice invoiceType invoiceId)) (\<lambda>loaded.
     seq (lift loaded) (\<lambda>v.
     seq (reads (\<lambda>s. order_by (\<lambda>r. (pr_receivedAt r, pr_id r)) (receipts_of invoiceType invoiceId s))) (\<lambda>receipts.
     seq (reads (position_of invoiceType invoiceId v receipts)) (\<lambda>p.
     let result = coverage_of invoiceType invoiceId v receipts p in
     if invoiceType = corporate_type \<and> balance_status p \<noteq> ''open'' \<and> ps_coveredByCredit p
     then seq (close_by_credit actorUserId invoiceId v p) (\<lambda>_. ret result)
     else
     seq (if invoiceType = corporate_type \<and> balance_status p = ''partially_credited''
          then updateMany db_corporate db_corporate_update
                 (\<lambda>c. ci_id c = invoiceId \<and> ci_balanceStatus c = ''open'')
                 (\<lambda>c. c\<lparr> ci_balanceStatus := ''partially_credited'' \<rparr>)
          else ret 0) (\<lambda>_.
     if \<not> ps_coveredByPayment p \<or> if_status v = ''paid''
     then (if if_status v = ''paid'' then heal_paid e actorUserId invoiceType invoiceId v result else ret result)
     else
     let paidAt = pr_receivedAt (last receipts) in
     seq (flip_paid invoiceType invoiceId paidAt) (\<lambda>flipped.
     seq (if flipped = 1
          then paid_audit actorUserId invoiceType invoiceId v result (''paidAt'', JStr (toISOString paidAt))
          else ret ()) (\<lambda>_.
     seq (ensureCoverageArtifacts e actorUserId invoiceType v) (\<lambda>_.
     ret (result\<lparr> cov_status := ''paid'' \<rparr>)))))))))"

section \<open>Recording a receipt\<close>

datatype ReceiptLanding = Landed PaymentReceipt InvoiceFacts | Existing PaymentReceipt InvoiceFacts

definition receipt_clash :: "PaymentReceipt \<Rightarrow> PaymentReceipt \<Rightarrow> bool" where
  "receipt_clash r r' \<longleftrightarrow> pr_id r' = pr_id r
     \<or> pr_invoiceType r' = pr_invoiceType r \<and> pr_invoiceId r' = pr_invoiceId r
       \<and> pr_bankReference r' = pr_bankReference r"

definition find_receipt :: "string \<Rightarrow> string \<Rightarrow> string \<Rightarrow> db \<Rightarrow> PaymentReceipt option" where
  "find_receipt invoiceType invoiceId bankReference s =
     find (\<lambda>r. pr_invoiceType r = invoiceType \<and> pr_invoiceId r = invoiceId \<and> pr_bankReference r = bankReference)
       (db_receipts s)"

definition receipt_ledger ::
  "string \<Rightarrow> string \<Rightarrow> InvoiceFacts \<Rightarrow> PaymentReceipt \<Rightarrow> rat \<Rightarrow> (db, unit) prog"
where
  "receipt_ledger actorUserId invoiceType v created amount =
     seq (ledger_record ((ledger_base INVOICE_PAYMENT_RECEIVED ''INVOICE_PAYMENT'' actorUserId (Fin amount) ''SAR'' ''credit'')
            \<lparr> li_campaignId := Some (if_campaignId v), li_orgId := Some (if_orgId v), li_storeId := if_storeId v,
              li_idempotencyKey := Some (ledgerIdempotencyKey INVOICE_PAYMENT_RECEIVED (pr_id created)),
              li_metadata := Some (JObj
                [(''invoiceType'', JStr invoiceType), (''invoiceId'', JStr (if_id v)),
                 (''invoiceNumber'', jopt (if_invoiceNumber v)), (''bankReference'', JStr (pr_bankReference created)),
                 (''rail'', JStr (pr_rail created)),
                 (''account'', JStr (if invoiceType = merchant_type then ''safeguarding'' else ''operating''))]) \<rparr>)) (\<lambda>_.
     if invoiceType = merchant_type
     then seq (ledger_record ((ledger_base MERCHANT_PAYABLE_ACCRUED ''MERCHANT_PAYABLE'' actorUserId (Fin amount) ''SAR'' ''debit'')
            \<lparr> li_counterpartyType := Some ''merchant'', li_campaignId := Some (if_campaignId v),
              li_orgId := Some (if_orgId v), li_storeId := if_storeId v,
              li_idempotencyKey := Some (ledgerIdempotencyKey MERCHANT_PAYABLE_ACCRUED (pr_id created)),
              li_metadata := Some (JObj
                [(''invoiceId'', JStr (if_id v)), (''invoiceNumber'', jopt (if_invoiceNumber v)),
                 (''passThrough'', JBool True)]) \<rparr>)) (\<lambda>_. ret ())
     else ret ())"

definition receipt_transaction ::
  "env \<Rightarrow> string \<Rightarrow> RecordReceiptInput \<Rightarrow> string \<Rightarrow> instant \<Rightarrow> int \<Rightarrow> (db, ReceiptLanding) prog"
where
  "receipt_transaction e actorUserId input bankReference receivedAt amountMinor =
     (let invoiceType = ri_invoiceType input; amount = fromMinor amountMinor SAR in
      transaction (
        seq (reads (loadInvoice invoiceType (ri_invoiceId input))) (\<lambda>loaded.
        seq (lift loaded) (\<lambda>v.
        seq (reads (find_receipt invoiceType (if_id v) bankReference)) (\<lambda>existing.
        case existing of
          Some r \<Rightarrow> ret (Existing r v)
        | None \<Rightarrow>
          seq (require (if_status v = ''issued'')
                (BadRequest (''receipt_invoice_not_receivable:'' @ if_status v))) (\<lambda>_.
          seq (reads (\<lambda>s. (receiptTotalMinor invoiceType (if_id v) s,
                           to_minor (if_totalAmount v) SAR - feeCreditsMinor invoiceType (if_id v) s))) (\<lambda>(already, totalMinor).
          seq (require (already + amountMinor \<le> totalMinor) (Conflict ''receipt_exceeds_invoice_balance'')) (\<lambda>_.
          seq (lift (to_dec amount)) (\<lambda>amountDec.
          seq (create db_receipts db_receipts_update receipt_clash
                \<lparr> pr_id = en_uuid e 0, pr_invoiceType = invoiceType, pr_invoiceId = if_id v,
                  pr_orgId = Some (if_orgId v), pr_campaignId = Some (if_campaignId v),
                  pr_storeId = if_storeId v, pr_amount = amountDec, pr_currency = ''SAR'',
                  pr_rail = (case ri_rail input of None \<Rightarrow> ''manual_bank_transfer'' | Some x \<Rightarrow> x),
                  pr_bankReference = bankReference, pr_receivedAt = receivedAt,
                  pr_recordedBy = actorUserId \<rparr>) (\<lambda>created.
          seq (receipt_ledger actorUserId invoiceType v created amount) (\<lambda>_.
          ret (Landed created v))))))))))))"

definition receipt_matches :: "PaymentReceipt \<Rightarrow> int \<Rightarrow> instant \<Rightarrow> bool" where
  "receipt_matches r amountMinor receivedAt \<longleftrightarrow>
     to_minor (moneyToNumber (MoneyDecimal (pr_amount r))) SAR = amountMinor \<and> pr_receivedAt r = receivedAt"

definition receipt_audit ::
  "string \<Rightarrow> string \<Rightarrow> InvoiceFacts \<Rightarrow> PaymentReceipt \<Rightarrow> rat \<Rightarrow> string \<Rightarrow> (db, unit) prog"
where
  "receipt_audit actorUserId invoiceType v receipt amount bankReference =
     audit_guaranteed (audit_input actorUserId ''finance.receipt.recorded'' (target_type invoiceType)
         (target_id invoiceType v)
         [(''receiptId'', JStr (pr_id receipt)), (''invoiceType'', JStr invoiceType),
          (''invoiceId'', JStr (if_id v)), (''invoiceNumber'', jopt (if_invoiceNumber v)),
          (''amount'', JNum amount), (''currency'', JStr ''SAR''),
          (''bankReference'', JStr bankReference), (''rail'', JStr (pr_rail receipt))])
       (''finance.receipt.recorded:'' @ pr_id receipt)"

record ReceiptResult =
  rc_receipt :: PaymentReceipt
  rc_replayed :: bool
  rc_coverage :: Coverage

definition land_receipt ::
  "env \<Rightarrow> string \<Rightarrow> RecordReceiptInput \<Rightarrow> string \<Rightarrow> instant \<Rightarrow> int
    \<Rightarrow> (db, ReceiptResult + PaymentReceipt \<times> InvoiceFacts) prog"
where
  "land_receipt e actorUserId input bankReference receivedAt amountMinor =
     (let invoiceType = ri_invoiceType input; amount = fromMinor amountMinor SAR in
      attempt
        (seq (receipt_transaction e actorUserId input bankReference receivedAt amountMinor) (\<lambda>landing.
         case landing of
           Landed r v \<Rightarrow> ret (Inr (r, v))
         | Existing r v \<Rightarrow>
             seq (require (receipt_matches r amountMinor receivedAt) (Conflict ''receipt_reference_conflict'')) (\<lambda>_.
             seq (deriveAndApplyCoverage e actorUserId invoiceType (ri_invoiceId input)) (\<lambda>cov.
             ret (Inl \<lparr> rc_receipt = r, rc_replayed = True, rc_coverage = cov \<rparr>)))))
        (\<lambda>ex. case ex of
           P2002 c \<Rightarrow>
             seq (reads (find_receipt invoiceType (ri_invoiceId input) bankReference)) (\<lambda>existing.
             case existing of
               None \<Rightarrow> raise ex
             | Some r \<Rightarrow>
                 seq (require (receipt_matches r amountMinor receivedAt) (Conflict ''receipt_reference_conflict'')) (\<lambda>_.
                 seq (reads (loadInvoice invoiceType (ri_invoiceId input))) (\<lambda>loaded.
                 seq (lift loaded) (\<lambda>v.
                 seq (receipt_audit actorUserId invoiceType v r amount bankReference) (\<lambda>_.
                 seq (deriveAndApplyCoverage e actorUserId invoiceType (ri_invoiceId input)) (\<lambda>cov.
                 ret (Inl \<lparr> rc_receipt = r, rc_replayed = True, rc_coverage = cov \<rparr>)))))))
         | _ \<Rightarrow> raise ex))"

definition recordReceipt :: "env \<Rightarrow> string \<Rightarrow> RecordReceiptInput \<Rightarrow> (db, ReceiptResult) prog" where
  "recordReceipt e actorUserId input =
     seq (lift (receipt_gates_open e)) (\<lambda>_.
     seq (require (ri_invoiceType input \<in> set INVOICE_TYPES) (BadRequest ''receipt_invoice_type_unknown'')) (\<lambda>_.
     seq (require (non_blank (ri_invoiceId input)) (BadRequest ''receipt_invoice_id_required'')) (\<lambda>_.
     let bankReference = js_trim (ri_bankReference input) in
     seq (require (bankReference \<noteq> []) (BadRequest ''receipt_bank_reference_required'')) (\<lambda>_.
     seq (found (ri_receivedAt input) (BadRequest ''receipt_received_at_invalid'')) (\<lambda>receivedAt.
     seq (require (js_upper (case ri_currency input of None \<Rightarrow> ''SAR'' | Some c \<Rightarrow> c) = ''SAR'')
           (BadRequest ''receipt_currency_unsupported'')) (\<lambda>_.
     seq (require (ri_amount input \<noteq> NonFinite) (BadRequest ''receipt_amount_must_be_positive'')) (\<lambda>_.
     seq (lift (toMinor (ri_amount input) SAR)) (\<lambda>amountMinor.
     seq (require (0 < amountMinor) (BadRequest ''receipt_amount_must_be_positive'')) (\<lambda>_.
     seq (land_receipt e actorUserId input bankReference receivedAt amountMinor) (\<lambda>landed.
     case landed of
       Inl result \<Rightarrow> ret result
     | Inr (receipt, v) \<Rightarrow>
         seq (receipt_audit actorUserId (ri_invoiceType input) v receipt (fromMinor amountMinor SAR) bankReference) (\<lambda>_.
         seq (deriveAndApplyCoverage e actorUserId (ri_invoiceType input) (if_id v)) (\<lambda>cov.
         ret \<lparr> rc_receipt = receipt, rc_replayed = False, rc_coverage = cov \<rparr>))))))))))))"

section \<open>Listing and aging\<close>

record ReceiptList =
  rl_invoiceNumber :: "string option"
  rl_status :: string
  rl_totalAmount :: rat
  rl_creditedAmount :: rat
  rl_amountReceived :: rat
  rl_balance :: rat
  rl_receipts :: "PaymentReceipt list"

definition listReceipts :: "string \<Rightarrow> string \<Rightarrow> db \<Rightarrow> ReceiptList res" where
  "listReceipts invoiceType invoiceId s =
     bindr (check (invoiceType \<in> set INVOICE_TYPES) (BadRequest ''receipt_invoice_type_unknown'')) (\<lambda>_.
     bindr (check (non_blank invoiceId) (BadRequest ''receipt_invoice_id_required'')) (\<lambda>_.
     bindr (loadInvoice invoiceType invoiceId s) (\<lambda>v.
     let receipts = order_by (\<lambda>r. (pr_receivedAt r, pr_id r)) (receipts_of invoiceType invoiceId s);
         paidMinor = receipts_minor receipts;
         creditsMinor = feeCreditsMinor invoiceType invoiceId s;
         totalMinor = to_minor (if_totalAmount v) SAR - creditsMinor in
     Inr \<lparr> rl_invoiceNumber = if_invoiceNumber v, rl_status = if_status v,
           rl_totalAmount = fromMinor totalMinor SAR, rl_creditedAmount = fromMinor creditsMinor SAR,
           rl_amountReceived = fromMinor paidMinor SAR, rl_balance = fromMinor (totalMinor - paidMinor) SAR,
           rl_receipts = receipts \<rparr>)))"

record AgingRow =
  ag_invoiceType :: string
  ag_invoiceId :: string
  ag_invoiceNumber :: "string option"
  ag_orgId :: string
  ag_campaignId :: string
  ag_storeId :: "string option"
  ag_dueDate :: "string option"
  ag_totalAmount :: rat
  ag_creditedAmount :: rat
  ag_amountReceived :: rat
  ag_balance :: rat
  ag_daysOverdue :: int
  ag_bucket :: string

definition aging_bucket :: "int \<Rightarrow> string" where
  "aging_bucket d = (if d \<le> 0 then ''current'' else if d \<le> 30 then ''1-30'' else if d \<le> 60 then ''31-60''
     else if d \<le> 90 then ''61-90'' else ''90+'')"

definition days_overdue :: "instant \<Rightarrow> instant option \<Rightarrow> int" where
  "days_overdue now due = (case due of None \<Rightarrow> 0 | Some d \<Rightarrow> max 0 ((now - d) div day_ms))"

definition aging_row ::
  "instant \<Rightarrow> string \<Rightarrow> string \<Rightarrow> string option \<Rightarrow> string \<Rightarrow> string \<Rightarrow> string option \<Rightarrow> instant option \<Rightarrow> dec2
    \<Rightarrow> db \<Rightarrow> AgingRow list"
where
  "aging_row now invoiceType invoiceId number orgId campaignId storeId due totalDec s =
     (let paidMinor = receiptTotalMinor invoiceType invoiceId s;
          creditsMinor = feeCreditsMinor invoiceType invoiceId s;
          totalMinor = to_minor (moneyToNumber (MoneyDecimal totalDec)) SAR - creditsMinor;
          balanceMinor = totalMinor - paidMinor;
          daysOverdue = days_overdue now due
      in if balanceMinor \<le> 0 then []
         else [\<lparr> ag_invoiceType = invoiceType, ag_invoiceId = invoiceId, ag_invoiceNumber = number,
                 ag_orgId = orgId, ag_campaignId = campaignId, ag_storeId = storeId,
                 ag_dueDate = map_option toISOString due,
                 ag_totalAmount = fromMinor totalMinor SAR, ag_creditedAmount = fromMinor creditsMinor SAR,
                 ag_amountReceived = fromMinor paidMinor SAR, ag_balance = fromMinor balanceMinor SAR,
                 ag_daysOverdue = daysOverdue, ag_bucket = aging_bucket daysOverdue \<rparr>])"

text \<open>Ascending with nulls last, the order of the database.\<close>

definition nulls_last :: "instant option \<Rightarrow> nat \<times> int" where
  "nulls_last v = (case v of Some t \<Rightarrow> (0, t) | None \<Rightarrow> (1, 0))"

definition receivablesAging :: "env \<Rightarrow> db \<Rightarrow> AgingRow list" where
  "receivablesAging e s =
     concat (map (\<lambda>i. aging_row (clk e 0) corporate_type (ci_id i) (Some (ci_invoiceNumber i)) (ci_orgId i)
                        (ci_campaignId i) None (ci_dueDate i) (ci_totalAmount i) s)
              (order_by (\<lambda>i. (nulls_last (ci_issuedAt i), ci_id i)) (filter (\<lambda>i. ci_status i = ''issued'') (db_corporate s))))
     @ concat (map (\<lambda>i. aging_row (clk e 0) merchant_type (mi_id i) (mi_merchantInvoiceNumber i) (mi_orgId i)
                        (mi_campaignId i) (Some (mi_storeId i)) (mi_dueDate i) (mi_totalAmount i) s)
              (order_by (\<lambda>i. (nulls_last (mi_issuedAt i), mi_id i)) (filter (\<lambda>i. mi_status i = ''issued'') (db_merchant s))))"

end
