(* ===== verification/Eligibility.thy ===== *)
theory Eligibility
  imports Database
begin

text \<open>
  Payout eligibility (\<open>src/src/settlement/settlement-eligibility.service.ts\<close>): recording the
  verification of a store's payout identity, and evaluating the pending items of a store
  against the seven conditions.
\<close>

definition NON_PARTICIPATION_STATUSES :: "string list" where
  "NON_PARTICIPATION_STATUSES = [''declined'', ''expired'', ''mismatch'', ''revoked'']"

definition TERMINAL_CLAIM_STATES :: "string list" where
  "TERMINAL_CLAIM_STATES = ''claimed'' # NON_PARTICIPATION_STATUSES"

record ConditionResult =
  co_condition :: string
  co_met :: bool
  co_policyVersion :: "string option"
  co_detail :: "(string \<times> json) list"

definition policy_delivery_state :: string where "policy_delivery_state = ''claim_window_settled@pilot-1''"

definition policy_dispute_free :: string where "policy_dispute_free = ''no_dispute_system@pilot-1''"

definition policy_threshold :: string where "policy_threshold = ''threshold_zero@pilot-1''"

definition policy_platform_gates :: string where "policy_platform_gates = ''gates_attestation_env@pilot-1''"

section \<open>Payout identity\<close>

definition verifyPayoutIdentity :: "env \<Rightarrow> string \<Rightarrow> string \<Rightarrow> string \<Rightarrow> (db, Store) prog" where
  "verifyPayoutIdentity e actorUserId storeId evidence =
     seq (require (non_blank storeId) (BadRequest ''store_id_required'')) (\<lambda>_.
     let trimmed = js_trim evidence in
     seq (require (trimmed \<noteq> []) (BadRequest ''payout_identity_evidence_required'')) (\<lambda>_.
     seq (reads (\<lambda>s. find (\<lambda>x. so_id x = storeId) (db_stores s))) (\<lambda>read.
     seq (found read (NotFound ''store_not_found'')) (\<lambda>_.
     seq (update_row db_stores db_stores_update (\<lambda>x. so_id x = storeId)
           (\<lambda>x. x\<lparr> so_payoutIdentityVerifiedAt := Some (clk e 0), so_payoutIdentityEvidence := Some trimmed \<rparr>)) (\<lambda>updated.
     seq (audit_record (audit_input actorUserId ''settlement.payout_identity.verified'' ''store'' (Some storeId)
           [(''evidence'', JStr trimmed),
            (''verifiedAt'', case so_payoutIdentityVerifiedAt updated of None \<Rightarrow> JUndef | Some t \<Rightarrow> JStr (toISOString t))])) (\<lambda>_.
     ret updated))))))"

section \<open>Conditions\<close>

definition receipts_for :: "string \<Rightarrow> db \<Rightarrow> PaymentReceipt list" where
  "receipts_for invoiceId s =
     filter (\<lambda>r. pr_invoiceType r = ''merchant_invoice'' \<and> pr_invoiceId r = invoiceId) (db_receipts s)"

definition money_received :: "SettlementItem \<Rightarrow> db \<Rightarrow> ConditionResult \<times> string option" where
  "money_received item s =
     (if si_occurrenceType item = ''merchant_invoice''
      then
        let invoice = find (\<lambda>v. mi_id v = si_occurrenceId item) (db_merchant s);
            receipts = (case invoice of None \<Rightarrow> [] | Some _ \<Rightarrow> receipts_for (si_occurrenceId item) s);
            paidMinor = sum_list (map (\<lambda>r. to_minor (moneyToNumber (MoneyDecimal (pr_amount r))) SAR) receipts);
            covered = (case invoice of None \<Rightarrow> False
              | Some v \<Rightarrow> receipts \<noteq> [] \<and> paidMinor \<ge> to_minor (moneyToNumber (MoneyDecimal (mi_totalAmount v))) SAR)
        in (\<lparr> co_condition = ''money_received'', co_met = covered, co_policyVersion = None,
              co_detail = [(''receiptCount'', JNum (of_nat (length receipts)))] \<rparr>,
            map_option mi_campaignId invoice)
      else (\<lparr> co_condition = ''money_received'', co_met = False, co_policyVersion = None,
              co_detail = [(''reason'', JStr (''occurrence_type_unsupported:'' @ si_occurrenceType item))] \<rparr>, None))"

definition open_claim :: "instant \<Rightarrow> ClaimableGift \<Rightarrow> bool" where
  "open_claim now c \<longleftrightarrow> cg_status c \<notin> set TERMINAL_CLAIM_STATES
     \<and> \<not> (cg_status c = ''pending'' \<and> cg_expiresAt c < now)"

definition delivery_state :: "env \<Rightarrow> string option \<Rightarrow> db \<Rightarrow> ConditionResult" where
  "delivery_state e campaignId s =
     (if truthy campaignId
      then let claims = filter (\<lambda>c. cg_campaignId c = campaignId) (db_claims s);
               opened = filter (open_claim (clk e 0)) claims
           in \<lparr> co_condition = ''delivery_state'', co_met = (claims \<noteq> [] \<and> opened = []),
                co_policyVersion = Some policy_delivery_state,
                co_detail = [(''claimCount'', JNum (of_nat (length claims))), (''openClaims'', JNum (of_nat (length opened)))]
                  @ (if claims = [] then [(''reason'', JStr ''no_claims_minted'')] else []) \<rparr>
      else \<lparr> co_condition = ''delivery_state'', co_met = False, co_policyVersion = Some policy_delivery_state,
             co_detail = [(''reason'', JStr ''campaign_unresolved'')] \<rparr>)"

definition evaluateItem :: "env \<Rightarrow> SettlementItem \<Rightarrow> Store \<Rightarrow> db \<Rightarrow> ConditionResult list" where
  "evaluateItem e item store s =
     (case money_received item s of (money, campaignId) \<Rightarrow>
       [money, delivery_state e campaignId s,
        \<lparr> co_condition = ''dispute_free'', co_met = True, co_policyVersion = Some policy_dispute_free, co_detail = [] \<rparr>,
        \<lparr> co_condition = ''payout_identity_verified'', co_met = (so_payoutIdentityVerifiedAt store \<noteq> None),
          co_policyVersion = None, co_detail = [] \<rparr>,
        \<lparr> co_condition = ''no_blocking_hold'', co_met = (si_holdType item = None), co_policyVersion = None,
          co_detail = (case si_holdType item of None \<Rightarrow> [] | Some h \<Rightarrow> (if h = [] then [] else [(''holdType'', JStr h)])) \<rparr>,
        \<lparr> co_condition = ''threshold'', co_met = True, co_policyVersion = Some policy_threshold, co_detail = [] \<rparr>,
        \<lparr> co_condition = ''platform_gates'', co_met = (en_gates e = Some ''true''),
          co_policyVersion = Some policy_platform_gates, co_detail = [] \<rparr>])"

section \<open>Evaluation\<close>

record ItemEvaluation =
  ie_settlementItemId :: string
  ie_occurrenceId :: string
  ie_state :: string
  ie_outcome :: string
  ie_conditions :: "ConditionResult list"

definition condition_json :: "ConditionResult \<Rightarrow> json" where
  "condition_json c = JObj ([(''condition'', JStr (co_condition c)), (''met'', JBool (co_met c))]
     @ (if truthy (co_policyVersion c) then [(''policyVersion'', jopt (co_policyVersion c))] else []))"

definition item_audit :: "string \<Rightarrow> string \<Rightarrow> string \<Rightarrow> SettlementItem \<Rightarrow> (string \<times> json) list \<Rightarrow> ConditionResult list \<Rightarrow> AuditRecordInput" where
  "item_audit actorUserId action storeId item extra conditions =
     audit_input actorUserId action ''store'' (Some storeId)
       ([(''settlementItemId'', JStr (si_id item)), (''occurrenceType'', JStr (si_occurrenceType item)),
         (''occurrenceId'', JStr (si_occurrenceId item))] @ extra
        @ [(''conditions'', JArr (map condition_json conditions))])"

text \<open>The guarded move of one pending item.\<close>

definition make_eligible :: "SettlementItem \<Rightarrow> (db, nat) prog" where
  "make_eligible item =
     updateMany db_items db_items_update
       (\<lambda>r. si_id r = si_id item \<and> si_state r = I_pending \<and> si_batchId r = None)
       (\<lambda>r. r\<lparr> si_state := I_eligible \<rparr>)"

definition evaluate_one :: "env \<Rightarrow> string \<Rightarrow> string \<Rightarrow> Store \<Rightarrow> SettlementItem \<Rightarrow> (db, ItemEvaluation) prog" where
  "evaluate_one e actorUserId storeId store item =
     seq (reads (evaluateItem e item store)) (\<lambda>conditions.
     let allMet = (\<forall>c \<in> set conditions. co_met c);
         entry = (\<lambda>state outcome. \<lparr> ie_settlementItemId = si_id item, ie_occurrenceId = si_occurrenceId item,
           ie_state = state, ie_outcome = outcome, ie_conditions = conditions \<rparr>);
         report = seq (audit_record (item_audit actorUserId
                (if allMet then ''settlement.item.eligible'' else ''settlement.item.still_pending'') storeId item
                [(''amount'', JNum (moneyToNumber (MoneyDecimal (si_amount item))))] conditions)) (\<lambda>_.
              ret (entry (if allMet then ''eligible'' else ''pending'') (if allMet then ''eligible'' else ''pending'')))
     in if allMet
        then seq (lift (assertItemTransition (si_state item) I_eligible)) (\<lambda>_.
             seq (make_eligible item) (\<lambda>moved.
             if moved \<noteq> 1
             then seq (audit_record (item_audit actorUserId ''settlement.item.contended'' storeId item [] conditions)) (\<lambda>_.
                  ret (entry (item_state_name (si_state item)) ''contended''))
             else report))
        else report)"

fun evaluate_all :: "env \<Rightarrow> string \<Rightarrow> string \<Rightarrow> Store \<Rightarrow> SettlementItem list \<Rightarrow> (db, ItemEvaluation list) prog" where
  "evaluate_all e actorUserId storeId store [] = ret []"
| "evaluate_all e actorUserId storeId store (i # is) =
     seq (evaluate_one e actorUserId storeId store i) (\<lambda>r.
     seq (evaluate_all e actorUserId storeId store is) (\<lambda>rs. ret (r # rs)))"

definition pending_items :: "string \<Rightarrow> db \<Rightarrow> SettlementItem list" where
  "pending_items storeId s =
     order_by (\<lambda>i. (si_createdAt i, si_id i))
       (filter (\<lambda>i. si_storeId i = storeId \<and> si_state i = I_pending) (db_items s))"

record Evaluation =
  el_storeId :: string
  el_evaluatedAt :: string
  el_itemCount :: nat
  el_eligibleCount :: nat
  el_items :: "ItemEvaluation list"

definition evaluate :: "env \<Rightarrow> string \<Rightarrow> string \<Rightarrow> (db, Evaluation) prog" where
  "evaluate e actorUserId storeId =
     seq (require (non_blank storeId) (BadRequest ''store_id_required'')) (\<lambda>_.
     seq (reads (\<lambda>s. find (\<lambda>x. so_id x = storeId) (db_stores s))) (\<lambda>read.
     seq (found read (NotFound ''store_not_found'')) (\<lambda>store.
     seq (reads (pending_items storeId)) (\<lambda>items.
     seq (evaluate_all e actorUserId storeId store items) (\<lambda>results.
     ret \<lparr> el_storeId = storeId, el_evaluatedAt = toISOString (clk e 1), el_itemCount = length items,
           el_eligibleCount = count_where (\<lambda>r. ie_outcome r = ''eligible'') results, el_items = results \<rparr>)))))"

end
