(* ===== verification/Refunds.thy ===== *)
theory Refunds
  imports Receipts Approval
begin

text \<open>
  Refunds (\<open>src/src/settlement/settlement-refunds.service.ts\<close>): recording the refund of a
  goods invoice or of a service-fee invoice with its credit note, its postings and its effect
  on the settlement item, the replay of a credit note, and the maker-checker workflow of
  refund requests. As for receipts, a serializable transaction is a program that runs on its
  own.
\<close>

section \<open>Types\<close>

record RecordRefundInput =
  ru_invoiceType :: string
  ru_invoiceId :: string
  ru_amount :: js_number
  ru_reason :: string
  ru_evidenceRef :: string
  ru_refundedAt :: "instant option"
  ru_merchantCreditNoteNumber :: "string option"
  ru_issuanceSource :: "string option"
  ru_onBehalfAuthorizationRef :: "string option"
  ru_reasonCode :: "string option"

definition FEE_REFUND_REASON_CODES :: "string list" where
  "FEE_REFUND_REASON_CODES =
     [''service_not_rendered'', ''billing_error'', ''campaign_cancelled'', ''goodwill'', ''other'']"

definition MERCHANT_NUMBER_SOURCES :: "string list" where
  "MERCHANT_NUMBER_SOURCES = [''MERCHANT'', ''ACCOUNTING_CONNECTOR'', ''QIFT_ON_BEHALF'']"

definition refund_gates_open :: "env \<Rightarrow> unit res" where
  "refund_gates_open e = check (en_gates e = Some ''true'') (Conflict ''financial_gates_not_attested'')"

definition trim_opt :: "string option \<Rightarrow> string option" where
  "trim_opt v = (case v of None \<Rightarrow> None | Some s \<Rightarrow> if js_trim s = [] then None else Some (js_trim s))"

section \<open>Reads\<close>

definition find_refund :: "string \<Rightarrow> string \<Rightarrow> string \<Rightarrow> db \<Rightarrow> SettlementRefund option" where
  "find_refund invoiceType invoiceId evidenceRef s =
     find (\<lambda>r. rf_invoiceType r = invoiceType \<and> rf_invoiceId r = invoiceId \<and> rf_evidenceRef r = evidenceRef)
       (db_refunds s)"

definition refunds_of :: "string \<Rightarrow> string \<Rightarrow> db \<Rightarrow> SettlementRefund list" where
  "refunds_of invoiceType invoiceId s =
     filter (\<lambda>r. rf_invoiceType r = invoiceType \<and> rf_invoiceId r = invoiceId) (db_refunds s)"

definition refunds_minor :: "SettlementRefund list \<Rightarrow> int" where
  "refunds_minor rs = sum_list (map (\<lambda>r. to_minor (moneyToNumber (MoneyDecimal (rf_amount r))) SAR) rs)"

definition refunds_vat_minor :: "SettlementRefund list \<Rightarrow> int" where
  "refunds_vat_minor rs = sum_list (map (\<lambda>r. to_minor (moneyToNumber (MoneyDecimal (rf_vatComponent r))) SAR) rs)"

definition absorbed :: "string \<Rightarrow> SettlementRefund list \<Rightarrow> SettlementRefund list" where
  "absorbed interaction rs = filter (\<lambda>r. rf_settlementInteraction r = interaction) rs"

section \<open>The VAT of a refund\<close>

text \<open>The frozen proportion, half up, in floating point as the code computes it.\<close>

definition vat_proportion :: "int \<Rightarrow> int \<Rightarrow> int \<Rightarrow> int" where
  "vat_proportion amountMinor vatMinor totalMinor =
     (if totalMinor = 0 then 0
      else \<lfloor>fl64 (fl64 (fl64 (of_int (amountMinor * vatMinor)) + of_int (totalMinor div 2)) / of_int totalMinor)\<rfloor>)"

text \<open>Capped at the remaining VAT; the completing refund takes all of it.\<close>

definition vat_component_minor :: "int \<Rightarrow> int \<Rightarrow> int \<Rightarrow> int \<Rightarrow> int \<Rightarrow> int" where
  "vat_component_minor amountMinor priorMinor totalMinor vatMinor priorVatMinor =
     (if priorMinor + amountMinor = totalMinor
      then min amountMinor (max 0 (vatMinor - priorVatMinor))
      else min (vat_proportion amountMinor vatMinor totalMinor) (max 0 (vatMinor - priorVatMinor)))"

section \<open>Checks shared by both legs\<close>

definition refund_in_window :: "instant \<Rightarrow> instant \<Rightarrow> bool" where
  "refund_in_window nowMs refundedAt \<longleftrightarrow>
     \<not> (nowMs - refundedAt > executedAtMaxAgeHours * hour_ms
         \<or> refundedAt - nowMs > executedAtMaxSkewHours * hour_ms)"

definition refund_date :: "env \<Rightarrow> RecordRefundInput \<Rightarrow> instant res" where
  "refund_date e input =
     (case ru_refundedAt input of
        None \<Rightarrow> Inl (BadRequest ''refund_refunded_at_invalid'')
      | Some refundedAt \<Rightarrow>
          bindr (check (refund_in_window (clk e 20) refundedAt) (BadRequest ''refund_refunded_at_out_of_window'')) (\<lambda>_.
          Inr refundedAt))"

definition refund_amount :: "js_number \<Rightarrow> int res" where
  "refund_amount amount =
     bindr (check (amount \<noteq> NonFinite) (BadRequest ''refund_amount_must_be_positive'')) (\<lambda>_.
     bindr (toMinor amount SAR) (\<lambda>amountMinor.
     bindr (check (0 < amountMinor) (BadRequest ''refund_amount_must_be_positive'')) (\<lambda>_.
     Inr amountMinor)))"

definition refund_clash :: "SettlementRefund \<Rightarrow> SettlementRefund \<Rightarrow> bool" where
  "refund_clash r r' \<longleftrightarrow> rf_id r' = rf_id r
     \<or> rf_invoiceType r' = rf_invoiceType r \<and> rf_invoiceId r' = rf_invoiceId r
       \<and> rf_evidenceRef r' = rf_evidenceRef r"

definition refund_matches :: "SettlementRefund \<Rightarrow> int \<Rightarrow> instant \<Rightarrow> bool" where
  "refund_matches r amountMinor refundedAt \<longleftrightarrow>
     to_minor (moneyToNumber (MoneyDecimal (rf_amount r))) SAR = amountMinor \<and> rf_refundedAt r = refundedAt"

section \<open>Issuing a credit note\<close>

definition mintQn :: "env \<Rightarrow> (db, string) prog" where
  "mintQn e =
     seq (reads (\<lambda>s. allocateReference QN
            (\<lambda>c. \<exists>n \<in> set (db_creditNotes s). nf_referenceNumber (cn_facts n) = c) (en_draw e 20))) lift"

definition note_clash :: "CreditNote \<Rightarrow> CreditNote \<Rightarrow> bool" where
  "note_clash n n' \<longleftrightarrow> cn_id n' = cn_id n
     \<or> nf_referenceNumber (cn_facts n') = nf_referenceNumber (cn_facts n)
     \<or> nf_refundId (cn_facts n') = nf_refundId (cn_facts n)
     \<or> nf_qiftCreditNoteNumber (cn_facts n) \<noteq> None
       \<and> nf_qiftCreditNoteNumber (cn_facts n') = nf_qiftCreditNoteNumber (cn_facts n)"

definition opt_dec :: "rat option \<Rightarrow> dec2 option res" where
  "opt_dec v = (case v of None \<Rightarrow> Inr None | Some x \<Rightarrow> bindr (to_dec x) (\<lambda>d. Inr (Some d)))"

text \<open>
  The note row, whose money columns read back as numbers, and version 1 of its history.
\<close>

definition issue_credit_note :: "env \<Rightarrow> string \<Rightarrow> CreditNoteFacts \<Rightarrow> (db, CreditNote) prog" where
  "issue_credit_note e actorUserId facts =
     (let canonical = creditNoteCanonical facts; documentHash = creditNoteHash (en_sha e) facts in
      seq (lift (opt_dec (nf_netComponent facts))) (\<lambda>net.
      seq (lift (to_dec (nf_amount facts))) (\<lambda>amount.
      seq (lift (to_dec (nf_vatComponent facts))) (\<lambda>vat.
      seq (create db_creditNotes db_creditNotes_update note_clash
            \<lparr> cn_id = en_uuid e 21,
              cn_facts = facts\<lparr> nf_netComponent := map_option dec_num net, nf_amount := dec_num amount,
                               nf_vatComponent := dec_num vat \<rparr>,
              cn_currentVersion = 1, cn_canonicalJson = canonical, cn_documentHash = documentHash \<rparr>) (\<lambda>note.
      seq (create db_creditNoteVersions db_creditNoteVersions_update
            (\<lambda>v v'. cv_creditNoteId v' = cv_creditNoteId v \<and> cv_versionNumber v' = cv_versionNumber v)
            \<lparr> cv_creditNoteId = cn_id note, cv_versionNumber = 1, cv_changeReason = ''issued'',
              cv_canonicalJson = canonical, cv_documentHash = documentHash,
              cv_statementSettlementId = None, cv_createdBy = actorUserId \<rparr>) (\<lambda>_.
      ret note))))))"

section \<open>The goods leg\<close>

definition shrink_item :: "SettlementItem \<Rightarrow> int \<Rightarrow> (db, unit) prog" where
  "shrink_item item amountMinor =
     (let newAmount = fromMinor (to_minor (moneyToNumber (MoneyDecimal (si_amount item))) SAR - amountMinor) SAR in
      seq (require (\<not> newAmount < 0) (Conflict ''refund_exceeds_item'')) (\<lambda>_.
      seq (lift (to_dec newAmount)) (\<lambda>amount.
      seq (updateMany db_items db_items_update
            (\<lambda>i. si_id i = si_id item \<and> si_state i = si_state item \<and> si_batchId i = None)
            (\<lambda>i. i\<lparr> si_amount := amount \<rparr>)) (\<lambda>shrunk.
      require (shrunk = 1) (Conflict ''settlement_items_contended'')))))"

definition item_interaction :: "SettlementItem \<Rightarrow> int \<Rightarrow> (db, string) prog" where
  "item_interaction item amountMinor =
     (case si_state item of
        I_ready \<Rightarrow> raise (Conflict ''item_bound_supersede_first'')
      | I_disputed \<Rightarrow> raise (Conflict ''item_disputed'')
      | I_settled \<Rightarrow> ret ''receivable_accrued''
      | I_reversed \<Rightarrow> ret ''receivable_accrued''
      | _ \<Rightarrow> seq (shrink_item item amountMinor) (\<lambda>_. ret ''item_reduced''))"

definition check_issuance :: "RecordRefundInput \<Rightarrow> string res" where
  "check_issuance input =
     (let source = (case ru_issuanceSource input of None \<Rightarrow> ''MERCHANT'' | Some s \<Rightarrow> s) in
      bindr (check (source \<noteq> ''QIFT'')
              (BadRequest ''credit_note_series_separation:merchant_goods_never_qift_series'')) (\<lambda>_.
      bindr (check (source \<in> set MERCHANT_NUMBER_SOURCES) (BadRequest ''credit_note_source_unknown'')) (\<lambda>_.
      bindr (check (source = ''QIFT_ON_BEHALF'' \<longrightarrow> trim_opt (ru_merchantCreditNoteNumber input) \<noteq> None)
              (BadRequest ''on_behalf_requires_legal_number'')) (\<lambda>_.
      bindr (check (source = ''QIFT_ON_BEHALF'' \<longrightarrow> trim_opt (ru_onBehalfAuthorizationRef input) \<noteq> None)
              (BadRequest ''on_behalf_requires_authorization_evidence'')) (\<lambda>_.
      Inr source)))))"

definition goods_facts ::
  "env \<Rightarrow> string \<Rightarrow> RecordRefundInput \<Rightarrow> MerchantInvoice \<Rightarrow> SettlementRefund \<Rightarrow> string \<Rightarrow> string
    \<Rightarrow> rat \<Rightarrow> rat \<Rightarrow> CreditNoteFacts"
where
  "goods_facts e actorUserId input invoice refund referenceNumber source amount vatComponent =
     \<lparr> nf_referenceNumber = referenceNumber, nf_refundId = rf_id refund,
       nf_noteType = ''merchant_goods'', nf_invoiceType = merchant_type, nf_invoiceId = mi_id invoice,
       nf_merchantInvoiceNumber = mi_merchantInvoiceNumber invoice,
       nf_merchantCreditNoteNumber = trim_opt (ru_merchantCreditNoteNumber input),
       nf_qiftCreditNoteNumber = None, nf_issuerType = ''MERCHANT'', nf_issuanceSource = source,
       nf_onBehalfAuthorizationRef = trim_opt (ru_onBehalfAuthorizationRef input),
       nf_creditNoteUuid = None, nf_originalInvoiceNumber = mi_merchantInvoiceNumber invoice,
       nf_netComponent = None, nf_reasonCode = None, nf_taxRuleVersion = None,
       nf_buyerSnapshot = None, nf_issuerSnapshot = None,
       nf_storeId = Some (mi_storeId invoice), nf_orgId = mi_orgId invoice,
       nf_campaignId = mi_campaignId invoice, nf_currency = ''SAR'',
       nf_amount = amount, nf_vatComponent = vatComponent, nf_reason = rf_reason refund,
       nf_issuedAt = toISOString (clk e 21), nf_issuedBy = actorUserId,
       nf_statementSettlementId = None \<rparr>"

definition goods_posting ::
  "string \<Rightarrow> MerchantInvoice \<Rightarrow> SettlementRefund \<Rightarrow> rat \<Rightarrow> rat \<Rightarrow> (db, unit) prog"
where
  "goods_posting actorUserId invoice refund amount vatComponent =
     seq (ledger_record ((ledger_base REFUND_PAID ''REFUND_GOODS'' actorUserId (Fin amount) ''SAR'' ''debit'')
            \<lparr> li_counterpartyType := Some ''company'', li_campaignId := Some (mi_campaignId invoice),
              li_orgId := Some (mi_orgId invoice), li_storeId := Some (mi_storeId invoice),
              li_idempotencyKey := Some (ledgerIdempotencyKey REFUND_PAID (rf_id refund)),
              li_metadata := Some (JObj
                [(''invoiceId'', JStr (mi_id invoice)), (''invoiceNumber'', jopt (mi_merchantInvoiceNumber invoice)),
                 (''evidenceRef'', JStr (rf_evidenceRef refund)),
                 (''account'', JStr (if rf_settlementInteraction refund = ''receivable_accrued''
                                     then ''operating'' else ''safeguarding'')),
                 (''passThrough'', JBool True),
                 (''settlementInteraction'', JStr (rf_settlementInteraction refund)),
                 (''vatComponent'', JNum vatComponent)]) \<rparr>)) (\<lambda>_. ret ())"

definition receivable_clash :: "SettlementReceivable \<Rightarrow> SettlementReceivable \<Rightarrow> bool" where
  "receivable_clash r r' \<longleftrightarrow> sr_id r' = sr_id r
     \<or> sr_occurrenceType r' = sr_occurrenceType r \<and> sr_occurrenceId r' = sr_occurrenceId r"

text \<open>The merchant owes what was clawed back after settlement; a full claw-back reverses the item.\<close>

definition accrue_receivable ::
  "env \<Rightarrow> string \<Rightarrow> MerchantInvoice \<Rightarrow> SettlementRefund \<Rightarrow> rat \<Rightarrow> (db, unit) prog"
where
  "accrue_receivable e actorUserId invoice refund amount =
     seq (lift (to_dec amount)) (\<lambda>amountDec.
     seq (create db_receivables db_receivables_update receivable_clash
           \<lparr> sr_id = en_uuid e 22, sr_storeId = mi_storeId invoice, sr_currency = ''SAR'',
             sr_amount = amountDec, sr_occurrenceType = ''refund'', sr_occurrenceId = rf_id refund,
             sr_state = R_open, sr_amountRecovered = 0, sr_stagedBySettlementId = None,
             sr_accruedAt = clk e 22, sr_recoveredAt = None, sr_recoveredBySettlementId = None \<rparr>) (\<lambda>_.
     seq (ledger_record ((ledger_base MERCHANT_RECEIVABLE_ACCRUED ''MERCHANT_RECEIVABLE'' actorUserId (Fin amount) ''SAR'' ''credit'')
            \<lparr> li_counterpartyType := Some ''merchant'', li_storeId := Some (mi_storeId invoice),
              li_idempotencyKey := Some (ledgerIdempotencyKey MERCHANT_RECEIVABLE_ACCRUED (rf_id refund)),
              li_metadata := Some (JObj
                [(''refundId'', JStr (rf_id refund)), (''invoiceId'', JStr (mi_id invoice)),
                 (''invoiceNumber'', jopt (mi_merchantInvoiceNumber invoice))]) \<rparr>)) (\<lambda>_. ret ())))"

definition reverse_item :: "SettlementItem \<Rightarrow> int \<Rightarrow> (db, unit) prog" where
  "reverse_item item clawedMinor =
     (if si_state item = I_settled \<and> clawedMinor \<ge> to_minor (moneyToNumber (MoneyDecimal (si_amount item))) SAR
      then seq (lift (assertItemTransition I_settled I_reversed)) (\<lambda>_.
           seq (updateMany db_items db_items_update
                 (\<lambda>i. si_id i = si_id item \<and> si_state i = I_settled)
                 (\<lambda>i. i\<lparr> si_state := I_reversed \<rparr>)) (\<lambda>flipped.
           require (flipped = 1) (Conflict ''settlement_items_contended'')))
      else ret ())"

datatype RefundOutcome = ReplayedRefund SettlementRefund | NewRefund SettlementRefund CreditNote

text \<open>The body of the transaction once the refund is known to be new.\<close>

definition goods_refund ::
  "env \<Rightarrow> string \<Rightarrow> RecordRefundInput \<Rightarrow> MerchantInvoice \<Rightarrow> string \<Rightarrow> string \<Rightarrow> instant \<Rightarrow> int \<Rightarrow> (db, RefundOutcome) prog"
where
  "goods_refund e actorUserId input invoice evidenceRef reason refundedAt amountMinor =
     (let amount = fromMinor amountMinor SAR in
      seq (require (mi_status invoice = ''paid'')
            (BadRequest (''refund_requires_paid_invoice:'' @ mi_status invoice))) (\<lambda>_.
      seq (reads (\<lambda>s. (receiptTotalMinor merchant_type (mi_id invoice) s, refunds_of merchant_type (mi_id invoice) s))) (\<lambda>(receivedMinor, refunds).
      seq (require (refunds_minor refunds + amountMinor \<le> receivedMinor) (Conflict ''refund_exceeds_collected'')) (\<lambda>_.
      let vatMinor = vat_component_minor amountMinor (refunds_minor refunds)
            (to_minor (moneyToNumber (MoneyDecimal (mi_totalAmount invoice))) SAR)
            (to_minor (moneyToNumber (MoneyDecimal (mi_vatAmount invoice))) SAR) (refunds_vat_minor refunds);
          vatComponent = fromMinor vatMinor SAR in
      seq (reads (\<lambda>s. find (\<lambda>i. si_occurrenceType i = merchant_type \<and> si_occurrenceId i = mi_id invoice) (db_items s))) (\<lambda>read.
      seq (found read (Conflict ''settlement_item_missing'')) (\<lambda>item.
      seq (item_interaction item amountMinor) (\<lambda>interaction.
      seq (lift (to_dec amount)) (\<lambda>amountDec.
      seq (lift (to_dec vatComponent)) (\<lambda>vatDec.
      seq (create db_refunds db_refunds_update refund_clash
            \<lparr> rf_id = en_uuid e 20, rf_invoiceType = merchant_type, rf_invoiceId = mi_id invoice,
              rf_storeId = Some (mi_storeId invoice), rf_orgId = mi_orgId invoice,
              rf_campaignId = mi_campaignId invoice, rf_currency = ''SAR'', rf_amount = amountDec,
              rf_vatComponent = vatDec, rf_reason = reason, rf_evidenceRef = evidenceRef,
              rf_refundedAt = refundedAt, rf_recordedBy = actorUserId,
              rf_settlementInteraction = interaction \<rparr>) (\<lambda>refund.
      seq (lift (check_issuance input)) (\<lambda>source.
      seq (mintQn e) (\<lambda>referenceNumber.
      seq (issue_credit_note e actorUserId
            (goods_facts e actorUserId input invoice refund referenceNumber source amount vatComponent)) (\<lambda>note.
      seq (goods_posting actorUserId invoice refund amount vatComponent) (\<lambda>_.
      seq (if interaction = ''receivable_accrued''
           then seq (accrue_receivable e actorUserId invoice refund amount) (\<lambda>_.
                reverse_item item (refunds_minor (absorbed ''receivable_accrued'' refunds) + amountMinor))
           else ret ()) (\<lambda>_.
      ret (NewRefund refund note))))))))))))))))"

definition goods_transaction ::
  "env \<Rightarrow> string \<Rightarrow> RecordRefundInput \<Rightarrow> string \<Rightarrow> string \<Rightarrow> instant \<Rightarrow> int \<Rightarrow> (db, RefundOutcome) prog"
where
  "goods_transaction e actorUserId input evidenceRef reason refundedAt amountMinor =
     transaction (
       seq (reads (\<lambda>s. find (\<lambda>v. mi_id v = ru_invoiceId input) (db_merchant s))) (\<lambda>read.
       seq (found read (NotFound ''invoice_not_found'')) (\<lambda>invoice.
       seq (require (mi_currency invoice = ''SAR'') (BadRequest ''refund_currency_unsupported'')) (\<lambda>_.
       seq (reads (find_refund merchant_type (mi_id invoice) evidenceRef)) (\<lambda>existing.
       case existing of
         Some r \<Rightarrow> ret (ReplayedRefund r)
       | None \<Rightarrow> goods_refund e actorUserId input invoice evidenceRef reason refundedAt amountMinor)))))"

text \<open>A unique violation is a concurrent identical submission when the evidence is there.\<close>

definition resolve_replay :: "string \<Rightarrow> string \<Rightarrow> string \<Rightarrow> (db, RefundOutcome) prog \<Rightarrow> (db, RefundOutcome) prog" where
  "resolve_replay invoiceType invoiceId evidenceRef m =
     attempt m (\<lambda>ex. case ex of
         P2002 c \<Rightarrow>
           seq (reads (find_refund invoiceType invoiceId evidenceRef)) (\<lambda>existing.
           case existing of None \<Rightarrow> raise ex | Some r \<Rightarrow> ret (ReplayedRefund r))
       | _ \<Rightarrow> raise ex)"

definition replay_audit :: "string \<Rightarrow> string \<Rightarrow> string option \<Rightarrow> SettlementRefund \<Rightarrow> rat \<Rightarrow> string \<Rightarrow> string \<Rightarrow> (db, unit) prog" where
  "replay_audit actorUserId targetType targetId refund amount reason evidenceRef =
     audit_guaranteed (audit_input actorUserId ''finance.refund.recorded'' targetType targetId
         [(''refundId'', JStr (rf_id refund)), (''invoiceType'', JStr (rf_invoiceType refund)),
          (''invoiceId'', JStr (rf_invoiceId refund)), (''amount'', JNum amount),
          (''currency'', JStr ''SAR''), (''reason'', JStr reason), (''evidenceRef'', JStr evidenceRef),
          (''replayed'', JBool True)])
       (''finance.refund.recorded:'' @ rf_id refund)"

record RefundResult =
  rs_refund :: SettlementRefund
  rs_replayed :: bool

definition goods_audits :: "string \<Rightarrow> SettlementRefund \<Rightarrow> rat \<Rightarrow> (db, unit) prog" where
  "goods_audits actorUserId refund amount =
     seq (reads (\<lambda>s. find (\<lambda>n. nf_refundId (cn_facts n) = rf_id refund) (db_creditNotes s))) (\<lambda>issued.
     seq (audit_guaranteed (audit_input actorUserId ''finance.credit_note.issued'' ''store'' (rf_storeId refund)
            [(''creditNoteReference'', case issued of None \<Rightarrow> JUndef | Some n \<Rightarrow> JStr (nf_referenceNumber (cn_facts n))),
             (''refundId'', JStr (rf_id refund)), (''invoiceId'', JStr (rf_invoiceId refund)),
             (''amount'', JNum amount), (''vatComponent'', JNum (moneyToNumber (MoneyDecimal (rf_vatComponent refund))))])
            (''finance.credit_note.issued:'' @ rf_id refund)) (\<lambda>_.
     audit_guaranteed (audit_input actorUserId ''finance.refund.recorded'' ''store'' (rf_storeId refund)
            [(''refundId'', JStr (rf_id refund)), (''invoiceType'', JStr merchant_type),
             (''invoiceId'', JStr (rf_invoiceId refund)), (''amount'', JNum amount),
             (''vatComponent'', JNum (moneyToNumber (MoneyDecimal (rf_vatComponent refund)))),
             (''currency'', JStr ''SAR''), (''reason'', JStr (rf_reason refund)),
             (''evidenceRef'', JStr (rf_evidenceRef refund)),
             (''settlementInteraction'', JStr (rf_settlementInteraction refund))])
            (''finance.refund.recorded:'' @ rf_id refund)))"

definition recordGoodsRefund :: "env \<Rightarrow> string \<Rightarrow> RecordRefundInput \<Rightarrow> (db, RefundResult) prog" where
  "recordGoodsRefund e actorUserId input =
     seq (require (ru_invoiceType input = merchant_type) (BadRequest ''refund_invoice_type_unknown'')) (\<lambda>_.
     seq (require (non_blank (ru_invoiceId input)) (BadRequest ''refund_invoice_id_required'')) (\<lambda>_.
     let evidenceRef = js_trim (ru_evidenceRef input); reason = js_trim (ru_reason input) in
     seq (require (evidenceRef \<noteq> []) (BadRequest ''refund_evidence_required'')) (\<lambda>_.
     seq (require (reason \<noteq> []) (BadRequest ''refund_reason_required'')) (\<lambda>_.
     seq (lift (refund_date e input)) (\<lambda>refundedAt.
     seq (lift (refund_amount (ru_amount input))) (\<lambda>amountMinor.
     seq (resolve_replay merchant_type (ru_invoiceId input) evidenceRef
           (goods_transaction e actorUserId input evidenceRef reason refundedAt amountMinor)) (\<lambda>outcome.
     case outcome of
       ReplayedRefund r \<Rightarrow>
         seq (require (refund_matches r amountMinor refundedAt) (Conflict ''refund_evidence_conflict'')) (\<lambda>_.
         seq (replay_audit actorUserId ''store'' (rf_storeId r) r (fromMinor amountMinor SAR) reason evidenceRef) (\<lambda>_.
         ret \<lparr> rs_refund = r, rs_replayed = True \<rparr>))
     | NewRefund r note \<Rightarrow>
         seq (goods_audits actorUserId r (fromMinor amountMinor SAR)) (\<lambda>_.
         ret \<lparr> rs_refund = r, rs_replayed = False \<rparr>))))))))"

section \<open>The service-fee leg\<close>

text \<open>The transactional counter behind a legal series.\<close>

definition next_in_sequence :: "string \<Rightarrow> (db, int) prog" where
  "next_in_sequence key s =
     (case find (\<lambda>n. ns_seriesKey n = key) (db_sequences s) of
        None \<Rightarrow> (Inr 1, db_sequences_update (\<lambda>t. t @ [\<lparr> ns_seriesKey = key, ns_lastValue = 1 \<rparr>]) s)
      | Some n \<Rightarrow> (Inr (ns_lastValue n + 1),
          db_sequences_update (update_where (\<lambda>n. ns_seriesKey n = key) (\<lambda>n. n\<lparr> ns_lastValue := ns_lastValue n + 1 \<rparr>)) s))"

definition mint_qd :: "env \<Rightarrow> (db, string) prog" where
  "mint_qd e =
     (let seriesYear = utc_year (clk e 21) in
      seq (next_in_sequence (''QD-'' @ int_str seriesYear)) (\<lambda>v.
      lift (formatSequentialReference QD seriesYear v)))"

definition tax_rule_version :: "json option \<Rightarrow> string option" where
  "tax_rule_version snapshot =
     (case snapshot of None \<Rightarrow> None
      | Some v \<Rightarrow> (case jfield v ''ruleVersion'' of JStr r \<Rightarrow> Some r | _ \<Rightarrow> None))"

definition fee_facts ::
  "env \<Rightarrow> string \<Rightarrow> string \<Rightarrow> CorporateInvoice \<Rightarrow> SettlementRefund \<Rightarrow> string \<Rightarrow> string
    \<Rightarrow> rat \<Rightarrow> rat \<Rightarrow> rat \<Rightarrow> CreditNoteFacts"
where
  "fee_facts e actorUserId reasonCode invoice refund qd referenceNumber amount vatComponent netComponent =
     \<lparr> nf_referenceNumber = referenceNumber, nf_refundId = rf_id refund,
       nf_noteType = ''qift_service_fee'', nf_invoiceType = corporate_type, nf_invoiceId = ci_id invoice,
       nf_merchantInvoiceNumber = None, nf_merchantCreditNoteNumber = None,
       nf_qiftCreditNoteNumber = Some qd, nf_issuerType = ''QIFT'', nf_issuanceSource = ''QIFT'',
       nf_onBehalfAuthorizationRef = None, nf_creditNoteUuid = None,
       nf_originalInvoiceNumber = Some (ci_invoiceNumber invoice),
       nf_netComponent = Some netComponent, nf_reasonCode = Some reasonCode,
       nf_taxRuleVersion = tax_rule_version (ci_taxSnapshot invoice),
       nf_buyerSnapshot = ci_buyerSnapshot invoice, nf_issuerSnapshot = ci_sellerSnapshot invoice,
       nf_storeId = None, nf_orgId = ci_orgId invoice, nf_campaignId = ci_campaignId invoice,
       nf_currency = ''SAR'', nf_amount = amount, nf_vatComponent = vatComponent,
       nf_reason = rf_reason refund, nf_issuedAt = toISOString (clk e 22), nf_issuedBy = actorUserId,
       nf_statementSettlementId = None \<rparr>"

definition fee_base :: "FinancialEventType \<Rightarrow> string \<Rightarrow> string \<Rightarrow> rat \<Rightarrow> CorporateInvoice \<Rightarrow> string \<Rightarrow> (string \<times> json) list \<Rightarrow> RecordLedgerInput" where
  "fee_base event reason actor amount invoice anchor metadata =
     (ledger_base event reason actor (Fin amount) ''SAR'' ''debit'')
       \<lparr> li_counterpartyType := Some ''company'', li_campaignId := Some (ci_campaignId invoice),
         li_orgId := Some (ci_orgId invoice),
         li_idempotencyKey := Some (ledgerIdempotencyKey event anchor), li_metadata := Some (JObj metadata) \<rparr>"

definition fee_postings ::
  "string \<Rightarrow> string \<Rightarrow> CorporateInvoice \<Rightarrow> SettlementRefund \<Rightarrow> CreditNoteFacts \<Rightarrow> int \<Rightarrow> int \<Rightarrow> (db, unit) prog"
where
  "fee_postings actorUserId reasonCode invoice refund facts amountMinor vatMinor =
     (let qn = (''creditNoteReference'', JStr (nf_referenceNumber facts));
          qd = (''qiftCreditNoteNumber'', jopt (nf_qiftCreditNoteNumber facts));
          document = [(''invoiceId'', JStr (ci_id invoice)), (''invoiceNumber'', JStr (ci_invoiceNumber invoice)), qn, qd,
                      (''evidenceRef'', JStr (rf_evidenceRef refund))];
          reversed = fromMinor (amountMinor - vatMinor) SAR in
      seq (if ci_status invoice = ''paid''
           then seq (ledger_record (fee_base REFUND_PAID ''REFUND_FEE'' actorUserId (nf_amount facts) invoice (rf_id refund)
                      (document @ [(''account'', JStr ''operating''), (''reasonCode'', JStr reasonCode)]))) (\<lambda>_.
                if 0 < amountMinor - vatMinor
                then seq (ledger_record (fee_base QIFT_REVENUE_RECOGNIZED ''QIFT_REVENUE'' actorUserId reversed invoice
                           (ci_id invoice @ '':reversal:'' @ rf_id refund)
                           [(''compensates'', JStr (ledgerIdempotencyKey QIFT_REVENUE_RECOGNIZED (ci_id invoice))),
                            (''refundId'', JStr (rf_id refund)), qn, qd])) (\<lambda>_. ret ())
                else ret ())
           else seq (ledger_record (fee_base REFUND_APPROVED ''CORPORATE_RECEIVABLE'' actorUserId (nf_amount facts) invoice (rf_id refund)
                      (document @ [(''reasonCode'', JStr reasonCode),
                        (''compensates'', JStr (ledgerIdempotencyKey CORPORATE_INVOICE_ISSUED (ci_id invoice)))]))) (\<lambda>_. ret ())) (\<lambda>_.
      if 0 < vatMinor
      then seq (ledger_record (fee_base REFUND_APPROVED ''QIFT_VAT'' actorUserId (nf_vatComponent facts) invoice
                 (rf_id refund @ '':vat'')
                 [(''refundId'', JStr (rf_id refund)), qn, qd,
                  (''taxRuleVersion'', jopt (nf_taxRuleVersion facts))])) (\<lambda>_. ret ())
      else ret ()))"

text \<open>The three caps: the invoice, and per path the money that path is about.\<close>

definition fee_caps :: "bool \<Rightarrow> int \<Rightarrow> int \<Rightarrow> int \<Rightarrow> SettlementRefund list \<Rightarrow> unit res" where
  "fee_caps paid amountMinor totalMinor receivedMinor prior =
     bindr (check (refunds_minor prior + amountMinor \<le> totalMinor) (Conflict ''refund_exceeds_invoice'')) (\<lambda>_.
     if paid
     then check (refunds_minor (absorbed ''revenue_reversed'' prior) + amountMinor \<le> receivedMinor)
            (Conflict ''refund_exceeds_collected'')
     else check (refunds_minor prior + amountMinor \<le> totalMinor - receivedMinor)
            (Conflict ''refund_exceeds_unpaid_balance''))"

definition fee_refund ::
  "env \<Rightarrow> string \<Rightarrow> string \<Rightarrow> CorporateInvoice \<Rightarrow> string \<Rightarrow> string \<Rightarrow> instant \<Rightarrow> int \<Rightarrow> (db, RefundOutcome) prog"
where
  "fee_refund e actorUserId reasonCode invoice evidenceRef reason refundedAt amountMinor =
     (let amount = fromMinor amountMinor SAR; paid = (ci_status invoice = ''paid'');
          totalMinor = to_minor (moneyToNumber (MoneyDecimal (ci_totalAmount invoice))) SAR;
          vatMinor = (case ci_vatAmount invoice of None \<Rightarrow> 0
                      | Some v \<Rightarrow> to_minor (moneyToNumber (MoneyDecimal v)) SAR) in
      seq (require (ci_status invoice = ''issued'' \<or> paid)
            (BadRequest (''refund_requires_active_invoice:'' @ ci_status invoice))) (\<lambda>_.
      seq (reads (\<lambda>s. (receiptTotalMinor corporate_type (ci_id invoice) s, refunds_of corporate_type (ci_id invoice) s))) (\<lambda>(receivedMinor, prior).
      seq (lift (fee_caps paid amountMinor totalMinor receivedMinor prior)) (\<lambda>_.
      let vatComponentMinor = vat_component_minor amountMinor (refunds_minor prior) totalMinor vatMinor (refunds_vat_minor prior);
          vatComponent = fromMinor vatComponentMinor SAR;
          netComponent = fromMinor (amountMinor - vatComponentMinor) SAR in
      seq (lift (to_dec amount)) (\<lambda>amountDec.
      seq (lift (to_dec vatComponent)) (\<lambda>vatDec.
      seq (create db_refunds db_refunds_update refund_clash
            \<lparr> rf_id = en_uuid e 20, rf_invoiceType = corporate_type, rf_invoiceId = ci_id invoice,
              rf_storeId = None, rf_orgId = ci_orgId invoice, rf_campaignId = ci_campaignId invoice,
              rf_currency = ''SAR'', rf_amount = amountDec, rf_vatComponent = vatDec, rf_reason = reason,
              rf_evidenceRef = evidenceRef, rf_refundedAt = refundedAt, rf_recordedBy = actorUserId,
              rf_settlementInteraction = (if paid then ''revenue_reversed'' else ''invoice_reduced'') \<rparr>) (\<lambda>refund.
      seq (mint_qd e) (\<lambda>qd.
      seq (mintQn e) (\<lambda>referenceNumber.
      let facts = fee_facts e actorUserId reasonCode invoice refund qd referenceNumber amount vatComponent netComponent in
      seq (issue_credit_note e actorUserId facts) (\<lambda>note.
      seq (fee_postings actorUserId reasonCode invoice refund facts amountMinor vatComponentMinor) (\<lambda>_.
      ret (NewRefund refund note))))))))))))"

definition fee_transaction ::
  "env \<Rightarrow> string \<Rightarrow> string \<Rightarrow> string \<Rightarrow> string \<Rightarrow> string \<Rightarrow> instant \<Rightarrow> int \<Rightarrow> (db, RefundOutcome) prog"
where
  "fee_transaction e actorUserId reasonCode invoiceId evidenceRef reason refundedAt amountMinor =
     transaction (
       seq (reads (\<lambda>s. find (\<lambda>v. ci_id v = invoiceId) (db_corporate s))) (\<lambda>read.
       seq (found read (NotFound ''invoice_not_found'')) (\<lambda>invoice.
       seq (require (ci_currency invoice = ''SAR'') (BadRequest ''refund_currency_unsupported'')) (\<lambda>_.
       seq (reads (find_refund corporate_type (ci_id invoice) evidenceRef)) (\<lambda>existing.
       case existing of
         Some r \<Rightarrow> ret (ReplayedRefund r)
       | None \<Rightarrow> fee_refund e actorUserId reasonCode invoice evidenceRef reason refundedAt amountMinor)))))"

definition fee_audits :: "string \<Rightarrow> string \<Rightarrow> SettlementRefund \<Rightarrow> CreditNote \<Rightarrow> rat \<Rightarrow> (db, unit) prog" where
  "fee_audits actorUserId reasonCode refund note amount =
     seq (audit_guaranteed (audit_input actorUserId ''finance.credit_note.issued'' ''organization'' (Some (rf_orgId refund))
            [(''creditNoteReference'', JStr (nf_referenceNumber (cn_facts note))),
             (''qiftCreditNoteNumber'', jopt (nf_qiftCreditNoteNumber (cn_facts note))),
             (''issuerType'', JStr ''QIFT''), (''refundId'', JStr (rf_id refund)),
             (''invoiceId'', JStr (rf_invoiceId refund)), (''amount'', JNum amount),
             (''vatComponent'', JNum (moneyToNumber (MoneyDecimal (rf_vatComponent refund))))])
            (''finance.credit_note.issued:'' @ rf_id refund)) (\<lambda>_.
     audit_guaranteed (audit_input actorUserId ''finance.refund.recorded'' ''organization'' (Some (rf_orgId refund))
            [(''refundId'', JStr (rf_id refund)), (''invoiceType'', JStr corporate_type),
             (''invoiceId'', JStr (rf_invoiceId refund)), (''amount'', JNum amount),
             (''vatComponent'', JNum (moneyToNumber (MoneyDecimal (rf_vatComponent refund)))),
             (''currency'', JStr ''SAR''), (''reason'', JStr (rf_reason refund)), (''reasonCode'', JStr reasonCode),
             (''evidenceRef'', JStr (rf_evidenceRef refund)),
             (''settlementInteraction'', JStr (rf_settlementInteraction refund))])
            (''finance.refund.recorded:'' @ rf_id refund))"

definition recordFeeRefund :: "env \<Rightarrow> string \<Rightarrow> RecordRefundInput \<Rightarrow> (db, RefundResult) prog" where
  "recordFeeRefund e actorUserId input =
     seq (require (non_blank (ru_invoiceId input)) (BadRequest ''refund_invoice_id_required'')) (\<lambda>_.
     let evidenceRef = js_trim (ru_evidenceRef input); reason = js_trim (ru_reason input);
         reasonCode = (case ru_reasonCode input of None \<Rightarrow> [] | Some c \<Rightarrow> js_trim c) in
     seq (require (evidenceRef \<noteq> []) (BadRequest ''refund_evidence_required'')) (\<lambda>_.
     seq (require (reason \<noteq> []) (BadRequest ''refund_reason_required'')) (\<lambda>_.
     seq (require (reasonCode \<in> set FEE_REFUND_REASON_CODES) (BadRequest ''fee_refund_reason_code_required'')) (\<lambda>_.
     seq (require (\<not> truthy (ru_merchantCreditNoteNumber input) \<and> \<not> truthy (ru_onBehalfAuthorizationRef input))
           (BadRequest ''credit_note_series_separation:fee_leg_never_merchant_series'')) (\<lambda>_.
     seq (lift (refund_date e input)) (\<lambda>refundedAt.
     seq (lift (refund_amount (ru_amount input))) (\<lambda>amountMinor.
     seq (resolve_replay corporate_type (ru_invoiceId input) evidenceRef
           (fee_transaction e actorUserId reasonCode (ru_invoiceId input) evidenceRef reason refundedAt amountMinor)) (\<lambda>outcome.
     let coverage = (\<lambda>r. if rf_settlementInteraction r = ''invoice_reduced''
           then seq (deriveAndApplyCoverage e actorUserId corporate_type (rf_invoiceId r)) (\<lambda>_. ret ())
           else ret ()) in
     case outcome of
       ReplayedRefund r \<Rightarrow>
         seq (require (refund_matches r amountMinor refundedAt) (Conflict ''refund_evidence_conflict'')) (\<lambda>_.
         seq (coverage r) (\<lambda>_.
         seq (replay_audit actorUserId ''organization'' (Some (rf_orgId r)) r (fromMinor amountMinor SAR) reason evidenceRef) (\<lambda>_.
         ret \<lparr> rs_refund = r, rs_replayed = True \<rparr>)))
     | NewRefund r note \<Rightarrow>
         seq (fee_audits actorUserId reasonCode r note (fromMinor amountMinor SAR)) (\<lambda>_.
         seq (coverage r) (\<lambda>_.
         ret \<lparr> rs_refund = r, rs_replayed = False \<rparr>))))))))))"

definition recordRefund :: "env \<Rightarrow> string \<Rightarrow> RecordRefundInput \<Rightarrow> (db, RefundResult) prog" where
  "recordRefund e actorUserId input =
     seq (lift (refund_gates_open e)) (\<lambda>_.
     if ru_invoiceType input = corporate_type then recordFeeRefund e actorUserId input
     else recordGoodsRefund e actorUserId input)"

section \<open>Read models and the replay of a credit note\<close>

definition listRefunds :: "string \<Rightarrow> string \<Rightarrow> db \<Rightarrow> (SettlementRefund list \<times> CreditNote list) res" where
  "listRefunds invoiceType invoiceId s =
     bindr (check (invoiceType = merchant_type \<or> invoiceType = corporate_type) (BadRequest ''refund_invoice_type_unknown'')) (\<lambda>_.
     bindr (check (non_blank invoiceId) (BadRequest ''refund_invoice_id_required'')) (\<lambda>_.
     Inr (order_by (\<lambda>r. (rf_refundedAt r, rf_id r)) (refunds_of invoiceType invoiceId s),
          order_by (\<lambda>n. (nf_issuedAt (cn_facts n), cn_id n))
            (filter (\<lambda>n. nf_invoiceType (cn_facts n) = invoiceType \<and> nf_invoiceId (cn_facts n) = invoiceId) (db_creditNotes s)))))"

record CreditNoteReplay =
  cr_creditNoteReference :: string
  cr_identical :: bool
  cr_canonicalIdentical :: bool
  cr_hashIdentical :: bool
  cr_storedHash :: string
  cr_regeneratedHash :: string

definition replayCreditNote :: "env \<Rightarrow> string \<Rightarrow> string \<Rightarrow> (db, CreditNoteReplay) prog" where
  "replayCreditNote e actorUserId refundId =
     seq (require (non_blank refundId) (BadRequest ''refund_id_required'')) (\<lambda>_.
     seq (reads (\<lambda>s. find (\<lambda>n. nf_refundId (cn_facts n) = refundId) (db_creditNotes s))) (\<lambda>read.
     seq (found read (NotFound ''credit_note_not_found'')) (\<lambda>note.
     let facts = cn_facts note;
         canonicalIdentical = (creditNoteCanonical facts = cn_canonicalJson note);
         hashIdentical = (creditNoteHash (en_sha e) facts = cn_documentHash note);
         identical = (canonicalIdentical \<and> hashIdentical) in
     seq (audit_record (audit_input actorUserId ''settlement.credit_note.replayed''
            (if truthy (nf_storeId facts) then ''store'' else ''organization'')
            (Some (case nf_storeId facts of None \<Rightarrow> nf_orgId facts | Some st \<Rightarrow> st))
            [(''creditNoteReference'', JStr (nf_referenceNumber facts)), (''refundId'', JStr refundId),
             (''documentVersion'', JStr ''v3''), (''identical'', JBool identical)])) (\<lambda>_.
     ret \<lparr> cr_creditNoteReference = nf_referenceNumber facts, cr_identical = identical,
           cr_canonicalIdentical = canonicalIdentical, cr_hashIdentical = hashIdentical,
           cr_storedHash = cn_documentHash note, cr_regeneratedHash = creditNoteHash (en_sha e) facts \<rparr>))))"

definition openReceivables :: "env \<Rightarrow> string option \<Rightarrow> db \<Rightarrow> string \<times> SettlementReceivable list" where
  "openReceivables e storeId s =
     (toISOString (clk e 20),
      order_by (\<lambda>r. (sr_accruedAt r, sr_id r))
        (filter (\<lambda>r. sr_state r = R_open \<and> (truthy storeId \<longrightarrow> Some (sr_storeId r) = storeId)) (db_receivables s)))"

end
