(* ===== verification/Frame_Rules.thy ===== *)
theory Frame_Rules
  imports Database
begin

text \<open>
  Frame rules: what a program leaves as it was. An observation of the database is left alone by
  a program when no run of it, failed or not, changes what the observation sees; that follows
  from the tables the program writes.
\<close>

named_theorems leaves_intros \<open>programs that leave an observation alone\<close>

definition leaves :: "('s \<Rightarrow> 'b) \<Rightarrow> ('s, 'a) prog \<Rightarrow> bool" where
  "leaves g m \<longleftrightarrow> (\<forall>R. keeps (\<lambda>s. g s = R) m)"

lemma leavesD: "leaves g m \<Longrightarrow> g (snd (m s)) = g s"
  by (auto simp: leaves_def keeps_def)

lemma leaves_runD: "leaves g m \<Longrightarrow> m s = (r, s') \<Longrightarrow> g s' = g s"
  by (metis leavesD snd_conv)

lemma leavesI: "(\<And>s. g (snd (m s)) = g s) \<Longrightarrow> leaves g m"
  by (simp add: leaves_def keeps_def)

section \<open>Program structure\<close>

lemma leaves_basic [leaves_intros]:
  "leaves g (ret x)" "leaves g (raise e)" "leaves g (reads f)" "leaves g (lift r)" "leaves g (require b e)"
  "leaves g (found v e)"
  by (simp_all add: leaves_def keeps_intros)

lemma leaves_seq [leaves_intros]: "leaves g m \<Longrightarrow> (\<And>x. leaves g (k x)) \<Longrightarrow> leaves g (seq m k)"
  by (simp add: leaves_def keeps_seq)

lemma leaves_attempt [leaves_intros]: "leaves g m \<Longrightarrow> (\<And>e. leaves g (h e)) \<Longrightarrow> leaves g (attempt m h)"
  by (simp add: leaves_def keeps_attempt)

lemma leaves_if [leaves_intros]: "leaves g m \<Longrightarrow> leaves g n \<Longrightarrow> leaves g (if b then m else n)"
  by simp

lemma leaves_let [leaves_intros]: "leaves g (f v) \<Longrightarrow> leaves g (let x = v in f x)"
  by simp

lemma leaves_option [leaves_intros]:
  "leaves g m \<Longrightarrow> (\<And>x. leaves g (k x)) \<Longrightarrow> leaves g (case v of None \<Rightarrow> m | Some x \<Rightarrow> k x)"
  by (cases v) simp_all

lemma leaves_prod [leaves_intros]: "(\<And>x y. leaves g (k x y)) \<Longrightarrow> leaves g (case p of (x, y) \<Rightarrow> k x y)"
  by (cases p) simp

lemma leaves_each [leaves_intros]: "(\<And>x. leaves g (f x)) \<Longrightarrow> leaves g (each f xs)"
  by (simp add: leaves_def keeps_each)

lemma leaves_transaction [leaves_intros]: "leaves g m \<Longrightarrow> leaves g (transaction m)"
  by (rule leavesI) (auto simp: transaction_def dest: leaves_runD split: prod.splits sum.splits)

lemma leaves_unique [leaves_intros]:
  "(\<And>c. leaves g (m c)) \<Longrightarrow> leaves g n \<Longrightarrow>
     leaves g (case ex of BadRequest c \<Rightarrow> n | Conflict c \<Rightarrow> n | NotFound c \<Rightarrow> n | Forbidden c \<Rightarrow> n | Unprocessable c \<Rightarrow> n | Unauthorized c \<Rightarrow> n | HttpError k c \<Rightarrow> n | JsError c \<Rightarrow> n
       | IllegalBinding c \<Rightarrow> n | P2002 c \<Rightarrow> m c | DbRange c \<Rightarrow> n)"
  by (cases ex) simp_all

text \<open>Where in a program the observation can change at all.\<close>

lemma leaves_tail: "(\<And>x. leaves g (k x)) \<Longrightarrow> g (snd (seq m k s)) = g (snd (m s))"
  by (simp add: seq_def leavesD split: prod.split sum.split)

lemma leaves_handler: "(\<And>e. leaves g (h e)) \<Longrightarrow> g (snd (attempt m h s)) = g (snd (m s))"
  by (simp add: attempt_def leavesD split: prod.split sum.split)

lemma transaction_cases:
  "snd (transaction m s) = s \<or> (\<exists>x s'. m s = (Inr x, s') \<and> transaction m s = (Inr x, s'))"
  by (simp add: transaction_def split: prod.split sum.split)

section \<open>Tables\<close>

lemma leaves_create [leaves_intros]: "(\<And>f s. g (upd f s) = g s) \<Longrightarrow> leaves g (create get upd clash r)"
  by (simp add: leaves_def keeps_create)

lemma leaves_updateMany [leaves_intros]: "(\<And>f s. g (upd f s) = g s) \<Longrightarrow> leaves g (updateMany get upd p f)"
  by (simp add: leaves_def keeps_updateMany)

lemma leaves_ledger: "(\<And>f s. g (db_ledger_update f s) = g s) \<Longrightarrow> leaves g (ledger_record i)"
  by (rule leavesI) (simp add: ledger_record_def on_table_def split: prod.split)

lemma leaves_guaranteed [leaves_intros]: "(\<And>f s. g (db_audit_update f s) = g s) \<Longrightarrow> leaves g (audit_guaranteed i k)"
  by (rule leavesI) (simp add: audit_guaranteed_def on_table_def split: prod.split)

lemma leaves_audit [leaves_intros]: "(\<And>f s. g (db_audit_update f s) = g s) \<Longrightarrow> leaves g (audit_record i)"
  by (rule leavesI) (simp add: audit_record_def on_table_def split: prod.split)

end
