(* ===== verification/Frames.thy ===== *)
theory Frames
  imports Receipts Frame_Rules
begin

text \<open>
  Frame rules for the coverage of an invoice: what deriving and applying it leaves as it was.
\<close>

section \<open>Deriving coverage\<close>

lemma leaves_paid_audit [leaves_intros]: "(\<And>f s. g (db_audit_update f s) = g s) \<Longrightarrow> leaves g (paid_audit u t i v c x)"
  unfolding paid_audit_def by (intro leaves_intros)

lemma corporate_not_merchant [simp]:
  "(corporate_type = merchant_type) = False" "(merchant_type = corporate_type) = False"
  by (simp_all add: corporate_type_def merchant_type_def)

text \<open>
  The coverage of a corporate invoice writes invoice rows, the audit log and ledger rows
  without a store.
\<close>

lemma leaves_corporate_artifacts [leaves_intros]:
  "(\<And>i. li_storeId i = None \<Longrightarrow> leaves g (ledger_record i)) \<Longrightarrow> leaves g (ensureCoverageArtifacts e u corporate_type v)"
  unfolding ensureCoverageArtifacts_def Let_def if_P [OF refl]
  by (intro leaves_intros) (simp_all add: ledger_base_def)

lemma leaves_close_by_credit [leaves_intros]:
  "(\<And>f s. g (db_audit_update f s) = g s) \<Longrightarrow> (\<And>f s. g (db_corporate_update f s) = g s) \<Longrightarrow> leaves g (close_by_credit u i v p)"
  unfolding close_by_credit_def by (intro leaves_intros)

lemma leaves_corporate_coverage [leaves_intros]:
  assumes "\<And>i. li_storeId i = None \<Longrightarrow> leaves g (ledger_record i)" "\<And>f s. g (db_audit_update f s) = g s"
    and "\<And>f s. g (db_corporate_update f s) = g s"
  shows "leaves g (deriveAndApplyCoverage e u corporate_type i)"
  unfolding deriveAndApplyCoverage_def heal_paid_def flip_paid_def Let_def corporate_not_merchant if_False
  by (intro leaves_intros assms)

end
