(* ===== verification/Refund_Laws.thy ===== *)
theory Refund_Laws
  imports Frames Refunds
begin

text \<open>
  What refunding money guarantees: a service-fee refund never touches merchant money; a refund
  is recorded at most once and never beyond what was collected or charged, and reverses no
  more VAT than the invoice froze; the credit note it issues replays.
\<close>

section \<open>Frames of the shared parts\<close>

lemma leaves_next_in_sequence [leaves_intros]:
  "(\<And>f s. g (db_sequences_update f s) = g s) \<Longrightarrow> leaves g (next_in_sequence k)"
  by (rule leavesI) (simp add: next_in_sequence_def split: option.split)

lemma leaves_mint [leaves_intros]: "leaves g (mintQn e)"
  unfolding mintQn_def by (intro leaves_intros)

lemma leaves_mint_qd [leaves_intros]: "(\<And>f s. g (db_sequences_update f s) = g s) \<Longrightarrow> leaves g (mint_qd e)"
  unfolding mint_qd_def by (intro leaves_intros)

lemma leaves_issue_note [leaves_intros]:
  "(\<And>f s. g (db_creditNotes_update f s) = g s) \<Longrightarrow> (\<And>f s. g (db_creditNoteVersions_update f s) = g s)
     \<Longrightarrow> leaves g (issue_credit_note e u facts)"
  unfolding issue_credit_note_def by (intro leaves_intros)

lemma leaves_replay_audit [leaves_intros]:
  "(\<And>f s. g (db_audit_update f s) = g s) \<Longrightarrow> leaves g (replay_audit u tt ti r a b c)"
  unfolding replay_audit_def by (intro leaves_intros)

lemma leaves_resolve [leaves_intros]: "leaves g m \<Longrightarrow> leaves g (resolve_replay t i ev m)"
  unfolding resolve_replay_def by (intro leaves_intros)

lemma leaves_outcome [leaves_intros]:
  "(\<And>r. leaves g (m r)) \<Longrightarrow> (\<And>r n. leaves g (k r n)) \<Longrightarrow>
     leaves g (case v of ReplayedRefund r \<Rightarrow> m r | NewRefund r n \<Rightarrow> k r n)"
  by (cases v) simp_all

section \<open>The fee leg\<close>

lemma leaves_fee_postings [leaves_intros]:
  "(\<And>i. li_storeId i = None \<Longrightarrow> leaves g (ledger_record i)) \<Longrightarrow> leaves g (fee_postings u rc invoice r f a v)"
  unfolding fee_postings_def by (intro leaves_intros) (simp_all add: fee_base_def ledger_base_def)

lemma leaves_fee_audits [leaves_intros]: "(\<And>f s. g (db_audit_update f s) = g s) \<Longrightarrow> leaves g (fee_audits u rc r n a)"
  unfolding fee_audits_def by (intro leaves_intros)

lemma leaves_fee_refund:
  assumes "\<And>i. li_storeId i = None \<Longrightarrow> leaves g (ledger_record i)" "\<And>f s. g (db_audit_update f s) = g s"
    and "\<And>f s. g (db_corporate_update f s) = g s" "\<And>f s. g (db_refunds_update f s) = g s"
    and "\<And>f s. g (db_sequences_update f s) = g s" "\<And>f s. g (db_creditNotes_update f s) = g s"
    and "\<And>f s. g (db_creditNoteVersions_update f s) = g s"
  shows "leaves g (recordFeeRefund e u input)"
  unfolding recordFeeRefund_def fee_transaction_def fee_refund_def
  by (intro leaves_intros assms)

text \<open>Merchant money: the goods side of the database and every posting about a store.\<close>

definition merchant_money :: "db \<Rightarrow> SettlementItem list \<times> SettlementReceivable list \<times> MerchantInvoice list
    \<times> SettlementBatch list \<times> SettlementRemittance list \<times> PaymentReceipt list \<times> LedgerEntry list" where
  "merchant_money s = (db_items s, db_receivables s, db_merchant s, db_batches s, db_remittances s, db_receipts s,
     filter (\<lambda>r. le_storeId r \<noteq> None) (db_ledger s))"

lemma record_entry_store:
  "record_entry i t = (x, t') \<Longrightarrow> li_storeId i = None \<Longrightarrow>
     filter (\<lambda>r. le_storeId r \<noteq> None) t' = filter (\<lambda>r. le_storeId r \<noteq> None) t"
  by (drule record_entry_cases) (auto simp: validate_entry_def Let_def prog_iff split: if_splits)

lemma ledger_leaves_merchant_money: "li_storeId i = None \<Longrightarrow> leaves merchant_money (ledger_record i)"
  by (rule leavesI) (auto simp: ledger_record_def on_table_def merchant_money_def record_entry_store simp del: not_None_eq split: prod.split)

section \<open>The goods leg\<close>

definition refund_view :: "db \<Rightarrow> SettlementRefund list \<times> PaymentReceipt list" where
  "refund_view s = (db_refunds s, db_receipts s)"

lemma view_item_interaction [leaves_intros]: "(\<And>f s. g (db_items_update f s) = g s) \<Longrightarrow> leaves g (item_interaction i a)"
  unfolding item_interaction_def shrink_item_def
  by (cases "si_state i"; simp only: ItemState.case; intro leaves_intros)

lemma view_reverse [leaves_intros]: "(\<And>f s. g (db_items_update f s) = g s) \<Longrightarrow> leaves g (reverse_item i a)"
  unfolding reverse_item_def by (intro leaves_intros)

lemma view_accrue [leaves_intros]:
  "(\<And>i. leaves g (ledger_record i)) \<Longrightarrow> (\<And>f s. g (db_receivables_update f s) = g s) \<Longrightarrow> leaves g (accrue_receivable e u v r a)"
  unfolding accrue_receivable_def by (intro leaves_intros)

lemma view_goods_posting [leaves_intros]: "(\<And>i. leaves g (ledger_record i)) \<Longrightarrow> leaves g (goods_posting u v r a w)"
  unfolding goods_posting_def by (intro leaves_intros)

lemma view_goods_audits [leaves_intros]: "(\<And>f s. g (db_audit_update f s) = g s) \<Longrightarrow> leaves g (goods_audits u r a)"
  unfolding goods_audits_def by (intro leaves_intros)

lemma view_ledger: "leaves refund_view (ledger_record i)"
  by (rule leaves_ledger) (simp add: refund_view_def)

lemma refund_view_simps [simp]:
  "refund_view (db_items_update f1 s) = refund_view s" "refund_view (db_audit_update f2 s) = refund_view s"
  "refund_view (db_receivables_update f3 s) = refund_view s" "refund_view (db_sequences_update f4 s) = refund_view s"
  "refund_view (db_creditNotes_update f5 s) = refund_view s" "refund_view (db_corporate_update f6 s) = refund_view s"
  "refund_view (db_creditNoteVersions_update f7 s) = refund_view s"
  by (simp_all add: refund_view_def)

lemma refund_view_eqD: "refund_view s' = refund_view s \<Longrightarrow> db_refunds s' = db_refunds s \<and> db_receipts s' = db_receipts s"
  by (simp add: refund_view_def)

text \<open>What a refund row says of the request it comes from.\<close>

definition refund_row :: "string \<Rightarrow> RecordRefundInput \<Rightarrow> string \<Rightarrow> int \<Rightarrow> SettlementRefund \<Rightarrow> bool" where
  "refund_row actor input invoiceType m r \<longleftrightarrow>
     rf_invoiceType r = invoiceType \<and> rf_invoiceId r = ru_invoiceId input
     \<and> rf_amount r = m \<and> 0 < m \<and> rf_recordedBy r = actor
     \<and> rf_evidenceRef r = js_trim (ru_evidenceRef input) \<and> Some (rf_refundedAt r) = ru_refundedAt input"

lemma goods_refund_effect:
  assumes "goods_refund e u input invoice ev reason d m s = (Inr x, s')"
  shows "\<exists>r n. x = NewRefund r n \<and> db_refunds s' = db_refunds s @ [r] \<and> db_receipts s' = db_receipts s
    \<and> mi_status invoice = ''paid'' \<and> rf_invoiceType r = merchant_type \<and> rf_invoiceId r = mi_id invoice
    \<and> rf_amount r = m \<and> \<bar>m\<bar> < 10 ^ 12 \<and> \<bar>rf_vatComponent r\<bar> < 10 ^ 12
    \<and> rf_recordedBy r = u \<and> rf_evidenceRef r = ev \<and> rf_refundedAt r = d
    \<and> refunds_minor (refunds_of merchant_type (mi_id invoice) s) + m \<le> receiptTotalMinor merchant_type (mi_id invoice) s
    \<and> rf_vatComponent r = vat_component_minor m (refunds_minor (refunds_of merchant_type (mi_id invoice) s))
            (to_minor (moneyToNumber (MoneyDecimal (mi_totalAmount invoice))) SAR)
            (to_minor (moneyToNumber (MoneyDecimal (mi_vatAmount invoice))) SAR)
            (refunds_vat_minor (refunds_of merchant_type (mi_id invoice) s))"
proof -
  let ?vat = "vat_component_minor m (refunds_minor (refunds_of merchant_type (mi_id invoice) s))
            (to_minor (moneyToNumber (MoneyDecimal (mi_totalAmount invoice))) SAR)
            (to_minor (moneyToNumber (MoneyDecimal (mi_vatAmount invoice))) SAR)
            (refunds_vat_minor (refunds_of merchant_type (mi_id invoice) s))"
  from assms obtain item interaction s1 k kv r s2 source qn s3 n s4 s5 where
      paid: "mi_status invoice = ''paid''"
      and cap: "refunds_minor (refunds_of merchant_type (mi_id invoice) s) + m \<le> receiptTotalMinor merchant_type (mi_id invoice) s"
      and inter: "item_interaction item m s = (Inr interaction, s1)"
      and k: "to_dec (fromMinor m SAR) = Inr k" and kv: "to_dec (fromMinor ?vat SAR) = Inr kv"
      and r: "r = \<lparr> rf_id = en_uuid e 20, rf_invoiceType = merchant_type, rf_invoiceId = mi_id invoice,
              rf_storeId = Some (mi_storeId invoice), rf_orgId = mi_orgId invoice,
              rf_campaignId = mi_campaignId invoice, rf_currency = ''SAR'', rf_amount = k,
              rf_vatComponent = kv, rf_reason = reason, rf_evidenceRef = ev,
              rf_refundedAt = d, rf_recordedBy = u,
              rf_settlementInteraction = interaction \<rparr>"
      and s2: "s2 = db_refunds_update (\<lambda>t. t @ [r]) s1"
      and mint: "mintQn e s2 = (Inr qn, s3)"
      and note_run: "issue_credit_note e u (goods_facts e u input invoice r qn source (fromMinor m SAR) (fromMinor ?vat SAR)) s3 = (Inr n, s4)"
      and post: "goods_posting u invoice r (fromMinor m SAR) (fromMinor ?vat SAR) s4 = (Inr (), s5)"
      and rest: "(if interaction = ''receivable_accrued''
           then seq (accrue_receivable e u invoice r (fromMinor m SAR)) (\<lambda>_.
                reverse_item item (refunds_minor (absorbed ''receivable_accrued'' (refunds_of merchant_type (mi_id invoice) s)) + m))
           else ret ()) s5 = (Inr (), s')"
      and x: "x = NewRefund r n"
    by (auto simp: goods_refund_def Let_def seq_iff reads_iff lift_iff require_iff found_iff create_iff ret_iff
          simp del: require_run reads_run)
  have "refund_view s1 = refund_view s"
    by (rule leaves_runD [OF view_item_interaction inter]) simp
  moreover have "refund_view s3 = refund_view s2" by (rule leaves_runD [OF leaves_mint mint])
  moreover have "refund_view s4 = refund_view s3" by (rule leaves_runD [OF leaves_issue_note note_run]) simp_all
  moreover have "refund_view s5 = refund_view s4" by (rule leaves_runD [OF view_goods_posting [OF view_ledger] post])
  moreover have "leaves refund_view (if interaction = ''receivable_accrued''
           then seq (accrue_receivable e u invoice r (fromMinor m SAR)) (\<lambda>_.
                reverse_item item (refunds_minor (absorbed ''receivable_accrued'' (refunds_of merchant_type (mi_id invoice) s)) + m))
           else ret ())"
    by (intro leaves_intros view_ledger refund_view_simps)
  from leaves_runD [OF this rest] have "refund_view s' = refund_view s5" .
  ultimately have "db_refunds s' = db_refunds s @ [r]" "db_receipts s' = db_receipts s"
    by (simp_all add: refund_view_def s2)
  moreover have "k = m" "kv = ?vat" using k kv to_dec_fromMinorD [of SAR] by auto
  ultimately show ?thesis using paid cap x to_dec_bound [OF k] to_dec_bound [OF kv] by (auto simp: r)
qed

lemma fee_refund_effect:
  assumes "fee_refund e u rc invoice ev reason d m s = (Inr x, s')"
  shows "\<exists>r n. x = NewRefund r n \<and> db_refunds s' = db_refunds s @ [r] \<and> db_receipts s' = db_receipts s
    \<and> (ci_status invoice = ''issued'' \<or> ci_status invoice = ''paid'')
    \<and> rf_invoiceType r = corporate_type \<and> rf_invoiceId r = ci_id invoice
    \<and> rf_amount r = m \<and> \<bar>m\<bar> < 10 ^ 12 \<and> \<bar>rf_vatComponent r\<bar> < 10 ^ 12
    \<and> rf_recordedBy r = u \<and> rf_evidenceRef r = ev \<and> rf_refundedAt r = d
    \<and> rf_settlementInteraction r = (if ci_status invoice = ''paid'' then ''revenue_reversed'' else ''invoice_reduced'')
    \<and> fee_caps (ci_status invoice = ''paid'') m (to_minor (moneyToNumber (MoneyDecimal (ci_totalAmount invoice))) SAR)
         (receiptTotalMinor corporate_type (ci_id invoice) s) (refunds_of corporate_type (ci_id invoice) s) = Inr ()
    \<and> rf_vatComponent r = vat_component_minor m (refunds_minor (refunds_of corporate_type (ci_id invoice) s))
            (to_minor (moneyToNumber (MoneyDecimal (ci_totalAmount invoice))) SAR)
            (case ci_vatAmount invoice of None \<Rightarrow> 0 | Some v \<Rightarrow> to_minor (moneyToNumber (MoneyDecimal v)) SAR)
            (refunds_vat_minor (refunds_of corporate_type (ci_id invoice) s))"
proof -
  let ?vat = "vat_component_minor m (refunds_minor (refunds_of corporate_type (ci_id invoice) s))
            (to_minor (moneyToNumber (MoneyDecimal (ci_totalAmount invoice))) SAR)
            (case ci_vatAmount invoice of None \<Rightarrow> 0 | Some v \<Rightarrow> to_minor (moneyToNumber (MoneyDecimal v)) SAR)
            (refunds_vat_minor (refunds_of corporate_type (ci_id invoice) s))"
  from assms obtain k kv r s2 qd s3 qn s4 n s5 where
      active: "ci_status invoice = ''issued'' \<or> ci_status invoice = ''paid''"
      and caps: "fee_caps (ci_status invoice = ''paid'') m (to_minor (moneyToNumber (MoneyDecimal (ci_totalAmount invoice))) SAR)
         (receiptTotalMinor corporate_type (ci_id invoice) s) (refunds_of corporate_type (ci_id invoice) s) = Inr ()"
      and k: "to_dec (fromMinor m SAR) = Inr k" and kv: "to_dec (fromMinor ?vat SAR) = Inr kv"
      and r: "r = \<lparr> rf_id = en_uuid e 20, rf_invoiceType = corporate_type, rf_invoiceId = ci_id invoice,
              rf_storeId = None, rf_orgId = ci_orgId invoice, rf_campaignId = ci_campaignId invoice,
              rf_currency = ''SAR'', rf_amount = k, rf_vatComponent = kv, rf_reason = reason,
              rf_evidenceRef = ev, rf_refundedAt = d, rf_recordedBy = u,
              rf_settlementInteraction = (if ci_status invoice = ''paid'' then ''revenue_reversed'' else ''invoice_reduced'') \<rparr>"
      and s2: "s2 = db_refunds_update (\<lambda>t. t @ [r]) s"
      and mintd: "mint_qd e s2 = (Inr qd, s3)" and mint: "mintQn e s3 = (Inr qn, s4)"
      and note_run: "issue_credit_note e u (fee_facts e u rc invoice r qd qn (fromMinor m SAR) (fromMinor ?vat SAR) (fromMinor (m - ?vat) SAR)) s4 = (Inr n, s5)"
      and post: "fee_postings u rc invoice r (fee_facts e u rc invoice r qd qn (fromMinor m SAR) (fromMinor ?vat SAR) (fromMinor (m - ?vat) SAR)) m ?vat s5 = (Inr (), s')"
      and x: "x = NewRefund r n"
    unfolding fee_refund_def Let_def
    by (auto simp: seq_iff reads_iff lift_iff require_iff create_iff ret_iff simp del: require_run reads_run)
  have "refund_view s3 = refund_view s2" by (rule leaves_runD [OF leaves_mint_qd mintd]) simp
  moreover have "refund_view s4 = refund_view s3" by (rule leaves_runD [OF leaves_mint mint])
  moreover have "refund_view s5 = refund_view s4" by (rule leaves_runD [OF leaves_issue_note note_run]) simp_all
  moreover have "refund_view s' = refund_view s5" by (rule leaves_runD [OF leaves_fee_postings [OF view_ledger] post])
  ultimately have "db_refunds s' = db_refunds s @ [r]" "db_receipts s' = db_receipts s"
    by (simp_all add: refund_view_def s2)
  moreover have "k = m" "kv = ?vat" using k kv to_dec_fromMinorD [of SAR] by auto
  ultimately show ?thesis using active caps x to_dec_bound [OF k] to_dec_bound [OF kv] by (auto simp: r)
qed

section \<open>The bounds of a refund\<close>

text \<open>
  VAT is reversed up to what the invoice froze, and the refund that completes the invoice
  reverses the rest of it.
\<close>

definition vat_reversed :: "int \<Rightarrow> int \<Rightarrow> SettlementRefund \<Rightarrow> SettlementRefund list \<Rightarrow> SettlementRefund list \<Rightarrow> bool" where
  "vat_reversed totalMinor vatMinor r before after \<longleftrightarrow>
     refunds_vat_minor after \<le> max (refunds_vat_minor before) vatMinor
     \<and> (refunds_minor after = totalMinor \<and> 0 \<le> vatMinor - refunds_vat_minor before
          \<and> vatMinor - refunds_vat_minor before \<le> rf_amount r \<longrightarrow> refunds_vat_minor after = vatMinor)"

definition goods_within :: "SettlementRefund \<Rightarrow> db \<Rightarrow> db \<Rightarrow> bool" where
  "goods_within r s s' \<longleftrightarrow>
     (\<exists>v. find (\<lambda>v. mi_id v = rf_invoiceId r) (db_merchant s) = Some v \<and> mi_status v = ''paid''
        \<and> refunds_minor (refunds_of merchant_type (rf_invoiceId r) s') \<le> receiptTotalMinor merchant_type (rf_invoiceId r) s'
        \<and> vat_reversed (to_minor (dec_num (mi_totalAmount v)) SAR) (to_minor (dec_num (mi_vatAmount v)) SAR) r
            (refunds_of merchant_type (rf_invoiceId r) s) (refunds_of merchant_type (rf_invoiceId r) s'))"

definition fee_within :: "SettlementRefund \<Rightarrow> db \<Rightarrow> db \<Rightarrow> bool" where
  "fee_within r s s' \<longleftrightarrow>
     (\<exists>v full after received. find (\<lambda>v. ci_id v = rf_invoiceId r) (db_corporate s) = Some v
        \<and> full = to_minor (dec_num (ci_totalAmount v)) SAR
        \<and> after = refunds_of corporate_type (rf_invoiceId r) s'
        \<and> received = receiptTotalMinor corporate_type (rf_invoiceId r) s'
        \<and> refunds_minor after \<le> full
        \<and> (if ci_status v = ''paid'' then refunds_minor (absorbed ''revenue_reversed'' after) \<le> received
           else ci_status v = ''issued'' \<and> refunds_minor after \<le> full - received)
        \<and> vat_reversed full (case ci_vatAmount v of None \<Rightarrow> 0 | Some w \<Rightarrow> to_minor (dec_num w) SAR) r
            (refunds_of corporate_type (rf_invoiceId r) s) after)"

definition refund_within :: "SettlementRefund \<Rightarrow> db \<Rightarrow> db \<Rightarrow> bool" where
  "refund_within r s s' \<longleftrightarrow> (if rf_invoiceType r = corporate_type then fee_within r s s' else goods_within r s s')"

lemma refunds_minor_snoc: "\<bar>rf_amount r\<bar> < 10 ^ 12 \<Longrightarrow> refunds_minor (rs @ [r]) = refunds_minor rs + rf_amount r"
  by (simp add: refunds_minor_def)

lemma refunds_vat_snoc: "\<bar>rf_vatComponent r\<bar> < 10 ^ 12 \<Longrightarrow> refunds_vat_minor (rs @ [r]) = refunds_vat_minor rs + rf_vatComponent r"
  by (simp add: refunds_vat_minor_def)

lemma refunds_of_snoc:
  "db_refunds s' = db_refunds s @ [r] \<Longrightarrow> rf_invoiceType r = t \<Longrightarrow> rf_invoiceId r = i \<Longrightarrow> refunds_of t i s' = refunds_of t i s @ [r]"
  by (simp add: refunds_of_def)

lemma vat_reversedI:
  assumes "rf_vatComponent r = vat_component_minor (rf_amount r) (refunds_minor rs) full vat (refunds_vat_minor rs)"
    and "\<bar>rf_amount r\<bar> < 10 ^ 12" "\<bar>rf_vatComponent r\<bar> < 10 ^ 12"
  shows "vat_reversed full vat r rs (rs @ [r])"
  unfolding vat_reversed_def refunds_minor_snoc [OF assms(2)] refunds_vat_snoc [OF assms(3)]
  using assms(1) by (auto simp: vat_component_minor_def split: if_splits)

definition refund_added :: "string \<Rightarrow> RecordRefundInput \<Rightarrow> db \<Rightarrow> db \<Rightarrow> bool" where
  "refund_added u input s s' \<longleftrightarrow> db_refunds s' = db_refunds s
    \<or> (\<exists>r m. toMinor (ru_amount input) SAR = Inr m \<and> refund_row u input (ru_invoiceType input) m r
         \<and> find_refund (ru_invoiceType input) (ru_invoiceId input) (rf_evidenceRef r) s = None
         \<and> db_refunds s' = db_refunds s @ [r] \<and> refund_within r s s')"

lemma refund_added_same: "refund_added u input s s"
  by (simp add: refund_added_def)

lemma refund_added_view: "refund_view s1 = refund_view s2 \<Longrightarrow> refund_added u input s s1 = refund_added u input s s2"
  by (simp add: refund_added_def refund_within_def goods_within_def fee_within_def refund_view_def
      refunds_of_def receiptTotalMinor_def receipts_of_def)

lemma goods_transaction_added:
  assumes "ru_invoiceType input = merchant_type" "ru_refundedAt input = Some d" "toMinor (ru_amount input) SAR = Inr m" "0 < m"
    and "ev = js_trim (ru_evidenceRef input)"
  shows "refund_added u input s (snd (goods_transaction e u input ev reason d m s))"
proof -
  let ?body = "seq (reads (\<lambda>s. find (\<lambda>v. mi_id v = ru_invoiceId input) (db_merchant s))) (\<lambda>read.
       seq (found read (NotFound ''invoice_not_found'')) (\<lambda>invoice.
       seq (require (mi_currency invoice = ''SAR'') (BadRequest ''refund_currency_unsupported'')) (\<lambda>_.
       seq (reads (find_refund merchant_type (mi_id invoice) ev)) (\<lambda>existing.
       case existing of
         Some r \<Rightarrow> ret (ReplayedRefund r)
       | None \<Rightarrow> goods_refund e u input invoice ev reason d m))))"
  have "refund_added u input s s'" if run: "?body s = (Inr x, s')" for x s'
  proof -
    from run obtain v where v: "find (\<lambda>v. mi_id v = ru_invoiceId input) (db_merchant s) = Some v"
      and step: "(case find_refund merchant_type (mi_id v) ev s of Some r \<Rightarrow> ret (ReplayedRefund r)
        | None \<Rightarrow> goods_refund e u input v ev reason d m) s = (Inr x, s')"
      by (auto simp: seq_iff reads_iff found_iff require_iff simp del: require_run reads_run)
    from find_in_set [OF v] have id: "mi_id v = ru_invoiceId input" by simp
    show ?thesis
    proof (cases "find_refund merchant_type (mi_id v) ev s")
      case (Some r)
      with step show ?thesis by (simp add: refund_added_same)
    next
      case None
      with step have "goods_refund e u input v ev reason d m s = (Inr x, s')" by simp
      from goods_refund_effect [OF this] obtain r where r: "db_refunds s' = db_refunds s @ [r]"
        "db_receipts s' = db_receipts s" "mi_status v = ''paid''" "rf_invoiceType r = merchant_type"
        "rf_invoiceId r = mi_id v" "rf_amount r = m" "\<bar>rf_amount r\<bar> < 10 ^ 12" "\<bar>rf_vatComponent r\<bar> < 10 ^ 12"
        "rf_recordedBy r = u" "rf_evidenceRef r = ev" "rf_refundedAt r = d"
        "refunds_minor (refunds_of merchant_type (mi_id v) s) + rf_amount r \<le> receiptTotalMinor merchant_type (mi_id v) s"
        "rf_vatComponent r = vat_component_minor (rf_amount r) (refunds_minor (refunds_of merchant_type (mi_id v) s))
            (to_minor (moneyToNumber (MoneyDecimal (mi_totalAmount v))) SAR)
            (to_minor (moneyToNumber (MoneyDecimal (mi_vatAmount v))) SAR)
            (refunds_vat_minor (refunds_of merchant_type (mi_id v) s))"
        by auto
      have after: "refunds_of merchant_type (ru_invoiceId input) s' = refunds_of merchant_type (ru_invoiceId input) s @ [r]"
        using refunds_of_snoc [OF r(1,4,5)] id by simp
      have same: "receiptTotalMinor t i s' = receiptTotalMinor t i s" for t i
        using r(2) by (simp add: receiptTotalMinor_def receipts_of_def)
      have "goods_within r s s'"
        using v r(3,5,12) id vat_reversedI [OF r(13,7,8)]
        by (simp add: goods_within_def after same refunds_minor_snoc [OF r(7)])
      then show ?thesis
        using r None assms id by (auto simp: refund_added_def refund_row_def refund_within_def)
    qed
  qed
  with transaction_cases [of ?body s] show ?thesis
    unfolding goods_transaction_def by (auto simp: refund_added_same)
qed

lemma fee_caps_within:
  assumes "fee_caps paid (rf_amount r) full received rs = Inr ()" and "\<bar>rf_amount r\<bar> < 10 ^ 12"
    and "rf_settlementInteraction r = (if paid then ''revenue_reversed'' else ''invoice_reduced'')"
  shows "refunds_minor (rs @ [r]) \<le> full
    \<and> (if paid then refunds_minor (absorbed ''revenue_reversed'' (rs @ [r])) \<le> received
       else refunds_minor (rs @ [r]) \<le> full - received)"
proof -
  have "absorbed ''revenue_reversed'' (rs @ [r]) = absorbed ''revenue_reversed'' rs @ [r]" if paid
    using assms(3) that by (simp add: absorbed_def)
  with assms(1) show ?thesis
    by (auto simp: fee_caps_def prog_iff refunds_minor_snoc [OF assms(2)] split: if_splits)
qed

lemma fee_transaction_added:
  assumes "ru_invoiceType input = corporate_type" "ru_refundedAt input = Some d" "toMinor (ru_amount input) SAR = Inr m" "0 < m"
    and "ev = js_trim (ru_evidenceRef input)"
  shows "refund_added u input s (snd (fee_transaction e u rc (ru_invoiceId input) ev reason d m s))"
proof -
  let ?body = "seq (reads (\<lambda>s. find (\<lambda>v. ci_id v = ru_invoiceId input) (db_corporate s))) (\<lambda>read.
       seq (found read (NotFound ''invoice_not_found'')) (\<lambda>invoice.
       seq (require (ci_currency invoice = ''SAR'') (BadRequest ''refund_currency_unsupported'')) (\<lambda>_.
       seq (reads (find_refund corporate_type (ci_id invoice) ev)) (\<lambda>existing.
       case existing of
         Some r \<Rightarrow> ret (ReplayedRefund r)
       | None \<Rightarrow> fee_refund e u rc invoice ev reason d m))))"
  have "refund_added u input s s'" if run: "?body s = (Inr x, s')" for x s'
  proof -
    from run obtain v where v: "find (\<lambda>v. ci_id v = ru_invoiceId input) (db_corporate s) = Some v"
      and step: "(case find_refund corporate_type (ci_id v) ev s of Some r \<Rightarrow> ret (ReplayedRefund r)
        | None \<Rightarrow> fee_refund e u rc v ev reason d m) s = (Inr x, s')"
      by (auto simp: seq_iff reads_iff found_iff require_iff simp del: require_run reads_run)
    from find_in_set [OF v] have id: "ci_id v = ru_invoiceId input" by simp
    show ?thesis
    proof (cases "find_refund corporate_type (ci_id v) ev s")
      case (Some r)
      with step show ?thesis by (simp add: refund_added_same)
    next
      case None
      with step have "fee_refund e u rc v ev reason d m s = (Inr x, s')" by simp
      from fee_refund_effect [OF this] obtain r where r: "db_refunds s' = db_refunds s @ [r]"
        "db_receipts s' = db_receipts s" "ci_status v = ''issued'' \<or> ci_status v = ''paid''" "rf_invoiceType r = corporate_type"
        "rf_invoiceId r = ci_id v" "rf_amount r = m" "\<bar>rf_amount r\<bar> < 10 ^ 12" "\<bar>rf_vatComponent r\<bar> < 10 ^ 12"
        "rf_recordedBy r = u" "rf_evidenceRef r = ev" "rf_refundedAt r = d"
        "rf_settlementInteraction r = (if ci_status v = ''paid'' then ''revenue_reversed'' else ''invoice_reduced'')"
        "fee_caps (ci_status v = ''paid'') (rf_amount r) (to_minor (moneyToNumber (MoneyDecimal (ci_totalAmount v))) SAR)
           (receiptTotalMinor corporate_type (ci_id v) s) (refunds_of corporate_type (ci_id v) s) = Inr ()"
        "rf_vatComponent r = vat_component_minor (rf_amount r) (refunds_minor (refunds_of corporate_type (ci_id v) s))
            (to_minor (moneyToNumber (MoneyDecimal (ci_totalAmount v))) SAR)
            (case ci_vatAmount v of None \<Rightarrow> 0 | Some w \<Rightarrow> to_minor (moneyToNumber (MoneyDecimal w)) SAR)
            (refunds_vat_minor (refunds_of corporate_type (ci_id v) s))"
        by auto
      have after: "refunds_of corporate_type (ru_invoiceId input) s' = refunds_of corporate_type (ru_invoiceId input) s @ [r]"
        using refunds_of_snoc [OF r(1,4,5)] id by simp
      have same: "receiptTotalMinor t i s' = receiptTotalMinor t i s" for t i
        using r(2) by (simp add: receiptTotalMinor_def receipts_of_def)
      have "fee_within r s s'"
        using v r(3,5) id vat_reversedI [OF r(14,7,8)] fee_caps_within [OF r(13,7,12)]
        by (auto simp: fee_within_def after same cong: option.case_cong)
      then show ?thesis
        using r None assms id by (auto simp: refund_added_def refund_row_def refund_within_def)
    qed
  qed
  with transaction_cases [of ?body s] show ?thesis
    unfolding fee_transaction_def by (auto simp: refund_added_same)
qed

lemma added_step: "still m \<Longrightarrow> (\<And>x. m s = (Inr x, s) \<Longrightarrow> refund_added u input s (snd (k x s))) \<Longrightarrow> refund_added u input s (snd (seq m k s))"
  by (rule still_step) (auto simp: refund_added_same)

lemma added_resolve:
  assumes "refund_added u input s (snd (m s))" and "\<And>x. leaves refund_view (k x)"
  shows "refund_added u input s (snd (seq (resolve_replay t i ev m) k s))"
proof -
  have "refund_view (snd (seq (resolve_replay t i ev m) k s)) = refund_view (snd (resolve_replay t i ev m s))"
    by (rule leaves_tail) (rule assms(2))
  also have "\<dots> = refund_view (snd (m s))"
    unfolding resolve_replay_def by (rule leaves_handler) (intro leaves_intros)
  finally show ?thesis using assms(1) refund_added_view by blast
qed

lemma goods_added: "refund_added u input s (snd (recordGoodsRefund e u input s))"
proof -
  have tail: "leaves refund_view (case outcome of
       ReplayedRefund r \<Rightarrow>
         seq (require (refund_matches r m d) (Conflict ''refund_evidence_conflict'')) (\<lambda>_.
         seq (replay_audit u ''store'' (rf_storeId r) r (fromMinor m SAR) reason ev) (\<lambda>_.
         ret \<lparr> rs_refund = r, rs_replayed = True \<rparr>))
     | NewRefund r note \<Rightarrow>
         seq (goods_audits u r (fromMinor m SAR)) (\<lambda>_.
         ret \<lparr> rs_refund = r, rs_replayed = False \<rparr>))" for outcome m d reason ev
    by (intro leaves_intros) simp_all
  show ?thesis
    unfolding recordGoodsRefund_def Let_def
    by (intro added_step still_simps added_resolve tail goods_transaction_added)
       (auto simp: refund_date_def refund_amount_def prog_iff split: option.splits if_splits)
qed

lemma fee_added:
  assumes "ru_invoiceType input = corporate_type"
  shows "refund_added u input s (snd (recordFeeRefund e u input s))"
proof -
  have tail: "leaves refund_view (case outcome of
       ReplayedRefund r \<Rightarrow>
         seq (require (refund_matches r m d) (Conflict ''refund_evidence_conflict'')) (\<lambda>_.
         seq (if rf_settlementInteraction r = ''invoice_reduced''
           then seq (deriveAndApplyCoverage e u corporate_type (rf_invoiceId r)) (\<lambda>_. ret ())
           else ret ()) (\<lambda>_.
         seq (replay_audit u ''organization'' (Some (rf_orgId r)) r (fromMinor m SAR) reason ev) (\<lambda>_.
         ret \<lparr> rs_refund = r, rs_replayed = True \<rparr>)))
     | NewRefund r note \<Rightarrow>
         seq (fee_audits u rc r note (fromMinor m SAR)) (\<lambda>_.
         seq (if rf_settlementInteraction r = ''invoice_reduced''
           then seq (deriveAndApplyCoverage e u corporate_type (rf_invoiceId r)) (\<lambda>_. ret ())
           else ret ()) (\<lambda>_.
         ret \<lparr> rs_refund = r, rs_replayed = False \<rparr>)))" for outcome m d reason ev rc
    by (intro leaves_intros view_ledger) simp_all
  show ?thesis
    unfolding recordFeeRefund_def Let_def
    by (intro added_step still_simps added_resolve tail fee_transaction_added)
       (use assms in \<open>auto simp: refund_date_def refund_amount_def prog_iff split: option.splits if_splits\<close>)
qed

section \<open>Properties\<close>

text \<open>
  C17: a refund is recorded at most once and within its bounds. Whatever happens in a call of
  \<open>recordRefund\<close>, the refunds table either stays as it was or gains exactly one row, with the
  amount asked for, under evidence not used before on the invoice; after it, the refunds of a
  goods invoice are within what was collected for it, those of a fee invoice within its total
  (in cash within what was collected, as a credit within what is unpaid), and no more VAT is
  reversed than the invoice froze, all of it when the refund completes the invoice.
\<close>

theorem refunds_within_bounds:
  "db_refunds (snd (recordRefund e u input s)) = db_refunds s
   \<or> (\<exists>r m. toMinor (ru_amount input) SAR = Inr m \<and> refund_row u input (ru_invoiceType input) m r
        \<and> find_refund (ru_invoiceType input) (ru_invoiceId input) (rf_evidenceRef r) s = None
        \<and> db_refunds (snd (recordRefund e u input s)) = db_refunds s @ [r]
        \<and> refund_within r s (snd (recordRefund e u input s)))"
proof -
  have "refund_added u input s (snd (recordRefund e u input s))"
    unfolding recordRefund_def by (intro added_step still_simps) (simp add: goods_added fee_added)
  then show ?thesis by (simp only: refund_added_def)
qed

text \<open>
  C23: the agent model. A refund of Qift's own fee, whatever happens in it, changes no
  settlement item, receivable, goods invoice, batch, remittance or receipt, and posts nothing
  about a store: the merchant never pays for it.
\<close>

theorem fee_refund_leaves_merchant_money:
  "merchant_money (snd (recordFeeRefund e u input s)) = merchant_money s"
  by (rule leavesD, rule leaves_fee_refund)
     (simp_all add: ledger_leaves_merchant_money, simp_all add: merchant_money_def)

end
