(* ===== verification/Concurrency.thy ===== *)
theory Concurrency
  imports Assembly Receipts Eligibility Refunds Frames Refund_Laws
begin

text \<open>
  The settlement subsystem under concurrency. Every handler reads outside its transaction, so
  between its reads and its writes anything may happen. A history is the list of database
  states so far; a step takes what a handler read from any earlier states and runs its writes
  on the current one. The invariant of all histories is what the guards of the writes buy:
  an occurrence is settled by at most one batch, a remittance exists exactly for the batches
  closed by one, with the frozen net as its amount, and what a batch froze never changes.
\<close>

section \<open>Core tables\<close>

text \<open>Programs that leave items, batches and remittances alone.\<close>

definition core_same :: "db \<Rightarrow> db \<Rightarrow> bool" where
  "core_same s s' \<longleftrightarrow> db_items s' = db_items s \<and> db_batches s' = db_batches s
     \<and> db_remittances s' = db_remittances s"

lemma core_same_refl [simp]: "core_same s s"
  by (simp add: core_same_def)

lemma core_same_trans: "core_same s s1 \<Longrightarrow> core_same s1 s2 \<Longrightarrow> core_same s s2"
  by (simp add: core_same_def)

lemma keeps_core_on_ledger [keeps_intros]: "keeps (core_same s) (ledger_record i)"
  by (rule keepsI) (auto simp: ledger_record_def on_table_iff core_same_def)

lemma keeps_core_guaranteed [keeps_intros]: "keeps (core_same s) (audit_guaranteed i k)"
  by (rule keepsI) (auto simp: audit_guaranteed_def on_table_iff core_same_def)

lemma keeps_core_audit [keeps_intros]: "keeps (core_same s) (audit_record i)"
  by (rule keepsI) (auto simp: audit_record_def on_table_iff core_same_def)

lemma keeps_core_receivables [keeps_intros]: "keeps (core_same s) (updateMany db_receivables db_receivables_update p f)"
  by (simp add: keeps_def core_same_def)

lemma keeps_core_stage [keeps_intros]: "keeps (core_same s) (stage_receivable bid a)"
  unfolding stage_receivable_def by (intro keeps_intros)

lemma keeps_core_consume_one [keeps_intros]: "keeps (core_same s) (consume_one u b t md a)"
  unfolding consume_one_def Let_def by (intro keeps_intros)

lemma keeps_core_consume [keeps_intros]: "keeps (core_same s) (consumeRecoveryAllocation u b t md)"
  unfolding consumeRecoveryAllocation_def by (intro keeps_intros)

lemma run_core: "keeps (core_same s) m \<Longrightarrow> m s = (r, s') \<Longrightarrow> core_same s s'"
  using keepsD [of "core_same s" m s r s'] by simp

section \<open>Counting guarded updates\<close>

lemma filter_ids_distinct: "distinct (map key t) \<Longrightarrow> distinct (map key (filter p t))"
  by (simp add: distinct_map_filter)

text \<open>When a guarded update hits as many rows as there are ids, it hit a row for every id.\<close>

lemma count_all_ids:
  assumes "distinct (map key t)" and "count_where (\<lambda>r. key r \<in> set ks \<and> p r) t = length ks" and "k \<in> set ks"
  shows "\<exists>r \<in> set t. key r = k \<and> p r"
proof -
  let ?rows = "filter (\<lambda>r. key r \<in> set ks \<and> p r) t"
  have "card (key ` set ?rows) = length ks"
    using filter_ids_distinct [OF assms(1), of "\<lambda>r. key r \<in> set ks \<and> p r"] assms(2)
    by (metis count_where_def distinct_card length_map list.set_map)
  moreover have "key ` set ?rows \<subseteq> set ks" by auto
  moreover have "card (set ks) \<le> length ks" by (rule card_length)
  ultimately have "key ` set ?rows = set ks" by (intro card_seteq) auto
  with assms(3) have "k \<in> key ` set ?rows" by blast
  then show ?thesis by auto
qed

lemma count_no_ids:
  assumes "\<And>r. r \<in> set t \<Longrightarrow> key r \<in> set ks \<Longrightarrow> \<not> p r"
  shows "count_where (\<lambda>r. key r \<in> set ks \<and> p r) t = 0"
  using assms by (auto simp: count_where_0)

text \<open>Updating rows without touching their key keeps the keys.\<close>

lemma update_where_keys: "(\<And>r. key (f r) = key r) \<Longrightarrow> map key (update_where p f t) = map key t"
  by (rule map_update_where) simp

section \<open>What a batch froze\<close>

definition frozen_parts :: "SettlementBatch \<Rightarrow> SettlementBatch \<Rightarrow> bool" where
  "frozen_parts b b' \<longleftrightarrow>
     frozen_of b' = frozen_of b \<and> sb_grossAmount b' = sb_grossAmount b
     \<and> sb_netAmount b' = sb_netAmount b \<and> sb_assembledBy b' = sb_assembledBy b"

lemma frozen_parts_refl [simp]: "frozen_parts b b"
  by (simp add: frozen_parts_def)

lemma frozen_parts_trans: "frozen_parts a b \<Longrightarrow> frozen_parts b c \<Longrightarrow> frozen_parts a c"
  by (simp add: frozen_parts_def)

lemma frozen_partsD:
  "frozen_parts b b' \<Longrightarrow> sb_id b' = sb_id b \<and> sb_composition b' = sb_composition b
     \<and> sb_netAmount b' = sb_netAmount b \<and> sb_settlementReference b' = sb_settlementReference b
     \<and> sb_storeId b' = sb_storeId b \<and> sb_currency b' = sb_currency b
     \<and> sb_recoveryAllocation b' = sb_recoveryAllocation b
     \<and> sb_calculationSnapshot b' = sb_calculationSnapshot b"
  by (auto simp: frozen_parts_def frozen_of_def)

definition batches_persist :: "db \<Rightarrow> db \<Rightarrow> bool" where
  "batches_persist s s' \<longleftrightarrow> (\<forall>b \<in> set (db_batches s). \<exists>b' \<in> set (db_batches s'). frozen_parts b b')"

lemma batches_persist_refl [simp]: "batches_persist s s"
  unfolding batches_persist_def by (metis frozen_parts_refl)

lemma batches_persist_trans: "batches_persist s s1 \<Longrightarrow> batches_persist s1 s2 \<Longrightarrow> batches_persist s s2"
  unfolding batches_persist_def by (meson frozen_parts_trans)

lemma batches_persist_same: "db_batches s' = db_batches s \<Longrightarrow> batches_persist s s'"
  unfolding batches_persist_def by (metis frozen_parts_refl)

lemma batches_persist_update:
  "db_batches s' = update_where p f (db_batches s) \<Longrightarrow> (\<And>b. frozen_parts b (f b)) \<Longrightarrow> batches_persist s s'"
  unfolding batches_persist_def
  by (metis (no_types, lifting) frozen_parts_refl in_update_where)

section \<open>The invariant\<close>

text \<open>Money has gone out for an item that is settled, and for one a refund has reversed since.\<close>

fun spent :: "ItemState \<Rightarrow> bool" where
  "spent I_settled = True"
| "spent I_reversed = True"
| "spent _ = False"

definition settled_in :: "db \<Rightarrow> SettlementBatch \<Rightarrow> string \<Rightarrow> bool" where
  "settled_in s b k \<longleftrightarrow>
     (\<exists>i \<in> set (db_items s). si_id i = k \<and> spent (si_state i) \<and> si_batchId i = Some (sb_id b))"

definition pays :: "SettlementRemittance \<Rightarrow> SettlementBatch \<Rightarrow> bool" where
  "pays r b \<longleftrightarrow> rm_settlementId r = sb_id b \<and> rm_amount r = sb_netAmount b
     \<and> rm_currency r = sb_currency b \<and> rm_storeId r = sb_storeId b
     \<and> rm_settlementReference r = sb_settlementReference b"

definition settlement_inv :: "db \<Rightarrow> bool" where
  "settlement_inv s \<longleftrightarrow>
     distinct (map si_id (db_items s)) \<and> distinct (map sb_id (db_batches s))
     \<and> distinct (map rm_settlementId (db_remittances s))
     \<and> (\<forall>b \<in> set (db_batches s). sb_composition b \<noteq> [])
     \<and> (\<forall>b \<in> set (db_batches s). sb_closureType b \<noteq> None \<longrightarrow> (\<forall>k \<in> set (member_ids b). settled_in s b k))
     \<and> (\<forall>b \<in> set (db_batches s). sb_closureType b = Some remitted_type \<longrightarrow> (\<exists>r \<in> set (db_remittances s). pays r b))
     \<and> (\<forall>r \<in> set (db_remittances s). \<exists>b \<in> set (db_batches s). pays r b \<and> sb_closureType b = Some remitted_type)"

lemma settlement_inv_core: "core_same s s' \<Longrightarrow> settlement_inv s \<Longrightarrow> settlement_inv s'"
  by (simp add: settlement_inv_def core_same_def settled_in_def)

text \<open>Item tables evolve so that a spent row stays spent by the same batch and ids stay unique.\<close>

definition items_evolve :: "SettlementItem list \<Rightarrow> SettlementItem list \<Rightarrow> bool" where
  "items_evolve t t' \<longleftrightarrow> (\<forall>i \<in> set t. spent (si_state i) \<longrightarrow>
       (\<exists>i' \<in> set t'. si_id i' = si_id i \<and> si_batchId i' = si_batchId i \<and> spent (si_state i')))
     \<and> (distinct (map si_id t) \<longrightarrow> distinct (map si_id t'))"

lemma items_evolve_refl [simp]: "items_evolve t t"
  by (auto simp: items_evolve_def)

lemma items_evolve_grow: "si_id i \<notin> si_id ` set t \<Longrightarrow> items_evolve t (t @ [i])"
  by (auto simp: items_evolve_def)

lemma items_evolve_update:
  assumes "\<And>i. p i \<Longrightarrow> spent (si_state i) \<Longrightarrow> si_batchId (f i) = si_batchId i \<and> spent (si_state (f i))"
    and "\<And>i. si_id (f i) = si_id i"
  shows "items_evolve t (update_where p f t)"
  unfolding items_evolve_def
proof (intro conjI ballI impI)
  fix i assume "i \<in> set t" "spent (si_state i)"
  with assms show "\<exists>i' \<in> set (update_where p f t). si_id i' = si_id i \<and> si_batchId i' = si_batchId i \<and> spent (si_state i')"
    by (metis in_update_where)
qed (simp add: update_where_keys assms(2))

lemma items_evolveD:
  "items_evolve t t' \<Longrightarrow> i \<in> set t \<Longrightarrow> spent (si_state i) \<Longrightarrow>
     \<exists>i' \<in> set t'. si_id i' = si_id i \<and> si_batchId i' = si_batchId i \<and> spent (si_state i')"
  by (simp add: items_evolve_def)

lemma settled_in_evolve:
  assumes "items_evolve (db_items s) (db_items s')" and "settled_in s b k"
  shows "settled_in s' b k"
proof -
  from assms(2) obtain i where i: "i \<in> set (db_items s)" "si_id i = k" "spent (si_state i)" "si_batchId i = Some (sb_id b)"
    by (auto simp: settled_in_def)
  from items_evolveD [OF assms(1) i(1,3)] i(2,4) show ?thesis by (auto simp: settled_in_def)
qed

lemma settled_in_frozen: "sb_id b' = sb_id b \<Longrightarrow> settled_in s b' k = settled_in s b k"
  by (simp add: settled_in_def)

lemma inv_items:
  assumes "settlement_inv s" and "items_evolve (db_items s) (db_items s')"
    and "db_batches s' = db_batches s" and "db_remittances s' = db_remittances s"
  shows "settlement_inv s'"
proof -
  have "distinct (map si_id (db_items s'))" using assms(1,2) by (simp add: settlement_inv_def items_evolve_def)
  then show ?thesis using assms(1,3,4) settled_in_evolve [OF assms(2)] unfolding settlement_inv_def by auto
qed

text \<open>Batch rows may change in anything but what they froze and how they were closed.\<close>

lemma inv_batch_update:
  assumes inv: "settlement_inv s"
    and items: "items_evolve (db_items s) (db_items s')"
    and batches: "db_batches s' = update_where p f (db_batches s)"
    and rem: "db_remittances s' = db_remittances s"
    and f: "\<And>b. frozen_parts b (f b)" "\<And>b. sb_closureType (f b) = sb_closureType b"
  shows "settlement_inv s'"
proof -
  have fid: "sb_id (f b) = sb_id b" "sb_composition (f b) = sb_composition b" "pays r (f b) = pays r b"
    "member_ids (f b) = member_ids b" for b r
    using frozen_partsD [OF f(1), of b] by (simp_all add: pays_def member_ids_def)
  have keys: "map sb_id (update_where p f (db_batches s)) = map sb_id (db_batches s)"
    by (rule update_where_keys) (rule fid)
  have set: "\<exists>b0 \<in> set (db_batches s). b = b0 \<or> b = f b0" if "b \<in> set (db_batches s')" for b
    using that by (auto simp: batches in_update_where)
  have fwd: "\<exists>b' \<in> set (db_batches s'). b' = b \<or> b' = f b" if "b \<in> set (db_batches s)" for b
    using that unfolding batches by (metis in_update_where)
  show ?thesis
    unfolding settlement_inv_def
  proof (intro conjI ballI impI)
    show "distinct (map si_id (db_items s'))" using inv items by (auto simp: settlement_inv_def items_evolve_def)
    show "distinct (map sb_id (db_batches s'))" using inv by (simp add: settlement_inv_def batches keys)
    show "distinct (map rm_settlementId (db_remittances s'))" using inv by (simp add: settlement_inv_def rem)
  next
    fix b assume "b \<in> set (db_batches s')"
    from set [OF this] show "sb_composition b \<noteq> []" using inv fid by (auto simp: settlement_inv_def)
  next
    fix b k assume "b \<in> set (db_batches s')" "sb_closureType b \<noteq> None" "k \<in> set (member_ids b)"
    moreover from set [OF this(1)] obtain b0 where "b0 \<in> set (db_batches s)" "b = b0 \<or> b = f b0" by blast
    ultimately have "settled_in s b0 k" "sb_id b = sb_id b0" using inv fid f(2) by (auto simp: settlement_inv_def)
    then show "settled_in s' b k" using settled_in_evolve [OF items] settled_in_frozen by blast
  next
    fix b assume b: "b \<in> set (db_batches s')" "sb_closureType b = Some remitted_type"
    from set [OF this(1)] obtain b0 where "b0 \<in> set (db_batches s)" "b = b0 \<or> b = f b0" by blast
    with b(2) inv fid f(2) show "\<exists>r \<in> set (db_remittances s'). pays r b"
      by (auto simp: settlement_inv_def rem)
  next
    fix r assume "r \<in> set (db_remittances s')"
    then obtain b where b: "b \<in> set (db_batches s)" "pays r b" "sb_closureType b = Some remitted_type"
      using inv by (auto simp: settlement_inv_def rem)
    from fwd [OF b(1)] obtain b' where b': "b' \<in> set (db_batches s')" "b' = b \<or> b' = f b" by blast
    then have "pays r b' \<and> sb_closureType b' = Some remitted_type" using b fid(3) f(2) by auto
    with b'(1) show "\<exists>b \<in> set (db_batches s'). pays r b \<and> sb_closureType b = Some remitted_type" by blast
  qed
qed

section \<open>Safe programs\<close>

text \<open>
  The invariant holds, and every batch that was there at the moment \<open>s0\<close> is still there with
  what it froze. A program that keeps this for every \<open>s0\<close> is safe at any point of a history.
\<close>

definition since :: "db \<Rightarrow> db \<Rightarrow> bool" where
  "since s0 s \<longleftrightarrow> settlement_inv s \<and> batches_persist s0 s"

lemma since_trans: "since s0 s1 \<Longrightarrow> since s1 s2 \<Longrightarrow> since s0 s2"
  using batches_persist_trans by (auto simp: since_def)

lemma keeps_sinceI:
  assumes "\<And>s. since s0 s \<Longrightarrow> settlement_inv s \<Longrightarrow> since s (snd (m s))"
  shows "keeps (since s0) m"
proof (rule keepsI)
  fix s r s' assume s: "since s0 s" and m: "m s = (r, s')"
  have "since s (snd (m s))" using assms s by (simp add: since_def)
  with m s show "since s0 s'" using since_trans by simp
qed

lemma keeps_since_core: "(\<And>s. keeps (core_same s) m) \<Longrightarrow> keeps (since s0) m"
proof (rule keeps_sinceI)
  fix s assume k: "\<And>s. keeps (core_same s) m" and inv: "settlement_inv s"
  have "core_same s (snd (m s))" using keepsD [OF k [of s], of s] by (simp add: prod_eq_iff)
  with inv show "since s (snd (m s))"
    by (simp add: since_def settlement_inv_core batches_persist_same core_same_def)
qed

lemmas since_core_intros [keeps_intros] =
  keeps_since_core [OF keeps_core_on_ledger] keeps_since_core [OF keeps_core_guaranteed]
  keeps_since_core [OF keeps_core_audit] keeps_since_core [OF keeps_core_receivables]

text \<open>An update of the item table that keeps spent rows spent.\<close>

lemma keeps_since_items:
  assumes "\<And>i. p i \<Longrightarrow> spent (si_state i) \<Longrightarrow> si_batchId (f i) = si_batchId i \<and> spent (si_state (f i))"
    and "\<And>i. si_id (f i) = si_id i"
  shows "keeps (since s0) (updateMany db_items db_items_update p f)"
proof (rule keeps_sinceI)
  fix s assume inv: "settlement_inv s"
  have "items_evolve (db_items s) (update_where p f (db_items s))" by (rule items_evolve_update [OF assms])
  then have "settlement_inv (db_items_update (update_where p f) s)" by - (rule inv_items [OF inv], simp_all)
  then show "since s (snd (updateMany db_items db_items_update p f s))"
    by (simp add: since_def batches_persist_same)
qed

lemma keeps_since_create_item:
  "keeps (since s0) (create db_items db_items_update item_clash i)"
proof (rule keeps_sinceI)
  fix s assume inv: "settlement_inv s"
  show "since s (snd (create db_items db_items_update item_clash i s))"
  proof (cases "\<exists>i' \<in> set (db_items s). item_clash i i'")
    case True
    then show ?thesis using inv by (simp add: create_def since_def)
  next
    case False
    then have "si_id i \<notin> si_id ` set (db_items s)" by (auto simp: item_clash_def)
    then have "items_evolve (db_items s) (db_items s @ [i])" by (rule items_evolve_grow)
    then have "settlement_inv (db_items_update (\<lambda>t. t @ [i]) s)" by - (rule inv_items [OF inv], simp_all)
    with False show ?thesis by (simp add: create_def since_def batches_persist_same)
  qed
qed

text \<open>An update of batch rows outside what was frozen and how they were closed.\<close>

lemma keeps_since_set_status:
  assumes "\<And>b. frozen_parts b (f b)" "\<And>b. sb_closureType (f b) = sb_closureType b"
  shows "keeps (since s0) (set_status bid st f)"
proof (rule keeps_sinceI)
  fix s assume inv: "settlement_inv s"
  define g where "g = (\<lambda>b. f (b\<lparr> sb_status := st \<rparr>))"
  have g: "frozen_parts b (g b)" "sb_closureType (g b) = sb_closureType b" for b
    using assms [of "b\<lparr> sb_status := st \<rparr>"] by (simp_all add: g_def frozen_parts_def frozen_of_def)
  show "since s (snd (set_status bid st f s))"
  proof (cases "find (\<lambda>b. sb_id b = bid) (db_batches s)")
    case None
    then show ?thesis using inv by (simp add: set_status_def update_row_def since_def)
  next
    case (Some b)
    then have s': "snd (set_status bid st f s) = db_batches_update (update_where (\<lambda>b. sb_id b = bid) g) s"
      by (simp add: set_status_def update_row_def g_def)
    have "settlement_inv (db_batches_update (update_where (\<lambda>b. sb_id b = bid) g) s)"
      by (rule inv_batch_update [OF inv, where p = "\<lambda>b. sb_id b = bid" and f = g]) (simp_all add: g)
    moreover have "batches_persist s (db_batches_update (update_where (\<lambda>b. sb_id b = bid) g) s)"
      by (rule batches_persist_update [where p = "\<lambda>b. sb_id b = bid" and f = g]) (simp_all add: g)
    ultimately show ?thesis by (simp add: since_def s')
  qed
qed

lemma keeps_since_bind: "keeps (since s0) (bind_items bid is)"
proof (induction "is")
  case (Cons i "is")
  show ?case unfolding bind_items.simps
    by (intro keeps_intros keeps_since_items Cons) auto
qed (simp add: keeps_def)

lemma keeps_since_create_batch:
  assumes "ap_composition p \<noteq> []"
  shows "keeps (since s0) (create_batch e u r p nid)"
  unfolding create_batch_def Let_def
proof (intro keeps_intros keeps_sinceI)
  fix gross net s
  assume inv: "settlement_inv s"
  define b where "b = \<lparr> sb_id = nid, sb_settlementReference = r, sb_storeId = ap_storeId p,
          sb_currency = calc_currency (ap_calculation p), sb_status = B_ready, sb_windowType = ''manual'',
          sb_grossAmount = gross, sb_netAmount = net, sb_composition = ap_composition p,
          sb_calculationSnapshot = ap_calculation p, sb_supersededById = None, sb_failureEvidence = None,
          sb_closureType = None, sb_closedAt = None, sb_assembledBy = Some u,
          sb_recoveryAllocation = Some (ap_allocation p), sb_createdAt = en_dbNow e \<rparr>"
  have "since s (snd (create db_batches db_batches_update batch_clash b s))"
  proof (cases "\<exists>b' \<in> set (db_batches s). batch_clash b b'")
    case True
    then show ?thesis using inv by (simp add: create_def since_def)
  next
    case False
    have "sb_closureType b = None" "sb_composition b \<noteq> []" using assms by (simp_all add: b_def)
    moreover have "sb_id b \<notin> sb_id ` set (db_batches s)" using False by (auto simp: batch_clash_def)
    ultimately have "settlement_inv (db_batches_update (\<lambda>t. t @ [b]) s)"
      using inv by (auto simp: settlement_inv_def settled_in_def)
    moreover have "batches_persist s (db_batches_update (\<lambda>t. t @ [b]) s)"
      unfolding batches_persist_def by (auto intro: frozen_parts_refl bexI)
    ultimately show ?thesis using False by (simp add: create_def since_def)
  qed
  then show "since s (snd (create db_batches db_batches_update batch_clash
     \<lparr> sb_id = nid, sb_settlementReference = r, sb_storeId = ap_storeId p,
          sb_currency = calc_currency (ap_calculation p), sb_status = B_ready, sb_windowType = ''manual'',
          sb_grossAmount = gross, sb_netAmount = net, sb_composition = ap_composition p,
          sb_calculationSnapshot = ap_calculation p, sb_supersededById = None, sb_failureEvidence = None,
          sb_closureType = None, sb_closedAt = None, sb_assembledBy = Some u,
          sb_recoveryAllocation = Some (ap_allocation p), sb_createdAt = en_dbNow e \<rparr> s))"
    unfolding b_def .
qed

lemma keeps_since_stage: "keeps (since s0) (stage_receivable bid a)"
  unfolding stage_receivable_def by (intro keeps_intros)

lemma keeps_since_assembly:
  "ap_composition p \<noteq> [] \<Longrightarrow> keeps (since s0) (assembly_transaction e u p r nid)"
  unfolding assembly_transaction_def
  by (intro keeps_transaction_body keeps_intros keeps_since_create_batch keeps_since_bind keeps_since_stage)

definition disposition_ok :: "ItemState \<Rightarrow> bool" where
  "disposition_ok d \<longleftrightarrow> d \<in> {I_eligible, I_held, I_disputed}"

lemma supersede_disposition_ok: "SUPERSEDE_ITEM_DISPOSITION cause = Some d \<Longrightarrow> disposition_ok d"
  by (auto simp: SUPERSEDE_ITEM_DISPOSITION_def disposition_ok_def split: if_splits)

lemma disposition_not_settled:
  "disposition_ok d \<Longrightarrow> assertItemTransition st d = Inr u \<Longrightarrow> \<not> spent st"
  by (cases st) (auto simp: assertItemTransition_def disposition_ok_def check_iff)

lemma item_disposition_ok: "disposition_ok d \<Longrightarrow> disposition_ok (item_disposition d aff i)"
  by (simp add: item_disposition_def disposition_ok_def)

lemma keeps_since_release:
  assumes "disposition_ok d"
  shows "keeps (since s0) (release_item bid d aff h i)"
proof (cases "assertItemTransition (si_state i) (item_disposition d aff i)")
  case (Inl ex)
  then show ?thesis by (simp add: release_item_def Let_def keeps_def seq_def)
next
  case (Inr u)
  then have "\<not> spent (si_state i)"
    using disposition_not_settled item_disposition_ok [OF assms] by blast
  then show ?thesis
    unfolding release_item_def Let_def
    by (intro keeps_intros keeps_since_items) (auto split: option.splits)
qed

lemma keeps_since_supersede:
  "disposition_ok d \<Longrightarrow> keeps (since s0) (supersede_transaction u b c d aff h items)"
  unfolding supersede_transaction_def
  by (intro keeps_transaction_body keeps_intros keeps_since_release keeps_since_set_status)
     (simp_all add: keeps_since_core keeps_core_receivables)

section \<open>The terminal closes\<close>

definition closing :: "SettlementBatch \<Rightarrow> string \<Rightarrow> instant \<Rightarrow> SettlementBatch \<Rightarrow> SettlementBatch" where
  "closing b0 ct t b = (if sb_id b = sb_id b0 \<and> sb_status b = B_ready
     then b\<lparr> sb_status := B_settled, sb_closureType := Some ct, sb_closedAt := Some t \<rparr> else b)"

definition settling :: "SettlementBatch \<Rightarrow> SettlementItem \<Rightarrow> SettlementItem" where
  "settling b0 i = (if si_id i \<in> set (member_ids b0) \<and> si_batchId i = Some (sb_id b0) \<and> si_state i = I_ready
     then i\<lparr> si_state := I_settled \<rparr> else i)"

lemma close_batch_iff:
  "close_batch b0 ct t s = (Inr (), s') \<longleftrightarrow>
     count_where (\<lambda>b. sb_id b = sb_id b0 \<and> sb_status b = B_ready) (db_batches s) = 1
     \<and> count_where (\<lambda>i. si_id i \<in> set (member_ids b0) \<and> si_batchId i = Some (sb_id b0) \<and> si_state i = I_ready) (db_items s)
        = length (member_ids b0)
     \<and> s' = s\<lparr> db_batches := map (closing b0 ct t) (db_batches s), db_items := map (settling b0) (db_items s) \<rparr>"
  unfolding close_batch_def
  by (auto simp: prog_iff assertItemTransition_def update_where_def closing_def [abs_def] settling_def [abs_def])

lemma closing_frozen: "frozen_parts b (closing b0 ct t b)"
  by (simp add: closing_def frozen_parts_def frozen_of_def)

lemma settling_evolve: "items_evolve t (map (settling b0) t)"
proof -
  have "map (settling b0) t = update_where (\<lambda>i. si_id i \<in> set (member_ids b0) \<and> si_batchId i = Some (sb_id b0)
      \<and> si_state i = I_ready) (\<lambda>i. i\<lparr> si_state := I_settled \<rparr>) t"
    by (simp add: update_where_def settling_def [abs_def])
  moreover have "items_evolve t (update_where (\<lambda>i. si_id i \<in> set (member_ids b0) \<and> si_batchId i = Some (sb_id b0)
      \<and> si_state i = I_ready) (\<lambda>i. i\<lparr> si_state := I_settled \<rparr>) t)"
    by (rule items_evolve_update) auto
  ultimately show ?thesis by simp
qed

lemma inv_closed:
  "settlement_inv s \<Longrightarrow> b \<in> set (db_batches s) \<Longrightarrow> sb_closureType b \<noteq> None \<Longrightarrow> k \<in> set (member_ids b)
    \<Longrightarrow> settled_in s b k"
  unfolding settlement_inv_def by blast

text \<open>A close hits a row for every member, so the batch had not been closed before.\<close>

lemma close_members:
  assumes "settlement_inv s" and "close_batch b0 ct t s = (Inr (), s1)" and "k \<in> set (member_ids b0)"
  shows "\<exists>i \<in> set (db_items s). si_id i = k \<and> si_batchId i = Some (sb_id b0) \<and> si_state i = I_ready"
  using assms by (intro count_all_ids [where ks = "member_ids b0"]) (auto simp: close_batch_iff settlement_inv_def)

lemma close_open:
  assumes inv: "settlement_inv s" and b: "b \<in> set (db_batches s)" "frozen_parts b0 b"
    and close: "close_batch b0 ct t s = (Inr (), s1)"
  shows "sb_closureType b = None"
proof (rule ccontr)
  assume closed: "sb_closureType b \<noteq> None"
  have "member_ids b0 = member_ids b" "member_ids b \<noteq> []"
    using frozen_partsD [OF b(2)] inv b(1) by (auto simp: member_ids_def settlement_inv_def)
  then obtain k where k: "k \<in> set (member_ids b)" "k \<in> set (member_ids b0)" by (cases "member_ids b") auto
  from inv_closed [OF inv b(1) closed k(1)] obtain i where i: "i \<in> set (db_items s)" "si_id i = k" "spent (si_state i)"
    by (auto simp: settled_in_def)
  from close_members [OF inv close k(2)] obtain j where "j \<in> set (db_items s)" "si_id j = k" "si_state j = I_ready" by blast
  moreover have "distinct (map si_id (db_items s))" using inv by (simp add: settlement_inv_def)
  ultimately show False using i distinct_key_eq by (metis spent.simps(6))
qed

lemma close_inv:
  assumes inv: "settlement_inv s" and b: "b \<in> set (db_batches s)" "frozen_parts b0 b"
    and close: "close_batch b0 ct t s = (Inr (), s1)"
    and core: "db_items s2 = db_items s1" "db_batches s2 = db_batches s1"
    and rem: "(ct \<noteq> remitted_type \<and> db_remittances s2 = db_remittances s) \<or>
      (ct = remitted_type \<and> (\<exists>r. db_remittances s2 = db_remittances s @ [r] \<and> pays r b0
          \<and> rm_settlementId r \<notin> rm_settlementId ` set (db_remittances s)))"
  shows "since s s2"
proof -
  let ?ks = "member_ids b0"
  let ?p = "\<lambda>i. si_batchId i = Some (sb_id b0) \<and> si_state i = I_ready"
  have dis: "distinct (map si_id (db_items s))" "distinct (map sb_id (db_batches s))"
    using inv by (auto simp: settlement_inv_def)
  note same = frozen_partsD [OF b(2)]
  have ks: "?ks = member_ids b" "?ks \<noteq> []"
    using same inv b(1) by (auto simp: member_ids_def settlement_inv_def)
  from close have n: "count_where (\<lambda>i. si_id i \<in> set ?ks \<and> ?p i) (db_items s) = length ?ks"
    and one: "count_where (\<lambda>b. sb_id b = sb_id b0 \<and> sb_status b = B_ready) (db_batches s) = 1"
    and b2: "db_batches s2 = map (closing b0 ct t) (db_batches s)"
    and i2: "db_items s2 = map (settling b0) (db_items s)"
    using core by (auto simp: close_batch_iff)
  have all: "\<exists>i \<in> set (db_items s). si_id i = k \<and> ?p i" if "k \<in> set ?ks" for k
    by (rule close_members [OF inv close that])
  have ev: "items_evolve (db_items s) (db_items s2)" unfolding i2 by (rule settling_evolve)
  have this_b: "b' = b" if "b' \<in> set (db_batches s)" "sb_id b' = sb_id b0" for b'
    using distinct_key_eq [OF dis(2) that(1) b(1)] that(2) same by simp
  have open_b: "sb_closureType b = None" by (rule close_open [OF inv b close])
  have ready_b: "sb_status b = B_ready"
  proof -
    obtain b' where "b' \<in> set (db_batches s)" "sb_id b' = sb_id b0" "sb_status b' = B_ready"
      using one count_where_pos [of "\<lambda>b. sb_id b = sb_id b0 \<and> sb_status b = B_ready" "db_batches s"] by auto
    with this_b show ?thesis by blast
  qed
  let ?b2 = "closing b0 ct t b"
  have cb: "sb_closureType ?b2 = Some ct" "sb_id ?b2 = sb_id b0"
    using same ready_b by (simp_all add: closing_def)
  have other: "closing b0 ct t b' = b'" if "b' \<in> set (db_batches s)" "b' \<noteq> b" for b'
    using this_b that by (auto simp: closing_def)
  have settled: "settled_in s2 ?b2 k" if k: "k \<in> set ?ks" for k
  proof -
    from all [OF k] obtain i where i: "i \<in> set (db_items s)" "si_id i = k" "?p i" by blast
    then have "settling b0 i = i\<lparr> si_state := I_settled \<rparr>" using k by (simp add: settling_def)
    with i cb(2) have "settling b0 i \<in> set (db_items s2) \<and> si_id (settling b0 i) = k
      \<and> spent (si_state (settling b0 i)) \<and> si_batchId (settling b0 i) = Some (sb_id ?b2)"
      unfolding i2 using imageI [OF i(1), of "settling b0"] by simp
    then show ?thesis unfolding settled_in_def by blast
  qed
  have rem_old: "set (db_remittances s) \<subseteq> set (db_remittances s2)" using rem by auto
  have pays_b: "pays r b0 = pays r b" "pays r ?b2 = pays r b" for r
    using same frozen_partsD [OF closing_frozen, of b0 ct t b] by (simp_all add: pays_def)
  have "settlement_inv s2"
    unfolding settlement_inv_def
  proof (intro conjI ballI impI)
    show "distinct (map si_id (db_items s2))" using ev dis by (simp add: items_evolve_def)
    have "map sb_id (db_batches s2) = map sb_id (db_batches s)" by (simp add: b2 closing_def)
    then show "distinct (map sb_id (db_batches s2))" using dis by simp
    show "distinct (map rm_settlementId (db_remittances s2))" using rem inv by (auto simp: settlement_inv_def)
  next
    fix b' assume "b' \<in> set (db_batches s2)"
    then obtain b1 where "b1 \<in> set (db_batches s)" "b' = closing b0 ct t b1" unfolding b2 by auto
    then show "sb_composition b' \<noteq> []" using inv frozen_partsD [OF closing_frozen, of b0 ct t b1] by (simp add: settlement_inv_def)
  next
    fix b' k assume "b' \<in> set (db_batches s2)" "sb_closureType b' \<noteq> None" "k \<in> set (member_ids b')"
    then obtain b1 where b1: "b1 \<in> set (db_batches s)" "b' = closing b0 ct t b1" unfolding b2 by auto
    show "settled_in s2 b' k"
    proof (cases "b1 = b")
      case True
      then have "k \<in> set ?ks" using b1 \<open>k \<in> set (member_ids b')\<close> ks(1) frozen_partsD [OF closing_frozen, of b0 ct t b] by (simp add: member_ids_def)
      with settled True b1 show ?thesis by simp
    next
      case False
      then have "b' = b1" using other b1 by simp
      then have "settled_in s b' k" using inv b1 \<open>sb_closureType b' \<noteq> None\<close> \<open>k \<in> set (member_ids b')\<close>
        by (simp add: settlement_inv_def)
      then show ?thesis by (rule settled_in_evolve [OF ev])
    qed
  next
    fix b' assume "b' \<in> set (db_batches s2)" "sb_closureType b' = Some remitted_type"
    then obtain b1 where b1: "b1 \<in> set (db_batches s)" "b' = closing b0 ct t b1" unfolding b2 by auto
    show "\<exists>r \<in> set (db_remittances s2). pays r b'"
    proof (cases "b1 = b")
      case True
      then have "ct = remitted_type" using \<open>sb_closureType b' = Some remitted_type\<close> b1 cb by simp
      with rem pays_b True b1 show ?thesis by auto
    next
      case False
      then have "b' = b1" using other b1 by simp
      then obtain r where "r \<in> set (db_remittances s)" "pays r b'"
        using inv b1 \<open>sb_closureType b' = Some remitted_type\<close> unfolding settlement_inv_def by blast
      with rem_old show ?thesis by blast
    qed
  next
    fix r assume "r \<in> set (db_remittances s2)"
    then consider "r \<in> set (db_remittances s)" | "ct = remitted_type" "pays r b0" using rem by auto
    then show "\<exists>b \<in> set (db_batches s2). pays r b \<and> sb_closureType b = Some remitted_type"
    proof cases
      case 1
      then obtain b1 where b1: "b1 \<in> set (db_batches s)" "pays r b1" "sb_closureType b1 = Some remitted_type"
        using inv by (auto simp: settlement_inv_def)
      then have "b1 \<noteq> b" using open_b by auto
      then have "b1 \<in> set (db_batches s2)" using other b1(1) unfolding b2 by force
      with b1 show ?thesis by blast
    next
      case 2
      then have "pays r ?b2" "sb_closureType ?b2 = Some remitted_type" using pays_b cb by simp_all
      moreover have "?b2 \<in> set (db_batches s2)" using b(1) unfolding b2 by simp
      ultimately show ?thesis by blast
    qed
  qed
  moreover have "batches_persist s s2"
    unfolding batches_persist_def b2 using closing_frozen by (metis image_eqI list.set_map)
  ultimately show ?thesis by (simp add: since_def)
qed

lemma core_same_run: "(\<And>s. keeps (core_same s) m) \<Longrightarrow> m s = (r, s') \<Longrightarrow> core_same s s'"
  using run_core by blast

lemma keeps_core_settle_record: "keeps (core_same s) (settle_record u b0 ev c)"
  unfolding settle_record_def by (intro keeps_intros)

lemma keeps_core_zero_record: "keeps (core_same s) (zero_net_record u b0 t)"
  unfolding zero_net_record_def by (intro keeps_intros)

lemma settle_since:
  assumes inv: "settlement_inv s" and b: "b \<in> set (db_batches s)" "frozen_parts b0 b"
  shows "since s (snd (settle_transaction e u b0 ev s))"
proof (cases "settle_transaction e u b0 ev s")
  case (Pair x s')
  show ?thesis
  proof (cases x)
    case (Inl ex)
    have "s' = s" by (rule transaction_rollback [OF Pair [unfolded settle_transaction_def Inl]])
    with Pair inv show ?thesis by (simp add: since_def)
  next
    case (Inr r)
    from Pair Inr obtain s1 s2 where close: "close_batch b0 remitted_type (clk e 10) s = (Inr (), s1)"
      and cr: "\<forall>r' \<in> set (db_remittances s1). \<not> remittance_clash (new_remittance e b0 ev) r'"
        "s2 = db_remittances_update (\<lambda>t. t @ [new_remittance e b0 ev]) s1"
      and rest: "settle_record u b0 ev (new_remittance e b0 ev) s2 = (Inr r, s')"
      unfolding settle_transaction_def by (auto simp: prog_iff)
    have "pays (new_remittance e b0 ev) b0" by (simp add: pays_def new_remittance_def)
    moreover have "core_same s2 s'"
      by (rule core_same_run [OF keeps_core_settle_record rest])
    moreover have "db_remittances s1 = db_remittances s" using close by (auto simp: close_batch_iff)
    ultimately have "since s s'"
      using cr by (intro close_inv [OF inv b close]) (auto simp: core_same_def remittance_clash_def)
    with Pair show ?thesis by simp
  qed
qed

lemma zero_net_since:
  assumes inv: "settlement_inv s" and b: "b \<in> set (db_batches s)" "frozen_parts b0 b"
  shows "since s (snd (zero_net_transaction e u b0 t s))"
proof (cases "zero_net_transaction e u b0 t s")
  case (Pair x s')
  show ?thesis
  proof (cases x)
    case (Inl ex)
    have "s' = s" by (rule transaction_rollback [OF Pair [unfolded zero_net_transaction_def Inl]])
    with Pair inv show ?thesis by (simp add: since_def)
  next
    case (Inr r)
    from Pair Inr obtain s1 where close: "close_batch b0 zero_net_type t s = (Inr (), s1)"
      and rest: "zero_net_record u b0 t s1 = (Inr r, s')"
      unfolding zero_net_transaction_def by (auto simp: prog_iff)
    have "core_same s1 s'" by (rule core_same_run [OF keeps_core_zero_record rest])
    moreover have "db_remittances s1 = db_remittances s" using close by (auto simp: close_batch_iff)
    ultimately have "since s s'"
      by (intro close_inv [OF inv b close]) (auto simp: core_same_def remitted_type_def zero_net_type_def)
    with Pair show ?thesis by simp
  qed
qed

lemma keeps_since_link: "keeps (since s0) (updateMany db_batches db_batches_update p (\<lambda>b. b\<lparr> sb_supersededById := x \<rparr>))"
proof (rule keeps_sinceI)
  fix s assume inv: "settlement_inv s"
  let ?f = "\<lambda>b. b\<lparr> sb_supersededById := x \<rparr>"
  have f: "frozen_parts b (?f b)" "sb_closureType (?f b) = sb_closureType b" for b
    by (simp_all add: frozen_parts_def frozen_of_def)
  have "settlement_inv (db_batches_update (update_where p ?f) s)"
    by (rule inv_batch_update [OF inv, where p = p and f = ?f]) (simp_all add: f)
  moreover have "batches_persist s (db_batches_update (update_where p ?f) s)"
    by (rule batches_persist_update [where p = p and f = ?f]) (simp_all add: f)
  ultimately show "since s (snd (updateMany db_batches db_batches_update p ?f s))"
    by (simp add: since_def)
qed

lemma keeps_since_artifacts: "keeps (since s0) (ensureCoverageArtifacts e u t v)"
proof -
  have h: "keeps (since s0) (case ex of P2002 c \<Rightarrow> ret () | _ \<Rightarrow> raise ex)" for ex
    by (cases ex) (simp_all add: keeps_def)
  show ?thesis
    unfolding ensureCoverageArtifacts_def Let_def
    by (intro keeps_intros keeps_since_create_item h)
qed

section \<open>Refunds\<close>

definition core_of :: "db \<Rightarrow> SettlementItem list \<times> SettlementBatch list \<times> SettlementRemittance list" where
  "core_of s = (db_items s, db_batches s, db_remittances s)"

lemma core_of_simps [simp]:
  "core_of (db_audit_update f1 s) = core_of s" "core_of (db_receivables_update f2 s) = core_of s"
  "core_of (db_creditNotes_update f3 s) = core_of s" "core_of (db_creditNoteVersions_update f4 s) = core_of s"
  "core_of (db_refunds_update f5 s) = core_of s" "core_of (db_ledger_update f6 s) = core_of s"
  by (simp_all add: core_of_def)

lemma keeps_since_leaves: "leaves core_of m \<Longrightarrow> keeps (since s0) m"
  using leavesD [of core_of m] by (intro keeps_since_core) (simp add: keeps_def core_same_def core_of_def)

lemma keeps_since_shrink: "\<not> spent (si_state item) \<Longrightarrow> keeps (since s0) (shrink_item item m)"
  unfolding shrink_item_def Let_def by (intro keeps_intros keeps_since_items) auto

lemma keeps_since_interaction: "keeps (since s0) (item_interaction item m)"
  unfolding item_interaction_def
  by (cases "si_state item"; simp only: ItemState.case; intro keeps_intros keeps_since_shrink) simp_all

lemma keeps_since_reverse: "keeps (since s0) (reverse_item item m)"
  unfolding reverse_item_def by (intro keeps_intros keeps_since_items) auto

lemma keeps_since_goods: "keeps (since s0) (goods_refund e u input v ev reason d m)"
  unfolding goods_refund_def Let_def
  by (intro keeps_intros keeps_since_interaction keeps_since_reverse)
    (rule keeps_since_leaves, intro leaves_intros leaves_ledger; simp)+

lemma refund_safe: "keeps (since s0) (goods_transaction e u input ev reason d m)"
  unfolding goods_transaction_def by (intro keeps_transaction_body keeps_intros keeps_since_goods)

section \<open>Histories\<close>

text \<open>
  A start has no batch and no remittance yet, and nothing recovered. A step runs the writes of one handler on the
  current state, with what the handler read from any states of the past: the reads of one
  invocation need not even come from the same state. Whatever else happens to the database,
  and every posting and audit row, is a step that leaves the four tables alone. A refund of goods
  shrinks an item that is not in a batch, or adds a receivable and may reverse a settled item.
\<close>

definition start :: "db \<Rightarrow> bool" where
  "start s \<longleftrightarrow> db_batches s = [] \<and> db_remittances s = [] \<and> distinct (map si_id (db_items s))
     \<and> distinct (map sr_id (db_receivables s))
     \<and> (\<forall>r \<in> set (db_receivables s). sr_amountRecovered r = 0 \<and> 0 \<le> sr_amount r \<and> sr_amount r < 10 ^ 12
          \<and> sr_currency r = ''SAR'')"

inductive history :: "db list \<Rightarrow> bool" where
  started: "start s \<Longrightarrow> history [s]"
| assembled: "history (s # h) \<Longrightarrow> {s1, s2, s3} \<subseteq> set (s # h) \<Longrightarrow> plan_assembly storeId currency s1 s2 s3 = Inr p
    \<Longrightarrow> history (snd (assembly_transaction e u p reference nid s) # s # h)"
| failed: "history (s # h) \<Longrightarrow> s0 \<in> set (s # h) \<Longrightarrow> b \<in> set (db_batches s0)
    \<Longrightarrow> assertBatchTransition (sb_status b) B_failed = Inr () \<Longrightarrow> history (snd (markFailed_write u b evidence s) # s # h)"
| retried: "history (s # h) \<Longrightarrow> s0 \<in> set (s # h) \<Longrightarrow> b \<in> set (db_batches s0)
    \<Longrightarrow> assertBatchTransition (sb_status b) B_ready = Inr () \<Longrightarrow> history (snd (retry_write u b s) # s # h)"
| held: "history (s # h) \<Longrightarrow> s0 \<in> set (s # h) \<Longrightarrow> b \<in> set (db_batches s0)
    \<Longrightarrow> assertBatchTransition (sb_status b) B_held = Inr () \<Longrightarrow> history (snd (holdBatch_write u b evidence s) # s # h)"
| superseded: "history (s # h) \<Longrightarrow> {s0, s1} \<subseteq> set (s # h) \<Longrightarrow> b \<in> set (db_batches s0)
    \<Longrightarrow> assertBatchTransition (sb_status b) B_superseded = Inr ()
    \<Longrightarrow> SUPERSEDE_ITEM_DISPOSITION cause = Some d
    \<Longrightarrow> history (snd (supersede_transaction u b cause d affected hold (items_of_batch (sb_id b) s1) s) # s # h)"
| settled: "history (s # h) \<Longrightarrow> s0 \<in> set (s # h) \<Longrightarrow> b \<in> set (db_batches s0)
    \<Longrightarrow> assertBatchTransition (sb_status b) B_settled = Inr () \<Longrightarrow> history (snd (settle_transaction e u b evidence s) # s # h)"
| closed: "history (s # h) \<Longrightarrow> s0 \<in> set (s # h) \<Longrightarrow> b \<in> set (db_batches s0)
    \<Longrightarrow> assertBatchTransition (sb_status b) B_settled = Inr () \<Longrightarrow> history (snd (zero_net_transaction e u b t s) # s # h)"
| linked: "history (s # h) \<Longrightarrow> history (snd (updateMany db_batches db_batches_update
      (\<lambda>b. sb_id b = supersededId \<and> sb_status b = B_superseded \<and> sb_supersededById b = None)
      (\<lambda>b. b\<lparr> sb_supersededById := Some successorId \<rparr>) s) # s # h)"
| evaluated: "history (s # h) \<Longrightarrow> s0 \<in> set (s # h) \<Longrightarrow> i \<in> set (db_items s0)
    \<Longrightarrow> history (snd (make_eligible i s) # s # h)"
| covered: "history (s # h) \<Longrightarrow> history (snd (ensureCoverageArtifacts e u invoiceType v s) # s # h)"
| refunded: "history (s # h) \<Longrightarrow> 0 < m \<Longrightarrow> history (snd (goods_transaction e u input ev reason d m s) # s # h)"
| unrelated: "history (s # h) \<Longrightarrow> core_same s s' \<Longrightarrow> db_receivables s' = db_receivables s \<Longrightarrow> history (s' # s # h)"

inductive_cases history_nilE: "history []"

text \<open>Every past state satisfied the invariant, and its batches are all still there.\<close>

definition past_ok :: "db list \<Rightarrow> bool" where
  "past_ok h \<longleftrightarrow> h \<noteq> [] \<and> (\<forall>s0 \<in> set h. settlement_inv s0 \<and> since s0 (hd h))"

lemma past_okD: "past_ok (s # h) \<Longrightarrow> settlement_inv s"
  by (simp add: past_ok_def)

lemma past_ok_step:
  assumes "past_ok (s # h)" and "since s s'"
  shows "past_ok (s' # s # h)"
  using assms since_trans unfolding past_ok_def by (auto simp: since_def)

lemma past_ok_keeps: "past_ok (s # h) \<Longrightarrow> keeps (since s) m \<Longrightarrow> past_ok (snd (m s) # s # h)"
  by (rule past_ok_step) (auto simp: keeps_def since_def past_ok_def)

lemma past_batch:
  "past_ok (s # h) \<Longrightarrow> s0 \<in> set (s # h) \<Longrightarrow> b \<in> set (db_batches s0) \<Longrightarrow> \<exists>b' \<in> set (db_batches s). frozen_parts b b'"
  by (auto simp: past_ok_def since_def batches_persist_def)

lemma plan_assembly_composition:
  assumes "plan_assembly storeId currency s1 s2 s3 = Inr p"
  shows "ap_composition p \<noteq> []" "ap_composition p = composition_of (occurrenceReferences (ap_items p) s3) (ap_items p)"
  using assms by (auto simp: plan_assembly_def Let_def prog_iff composition_of_def split: prod.splits)

lemma make_eligible_safe: "keeps (since s0) (make_eligible i)"
  unfolding make_eligible_def by (rule keeps_since_items) auto

lemma markFailed_safe: "keeps (since s0) (markFailed_write u b ev)"
  unfolding markFailed_write_def
  by (intro keeps_intros keeps_since_set_status) (simp_all add: frozen_parts_def frozen_of_def)

lemma retry_safe: "keeps (since s0) (retry_write u b)"
  unfolding retry_write_def by (intro keeps_intros keeps_since_set_status) simp_all

lemma hold_safe: "keeps (since s0) (holdBatch_write u b ev)"
  unfolding holdBatch_write_def by (intro keeps_intros keeps_since_set_status) simp_all

lemma history_past_ok: "history h \<Longrightarrow> past_ok h"
proof (induction rule: history.induct)
  case (started s)
  then show ?case by (simp add: past_ok_def start_def settlement_inv_def since_def)
next
  case (assembled s h s1 s2 s3 storeId currency p e u reference nid)
  have "ap_composition p \<noteq> []" by (rule plan_assembly_composition(1) [OF assembled(3)])
  from past_ok_keeps [OF _ keeps_since_assembly [OF this]] assembled show ?case by blast
next
  case (settled s h s0 b e u evidence)
  then obtain b' where "b' \<in> set (db_batches s)" "frozen_parts b b'" using past_batch by blast
  then show ?case using settled by (intro past_ok_step settle_since past_okD)
next
  case (closed s h s0 b e u t)
  then obtain b' where "b' \<in> set (db_batches s)" "frozen_parts b b'" using past_batch by blast
  then show ?case using closed by (intro past_ok_step zero_net_since past_okD)
next
  case (superseded s h s0 s1 b cause d u affected hold)
  have "disposition_ok d" by (rule supersede_disposition_ok [OF superseded(5)])
  from past_ok_keeps [OF _ keeps_since_supersede [OF this]] superseded show ?case by blast
next
  case refunded
  then show ?case by (intro past_ok_keeps refund_safe)
next
  case (unrelated s h s')
  then show ?case
    by (intro past_ok_step) (auto simp: since_def past_ok_def core_same_def batches_persist_same intro: settlement_inv_core)
next
  case failed
  then show ?case by (intro past_ok_keeps markFailed_safe)
next
  case retried
  then show ?case by (intro past_ok_keeps retry_safe)
next
  case held
  then show ?case by (intro past_ok_keeps hold_safe)
next
  case linked
  then show ?case by (intro past_ok_keeps keeps_since_link)
next
  case evaluated
  then show ?case by (intro past_ok_keeps make_eligible_safe)
next
  case covered
  then show ?case by (intro past_ok_keeps keeps_since_artifacts)
qed

lemma history_inv: "history (s # h) \<Longrightarrow> settlement_inv s"
  by (rule past_okD) (rule history_past_ok)

section \<open>A history with two payouts\<close>

lemma consume_rows_ids: "map sr_id (consume_rows bid t as rows) = map sr_id rows"
  by (induction "as" arbitrary: rows) (simp_all add: consume_rows_def map_update_key consumed_row_id)

text \<open>Assembling and settling one store's items, as two steps of a history.\<close>

lemma pay_store:
  assumes h: "history (s # h)" and "assembly_ready storeId currency c s" and "distinct (map sb_id (db_batches s))"
    and "\<forall>b \<in> set (db_batches s). sb_id b \<noteq> nid \<and> sb_settlementReference b \<noteq> reference"
    and "\<forall>r \<in> set (db_remittances s). rm_settlementId r \<noteq> nid \<and> rm_id r \<noteq> rid"
  shows "\<exists>s1 s2 b. history (s2 # s1 # s # h) \<and> sb_id b = nid \<and> sb_settlementReference b = reference
    \<and> b \<in> set (db_batches s1)
    \<and> db_batches s2 = update_where (\<lambda>b'. sb_id b' = nid) (closed_row remitted_type 0) (db_batches s @ [b])
    \<and> (\<exists>r. db_remittances s2 = db_remittances s @ [r] \<and> rm_id r = rid \<and> rm_settlementId r = nid)
    \<and> map sr_id (db_receivables s2) = map sr_id (db_receivables s)
    \<and> (\<forall>r \<in> set (db_receivables s2). receivable_ok r)
    \<and> db_items s2 = update_where (\<lambda>i. si_id i \<in> si_id ` set (eligibleItems storeId currency s)
        \<and> si_batchId i = Some nid \<and> si_state i = I_ready) settled_row
        (update_where (\<lambda>r. si_id r \<in> si_id ` set (eligibleItems storeId currency s)) (bound_row nid) (db_items s))"
proof -
  let ?ids = "si_id ` set (eligibleItems storeId currency s)"
  have "\<forall>r \<in> set (db_remittances s). rm_settlementId r \<noteq> nid \<and> rm_id r \<noteq> en_uuid (demo_env rid) 10"
    using assms(5) by (simp add: demo_env_def)
  from assembled_settleable [OF assms(2-4) this, of "demo_env rid" "''u1''"] obtain p b s1 as where
    p: "plan_assembly storeId currency s s s = Inr p" "assembly_transaction (demo_env rid) ''u1'' p reference nid s = (Inr b, s1)"
    and st: "settleable (demo_env rid) b as s1" "sb_id b = nid" "sb_settlementReference b = reference"
      "member_ids b = map si_id (eligibleItems storeId currency s)"
    and tabs: "\<forall>r \<in> set (db_receivables s1). receivable_ok r" "db_remittances s1 = db_remittances s"
      "map sr_id (db_receivables s1) = map sr_id (db_receivables s)"
      "db_batches s1 = db_batches s @ [b]"
      "db_items s1 = update_where (\<lambda>r. si_id r \<in> set (member_ids b)) (bound_row nid) (db_items s)"
    by blast
  have h1: "history (s1 # s # h)"
    using assembled [OF h _ p(1), where e = "demo_env rid" and u = "''u1''" and reference = reference and nid = nid] p(2) by simp
  from settle_commits [OF st(1), of "''u2''" demo_evidence] obtain s2 where
    s2: "settle_transaction (demo_env rid) ''u2'' b demo_evidence s1 = (Inr (new_remittance (demo_env rid) b demo_evidence), s2)"
    "db_batches s2 = update_where (\<lambda>b'. sb_id b' = sb_id b) (closed_row remitted_type (clk (demo_env rid) 10)) (db_batches s1)"
    "db_items s2 = update_where (\<lambda>i. si_id i \<in> set (member_ids b) \<and> si_batchId i = Some (sb_id b) \<and> si_state i = I_ready)
         settled_row (db_items s1)"
    "db_remittances s2 = db_remittances s1 @ [new_remittance (demo_env rid) b demo_evidence]"
    "db_receivables s2 = consume_rows (sb_id b) (ev_executedAt demo_evidence) as (db_receivables s1)"
    by fastforce
  have ready: "sb_status b = B_ready" "b \<in> set (db_batches s1)" using st(1) by (simp_all add: settleable_def closable_def)
  then have "history (s2 # s1 # s # h)"
    using settled [OF h1, of s1 b "demo_env rid" "''u2''" demo_evidence] s2(1)
    by (simp add: assertBatchTransition_def)
  moreover have "\<forall>r \<in> set (db_receivables s2). receivable_ok r"
    using consume_total [of "db_receivables s1" "as" "sb_id b"] st(1) tabs(1) by (simp add: s2(5) settleable_def)
  ultimately show ?thesis
    using ready(2) st(2-4) tabs(2-5) s2(2-5)
    by (intro exI [of _ s1] exI [of _ s2] exI [of _ b]) (simp add: demo_env_def new_remittance_def consume_rows_ids)
qed

lemma demo_start: "start demo_db"
  by (simp add: start_def demo_db_def demo_item_def demo_receivable_def)

lemma two_payouts:
  "\<exists>s h s0 b. history (s # h) \<and> s0 \<in> set h \<and> b \<in> set (db_batches s0) \<and> sb_id b = ''b1''
    \<and> (\<exists>c c'. db_batches s = [c, c'] \<and> sb_id c = ''b1'' \<and> sb_id c' = ''b2''
        \<and> sb_closureType c = Some remitted_type \<and> sb_closureType c' = Some remitted_type)
    \<and> map rm_settlementId (db_remittances s) = [''b1'', ''b2''] \<and> map sr_id (db_receivables s) = [''r1'']"
proof -
  have h0: "history [demo_db]" by (rule started [OF demo_start])
  obtain s1 s2 b where a: "history (s2 # s1 # [demo_db])" "sb_id b = ''b1''" "sb_settlementReference b = ''QS-1''"
    "b \<in> set (db_batches s1)"
    "db_batches s2 = update_where (\<lambda>b'. sb_id b' = ''b1'') (closed_row remitted_type 0) (db_batches demo_db @ [b])"
    "\<exists>r. db_remittances s2 = db_remittances demo_db @ [r] \<and> rm_id r = ''m1'' \<and> rm_settlementId r = ''b1''"
    "map sr_id (db_receivables s2) = map sr_id (db_receivables demo_db)" "\<forall>r \<in> set (db_receivables s2). receivable_ok r"
    "db_items s2 = update_where (\<lambda>i. si_id i \<in> si_id ` set (eligibleItems ''A'' ''SAR'' demo_db)
        \<and> si_batchId i = Some ''b1'' \<and> si_state i = I_ready) settled_row
        (update_where (\<lambda>r. si_id r \<in> si_id ` set (eligibleItems ''A'' ''SAR'' demo_db)) (bound_row ''b1'') (db_items demo_db))"
    using pay_store [OF h0 demo_ready, of "''b1''" "''QS-1''" "''m1''"] by (auto simp: demo_db_def)
  let ?c = "closed_row remitted_type 0 b"
  have s2: "db_batches s2 = [?c]" "map rm_settlementId (db_remittances s2) = [''b1'']" "map rm_id (db_remittances s2) = [''m1'']"
    "map sr_id (db_receivables s2) = [''r1'']"
    using a(2,5,6,7) by (auto simp: demo_db_def demo_receivable_def update_where_def)
  have items: "db_items s2 = [settled_row (bound_row ''b1'' (demo_item ''i1'' ''A'' 10050)), demo_item ''i2'' ''B'' 2000]"
    unfolding a(9) demo_eligible by (simp add: demo_db_def update_where_def demo_item_def bound_row_def settled_row_def)
  have el: "eligibleItems ''B'' ''SAR'' s2 = [demo_item ''i2'' ''B'' 2000]"
    by (simp add: eligibleItems_def items demo_item_def sar_code order_by_def bound_row_def settled_row_def)
  have "assembly_ready ''B'' ''SAR'' SAR s2"
    using a(8) s2(4) by (simp add: assembly_ready_def el sar_code gross_of_def items)
      (simp add: demo_item_def bound_row_def settled_row_def)
  moreover have "distinct (map sb_id (db_batches s2))"
    "\<forall>b \<in> set (db_batches s2). sb_id b \<noteq> ''b2'' \<and> sb_settlementReference b \<noteq> ''QS-2''"
    using a(2,3) by (simp_all add: s2 closed_row_def)
  moreover have "\<forall>r \<in> set (db_remittances s2). rm_settlementId r \<noteq> ''b2'' \<and> rm_id r \<noteq> ''m2''"
    using s2(2,3) by auto
  ultimately obtain s3 s4 b' where c: "history (s4 # s3 # s2 # s1 # [demo_db])" "sb_id b' = ''b2''"
    "db_batches s4 = update_where (\<lambda>b. sb_id b = ''b2'') (closed_row remitted_type 0) (db_batches s2 @ [b'])"
    "\<exists>r. db_remittances s4 = db_remittances s2 @ [r] \<and> rm_settlementId r = ''b2''"
    "map sr_id (db_receivables s4) = map sr_id (db_receivables s2)"
    using pay_store [OF a(1), of "''B''" "''SAR''" SAR "''b2''" "''QS-2''" "''m2''"] by fastforce
  have "db_batches s4 = [?c, closed_row remitted_type 0 b']" "map rm_settlementId (db_remittances s4) = [''b1'', ''b2'']"
    using a(2) c(2-4) s2(1,2) by (auto simp: update_where_def closed_row_def)
  then show ?thesis
    using a(2,4) c(1,2,5) s2(4)
    by (intro exI [of _ s4] exI [of _ "[s3, s2, s1, demo_db]"] exI [of _ s1] exI [of _ b]) (simp add: closed_row_def)
qed

text \<open>
  The failure lane writes by id alone, so a mark that was decided before the batch settled
  still lands afterwards and takes the batch out of its terminal state (the closure fields and
  the remittance stay).
\<close>

lemma late_failure_overwrites:
  assumes "find (\<lambda>x. sb_id x = sb_id b) (db_batches s) = Some b'" and "sb_status b' = B_settled"
  shows "fst (markFailed_write u b ev s) = Inr (b'\<lparr> sb_status := B_failed, sb_failureEvidence := Some (js_trim ev) \<rparr>)"
proof -
  have "find (\<lambda>x. sb_id x = sb_id b) (db_batches s) = Some b'" by (rule assms(1))
  then show ?thesis
    by (simp add: markFailed_write_def set_status_def update_row_def seq_def audit_record_def on_table_def)
qed

section \<open>Properties\<close>

text \<open>
  C1: no occurrence is ever settled twice. In every state of every history, two different
  batches that have been closed, by a remittance or as a zero-net close, have no item in
  common, whatever the interleaving of assemblies, failures, retries, supersessions and closes
  that led there.
\<close>

theorem no_double_settlement:
  assumes "history (s # h)"
    and "b \<in> set (db_batches s)" "sb_closureType b \<noteq> None"
    and "b' \<in> set (db_batches s)" "sb_closureType b' \<noteq> None" and "sb_id b' \<noteq> sb_id b"
  shows "set (member_ids b) \<inter> set (member_ids b') = {}"
proof (rule ccontr)
  assume "set (member_ids b) \<inter> set (member_ids b') \<noteq> {}"
  then obtain k where k: "k \<in> set (member_ids b)" "k \<in> set (member_ids b')" by blast
  note inv = history_inv [OF assms(1)]
  from inv_closed [OF inv assms(2,3) k(1)] inv_closed [OF inv assms(4,5) k(2)]
  obtain i j where "i \<in> set (db_items s)" "si_id i = k" "si_batchId i = Some (sb_id b)"
    "j \<in> set (db_items s)" "si_id j = k" "si_batchId j = Some (sb_id b')"
    by (auto simp: settled_in_def)
  moreover have "distinct (map si_id (db_items s))" using inv by (simp add: settlement_inv_def)
  ultimately have "i = j" using distinct_key_eq by metis
  with \<open>si_batchId i = Some (sb_id b)\<close> \<open>si_batchId j = Some (sb_id b')\<close> assms(6) show False by simp
qed

lemma no_double_settlement_witness:
  "\<exists>s h b b'. history (s # h) \<and> b \<in> set (db_batches s) \<and> b' \<in> set (db_batches s)
     \<and> sb_closureType b = Some remitted_type \<and> sb_closureType b' = Some remitted_type
     \<and> sb_id b' \<noteq> sb_id b \<and> set (member_ids b) \<inter> set (member_ids b') = {}"
proof -
  from two_payouts obtain s h b b' where d: "history (s # h)" "db_batches s = [b, b']" "sb_id b = ''b1''" "sb_id b' = ''b2''"
    "sb_closureType b = Some remitted_type" "sb_closureType b' = Some remitted_type" by blast
  moreover from d have "set (member_ids b) \<inter> set (member_ids b') = {}"
    by (intro no_double_settlement [OF d(1)]) simp_all
  ultimately show ?thesis by (intro exI [of _ s] exI [of _ h] exI [of _ b] exI [of _ b']) simp
qed

text \<open>
  C2: money out equals what was frozen. In every history, each remittance belongs to exactly
  one batch, that batch was closed as remitted, and the remittance carries the batch's frozen
  net, currency, store and reference; every batch closed as remitted has its remittance, and no
  batch has two.
\<close>

theorem remittances_match_batches:
  assumes "history (s # h)"
  shows "(\<forall>r \<in> set (db_remittances s). \<exists>!b. b \<in> set (db_batches s) \<and> pays r b)
    \<and> (\<forall>b \<in> set (db_batches s). sb_closureType b = Some remitted_type \<longleftrightarrow> (\<exists>!r. r \<in> set (db_remittances s) \<and> pays r b))"
proof -
  note inv = history_inv [OF assms]
  have dis: "distinct (map sb_id (db_batches s))" "distinct (map rm_settlementId (db_remittances s))"
    using inv by (simp_all add: settlement_inv_def)
  have one_b: "b = b'" if "b \<in> set (db_batches s)" "b' \<in> set (db_batches s)" "pays r b" "pays r b'" for r b b'
    using distinct_key_eq [OF dis(1) that(1,2)] that(3,4) by (simp add: pays_def)
  have one_r: "r = r'" if "r \<in> set (db_remittances s)" "r' \<in> set (db_remittances s)" "pays r b" "pays r' b" for r r' b
    using distinct_key_eq [OF dis(2) that(1,2)] that(3,4) by (simp add: pays_def)
  have r_b: "\<exists>b \<in> set (db_batches s). pays r b \<and> sb_closureType b = Some remitted_type" if "r \<in> set (db_remittances s)" for r
    using inv that unfolding settlement_inv_def by blast
  have b_r: "\<exists>r \<in> set (db_remittances s). pays r b" if "b \<in> set (db_batches s)" "sb_closureType b = Some remitted_type" for b
    using inv that unfolding settlement_inv_def by blast
  show ?thesis
  proof (intro conjI ballI iffI)
    fix r assume r: "r \<in> set (db_remittances s)"
    from r_b [OF r] one_b show "\<exists>!b. b \<in> set (db_batches s) \<and> pays r b" by blast
  next
    fix b assume b: "b \<in> set (db_batches s)" "sb_closureType b = Some remitted_type"
    from b_r [OF b] one_r show "\<exists>!r. r \<in> set (db_remittances s) \<and> pays r b" by blast
  next
    fix b assume b: "b \<in> set (db_batches s)" "\<exists>!r. r \<in> set (db_remittances s) \<and> pays r b"
    then obtain r where r: "r \<in> set (db_remittances s)" "pays r b" by blast
    with r_b [OF r(1)] one_b b(1) show "sb_closureType b = Some remitted_type" by metis
  qed
qed

lemma remittances_match_batches_witness:
  "\<exists>s h. history (s # h) \<and> length (db_remittances s) = 2
     \<and> (\<forall>r \<in> set (db_remittances s). \<exists>!b. b \<in> set (db_batches s) \<and> pays r b)"
proof -
  obtain s h where d: "history (s # h)" "map rm_settlementId (db_remittances s) = [''b1'', ''b2'']"
    using two_payouts by (elim exE conjE) (rule that)
  then have "length (map rm_settlementId (db_remittances s)) = 2" by simp
  then have "length (db_remittances s) = 2" by simp
  with remittances_match_batches [OF d(1)] d(1) show ?thesis by blast
qed

text \<open>
  C11: what a batch froze is immutable. A batch present in some past state is present in every
  later one with the same reference, store, currency, composition, calculation, recovery
  allocation, gross, net and proposer.
\<close>

theorem frozen_batches_immutable:
  assumes "history (s # h)" and "s0 \<in> set (s # h)" and "b \<in> set (db_batches s0)"
  shows "\<exists>b' \<in> set (db_batches s). frozen_of b' = frozen_of b \<and> sb_grossAmount b' = sb_grossAmount b
    \<and> sb_netAmount b' = sb_netAmount b \<and> sb_assembledBy b' = sb_assembledBy b"
  using past_batch [OF history_past_ok [OF assms(1)] assms(2,3)] by (simp add: frozen_parts_def)

lemma frozen_batches_immutable_witness:
  "\<exists>s h s0 b. history (s # h) \<and> s0 \<in> set h \<and> b \<in> set (db_batches s0)
     \<and> (\<exists>b' \<in> set (db_batches s). frozen_of b' = frozen_of b \<and> sb_netAmount b' = sb_netAmount b)"
proof -
  from two_payouts obtain s h s0 b where d: "history (s # h)" "s0 \<in> set h" "b \<in> set (db_batches s0)" by blast
  have "s0 \<in> set (s # h)" using d(2) by simp
  from frozen_batches_immutable [OF d(1) this d(3)] d show ?thesis by blast
qed

end
