(* ===== verification/Recovery.thy ===== *)
theory Recovery
  imports Concurrency
begin

text \<open>
  The recovery of receivables over all histories: what a receivable says it has recovered is
  exactly what the frozen allocations of the closed batches took from it, and never more than
  it claims. An assembly allocates against rows read in any earlier state; the amount pin of the
  staging and of the consumption is what makes that exact.
\<close>

section \<open>What the invariant sees\<close>

text \<open>A batch as its id, its closure and its allocation; a receivable as its id, amount, currency and recovered amount.\<close>

type_synonym batch_view = "string \<times> string option \<times> RecoveryAllocation list"
type_synonym claim_view = "string \<times> dec2 \<times> string \<times> dec2"

definition allocation_of :: "SettlementBatch \<Rightarrow> RecoveryAllocation list" where
  "allocation_of b = (case sb_recoveryAllocation b of None \<Rightarrow> [] | Some a \<Rightarrow> a)"

definition batch_of :: "SettlementBatch \<Rightarrow> batch_view" where
  "batch_of b = (sb_id b, sb_closureType b, allocation_of b)"

definition claim_of :: "SettlementReceivable \<Rightarrow> claim_view" where
  "claim_of r = (sr_id r, sr_amount r, sr_currency r, sr_amountRecovered r)"

definition recovery_view :: "db \<Rightarrow> batch_view list \<times> claim_view list" where
  "recovery_view s = (map batch_of (db_batches s), map claim_of (db_receivables s))"

text \<open>What an allocation takes from a receivable, and what all closed batches took.\<close>

definition taken :: "RecoveryAllocation list \<Rightarrow> string \<Rightarrow> int" where
  "taken as k = sum_list (map alloc_minor (filter (\<lambda>a. ra_receivableId a = k) as))"

fun taken_if_closed :: "batch_view \<Rightarrow> string \<Rightarrow> int" where
  "taken_if_closed (i, c, as) k = (if c = None then 0 else taken as k)"

definition closed_taken :: "batch_view list \<Rightarrow> string \<Rightarrow> int" where
  "closed_taken bs k = sum_list (map (\<lambda>b. taken_if_closed b k) bs)"

lemma taken_simps [simp]:
  "taken [] k = 0"
  "taken (a # as) k = (if ra_receivableId a = k then alloc_minor a else 0) + taken as k"
  by (simp_all add: taken_def)

lemma taken_absent: "k \<notin> ra_receivableId ` set as \<Longrightarrow> taken as k = 0"
  by (induction "as") auto

lemma closed_taken_simps [simp]:
  "closed_taken [] k = 0" "closed_taken (b # bs) k = taken_if_closed b k + closed_taken bs k"
  "closed_taken (bs @ [b]) k = closed_taken bs k + taken_if_closed b k"
  by (simp_all add: closed_taken_def)

section \<open>The invariant\<close>

text \<open>An allocation part fits a claim: it names it and stays within it.\<close>

definition plan_minor :: "RecoveryAllocation \<Rightarrow> int" where
  "plan_minor a = dec_round (100 * ra_amountRecoveredAtPlan a)"

definition sound_part :: "RecoveryAllocation \<Rightarrow> bool" where
  "sound_part a \<longleftrightarrow> 0 \<le> plan_minor a \<and> 0 < alloc_minor a
     \<and> plan_minor a + alloc_minor a < 10 ^ 12
     \<and> ra_amountRecoveredAtPlan a = dec_num (plan_minor a) \<and> ra_amount a = dec_num (alloc_minor a)"

fun fits :: "claim_view \<Rightarrow> RecoveryAllocation \<Rightarrow> bool" where
  "fits (i, amount, c, recovered) a \<longleftrightarrow> ra_receivableId a = i \<and> plan_minor a + alloc_minor a \<le> amount"

fun claim_ok :: "claim_view \<Rightarrow> bool" where
  "claim_ok (i, amount, c, recovered) \<longleftrightarrow> 0 \<le> recovered \<and> recovered \<le> amount \<and> amount < 10 ^ 12 \<and> c = ''SAR''"

definition sound_allocation :: "claim_view list \<Rightarrow> RecoveryAllocation list \<Rightarrow> bool" where
  "sound_allocation rs as \<longleftrightarrow> distinct (map ra_receivableId as)
     \<and> (\<forall>a \<in> set as. sound_part a \<and> (\<exists>r \<in> set rs. fits r a))"

fun recovery_inv :: "batch_view list \<times> claim_view list \<Rightarrow> bool" where
  "recovery_inv (bs, rs) \<longleftrightarrow> distinct (map fst bs) \<and> distinct (map fst rs) \<and> (\<forall>r \<in> set rs. claim_ok r)
     \<and> (\<forall>(i, amount, c, recovered) \<in> set rs. recovered = closed_taken bs i)
     \<and> (\<forall>(i, c, as) \<in> set bs. sound_allocation rs as)"

text \<open>Claims persist: the amount of a receivable never changes.\<close>

definition claims_persist :: "claim_view list \<Rightarrow> claim_view list \<Rightarrow> bool" where
  "claims_persist rs rs' \<longleftrightarrow> (\<forall>(i, amount, c, recovered) \<in> set rs. \<exists>recovered'. (i, amount, c, recovered') \<in> set rs')"

lemma claims_persist_refl [simp]: "claims_persist rs rs"
  by (auto simp: claims_persist_def)

lemma claims_persist_trans: "claims_persist rs rs1 \<Longrightarrow> claims_persist rs1 rs2 \<Longrightarrow> claims_persist rs rs2"
  unfolding claims_persist_def by fast

lemma sound_allocation_persist: "claims_persist rs rs' \<Longrightarrow> sound_allocation rs as \<Longrightarrow> sound_allocation rs' as"
proof -
  assume persist: "claims_persist rs rs'" and sound: "sound_allocation rs as"
  have "\<exists>r' \<in> set rs'. fits r' a" if "r \<in> set rs" "fits r a" for r a
  proof -
    obtain i amount c recovered where r: "r = (i, amount, c, recovered)" by (cases r)
    with persist that(1) obtain recovered' where "(i, amount, c, recovered') \<in> set rs'" by (auto simp: claims_persist_def)
    moreover have "fits (i, amount, c, recovered') a" using that(2) r by simp
    ultimately show ?thesis by blast
  qed
  with sound show ?thesis unfolding sound_allocation_def by blast
qed

definition recovery_step :: "db \<Rightarrow> db \<Rightarrow> bool" where
  "recovery_step s s' \<longleftrightarrow> recovery_inv (recovery_view s') \<and> claims_persist (snd (recovery_view s)) (snd (recovery_view s'))"

lemma recovery_step_same: "recovery_inv (recovery_view s) \<Longrightarrow> recovery_view s' = recovery_view s \<Longrightarrow> recovery_step s s'"
  by (simp add: recovery_step_def)

section \<open>Assembling\<close>

text \<open>The allocation of a plan is sound for the claims it was planned on.\<close>

lemma dec_round_dec_num: "\<bar>k\<bar> < 10 ^ 12 \<Longrightarrow> dec_round (100 * dec_num k) = k"
  using to_dec_dec_num [of k] by (auto simp: to_dec_def Let_def split: if_splits)

lemma allocates_sound:
  assumes "allocates r k a" "receivable_ok r"
  shows "sound_part a \<and> fits (claim_of r) a"
proof -
  have k: "alloc_minor a = k" using allocates_minor [OF assms(2,1)] .
  have p: "plan_minor a = sr_amountRecovered r"
    using assms dec_round_dec_num [of "sr_amountRecovered r"] by (simp add: plan_minor_def allocates_def receivable_ok_def)
  show ?thesis using assms by (simp add: sound_part_def claim_of_def k p allocates_def receivable_ok_def)
qed

lemma plan_sound:
  assumes "plan_assembly storeId currency s1 s2 s3 = Inr p" and inv: "recovery_inv (recovery_view s2)"
  shows "sound_allocation (snd (recovery_view s2)) (ap_allocation p)"
proof -
  from assms(1) obtain items tot where plan: "planRecovery storeId (js_upper currency) items s2 = Inr (ap_allocation p, tot)"
    by (auto simp: plan_assembly_def Let_def bindr_iff split: prod.splits)
  define rows where "rows = order_by (\<lambda>r. (sr_accruedAt r, sr_id r))
      (filter (\<lambda>r. sr_storeId r = storeId \<and> sr_currency r = js_upper currency \<and> recoverable r) (db_receivables s2))"
  from plan obtain c where c: "asCurrencyCode (js_upper currency) = Inr c"
    and as: "ap_allocation p = fst (plan_loop c rows (items_gross c items))"
    by (auto simp: planRecovery_def rows_def Let_def bindr_iff)
  have rows: "r \<in> set (db_receivables s2) \<and> receivable_ok r \<and> sr_currency r = ''SAR'' \<and> sr_currency r = js_upper currency"
    if "r \<in> set rows" for r
    using that inv by (auto simp: rows_def recovery_view_def claim_of_def receivable_ok_def)
  show ?thesis
  proof (cases "rows = []")
    case True
    then show ?thesis by (simp add: as sound_allocation_def)
  next
    case False
    then obtain r where "r \<in> set rows" by (cases rows) auto
    with rows have "js_upper currency = ''SAR''" by metis
    with c sar_code have "c = SAR" by simp
    moreover have "distinct (map sr_id (db_receivables s2))"
      using inv by (simp add: recovery_view_def claim_of_def comp_def)
    then have "distinct (map sr_id rows)"
      unfolding rows_def distinct_order_by by (rule distinct_map_filter)
    ultimately have "distinct (map ra_receivableId (ap_allocation p))"
      "\<forall>a \<in> set (ap_allocation p). \<exists>r \<in> set rows. \<exists>k. allocates r k a"
      using plan_loop_rows [of c rows "items_gross c items"] rows by (auto simp: as)
    moreover have "sound_part a \<and> (\<exists>v \<in> set (snd (recovery_view s2)). fits v a)"
      if "r \<in> set rows" "allocates r k a" for r k a
      using allocates_sound [OF that(2)] rows [OF that(1)] by (auto simp: recovery_view_def)
    ultimately show ?thesis unfolding sound_allocation_def by meson
  qed
qed

section \<open>Consuming\<close>

text \<open>What a consumed part does to the claims.\<close>

fun bump :: "RecoveryAllocation list \<Rightarrow> claim_view \<Rightarrow> claim_view" where
  "bump as (i, amount, c, recovered) = (i, amount, c, recovered + taken as i)"

lemma bump_fst [simp]: "fst (bump as r) = fst r"
  by (cases r) simp

lemma bump_Nil: "bump [] = id"
  by (rule ext) (auto simp: bump.simps)

lemma bump_Cons: "bump (a # as) r = bump as (bump [a] r)"
  by (cases r) simp

lemma dec_matches_sound: "sound_part a \<Longrightarrow> dec_matches k (ra_amountRecoveredAtPlan a) \<Longrightarrow> \<bar>k\<bar> < 10 ^ 12 \<Longrightarrow> k = plan_minor a"
  using dec_round_dec_num [of k] by (simp add: dec_matches_def plan_minor_def)

lemma consume_one_claims:
  assumes run: "consume_one u b t md a s = (Inr (), s')"
    and part: "sound_part a" and dist: "distinct (map sr_id (db_receivables s))"
    and small: "\<forall>r \<in> set (db_receivables s). \<bar>sr_amountRecovered r\<bar> < 10 ^ 12"
  shows "db_batches s' = db_batches s \<and> map claim_of (db_receivables s') = map (bump [a]) (map claim_of (db_receivables s))
    \<and> (\<exists>r \<in> set (db_receivables s). sr_id r = ra_receivableId a \<and> sr_amountRecovered r = plan_minor a)"
proof -
  define st where "st = next_receivable_state a"
  define P where "P = (\<lambda>(row :: SettlementReceivable) (r :: SettlementReceivable). sr_id r = ra_receivableId a \<and> sr_stagedBySettlementId r = Some (sb_id b)
          \<and> sr_state r = sr_state row \<and> dec_matches (sr_amountRecovered r) (ra_amountRecoveredAtPlan a))"
  define F where "F = (\<lambda>recd (r :: SettlementReceivable). let r' = r\<lparr> sr_state := st, sr_amountRecovered := recd, sr_stagedBySettlementId := None \<rparr>
          in if st = R_recovered then r'\<lparr> sr_recoveredAt := Some t, sr_recoveredBySettlementId := Some (sb_id b) \<rparr> else r')"
  have F: "sr_id (F v r) = sr_id r" "sr_amount (F v r) = sr_amount r" "sr_currency (F v r) = sr_currency r"
    "sr_amountRecovered (F v r) = v" for v r
    by (simp_all add: F_def Let_def)
  obtain i where "consume_one u b t md a = seq (reads (\<lambda>s. find (\<lambda>r. sr_id r = ra_receivableId a) (db_receivables s))) (\<lambda>read.
      seq (found read (Conflict ''settlement_receivables_contended'')) (\<lambda>row.
      seq (lift (if sr_state row \<noteq> st then assertReceivableTransition (sr_state row) st else Inr ())) (\<lambda>_.
      seq (lift (to_dec (fl64 (ra_amountRecoveredAtPlan a + ra_amount a)))) (\<lambda>recovered.
      seq (updateMany db_receivables db_receivables_update (P row) (F recovered)) (\<lambda>n.
      seq (require (n = 1) (Conflict ''settlement_receivables_contended'')) (\<lambda>_.
      seq (ledger_record i) (\<lambda>_. ret ())))))))"
    unfolding consume_one_def Let_def [of "next_receivable_state a"] P_def F_def st_def by blast
  with run obtain row recd x where n: "count_where (P row) (db_receivables s) = 1"
    and recd: "to_dec (fl64 (ra_amountRecoveredAtPlan a + ra_amount a)) = Inr recd"
    and post: "ledger_record i (db_receivables_update (update_where (P row) (F recd)) s) = (Inr x, s')"
    by (auto simp: seq_iff reads_iff found_iff lift_iff require_iff ret_iff updateMany_iff
        simp del: require_run reads_run updateMany_run)
  have recd: "recd = plan_minor a + alloc_minor a"
    using recd to_dec_sum [of "plan_minor a" "alloc_minor a"] part by (simp add: sound_part_def)
  have core: "db_receivables s' = update_where (P row) (F recd) (db_receivables s)" "db_batches s' = db_batches s"
    using post by (auto simp: ledger_record_def on_table_iff)
  from n have "count_where (P row) (db_receivables s) \<noteq> 0" by simp
  then obtain r0 where r0: "r0 \<in> set (db_receivables s)" "P row r0" unfolding count_where_pos by blast
  then have id0: "sr_id r0 = ra_receivableId a" by (simp add: P_def)
  have rec0: "sr_amountRecovered r0 = plan_minor a"
    using r0 part small dec_matches_sound [of a "sr_amountRecovered r0"] by (simp add: P_def)
  have "claim_of (if P row r then F recd r else r) = bump [a] (claim_of r)" if r: "r \<in> set (db_receivables s)" for r
  proof (cases "sr_id r = ra_receivableId a")
    case True
    then have "r = r0" using distinct_key_eq [OF dist r r0(1)] id0 by simp
    with True r0(2) rec0 recd F show ?thesis by (simp add: claim_of_def)
  next
    case False
    then show ?thesis by (simp add: claim_of_def P_def)
  qed
  then have "map claim_of (db_receivables s') = map (bump [a]) (map claim_of (db_receivables s))"
    unfolding core by (simp add: update_where_def)
  with core r0(1) id0 rec0 show ?thesis by blast
qed

text \<open>The claims of a database, and what a whole consumption does to them.\<close>

definition claims :: "db \<Rightarrow> claim_view list" where
  "claims s = map claim_of (db_receivables s)"

definition small_claims :: "claim_view list \<Rightarrow> bool" where
  "small_claims cs \<longleftrightarrow> distinct (map fst cs) \<and> (\<forall>(i, amount, c, recovered) \<in> set cs. \<bar>recovered\<bar> < 10 ^ 12)"

text \<open>A part is due when the claim still has recovered what the plan saw.\<close>

definition due :: "claim_view list \<Rightarrow> RecoveryAllocation \<Rightarrow> bool" where
  "due cs a \<longleftrightarrow> (\<exists>amount c. (ra_receivableId a, amount, c, plan_minor a) \<in> set cs)"

lemma claims_small: "small_claims (claims s) \<longleftrightarrow> distinct (map sr_id (db_receivables s))
    \<and> (\<forall>r \<in> set (db_receivables s). \<bar>sr_amountRecovered r\<bar> < 10 ^ 12)"
  by (auto simp: small_claims_def claims_def claim_of_def comp_def)

lemma claims_due: "due (claims s) a \<longleftrightarrow> (\<exists>r \<in> set (db_receivables s). sr_id r = ra_receivableId a \<and> sr_amountRecovered r = plan_minor a)"
  by (force simp: due_def claims_def claim_of_def)

lemma claim_unique: "distinct (map fst cs) \<Longrightarrow> (i, x) \<in> set cs \<Longrightarrow> (i, y) \<in> set cs \<Longrightarrow> x = y"
  by (meson eq_key_imp_eq_value)

lemma bump_small:
  assumes "small_claims cs" "due cs a" "sound_part a"
  shows "small_claims (map (bump [a]) cs)"
proof -
  from assms(2) obtain amount c where row: "(ra_receivableId a, amount, c, plan_minor a) \<in> set cs" by (auto simp: due_def)
  have dist: "distinct (map fst cs)" using assms(1) by (simp add: small_claims_def)
  have "\<bar>recovered + taken [a] i\<bar> < 10 ^ 12" if "(i, amount', c', recovered) \<in> set cs" for i amount' c' recovered
  proof (cases "ra_receivableId a = i")
    case True
    with claim_unique [OF dist row] that have "recovered = plan_minor a" by blast
    with True assms(3) show ?thesis by (simp add: sound_part_def)
  next
    case False
    with that assms(1) show ?thesis by (auto simp: small_claims_def)
  qed
  with dist show ?thesis by (auto simp: small_claims_def comp_def)
qed

lemma due_later: "due (map (bump [a]) cs) a' \<Longrightarrow> ra_receivableId a \<noteq> ra_receivableId a' \<Longrightarrow> due cs a'"
  by (force simp: due_def)

lemma consume_claims:
  assumes "each (consume_one u b t md) as s = (Inr (), s')" and "\<forall>a \<in> set as. sound_part a"
    and "distinct (map ra_receivableId as)" and "small_claims (claims s)"
  shows "db_batches s' = db_batches s \<and> claims s' = map (bump as) (claims s) \<and> (\<forall>a \<in> set as. due (claims s) a)"
  using assms
proof (induction "as" arbitrary: s)
  case Nil
  then show ?case by (simp add: bump_Nil)
next
  case (Cons a "as")
  from Cons.prems(1) obtain s1 where one: "consume_one u b t md a s = (Inr (), s1)"
    and rest: "each (consume_one u b t md) as s1 = (Inr (), s')" unfolding each_Cons_iff by blast
  have part: "sound_part a" using Cons.prems(2) by simp
  from consume_one_claims [OF one part] Cons.prems(4)
  have c1: "db_batches s1 = db_batches s" "claims s1 = map (bump [a]) (claims s)" "due (claims s) a"
    by (simp_all add: claims_small claims_due) (simp_all add: claims_def)
  have "small_claims (claims s1)" unfolding c1(2) by (rule bump_small [OF Cons.prems(4) c1(3) part])
  with Cons.IH [OF rest] Cons.prems have ih: "db_batches s' = db_batches s1" "claims s' = map (bump as) (claims s1)"
    "\<forall>a \<in> set as. due (claims s1) a" by simp_all
  have "claims s' = map (bump (a # as)) (claims s)"
    unfolding ih(2) c1(2) map_map comp_def bump_Cons [of a "as"] ..
  moreover have "due (claims s) a'" if "a' \<in> set as" for a'
    using ih(3) that Cons.prems(3) due_later [of a "claims s" a'] by (auto simp: c1(2))
  ultimately show ?case using ih(1) c1(1,3) by simp
qed

section \<open>Closing\<close>

fun close_view :: "string \<Rightarrow> string \<Rightarrow> batch_view \<Rightarrow> batch_view" where
  "close_view i ct (j, c, as) = (j, if j = i then Some ct else c, as)"

lemma close_view_other: "\<forall>b \<in> set bs. fst b \<noteq> i \<Longrightarrow> map (close_view i ct) bs = bs"
  by (induction bs) auto

lemma closed_taken_close:
  "distinct (map fst bs) \<Longrightarrow> (i, None, as) \<in> set bs \<Longrightarrow> closed_taken (map (close_view i ct) bs) k = closed_taken bs k + taken as k"
proof (induction bs)
  case (Cons b bs)
  show ?case
  proof (cases "fst b = i")
    case True
    with Cons.prems(1) have other: "\<forall>b' \<in> set bs. fst b' \<noteq> i"
      by (metis distinct.simps(2) image_eqI list.set_map list.simps(9))
    then have "(i, None, as) \<notin> set bs" by (metis fst_conv)
    then have "b = (i, None, as)" using Cons.prems(2) by simp
    with other show ?thesis by (simp add: close_view_other)
  next
    case False
    then have "(i, None, as) \<in> set bs" using Cons.prems(2) by auto
    with Cons False show ?thesis by (cases b) simp
  qed
qed simp

lemma taken_one:
  "distinct (map ra_receivableId as) \<Longrightarrow> a \<in> set as \<Longrightarrow> taken as (ra_receivableId a) = alloc_minor a"
  by (induction "as") (auto simp: taken_absent)

lemma claims_persist_bump: "claims_persist cs (map (bump as) cs)"
  by (force simp: claims_persist_def)

lemma recovery_inv_close:
  assumes inv: "recovery_inv (bs, cs)" and b: "(i, None, as) \<in> set bs" and due: "\<forall>a \<in> set as. due cs a"
  shows "recovery_inv (map (close_view i ct) bs, map (bump as) cs)"
proof -
  have dist: "distinct (map fst bs)" "distinct (map fst cs)" using inv by simp_all
  have sound: "sound_allocation cs as" using inv b by auto
  have fst_close: "fst (close_view i ct b) = fst b" for b by (cases b) simp
  have ok: "claim_ok (bump as (j, amount, c, recovered))" if row: "(j, amount, c, recovered) \<in> set cs" for j amount c recovered
  proof (cases "j \<in> ra_receivableId ` set as")
    case False
    with inv row show ?thesis by (auto simp: taken_absent)
  next
    case True
    then obtain a where a: "a \<in> set as" "ra_receivableId a = j" by auto
    from due a obtain am' c' where "(j, am', c', plan_minor a) \<in> set cs" by (auto simp: due_def)
    with claim_unique [OF dist(2) row] have rec: "recovered = plan_minor a" by blast
    from sound a(1) obtain r where r: "r \<in> set cs" "fits r a" "sound_part a" by (auto simp: sound_allocation_def)
    obtain am2 c2 rc2 where "r = (j, am2, c2, rc2)" using r(2) a(2) by (cases r) auto
    with claim_unique [OF dist(2) row] r(1,2) have "plan_minor a + alloc_minor a \<le> amount" by auto
    moreover have "taken as j = alloc_minor a" using taken_one [OF _ a(1)] sound a(2) by (auto simp: sound_allocation_def)
    ultimately show ?thesis using inv row r(3) rec by (auto simp: sound_part_def)
  qed
  have "sound_allocation (map (bump as) cs) as'" if "(j, c, as') \<in> set bs" for j c as'
    using sound_allocation_persist [OF claims_persist_bump] inv that by auto
  then show ?thesis
    using dist inv ok by (auto simp: comp_def fst_close closed_taken_close [OF dist(1) b])
qed

lemma batch_view_closing:
  assumes "distinct (map sb_id bs)" and "b \<in> set bs" and "sb_id b = sb_id b0" and "sb_status b = B_ready"
  shows "map batch_of (map (closing b0 ct t) bs) = map (close_view (sb_id b0) ct) (map batch_of bs)"
proof -
  have "batch_of (closing b0 ct t b') = close_view (sb_id b0) ct (batch_of b')" if "b' \<in> set bs" for b'
  proof (cases "sb_id b' = sb_id b0")
    case True
    then have "b' = b" using distinct_key_eq [OF assms(1) that assms(2)] assms(3) by simp
    with assms(3,4) show ?thesis by (simp add: closing_def batch_of_def allocation_of_def)
  next
    case False
    then show ?thesis by (simp add: closing_def batch_of_def)
  qed
  then show ?thesis by simp
qed

lemma recovery_small: "recovery_inv (bs, cs) \<Longrightarrow> small_claims cs"
  by (fastforce simp: small_claims_def)

lemma close_recovers:
  assumes inv: "settlement_inv s" "recovery_inv (recovery_view s)"
    and b: "b \<in> set (db_batches s)" "frozen_parts b0 b"
    and close: "close_batch b0 ct t s = (Inr (), s1)"
    and mid: "db_receivables s2 = db_receivables s1" "db_batches s2 = db_batches s1"
    and consume: "consumeRecoveryAllocation u b0 t' md s2 = (Inr (), s3)"
    and after: "recovery_view s' = recovery_view s3"
  shows "recovery_step s s'"
proof -
  have view: "recovery_view x = (map batch_of (db_batches x), claims x)" for x by (simp add: recovery_view_def claims_def)
  note same = frozen_partsD [OF b(2)]
  have open_b: "sb_closureType b = None" by (rule close_open [OF inv(1) b close])
  have dist: "distinct (map sb_id (db_batches s))" using inv(1) by (simp add: settlement_inv_def)
  from close have one: "count_where (\<lambda>b. sb_id b = sb_id b0 \<and> sb_status b = B_ready) (db_batches s) = 1"
    and s1: "db_batches s1 = map (closing b0 ct t) (db_batches s)" "db_receivables s1 = db_receivables s"
    by (auto simp: close_batch_iff)
  have "count_where (\<lambda>b. sb_id b = sb_id b0 \<and> sb_status b = B_ready) (db_batches s) \<noteq> 0" using one by simp
  then obtain b' where "b' \<in> set (db_batches s)" "sb_id b' = sb_id b0" "sb_status b' = B_ready"
    unfolding count_where_pos by blast
  with distinct_key_eq [OF dist _ b(1)] same have ready: "sb_status b = B_ready" by metis
  define as where "as = allocation_of b0"
  have ab: "batch_of b = (sb_id b0, None, as)"
    using same open_b by (simp add: batch_of_def as_def allocation_of_def)
  then have mem: "(sb_id b0, None, as) \<in> set (map batch_of (db_batches s))" using b(1) by force
  from inv(2) mem have sound: "sound_allocation (claims s) as" by (auto simp: view)
  have claims2: "claims s2 = claims s" by (simp add: claims_def mid s1)
  have "each (consume_one u b0 t' md) as s2 = (Inr (), s3)"
    using consume by (simp add: consumeRecoveryAllocation_def as_def allocation_of_def)
  moreover have "small_claims (claims s2)"
    unfolding claims2 by (rule recovery_small [of "map batch_of (db_batches s)"]) (use inv(2) in \<open>simp only: view\<close>)
  ultimately have c: "db_batches s3 = db_batches s2" "claims s3 = map (bump as) (claims s)" "\<forall>a \<in> set as. due (claims s) a"
    using sound consume_claims [of u b0 t' md "as" s2 s3] by (simp_all add: sound_allocation_def claims2)
  have "map batch_of (db_batches s3) = map (close_view (sb_id b0) ct) (map batch_of (db_batches s))"
    unfolding c(1) mid(2) s1(1) using same by (intro batch_view_closing [OF dist b(1) _ ready]) simp
  with c(2) have view3: "recovery_view s3 = (map (close_view (sb_id b0) ct) (map batch_of (db_batches s)), map (bump as) (claims s))"
    by (simp add: view)
  have "recovery_inv (recovery_view s3)"
    unfolding view3 using inv(2) by (intro recovery_inv_close [OF _ mem c(3)]) (simp add: view)
  moreover have "claims_persist (claims s) (claims s3)" unfolding c(2) by (rule claims_persist_bump)
  ultimately show ?thesis unfolding recovery_step_def after by (simp only: view snd_conv simp_thms)
qed

section \<open>Everything else\<close>

lemma leaves_view_batches:
  "(\<And>b. batch_of (f b) = batch_of b) \<Longrightarrow> leaves recovery_view (updateMany db_batches db_batches_update p f)"
  by (rule leavesI) (simp add: recovery_view_def map_update_where)

lemma leaves_view_receivables:
  "(\<And>r. claim_of (f r) = claim_of r) \<Longrightarrow> leaves recovery_view (updateMany db_receivables db_receivables_update p f)"
  by (rule leavesI) (simp add: recovery_view_def map_update_where)

lemma leaves_view_status:
  "(\<And>b. batch_of (f b) = batch_of b) \<Longrightarrow> leaves recovery_view (set_status i st f)"
proof (rule leavesI)
  fix s assume f: "\<And>b. batch_of (f b) = batch_of b"
  have "batch_of (f (b\<lparr> sb_status := st \<rparr>)) = batch_of b" for b
    unfolding f by (simp add: batch_of_def allocation_of_def)
  then show "recovery_view (snd (set_status i st f s)) = recovery_view s"
    by (simp add: set_status_def update_row_def recovery_view_def map_update_where split: option.split)
qed

lemma recovery_view_simps [simp]:
  "recovery_view (db_items_update f1 s) = recovery_view s" "recovery_view (db_audit_update f2 s) = recovery_view s"
  "recovery_view (db_ledger_update f3 s) = recovery_view s" "recovery_view (db_refunds_update f4 s) = recovery_view s"
  "recovery_view (db_creditNotes_update f5 s) = recovery_view s" "recovery_view (db_remittances_update f6 s) = recovery_view s"
  "recovery_view (db_creditNoteVersions_update f7 s) = recovery_view s"
  by (simp_all add: recovery_view_def)

lemma view_ledger_left: "leaves recovery_view (ledger_record i)"
  by (rule leaves_ledger) simp

lemma leaves_release: "leaves recovery_view (release_item bid d aff h i)"
  unfolding release_item_def Let_def by (intro leaves_intros) simp

lemma leaves_failed: "leaves recovery_view (markFailed_write u b ev)"
  unfolding markFailed_write_def
  by (intro leaves_intros leaves_view_status view_ledger_left) (simp_all add: batch_of_def allocation_of_def)

lemma leaves_retry: "leaves recovery_view (retry_write u b)"
  unfolding retry_write_def by (intro leaves_intros leaves_view_status view_ledger_left) simp_all

lemma leaves_held: "leaves recovery_view (holdBatch_write u b ev)"
  unfolding holdBatch_write_def by (intro leaves_intros leaves_view_status view_ledger_left) simp_all

lemma leaves_supersede: "leaves recovery_view (supersede_transaction u b c d aff h items)"
  unfolding supersede_transaction_def
  by (intro leaves_intros leaves_view_status leaves_view_receivables leaves_release view_ledger_left) (simp_all add: claim_of_def)

lemma leaves_eligible: "leaves recovery_view (make_eligible i)"
  unfolding make_eligible_def by (intro leaves_intros) simp

lemma leaves_covered: "leaves recovery_view (ensureCoverageArtifacts e u t v)"
  unfolding ensureCoverageArtifacts_def Let_def by (intro leaves_intros view_ledger_left) simp_all

section \<open>Refunds and assemblies\<close>

text \<open>A new claim: nothing recovered from it yet, and no batch has allocated it.\<close>

lemma recovery_inv_claim:
  assumes inv: "recovery_inv (bs, cs)" and new: "i \<notin> fst ` set cs" "0 \<le> k" "k < 10 ^ 12"
  shows "recovery_inv (bs, cs @ [(i, k, ''SAR'', 0)]) \<and> claims_persist cs (cs @ [(i, k, ''SAR'', 0)])"
proof -
  have absent: "taken_if_closed b i = 0" if "b \<in> set bs" for b
  proof -
    obtain j c as where b: "b = (j, c, as)" by (cases b)
    with inv that have sound: "sound_allocation cs as" by auto
    have "ra_receivableId a \<noteq> i" if "a \<in> set as" for a
    proof -
      from sound that obtain r where "r \<in> set cs" "fits r a" by (auto simp: sound_allocation_def)
      with new(1) show ?thesis by (cases r) force
    qed
    then have "i \<notin> ra_receivableId ` set as" by blast
    with b show ?thesis by (simp add: taken_absent)
  qed
  have "closed_taken bs i = 0" using absent by (induction bs) simp_all
  moreover have persist: "claims_persist cs (cs @ [(i, k, ''SAR'', 0)])" by (auto simp: claims_persist_def)
  ultimately show ?thesis using inv new sound_allocation_persist [OF persist] by auto
qed

text \<open>A new batch: open, with a sound allocation.\<close>

lemma recovery_inv_batch:
  assumes "recovery_inv (bs, cs)" and "i \<notin> fst ` set bs" "sound_allocation cs as"
  shows "recovery_inv (bs @ [(i, None, as)], cs)"
  using assms by auto

text \<open>A program that keeps a recovery step is one wherever it runs.\<close>

lemma recovery_view_claims: "recovery_view s = (map batch_of (db_batches s), claims s)"
  by (simp add: recovery_view_def claims_def)

lemma recovery_step_iff:
  "recovery_step s0 s \<longleftrightarrow> recovery_inv (map batch_of (db_batches s), claims s) \<and> claims_persist (claims s0) (claims s)"
  by (simp add: recovery_step_def recovery_view_claims)

lemma recovery_step_trans: "recovery_step s0 s1 \<Longrightarrow> recovery_step s1 s2 \<Longrightarrow> recovery_step s0 s2"
  unfolding recovery_step_iff using claims_persist_trans by blast

lemma keeps_recovery_leaves: "leaves recovery_view m \<Longrightarrow> keeps (recovery_step s0) m"
  by (rule keepsI) (auto simp: recovery_step_def dest: leaves_runD)

lemma keeps_recovery_accrue:
  assumes "0 < m"
  shows "keeps (recovery_step s0) (accrue_receivable e u v r (fromMinor m SAR))"
  unfolding accrue_receivable_def
proof (cases "to_dec (fromMinor m SAR)")
  case (Inl ex)
  then show "keeps (recovery_step s0) (seq (lift (to_dec (fromMinor m SAR))) k)" for k :: "int \<Rightarrow> (db, unit) prog"
    by (simp add: keeps_def seq_def)
next
  case (Inr x)
  have x: "x = m" using Inr to_dec_fromMinorD [of SAR] by simp
  have small: "m < 10 ^ 12" using to_dec_bound [OF Inr] by (simp add: x)
  have one: "keeps (recovery_step s0) (create db_receivables db_receivables_update receivable_clash r')"
    if r': "claim_of r' = (sr_id r', m, ''SAR'', 0)" for r'
  proof (rule keepsI)
    fix s y s' assume inv: "recovery_step s0 s" and run: "create db_receivables db_receivables_update receivable_clash r' s = (y, s')"
    show "recovery_step s0 s'"
    proof (cases "\<exists>r2 \<in> set (db_receivables s). receivable_clash r' r2")
      case True
      with run inv show ?thesis by (simp add: create_def)
    next
      case False
      then have "sr_id r' \<notin> fst ` set (claims s)" by (auto simp: receivable_clash_def claims_def claim_of_def)
      with recovery_inv_claim [OF conjunct1 [OF inv [unfolded recovery_step_iff]] _ less_imp_le [OF assms] small]
      have "recovery_inv (map batch_of (db_batches s), claims s @ [claim_of r']) \<and> claims_persist (claims s) (claims s @ [claim_of r'])"
        unfolding r' by blast
      moreover have "db_batches s' = db_batches s" "claims s' = claims s @ [claim_of r']"
        using run False by (auto simp: create_def claims_def)
      ultimately show ?thesis using inv claims_persist_trans unfolding recovery_step_iff by metis
    qed
  qed
  have "keeps (recovery_step s0) (k m)" if "\<And>x. x = m \<Longrightarrow> keeps (recovery_step s0) (k x)" for k :: "int \<Rightarrow> (db, unit) prog"
    using that by simp
  have lift: "keeps (recovery_step s0) (seq (lift (to_dec (fromMinor m SAR))) k)" if "keeps (recovery_step s0) (k m)" for k :: "int \<Rightarrow> (db, unit) prog"
    using that by (simp add: keeps_def seq_def Inr x)
  show "keeps (recovery_step s0) (seq (lift (to_dec (fromMinor m SAR))) (\<lambda>amountDec.
     seq (create db_receivables db_receivables_update receivable_clash
           \<lparr> sr_id = en_uuid e 22, sr_storeId = mi_storeId v, sr_currency = ''SAR'',
             sr_amount = amountDec, sr_occurrenceType = ''refund'', sr_occurrenceId = rf_id r,
             sr_state = R_open, sr_amountRecovered = 0, sr_stagedBySettlementId = None,
             sr_accruedAt = clk e 22, sr_recoveredAt = None, sr_recoveredBySettlementId = None \<rparr>) (\<lambda>_.
     seq (ledger_record ((ledger_base MERCHANT_RECEIVABLE_ACCRUED ''MERCHANT_RECEIVABLE'' u (Fin (fromMinor m SAR)) ''SAR'' ''credit'')
            \<lparr> li_counterpartyType := Some ''merchant'', li_storeId := Some (mi_storeId v),
              li_idempotencyKey := Some (ledgerIdempotencyKey MERCHANT_RECEIVABLE_ACCRUED (rf_id r)),
              li_metadata := Some (JObj
                [(''refundId'', JStr (rf_id r)), (''invoiceId'', JStr (mi_id v)),
                 (''invoiceNumber'', jopt (mi_merchantInvoiceNumber v))]) \<rparr>)) (\<lambda>_. ret ()))))"
    by (intro lift keeps_seq one keeps_recovery_leaves [OF view_ledger_left] keeps_ret) (simp add: claim_of_def)
qed

lemma leaves_reverse: "leaves recovery_view (reverse_item i a)"
  unfolding reverse_item_def by (intro leaves_intros) simp

lemma keeps_recovery_goods:
  assumes "0 < m"
  shows "keeps (recovery_step s0) (goods_transaction e u input ev reason d m)"
  unfolding goods_transaction_def goods_refund_def Let_def
  by (intro keeps_transaction_body keeps_intros keeps_recovery_accrue [OF assms] keeps_recovery_leaves [OF leaves_reverse])
    (rule keeps_recovery_leaves, intro leaves_intros view_ledger_left; simp)+

lemma keeps_recovery_batch:
  assumes sound: "sound_allocation (claims s0) (ap_allocation p)"
  shows "keeps (recovery_step s0) (create_batch e u r p nid)"
  unfolding create_batch_def Let_def
proof (intro keeps_intros keepsI)
  fix gross net s y s'
  let ?b = "\<lparr> sb_id = nid, sb_settlementReference = r, sb_storeId = ap_storeId p,
          sb_currency = calc_currency (ap_calculation p), sb_status = B_ready, sb_windowType = ''manual'',
          sb_grossAmount = gross, sb_netAmount = net, sb_composition = ap_composition p,
          sb_calculationSnapshot = ap_calculation p, sb_supersededById = None, sb_failureEvidence = None,
          sb_closureType = None, sb_closedAt = None, sb_assembledBy = Some u,
          sb_recoveryAllocation = Some (ap_allocation p), sb_createdAt = en_dbNow e \<rparr>"
  assume inv: "recovery_step s0 s" and run: "create db_batches db_batches_update batch_clash ?b s = (y, s')"
  show "recovery_step s0 s'"
  proof (cases "\<exists>b' \<in> set (db_batches s). batch_clash ?b b'")
    case True
    with run inv show ?thesis by (simp add: create_def)
  next
    case False
    have "batch_of ?b = (nid, None, ap_allocation p)" by (simp add: batch_of_def allocation_of_def)
    moreover have "nid \<notin> fst ` set (map batch_of (db_batches s))" using False by (auto simp: batch_clash_def batch_of_def)
    moreover have "sound_allocation (claims s) (ap_allocation p)"
      using sound_allocation_persist [OF _ sound] inv by (simp add: recovery_step_iff)
    ultimately have "recovery_inv (map batch_of (db_batches s @ [?b]), claims s)"
      using inv recovery_inv_batch [of "map batch_of (db_batches s)" "claims s" nid "ap_allocation p"]
      by (simp only: recovery_step_iff map_append list.map) blast
    moreover have "db_batches s' = db_batches s @ [?b]" "claims s' = claims s"
      using run False by (auto simp: create_def claims_def)
    ultimately show ?thesis using inv by (simp only: recovery_step_iff simp_thms)
  qed
qed

lemma leaves_bind_items: "leaves recovery_view (bind_items bid is)"
proof (induction "is")
  case (Cons i "is")
  show ?case unfolding bind_items.simps by (intro leaves_intros Cons) simp
qed (simp add: leaves_def keeps_def)

lemma leaves_stage: "leaves recovery_view (stage_receivable bid a)"
  unfolding stage_receivable_def by (intro leaves_intros leaves_view_receivables) (simp add: claim_of_def)

lemma keeps_recovery_assembly:
  assumes "sound_allocation (claims s0) (ap_allocation p)"
  shows "keeps (recovery_step s0) (assembly_transaction e u p r nid)"
  unfolding assembly_transaction_def
  by (intro keeps_transaction_body keeps_intros keeps_recovery_batch [OF assms] keeps_recovery_leaves [OF leaves_bind_items]
      keeps_recovery_leaves [OF leaves_stage] keeps_recovery_leaves [OF view_ledger_left])
    (rule keeps_recovery_leaves, intro leaves_intros; simp)

section \<open>All histories\<close>

text \<open>The two closes, as steps.\<close>

lemma settle_record_parts:
  "\<exists>k. settle_record u b ev c = seq (consumeRecoveryAllocation u b (ev_executedAt ev)
       [(''accountFrom'', JStr ''safeguarding''), (''accountTo'', JStr ''operating'')]) k
     \<and> (\<forall>y. leaves recovery_view (k y))"
  unfolding settle_record_def
  by (rule exI, rule conjI, rule refl) (intro allI leaves_intros view_ledger_left; simp)

lemma zero_net_record_parts:
  "\<exists>k. zero_net_record u b t = seq (consumeRecoveryAllocation u b t
       [(''closureType'', JStr zero_net_type), (''closedAt'', JStr (toISOString t)), (''internalTransferDue'', JBool True)]) k
     \<and> (\<forall>y. leaves recovery_view (k y))"
  unfolding zero_net_record_def
  by (rule exI, rule conjI, rule refl) (intro allI leaves_intros view_ledger_left; simp)

lemma settled_recovers:
  assumes inv: "settlement_inv s" "recovery_inv (recovery_view s)"
    and b: "b \<in> set (db_batches s)" "frozen_parts b0 b"
  shows "recovery_step s (snd (settle_transaction e u b0 ev s))"
proof (cases "settle_transaction e u b0 ev s")
  case (Pair x s')
  show ?thesis
  proof (cases x)
    case (Inl ex)
    have "s' = s" by (rule transaction_rollback [OF Pair [unfolded settle_transaction_def Inl]])
    with Pair inv show ?thesis by (simp add: recovery_step_same)
  next
    case (Inr r)
    from Pair Inr obtain s1 s2 where close: "close_batch b0 remitted_type (clk e 10) s = (Inr (), s1)"
      and s2: "s2 = db_remittances_update (\<lambda>t. t @ [new_remittance e b0 ev]) s1"
      and rest: "settle_record u b0 ev (new_remittance e b0 ev) s2 = (Inr r, s')"
      unfolding settle_transaction_def by (auto simp: prog_iff)
    from settle_record_parts [of u b0 ev "new_remittance e b0 ev"] obtain k where
      k: "settle_record u b0 ev (new_remittance e b0 ev) = seq (consumeRecoveryAllocation u b0 (ev_executedAt ev)
            [(''accountFrom'', JStr ''safeguarding''), (''accountTo'', JStr ''operating'')]) k"
      "\<And>y. leaves recovery_view (k y)" by blast
    from rest obtain s3 where "consumeRecoveryAllocation u b0 (ev_executedAt ev)
            [(''accountFrom'', JStr ''safeguarding''), (''accountTo'', JStr ''operating'')] s2 = (Inr (), s3)"
      and tail: "k () s3 = (Inr r, s')" unfolding k(1) seq_iff by auto
    from close_recovers [OF inv b close _ _ this(1) leaves_runD [OF k(2) tail]] Pair show ?thesis by (simp add: s2)
  qed
qed

lemma closed_recovers:
  assumes inv: "settlement_inv s" "recovery_inv (recovery_view s)"
    and b: "b \<in> set (db_batches s)" "frozen_parts b0 b"
  shows "recovery_step s (snd (zero_net_transaction e u b0 t s))"
proof (cases "zero_net_transaction e u b0 t s")
  case (Pair x s')
  show ?thesis
  proof (cases x)
    case (Inl ex)
    have "s' = s" by (rule transaction_rollback [OF Pair [unfolded zero_net_transaction_def Inl]])
    with Pair inv show ?thesis by (simp add: recovery_step_same)
  next
    case (Inr r)
    from Pair Inr obtain s1 where close: "close_batch b0 zero_net_type t s = (Inr (), s1)"
      and rest: "zero_net_record u b0 t s1 = (Inr r, s')"
      unfolding zero_net_transaction_def by (auto simp: prog_iff)
    define md where "md = [(''closureType'', JStr zero_net_type), (''closedAt'', JStr (toISOString t)), (''internalTransferDue'', JBool True)]"
    from zero_net_record_parts [of u b0 t] obtain k where
      k: "zero_net_record u b0 t = seq (consumeRecoveryAllocation u b0 t md) k" "\<And>y. leaves recovery_view (k y)"
      unfolding md_def by blast
    from rest obtain s3 where "consumeRecoveryAllocation u b0 t md s1 = (Inr (), s3)"
      and tail: "k () s3 = (Inr r, s')" unfolding k(1) seq_iff by auto
    from close_recovers [OF inv b close refl refl this(1) leaves_runD [OF k(2) tail]] Pair show ?thesis by simp
  qed
qed

definition recovery_past :: "db list \<Rightarrow> bool" where
  "recovery_past h \<longleftrightarrow> h \<noteq> [] \<and> (\<forall>s0 \<in> set h. recovery_inv (recovery_view s0) \<and> recovery_step s0 (hd h))"

lemma recovery_past_step: "recovery_past (s # h) \<Longrightarrow> recovery_step s s' \<Longrightarrow> recovery_past (s' # s # h)"
  unfolding recovery_past_def list.sel set_simps
  using recovery_step_trans [of _ s s'] recovery_step_same [of s'] by (metis (no_types, lifting) insertE list.distinct(1) recovery_step_def)

lemma recovery_pastD: "recovery_past (s # h) \<Longrightarrow> recovery_inv (recovery_view s)"
  by (simp add: recovery_past_def)

lemma recovery_past_keeps: "recovery_past (s # h) \<Longrightarrow> keeps (recovery_step s) m \<Longrightarrow> recovery_past (snd (m s) # s # h)"
  by (rule recovery_past_step) (auto simp: keeps_def recovery_step_same dest: recovery_pastD)

lemma recovery_past_leaves: "recovery_past (s # h) \<Longrightarrow> leaves recovery_view m \<Longrightarrow> recovery_past (snd (m s) # s # h)"
  by (intro recovery_past_keeps keeps_recovery_leaves)

lemma start_recovery: "start s \<Longrightarrow> recovery_inv (recovery_view s)"
  by (auto simp: start_def recovery_view_claims claims_def claim_of_def comp_def)

lemma history_recovers: "history h \<Longrightarrow> recovery_past h"
proof (induction rule: history.induct)
  case (started s)
  from start_recovery [OF started] show ?case by (simp add: recovery_past_def recovery_step_same)
next
  case (assembled s h s1 s2 s3 storeId currency p e u reference nid)
  have s2: "recovery_inv (recovery_view s2)" "recovery_step s2 s"
    using assembled(2,4) by (auto simp: recovery_past_def)
  have "sound_allocation (claims s2) (ap_allocation p)"
    using plan_sound [OF assembled(3) s2(1)] by (simp add: recovery_view_claims)
  then have "sound_allocation (claims s) (ap_allocation p)"
    using s2(2) unfolding recovery_step_iff by (blast intro: sound_allocation_persist)
  then show ?case by (intro recovery_past_keeps assembled keeps_recovery_assembly)
next
  case (settled s h s0 b e u evidence)
  then obtain b' where "b' \<in> set (db_batches s)" "frozen_parts b b'" using past_batch [OF history_past_ok] by blast
  then show ?case using settled by (intro recovery_past_step settled_recovers history_inv recovery_pastD)
next
  case (closed s h s0 b e u t)
  then obtain b' where "b' \<in> set (db_batches s)" "frozen_parts b b'" using past_batch [OF history_past_ok] by blast
  then show ?case using closed by (intro recovery_past_step closed_recovers history_inv recovery_pastD)
next
  case superseded
  then show ?case by (intro recovery_past_leaves leaves_supersede)
next
  case refunded
  then show ?case by (intro recovery_past_keeps keeps_recovery_goods)
next
  case (unrelated s h s')
  then have "recovery_view s' = recovery_view s" by (simp add: recovery_view_def core_same_def)
  with unrelated show ?case by (intro recovery_past_step recovery_step_same recovery_pastD)
next
  case failed
  then show ?case by (intro recovery_past_leaves leaves_failed)
next
  case retried
  then show ?case by (intro recovery_past_leaves leaves_retry)
next
  case held
  then show ?case by (intro recovery_past_leaves leaves_held)
next
  case linked
  then show ?case by (intro recovery_past_leaves leaves_view_batches) (simp_all add: batch_of_def allocation_of_def cong: option.case_cong)
next
  case evaluated
  then show ?case by (intro recovery_past_leaves leaves_eligible)
next
  case covered
  then show ?case by (intro recovery_past_leaves leaves_covered)
qed

section \<open>Properties\<close>

text \<open>
  C5: recovery is conserved. In every state of every history, what a receivable has recovered
  is exactly the sum of what the frozen allocations of the closed batches took from it, and it
  never exceeds the claim: no interleaving of assemblies, supersessions, closes and refunds
  deducts from a merchant more than was refunded, or a deduction twice.
\<close>

theorem recovery_conserved:
  assumes "history (s # h)" and "r \<in> set (db_receivables s)"
  shows "0 \<le> sr_amountRecovered r \<and> sr_amountRecovered r \<le> sr_amount r
    \<and> sr_amountRecovered r = (\<Sum>b \<leftarrow> filter (\<lambda>b. sb_closureType b \<noteq> None) (db_batches s). taken (allocation_of b) (sr_id r))"
proof -
  have inv: "recovery_inv (map batch_of (db_batches s), claims s)"
    using recovery_pastD [OF history_recovers [OF assms(1)]] by (simp add: recovery_view_claims)
  have "(sr_id r, sr_amount r, sr_currency r, sr_amountRecovered r) \<in> set (claims s)"
    using assms(2) by (force simp: claims_def claim_of_def)
  moreover have "closed_taken (map batch_of bs) k = (\<Sum>b \<leftarrow> filter (\<lambda>b. sb_closureType b \<noteq> None) bs. taken (allocation_of b) k)" for bs k
    by (induction bs) (simp_all add: batch_of_def)
  ultimately show ?thesis using inv by auto
qed

lemma recovery_conserved_witness:
  "\<exists>s h r. history (s # h) \<and> r \<in> set (db_receivables s) \<and> length (db_remittances s) = 2 \<and> sr_id r = ''r1''
     \<and> sr_amountRecovered r = (\<Sum>b \<leftarrow> filter (\<lambda>b. sb_closureType b \<noteq> None) (db_batches s). taken (allocation_of b) ''r1'')"
proof -
  obtain s h where d: "history (s # h)" "map rm_settlementId (db_remittances s) = [''b1'', ''b2'']" "map sr_id (db_receivables s) = [''r1'']"
    using two_payouts by (elim exE conjE) (rule that)
  from d(2) have "length (map rm_settlementId (db_remittances s)) = 2" by simp
  then have two: "length (db_remittances s) = 2" by simp
  obtain r where r: "r \<in> set (db_receivables s)" "sr_id r = ''r1''" using d(3) by auto
  show ?thesis using recovery_conserved [OF d(1) r(1)] d(1) r two
    by (intro exI [of _ s] exI [of _ h] exI [of _ r]) simp
qed

end
