(* ===== verification/Treasury_Snapshot.thy ===== *)
theory Treasury_Snapshot
  imports Statement Dates
begin

text \<open>
  The three-way treasury snapshot of \<open>src/src/treasury/treasury-snapshot.ts\<close>: the attested bank
  balance against the ledger's safeguarding cash and against the ledger's obligations, at a
  cut-off. Bank value dates are strings, compared as strings as the source does; amounts are
  integer minor units.
\<close>

section \<open>Inputs\<close>

definition TREASURY_RECON_SCOPE :: string where
  "TREASURY_RECON_SCOPE = ''corporate_manual_rail@pilot-1''"

definition TREASURY_SNAPSHOT_VERSION :: string where
  "TREASURY_SNAPSHOT_VERSION = ''treasury-3way@v3''"

definition TREASURY_ALERT_POLICY :: string where
  "TREASURY_ALERT_POLICY = ''treasury-alerts@pilot-1''"

definition INTERNAL_TRANSFER_AGING_ALERT_DAYS :: int where
  "INTERNAL_TRANSFER_AGING_ALERT_DAYS = 3"

datatype direction = In | Out

record TreasuryMovement =
  tm_ledgerId :: string
  tm_eventType :: string
  tm_direction :: direction
  tm_amountMinor :: int
  tm_valueDate :: "string option"
  tm_recordedAt :: string
  tm_reference :: string
  tm_storeId :: "string option"
  tm_evidenceRef :: "string option"
  tm_nonCash :: "bool option"

record TreasuryAttestationInput =
  ta_inputId :: string
  ta_balanceMinor :: int
  ta_asOfDate :: string
  ta_source :: string
  ta_evidenceRef :: string

text \<open>The age is \<open>None\<close> when the closing instant does not parse: the language's NaN.\<close>

record PendingInternalTransfer =
  pt_settlementId :: string
  pt_settlementReference :: string
  pt_currency :: string
  pt_outstandingMinor :: int
  pt_closedAt :: "string option"
  pt_ageDays :: "int option"
  pt_failedAttempts :: nat

record Excluded =
  ex_class :: string
  ex_count :: nat
  ex_amountMinor :: int

record TreasuryInputs =
  tn_accountType :: string
  tn_currency :: string
  tn_asOfDate :: string
  tn_timezone :: "string option"
  tn_attestation :: "TreasuryAttestationInput option"
  tn_pendingInternalTransfers :: "PendingInternalTransfer list option"
  tn_cashMovements :: "TreasuryMovement list"
  tn_obligationMovements :: "TreasuryMovement list"
  tn_excluded :: "Excluded list"

datatype DifferenceKind = Bank_vs_ledger_cash | Cash_vs_obligations | Unresolved_evidence | Negative_bank_balance

fun difference_name :: "DifferenceKind \<Rightarrow> string" where
  "difference_name Bank_vs_ledger_cash = ''bank_vs_ledger_cash''"
| "difference_name Cash_vs_obligations = ''cash_vs_obligations''"
| "difference_name Unresolved_evidence = ''unresolved_evidence''"
| "difference_name Negative_bank_balance = ''negative_bank_balance''"

record TreasuryDifference =
  td_kind :: DifferenceKind
  td_deltaMinor :: int
  td_detail :: string
  td_ledgerId :: "string option"
  td_eventType :: "string option"

record TreasuryAlert =
  al_kind :: string
  al_detail :: string

section \<open>The split at the cut-off\<close>

definition order_key :: "TreasuryMovement \<Rightarrow> string \<times> string" where
  "order_key m = ((case tm_valueDate m of None \<Rightarrow> ''9999-12-31T23:59:59.999Z'' | Some v \<Rightarrow> v), tm_ledgerId m)"

definition byDeterministicOrder :: "TreasuryMovement list \<Rightarrow> TreasuryMovement list" where
  "byDeterministicOrder = sort_key order_key"

record Split =
  sl_included :: "TreasuryMovement list"
  sl_timing :: "TreasuryMovement list"
  sl_unresolved :: "TreasuryMovement list"

fun split_loop :: "string \<Rightarrow> TreasuryMovement list \<Rightarrow> Split \<Rightarrow> Split" where
  "split_loop asOfDate [] acc = acc"
| "split_loop asOfDate (m # ms) acc = split_loop asOfDate ms
     (case tm_valueDate m of
        None \<Rightarrow> acc\<lparr> sl_unresolved := sl_unresolved acc @ [m] \<rparr>
      | Some v \<Rightarrow> if v \<le> asOfDate then acc\<lparr> sl_included := sl_included acc @ [m] \<rparr>
                  else acc\<lparr> sl_timing := sl_timing acc @ [m] \<rparr>)"

definition splitByAsOf :: "TreasuryMovement list \<Rightarrow> string \<Rightarrow> Split" where
  "splitByAsOf movements asOfDate =
     split_loop asOfDate (byDeterministicOrder movements) \<lparr> sl_included = [], sl_timing = [], sl_unresolved = [] \<rparr>"

definition signed :: "TreasuryMovement \<Rightarrow> int" where
  "signed m = (if tm_direction m = In then tm_amountMinor m else - tm_amountMinor m)"

definition sumMinor :: "TreasuryMovement list \<Rightarrow> int" where
  "sumMinor ms = foldl (\<lambda>s m. s + signed m) 0 ms"

section \<open>JSON\<close>

definition jint :: "int \<Rightarrow> json" where
  "jint k = JNum (of_int k)"

definition jint_opt :: "int option \<Rightarrow> json" where
  "jint_opt v = (case v of None \<Rightarrow> JNull | Some k \<Rightarrow> jint k)"

definition movement_json :: "TreasuryMovement \<Rightarrow> json" where
  "movement_json m = JObj
     [(''ledgerId'', JStr (tm_ledgerId m)), (''eventType'', JStr (tm_eventType m)),
      (''direction'', JStr (case tm_direction m of In \<Rightarrow> ''in'' | Out \<Rightarrow> ''out'')),
      (''amountMinor'', jint (tm_amountMinor m)), (''valueDate'', jopt (tm_valueDate m)),
      (''recordedAt'', JStr (tm_recordedAt m)), (''reference'', JStr (tm_reference m)),
      (''storeId'', jopt (tm_storeId m)), (''evidenceRef'', jopt (tm_evidenceRef m)),
      (''nonCash'', (case tm_nonCash m of None \<Rightarrow> JUndef | Some b \<Rightarrow> JBool b))]"

definition attestation_json :: "TreasuryAttestationInput \<Rightarrow> json" where
  "attestation_json a = JObj
     [(''id'', JStr (ta_inputId a)), (''balanceMinor'', jint (ta_balanceMinor a)),
      (''asOfDate'', JStr (ta_asOfDate a)), (''source'', JStr (ta_source a)),
      (''evidenceRef'', JStr (ta_evidenceRef a))]"

definition pending_json :: "PendingInternalTransfer \<Rightarrow> json" where
  "pending_json p = JObj
     [(''settlementId'', JStr (pt_settlementId p)), (''settlementReference'', JStr (pt_settlementReference p)),
      (''currency'', JStr (pt_currency p)), (''outstandingMinor'', jint (pt_outstandingMinor p)),
      (''closedAt'', jopt (pt_closedAt p)), (''ageDays'', jint_opt (pt_ageDays p)),
      (''failedAttempts'', JNum (of_nat (pt_failedAttempts p)))]"

definition excluded_json :: "Excluded \<Rightarrow> json" where
  "excluded_json x = JObj
     [(''class'', JStr (ex_class x)), (''count'', JNum (of_nat (ex_count x))),
      (''amountMinor'', jint (ex_amountMinor x))]"

definition difference_json :: "TreasuryDifference \<Rightarrow> json" where
  "difference_json d = JObj
     [(''kind'', JStr (difference_name (td_kind d))), (''deltaMinor'', jint (td_deltaMinor d)),
      (''detail'', JStr (td_detail d)),
      (''ledgerId'', (case td_ledgerId d of None \<Rightarrow> JUndef | Some k \<Rightarrow> JStr k)),
      (''eventType'', (case td_eventType d of None \<Rightarrow> JUndef | Some k \<Rightarrow> JStr k))]"

definition alert_json :: "TreasuryAlert \<Rightarrow> json" where
  "alert_json a = JObj [(''kind'', JStr (al_kind a)), (''detail'', JStr (al_detail a))]"

definition split_json :: "Split \<Rightarrow> json" where
  "split_json p = JObj
     [(''included'', JArr (map movement_json (sl_included p))),
      (''timing'', JArr (map movement_json (sl_timing p))),
      (''unresolved'', JArr (map movement_json (sl_unresolved p)))]"

section \<open>Differences\<close>

text \<open>The dash of the messages, as the UTF-8 bytes the digest reads.\<close>

definition em_dash :: string where
  "em_dash = [char_of (226 :: nat), char_of (128 :: nat), char_of (148 :: nat)]"

text \<open>The positions of the two ledger legs at the cut-off.\<close>

record Legs =
  lg_cash :: Split
  lg_obligations :: Split
  lg_ledgerCash :: int
  lg_obligationsMinor :: int
  lg_due :: int
  lg_completed :: int

definition legs_of :: "TreasuryInputs \<Rightarrow> Legs" where
  "legs_of inputs =
     (let cash = splitByAsOf (tn_cashMovements inputs) (tn_asOfDate inputs);
          obligations = splitByAsOf (tn_obligationMovements inputs) (tn_asOfDate inputs)
      in \<lparr> lg_cash = cash, lg_obligations = obligations,
           lg_ledgerCash = sumMinor (sl_included cash),
           lg_obligationsMinor = sumMinor (sl_included obligations),
           lg_due = foldl (\<lambda>t m. t + (if tm_direction m = In then - tm_amountMinor m else tm_amountMinor m)) 0
             (filter (\<lambda>m. tm_nonCash m = Some True) (sl_included obligations)),
           lg_completed = foldl (\<lambda>t m. t + tm_amountMinor m) 0
             (filter (\<lambda>m. tm_eventType m = ''treasury.internal_transfer.completed'') (sl_included cash)) \<rparr>)"

definition outstanding :: "Legs \<Rightarrow> int" where
  "outstanding l = lg_due l - lg_completed l"

definition rawCashVsObligations :: "Legs \<Rightarrow> int" where
  "rawCashVsObligations l = lg_ledgerCash l - lg_obligationsMinor l"

definition cashVsObligations :: "Legs \<Rightarrow> int" where
  "cashVsObligations l = rawCashVsObligations l - outstanding l"

definition bankVsCash :: "TreasuryInputs \<Rightarrow> Legs \<Rightarrow> int option" where
  "bankVsCash inputs l = map_option (\<lambda>a. ta_balanceMinor a - lg_ledgerCash l) (tn_attestation inputs)"

definition nonzero :: "int option \<Rightarrow> bool" where
  "nonzero v \<longleftrightarrow> v \<noteq> None \<and> v \<noteq> Some 0"

text \<open>The asymmetry by event type: a \<open>Map\<close> in insertion order.\<close>

fun add_to :: "string \<Rightarrow> int \<Rightarrow> (string \<times> int) list \<Rightarrow> (string \<times> int) list" where
  "add_to k v [] = [(k, v)]"
| "add_to k v ((k', v') # r) = (if k' = k then (k', v' + v) # r else (k', v') # add_to k v r)"

definition byEvent :: "Legs \<Rightarrow> (string \<times> int) list" where
  "byEvent l = foldl (\<lambda>t m. add_to (tm_eventType m) (- signed m) t)
     (foldl (\<lambda>t m. add_to (tm_eventType m) (signed m) t) [] (sl_included (lg_cash l)))
     (sl_included (lg_obligations l))"

primrec joined :: "string \<Rightarrow> string list \<Rightarrow> string" where
  "joined sep [] = ''''"
| "joined sep (x # xs) = (case xs of [] \<Rightarrow> x | _ \<Rightarrow> x @ sep @ joined sep xs)"

definition breakdown :: "Legs \<Rightarrow> string" where
  "breakdown l = joined '', '' (map (\<lambda>(k, v). k @ '':'' @ int_str v)
     (sort_key fst (filter (\<lambda>(k, v). v \<noteq> 0) (byEvent l))))"

fun unresolved_differences :: "string set \<Rightarrow> TreasuryMovement list \<Rightarrow> TreasuryDifference list" where
  "unresolved_differences seen [] = []"
| "unresolved_differences seen (m # ms) =
     (if tm_ledgerId m \<in> seen then unresolved_differences seen ms
      else \<lparr> td_kind = Unresolved_evidence, td_deltaMinor = signed m,
             td_detail = ''Ledger row '' @ tm_ledgerId m @ '' ('' @ tm_eventType m
               @ '') has no resolvable evidence row '' @ em_dash @ '' value date unknown.'',
             td_ledgerId = Some (tm_ledgerId m), td_eventType = Some (tm_eventType m) \<rparr>
           # unresolved_differences (insert (tm_ledgerId m) seen) ms)"

definition plain_difference :: "DifferenceKind \<Rightarrow> int \<Rightarrow> string \<Rightarrow> TreasuryDifference" where
  "plain_difference k delta detail =
     \<lparr> td_kind = k, td_deltaMinor = delta, td_detail = detail, td_ledgerId = None, td_eventType = None \<rparr>"

definition differences_of :: "TreasuryInputs \<Rightarrow> Legs \<Rightarrow> TreasuryDifference list" where
  "differences_of inputs l =
     (case bankVsCash inputs l of
        None \<Rightarrow> []
      | Some d \<Rightarrow> if d \<noteq> 0
          then [plain_difference Bank_vs_ledger_cash d
                  ''Attested bank balance differs from the ledger safeguarding cash view at asOfDate (after timing items were set aside).'']
          else [])
     @ (if cashVsObligations l \<noteq> 0
        then [plain_difference Cash_vs_obligations (cashVsObligations l)
                (''Ledger cash view and obligations view disagree '' @ em_dash
                 @ '' posting asymmetry by event type (minor units): '' @ breakdown l)]
        else [])
     @ unresolved_differences {} (sl_unresolved (lg_cash l) @ sl_unresolved (lg_obligations l))
     @ (case tn_attestation inputs of
          None \<Rightarrow> []
        | Some a \<Rightarrow> if ta_balanceMinor a < 0
            then [plain_difference Negative_bank_balance (ta_balanceMinor a)
                    (''Attested safeguarding balance is NEGATIVE '' @ em_dash
                     @ '' client money must never be overdrawn.'')]
            else [])"

section \<open>Status and alerts\<close>

definition run_status :: "TreasuryInputs \<Rightarrow> TreasuryDifference list \<Rightarrow> string" where
  "run_status inputs differences =
     (if differences \<noteq> [] then ''mismatched''
      else if tn_attestation inputs = None then ''pending'' else ''matched'')"

definition aging_alert :: "PendingInternalTransfer \<Rightarrow> TreasuryAlert list" where
  "aging_alert t =
     (case pt_ageDays t of
        None \<Rightarrow> []
      | Some days \<Rightarrow>
          if INTERNAL_TRANSFER_AGING_ALERT_DAYS \<le> days
          then [\<lparr> al_kind = ''internal_transfer_pending_aging'',
                  al_detail = ''Internal transfer for '' @ pt_settlementReference t @ '' outstanding ''
                    @ int_str (pt_outstandingMinor t) @ '' minor units for '' @ int_str days
                    @ '' day(s) (threshold '' @ int_str INTERNAL_TRANSFER_AGING_ALERT_DAYS @ '').'' \<rparr>]
          else [])"

definition alerts_of ::
  "TreasuryInputs \<Rightarrow> Legs \<Rightarrow> TreasuryDifference list \<Rightarrow> PendingInternalTransfer list \<Rightarrow> TreasuryAlert list"
where
  "alerts_of inputs l differences pending =
     (if nonzero (bankVsCash inputs l) \<or> cashVsObligations l \<noteq> 0
      then [\<lparr> al_kind = ''reconciliation_zero_violated'',
              al_detail = ''Reconciliation-zero health metric violated: bankVsCash=''
                @ (case bankVsCash inputs l of None \<Rightarrow> ''n/a'' | Some d \<Rightarrow> int_str d)
                @ '', cashVsObligations(adjusted)='' @ int_str (cashVsObligations l) @ '' (minor units).'' \<rparr>]
      else [])
     @ (if run_status inputs differences = ''mismatched''
        then [\<lparr> al_kind = ''mismatched_run'',
                al_detail = ''Run is MISMATCHED with '' @ nat_str (length differences)
                  @ '' enumerated difference(s) '' @ em_dash @ '' investigate ''
                  @ [char_of (226 :: nat), char_of (134 :: nat), char_of (146 :: nat)] @ '' resolve required.'' \<rparr>]
        else [])
     @ (if \<exists>d \<in> set differences. td_kind d = Unresolved_evidence
        then [\<lparr> al_kind = ''unresolved_evidence'',
                al_detail = ''One or more ledger rows have no resolvable evidence '' @ em_dash
                  @ '' excluded from balances and enumerated.'' \<rparr>]
        else [])
     @ concat (map aging_alert pending)"

section \<open>The snapshot\<close>

definition attestationEvidenceHash :: "(string \<Rightarrow> string) \<Rightarrow> TreasuryInputs \<Rightarrow> string option" where
  "attestationEvidenceHash sha inputs = map_option (\<lambda>a.
     hashCanonical sha (canonicalJson (JObj
       [(''source'', JStr (ta_source a)), (''evidenceRef'', JStr (ta_evidenceRef a)),
        (''balanceMinor'', jint (ta_balanceMinor a)), (''asOfDate'', JStr (ta_asOfDate a))])))
     (tn_attestation inputs)"

definition snapshot_json ::
  "(string \<Rightarrow> string) \<Rightarrow> TreasuryInputs \<Rightarrow> Legs \<Rightarrow> TreasuryDifference list \<Rightarrow> json"
where
  "snapshot_json sha inputs l differences =
     (let pending = sort_key pt_settlementId (case tn_pendingInternalTransfers inputs of None \<Rightarrow> [] | Some ts \<Rightarrow> ts)
      in JObj
     [(''snapshotVersion'', JStr TREASURY_SNAPSHOT_VERSION),
      (''alertPolicy'', JStr TREASURY_ALERT_POLICY),
      (''identity'', JObj
         [(''accountType'', JStr (tn_accountType inputs)), (''currency'', JStr (tn_currency inputs)),
          (''cutoffAt'', JStr (tn_asOfDate inputs)),
          (''timezone'', JStr (case tn_timezone inputs of None \<Rightarrow> ''UTC'' | Some z \<Rightarrow> z))]),
      (''attestationEvidenceHash'', jopt (attestationEvidenceHash sha inputs)),
      (''scope'', JStr TREASURY_RECON_SCOPE),
      (''accountType'', JStr (tn_accountType inputs)), (''currency'', JStr (tn_currency inputs)),
      (''asOfDate'', JStr (tn_asOfDate inputs)),
      (''attestation'', (case tn_attestation inputs of None \<Rightarrow> JNull | Some a \<Rightarrow> attestation_json a)),
      (''legs'', JObj
         [(''bankBalanceMinor'', jint_opt (map_option ta_balanceMinor (tn_attestation inputs))),
          (''ledgerCashMinor'', jint (lg_ledgerCash l)), (''obligationsMinor'', jint (lg_obligationsMinor l)),
          (''internalTransferDueMinor'', jint (lg_due l)),
          (''internalTransferCompletedMinor'', jint (lg_completed l)),
          (''internalTransferOutstandingMinor'', jint (outstanding l))]),
      (''deltas'', JObj
         [(''bankVsCashMinor'', jint_opt (bankVsCash inputs l)),
          (''rawCashVsObligationsMinor'', jint (rawCashVsObligations l)),
          (''cashVsObligationsMinor'', jint (cashVsObligations l))]),
      (''pendingInternalTransfers'', JArr (map pending_json pending)),
      (''alerts'', JArr (map alert_json (alerts_of inputs l differences pending))),
      (''nonCashClosures'', JArr (map movement_json
         (filter (\<lambda>m. tm_nonCash m = Some True) (sl_included (lg_obligations l))))),
      (''cash'', split_json (lg_cash l)), (''obligations'', split_json (lg_obligations l)),
      (''excluded'', JArr (map excluded_json (sort_key ex_class (tn_excluded inputs)))),
      (''differences'', JArr (map difference_json differences)),
      (''status'', JStr (run_status inputs differences))])"

record TreasurySnapshot =
  tz_snapshot :: json
  tz_canonical :: string
  tz_hash :: string
  tz_status :: string
  tz_ledgerCashMinor :: int
  tz_obligationsMinor :: int
  tz_bankVsCashMinor :: "int option"
  tz_cashVsObligationsMinor :: int
  tz_differences :: "TreasuryDifference list"

definition buildTreasurySnapshot :: "(string \<Rightarrow> string) \<Rightarrow> TreasuryInputs \<Rightarrow> TreasurySnapshot" where
  "buildTreasurySnapshot sha inputs =
     (let l = legs_of inputs; differences = differences_of inputs l;
          snapshot = snapshot_json sha inputs l differences; canonical = canonicalJson snapshot
      in \<lparr> tz_snapshot = snapshot, tz_canonical = canonical, tz_hash = hashCanonical sha canonical,
           tz_status = run_status inputs differences, tz_ledgerCashMinor = lg_ledgerCash l,
           tz_obligationsMinor = lg_obligationsMinor l, tz_bankVsCashMinor = bankVsCash inputs l,
           tz_cashVsObligationsMinor = cashVsObligations l, tz_differences = differences \<rparr>)"

section \<open>Laws\<close>

lemma foldl_add_map: "foldl (\<lambda>t x. t + f x) (k :: int) xs = k + sum_list (map f xs)"
  by (induction xs arbitrary: k) simp_all

lemma sumMinor_sum: "sumMinor ms = sum_list (map signed ms)"
  by (simp add: sumMinor_def foldl_add_map)

text \<open>The loop of the split is three filters.\<close>

definition dated_by :: "string \<Rightarrow> TreasuryMovement \<Rightarrow> bool" where
  "dated_by t m \<longleftrightarrow> (\<exists>v. tm_valueDate m = Some v \<and> v \<le> t)"

definition dated_after :: "string \<Rightarrow> TreasuryMovement \<Rightarrow> bool" where
  "dated_after t m \<longleftrightarrow> (\<exists>v. tm_valueDate m = Some v \<and> \<not> v \<le> t)"

definition undated :: "TreasuryMovement \<Rightarrow> bool" where
  "undated m \<longleftrightarrow> tm_valueDate m = None"

lemma split_loop_filter:
  "split_loop t ms acc = \<lparr> sl_included = sl_included acc @ filter (dated_by t) ms,
     sl_timing = sl_timing acc @ filter (dated_after t) ms, sl_unresolved = sl_unresolved acc @ filter undated ms \<rparr>"
  by (induction ms arbitrary: acc) (auto simp: dated_by_def dated_after_def undated_def split: option.split)

lemma splitByAsOf_filter:
  "splitByAsOf ms t = \<lparr> sl_included = filter (dated_by t) (byDeterministicOrder ms),
     sl_timing = filter (dated_after t) (byDeterministicOrder ms), sl_unresolved = filter undated (byDeterministicOrder ms) \<rparr>"
  by (simp add: splitByAsOf_def split_loop_filter)

lemma split_mset:
  "mset (filter (dated_by t) ms) + mset (filter (dated_after t) ms) + mset (filter undated ms) = mset ms"
  by (induction ms) (auto simp: dated_by_def dated_after_def undated_def)

lemma sum_sorted: "sum_list (map f (filter p (byDeterministicOrder ms))) = (sum_list (map f (filter p ms)) :: int)"
  by (simp add: byDeterministicOrder_def sum_mset_sum_list [symmetric] del: sum_mset_sum_list)

lemma unresolved_differences_Nil: "unresolved_differences {} ms = [] \<longleftrightarrow> ms = []"
  by (cases ms) simp_all

text \<open>
  The adjusted asymmetry is a sum over the movements themselves: whatever is carried by both
  legs cancels, and so do the non-cash closures and the sweeps that settle them.
\<close>

definition is_sweep :: "TreasuryMovement \<Rightarrow> bool" where
  "is_sweep m \<longleftrightarrow> tm_eventType m = ''treasury.internal_transfer.completed''"

lemma adjusted_sum:
  assumes "\<forall>m \<in> set (tn_cashMovements inputs). is_sweep m \<longrightarrow> tm_direction m = Out"
  shows "cashVsObligations (legs_of inputs) =
     sum_list (map signed (filter (dated_by (tn_asOfDate inputs)) (filter (\<lambda>m. \<not> is_sweep m) (tn_cashMovements inputs))))
     - sum_list (map signed (filter (dated_by (tn_asOfDate inputs)) (filter (\<lambda>m. tm_nonCash m \<noteq> Some True) (tn_obligationMovements inputs))))"
proof -
  let ?d = "dated_by (tn_asOfDate inputs)"
  have sweep: "sum_list (map signed (filter ?d cs)) + sum_list (map tm_amountMinor (filter is_sweep (filter ?d cs)))
      = sum_list (map signed (filter ?d (filter (\<lambda>m. \<not> is_sweep m) cs)))"
    if "\<forall>m \<in> set cs. is_sweep m \<longrightarrow> tm_direction m = Out" for cs
    using that by (induction cs) (auto simp: signed_def)
  have due: "sum_list (map signed (filter ?d obs)) + sum_list (map (\<lambda>m. - signed m) (filter (\<lambda>m. tm_nonCash m = Some True) (filter ?d obs)))
      = sum_list (map signed (filter ?d (filter (\<lambda>m. tm_nonCash m \<noteq> Some True) obs)))" for obs
    by (induction obs) auto
  have neg: "(if tm_direction m = In then - tm_amountMinor m else tm_amountMinor m) = - signed m" for m
    by (simp add: signed_def)
  have cash: "sum_list (map f (filter p (filter ?d (byDeterministicOrder ms)))) = (sum_list (map f (filter p (filter ?d ms))) :: int)" for f p ms
    using sum_sorted [of f "\<lambda>m. ?d m \<and> p m" ms] by (simp add: conj_commute)
  have ev: "filter (\<lambda>m. tm_eventType m = ''treasury.internal_transfer.completed'') = filter is_sweep"
    by (simp add: is_sweep_def [abs_def])
  show ?thesis
    using sweep [OF assms] due [of "tn_obligationMovements inputs"]
    unfolding cashVsObligations_def rawCashVsObligations_def outstanding_def legs_of_def Let_def splitByAsOf_filter
      sumMinor_sum foldl_add_map neg ev
    by (simp only: Legs.select_convs Split.select_convs cash sum_sorted)
qed

section \<open>Properties\<close>

text \<open>
  Nothing disappears in a reconciliation: every movement of a leg is in exactly one of the
  included, timing and unresolved lists, included ones carry a bank value date up to the
  cut-off, timing ones a later date and unresolved ones none.
\<close>

theorem split_enumerates:
  "mset (sl_included (splitByAsOf ms t)) + mset (sl_timing (splitByAsOf ms t)) + mset (sl_unresolved (splitByAsOf ms t)) = mset ms
   \<and> list_all (\<lambda>m. \<exists>v. tm_valueDate m = Some v \<and> v \<le> t) (sl_included (splitByAsOf ms t))
   \<and> list_all (\<lambda>m. \<exists>v. tm_valueDate m = Some v \<and> t < v) (sl_timing (splitByAsOf ms t))
   \<and> list_all (\<lambda>m. tm_valueDate m = None) (sl_unresolved (splitByAsOf ms t))"
proof -
  have "mset (byDeterministicOrder ms) = mset ms" by (simp add: byDeterministicOrder_def)
  then show ?thesis
    using split_mset [of t "byDeterministicOrder ms"]
    by (auto simp: splitByAsOf_filter list_all_iff dated_by_def dated_after_def undated_def)
qed

lemma differences_Nil:
  "differences_of inputs (legs_of inputs) = [] \<longleftrightarrow>
      (case tn_attestation inputs of None \<Rightarrow> True | Some a \<Rightarrow> ta_balanceMinor a = lg_ledgerCash (legs_of inputs) \<and> 0 \<le> ta_balanceMinor a)
      \<and> cashVsObligations (legs_of inputs) = 0
      \<and> list_all (\<lambda>m. tm_valueDate m \<noteq> None) (tn_cashMovements inputs @ tn_obligationMovements inputs)"
proof -
  have un: "filter undated (byDeterministicOrder ms) = [] \<longleftrightarrow> list_all (\<lambda>m. tm_valueDate m \<noteq> None) ms" for ms
    by (auto simp: filter_empty_conv list_all_iff undated_def byDeterministicOrder_def)
  have unr: "unresolved_differences {} (sl_unresolved (lg_cash (legs_of inputs)) @ sl_unresolved (lg_obligations (legs_of inputs))) = []
      \<longleftrightarrow> list_all (\<lambda>m. tm_valueDate m \<noteq> None) (tn_cashMovements inputs @ tn_obligationMovements inputs)"
    by (simp add: unresolved_differences_Nil legs_of_def Let_def splitByAsOf_filter un)
  show ?thesis
    unfolding differences_of_def append_is_Nil_conv unr
    by (cases "tn_attestation inputs") (auto simp: bankVsCash_def)
qed

text \<open>
  What a run promises, from the movements alone: sums over the movements whose evidence is dated
  up to the cut-off. The cash of the ledger, what is owed from it, what the non-cash closures
  leave to be swept to the operating account, and what was swept already.
\<close>

definition evidenced_total :: "string \<Rightarrow> (TreasuryMovement \<Rightarrow> bool) \<Rightarrow> (TreasuryMovement \<Rightarrow> int) \<Rightarrow> TreasuryMovement list \<Rightarrow> int" where
  "evidenced_total t p f ms =
     (\<Sum>m \<leftarrow> ms. if (case tm_valueDate m of None \<Rightarrow> False | Some v \<Rightarrow> v \<le> t) \<and> p m then f m else 0)"

definition inflow :: "TreasuryMovement \<Rightarrow> int" where
  "inflow m = (case tm_direction m of In \<Rightarrow> tm_amountMinor m | Out \<Rightarrow> - tm_amountMinor m)"

definition cash_at :: "TreasuryInputs \<Rightarrow> int" where
  "cash_at inputs = evidenced_total (tn_asOfDate inputs) (\<lambda>m. True) inflow (tn_cashMovements inputs)"

definition owed_at :: "TreasuryInputs \<Rightarrow> int" where
  "owed_at inputs = evidenced_total (tn_asOfDate inputs) (\<lambda>m. True) inflow (tn_obligationMovements inputs)"

definition sweep_due_at :: "TreasuryInputs \<Rightarrow> int" where
  "sweep_due_at inputs =
     evidenced_total (tn_asOfDate inputs) (\<lambda>m. tm_nonCash m = Some True) (\<lambda>m. - inflow m) (tn_obligationMovements inputs)"

definition swept_at :: "TreasuryInputs \<Rightarrow> int" where
  "swept_at inputs =
     evidenced_total (tn_asOfDate inputs) (\<lambda>m. tm_eventType m = ''treasury.internal_transfer.completed'') tm_amountMinor
       (tn_cashMovements inputs)"

lemma evidenced_total_filter:
  "evidenced_total t p f ms = sum_list (map f (filter p (filter (dated_by t) ms)))"
  by (induction ms) (auto simp: evidenced_total_def dated_by_def split: option.splits)

lemma inflow_signed: "inflow = signed"
  by (rule ext) (simp add: inflow_def signed_def split: direction.split)

lemma legs_totals:
  "lg_ledgerCash (legs_of inputs) = cash_at inputs" "lg_obligationsMinor (legs_of inputs) = owed_at inputs"
  "lg_due (legs_of inputs) = sweep_due_at inputs" "lg_completed (legs_of inputs) = swept_at inputs"
proof -
  have neg: "(\<lambda>m. if tm_direction m = In then - tm_amountMinor m else tm_amountMinor m) = (\<lambda>m. - signed m)"
    by (rule ext) (simp add: signed_def)
  have sorted: "sum_list (map f (filter p (filter (dated_by t) (byDeterministicOrder ms)))) =
      (sum_list (map f (filter p (filter (dated_by t) ms))) :: int)" for f p t ms
    using sum_sorted [of f "\<lambda>m. dated_by t m \<and> p m" ms] by (simp add: conj_commute)
  show "lg_ledgerCash (legs_of inputs) = cash_at inputs" "lg_obligationsMinor (legs_of inputs) = owed_at inputs"
    by (simp_all add: legs_of_def Let_def splitByAsOf_filter sumMinor_sum sum_sorted cash_at_def owed_at_def
        evidenced_total_filter inflow_signed)
  show "lg_due (legs_of inputs) = sweep_due_at inputs" "lg_completed (legs_of inputs) = swept_at inputs"
    unfolding legs_of_def Let_def Legs.select_convs splitByAsOf_filter Split.select_convs foldl_add_map neg sorted
      sweep_due_at_def swept_at_def evidenced_total_filter inflow_signed by simp_all
qed

text \<open>
  C38: the figures and the status of a treasury run. The ledger cash and the obligations are the
  sums of the movements evidenced up to the cut-off, the bank difference is the attested balance
  less that cash, and the second difference is cash less obligations less the outstanding
  internal transfer (what non-cash closures leave to be swept, less what was swept). The run is
  matched exactly when a balance is attested, is not negative and equals the cash, cash exceeds
  obligations by exactly the outstanding transfer, and no movement lacks its evidence; it is
  pending exactly when only the attestation is missing; any other run is mismatched, which is
  also when differences are enumerated.
\<close>

theorem snapshot_status:
  "tz_ledgerCashMinor (buildTreasurySnapshot sha inputs) = cash_at inputs
   \<and> tz_obligationsMinor (buildTreasurySnapshot sha inputs) = owed_at inputs
   \<and> tz_bankVsCashMinor (buildTreasurySnapshot sha inputs)
       = map_option (\<lambda>a. ta_balanceMinor a - cash_at inputs) (tn_attestation inputs)
   \<and> tz_cashVsObligationsMinor (buildTreasurySnapshot sha inputs)
       = (cash_at inputs - owed_at inputs) - (sweep_due_at inputs - swept_at inputs)
   \<and> (tz_status (buildTreasurySnapshot sha inputs) = ''matched'' \<longleftrightarrow>
      (\<exists>a. tn_attestation inputs = Some a \<and> 0 \<le> ta_balanceMinor a \<and> ta_balanceMinor a = cash_at inputs)
      \<and> cash_at inputs - owed_at inputs = sweep_due_at inputs - swept_at inputs
      \<and> list_all (\<lambda>m. tm_valueDate m \<noteq> None) (tn_cashMovements inputs @ tn_obligationMovements inputs))
   \<and> (tz_status (buildTreasurySnapshot sha inputs) = ''pending'' \<longleftrightarrow>
      tn_attestation inputs = None
      \<and> cash_at inputs - owed_at inputs = sweep_due_at inputs - swept_at inputs
      \<and> list_all (\<lambda>m. tm_valueDate m \<noteq> None) (tn_cashMovements inputs @ tn_obligationMovements inputs))
   \<and> (tz_status (buildTreasurySnapshot sha inputs) = ''mismatched'' \<longleftrightarrow>
      tz_differences (buildTreasurySnapshot sha inputs) \<noteq> [])
   \<and> tz_status (buildTreasurySnapshot sha inputs) \<in> {''matched'', ''pending'', ''mismatched''}"
proof -
  have gap: "cashVsObligations (legs_of inputs) = (cash_at inputs - owed_at inputs) - (sweep_due_at inputs - swept_at inputs)"
    by (simp add: cashVsObligations_def rawCashVsObligations_def outstanding_def legs_totals)
  have bank: "bankVsCash inputs (legs_of inputs) = map_option (\<lambda>a. ta_balanceMinor a - cash_at inputs) (tn_attestation inputs)"
    by (simp add: bankVsCash_def legs_totals)
  have zero: "x - y = 0 \<longleftrightarrow> x = y" for x y :: int by simp
  note diffs = differences_Nil [of inputs, unfolded gap zero legs_totals]
  show ?thesis
    unfolding buildTreasurySnapshot_def Let_def TreasurySnapshot.select_convs run_status_def diffs gap bank legs_totals
    by (cases "tn_attestation inputs") auto
qed

text \<open>
  The snapshot does not depend on the order in which rows come from the database:
  permuting the movements of both legs, the exclusions and the pending transfers leaves its
  bytes and its hash unchanged, as long as ledger ids, classes and settlements are distinct.
\<close>

theorem snapshot_order_free:
  assumes "mset cash = mset (tn_cashMovements inputs)" "distinct (map tm_ledgerId (tn_cashMovements inputs))"
    and "mset obl = mset (tn_obligationMovements inputs)" "distinct (map tm_ledgerId (tn_obligationMovements inputs))"
    and "mset exc = mset (tn_excluded inputs)" "distinct (map ex_class (tn_excluded inputs))"
    and "tn_pendingInternalTransfers inputs = Some pending" "mset pend = mset pending" "distinct (map pt_settlementId pending)"
  shows "buildTreasurySnapshot sha (inputs\<lparr> tn_cashMovements := cash, tn_obligationMovements := obl, tn_excluded := exc,
      tn_pendingInternalTransfers := Some pend \<rparr>) = buildTreasurySnapshot sha inputs"
proof -
  define inputs2 where "inputs2 = inputs\<lparr> tn_cashMovements := cash, tn_obligationMovements := obl, tn_excluded := exc,
      tn_pendingInternalTransfers := Some pend \<rparr>"
  have dist: "distinct (map order_key ms)" if "distinct (map tm_ledgerId ms)" for ms
    using that by (auto simp: distinct_map inj_on_def order_key_def)
  have perm: "byDeterministicOrder ms = byDeterministicOrder ns"
    if "mset ms = mset ns" "distinct (map tm_ledgerId ns)" for ms ns
    unfolding byDeterministicOrder_def by (rule sort_key_perm_distinct [symmetric]) (use that dist in auto)
  have legs: "legs_of inputs2 = legs_of inputs"
    using perm [OF assms(1,2)] perm [OF assms(3,4)]
    by (simp add: inputs2_def legs_of_def splitByAsOf_def)
  have ex: "sort_key ex_class (tn_excluded inputs2) = sort_key ex_class (tn_excluded inputs)"
    unfolding inputs2_def using assms(5,6) sort_key_perm_distinct [of "tn_excluded inputs" exc ex_class] by simp
  have pe: "sort_key pt_settlementId pend = sort_key pt_settlementId pending"
    using assms(8,9) sort_key_perm_distinct [of pending pend pt_settlementId] by simp
  have bank: "bankVsCash inputs2 l = bankVsCash inputs l" for l by (simp add: inputs2_def bankVsCash_def)
  have diff: "differences_of inputs2 l = differences_of inputs l" for l
    unfolding differences_of_def bank by (simp add: inputs2_def)
  have status: "run_status inputs2 d = run_status inputs d" for d by (simp add: run_status_def inputs2_def)
  have alerts: "alerts_of inputs2 l d ps = alerts_of inputs l d ps" for l d ps
    unfolding alerts_of_def bank status ..
  have hash: "attestationEvidenceHash sha inputs2 = attestationEvidenceHash sha inputs"
    by (simp add: attestationEvidenceHash_def inputs2_def)
  have other: "tn_accountType inputs2 = tn_accountType inputs" "tn_currency inputs2 = tn_currency inputs"
    "tn_asOfDate inputs2 = tn_asOfDate inputs" "tn_timezone inputs2 = tn_timezone inputs"
    "tn_attestation inputs2 = tn_attestation inputs" "tn_pendingInternalTransfers inputs2 = Some pend"
    by (simp_all add: inputs2_def)
  have "snapshot_json sha inputs2 l d = snapshot_json sha inputs l d" for l d
    unfolding snapshot_json_def alerts bank status hash other ex assms(7) option.case pe ..
  then have "buildTreasurySnapshot sha inputs2 = buildTreasurySnapshot sha inputs"
    unfolding buildTreasurySnapshot_def legs diff status bank by simp
  then show ?thesis by (simp add: inputs2_def)
qed

definition demo_movement :: "string \<Rightarrow> int \<Rightarrow> string option \<Rightarrow> TreasuryMovement" where
  "demo_movement i k v = \<lparr> tm_ledgerId = i, tm_eventType = ''invoice.payment.received'', tm_direction = In, tm_amountMinor = k,
     tm_valueDate = v, tm_recordedAt = ''2026-01-01T00:00:00.000Z'', tm_reference = i, tm_storeId = None, tm_evidenceRef = None,
     tm_nonCash = None \<rparr>"

definition demo_inputs :: TreasuryInputs where
  "demo_inputs = \<lparr> tn_accountType = ''safeguarding'', tn_currency = ''SAR'', tn_asOfDate = ''2026-01-31T00:00:00.000Z'',
     tn_timezone = None, tn_attestation = None, tn_pendingInternalTransfers = Some [],
     tn_cashMovements = [demo_movement ''l1'' 500 (Some ''2026-01-05T00:00:00.000Z''), demo_movement ''l2'' 700 None],
     tn_obligationMovements = [], tn_excluded = [\<lparr> ex_class = ''a'', ex_count = 1, ex_amountMinor = 3 \<rparr>, \<lparr> ex_class = ''b'', ex_count = 2, ex_amountMinor = 4 \<rparr>] \<rparr>"

lemma snapshot_order_free_witness:
  "tn_cashMovements demo_inputs \<noteq> rev (tn_cashMovements demo_inputs)
   \<and> buildTreasurySnapshot (\<lambda>x. x) (demo_inputs\<lparr> tn_cashMovements := rev (tn_cashMovements demo_inputs), tn_obligationMovements := [],
        tn_excluded := rev (tn_excluded demo_inputs), tn_pendingInternalTransfers := Some [] \<rparr>)
      = buildTreasurySnapshot (\<lambda>x. x) demo_inputs"
proof -
  have d: "distinct (map tm_ledgerId (tn_cashMovements demo_inputs))" "distinct (map ex_class (tn_excluded demo_inputs))"
    and n: "tn_obligationMovements demo_inputs = []" "tn_pendingInternalTransfers demo_inputs = Some []"
    and ne: "tn_cashMovements demo_inputs \<noteq> rev (tn_cashMovements demo_inputs)"
    by (simp_all add: demo_inputs_def demo_movement_def)
  have "buildTreasurySnapshot (\<lambda>x. x) (demo_inputs\<lparr> tn_cashMovements := rev (tn_cashMovements demo_inputs), tn_obligationMovements := [],
        tn_excluded := rev (tn_excluded demo_inputs), tn_pendingInternalTransfers := Some [] \<rparr>)
      = buildTreasurySnapshot (\<lambda>x. x) demo_inputs"
    by (rule snapshot_order_free [where pending = "[]"]) (simp_all add: d n)
  with ne show ?thesis ..
qed

end
