(* ===== verification/Treasury.thy ===== *)
theory Treasury
  imports Treasury_Snapshot Receipts
begin

text \<open>
  The treasury services of \<open>src/src/treasury\<close>: the evidence of internal transfers
  (\<open>treasury-internal-transfer.service.ts\<close>) and the attestations, reconciliation runs and their
  lifecycle (\<open>treasury-reconciliation.service.ts\<close>).
\<close>

section \<open>Reading metadata and keys\<close>

text \<open>\<open>String(v)\<close> and the \<open>??\<close> of the language on metadata values.\<close>

fun js_String :: "json \<Rightarrow> string" where
  "js_String JNull = ''null''"
| "js_String JUndef = ''undefined''"
| "js_String (JBool b) = (if b then ''true'' else ''false'')"
| "js_String (JNum x) = num_str x"
| "js_String (JStr s) = s"
| "js_String (JArr vs) = comma_sep (map (\<lambda>v. if v = JNull \<or> v = JUndef then '''' else js_String v) vs)"
| "js_String (JObj fs) = ''[object Object]''"

definition or_else :: "json \<Rightarrow> json \<Rightarrow> json" where
  "or_else v w = (if v = JNull \<or> v = JUndef then w else v)"

definition string_field :: "json \<Rightarrow> string \<Rightarrow> string option" where
  "string_field meta k = (case jfield meta k of JStr s \<Rightarrow> Some s | _ \<Rightarrow> None)"

text \<open>What follows the event name and a colon in the idempotency key.\<close>

definition strip_prefix :: "string \<Rightarrow> string \<Rightarrow> string option" where
  "strip_prefix p s = (if take (length p) s = p then Some (drop (length p) s) else None)"

definition anchorOf :: "LedgerEntry \<Rightarrow> string option" where
  "anchorOf row =
     (case le_idempotencyKey row of
        None \<Rightarrow> None
      | Some k \<Rightarrow> if k = [] then None else strip_prefix (le_eventType row @ '':'') k)"

text \<open>The part of an anchor behind its first colon, when something stands before the colon.\<close>

definition after_colon :: "string \<Rightarrow> string option" where
  "after_colon a =
     (if takeWhile (\<lambda>c. c \<noteq> CHR '':'') a = [] then None
      else case dropWhile (\<lambda>c. c \<noteq> CHR '':'') a of [] \<Rightarrow> None | _ # r \<Rightarrow> Some r)"

text \<open>The ledger with its generated columns, in creation order.\<close>

type_synonym stamped = "(string \<times> instant) \<times> LedgerEntry"

definition stamped_ledger :: "env \<Rightarrow> db \<Rightarrow> stamped list" where
  "stamped_ledger e s =
     sort_key (\<lambda>((i, t), r). (t, i)) (map (\<lambda>n. (en_ledgerStamp e n, db_ledger s ! n)) [0..<length (db_ledger s)])"

section \<open>Internal transfers\<close>

record Due =
  du_settlementReference :: string
  du_currency :: string
  du_dueMinor :: int
  du_closedAt :: "string option"

text \<open>A \<open>Map\<close> in insertion order: the entry of a key is updated in place or appended.\<close>

fun put :: "'k \<Rightarrow> 'v \<Rightarrow> ('k \<times> 'v) list \<Rightarrow> ('k \<times> 'v) list" where
  "put k v [] = [(k, v)]"
| "put k v ((k', v') # r) = (if k' = k then (k, v) # r else (k', v') # put k v r)"

definition due_anchor :: "LedgerEntry \<Rightarrow> string option" where
  "due_anchor row =
     (if jfield (le_metadata row) ''closureType'' \<noteq> JStr ''zero_net_no_transfer'' then None
      else Option.bind (strip_prefix (event_name MERCHANT_RECEIVABLE_RECOVERED @ '':'')
             (case le_idempotencyKey row of None \<Rightarrow> [] | Some k \<Rightarrow> k)) after_colon)"

definition add_due :: "LedgerEntry \<Rightarrow> (string \<times> Due) list \<Rightarrow> (string \<times> Due) list res" where
  "add_due row dues =
     (case due_anchor row of
        None \<Rightarrow> Inr dues
      | Some settlementId \<Rightarrow>
          let cur = (case map_of dues settlementId of
                Some d \<Rightarrow> d
              | None \<Rightarrow>
                  \<lparr> du_settlementReference = js_String (or_else (jfield (le_metadata row) ''settlementReference'') (JStr settlementId)),
                    du_currency = le_currency row, du_dueMinor = 0,
                    du_closedAt = string_field (le_metadata row) ''closedAt'' \<rparr>)
          in bindr (asCurrencyCode (le_currency row)) (\<lambda>c.
             Inr (put settlementId (cur\<lparr> du_dueMinor := du_dueMinor cur + to_minor (dec_num (le_amount row)) c \<rparr>) dues)))"

fun gather_loop :: "LedgerEntry list \<Rightarrow> (string \<times> Due) list \<Rightarrow> (string \<times> Due) list res" where
  "gather_loop [] dues = Inr dues"
| "gather_loop (r # rs) dues = bindr (add_due r dues) (gather_loop rs)"

definition gatherDues :: "env \<Rightarrow> db \<Rightarrow> (string \<times> Due) list res" where
  "gatherDues e s =
     gather_loop (filter (\<lambda>r. le_eventType r = event_name MERCHANT_RECEIVABLE_RECOVERED) (map snd (stamped_ledger e s))) []"

definition completed_for :: "string \<Rightarrow> db \<Rightarrow> TreasuryInternalTransfer option" where
  "completed_for settlementId s =
     find (\<lambda>t. tt_settlementId t = settlementId \<and> tt_status t = ''completed'') (db_transfers s)"

definition age_days :: "instant \<Rightarrow> string option \<Rightarrow> int option" where
  "age_days nowMs closedAt =
     (case (case closedAt of Some c \<Rightarrow> if c = [] then Some nowMs else date_parse c | None \<Rightarrow> Some nowMs) of
        None \<Rightarrow> None
      | Some closedMs \<Rightarrow> Some (max 0 ((nowMs - closedMs) div day_ms)))"

definition pending_of :: "instant \<Rightarrow> db \<Rightarrow> string \<times> Due \<Rightarrow> PendingInternalTransfer" where
  "pending_of nowMs s p = (case p of (settlementId, due) \<Rightarrow>
     \<lparr> pt_settlementId = settlementId, pt_settlementReference = du_settlementReference due,
       pt_currency = du_currency due, pt_outstandingMinor = du_dueMinor due, pt_closedAt = du_closedAt due,
       pt_ageDays = age_days nowMs (du_closedAt due),
       pt_failedAttempts = count_where (\<lambda>t. tt_settlementId t = settlementId \<and> tt_status t = ''failed'') (db_transfers s) \<rparr>)"

definition pendingInternalTransfers :: "env \<Rightarrow> (db, PendingInternalTransfer list) prog" where
  "pendingInternalTransfers e =
     seq (reads (gatherDues e)) (\<lambda>gathered.
     seq (lift gathered) (\<lambda>dues.
     reads (\<lambda>s. map (pending_of (clk e 30) s)
       (filter (\<lambda>(settlementId, due). completed_for settlementId s = None) (sort_key fst dues)))))"

definition listInternalTransfers :: "db \<Rightarrow> TreasuryInternalTransfer list" where
  "listInternalTransfers s = take 200 (rev (order_by tt_createdAt (db_transfers s)))"

text \<open>Masked account identifiers: up to six letters, four stars, two to four digits.\<close>

definition ascii_letter :: "char \<Rightarrow> bool" where
  "ascii_letter c \<longleftrightarrow> CHR ''A'' \<le> c \<and> c \<le> CHR ''Z'' \<or> CHR ''a'' \<le> c \<and> c \<le> CHR ''z''"

definition ascii_digit :: "char \<Rightarrow> bool" where
  "ascii_digit c \<longleftrightarrow> CHR ''0'' \<le> c \<and> c \<le> CHR ''9''"

definition masked :: "string \<Rightarrow> bool" where
  "masked s \<longleftrightarrow>
     (let r = dropWhile ascii_letter s; ds = drop 4 r in
      length (takeWhile ascii_letter s) \<le> 6 \<and> take 4 r = ''****''
      \<and> 2 \<le> length ds \<and> length ds \<le> 4 \<and> list_all ascii_digit ds)"

record InternalTransferInput =
  it_settlementId :: string
  it_bankReference :: string
  it_valueDate :: "instant option"
  it_confirmedAmount :: js_number
  it_accountFromMasked :: string
  it_accountToMasked :: string
  it_status :: "string option"
  it_notes :: "string option"

definition transfer_clash :: "TreasuryInternalTransfer \<Rightarrow> TreasuryInternalTransfer \<Rightarrow> bool" where
  "transfer_clash r r' \<longleftrightarrow> tt_id r' = tt_id r \<or> tt_bankReference r' = tt_bankReference r
     \<or> tt_status r = ''completed'' \<and> tt_status r' = ''completed'' \<and> tt_settlementId r' = tt_settlementId r"

text \<open>\<open>x?.trim() || d\<close>.\<close>

definition trimmed_or :: "string \<Rightarrow> string option \<Rightarrow> string" where
  "trimmed_or d v = (case trimmed_or_null v of None \<Rightarrow> d | Some s \<Rightarrow> s)"

text \<open>The evidence row, the cash posting of a completed sweep and the audit, in one transaction.\<close>

definition transfer_posting ::
  "string \<Rightarrow> InternalTransferInput \<Rightarrow> string \<Rightarrow> string \<Rightarrow> instant \<Rightarrow> int \<Rightarrow> Due \<Rightarrow> (db, LedgerEntry) prog"
where
  "transfer_posting actorUserId input settlementId bankReference valueDate confirmedMinor due =
     ledger_record ((ledger_base INTERNAL_TRANSFER_COMPLETED ''TREASURY_INTERNAL_TRANSFER'' actorUserId
         (Fin (fromMinor confirmedMinor SAR)) (du_currency due) ''debit'')
       \<lparr> li_idempotencyKey := Some (ledgerIdempotencyKey INTERNAL_TRANSFER_COMPLETED settlementId),
         li_metadata := Some (JObj
           [(''settlementReference'', JStr (du_settlementReference due)), (''bankReference'', JStr bankReference),
            (''valueDate'', JStr (toISOString valueDate)),
            (''accountFromMasked'', JStr (js_trim (it_accountFromMasked input))),
            (''accountToMasked'', JStr (js_trim (it_accountToMasked input))),
            (''account'', JStr ''safeguarding'')]) \<rparr>)"

definition transfer_transaction ::
  "env \<Rightarrow> string \<Rightarrow> InternalTransferInput \<Rightarrow> string \<Rightarrow> string \<Rightarrow> instant \<Rightarrow> string \<Rightarrow> int \<Rightarrow> Due
    \<Rightarrow> (db, TreasuryInternalTransfer) prog"
where
  "transfer_transaction e actorUserId input settlementId bankReference valueDate status confirmedMinor due =
     transaction (
       seq (lift (asCurrencyCode (du_currency due))) (\<lambda>c.
       seq (lift (to_dec14 (fromMinor confirmedMinor c))) (\<lambda>confirmed.
       seq (create db_transfers db_transfers_update transfer_clash
             \<lparr> tt_id = en_uuid e 0, tt_settlementId = settlementId,
               tt_settlementReference = du_settlementReference due, tt_currency = du_currency due,
               tt_confirmedAmount = confirmed, tt_bankReference = bankReference, tt_valueDate = valueDate,
               tt_accountFromMasked = js_trim (it_accountFromMasked input),
               tt_accountToMasked = js_trim (it_accountToMasked input), tt_status = status,
               tt_recordedBy = actorUserId, tt_notes = trimmed_or_null (it_notes input),
               tt_createdAt = en_dbNow e \<rparr>) (\<lambda>row.
       seq (if status = ''completed''
            then seq (transfer_posting actorUserId input settlementId bankReference valueDate confirmedMinor due) (\<lambda>_. ret ())
            else ret ()) (\<lambda>_.
       seq (audit_guaranteed (audit_input actorUserId (''finance.treasury.internal_transfer.'' @ status) ''system'' (Some (tt_id row))
             [(''transferId'', JStr (tt_id row)), (''settlementId'', JStr settlementId),
              (''settlementReference'', JStr (du_settlementReference due)), (''bankReference'', JStr bankReference),
              (''valueDate'', JStr (toISOString valueDate)), (''confirmedAmount'', JNum (fromMinor confirmedMinor SAR)),
              (''accountFromMasked'', JStr (js_trim (it_accountFromMasked input))),
              (''accountToMasked'', JStr (js_trim (it_accountToMasked input))), (''executedBy'', JStr actorUserId)])
             (''finance.treasury.internal_transfer.'' @ status @ '':'' @ tt_id row)) (\<lambda>_.
       ret row))))))"

definition positive_finite :: "js_number \<Rightarrow> bool" where
  "positive_finite v = (case v of Fin x \<Rightarrow> 0 < x | _ \<Rightarrow> False)"

definition land_transfer ::
  "env \<Rightarrow> string \<Rightarrow> InternalTransferInput \<Rightarrow> string \<Rightarrow> string \<Rightarrow> instant \<Rightarrow> string \<Rightarrow> int \<Rightarrow> Due
    \<Rightarrow> (db, TreasuryInternalTransfer) prog"
where
  "land_transfer e actorUserId input settlementId bankReference valueDate status confirmedMinor due =
     attempt
       (transfer_transaction e actorUserId input settlementId bankReference valueDate status confirmedMinor due)
       (\<lambda>ex. case ex of
          P2002 c \<Rightarrow>
            seq (reads (completed_for settlementId)) (\<lambda>nowCompleted.
            case nowCompleted of
              Some t \<Rightarrow>
                if tt_bankReference t \<noteq> bankReference
                then raise (Conflict ''internal_transfer_already_completed'')
                else raise (Conflict ''internal_transfer_evidence_reused'')
            | None \<Rightarrow> raise (Conflict ''internal_transfer_evidence_reused''))
        | _ \<Rightarrow> raise ex)"

definition recordInternalTransfer ::
  "env \<Rightarrow> string \<Rightarrow> InternalTransferInput \<Rightarrow> (db, TreasuryInternalTransfer) prog"
where
  "recordInternalTransfer e actorUserId input =
     (let settlementId = js_trim (it_settlementId input); bankReference = js_trim (it_bankReference input);
          status = trimmed_or ''completed'' (it_status input) in
     seq (require (settlementId \<noteq> []) (BadRequest ''internal_transfer_settlement_required'')) (\<lambda>_.
     seq (require (bankReference \<noteq> []) (BadRequest ''internal_transfer_evidence_required'')) (\<lambda>_.
     seq (found (it_valueDate input) (BadRequest ''internal_transfer_value_date_invalid'')) (\<lambda>valueDate.
     seq (require (positive_finite (it_confirmedAmount input)) (BadRequest ''internal_transfer_amount_invalid'')) (\<lambda>_.
     seq (require (masked (js_trim (it_accountFromMasked input)) \<and> masked (js_trim (it_accountToMasked input)))
           (BadRequest ''internal_transfer_account_not_masked'')) (\<lambda>_.
     seq (require (status = ''completed'' \<or> status = ''failed'') (BadRequest ''internal_transfer_status_unknown'')) (\<lambda>_.
     seq (reads (gatherDues e)) (\<lambda>gathered.
     seq (lift gathered) (\<lambda>dues.
     seq (found (case map_of dues settlementId of Some d \<Rightarrow> if 0 < du_dueMinor d then Some d else None | None \<Rightarrow> None)
           (Conflict ''internal_transfer_nothing_outstanding'')) (\<lambda>due.
     seq (reads (completed_for settlementId)) (\<lambda>existing.
     seq (require (existing = None) (Conflict ''internal_transfer_already_completed'')) (\<lambda>_.
     seq (lift (asCurrencyCode (du_currency due))) (\<lambda>c.
     seq (lift (toMinor (it_confirmedAmount input) c)) (\<lambda>confirmedMinor.
     seq (require (status = ''completed'' \<longrightarrow> confirmedMinor = du_dueMinor due)
           (Conflict ''internal_transfer_amount_mismatch'')) (\<lambda>_.
     land_transfer e actorUserId input settlementId bankReference valueDate status confirmedMinor due)))))))))))))))"

section \<open>Gathering movements\<close>

definition SAFEGUARDING :: string where "SAFEGUARDING = ''safeguarding''"

definition GATHERED_EVENTS :: "FinancialEventType list" where
  "GATHERED_EVENTS = [INVOICE_PAYMENT_RECEIVED, MERCHANT_PAYABLE_ACCRUED, MERCHANT_REMITTANCE_PAID, REFUND_PAID,
     MERCHANT_RECEIVABLE_RECOVERED, INTERNAL_TRANSFER_COMPLETED]"

definition is_event :: "FinancialEventType \<Rightarrow> LedgerEntry \<Rightarrow> bool" where
  "is_event v row \<longleftrightarrow> le_eventType row = event_name v"

definition has_order :: "LedgerEntry \<Rightarrow> bool" where
  "has_order row \<longleftrightarrow> truthy (le_orderId row)"

text \<open>The ids the evidence queries ask for.\<close>

definition anchored :: "LedgerEntry \<Rightarrow> string option" where
  "anchored row = (case anchorOf row of None \<Rightarrow> None | Some a \<Rightarrow> if a = [] then None else Some a)"

definition receiptIds :: "LedgerEntry list \<Rightarrow> string list" where
  "receiptIds rows = List.map_filter anchored
     (filter (\<lambda>r. (is_event INVOICE_PAYMENT_RECEIVED r \<or> is_event MERCHANT_PAYABLE_ACCRUED r) \<and> \<not> has_order r) rows)"

definition remittanceIds :: "LedgerEntry list \<Rightarrow> string list" where
  "remittanceIds rows = List.map_filter anchored (filter (is_event MERCHANT_REMITTANCE_PAID) rows)"

definition refundIds :: "LedgerEntry list \<Rightarrow> string list" where
  "refundIds rows = List.map_filter anchored (filter (is_event REFUND_PAID) rows)"

definition recoverySettlementIds :: "LedgerEntry list \<Rightarrow> string list" where
  "recoverySettlementIds rows = List.map_filter (\<lambda>r. Option.bind (anchored r) after_colon)
     (filter (is_event MERCHANT_RECEIVABLE_RECOVERED) rows)"

record Evidence =
  ed_receipt :: "string \<Rightarrow> PaymentReceipt option"
  ed_remittance :: "string \<Rightarrow> SettlementRemittance option"
  ed_refund :: "string \<Rightarrow> SettlementRefund option"
  ed_settlement :: "string \<Rightarrow> SettlementRemittance option"

definition evidence_of :: "LedgerEntry list \<Rightarrow> db \<Rightarrow> Evidence" where
  "evidence_of rows s =
     \<lparr> ed_receipt = (\<lambda>k. find (\<lambda>r. pr_id r = k) (filter (\<lambda>r. pr_id r \<in> set (receiptIds rows)) (db_receipts s))),
       ed_remittance = (\<lambda>k. find (\<lambda>r. rm_id r = k) (filter (\<lambda>r. rm_id r \<in> set (remittanceIds rows)) (db_remittances s))),
       ed_refund = (\<lambda>k. find (\<lambda>r. rf_id r = k) (filter (\<lambda>r. rf_id r \<in> set (refundIds rows)) (db_refunds s))),
       ed_settlement = (\<lambda>k. find (\<lambda>r. rm_settlementId r = k)
          (filter (\<lambda>r. rm_settlementId r \<in> set (recoverySettlementIds rows)) (db_remittances s))) \<rparr>"

text \<open>What one row contributes: to the cash leg, to the obligations leg, or to an excluded class.\<close>

record Contribution =
  ct_cash :: "TreasuryMovement list"
  ct_obligations :: "TreasuryMovement list"
  ct_excluded :: "(string \<times> int) list"

definition amount_minor :: "LedgerEntry \<Rightarrow> int" where
  "amount_minor row = to_minor (dec_num (le_amount row)) SAR"

definition movement ::
  "stamped \<Rightarrow> direction \<Rightarrow> string option \<Rightarrow> string \<Rightarrow> string option \<Rightarrow> bool option \<Rightarrow> TreasuryMovement"
where
  "movement sr d valueDate reference evidenceRef nonCash = (case sr of ((i, t), row) \<Rightarrow>
     \<lparr> tm_ledgerId = i, tm_eventType = le_eventType row, tm_direction = d, tm_amountMinor = amount_minor row,
       tm_valueDate = valueDate, tm_recordedAt = toISOString t, tm_reference = reference,
       tm_storeId = le_storeId row, tm_evidenceRef = evidenceRef, tm_nonCash = nonCash \<rparr>)"

definition both_legs :: "TreasuryMovement \<Rightarrow> Contribution" where
  "both_legs m = \<lparr> ct_cash = [m], ct_obligations = [m], ct_excluded = [] \<rparr>"

definition cash_only :: "TreasuryMovement \<Rightarrow> Contribution" where
  "cash_only m = \<lparr> ct_cash = [m], ct_obligations = [], ct_excluded = [] \<rparr>"

definition obligations_only :: "TreasuryMovement \<Rightarrow> Contribution" where
  "obligations_only m = \<lparr> ct_cash = [], ct_obligations = [m], ct_excluded = [] \<rparr>"

definition exclude :: "string \<Rightarrow> LedgerEntry \<Rightarrow> Contribution" where
  "exclude c row = \<lparr> ct_cash = [], ct_obligations = [], ct_excluded = [(c, amount_minor row)] \<rparr>"

definition looked_up :: "string option \<Rightarrow> (string \<Rightarrow> 'b option) \<Rightarrow> 'b option" where
  "looked_up a f = (case a of None \<Rightarrow> None | Some k \<Rightarrow> if k = [] then None else f k)"

definition invoice_reference :: "json \<Rightarrow> string \<Rightarrow> string" where
  "invoice_reference meta i = js_String (or_else (jfield meta ''invoiceNumber'') (or_else (jfield meta ''invoiceId'') (JStr i)))"

definition settled_reference :: "json \<Rightarrow> SettlementRemittance option \<Rightarrow> string \<Rightarrow> string" where
  "settled_reference meta ev i = js_String (or_else (jfield meta ''settlementReference'')
     (case ev of None \<Rightarrow> JStr i | Some r \<Rightarrow> JStr (rm_settlementReference r)))"

text \<open>The evidence reference: the row's, or what the posting's metadata says.\<close>

definition evidence_or :: "string option \<Rightarrow> json \<Rightarrow> string \<Rightarrow> string" where
  "evidence_or v meta k = (case v of Some x \<Rightarrow> x | None \<Rightarrow> js_String (or_else (jfield meta k) (JStr [])))"

definition received_contribution :: "Evidence \<Rightarrow> stamped \<Rightarrow> Contribution" where
  "received_contribution ev sr =
     (let row = snd sr; meta = le_metadata row in
      if jfield meta ''account'' \<noteq> JStr SAFEGUARDING then exclude ''operating_account_cash'' row
      else let r = looked_up (anchorOf row) (ed_receipt ev) in
        cash_only (movement sr In (map_option (\<lambda>r. toISOString (pr_receivedAt r)) r)
          (invoice_reference meta (fst (fst sr))) (Some (evidence_or (map_option pr_bankReference r) meta ''bankReference'')) None))"

definition payable_contribution :: "Evidence \<Rightarrow> stamped \<Rightarrow> Contribution" where
  "payable_contribution ev sr =
     (let row = snd sr; meta = le_metadata row in
      if has_order row then exclude ''consumer_lane_payable'' row
      else let r = looked_up (anchorOf row) (ed_receipt ev) in
        obligations_only (movement sr In (map_option (\<lambda>r. toISOString (pr_receivedAt r)) r)
          (invoice_reference meta (fst (fst sr))) (map_option pr_bankReference r) None))"

definition remittance_contribution :: "Evidence \<Rightarrow> stamped \<Rightarrow> Contribution" where
  "remittance_contribution ev sr =
     (let row = snd sr; meta = le_metadata row; r = looked_up (anchorOf row) (ed_remittance ev) in
      both_legs (movement sr Out (map_option (\<lambda>r. toISOString (rm_executedAt r)) r)
        (settled_reference meta r (fst (fst sr)))
        (Some (evidence_or (map_option rm_bankTransferReference r) meta ''bankTransferReference'')) None))"

definition refund_contribution :: "Evidence \<Rightarrow> stamped \<Rightarrow> Contribution" where
  "refund_contribution ev sr =
     (let row = snd sr; meta = le_metadata row in
      if jfield meta ''account'' \<noteq> JStr SAFEGUARDING then exclude ''operating_account_refund'' row
      else let r = looked_up (anchorOf row) (ed_refund ev) in
        both_legs (movement sr Out (map_option (\<lambda>r. toISOString (rf_refundedAt r)) r)
          (invoice_reference meta (fst (fst sr))) (Some (evidence_or (map_option rf_evidenceRef r) meta ''evidenceRef'')) None))"

definition transfer_contribution :: "stamped \<Rightarrow> Contribution" where
  "transfer_contribution sr =
     (let meta = le_metadata (snd sr) in
      cash_only (movement sr Out (string_field meta ''valueDate'')
        (js_String (or_else (jfield meta ''settlementReference'') (JStr (fst (fst sr)))))
        (Some (evidence_or None meta ''bankReference'')) None))"

definition recovery_contribution :: "Evidence \<Rightarrow> stamped \<Rightarrow> Contribution" where
  "recovery_contribution ev sr =
     (let row = snd sr; meta = le_metadata row in
      if jfield meta ''closureType'' = JStr ''zero_net_no_transfer''
      then obligations_only (movement sr Out (string_field meta ''closedAt'')
        (js_String (or_else (jfield meta ''settlementReference'') (JStr (fst (fst sr))))) None (Some True))
      else let r = looked_up (Option.bind (anchored row) after_colon) (ed_settlement ev) in
        both_legs (movement sr Out (map_option (\<lambda>r. toISOString (rm_executedAt r)) r)
          (settled_reference meta r (fst (fst sr))) (map_option rm_bankTransferReference r) None))"

definition contribution :: "Evidence \<Rightarrow> stamped \<Rightarrow> Contribution" where
  "contribution ev sr =
     (let row = snd sr in
      if is_event INVOICE_PAYMENT_RECEIVED row then received_contribution ev sr
      else if is_event MERCHANT_PAYABLE_ACCRUED row then payable_contribution ev sr
      else if is_event MERCHANT_REMITTANCE_PAID row then remittance_contribution ev sr
      else if is_event REFUND_PAID row then refund_contribution ev sr
      else if is_event INTERNAL_TRANSFER_COMPLETED row then transfer_contribution sr
      else recovery_contribution ev sr)"

definition add_excluded :: "string \<times> int \<Rightarrow> (string \<times> nat \<times> int) list \<Rightarrow> (string \<times> nat \<times> int) list" where
  "add_excluded x t = (case x of (c, k) \<Rightarrow>
     case map_of t c of None \<Rightarrow> put c (1, k) t | Some (n, j) \<Rightarrow> put c (Suc n, j + k) t)"

record Gathered =
  gm_cashMovements :: "TreasuryMovement list"
  gm_obligationMovements :: "TreasuryMovement list"
  gm_excluded :: "Excluded list"

definition gathered_rows :: "env \<Rightarrow> db \<Rightarrow> stamped list" where
  "gathered_rows e s = filter (\<lambda>sr. le_eventType (snd sr) \<in> event_name ` set GATHERED_EVENTS) (stamped_ledger e s)"

definition gatherMovements :: "env \<Rightarrow> db \<Rightarrow> Gathered" where
  "gatherMovements e s =
     (let rows = gathered_rows e s; ev = evidence_of (map snd rows) s; cs = map (contribution ev) rows in
      \<lparr> gm_cashMovements = concat (map ct_cash cs), gm_obligationMovements = concat (map ct_obligations cs),
        gm_excluded = map (\<lambda>(c, n, k). \<lparr> ex_class = c, ex_count = n, ex_amountMinor = k \<rparr>)
          (fold add_excluded (concat (map ct_excluded cs)) []) \<rparr>)"

section \<open>Attestations\<close>

record AttestationInput =
  ni_balance :: js_number
  ni_asOfDate :: "instant option"
  ni_evidenceRef :: string
  ni_source :: "string option"
  ni_notes :: "string option"

definition attestation_clash :: "TreasuryAttestation \<Rightarrow> TreasuryAttestation \<Rightarrow> bool" where
  "attestation_clash r r' \<longleftrightarrow> at_id r' = at_id r"

definition attestation_transaction ::
  "env \<Rightarrow> string \<Rightarrow> AttestationInput \<Rightarrow> rat \<Rightarrow> instant \<Rightarrow> string \<Rightarrow> string \<Rightarrow> (db, TreasuryAttestation) prog"
where
  "attestation_transaction e actorUserId input balance asOfDate source evidenceRef =
     transaction (
       seq (lift (to_dec14 balance)) (\<lambda>balanceDec.
       seq (create db_attestations db_attestations_update attestation_clash
             \<lparr> at_id = en_uuid e 0, at_accountType = SAFEGUARDING, at_currency = ''SAR'', at_balance = balanceDec,
               at_asOfDate = asOfDate, at_source = source, at_evidenceRef = evidenceRef,
               at_notes = trimmed_or_null (ni_notes input), at_recordedBy = actorUserId, at_createdAt = en_dbNow e \<rparr>) (\<lambda>created.
       seq (audit_guaranteed (audit_input actorUserId ''finance.treasury.attested'' ''system'' (Some (at_id created))
             [(''attestationId'', JStr (at_id created)), (''balance'', JNum balance),
              (''asOfDate'', JStr (toISOString asOfDate)), (''source'', JStr source), (''evidenceRef'', JStr evidenceRef)])
             (''finance.treasury.attested:'' @ at_id created)) (\<lambda>_.
       ret created))))"

definition recordAttestation :: "env \<Rightarrow> string \<Rightarrow> AttestationInput \<Rightarrow> (db, TreasuryAttestation) prog" where
  "recordAttestation e actorUserId input =
     seq (require (ni_balance input \<noteq> NonFinite) (BadRequest ''treasury_balance_invalid'')) (\<lambda>_.
     seq (found (ni_asOfDate input) (BadRequest ''treasury_as_of_invalid'')) (\<lambda>asOfDate.
     let evidenceRef = js_trim (ni_evidenceRef input) in
     seq (require (evidenceRef \<noteq> []) (BadRequest ''treasury_evidence_required'')) (\<lambda>_.
     let source = trimmed_or ''manual_attestation'' (ni_source input) in
     seq (require (source = ''manual_attestation'' \<or> source = ''statement_import'') (BadRequest ''treasury_source_unknown'')) (\<lambda>_.
     seq (lift (toMinor (ni_balance input) SAR)) (\<lambda>minor.
     attestation_transaction e actorUserId input (fromMinor minor SAR) asOfDate source evidenceRef)))))"

definition listAttestations :: "db \<Rightarrow> TreasuryAttestation list" where
  "listAttestations s = take 200 (rev (order_by (\<lambda>a. (at_asOfDate a, at_createdAt a)) (db_attestations s)))"

section \<open>Runs\<close>

definition first_of :: "'r list \<Rightarrow> 'r option" where
  "first_of rs = (case rs of [] \<Rightarrow> None | r # _ \<Rightarrow> Some r)"

text \<open>The bank leg: the attestation named, at exactly this date, or the latest one at this date.\<close>

definition bank_leg :: "instant \<Rightarrow> string option \<Rightarrow> (db, TreasuryAttestation option) prog" where
  "bank_leg asOfDate attestationId =
     (if truthy attestationId
      then seq (reads (\<lambda>s. find (\<lambda>a. Some (at_id a) = attestationId) (db_attestations s))) (\<lambda>read.
           seq (found read (NotFound ''treasury_attestation_not_found'')) (\<lambda>a.
           seq (require (toISOString (at_asOfDate a) = toISOString asOfDate) (Conflict ''treasury_attestation_date_mismatch'')) (\<lambda>_.
           ret (Some a))))
      else reads (\<lambda>s. first_of (rev (order_by at_createdAt
             (filter (\<lambda>a. at_accountType a = SAFEGUARDING \<and> at_asOfDate a = asOfDate) (db_attestations s))))))"

definition attested_minor :: "TreasuryAttestation \<Rightarrow> int" where
  "attested_minor a = to_minor (moneyToNumber (MoneyDecimal (at_balance a))) SAR"

definition attestation_input :: "TreasuryAttestation \<Rightarrow> TreasuryAttestationInput" where
  "attestation_input a =
     \<lparr> ta_inputId = at_id a, ta_balanceMinor = attested_minor a, ta_asOfDate = toISOString (at_asOfDate a),
       ta_source = at_source a, ta_evidenceRef = at_evidenceRef a \<rparr>"

definition run_inputs ::
  "instant \<Rightarrow> TreasuryAttestation option \<Rightarrow> Gathered \<Rightarrow> PendingInternalTransfer list \<Rightarrow> TreasuryInputs"
where
  "run_inputs asOfDate attestation g pending =
     \<lparr> tn_accountType = SAFEGUARDING, tn_currency = ''SAR'', tn_asOfDate = toISOString asOfDate,
       tn_timezone = Some ''UTC'', tn_attestation = map_option attestation_input attestation,
       tn_pendingInternalTransfers = Some pending, tn_cashMovements = gm_cashMovements g,
       tn_obligationMovements = gm_obligationMovements g, tn_excluded = gm_excluded g \<rparr>"

definition reconciliation_clash :: "TreasuryReconciliation \<Rightarrow> TreasuryReconciliation \<Rightarrow> bool" where
  "reconciliation_clash r r' \<longleftrightarrow> tr_id r' = tr_id r"

definition dec14_opt :: "rat option \<Rightarrow> dec2 option res" where
  "dec14_opt v = (case v of None \<Rightarrow> Inr None | Some x \<Rightarrow> bindr (to_dec14 x) (\<lambda>k. Inr (Some k)))"

definition run_transaction ::
  "env \<Rightarrow> string \<Rightarrow> instant \<Rightarrow> TreasuryAttestation option \<Rightarrow> TreasurySnapshot \<Rightarrow> (db, TreasuryReconciliation) prog"
where
  "run_transaction e actorUserId asOfDate attestation built =
     transaction (
       seq (lift (dec14_opt (map_option (\<lambda>a. fromMinor (attested_minor a) SAR) attestation))) (\<lambda>bankBalance.
       seq (lift (to_dec14 (fromMinor (tz_ledgerCashMinor built) SAR))) (\<lambda>ledgerCash.
       seq (lift (to_dec14 (fromMinor (tz_obligationsMinor built) SAR))) (\<lambda>obligations.
       seq (lift (dec14_opt (map_option (\<lambda>k. fromMinor k SAR) (tz_bankVsCashMinor built)))) (\<lambda>bankDelta.
       seq (lift (to_dec14 (fromMinor (tz_cashVsObligationsMinor built) SAR))) (\<lambda>cashDelta.
       seq (create db_reconciliations db_reconciliations_update reconciliation_clash
             \<lparr> tr_id = en_uuid e 0, tr_accountType = SAFEGUARDING, tr_currency = ''SAR'', tr_asOfDate = asOfDate,
               tr_attestationId = map_option at_id attestation, tr_status = tz_status built,
               tr_bankBalance = bankBalance, tr_ledgerCashBalance = ledgerCash, tr_obligationsBalance = obligations,
               tr_bankVsCashDelta = bankDelta, tr_cashVsObligationsDelta = cashDelta,
               tr_differenceCount = length (tz_differences built), tr_canonicalJson = tz_canonical built,
               tr_snapshotHash = tz_hash built, tr_computedBy = actorUserId, tr_createdAt = en_dbNow e,
               tr_investigatedBy = None, tr_investigatedAt = None, tr_investigationNotes = None,
               tr_resolvedBy = None, tr_resolvedAt = None, tr_resolutionNotes = None,
               tr_resolutionEvidenceRef = None, tr_resolutionKind = None, tr_resolutionMatchedRunId = None \<rparr>) (\<lambda>created.
       seq (audit_guaranteed (audit_input actorUserId ''finance.treasury.reconciled'' ''system'' (Some (tr_id created))
             [(''reconciliationId'', JStr (tr_id created)), (''asOfDate'', JStr (toISOString asOfDate)),
              (''status'', JStr (tz_status built)), (''snapshotHash'', JStr (tz_hash built)),
              (''differenceCount'', JNum (of_nat (length (tz_differences built)))),
              (''bankVsCashMinor'', jint_opt (tz_bankVsCashMinor built)),
              (''cashVsObligationsMinor'', jint (tz_cashVsObligationsMinor built))])
             (''finance.treasury.reconciled:'' @ tr_id created)) (\<lambda>_.
       ret created))))))))"

definition runReconciliation ::
  "env \<Rightarrow> string \<Rightarrow> instant option \<Rightarrow> string option \<Rightarrow> (db, TreasuryReconciliation) prog"
where
  "runReconciliation e actorUserId asOfInput attestationId =
     seq (found asOfInput (BadRequest ''treasury_as_of_invalid'')) (\<lambda>asOfDate.
     seq (bank_leg asOfDate attestationId) (\<lambda>attestation.
     seq (reads (gatherMovements e)) (\<lambda>g.
     seq (pendingInternalTransfers e) (\<lambda>pending.
     run_transaction e actorUserId asOfDate attestation
       (buildTreasurySnapshot (en_sha e) (run_inputs asOfDate attestation g pending))))))"

section \<open>Reads and the lifecycle\<close>

definition integrity_ok :: "env \<Rightarrow> TreasuryReconciliation \<Rightarrow> bool" where
  "integrity_ok e r \<longleftrightarrow> hashCanonical (en_sha e) (tr_canonicalJson r) = tr_snapshotHash r"

definition load_run :: "string \<Rightarrow> (db, TreasuryReconciliation) prog" where
  "load_run i =
     seq (require (non_blank i) (BadRequest ''treasury_reconciliation_id_required'')) (\<lambda>_.
     seq (reads (\<lambda>s. find (\<lambda>r. tr_id r = i) (db_reconciliations s))) (\<lambda>read.
     found read (NotFound ''treasury_reconciliation_not_found'')))"

definition listReconciliations :: "env \<Rightarrow> string option \<Rightarrow> db \<Rightarrow> (TreasuryReconciliation \<times> bool) list" where
  "listReconciliations e status s =
     map (\<lambda>r. (r, integrity_ok e r))
       (take 200 (rev (order_by (\<lambda>r. (tr_asOfDate r, tr_createdAt r))
         (filter (\<lambda>r. \<not> truthy status \<or> Some (tr_status r) = status) (db_reconciliations s)))))"

definition getReconciliation :: "env \<Rightarrow> string \<Rightarrow> (db, TreasuryReconciliation) prog" where
  "getReconciliation e i =
     seq (load_run i) (\<lambda>row.
     seq (require (integrity_ok e row) (Conflict ''treasury_reconciliation_integrity_violation'')) (\<lambda>_.
     ret row))"

definition investigate_transaction :: "env \<Rightarrow> string \<Rightarrow> string \<Rightarrow> string \<Rightarrow> (db, unit) prog" where
  "investigate_transaction e actorUserId i remarks =
     transaction (
       seq (updateMany db_reconciliations db_reconciliations_update
             (\<lambda>r. tr_id r = i \<and> tr_status r = ''mismatched'')
             (\<lambda>r. r\<lparr> tr_status := ''investigated'', tr_investigatedBy := Some actorUserId,
                    tr_investigatedAt := Some (clk e 31), tr_investigationNotes := Some remarks \<rparr>)) (\<lambda>moved.
       seq (require (moved = 1) (Conflict ''treasury_reconciliation_contended'')) (\<lambda>_.
       audit_guaranteed (audit_input actorUserId ''finance.treasury.investigated'' ''system'' (Some i)
           [(''reconciliationId'', JStr i), (''notes'', JStr remarks)])
         (''finance.treasury.investigated:'' @ i))))"

definition investigate :: "env \<Rightarrow> string \<Rightarrow> string \<Rightarrow> string \<Rightarrow> (db, TreasuryReconciliation) prog" where
  "investigate e actorUserId i remarks =
     seq (load_run i) (\<lambda>row.
     seq (require (non_blank remarks) (BadRequest ''treasury_notes_required'')) (\<lambda>_.
     seq (require (tr_status row = ''mismatched'')
           (Conflict (''treasury_reconciliation_not_investigable:'' @ tr_status row))) (\<lambda>_.
     seq (investigate_transaction e actorUserId i (js_trim remarks)) (\<lambda>_.
     load_run i))))"

record ResolveInput =
  re_notes :: string
  re_resolutionKind :: "string option"
  re_evidenceRef :: "string option"
  re_matchedReconciliationId :: "string option"

text \<open>The structured basis of a resolution; returns the matched run it rests on.\<close>

definition resolution_basis ::
  "TreasuryReconciliation \<Rightarrow> string \<Rightarrow> string option \<Rightarrow> string option \<Rightarrow> (db, string option) prog"
where
  "resolution_basis row kind evidenceRef matchedInput =
     (if kind = ''new_evidence'' \<or> kind = ''accepted_timing''
      then seq (require (evidenceRef \<noteq> None) (BadRequest ''treasury_resolution_evidence_required'')) (\<lambda>_. ret None)
      else if kind = ''superseded_by_matched''
      then seq (found (trimmed_or_null matchedInput) (BadRequest ''treasury_resolution_matched_required'')) (\<lambda>matchedId.
           seq (reads (\<lambda>s. find (\<lambda>r. tr_id r = matchedId) (db_reconciliations s))) (\<lambda>read.
           seq (found read (Conflict ''treasury_resolution_matched_not_matched'')) (\<lambda>m.
           seq (require (tr_status m = ''matched'') (Conflict ''treasury_resolution_matched_not_matched'')) (\<lambda>_.
           seq (require (tr_asOfDate row < tr_asOfDate m) (Conflict ''treasury_resolution_matched_not_later'')) (\<lambda>_.
           seq (require (tr_accountType m = tr_accountType row \<and> tr_currency m = tr_currency row)
                 (Conflict ''treasury_resolution_matched_wrong_scope'')) (\<lambda>_.
           ret (Some (tr_id m))))))))
      else raise (BadRequest ''treasury_resolution_kind_required''))"

text \<open>The attester of the bank leg may not close the investigation.\<close>

definition attester_guard :: "string \<Rightarrow> TreasuryReconciliation \<Rightarrow> (db, unit) prog" where
  "attester_guard actorUserId row =
     (if truthy (tr_attestationId row)
      then seq (reads (\<lambda>s. find (\<lambda>a. Some (at_id a) = tr_attestationId row) (db_attestations s))) (\<lambda>attestation.
           require (\<not> (\<exists>a \<in> set_option attestation. at_recordedBy a = actorUserId)) (Conflict ''treasury_attester_cannot_resolve''))
      else ret ())"

definition resolve_transaction ::
  "env \<Rightarrow> string \<Rightarrow> string \<Rightarrow> string \<Rightarrow> string \<Rightarrow> string option \<Rightarrow> string option \<Rightarrow> (db, unit) prog"
where
  "resolve_transaction e actorUserId i remarks kind evidenceRef matchedRunId =
     transaction (
       seq (updateMany db_reconciliations db_reconciliations_update
             (\<lambda>r. tr_id r = i \<and> tr_status r = ''investigated'')
             (\<lambda>r. r\<lparr> tr_status := ''resolved'', tr_resolvedBy := Some actorUserId, tr_resolvedAt := Some (clk e 31),
                    tr_resolutionNotes := Some remarks, tr_resolutionEvidenceRef := evidenceRef,
                    tr_resolutionKind := Some kind, tr_resolutionMatchedRunId := matchedRunId \<rparr>)) (\<lambda>moved.
       seq (require (moved = 1) (Conflict ''treasury_reconciliation_contended'')) (\<lambda>_.
       audit_guaranteed (audit_input actorUserId ''finance.treasury.resolved'' ''system'' (Some i)
           [(''reconciliationId'', JStr i), (''notes'', JStr remarks), (''resolutionKind'', JStr kind),
            (''evidenceRef'', jopt evidenceRef), (''matchedReconciliationId'', jopt matchedRunId)])
         (''finance.treasury.resolved:'' @ i))))"

definition resolve :: "env \<Rightarrow> string \<Rightarrow> string \<Rightarrow> ResolveInput \<Rightarrow> (db, TreasuryReconciliation) prog" where
  "resolve e actorUserId i input =
     seq (load_run i) (\<lambda>row.
     seq (require (non_blank (re_notes input)) (BadRequest ''treasury_notes_required'')) (\<lambda>_.
     seq (require (tr_status row = ''investigated'')
           (Conflict (''treasury_reconciliation_not_resolvable:'' @ tr_status row))) (\<lambda>_.
     let kind = (case re_resolutionKind input of None \<Rightarrow> [] | Some k \<Rightarrow> js_trim k);
         evidenceRef = trimmed_or_null (re_evidenceRef input) in
     seq (resolution_basis row kind evidenceRef (re_matchedReconciliationId input)) (\<lambda>matchedRunId.
     seq (attester_guard actorUserId row) (\<lambda>_.
     seq (resolve_transaction e actorUserId i (js_trim (re_notes input)) kind evidenceRef matchedRunId) (\<lambda>_.
     load_run i))))))"

record TreasuryHealth =
  th_reconciliationZero :: bool
  th_latestRun :: "TreasuryReconciliation option"
  th_mismatchedOpen :: nat
  th_investigatedOpen :: nat
  th_pendingInternalTransfers :: "PendingInternalTransfer list"

definition health :: "env \<Rightarrow> (db, TreasuryHealth) prog" where
  "health e =
     seq (reads (\<lambda>s. first_of (rev (order_by (\<lambda>r. (tr_asOfDate r, tr_createdAt r)) (db_reconciliations s))))) (\<lambda>latest.
     seq (reads (\<lambda>s. count_where (\<lambda>r. tr_status r = ''mismatched'') (db_reconciliations s))) (\<lambda>mismatchedOpen.
     seq (reads (\<lambda>s. count_where (\<lambda>r. tr_status r = ''investigated'') (db_reconciliations s))) (\<lambda>investigatedOpen.
     seq (pendingInternalTransfers e) (\<lambda>pending.
     ret \<lparr> th_reconciliationZero = (map_option tr_status latest = Some ''matched'' \<and> mismatchedOpen = 0 \<and> investigatedOpen = 0),
           th_latestRun = latest, th_mismatchedOpen = mismatchedOpen, th_investigatedOpen = investigatedOpen,
           th_pendingInternalTransfers = pending \<rparr>))))"

end
