(* ===== verification/Treasury_Workflow.thy ===== *)
theory Treasury_Workflow
  imports Treasury Frames Assembly
begin

text \<open>
  The life of reconciliation runs under concurrency. A history is the list of database states
  so far; a step runs the writes of one handler on the current state with rows read in earlier
  states, in the order the handler reads them. What the guards buy: a run's figures never
  change, a mismatch is closed only after an investigation and on a structured basis, and never
  by the person who attested its bank balance.
\<close>

section \<open>One run\<close>

definition open_states :: "string set" where
  "open_states = {''mismatched'', ''investigated''}"

definition run_final :: "TreasuryReconciliation \<Rightarrow> bool" where
  "run_final r \<longleftrightarrow> tr_status r \<notin> open_states"

text \<open>What a run recorded, as opposed to what happens to it afterwards.\<close>

type_synonym figures = "(string \<times> string \<times> string \<times> instant \<times> string option) \<times> (dec2 option \<times> dec2 \<times> dec2 \<times> dec2 option \<times> dec2)
  \<times> (nat \<times> string \<times> string \<times> string \<times> instant)"

definition figures_of :: "TreasuryReconciliation \<Rightarrow> figures" where
  "figures_of r = ((tr_id r, tr_accountType r, tr_currency r, tr_asOfDate r, tr_attestationId r),
     (tr_bankBalance r, tr_ledgerCashBalance r, tr_obligationsBalance r, tr_bankVsCashDelta r, tr_cashVsObligationsDelta r),
     (tr_differenceCount r, tr_canonicalJson r, tr_snapshotHash r, tr_computedBy r, tr_createdAt r))"

definition run_follows :: "TreasuryReconciliation \<Rightarrow> TreasuryReconciliation \<Rightarrow> bool" where
  "run_follows r r' \<longleftrightarrow> figures_of r' = figures_of r \<and> (run_final r \<longrightarrow> r' = r)
     \<and> (tr_status r \<in> open_states \<longrightarrow> tr_status r' \<in> {''mismatched'', ''investigated'', ''resolved''})
     \<and> (tr_investigatedBy r \<noteq> None \<longrightarrow> tr_investigatedBy r' = tr_investigatedBy r)"

definition supersedes :: "TreasuryReconciliation \<Rightarrow> TreasuryReconciliation \<Rightarrow> bool" where
  "supersedes m r \<longleftrightarrow> tr_resolutionMatchedRunId r = Some (tr_id m) \<and> tr_status m = ''matched''
     \<and> tr_asOfDate r < tr_asOfDate m \<and> tr_accountType m = tr_accountType r \<and> tr_currency m = tr_currency r"

definition resolution_ok :: "db \<Rightarrow> TreasuryReconciliation \<Rightarrow> bool" where
  "resolution_ok s r \<longleftrightarrow> tr_resolvedBy r \<noteq> None
     \<and> (tr_resolutionKind r \<in> {Some ''new_evidence'', Some ''accepted_timing''} \<and> tr_resolutionEvidenceRef r \<noteq> None
        \<or> tr_resolutionKind r = Some ''superseded_by_matched'' \<and> (\<exists>m \<in> set (db_reconciliations s). supersedes m r))
     \<and> (\<forall>a \<in> set (db_attestations s). tr_attestationId r = Some (at_id a) \<longrightarrow> tr_resolvedBy r \<noteq> Some (at_recordedBy a))"

definition run_ok :: "(string \<Rightarrow> string) \<Rightarrow> db \<Rightarrow> TreasuryReconciliation \<Rightarrow> bool" where
  "run_ok sha s r \<longleftrightarrow> tr_snapshotHash r = sha (tr_canonicalJson r)
     \<and> tr_status r \<in> {''pending'', ''matched'', ''mismatched'', ''investigated'', ''resolved''}
     \<and> (tr_status r \<in> {''pending'', ''matched''} \<longleftrightarrow> tr_differenceCount r = 0)
     \<and> (tr_status r \<in> {''investigated'', ''resolved''} \<longleftrightarrow> tr_investigatedBy r \<noteq> None)
     \<and> (\<forall>k. tr_attestationId r = Some k \<longrightarrow> k \<noteq> [] \<and> k \<in> at_id ` set (db_attestations s))
     \<and> (tr_status r = ''resolved'' \<longrightarrow> resolution_ok s r)"

lemma run_follows_refl [simp]: "run_follows r r"
  by (auto simp: run_follows_def open_states_def)

lemma run_follows_trans: "run_follows r r1 \<Longrightarrow> run_follows r1 r2 \<Longrightarrow> run_follows r r2"
  by (auto simp: run_follows_def run_final_def open_states_def)

lemma figuresD: "figures_of r' = figures_of r \<Longrightarrow> tr_id r' = tr_id r \<and> tr_attestationId r' = tr_attestationId r
    \<and> tr_asOfDate r' = tr_asOfDate r \<and> tr_accountType r' = tr_accountType r \<and> tr_currency r' = tr_currency r"
  by (simp add: figures_of_def)

section \<open>The tables\<close>

definition runs_ok :: "(string \<Rightarrow> string) \<Rightarrow> db \<Rightarrow> bool" where
  "runs_ok sha s \<longleftrightarrow> distinct (map tr_id (db_reconciliations s)) \<and> distinct (map at_id (db_attestations s))
     \<and> (\<forall>a \<in> set (db_attestations s). at_id a \<noteq> []) \<and> (\<forall>r \<in> set (db_reconciliations s). run_ok sha s r)"

definition runs_persist :: "db \<Rightarrow> db \<Rightarrow> bool" where
  "runs_persist s s' \<longleftrightarrow> set (db_attestations s) \<subseteq> set (db_attestations s')
     \<and> (\<forall>r \<in> set (db_reconciliations s). \<exists>r' \<in> set (db_reconciliations s'). run_follows r r')"

definition runs_since :: "(string \<Rightarrow> string) \<Rightarrow> db \<Rightarrow> db \<Rightarrow> bool" where
  "runs_since sha s0 s \<longleftrightarrow> runs_ok sha s \<and> runs_persist s0 s"

lemma runs_persist_refl: "runs_persist s s"
  unfolding runs_persist_def using run_follows_refl by blast

lemma runs_persist_mono:
  "set (db_attestations s) \<subseteq> set (db_attestations s') \<Longrightarrow> set (db_reconciliations s) \<subseteq> set (db_reconciliations s')
     \<Longrightarrow> runs_persist s s'"
  unfolding runs_persist_def using run_follows_refl by blast

lemma runs_since_refl: "runs_ok sha s \<Longrightarrow> runs_since sha s s"
  by (simp add: runs_since_def runs_persist_refl)

lemma runs_since_trans: "runs_since sha s0 s1 \<Longrightarrow> runs_since sha s1 s2 \<Longrightarrow> runs_since sha s0 s2"
  unfolding runs_since_def runs_persist_def by (meson run_follows_trans order_trans)

lemma runs_since_same:
  assumes "runs_ok sha s" "db_reconciliations s' = db_reconciliations s" "db_attestations s' = db_attestations s"
  shows "runs_since sha s s'"
proof -
  have "runs_ok sha s'" using assms(1) unfolding runs_ok_def run_ok_def resolution_ok_def assms(2,3) .
  moreover have "runs_persist s s'" using runs_persist_refl [of s] unfolding runs_persist_def assms(2,3) .
  ultimately show ?thesis by (simp add: runs_since_def)
qed

text \<open>The row of an earlier state, as it is now.\<close>

lemma run_now:
  assumes "runs_ok sha s" "runs_persist s0 s" "r0 \<in> set (db_reconciliations s0)"
    and "r \<in> set (db_reconciliations s)" "tr_id r = tr_id r0"
  shows "run_follows r0 r"
proof -
  from assms(2,3) obtain r' where r': "r' \<in> set (db_reconciliations s)" "run_follows r0 r'"
    by (auto simp: runs_persist_def)
  have "distinct (map tr_id (db_reconciliations s))" using assms(1) by (simp add: runs_ok_def)
  moreover have "tr_id r' = tr_id r" using figuresD [of r' r0] r'(2) assms(5) by (simp add: run_follows_def)
  ultimately have "r = r'" using distinct_key_eq [OF _ assms(4) r'(1), of tr_id] by simp
  with r'(2) show ?thesis by simp
qed

text \<open>A resolution stays good when both tables persist.\<close>

lemma resolution_persists:
  assumes "resolution_ok s r" "runs_persist s s'"
    and "distinct (map at_id (db_attestations s'))" and "\<forall>k. tr_attestationId r = Some k \<longrightarrow> k \<in> at_id ` set (db_attestations s)"
  shows "resolution_ok s' r"
proof -
  have "a \<in> set (db_attestations s)" if "a \<in> set (db_attestations s')" "tr_attestationId r = Some (at_id a)" for a
  proof -
    from assms(4) that obtain a' where a': "a' \<in> set (db_attestations s)" "at_id a' = at_id a" by force
    then have "a' \<in> set (db_attestations s')" using assms(2) by (auto simp: runs_persist_def)
    from distinct_key_eq [OF assms(3) this that(1)] a' show ?thesis by simp
  qed
  moreover have "\<exists>m \<in> set (db_reconciliations s'). supersedes m r" if m: "m \<in> set (db_reconciliations s)" "supersedes m r" for m
  proof -
    from assms(2) m(1) obtain m' where "m' \<in> set (db_reconciliations s')" "run_follows m m'" by (auto simp: runs_persist_def)
    moreover have "run_final m" using m(2) by (simp add: supersedes_def run_final_def open_states_def)
    ultimately show ?thesis using m(2) by (auto simp: run_follows_def)
  qed
  ultimately show ?thesis using assms(1) unfolding resolution_ok_def by blast
qed

lemma run_ok_persists:
  assumes "run_ok sha s r" "runs_persist s s'" "distinct (map at_id (db_attestations s'))"
  shows "run_ok sha s' r"
proof -
  have refs: "\<forall>k. tr_attestationId r = Some k \<longrightarrow> k \<in> at_id ` set (db_attestations s)"
    using assms(1) by (simp add: run_ok_def)
  have "at_id ` set (db_attestations s) \<subseteq> at_id ` set (db_attestations s')"
    using assms(2) by (simp add: runs_persist_def image_mono)
  moreover have "resolution_ok s r \<Longrightarrow> resolution_ok s' r"
    by (rule resolution_persists [OF _ assms(2,3) refs])
  ultimately show ?thesis using assms(1) unfolding run_ok_def by blast
qed

text \<open>A guarded update of runs.\<close>

lemma runs_update:
  assumes inv: "runs_ok sha s" and atts: "db_attestations s' = db_attestations s"
    and rows: "db_reconciliations s' = update_where p f (db_reconciliations s)"
    and f: "\<And>r. r \<in> set (db_reconciliations s) \<Longrightarrow> run_ok sha s r \<Longrightarrow> p r \<Longrightarrow> run_follows r (f r) \<and> run_ok sha s (f r)"
  shows "runs_since sha s s'"
proof -
  have ok: "run_ok sha s r" if "r \<in> set (db_reconciliations s)" for r using inv that by (simp add: runs_ok_def)
  have persist: "runs_persist s s'"
    unfolding runs_persist_def atts
  proof (intro conjI ballI subset_refl)
    fix r assume r: "r \<in> set (db_reconciliations s)"
    then show "\<exists>r' \<in> set (db_reconciliations s'). run_follows r r'"
      unfolding rows using f [OF r ok [OF r]] run_follows_refl by (metis in_update_where)
  qed
  have dist: "distinct (map at_id (db_attestations s'))" using inv by (simp add: atts runs_ok_def)
  have "tr_id (f r) = tr_id r" if "r \<in> set (db_reconciliations s)" "p r" for r
  proof -
    have "figures_of (f r) = figures_of r" using f [OF that(1) ok [OF that(1)] that(2)] by (simp add: run_follows_def)
    then show ?thesis using figuresD by blast
  qed
  then have keys: "map tr_id (db_reconciliations s') = map tr_id (db_reconciliations s)"
    unfolding rows by (rule map_update_where)
  have "run_ok sha s' r" if "r \<in> set (db_reconciliations s')" for r
  proof (rule run_ok_persists [OF _ persist dist])
    show "run_ok sha s r" using that ok f unfolding rows in_update_where by blast
  qed
  with persist inv keys show ?thesis by (simp add: runs_since_def runs_ok_def atts)
qed

text \<open>New rows.\<close>

lemma runs_append:
  assumes inv: "runs_ok sha s" and atts: "db_attestations s' = db_attestations s"
    and rows: "db_reconciliations s' = db_reconciliations s @ [r]"
    and r: "tr_id r \<notin> tr_id ` set (db_reconciliations s)" "run_ok sha s r"
  shows "runs_since sha s s'"
proof -
  have persist: "runs_persist s s'" by (rule runs_persist_mono) (simp_all add: atts rows subset_insertI)
  have dist: "distinct (map at_id (db_attestations s'))" using inv by (simp add: atts runs_ok_def)
  have "run_ok sha s' r'" if "r' \<in> set (db_reconciliations s')" for r'
    by (rule run_ok_persists [OF _ persist dist]) (use that r(2) inv in \<open>auto simp: rows runs_ok_def\<close>)
  then show ?thesis using persist inv r(1) by (simp add: runs_since_def runs_ok_def atts rows)
qed

lemma attestations_append:
  assumes inv: "runs_ok sha s" and atts: "db_attestations s' = db_attestations s @ [a]"
    and rows: "db_reconciliations s' = db_reconciliations s"
    and a: "at_id a \<notin> at_id ` set (db_attestations s)" "at_id a \<noteq> []"
  shows "runs_since sha s s'"
proof -
  have persist: "runs_persist s s'" by (rule runs_persist_mono) (simp_all add: atts rows subset_insertI)
  have dist: "distinct (map at_id (db_attestations s'))" using inv a(1) by (simp add: atts runs_ok_def)
  have "run_ok sha s' r'" if "r' \<in> set (db_reconciliations s')" for r'
    by (rule run_ok_persists [OF _ persist dist]) (use that inv in \<open>auto simp: rows runs_ok_def\<close>)
  then show ?thesis using persist dist inv a(2) by (auto simp: runs_since_def runs_ok_def atts rows)
qed

section \<open>Histories\<close>

inductive treasury_history :: "(string \<Rightarrow> string) \<Rightarrow> db list \<Rightarrow> bool" for sha where
  opened: "db_reconciliations s = [] \<Longrightarrow> db_attestations s = [] \<Longrightarrow> treasury_history sha [s]"
| attested: "treasury_history sha (s # h) \<Longrightarrow> en_uuid e 0 \<noteq> []
    \<Longrightarrow> treasury_history sha (snd (attestation_transaction e u input balance d source ev s) # s # h)"
| ran: "treasury_history sha (s # h) \<Longrightarrow> en_sha e = sha \<Longrightarrow> s0 \<in> set (s # h)
    \<Longrightarrow> fst (bank_leg d i s0) = Inr att
    \<Longrightarrow> treasury_history sha (snd (run_transaction e u d att (buildTreasurySnapshot sha (run_inputs d att g pending)) s) # s # h)"
| investigated: "treasury_history sha (s # h)
    \<Longrightarrow> treasury_history sha (snd (investigate_transaction e u i remarks s) # s # h)"
| resolved: "treasury_history sha (s # h) \<Longrightarrow> s # h = h1 @ s1 # h2 \<Longrightarrow> s0 \<in> set (s1 # h2) \<Longrightarrow> s2 \<in> set (s # h)
    \<Longrightarrow> r \<in> set (db_reconciliations s0) \<Longrightarrow> tr_status r = ''investigated''
    \<Longrightarrow> fst (resolution_basis r kind ev m s2) = Inr matched \<Longrightarrow> fst (attester_guard u r s1) = Inr ()
    \<Longrightarrow> treasury_history sha (snd (resolve_transaction e u (tr_id r) remarks kind ev matched s) # s # h)"
| elsewhere: "treasury_history sha (s # h) \<Longrightarrow> db_reconciliations s' = db_reconciliations s
    \<Longrightarrow> db_attestations s' = db_attestations s \<Longrightarrow> treasury_history sha (s' # s # h)"

section \<open>The steps\<close>

lemma attested_since:
  assumes inv: "runs_ok sha s" and u: "en_uuid e 0 \<noteq> []"
  shows "runs_since sha s (snd (attestation_transaction e u input balance d source ev s))"
proof (cases "attestation_transaction e u input balance d source ev s")
  case (Pair x s')
  show ?thesis
  proof (cases x)
    case (Inl ex)
    with Pair have "s' = s" unfolding attestation_transaction_def by (auto dest: transaction_rollback)
    with Pair runs_since_refl [OF inv] show ?thesis by simp
  next
    case (Inr a)
    have aud: "db_attestations s2 = db_attestations s1 \<and> db_reconciliations s2 = db_reconciliations s1"
      if "audit_guaranteed i k s1 = (x, s2)" for i k x and s1 s2 :: db
      using leaves_runD [where g = "\<lambda>s. (db_attestations s, db_reconciliations s)" and r = x and m = "audit_guaranteed i k" and s = s1] that
      by (simp add: leaves_guaranteed)
    from Pair Inr have "db_attestations s' = db_attestations s @ [a] \<and> db_reconciliations s' = db_reconciliations s
        \<and> at_id a = en_uuid e 0 \<and> at_id a \<notin> at_id ` set (db_attestations s)"
      by (auto simp: attestation_transaction_def prog_iff create_def attestation_clash_def image_iff split: if_splits dest!: aud)
    then show ?thesis using u attestations_append [OF inv, of s' a] Pair by (elim conjE) (simp only: snd_conv not_False_eq_True simp_thms)
  qed
qed

lemma leaves_tables: "(\<And>f s. g (db_audit_update f s) = g s) \<Longrightarrow> leaves g (audit_guaranteed i k)"
  by (rule leaves_guaranteed)

text \<open>A transaction that is one guarded update of runs, a check and an audit.\<close>

lemma runs_guarded:
  assumes inv: "runs_ok sha s"
    and k: "\<And>n. leaves (\<lambda>s. (db_attestations s, db_reconciliations s)) (k n)"
    and f: "\<And>r. r \<in> set (db_reconciliations s) \<Longrightarrow> run_ok sha s r \<Longrightarrow> p r \<Longrightarrow> run_follows r (f r) \<and> run_ok sha s (f r)"
  shows "runs_since sha s (snd (transaction (seq (updateMany db_reconciliations db_reconciliations_update p f) k) s))"
proof -
  let ?m = "seq (updateMany db_reconciliations db_reconciliations_update p f) k"
  let ?u = "updateMany db_reconciliations db_reconciliations_update p f"
  have "(db_attestations (snd (?m s)), db_reconciliations (snd (?m s))) = (db_attestations (snd (?u s)), db_reconciliations (snd (?u s)))"
    using leaves_tail [where g = "\<lambda>s. (db_attestations s, db_reconciliations s)" and k = k and s = s, OF k] .
  then have "db_attestations (snd (?m s)) = db_attestations s" "db_reconciliations (snd (?m s)) = update_where p f (db_reconciliations s)"
    by (simp_all only: prod.inject updateMany_run snd_conv) (simp_all add: updateMany_def)
  then have "runs_since sha s (snd (?m s))" by (intro runs_update [OF inv _ _ f]) auto
  then show ?thesis using transaction_cases [of ?m s] runs_since_refl [OF inv] by (metis snd_conv)
qed

lemma investigated_since:
  assumes inv: "runs_ok sha s"
  shows "runs_since sha s (snd (investigate_transaction e u i remarks s))"
  unfolding investigate_transaction_def
proof (rule runs_guarded [OF inv])
  show "leaves (\<lambda>s. (db_attestations s, db_reconciliations s)) (seq (require (n = 1) x) (\<lambda>_. audit_guaranteed a c))" for n x a c
    by (intro leaves_intros; simp)
next
  fix r assume "run_ok sha s r" "tr_id r = i \<and> tr_status r = ''mismatched''"
  then show "run_follows r (r\<lparr> tr_status := ''investigated'', tr_investigatedBy := Some u, tr_investigatedAt := Some (clk e 31), tr_investigationNotes := Some remarks \<rparr>)
    \<and> run_ok sha s (r\<lparr> tr_status := ''investigated'', tr_investigatedBy := Some u, tr_investigatedAt := Some (clk e 31), tr_investigationNotes := Some remarks \<rparr>)"
    by (auto simp: run_follows_def run_ok_def figures_of_def run_final_def open_states_def)
qed

lemma first_of_mem: "first_of rs = Some r \<Longrightarrow> r \<in> set rs"
  by (simp add: first_of_def split: list.splits)

lemma bank_leg_mem: "fst (bank_leg d i s0) = Inr att \<Longrightarrow> att = Some a \<Longrightarrow> a \<in> set (db_attestations s0)"
  by (auto simp: bank_leg_def seq_def found_def require_def split: if_splits option.splits
      dest!: find_in_set first_of_mem)

lemma run_row:
  assumes "run_transaction e u d att (buildTreasurySnapshot sha inputs) s = (Inr r, s')" "en_sha e = sha"
  shows "db_reconciliations s' = db_reconciliations s @ [r] \<and> db_attestations s' = db_attestations s
    \<and> tr_id r \<notin> tr_id ` set (db_reconciliations s) \<and> tr_attestationId r = map_option at_id att
    \<and> tr_snapshotHash r = sha (tr_canonicalJson r) \<and> tr_investigatedBy r = None
    \<and> tr_status r = run_status inputs (differences_of inputs (legs_of inputs))
    \<and> tr_differenceCount r = length (differences_of inputs (legs_of inputs))"
proof -
  have aud: "db_attestations s2 = db_attestations s1 \<and> db_reconciliations s2 = db_reconciliations s1"
    if "audit_guaranteed i k s1 = (x, s2)" for i k x and s1 s2 :: db
    using leaves_runD [where g = "\<lambda>s. (db_attestations s, db_reconciliations s)" and r = x and m = "audit_guaranteed i k" and s = s1] that
    by (simp add: leaves_guaranteed)
  from assms show ?thesis
    by (auto simp: run_transaction_def prog_iff create_def reconciliation_clash_def image_iff buildTreasurySnapshot_def
        Let_def hashCanonical_def split: if_splits dest!: aud)
qed

lemma ran_since:
  assumes inv: "runs_ok sha s" and sha: "en_sha e = sha"
    and att: "\<And>a. att = Some a \<Longrightarrow> a \<in> set (db_attestations s)"
  shows "runs_since sha s (snd (run_transaction e u d att (buildTreasurySnapshot sha inputs) s))"
proof (cases "run_transaction e u d att (buildTreasurySnapshot sha inputs) s")
  case (Pair x s')
  show ?thesis
  proof (cases x)
    case (Inl ex)
    with Pair have "s' = s" unfolding run_transaction_def by (auto dest: transaction_rollback)
    with Pair runs_since_refl [OF inv] show ?thesis by simp
  next
    case (Inr r)
    note row = run_row [OF Pair [unfolded Inr] sha]
    have ids: "\<forall>a \<in> set (db_attestations s). at_id a \<noteq> []" using inv by (simp add: runs_ok_def)
    have "\<forall>k. tr_attestationId r = Some k \<longrightarrow> k \<noteq> [] \<and> k \<in> at_id ` set (db_attestations s)"
      using row att ids by (cases att) auto
    then have "run_ok sha s r"
      using row unfolding run_ok_def by (simp add: run_status_def)
    then have "runs_since sha s s'" by (intro runs_append [OF inv]) (simp_all add: row)
    with Pair show ?thesis by simp
  qed
qed

text \<open>What the two reads before a resolution establish.\<close>

lemma basis_ok:
  assumes "fst (resolution_basis r kind ev m s2) = Inr matched"
  shows "kind \<in> {''new_evidence'', ''accepted_timing''} \<and> ev \<noteq> None \<and> matched = None
    \<or> kind = ''superseded_by_matched'' \<and> (\<exists>m \<in> set (db_reconciliations s2). matched = Some (tr_id m) \<and> tr_status m = ''matched''
        \<and> tr_asOfDate r < tr_asOfDate m \<and> tr_accountType m = tr_accountType r \<and> tr_currency m = tr_currency r)"
  using assms by (auto simp: resolution_basis_def seq_def found_def require_def split: if_splits option.splits dest: find_in_set)

lemma guard_ok:
  assumes "fst (attester_guard u r s1) = Inr ()" "distinct (map at_id (db_attestations s1))"
    and "a \<in> set (db_attestations s1)" "tr_attestationId r = Some (at_id a)" "at_id a \<noteq> []"
  shows "at_recordedBy a \<noteq> u"
proof -
  have "find (\<lambda>a'. at_id a' = at_id a) (db_attestations s1) = Some a"
    using find_Some_iff_key [OF assms(2)] assms(3) by blast
  then show ?thesis using assms(1,4,5)
    by (simp add: attester_guard_def truthy_def seq_def require_def split: if_splits)
qed

lemma matched_persists:
  assumes "runs_persist s2 s" "m \<in> set (db_reconciliations s2)" "tr_status m = ''matched''"
  shows "m \<in> set (db_reconciliations s)"
proof -
  obtain m' where "m' \<in> set (db_reconciliations s)" "run_follows m m'" using assms(1,2) by (auto simp: runs_persist_def)
  moreover have "run_final m" using assms(3) by (simp add: run_final_def open_states_def)
  ultimately show ?thesis by (simp add: run_follows_def)
qed

text \<open>An attestation a run of an earlier state refers to was there already.\<close>

lemma attestation_then:
  assumes "runs_ok sha s0" "runs_persist s0 s1" "runs_persist s1 s" "runs_ok sha s"
    and "r \<in> set (db_reconciliations s0)" "tr_attestationId r = Some (at_id a)" "a \<in> set (db_attestations s)"
  shows "a \<in> set (db_attestations s1) \<and> at_id a \<noteq> []"
proof -
  have "run_ok sha s0 r" using assms(1,5) by (simp add: runs_ok_def)
  then have "at_id a \<noteq> []" "at_id a \<in> at_id ` set (db_attestations s0)"
    using assms(6) unfolding run_ok_def by blast+
  then obtain a' where a': "a' \<in> set (db_attestations s0)" "at_id a' = at_id a" "at_id a \<noteq> []" by (metis imageE)
  then have a1: "a' \<in> set (db_attestations s1)" using assms(2) by (auto simp: runs_persist_def)
  then have "a' \<in> set (db_attestations s)" using assms(3) by (auto simp: runs_persist_def)
  moreover have "distinct (map at_id (db_attestations s))" using assms(4) by (simp add: runs_ok_def)
  ultimately have "a' = a" using distinct_key_eq [of at_id _ a' a] assms(7) a'(2) by simp
  with a1 a'(3) show ?thesis by simp
qed

lemma resolved_since:
  assumes ok: "runs_ok sha s0" "runs_ok sha s1" "runs_ok sha s" and per: "runs_persist s0 s1" "runs_persist s1 s" "runs_persist s2 s"
    and r: "r \<in> set (db_reconciliations s0)"
    and basis: "fst (resolution_basis r kind ev m s2) = Inr matched" and guard: "fst (attester_guard u r s1) = Inr ()"
  shows "runs_since sha s (snd (resolve_transaction e u (tr_id r) remarks kind ev matched s))"
  unfolding resolve_transaction_def
proof (rule runs_guarded [OF ok(3)])
  show "leaves (\<lambda>s. (db_attestations s, db_reconciliations s)) (seq (require (n = 1) x) (\<lambda>_. audit_guaranteed a c))" for n x a c
    by (intro leaves_intros; simp)
next
  fix r' assume r': "r' \<in> set (db_reconciliations s)" "run_ok sha s r'" "tr_id r' = tr_id r \<and> tr_status r' = ''investigated''"
  define t where "t = r'\<lparr> tr_status := ''resolved'', tr_resolvedBy := Some u, tr_resolvedAt := Some (clk e 31), tr_resolutionNotes := Some remarks,
     tr_resolutionEvidenceRef := ev, tr_resolutionKind := Some kind, tr_resolutionMatchedRunId := matched \<rparr>"
  have per0: "runs_persist s0 s" using per(1,2) unfolding runs_persist_def by (meson order_trans run_follows_trans)
  have "run_follows r r'" using run_now [OF ok(3) per0 r r'(1)] r'(3) by simp
  then have same: "tr_attestationId r' = tr_attestationId r" "tr_asOfDate r' = tr_asOfDate r" "tr_accountType r' = tr_accountType r" "tr_currency r' = tr_currency r"
    using figuresD [of r' r] by (simp_all add: run_follows_def)
  have "at_recordedBy a \<noteq> u" if "a \<in> set (db_attestations s)" "tr_attestationId r' = Some (at_id a)" for a
    using guard_ok [OF guard, of a] attestation_then [OF ok(1) per(1,2) ok(3) r _ that(1)] that(2) same(1) ok(2)
    by (simp add: runs_ok_def)
  moreover have "kind \<in> {''new_evidence'', ''accepted_timing''} \<and> ev \<noteq> None
      \<or> kind = ''superseded_by_matched'' \<and> (\<exists>m \<in> set (db_reconciliations s). supersedes m t)"
    using basis_ok [OF basis]
  proof (elim disjE conjE bexE)
    fix m assume m: "m \<in> set (db_reconciliations s2)" "matched = Some (tr_id m)" "tr_status m = ''matched''"
      "tr_asOfDate r < tr_asOfDate m" "tr_accountType m = tr_accountType r" "tr_currency m = tr_currency r"
      and k: "kind = ''superseded_by_matched''"
    have "supersedes m t" using m by (simp add: supersedes_def t_def same(2-4))
    with k matched_persists [OF per(3) m(1,3)] show ?thesis by blast
  qed simp
  ultimately have "resolution_ok s t" by (auto simp: resolution_ok_def t_def)
  then have "run_ok sha s t" using r'(2,3) by (simp add: run_ok_def t_def)
  moreover have "run_follows r' t" using r'(3) by (simp add: run_follows_def t_def figures_of_def run_final_def open_states_def)
  ultimately show "run_follows r' (r'\<lparr> tr_status := ''resolved'', tr_resolvedBy := Some u, tr_resolvedAt := Some (clk e 31), tr_resolutionNotes := Some remarks,
     tr_resolutionEvidenceRef := ev, tr_resolutionKind := Some kind, tr_resolutionMatchedRunId := matched \<rparr>)
   \<and> run_ok sha s (r'\<lparr> tr_status := ''resolved'', tr_resolvedBy := Some u, tr_resolvedAt := Some (clk e 31), tr_resolutionNotes := Some remarks,
     tr_resolutionEvidenceRef := ev, tr_resolutionKind := Some kind, tr_resolutionMatchedRunId := matched \<rparr>)"
    unfolding t_def by (rule conjI [rotated])
qed

section \<open>All histories\<close>

definition runs_past :: "(string \<Rightarrow> string) \<Rightarrow> db list \<Rightarrow> bool" where
  "runs_past sha h \<longleftrightarrow> (\<forall>s \<in> set h. runs_ok sha s) \<and> sorted_wrt (\<lambda>s' s. runs_persist s s') h"

lemma runs_persist_trans: "runs_persist s0 s1 \<Longrightarrow> runs_persist s1 s2 \<Longrightarrow> runs_persist s0 s2"
  unfolding runs_persist_def by (meson order_trans run_follows_trans)

lemma runs_past_step: "runs_past sha (s # h) \<Longrightarrow> runs_since sha s s' \<Longrightarrow> runs_past sha (s' # s # h)"
  by (auto simp: runs_past_def runs_since_def intro: runs_persist_trans)

lemma runs_past_mem:
  assumes "runs_past sha (s # h)" "s0 \<in> set (s # h)"
  shows "runs_ok sha s0" "runs_persist s0 s"
  using assms runs_persist_refl by (auto simp: runs_past_def)

lemma runs_past_suffix: "runs_past sha (h1 @ h2) \<Longrightarrow> runs_past sha h2"
  by (simp add: runs_past_def sorted_wrt_append)

lemma treasury_past: "treasury_history sha h \<Longrightarrow> runs_past sha h"
proof (induction rule: treasury_history.induct)
  case (opened s)
  then show ?case by (simp add: runs_past_def runs_ok_def)
next
  case (attested s h e u input balance d source ev)
  then show ?case by (intro runs_past_step attested_since) (simp_all add: runs_past_def)
next
  case (ran s h e s0 d i att u g pending)
  note past = runs_past_mem [OF ran.IH ran(3)]
  have "a \<in> set (db_attestations s)" if "att = Some a" for a
    using bank_leg_mem [OF ran(4) that] past(2) by (auto simp: runs_persist_def)
  with runs_past_mem [OF ran.IH, of s] show ?case
    by (intro runs_past_step [OF ran.IH] ran_since ran(2)) simp_all
next
  case (investigated s h e u i remarks)
  then show ?case by (intro runs_past_step investigated_since) (simp_all add: runs_past_def)
next
  case (resolved s h h1 s1 h2 s0 s2 r kind ev m matched u e remarks)
  have "runs_past sha (s1 # h2)" using resolved.IH resolved(2) runs_past_suffix by metis
  note past = runs_past_mem [OF this resolved(3)]
  have "s1 \<in> set (s # h)" using resolved(2) by simp
  note now = runs_past_mem [OF resolved.IH this] runs_past_mem [OF resolved.IH, of s]
  show ?case
    by (rule runs_past_step [OF resolved.IH resolved_since [OF past(1) now(1) now(3) past(2) now(2)
          runs_past_mem(2) [OF resolved.IH resolved(4)] resolved(5,7,8)]]) simp
next
  case elsewhere
  then show ?case by (intro runs_past_step runs_since_same) (auto simp: runs_past_def)
qed

section \<open>Properties\<close>

text \<open>
  C7: in every history of the treasury handlers, however they interleave, a reconciliation run
  is sound: its hash reproduces from its stored bytes, it is open or was closed exactly when it
  found differences, and a resolved run was investigated, rests on named evidence or on a later
  matched run of the same account and currency, and was not resolved by whoever attested its
  bank balance. The figures of a run never change, and a run that is not open never changes at
  all.
\<close>

theorem treasury_runs_sound:
  assumes "treasury_history sha (s # h)" and "r \<in> set (db_reconciliations s)"
  shows "tr_snapshotHash r = sha (tr_canonicalJson r)
    \<and> (tr_status r \<in> {''pending'', ''matched''} \<longleftrightarrow> tr_differenceCount r = 0)
    \<and> (tr_status r \<in> {''mismatched'', ''investigated'', ''resolved''} \<longleftrightarrow> tr_differenceCount r \<noteq> 0)
    \<and> (tr_status r = ''resolved'' \<longrightarrow> tr_investigatedBy r \<noteq> None \<and> tr_resolvedBy r \<noteq> None
        \<and> (tr_resolutionKind r \<in> {Some ''new_evidence'', Some ''accepted_timing''} \<and> tr_resolutionEvidenceRef r \<noteq> None
           \<or> (\<exists>m \<in> set (db_reconciliations s). tr_resolutionMatchedRunId r = Some (tr_id m) \<and> tr_status m = ''matched''
                \<and> tr_asOfDate r < tr_asOfDate m \<and> tr_accountType m = tr_accountType r \<and> tr_currency m = tr_currency r))
        \<and> (\<forall>a \<in> set (db_attestations s). tr_attestationId r = Some (at_id a) \<longrightarrow> tr_resolvedBy r \<noteq> Some (at_recordedBy a)))
    \<and> (\<forall>s0 \<in> set (s # h). \<forall>r0 \<in> set (db_reconciliations s0). tr_id r0 = tr_id r \<longrightarrow>
         figures_of r = figures_of r0 \<and> (tr_status r0 \<in> {''pending'', ''matched'', ''resolved''} \<longrightarrow> r = r0))"
proof -
  note past = treasury_past [OF assms(1)]
  have ok: "runs_ok sha s" by (rule runs_past_mem(1) [OF past]) simp
  then have row: "run_ok sha s r" using assms(2) by (simp add: runs_ok_def)
  have same: "figures_of r = figures_of r0 \<and> (tr_status r0 \<in> {''pending'', ''matched'', ''resolved''} \<longrightarrow> r = r0)"
    if "s0 \<in> set (s # h)" "r0 \<in> set (db_reconciliations s0)" "tr_id r0 = tr_id r" for s0 r0
    using run_now [OF ok runs_past_mem(2) [OF past that(1)] that(2) assms(2)] that(3)
    by (auto simp: run_follows_def run_final_def open_states_def)
  have "tr_status r = ''resolved'' \<Longrightarrow> resolution_ok s r" using row by (simp add: run_ok_def)
  then have res: "tr_status r = ''resolved'' \<Longrightarrow> tr_resolvedBy r \<noteq> None
        \<and> (tr_resolutionKind r \<in> {Some ''new_evidence'', Some ''accepted_timing''} \<and> tr_resolutionEvidenceRef r \<noteq> None
           \<or> (\<exists>m \<in> set (db_reconciliations s). tr_resolutionMatchedRunId r = Some (tr_id m) \<and> tr_status m = ''matched''
                \<and> tr_asOfDate r < tr_asOfDate m \<and> tr_accountType m = tr_accountType r \<and> tr_currency m = tr_currency r))
        \<and> (\<forall>a \<in> set (db_attestations s). tr_attestationId r = Some (at_id a) \<longrightarrow> tr_resolvedBy r \<noteq> Some (at_recordedBy a))"
    unfolding resolution_ok_def supersedes_def by blast
  have st: "tr_status r \<in> {''mismatched'', ''investigated'', ''resolved''} \<longleftrightarrow> tr_differenceCount r \<noteq> 0"
    using row by (auto simp: run_ok_def)
  show ?thesis
    using row by (intro conjI st ballI impI same res; simp add: run_ok_def res)
qed

definition demo_attestation_input :: AttestationInput where
  "demo_attestation_input = \<lparr> ni_balance = Fin (-1), ni_asOfDate = Some 0, ni_evidenceRef = ''B1'', ni_source = None, ni_notes = None \<rparr>"

lemma demo_attested:
  "\<exists>a s. attestation_transaction (demo_env ''a1'') ''u1'' demo_attestation_input (-1) 0 ''manual_attestation'' ''B1'' demo_db = (Inr a, s)
    \<and> db_attestations s = [a] \<and> db_reconciliations s = [] \<and> at_id a = ''a1'' \<and> at_balance a = -100 \<and> at_recordedBy a = ''u1''
    \<and> at_asOfDate a = 0 \<and> snd (attestation_transaction (demo_env ''a1'') ''u1'' demo_attestation_input (-1) 0 ''manual_attestation'' ''B1'' demo_db) = s"
proof -
  have d: "to_dec14 (-1) = Inr (-100)" by code_simp
  have "non_blank (''finance.treasury.attested:'' @ ''a1'')" by code_simp
  from audit_returns [OF this] obtain f where aud: "\<And>i s. audit_guaranteed i (''finance.treasury.attested:'' @ ''a1'') s = (Inr (), s\<lparr> db_audit := f i s \<rparr>)"
    by metis
  show ?thesis
    by (simp add: attestation_transaction_def transaction_def seq_def d create_def demo_db_def demo_env_def aud [simplified])
qed

definition demo_gathered :: Gathered where
  "demo_gathered = \<lparr> gm_cashMovements = [], gm_obligationMovements = [], gm_excluded = [] \<rparr>"

lemma demo_legs:
  "legs_of (run_inputs 0 att demo_gathered []) = \<lparr> lg_cash = \<lparr> sl_included = [], sl_timing = [], sl_unresolved = [] \<rparr>,
     lg_obligations = \<lparr> sl_included = [], sl_timing = [], sl_unresolved = [] \<rparr>, lg_ledgerCash = 0, lg_obligationsMinor = 0,
     lg_due = 0, lg_completed = 0 \<rparr>"
  by (simp add: legs_of_def run_inputs_def demo_gathered_def splitByAsOf_def byDeterministicOrder_def sumMinor_def Let_def)

lemma demo_run:
  assumes "db_reconciliations s = []" "at_balance a = -100"
  shows "\<exists>r s'. run_transaction (demo_env ''t1'') ''u2'' 0 (Some a)
      (buildTreasurySnapshot (\<lambda>x. x) (run_inputs 0 (Some a) demo_gathered [])) s = (Inr r, s')
    \<and> tr_id r = ''t1'' \<and> tr_status r = ''mismatched'' \<and> db_reconciliations s' = [r] \<and> db_attestations s' = db_attestations s"
proof -
  let ?i = "run_inputs 0 (Some a) demo_gathered []"
  have m: "attested_minor a = -100" by (simp add: attested_minor_def assms(2))
  have d: "to_dec14 (fromMinor (-100) SAR) = Inr (-100)" "to_dec14 0 = Inr 0" by code_simp+
  have bank: "bankVsCash ?i (legs_of ?i) = Some (-100)"
    unfolding bankVsCash_def demo_legs by (simp add: run_inputs_def attestation_input_def m)
  have cash: "cashVsObligations (legs_of ?i) = 0"
    by (simp add: demo_legs cashVsObligations_def rawCashVsObligations_def outstanding_def)
  have "differences_of ?i (legs_of ?i) \<noteq> []" by (simp add: differences_of_def bank)
  then have st: "run_status ?i (differences_of ?i (legs_of ?i)) = ''mismatched''" by (simp add: run_status_def)
  have "non_blank (''finance.treasury.reconciled:'' @ ''t1'')" by code_simp
  from audit_returns [OF this] obtain f where aud: "\<And>i s. audit_guaranteed i (''finance.treasury.reconciled:'' @ ''t1'') s = (Inr (), s\<lparr> db_audit := f i s \<rparr>)"
    by metis
  have tz: "tz_status (buildTreasurySnapshot sha ?i) = ''mismatched''" "tz_ledgerCashMinor (buildTreasurySnapshot sha ?i) = 0"
    "tz_obligationsMinor (buildTreasurySnapshot sha ?i) = 0" "tz_bankVsCashMinor (buildTreasurySnapshot sha ?i) = Some (-100)"
    "tz_cashVsObligationsMinor (buildTreasurySnapshot sha ?i) = 0" for sha
    using bank cash st by (simp_all add: buildTreasurySnapshot_def Let_def) (simp_all add: demo_legs)
  show ?thesis
    by (simp add: run_transaction_def transaction_def seq_def dec14_opt_def d m tz create_def assms(1) demo_env_def aud [simplified])
qed

lemma resolved_history:
  "\<exists>s h r a. treasury_history (\<lambda>x. x) (s # h) \<and> db_reconciliations s = [r] \<and> tr_status r = ''resolved''
     \<and> db_attestations s = [a] \<and> tr_attestationId r = Some (at_id a) \<and> at_recordedBy a = ''u1'' \<and> tr_resolvedBy r = Some ''u3''"
proof -
  let ?e = "demo_env ''x''"
  have sha: "en_sha (demo_env k) = (\<lambda>x. x)" "en_uuid (demo_env k) n = k" for k n by (simp_all add: demo_env_def)
  have h0: "treasury_history (\<lambda>x. x) [demo_db]" by (rule opened) (simp_all add: demo_db_def)
  obtain a s1 where s1: "db_attestations s1 = [a]" "db_reconciliations s1 = []" "at_id a = ''a1''" "at_balance a = -100" "at_recordedBy a = ''u1''" "at_asOfDate a = 0"
    "snd (attestation_transaction (demo_env ''a1'') ''u1'' demo_attestation_input (-1) 0 ''manual_attestation'' ''B1'' demo_db) = s1"
    using demo_attested by blast
  have h1: "treasury_history (\<lambda>x. x) [s1, demo_db]"
    using attested [OF h0, of "demo_env ''a1''" "''u1''" demo_attestation_input "-1" 0 "''manual_attestation''" "''B1''"] s1(7) by (simp add: sha)
  obtain r s2 where r: "run_transaction (demo_env ''t1'') ''u2'' 0 (Some a) (buildTreasurySnapshot (\<lambda>x. x) (run_inputs 0 (Some a) demo_gathered [])) s1 = (Inr r, s2)"
    "tr_id r = ''t1''" "tr_status r = ''mismatched''" "db_reconciliations s2 = [r]" "db_attestations s2 = [a]"
    using demo_run [OF s1(2,4)] s1(1) by auto
  have aid: "tr_attestationId r = Some ''a1''" using run_row [OF r(1) sha(1)] s1(3) by simp
  have leg: "fst (bank_leg 0 (Some ''a1'') s1) = Inr (Some a)"
    using s1 by (simp add: bank_leg_def truthy_def seq_def)
  have h2: "treasury_history (\<lambda>x. x) [s2, s1, demo_db]"
    using ran [OF h1 sha(1) _ leg, of "''t1''" "''u2''" demo_gathered "[]"] r(1) by simp
  let ?r3 = "r\<lparr> tr_status := ''investigated'', tr_investigatedBy := Some ''u2'', tr_investigatedAt := Some 0, tr_investigationNotes := Some ''n'' \<rparr>"
  have "non_blank (''finance.treasury.investigated:'' @ ''t1'')" "non_blank (''finance.treasury.resolved:'' @ ''t1'')" by code_simp+
  from audit_returns [OF this(1)] audit_returns [OF this(2)] obtain f g where
    aud: "\<And>i s. audit_guaranteed i (''finance.treasury.investigated:'' @ ''t1'') s = (Inr (), s\<lparr> db_audit := f i s \<rparr>)"
      "\<And>i s. audit_guaranteed i (''finance.treasury.resolved:'' @ ''t1'') s = (Inr (), s\<lparr> db_audit := g i s \<rparr>)"
    by metis
  obtain s3 where s3: "snd (investigate_transaction ?e ''u2'' ''t1'' ''n'' s2) = s3" "db_reconciliations s3 = [?r3]" "db_attestations s3 = [a]"
    using r by (simp add: investigate_transaction_def transaction_def seq_def aud [simplified] count_where_def update_where_def demo_env_def)
  have h3: "treasury_history (\<lambda>x. x) [s3, s2, s1, demo_db]"
    using investigated [OF h2, of ?e "''u2''" "''t1''" "''n''"] s3(1) by simp
  have "fst (resolution_basis ?r3 ''new_evidence'' (Some ''E1'') None s3) = Inr None"
    by (simp add: resolution_basis_def seq_def)
  moreover have "fst (attester_guard ''u3'' ?r3 s3) = Inr ()"
    using s3 s1 aid by (simp add: attester_guard_def truthy_def seq_def require_def)
  ultimately have h4: "treasury_history (\<lambda>x. x) [snd (resolve_transaction ?e ''u3'' ''t1'' ''n'' ''new_evidence'' (Some ''E1'') None s3), s3, s2, s1, demo_db]"
    using resolved [OF h3, of "[]" s3 "[s2, s1, demo_db]" s3 s3 ?r3 "''new_evidence''" "Some ''E1''" None None "''u3''" ?e "''n''"] s3 r(2) by simp
  let ?s4 = "snd (resolve_transaction ?e ''u3'' ''t1'' ''n'' ''new_evidence'' (Some ''E1'') None s3)"
  let ?r4 = "?r3\<lparr> tr_status := ''resolved'', tr_resolvedBy := Some ''u3'', tr_resolvedAt := Some 0, tr_resolutionNotes := Some ''n'',
      tr_resolutionEvidenceRef := Some ''E1'', tr_resolutionKind := Some ''new_evidence'', tr_resolutionMatchedRunId := None \<rparr>"
  have s4: "db_reconciliations ?s4 = [?r4]" "db_attestations ?s4 = [a]"
    using s3 r(2) by (simp_all add: resolve_transaction_def transaction_def seq_def aud [simplified] count_where_def update_where_def demo_env_def)
  have "tr_status ?r4 = ''resolved'' \<and> tr_attestationId ?r4 = Some (at_id a) \<and> tr_resolvedBy ?r4 = Some ''u3''"
    using aid s1(3) by simp
  with h4 s4 s1(5) show ?thesis by blast
qed

lemma treasury_runs_sound_witness:
  "\<exists>s h r a. treasury_history (\<lambda>x. x) (s # h) \<and> r \<in> set (db_reconciliations s) \<and> tr_status r = ''resolved'' \<and> tr_differenceCount r \<noteq> 0
     \<and> a \<in> set (db_attestations s) \<and> tr_attestationId r = Some (at_id a) \<and> tr_resolvedBy r \<noteq> Some (at_recordedBy a)"
proof -
  obtain s h r a where w: "treasury_history (\<lambda>x. x) (s # h)" "db_reconciliations s = [r]" "tr_status r = ''resolved''"
    "db_attestations s = [a]" "tr_attestationId r = Some (at_id a)"
    using resolved_history by auto
  have mem: "r \<in> set (db_reconciliations s)" "a \<in> set (db_attestations s)" using w by simp_all
  from treasury_runs_sound [OF w(1) mem(1)] w(3,5) mem(2) have "tr_differenceCount r \<noteq> 0" "tr_resolvedBy r \<noteq> Some (at_recordedBy a)" by auto
  with w(1,3,5) mem show ?thesis by blast
qed

end
