(* ===== verification/Binding.thy ===== *)
theory Binding
  imports Statement
begin

text \<open>
  The execution binding of \<open>src/src/settlement/settlement-execution-binding.ts\<close>: the preview
  that recomputes a frozen batch and compares canonical bytes, and the gate every execution
  passes before it moves money.
\<close>

definition REPLAY_ENGINE_VERSION :: string where
  "REPLAY_ENGINE_VERSION = ''settle2-replay@v1''"

record ExecutionPreview =
  ep_settlementId :: string
  ep_settlementReference :: string
  ep_storeId :: string
  ep_currency :: string
  ep_netAmount :: rat
  ep_itemCount :: nat
  ep_calculationHash :: string
  ep_replayVerified :: bool
  ep_statementDraft :: SettlementStatement
  ep_asOf :: string

record ExecutionApproval =
  ea_settlementId :: string
  ea_settlementReference :: string
  ea_calculationHash :: string
  ea_approvedBy :: string
  ea_level :: nat
  ea_approvedAt :: string

definition IllegalExecutionBinding :: "string \<Rightarrow> exn" where
  "IllegalExecutionBinding code = IllegalBinding (''illegal_execution_binding:'' @ code)"

definition replay_item :: "FrozenCompositionEntry \<Rightarrow> SettlementItemInput" where
  "replay_item c =
     \<lparr> ii_itemId = fc_itemId c, ii_occurrenceType = fc_occurrenceType c,
       ii_occurrenceId = fc_occurrenceId c, ii_amount = fc_amount c, ii_currency = fc_currency c,
       ii_references = None \<rparr>"

text \<open>The frozen recovery line, added up as the source adds it: in floating point.\<close>

definition frozen_recovery :: "FrozenBatchRecord \<Rightarrow> rat" where
  "frozen_recovery frozen =
     fsum fl64 (map ra_amount (case fz_recoveryAllocation frozen of None \<Rightarrow> [] | Some a \<Rightarrow> a))"

definition recompute :: "FrozenBatchRecord \<Rightarrow> SettlementCalculation res" where
  "recompute frozen =
     calculateSettlement (map replay_item (fz_composition frozen))
       (no_adjustments\<lparr> adj_receivableRecovery := Some (frozen_recovery frozen) \<rparr>)"

definition buildExecutionPreview ::
  "(string \<Rightarrow> string) \<Rightarrow> FrozenBatchRecord \<Rightarrow> string \<Rightarrow> ExecutionPreview res"
where
  "buildExecutionPreview sha frozen asOf =
     bindr (recompute frozen) (\<lambda>recomputed.
     bindr (generateSettlementStatement sha frozen asOf None None) (\<lambda>draft.
     let snapshot = fz_calculationSnapshot frozen in
     Inr \<lparr> ep_settlementId = fz_settlementId frozen,
           ep_settlementReference = fz_settlementReference frozen,
           ep_storeId = fz_storeId frozen, ep_currency = fz_currency frozen,
           ep_netAmount = calc_netAmount snapshot, ep_itemCount = calc_itemCount snapshot,
           ep_calculationHash = calculationHash sha snapshot,
           ep_replayVerified =
             (canonicalJson (calculation_json recomputed) = canonicalJson (calculation_json snapshot)),
           ep_statementDraft = draft, ep_asOf = asOf \<rparr>))"

fun check_approvals ::
  "FrozenBatchRecord \<Rightarrow> string \<Rightarrow> string \<Rightarrow> ExecutionApproval list \<Rightarrow> unit res"
where
  "check_approvals frozen frozenHash executor [] = Inr ()"
| "check_approvals frozen frozenHash executor (a # as) =
     (if ea_settlementId a \<noteq> fz_settlementId frozen
         \<or> ea_settlementReference a \<noteq> fz_settlementReference frozen
      then Inl (IllegalExecutionBinding ''approval_batch_mismatch'')
      else if ea_calculationHash a \<noteq> frozenHash
      then Inl (IllegalExecutionBinding ''approval_snapshot_mismatch'')
      else if ea_approvedBy a = executor
      then Inl (IllegalExecutionBinding ''executor_cannot_approve'')
      else check_approvals frozen frozenHash executor as)"

definition assertExecutionBinding ::
  "(string \<Rightarrow> string) \<Rightarrow> FrozenBatchRecord \<Rightarrow> ExecutionPreview \<Rightarrow> ExecutionApproval list \<Rightarrow> string
    \<Rightarrow> unit res"
where
  "assertExecutionBinding sha frozen preview approvals executorUserId =
     (let frozenHash = calculationHash sha (fz_calculationSnapshot frozen) in
      if ep_settlementId preview \<noteq> fz_settlementId frozen
      then Inl (IllegalExecutionBinding ''preview_batch_mismatch'')
      else if ep_settlementReference preview \<noteq> fz_settlementReference frozen
      then Inl (IllegalExecutionBinding ''preview_reference_mismatch'')
      else if ep_calculationHash preview \<noteq> frozenHash
      then Inl (IllegalExecutionBinding ''preview_snapshot_mismatch'')
      else if \<not> ep_replayVerified preview
      then Inl (IllegalExecutionBinding ''replay_not_verified'')
      else if approvals = []
      then Inl (IllegalExecutionBinding ''approval_required'')
      else check_approvals frozen frozenHash executorUserId approvals)"

section \<open>Lemmas\<close>

lemma check_approvals_iff:
  "check_approvals frozen h executor as = Inr () \<longleftrightarrow>
     (\<forall>a \<in> set as. ea_settlementId a = fz_settlementId frozen
        \<and> ea_settlementReference a = fz_settlementReference frozen
        \<and> ea_calculationHash a = h \<and> ea_approvedBy a \<noteq> executor)"
  by (induction "as") auto

lemma generate_statement_iff:
  "generateSettlementStatement sha frozen issuedAt rem clo = Inr s \<Longrightarrow>
     (clo = None \<or> rem = None)
     \<and> ss_lines s = calc_lines (fz_calculationSnapshot frozen)
     \<and> ss_netAmount s = calc_netAmount (fz_calculationSnapshot frozen)
     \<and> ss_itemCount s = calc_itemCount (fz_calculationSnapshot frozen)
     \<and> ss_coveredOccurrences s = fz_composition frozen
     \<and> ss_calculationHash s = calculationHash sha (fz_calculationSnapshot frozen)
     \<and> ss_remittance s = rem \<and> (ss_statementVersion s = ''v2'' \<longleftrightarrow> clo \<noteq> None)"
  by (cases clo) (auto simp: generateSettlementStatement_def Let_def split: if_splits)

lemma recovery_fsum:
  assumes "\<forall>k \<in> set ks. 0 \<le> k" and "int (length ks) * sum_list ks \<le> 2 ^ 49"
  shows "to_minor (fsum fl64 (map (\<lambda>k. fromMinor k c) ks)) c = sum_list ks"
  unfolding to_minor_def fromMinor_def using b64.fsum_roundtrip [OF scaleFor_pos assms] .

lemma parts_sum_bound:
  assumes "\<forall>k \<in> set ks. 0 \<le> k" and "int (length ks) * sum_list ks \<le> 2 ^ 49"
  shows "0 \<le> sum_list ks \<and> sum_list ks \<le> (2 ^ 49 :: int)"
proof -
  have nn: "0 \<le> sum_list ks" using assms(1) by (simp add: sum_list_nonneg)
  show ?thesis
  proof (cases "ks = []")
    case False
    then have "1 * sum_list ks \<le> int (length ks) * sum_list ks"
      using nn by (intro mult_right_mono) (simp_all add: Suc_le_eq)
    with assms(2) nn show ?thesis by simp
  qed simp
qed

text \<open>What the assembly freezes: the composition and the calculation with the recovery line.\<close>

lemma recompute_frozen:
  assumes calc: "calculateSettlement items (no_adjustments\<lparr> adj_receivableRecovery := Some (fromMinor (sum_list ks) c) \<rparr>) = Inr r"
    and comp: "map replay_item (fz_composition frozen) = map (\<lambda>i. i\<lparr> ii_references := None \<rparr>) items"
    and alloc: "map ra_amount (case fz_recoveryAllocation frozen of None \<Rightarrow> [] | Some a \<Rightarrow> a) = map (\<lambda>k. fromMinor k c) ks"
    and cur: "calc_currency r = currency_str c"
    and bounds: "\<forall>k \<in> set ks. 0 \<le> k" "int (length ks) * sum_list ks \<le> 2 ^ 49"
  shows "recompute frozen = Inr r"
proof -
  from calc obtain d where ne: "items \<noteq> []" and d: "\<forall>i \<in> set items. asCurrencyCode (ii_currency i) = Inr d"
    and r: "r = settlement_calculation d (items_gross d items) (no_adjustments\<lparr> adj_receivableRecovery := Some (fromMinor (sum_list ks) c) \<rparr>) (length items)"
    unfolding calculateSettlement_iff by blast
  have dc: "d = c" using cur r currency_str_inj by (simp add: settlement_calculation_def Let_def)
  have tot: "to_minor (fromMinor (sum_list ks) c) c = sum_list ks"
    using parts_sum_bound [OF bounds] by (intro to_minor_fromMinor) simp
  have fs: "to_minor (frozen_recovery frozen) c = sum_list ks"
    unfolding frozen_recovery_def alloc by (rule recovery_fsum [OF bounds])
  have same: "settlement_calculation d g (no_adjustments\<lparr> adj_receivableRecovery := Some (frozen_recovery frozen) \<rparr>) n
    = settlement_calculation d g (no_adjustments\<lparr> adj_receivableRecovery := Some (fromMinor (sum_list ks) c) \<rparr>) n" for g n
    using tot fs dc by (simp add: settlement_calculation_def settlement_net_def adjustment_minor_def no_adjustments_def)
  have "items_gross d (map (\<lambda>i. i\<lparr> ii_references := None \<rparr>) items) = items_gross d items"
    by (simp add: items_gross_def o_def)
  then show ?thesis
    unfolding recompute_def comp calculateSettlement_iff
    using ne d r same by (intro conjI exI [of _ d]) auto
qed

text \<open>
  Outside that bound the sum drifts: next to one part of 8589934592.00 every further 0.01 is
  added as 5243 units of the grid, a little too much, and after 23000 of them the recovery line
  is one minor unit too high, so the replay of such a batch never verifies.
\<close>

lemma small_steps:
  "k \<le> 23000 \<Longrightarrow> foldl (\<lambda>t x. fl64 (t + x)) (2 ^ 33) (replicate k (fl64 (1 / 100))) = 2 ^ 33 + of_nat k * 5243 / 2 ^ 19"
proof (induction k)
  case (Suc k)
  define t :: rat where "t = 2 ^ 33 + of_nat k * 5243 / 2 ^ 19"
  have "(of_nat k :: rat) \<le> of_nat 23000" using Suc.prems by (simp only: of_nat_le_iff)
  then have k: "(0::rat) \<le> of_nat k" "(of_nat k :: rat) \<le> 23000" by simp_all
  have c: "\<bar>fl64 (1 / 100) - 1 / 100\<bar> \<le> 1 / 10 ^ 15" using fl64_error [of "1 / 100"] by simp
  have grid: "fl64 (t + fl64 (1 / 100)) = of_int (2 ^ 52 + int k * 5243 + 5243) * 2 powi (33 - 52)"
  proof (rule fl64_grid)
    have "(1 :: rat) / 10 ^ 15 \<le> 1 / 100" by simp
    then have "0 \<le> fl64 (1 / 100)" "fl64 (1 / 100) \<le> 1" using c by linarith+
    then show "2 powi 33 \<le> t + fl64 (1 / 100)" "t + fl64 (1 / 100) < 2 powi (33 + 1)"
      using k unfolding t_def by simp_all
    have eq: "(t + fl64 (1 / 100)) * 2 powi (52 - 33) - of_int (2 ^ 52 + int k * 5243 + 5243)
        = (fl64 (1 / 100) - 1 / 100) * 2 ^ 19 - 12 / 100"
      by (simp add: t_def field_simps)
    define d where "d = fl64 (1 / 100) - 1 / 100"
    have "\<bar>d * 2 ^ 19 - 12 / 100\<bar> < 1 / 2" using c unfolding d_def [symmetric] by simp
    then show "\<bar>(t + fl64 (1 / 100)) * 2 powi (52 - 33) - of_int (2 ^ 52 + int k * 5243 + 5243)\<bar> < 1 / 2"
      unfolding eq d_def .
  qed
  have "foldl (\<lambda>t x. fl64 (t + x)) (2 ^ 33) (replicate (Suc k) (fl64 (1 / 100))) = fl64 (t + fl64 (1 / 100))"
    unfolding replicate_Suc replicate_append_same [symmetric] foldl_append
    using Suc by (simp add: t_def del: replicate_append_same)
  also have "\<dots> = 2 ^ 33 + of_nat (Suc k) * 5243 / 2 ^ 19"
    unfolding grid by (simp add: power_int_minus field_simps)
  finally show ?case .
qed simp

definition drifting_parts :: "int list" where
  "drifting_parts = 858993459200 # replicate 23000 1"

lemma drifting_sum: "sum_list drifting_parts = 858993482200"
  by (simp add: drifting_parts_def sum_list_replicate)

lemma recovery_drifts: "to_minor (fsum fl64 (map (\<lambda>k. fromMinor k SAR) drifting_parts)) SAR = sum_list drifting_parts + 1"
proof -
  have "fl64 (of_int (2 ^ 33)) = of_int (2 ^ 33)" by (rule fl64_int) simp
  then have first: "fl64 8589934592 = 8589934592" by simp
  have "fsum fl64 (map (\<lambda>k. fromMinor k SAR) drifting_parts) = 2 ^ 33 + of_nat 23000 * 5243 / 2 ^ 19"
    using small_steps [of 23000] by (simp add: fsum_def drifting_parts_def fromMinor_def first)
  moreover have "js_round (fl64 ((2 ^ 33 + of_nat 23000 * 5243 / 2 ^ 19) * 100)) = 858993482201"
  proof (rule js_round_eqI)
    define q :: rat where "q = (2 ^ 33 + of_nat 23000 * 5243 / 2 ^ 19) * 100"
    have q: "858993482200 + 52 / 100 \<le> q" "q \<le> 858993482200 + 53 / 100" by (simp_all add: q_def)
    have "\<bar>q\<bar> / 2 ^ 53 \<le> 1 / 1000" using q by simp
    with fl64_error [of q] have "\<bar>fl64 q - q\<bar> \<le> 1 / 1000" by linarith
    then have "\<bar>fl64 q - 858993482201\<bar> < 1 / 2" using q unfolding abs_le_iff abs_less_iff by linarith
    then show "\<bar>fl64 ((2 ^ 33 + of_nat 23000 * 5243 / 2 ^ 19) * 100) - of_int 858993482201\<bar> < 1 / 2" by (simp add: q_def)
  qed
  ultimately show ?thesis unfolding to_minor_def drifting_sum by (simp only:) simp
qed

lemma replay_drifts:
  assumes "calculateSettlement items (no_adjustments\<lparr> adj_receivableRecovery := Some (fromMinor (sum_list drifting_parts) SAR) \<rparr>) = Inr r"
    and "map replay_item (fz_composition frozen) = map (\<lambda>i. i\<lparr> ii_references := None \<rparr>) items"
    and "map ra_amount (case fz_recoveryAllocation frozen of None \<Rightarrow> [] | Some a \<Rightarrow> a) = map (\<lambda>k. fromMinor k SAR) drifting_parts"
    and "calc_currency r = ''SAR''"
  shows "recompute frozen \<noteq> Inr r"
proof
  assume "recompute frozen = Inr r"
  then obtain d where d: "r = settlement_calculation d (items_gross d (map replay_item (fz_composition frozen)))
      (no_adjustments\<lparr> adj_receivableRecovery := Some (frozen_recovery frozen) \<rparr>) (length (map replay_item (fz_composition frozen)))"
    unfolding recompute_def calculateSettlement_iff by blast
  from assms(1) obtain e where e: "r = settlement_calculation e (items_gross e items)
      (no_adjustments\<lparr> adj_receivableRecovery := Some (fromMinor (sum_list drifting_parts) SAR) \<rparr>) (length items)"
    unfolding calculateSettlement_iff by blast
  have cur: "currency_str x = ''SAR'' \<Longrightarrow> x = SAR" for x using currency_str_inj [of x SAR] by simp
  have "d = SAR" "e = SAR" using arg_cong [OF d, of calc_currency] arg_cong [OF e, of calc_currency] assms(4) cur
    by (simp_all add: settlement_calculation_def Let_def)
  then have "fromMinor (adjustment_minor SAR (Some (frozen_recovery frozen))) SAR
      = fromMinor (adjustment_minor SAR (Some (fromMinor (sum_list drifting_parts) SAR))) SAR"
    using arg_cong [OF trans [OF sym [OF d] e], of "\<lambda>r. ln_receivableRecovery (calc_lines r)"]
    by (simp add: settlement_calculation_def Let_def)
  then have "fromMinor (sum_list drifting_parts + 1) SAR = fromMinor (sum_list drifting_parts) SAR"
    using recovery_drifts by (simp add: adjustment_minor_def frozen_recovery_def assms(3) drifting_sum)
  then show False using fromMinor_inj [of "sum_list drifting_parts + 1" "sum_list drifting_parts" SAR] by (simp add: drifting_sum)
qed

section \<open>Properties\<close>

text \<open>
  C15: the execution gate. It passes exactly when the preview names this batch, its reference
  and the frozen calculation, the preview's replay verified, there is at least one approval,
  and every approval names the same batch, reference and calculation and was not given by the
  executor.
\<close>

theorem execution_gate:
  "assertExecutionBinding sha frozen pv approvals executor = Inr () \<longleftrightarrow>
     ep_settlementId pv = fz_settlementId frozen
     \<and> ep_settlementReference pv = fz_settlementReference frozen
     \<and> ep_calculationHash pv = calculationHash sha (fz_calculationSnapshot frozen)
     \<and> ep_replayVerified pv \<and> approvals \<noteq> []
     \<and> {a. a \<in> set approvals} \<subseteq> {a. ea_settlementId a = fz_settlementId frozen
          \<and> ea_settlementReference a = fz_settlementReference frozen
          \<and> ea_calculationHash a = calculationHash sha (fz_calculationSnapshot frozen)
          \<and> ea_approvedBy a \<noteq> executor}"
  unfolding assertExecutionBinding_def Let_def
  by (auto simp: check_approvals_iff)

text \<open>
  C14: a frozen batch reproduces itself. If a batch froze the items the calculator was run on
  and a recovery allocation whose parts add up to the recovery line, and the number of parts
  times their sum is at most \<open>2 ^ 49\<close> minor units (512 parts at \<open>2 ^ 40\<close>, say), then its
  preview exists and is replay-verified and quotes the frozen hash and net, although the
  preview adds the parts up in floating point; the gate then accepts any list of approvals
  that quote that hash and were not given by the executor. Without the bound the floating-point
  sum can be off by a minor unit (\<open>replay_drifts\<close>).
\<close>

theorem frozen_batch_replays:
  assumes "calculateSettlement items (no_adjustments\<lparr> adj_receivableRecovery := Some (fromMinor (sum_list ks) c) \<rparr>) = Inr r"
    and "map replay_item (fz_composition frozen) = map (\<lambda>i. i\<lparr> ii_references := None \<rparr>) items"
    and "map ra_amount (case fz_recoveryAllocation frozen of None \<Rightarrow> [] | Some a \<Rightarrow> a) = map (\<lambda>k. fromMinor k c) ks"
    and "calc_currency r = currency_str c" and "fz_calculationSnapshot frozen = r"
    and "\<forall>k \<in> set ks. 0 \<le> k" "int (length ks) * sum_list ks \<le> 2 ^ 49"
  shows "\<exists>pv. buildExecutionPreview sha frozen asOf = Inr pv \<and> ep_replayVerified pv
    \<and> ep_netAmount pv = calc_netAmount r
    \<and> (\<forall>approvals executor. approvals \<noteq> []
         \<and> (\<forall>a \<in> set approvals. ea_settlementId a = fz_settlementId frozen
              \<and> ea_settlementReference a = fz_settlementReference frozen
              \<and> ea_calculationHash a = ep_calculationHash pv \<and> ea_approvedBy a \<noteq> executor)
         \<longrightarrow> assertExecutionBinding sha frozen pv approvals executor = Inr ())"
proof -
  have "recompute frozen = Inr r" using assms by (intro recompute_frozen)
  then obtain pv where pv: "buildExecutionPreview sha frozen asOf = Inr pv" "ep_replayVerified pv"
    "ep_netAmount pv = calc_netAmount r" "ep_settlementId pv = fz_settlementId frozen"
    "ep_settlementReference pv = fz_settlementReference frozen"
    "ep_calculationHash pv = calculationHash sha (fz_calculationSnapshot frozen)"
    using assms(5) by (simp add: buildExecutionPreview_def generateSettlementStatement_def Let_def)
  then show ?thesis
    by (intro exI [of _ pv]) (auto simp: assertExecutionBinding_def check_approvals_iff)
qed

definition sample_calculation :: SettlementCalculation where
  "sample_calculation = settlement_calculation SAR 100000 (no_adjustments\<lparr> adj_receivableRecovery := Some (fromMinor 250 SAR) \<rparr>) 1"

definition sample_frozen :: FrozenBatchRecord where
  "sample_frozen =
     \<lparr> fz_settlementId = ''b1'', fz_settlementReference = ''QS-AAAA-BBBB'', fz_storeId = ''s1'',
       fz_currency = ''SAR'', fz_windowType = ''weekly'',
       fz_composition = [\<lparr> fc_itemId = ''a'', fc_occurrenceType = ''gift'', fc_occurrenceId = ''a'',
         fc_amount = 1000, fc_currency = ''SAR'', fc_references = None \<rparr>],
       fz_calculationSnapshot = sample_calculation,
       fz_recoveryAllocation = Some [\<lparr> ra_receivableId = ''r1'', ra_occurrenceId = ''x'',
         ra_amount = fromMinor 100 SAR, ra_amountRecoveredAtPlan = 0, ra_balanceAfter = 0 \<rparr>,
         \<lparr> ra_receivableId = ''r2'', ra_occurrenceId = ''y'',
         ra_amount = fromMinor 150 SAR, ra_amountRecoveredAtPlan = 0, ra_balanceAfter = 0 \<rparr>] \<rparr>"

definition sample_frozen_items :: "SettlementItemInput list" where
  "sample_frozen_items = map replay_item (fz_composition sample_frozen)"

lemma frozen_batch_replays_witness:
  "\<exists>pv. buildExecutionPreview (\<lambda>s. s) sample_frozen ''t'' = Inr pv \<and> ep_replayVerified pv
     \<and> ep_netAmount pv = fromMinor 99750 SAR"
proof -
  have cur: "asCurrencyCode ''SAR'' = Inr SAR" by code_simp
  have g: "to_minor 1000 SAR = 100000" by code_simp
  have "calculateSettlement sample_frozen_items (no_adjustments\<lparr> adj_receivableRecovery := Some (fromMinor (sum_list [100, 150]) SAR) \<rparr>) = Inr sample_calculation"
    by (simp add: sample_frozen_items_def sample_frozen_def calculateSettlement_def replay_item_def cur g sample_calculation_def)
  from frozen_batch_replays [OF this, of sample_frozen "\<lambda>s. s" "''t''"]
  obtain pv where "buildExecutionPreview (\<lambda>s. s) sample_frozen ''t'' = Inr pv" "ep_replayVerified pv"
    "ep_netAmount pv = calc_netAmount sample_calculation"
    by (auto simp: sample_frozen_items_def sample_frozen_def replay_item_def sample_calculation_def
        settlement_calculation_def Let_def)
  moreover have "calc_netAmount sample_calculation = fromMinor 99750 SAR"
    by (simp add: sample_calculation_def settlement_calculation_def settlement_net_def adjustment_minor_def
        no_adjustments_def Let_def)
  ultimately show ?thesis by auto
qed

end
