(* ===== verification/Execution.thy ===== *)
theory Execution
  imports Engine Binding Approval
begin

text \<open>
  Two-person execution (\<open>src/src/settlement/settlement-execution.service.ts\<close>): preview,
  approval, the bank-remitted execution, the statement-only zero-net close, the idempotent
  completion tails that both share, the issued statement and its replay.
\<close>

section \<open>Common checks\<close>

definition assertGatesOpen :: "env \<Rightarrow> unit res" where
  "assertGatesOpen e = check (en_gates e = Some ''true'') (Conflict ''financial_gates_not_attested'')"

definition ttl_ms :: int where "ttl_ms = approvalTtlHours * hour_ms"

definition authorizationBasisMinor :: "FrozenBatchRecord \<Rightarrow> int res" where
  "authorizationBasisMinor frozen =
     bindr (asCurrencyCode (fz_currency frozen)) (\<lambda>currency.
     let netMinor = to_minor (calc_netAmount (fz_calculationSnapshot frozen)) currency in
     Inr (if netMinor \<noteq> 0 then netMinor
          else to_minor (ln_merchantGross (calc_lines (fz_calculationSnapshot frozen))) currency))"

datatype day_basis = ByExecutedAt | ByCreatedAt

fun basis_of :: "day_basis \<Rightarrow> SettlementRemittance \<Rightarrow> instant" where
  "basis_of ByExecutedAt r = rm_executedAt r"
| "basis_of ByCreatedAt r = rm_createdAt r"

definition dayAggregateMinor ::
  "string \<Rightarrow> string \<Rightarrow> string \<Rightarrow> instant \<Rightarrow> day_basis \<Rightarrow> db \<Rightarrow> int res"
where
  "dayAggregateMinor own storeId currency instant basis s =
     (let dayStart = utc_day_start instant; dayEnd = dayStart + day_ms;
          rows = filter (\<lambda>r. rm_storeId r = storeId \<and> rm_currency r = currency \<and> rm_settlementId r \<noteq> own
                   \<and> dayStart \<le> basis_of basis r \<and> basis_of basis r < dayEnd) (db_remittances s)
      in bindr (zeroNetClosedGrossMinor own storeId currency dayStart dayEnd s) (\<lambda>zeroNetMinor.
         bindr (asCurrencyCode currency) (\<lambda>code.
         Inr (sum_list (map (\<lambda>r. to_minor (moneyToNumber (MoneyDecimal (rm_amount r))) code) rows)
              + zeroNetMinor))))"

definition approval_rows :: "string \<Rightarrow> db \<Rightarrow> SettlementApproval list" where
  "approval_rows settlementId s =
     order_by (\<lambda>a. (sa_approvedAt a, sa_id a)) (filter (\<lambda>a. sa_settlementId a = settlementId) (db_approvals s))"

text \<open>The last row of each approver, in the order in which approvers first appear.\<close>

definition latest_by_approver :: "SettlementApproval list \<Rightarrow> SettlementApproval list" where
  "latest_by_approver rows =
     map (\<lambda>u. last (filter (\<lambda>a. sa_approvedBy a = u) rows)) (rev (remdups (rev (map sa_approvedBy rows))))"

definition to_approval :: "SettlementApproval \<Rightarrow> ExecutionApproval" where
  "to_approval a =
     \<lparr> ea_settlementId = sa_settlementId a, ea_settlementReference = sa_settlementReference a,
       ea_calculationHash = sa_calculationHash a, ea_approvedBy = sa_approvedBy a,
       ea_level = sa_requiredLevel a, ea_approvedAt = toISOString (sa_approvedAt a) \<rparr>"

definition active_approvals :: "instant \<Rightarrow> SettlementApproval list \<Rightarrow> ExecutionApproval list" where
  "active_approvals nowMs rows =
     map to_approval (filter (\<lambda>a. nowMs - sa_approvedAt a \<le> ttl_ms) (latest_by_approver rows))"

definition fresh_preview_act :: "instant \<Rightarrow> string \<Rightarrow> string \<Rightarrow> db \<Rightarrow> bool" where
  "fresh_preview_act nowMs settlementId hash s \<longleftrightarrow>
     (\<exists>p \<in> set (db_previews s). sp_settlementId p = settlementId \<and> sp_calculationHash p = hash
        \<and> nowMs - sp_previewedAt p \<le> ttl_ms)"

text \<open>An empty list of approvals is reported as expired when the batch has any approval row.\<close>

definition gate_binding ::
  "(string \<Rightarrow> string) \<Rightarrow> FrozenBatchRecord \<Rightarrow> ExecutionPreview \<Rightarrow> ExecutionApproval list
    \<Rightarrow> SettlementApproval list \<Rightarrow> string \<Rightarrow> unit res"
where
  "gate_binding sha frozen preview approvals rows actorUserId =
     (case assertExecutionBinding sha frozen preview approvals actorUserId of
        Inr u \<Rightarrow> Inr u
      | Inl ex \<Rightarrow>
          if ex = IllegalExecutionBinding ''approval_required'' \<and> rows \<noteq> []
          then Inl (Conflict ''settlement_approval_expired'') else Inl ex)"

fun split_comma :: "string \<Rightarrow> string list" where
  "split_comma [] = [[]]"
| "split_comma (c # cs) =
     (if c = CHR '','' then [] # split_comma cs
      else case split_comma cs of [] \<Rightarrow> [[c]] | w # ws \<Rightarrow> (c # w) # ws)"

definition senior_list :: "env \<Rightarrow> string list" where
  "senior_list e =
     filter (\<lambda>s. s \<noteq> []) (map js_trim (split_comma (case en_seniors e of None \<Rightarrow> [] | Some s \<Rightarrow> s)))"

definition approvals_suffice :: "env \<Rightarrow> ExecutionApprovalRequirement \<Rightarrow> ExecutionApproval list \<Rightarrow> unit res" where
  "approvals_suffice e requirement approvals =
     bindr (check (rq_approvalsNeeded requirement \<le> length approvals) (Conflict ''insufficient_approvals'')) (\<lambda>_.
     check (rq_seniorRequired requirement \<longrightarrow> (\<exists>a \<in> set approvals. ea_approvedBy a \<in> set (senior_list e)))
       (Conflict ''senior_approval_required''))"

text \<open>Every frozen member must still be in the batch and ready.\<close>

definition undrifted :: "FrozenBatchRecord \<Rightarrow> SettlementItem list \<Rightarrow> bool" where
  "undrifted frozen items \<longleftrightarrow>
     (\<forall>c \<in> set (fz_composition frozen).
        (case find (\<lambda>i. si_id i = fc_itemId c) (rev items) of None \<Rightarrow> False | Some i \<Rightarrow> si_state i = I_ready))"

section \<open>Preview\<close>

definition preview :: "env \<Rightarrow> string \<Rightarrow> string \<Rightarrow> (db, ExecutionPreview) prog" where
  "preview e actorUserId batchId =
     seq (frozenRecord batchId) (\<lambda>view.
     seq (require (fv_status view = B_ready)
           (BadRequest (''preview_requires_ready:'' @ batch_state_name (fv_status view)))) (\<lambda>_.
     seq (lift (buildExecutionPreview (en_sha e) (fv_frozen view) (toISOString (clk e 0)))) (\<lambda>pv.
     seq (transaction (
       seq (create db_previews db_previews_update (\<lambda>p p'. sp_id p' = sp_id p)
             \<lparr> sp_id = en_uuid e 0, sp_settlementId = fz_settlementId (fv_frozen view),
               sp_settlementReference = fz_settlementReference (fv_frozen view),
               sp_calculationHash = ep_calculationHash pv, sp_replayVerified = ep_replayVerified pv,
               sp_previewedBy = actorUserId, sp_previewedAt = clk e 1 \<rparr>) (\<lambda>act.
       audit_guaranteed (audit_input actorUserId ''settlement.execution.previewed'' ''store''
           (Some (fz_storeId (fv_frozen view)))
           [(''settlementId'', JStr (fz_settlementId (fv_frozen view))),
            (''settlementReference'', JStr (fz_settlementReference (fv_frozen view))),
            (''calculationHash'', JStr (ep_calculationHash pv)),
            (''replayVerified'', JBool (ep_replayVerified pv)),
            (''itemCount'', JNum (of_nat (ep_itemCount pv)))])
           (''settlement.execution.previewed:'' @ sp_id act)))) (\<lambda>_.
     ret pv))))"

section \<open>Approval\<close>

fun band_name :: "ExecutionBand \<Rightarrow> string" where
  "band_name Le_t1 = ''le_t1''" | "band_name T1_t2 = ''t1_t2''" | "band_name Gt_t2 = ''gt_t2''"

definition approval_clash :: "SettlementApproval \<Rightarrow> SettlementApproval \<Rightarrow> bool" where
  "approval_clash a a' \<longleftrightarrow> sa_id a' = sa_id a
     \<or> sa_settlementId a' = sa_settlementId a \<and> sa_approvedBy a' = sa_approvedBy a
       \<and> sa_approvedAt a' = sa_approvedAt a"

definition approve ::
  "env \<Rightarrow> string \<Rightarrow> string \<Rightarrow> string \<Rightarrow> string option
    \<Rightarrow> (db, SettlementApproval \<times> ExecutionApprovalRequirement) prog"
where
  "approve e actorUserId batchId quotedHash note =
     seq (frozenRecord batchId) (\<lambda>view.
     let frozen = fv_frozen view in
     seq (require (fv_status view = B_ready)
           (BadRequest (''approval_requires_ready:'' @ batch_state_name (fv_status view)))) (\<lambda>_.
     seq (require (truthy (fv_assembledBy view)) (Conflict ''batch_proposer_unknown'')) (\<lambda>_.
     seq (require (Some actorUserId \<noteq> fv_assembledBy view) (Conflict ''approver_cannot_be_proposer'')) (\<lambda>_.
     let frozenHash = calculationHash (en_sha e) (fz_calculationSnapshot frozen) in
     seq (require (quotedHash = frozenHash) (Conflict ''approval_snapshot_stale'')) (\<lambda>_.
     seq (reads (\<lambda>s. filter (\<lambda>a. sa_settlementId a = fz_settlementId frozen \<and> sa_approvedBy a = actorUserId)
                       (db_approvals s))) (\<lambda>mine.
     seq (require (\<not> (\<exists>r \<in> set mine. clk e 0 - sa_approvedAt r \<le> ttl_ms)) (Conflict ''already_approved_by_user'')) (\<lambda>_.
     seq (lift (authorizationBasisMinor frozen)) (\<lambda>basis.
     seq (reads (dayAggregateMinor (fz_settlementId frozen) (fz_storeId frozen) (fz_currency frozen) (clk e 1) ByCreatedAt)) (\<lambda>agg.
     seq (lift agg) (\<lambda>aggregate.
     let requirement = requiredExecutionApproval basis aggregate in
     seq (attempt (transaction (
       seq (create db_approvals db_approvals_update approval_clash
             \<lparr> sa_id = en_uuid e 0, sa_settlementId = fz_settlementId frozen,
               sa_settlementReference = fz_settlementReference frozen, sa_calculationHash = frozenHash,
               sa_requiredLevel = rq_level requirement, sa_approvedBy = actorUserId,
               sa_approvedAt = clk e 2, sa_note = trimmed_or_null note \<rparr>) (\<lambda>vote.
       seq (audit_guaranteed (audit_input actorUserId ''settlement.execution.approved'' ''store''
           (Some (fz_storeId frozen))
           [(''settlementId'', JStr (fz_settlementId frozen)),
            (''settlementReference'', JStr (fz_settlementReference frozen)),
            (''calculationHash'', JStr frozenHash),
            (''requiredLevel'', JNum (of_nat (rq_level requirement))),
            (''band'', JStr (band_name (rq_aggregateBand requirement))),
            (''policyVersion'', JStr (rq_policyVersion requirement))])
           (''settlement.execution.approved:'' @ sa_id vote)) (\<lambda>_.
       ret vote))))
       (\<lambda>ex. case ex of P2002 c \<Rightarrow> raise (Conflict ''already_approved_by_user'') | _ \<Rightarrow> raise ex)) (\<lambda>approval.
     ret (approval, requirement))))))))))))"

section \<open>Statements\<close>

definition create_statement :: "SettlementStatementRecord \<Rightarrow> (db, SettlementStatementRecord option) prog" where
  "create_statement r =
     attempt
       (seq (create db_statements db_statements_update (\<lambda>x y. st_settlementId y = st_settlementId x) r) (\<lambda>c.
        ret (Some c)))
       (\<lambda>ex. case ex of
               P2002 c \<Rightarrow> reads (\<lambda>s. find (\<lambda>x. st_settlementId x = st_settlementId r) (db_statements s))
             | _ \<Rightarrow> raise ex)"

definition statement_record ::
  "env \<Rightarrow> FrozenBatchRecord \<Rightarrow> SettlementStatement \<Rightarrow> instant \<Rightarrow> SettlementStatementRecord"
where
  "statement_record e frozen statement issuedAt =
     (let canonical = canonicalJson (statement_json statement) in
      \<lparr> st_settlementId = fz_settlementId frozen, st_settlementReference = fz_settlementReference frozen,
        st_storeId = fz_storeId frozen, st_statementVersion = ss_statementVersion statement,
        st_payload = statement, st_canonicalJson = canonical,
        st_statementHash = hashCanonical (en_sha e) canonical, st_issuedAt = issuedAt \<rparr>)"

definition remittance_evidence :: "SettlementRemittance \<Rightarrow> RemittanceEvidence" where
  "remittance_evidence r =
     \<lparr> rv_remittanceId = rm_id r, rv_bankTransferReference = rm_bankTransferReference r,
       rv_executedAt = toISOString (rm_executedAt r),
       rv_amount = moneyToNumber (MoneyDecimal (rm_amount r)) \<rparr>"

definition ensureStatement ::
  "env \<Rightarrow> FrozenBatchRecord \<Rightarrow> SettlementRemittance \<Rightarrow> (db, SettlementStatementRecord option) prog"
where
  "ensureStatement e frozen remittance =
     (let issuedAt = clk e 20 in
      seq (lift (generateSettlementStatement (en_sha e) frozen (toISOString issuedAt)
                   (Some (remittance_evidence remittance)) None)) (\<lambda>statement.
      create_statement (statement_record e frozen statement issuedAt)))"

definition ensureStatementZeroNet ::
  "env \<Rightarrow> FrozenBatchRecord \<Rightarrow> instant \<Rightarrow> (db, SettlementStatementRecord option) prog"
where
  "ensureStatementZeroNet e frozen closedAt =
     (let issuedAt = clk e 20;
          closure = \<lparr> cf_closedAt = toISOString closedAt, cf_issuedUnderReplayEngine = REPLAY_ENGINE_VERSION \<rparr> in
      seq (lift (generateSettlementStatement (en_sha e) frozen (toISOString issuedAt) None (Some closure))) (\<lambda>statement.
      create_statement (statement_record e frozen statement issuedAt)))"

definition attach_one :: "env \<Rightarrow> string \<Rightarrow> FrozenBatchRecord \<Rightarrow> RecoveryAllocation \<Rightarrow> (db, unit) prog" where
  "attach_one e actorUserId frozen alloc =
     seq (reads (\<lambda>s. find (\<lambda>n. nf_refundId (cn_facts n) = ra_occurrenceId alloc) (db_creditNotes s))) (\<lambda>read.
     case read of
       None \<Rightarrow> ret ()
     | Some note \<Rightarrow>
         if nf_statementSettlementId (cn_facts note) \<noteq> None then ret ()
         else
         let facts = (cn_facts note)\<lparr> nf_statementSettlementId := Some (fz_settlementId frozen) \<rparr>;
             canonical = creditNoteCanonical facts;
             documentHash = creditNoteHash (en_sha e) facts in
         seq (updateMany db_creditNotes db_creditNotes_update
               (\<lambda>n. nf_refundId (cn_facts n) = ra_occurrenceId alloc
                    \<and> nf_statementSettlementId (cn_facts n) = None)
               (\<lambda>n. n\<lparr> cn_facts := (cn_facts n)\<lparr> nf_statementSettlementId := Some (fz_settlementId frozen) \<rparr>,
                       cn_canonicalJson := canonical, cn_documentHash := documentHash,
                       cn_currentVersion := cn_currentVersion note + 1 \<rparr>)) (\<lambda>attached.
         if attached = 1
         then
           seq (create db_creditNoteVersions db_creditNoteVersions_update
                 (\<lambda>v v'. cv_creditNoteId v' = cv_creditNoteId v \<and> cv_versionNumber v' = cv_versionNumber v)
                 \<lparr> cv_creditNoteId = cn_id note, cv_versionNumber = cn_currentVersion note + 1,
                   cv_changeReason = ''statement_attached'', cv_canonicalJson = canonical,
                   cv_documentHash = documentHash,
                   cv_statementSettlementId = Some (fz_settlementId frozen), cv_createdBy = actorUserId \<rparr>) (\<lambda>_.
           audit_guaranteed (audit_input actorUserId ''settlement.credit_note.statement_attached'' ''store''
               (Some (fz_storeId frozen))
               [(''creditNoteReference'', JStr (nf_referenceNumber (cn_facts note))),
                (''refundId'', JStr (nf_refundId (cn_facts note))),
                (''settlementId'', JStr (fz_settlementId frozen)),
                (''settlementReference'', JStr (fz_settlementReference frozen)),
                (''documentVersion'', JStr ''v1'')])
               (''settlement.credit_note.statement_attached:'' @ nf_refundId (cn_facts note)))
         else ret ()))"

definition attachStatementToCreditNotes :: "env \<Rightarrow> string \<Rightarrow> FrozenBatchRecord \<Rightarrow> (db, unit) prog" where
  "attachStatementToCreditNotes e actorUserId frozen =
     each (attach_one e actorUserId frozen)
       (case fz_recoveryAllocation frozen of None \<Rightarrow> [] | Some a \<Rightarrow> a)"

section \<open>Completion tails\<close>

record ChainTrail =
  ct_healed :: bool
  ct_proposer :: "string option"
  ct_approvedBy :: "string list option"
  ct_requirement :: "ExecutionApprovalRequirement option"

definition trail_fields :: "ChainTrail \<Rightarrow> SettlementStatementRecord option \<Rightarrow> (string \<times> json) list" where
  "trail_fields trail st =
     [(''proposer'', jopt (ct_proposer trail))]
     @ (case ct_approvedBy trail of None \<Rightarrow> [] | Some us \<Rightarrow> [(''approvedBy'', JArr (map JStr us))])
     @ (case ct_requirement trail of None \<Rightarrow> []
        | Some r \<Rightarrow> [(''requiredLevel'', JNum (of_nat (rq_level r))), (''policyVersion'', JStr (rq_policyVersion r))])
     @ [(''statementHash'', case st of None \<Rightarrow> JUndef | Some r \<Rightarrow> JStr (st_statementHash r))]"

record ExecutionResult =
  er_settlementReference :: string
  er_remittance :: "SettlementRemittance option"
  er_statement :: "SettlementStatementRecord option"

definition completeChain ::
  "env \<Rightarrow> string \<Rightarrow> FrozenBatchRecord \<Rightarrow> SettlementRemittance \<Rightarrow> ChainTrail \<Rightarrow> (db, ExecutionResult) prog"
where
  "completeChain e actorUserId frozen remittance trail =
     seq (ledger_record ((ledger_base MERCHANT_REMITTANCE_PAID ''MERCHANT_REMITTANCE'' actorUserId
            (Fin (moneyToNumber (MoneyDecimal (rm_amount remittance)))) (fz_currency frozen) ''credit'')
            \<lparr> li_counterpartyType := Some ''merchant'', li_storeId := Some (fz_storeId frozen),
              li_idempotencyKey := Some (ledgerIdempotencyKey MERCHANT_REMITTANCE_PAID (rm_id remittance)),
              li_metadata := Some (JObj
                [(''settlementId'', JStr (fz_settlementId frozen)),
                 (''settlementReference'', JStr (fz_settlementReference frozen)),
                 (''bankTransferReference'', JStr (rm_bankTransferReference remittance)),
                 (''account'', JStr ''safeguarding'')]) \<rparr>)) (\<lambda>_.
     seq (ensureStatement e frozen remittance) (\<lambda>st.
     seq (attachStatementToCreditNotes e actorUserId frozen) (\<lambda>_.
     seq (audit_guaranteed (audit_input actorUserId
            (if ct_healed trail then ''settlement.execution.healed'' else ''settlement.batch.executed'')
            ''store'' (Some (fz_storeId frozen))
            ([(''settlementId'', JStr (fz_settlementId frozen)),
              (''settlementReference'', JStr (fz_settlementReference frozen)),
              (''remittanceId'', JStr (rm_id remittance)),
              (''bankTransferReference'', JStr (rm_bankTransferReference remittance)),
              (''amount'', JNum (moneyToNumber (MoneyDecimal (rm_amount remittance)))),
              (''currency'', JStr (fz_currency frozen)), (''executedBy'', JStr actorUserId)]
             @ trail_fields trail st))
            (''settlement.execution.completed:'' @ fz_settlementId frozen)) (\<lambda>_.
     ret \<lparr> er_settlementReference = fz_settlementReference frozen, er_remittance = Some remittance,
           er_statement = st \<rparr>))))"

definition completeChainZeroNet ::
  "env \<Rightarrow> string \<Rightarrow> FrozenBatchRecord \<Rightarrow> instant \<Rightarrow> ChainTrail \<Rightarrow> (db, ExecutionResult) prog"
where
  "completeChainZeroNet e actorUserId frozen closedAt trail =
     seq (ensureStatementZeroNet e frozen closedAt) (\<lambda>st.
     seq (attachStatementToCreditNotes e actorUserId frozen) (\<lambda>_.
     seq (audit_guaranteed (audit_input actorUserId
            (if ct_healed trail then ''settlement.zero_net_close.healed''
             else ''settlement.batch.closed_zero_net_statement'')
            ''store'' (Some (fz_storeId frozen))
            ([(''settlementId'', JStr (fz_settlementId frozen)),
              (''settlementReference'', JStr (fz_settlementReference frozen)),
              (''closureType'', JStr zero_net_type), (''noTransfer'', JBool True),
              (''netAmount'', JNum (calc_netAmount (fz_calculationSnapshot frozen))),
              (''currency'', JStr (fz_currency frozen)), (''closedBy'', JStr actorUserId)]
             @ trail_fields trail st))
            (''settlement.zero_net_statement:'' @ fz_settlementId frozen)) (\<lambda>_.
     ret \<lparr> er_settlementReference = fz_settlementReference frozen, er_remittance = None,
           er_statement = st \<rparr>)))"

section \<open>Execution\<close>

definition assertRemittanceIdentity ::
  "SettlementRemittance \<Rightarrow> string \<Rightarrow> instant \<Rightarrow> int \<Rightarrow> CurrencyCode \<Rightarrow> unit res"
where
  "assertRemittanceIdentity remittance bankTransferReference executedAt netMinor currency =
     check (rm_bankTransferReference remittance = bankTransferReference
            \<and> rm_executedAt remittance = executedAt
            \<and> to_minor (moneyToNumber (MoneyDecimal (rm_amount remittance))) currency = netMinor)
       (Conflict ''remittance_conflict'')"

text \<open>The gates between the preview and the money, in the order of \<open>execute\<close>.\<close>

definition authorize_execution ::
  "env \<Rightarrow> string \<Rightarrow> FrozenBatchRecord \<Rightarrow> string \<Rightarrow> instant \<Rightarrow> db
    \<Rightarrow> (ExecutionApproval list \<times> ExecutionApprovalRequirement) res"
where
  "authorize_execution e actorUserId frozen previewHash executedAt s =
     (let nowMs = clk e 0 in
      bindr (check (\<not> (nowMs - executedAt > executedAtMaxAgeHours * hour_ms
                       \<or> executedAt - nowMs > executedAtMaxSkewHours * hour_ms))
              (BadRequest ''remittance_executed_at_out_of_window'')) (\<lambda>_.
      bindr (buildExecutionPreview (en_sha e) frozen (toISOString (clk e 1))) (\<lambda>pv.
      bindr (check (previewHash = ep_calculationHash pv) (Conflict ''preview_hash_mismatch'')) (\<lambda>_.
      bindr (check (fresh_preview_act nowMs (fz_settlementId frozen) (ep_calculationHash pv) s)
              (Conflict ''preview_act_required'')) (\<lambda>_.
      let rows = approval_rows (fz_settlementId frozen) s;
          approvals = active_approvals nowMs rows in
      bindr (gate_binding (en_sha e) frozen pv approvals rows actorUserId) (\<lambda>_.
      bindr (dayAggregateMinor (fz_settlementId frozen) (fz_storeId frozen) (fz_currency frozen)
               executedAt ByExecutedAt s) (\<lambda>aggValueDay.
      bindr (dayAggregateMinor (fz_settlementId frozen) (fz_storeId frozen) (fz_currency frozen)
               (clk e 2) ByCreatedAt s) (\<lambda>aggRecordingDay.
      bindr (authorizationBasisMinor frozen) (\<lambda>basis.
      let requirement = requiredExecutionApproval basis (max aggValueDay aggRecordingDay) in
      bindr (approvals_suffice e requirement approvals) (\<lambda>_.
      Inr (approvals, requirement)))))))))))"

record ExecuteInput =
  xi_previewHash :: string
  xi_bankTransferReference :: string
  xi_executedAt :: "instant option"

text \<open>\<open>xi_executedAt\<close> is the parsed date, \<open>None\<close> for an invalid one.\<close>

definition execute :: "env \<Rightarrow> string \<Rightarrow> string \<Rightarrow> ExecuteInput \<Rightarrow> (db, ExecutionResult) prog" where
  "execute e actorUserId batchId input =
     seq (lift (assertGatesOpen e)) (\<lambda>_.
     let bankTransferReference = js_trim (xi_bankTransferReference input) in
     seq (require (bankTransferReference \<noteq> []) (BadRequest ''remittance_bank_reference_required'')) (\<lambda>_.
     seq (found (xi_executedAt input) (BadRequest ''remittance_executed_at_invalid'')) (\<lambda>executedAt.
     seq (frozenRecord batchId) (\<lambda>view.
     let frozen = fv_frozen view in
     seq (require (fv_status view = B_ready \<or> fv_status view = B_settled)
           (BadRequest (''execution_requires_ready:'' @ batch_state_name (fv_status view)))) (\<lambda>_.
     seq (lift (asCurrencyCode (fz_currency frozen))) (\<lambda>currency.
     let netMinor = to_minor (calc_netAmount (fz_calculationSnapshot frozen)) currency in
     seq (require (netMinor \<noteq> 0) (BadRequest ''execution_use_zero_net_close'')) (\<lambda>_.
     seq (require (\<not> netMinor < 0) (BadRequest ''execution_requires_positive_net'')) (\<lambda>_.
     if fv_status view = B_settled
     then
       seq (reads (\<lambda>s. find (\<lambda>r. rm_settlementId r = fz_settlementId frozen) (db_remittances s))) (\<lambda>read.
       seq (found read (Conflict ''settled_without_remittance'')) (\<lambda>remittance.
       seq (lift (assertRemittanceIdentity remittance bankTransferReference executedAt netMinor currency)) (\<lambda>_.
       completeChain e actorUserId frozen remittance
         \<lparr> ct_healed = True, ct_proposer = fv_assembledBy view, ct_approvedBy = None, ct_requirement = None \<rparr>)))
     else
       seq (reads (authorize_execution e actorUserId frozen (xi_previewHash input) executedAt)) (\<lambda>authorized.
       seq (lift authorized) (\<lambda>(approvals, requirement).
       seq (batchItems batchId) (\<lambda>items.
       seq (require (undrifted frozen items) (Conflict ''batch_drifted'')) (\<lambda>_.
       seq (markSettled e actorUserId batchId
             \<lparr> ev_bankTransferReference = bankTransferReference, ev_executedAt = executedAt,
               ev_executedBy = actorUserId \<rparr>) (\<lambda>settled.
       seq (lift (if sd_replayed settled
                  then assertRemittanceIdentity (sd_remittance settled) bankTransferReference executedAt netMinor currency
                  else Inr ())) (\<lambda>_.
       completeChain e actorUserId frozen (sd_remittance settled)
         \<lparr> ct_healed = False, ct_proposer = fv_assembledBy view,
           ct_approvedBy = Some (map ea_approvedBy approvals), ct_requirement = Some requirement \<rparr>))))))))))))))"

section \<open>The zero-net close\<close>

definition authorize_zero_net ::
  "env \<Rightarrow> string \<Rightarrow> FrozenBatchRecord \<Rightarrow> string \<Rightarrow> db
    \<Rightarrow> (ExecutionApproval list \<times> ExecutionApprovalRequirement) res"
where
  "authorize_zero_net e actorUserId frozen previewHash s =
     bindr (buildExecutionPreview (en_sha e) frozen (toISOString (clk e 0))) (\<lambda>pv.
     bindr (check (previewHash = ep_calculationHash pv) (Conflict ''preview_hash_mismatch'')) (\<lambda>_.
     let nowMs = clk e 1 in
     bindr (check (fresh_preview_act nowMs (fz_settlementId frozen) (ep_calculationHash pv) s)
             (Conflict ''preview_act_required'')) (\<lambda>_.
     let rows = approval_rows (fz_settlementId frozen) s;
         approvals = active_approvals nowMs rows in
     bindr (gate_binding (en_sha e) frozen pv approvals rows actorUserId) (\<lambda>_.
     bindr (dayAggregateMinor (fz_settlementId frozen) (fz_storeId frozen) (fz_currency frozen)
              (clk e 2) ByCreatedAt s) (\<lambda>agg.
     bindr (authorizationBasisMinor frozen) (\<lambda>basis.
     let requirement = requiredExecutionApproval basis agg in
     bindr (approvals_suffice e requirement approvals) (\<lambda>_.
     Inr (approvals, requirement))))))))"

definition closeZeroNet :: "env \<Rightarrow> string \<Rightarrow> string \<Rightarrow> string \<Rightarrow> (db, ExecutionResult) prog" where
  "closeZeroNet e actorUserId batchId previewHash =
     seq (lift (assertGatesOpen e)) (\<lambda>_.
     seq (frozenRecord batchId) (\<lambda>view.
     let frozen = fv_frozen view in
     seq (lift (asCurrencyCode (fz_currency frozen))) (\<lambda>currency.
     let netMinor = to_minor (calc_netAmount (fz_calculationSnapshot frozen)) currency in
     if fv_status view = B_settled
     then
       (case (fv_closureType view = Some zero_net_type, fv_closedAt view) of
          (True, Some closedAt) \<Rightarrow>
            completeChainZeroNet e actorUserId frozen closedAt
              \<lparr> ct_healed = True, ct_proposer = fv_assembledBy view, ct_approvedBy = None, ct_requirement = None \<rparr>
        | _ \<Rightarrow> raise (Conflict ''settlement_already_remitted''))
     else
       seq (require (fv_status view = B_ready)
             (BadRequest (''execution_requires_ready:'' @ batch_state_name (fv_status view)))) (\<lambda>_.
       seq (require (netMinor = 0) (Conflict ''zero_net_close_requires_exact_zero'')) (\<lambda>_.
       seq (reads (authorize_zero_net e actorUserId frozen previewHash)) (\<lambda>authorized.
       seq (lift authorized) (\<lambda>(approvals, requirement).
       seq (batchItems batchId) (\<lambda>items.
       seq (require (undrifted frozen items) (Conflict ''batch_drifted'')) (\<lambda>_.
       seq (markSettledZeroNet e actorUserId batchId) (\<lambda>(batch, replayed).
       seq (found (sb_closedAt batch) (Conflict ''zero_net_close_state_missing'')) (\<lambda>stampedClosedAt.
       completeChainZeroNet e actorUserId frozen stampedClosedAt
         \<lparr> ct_healed = False, ct_proposer = fv_assembledBy view,
           ct_approvedBy = Some (map ea_approvedBy approvals), ct_requirement = Some requirement \<rparr>)))))))))))"

section \<open>The issued statement and its replay\<close>

definition statementIntegrityOk :: "env \<Rightarrow> SettlementStatementRecord \<Rightarrow> bool" where
  "statementIntegrityOk e r \<longleftrightarrow>
     hashCanonical (en_sha e) (st_canonicalJson r) = st_statementHash r
     \<and> canonicalJson (statement_json (st_payload r)) = st_canonicalJson r"

definition statement ::
  "env \<Rightarrow> string \<Rightarrow> (db, SettlementStatementRecord \<times> SettlementStatementSignature list) prog"
where
  "statement e batchId =
     seq (frozenRecord batchId) (\<lambda>view.
     let sid = fz_settlementId (fv_frozen view) in
     seq (reads (\<lambda>s. find (\<lambda>r. st_settlementId r = sid) (db_statements s))) (\<lambda>read.
     seq (found read (NotFound ''statement_not_issued'')) (\<lambda>record.
     seq (require (statementIntegrityOk e record) (Conflict ''statement_integrity_violation'')) (\<lambda>_.
     seq (reads (\<lambda>s. order_by (\<lambda>g. (sg_signedAt g, sg_id g))
                       (filter (\<lambda>g. sg_settlementId g = sid) (db_signatures s)))) (\<lambda>signatures.
     ret (record, signatures))))))"

record ReplayResult =
  rr_calculationReplayVerified :: bool
  rr_statementIntegrityVerified :: bool
  rr_statementIdentical :: bool
  rr_storedStatementHash :: string
  rr_regeneratedStatementHash :: string
  rr_statement :: SettlementStatement

definition replay :: "env \<Rightarrow> string \<Rightarrow> string \<Rightarrow> (db, ReplayResult) prog" where
  "replay e actorUserId batchId =
     seq (frozenRecord batchId) (\<lambda>view.
     let frozen = fv_frozen view; sid = fz_settlementId frozen in
     seq (reads (\<lambda>s. find (\<lambda>r. st_settlementId r = sid) (db_statements s))) (\<lambda>read.
     seq (found read (NotFound ''statement_not_issued'')) (\<lambda>record.
     let integrity = statementIntegrityOk e record in
     seq (reads (\<lambda>s. find (\<lambda>r. rm_settlementId r = sid) (db_remittances s))) (\<lambda>remittance.
     seq (lift (buildExecutionPreview (en_sha e) frozen (toISOString (st_issuedAt record)))) (\<lambda>pv.
     seq (lift (generateSettlementStatement (en_sha e) frozen (toISOString (st_issuedAt record))
            (map_option remittance_evidence remittance)
            (map_option fst (ss_closure (st_payload record))))) (\<lambda>regenerated.
     let regeneratedHash = statementHash (en_sha e) regenerated;
         identical = (integrity \<and> regeneratedHash = st_statementHash record) in
     seq (create db_replays db_replays_update (\<lambda>x y. rp_id y = rp_id x)
           \<lparr> rp_id = en_uuid e 0, rp_settlementId = sid,
             rp_settlementReference = fz_settlementReference frozen,
             rp_replayEngineVersion = REPLAY_ENGINE_VERSION,
             rp_calculationReplayVerified = ep_replayVerified pv,
             rp_statementIntegrityVerified = integrity, rp_statementIdentical = identical,
             rp_ranBy = actorUserId, rp_ranAt = clk e 0 \<rparr>) (\<lambda>row.
     seq (audit_record (audit_input actorUserId ''settlement.replay.executed'' ''store''
           (Some (fz_storeId frozen))
           [(''settlementId'', JStr sid), (''settlementReference'', JStr (fz_settlementReference frozen)),
            (''replayEngineVersion'', JStr REPLAY_ENGINE_VERSION), (''replayRecordId'', JStr (rp_id row)),
            (''calculationReplayVerified'', JBool (ep_replayVerified pv)),
            (''statementIntegrityVerified'', JBool integrity), (''statementIdentical'', JBool identical)])) (\<lambda>_.
     ret \<lparr> rr_calculationReplayVerified = ep_replayVerified pv,
           rr_statementIntegrityVerified = integrity, rr_statementIdentical = identical,
           rr_storedStatementHash = st_statementHash record,
           rr_regeneratedStatementHash = regeneratedHash, rr_statement = regenerated \<rparr>))))))))"

end
