(* ===== verification/Treasury_Books.thy ===== *)
theory Treasury_Books
  imports Treasury Execution Refund_Laws Assembly
begin

text \<open>
  Why the treasury reconciles. A receipt of client money posts its cash row and its payable row
  together, every other safeguarding posting is in both legs or is compensated, so the adjusted
  asymmetry between cash and obligations is zero at every cut-off; and the handlers of the
  settlement services keep the books in that shape.
\<close>

section \<open>Paired books\<close>

definition client_cash :: "LedgerEntry \<Rightarrow> bool" where
  "client_cash r \<longleftrightarrow> is_event INVOICE_PAYMENT_RECEIVED r \<and> jfield (le_metadata r) ''account'' = JStr SAFEGUARDING"

definition client_payable :: "LedgerEntry \<Rightarrow> bool" where
  "client_payable r \<longleftrightarrow> is_event MERCHANT_PAYABLE_ACCRUED r \<and> \<not> has_order r"

definition books :: "LedgerEntry list \<Rightarrow> LedgerEntry list" where
  "books t = filter (\<lambda>r. client_cash r \<or> client_payable r) t"

inductive paired :: "LedgerEntry list \<Rightarrow> bool" where
  none: "paired []"
| pair: "paired t \<Longrightarrow> client_cash r \<Longrightarrow> client_payable p \<Longrightarrow> anchorOf r = anchorOf p \<Longrightarrow> le_amount r = le_amount p
    \<Longrightarrow> paired (t @ [r, p])"

definition books_paired :: "db \<Rightarrow> bool" where
  "books_paired s \<longleftrightarrow> paired (books (db_ledger s))"

section \<open>The asymmetry of paired books is zero\<close>

definition receipt_dated :: "Evidence \<Rightarrow> string \<Rightarrow> LedgerEntry \<Rightarrow> bool" where
  "receipt_dated ev t row \<longleftrightarrow>
     (\<exists>r. looked_up (anchorOf row) (ed_receipt ev) = Some r \<and> toISOString (pr_receivedAt r) \<le> t)"

definition book_delta :: "Evidence \<Rightarrow> string \<Rightarrow> LedgerEntry \<Rightarrow> int" where
  "book_delta ev t row =
     (if \<not> receipt_dated ev t row then 0
      else if client_cash row then amount_minor row
      else if client_payable row then - amount_minor row
      else 0)"

definition leg_delta :: "string \<Rightarrow> Contribution \<Rightarrow> int" where
  "leg_delta t c =
     sum_list (map signed (filter (dated_by t) (filter (\<lambda>m. \<not> is_sweep m) (ct_cash c))))
     - sum_list (map signed (filter (dated_by t) (filter (\<lambda>m. tm_nonCash m \<noteq> Some True) (ct_obligations c))))"

lemma leg_delta_simps:
  "leg_delta t (cash_only m) = (if \<not> is_sweep m \<and> dated_by t m then signed m else 0)"
  "leg_delta t (obligations_only m) = (if tm_nonCash m \<noteq> Some True \<and> dated_by t m then - signed m else 0)"
  "leg_delta t (exclude c row) = 0"
  "\<not> is_sweep m \<Longrightarrow> tm_nonCash m \<noteq> Some True \<Longrightarrow> leg_delta t (both_legs m) = 0"
  by (simp_all add: leg_delta_def both_legs_def cash_only_def obligations_only_def exclude_def)

lemma movement_simps [simp]:
  "tm_eventType (movement sr d v r x n) = le_eventType (snd sr)" "tm_direction (movement sr d v r x n) = d"
  "tm_valueDate (movement sr d v r x n) = v" "tm_nonCash (movement sr d v r x n) = n"
  "tm_amountMinor (movement sr d v r x n) = amount_minor (snd sr)"
  by (simp_all add: movement_def split: prod.split)

lemma event_names_differ:
  "is_event v r \<Longrightarrow> event_name v \<noteq> event_name w \<Longrightarrow> \<not> is_event w r"
  by (simp add: is_event_def)

lemma not_sweep: "is_event v r \<Longrightarrow> event_name v \<noteq> ''treasury.internal_transfer.completed'' \<Longrightarrow> tm_eventType m = le_eventType r \<Longrightarrow> \<not> is_sweep m"
  by (simp add: is_event_def is_sweep_def)

lemma contribution_delta:
  assumes "le_eventType (snd sr) \<in> event_name ` set GATHERED_EVENTS"
  shows "leg_delta t (contribution ev sr) = book_delta ev t (snd sr)"
proof -
  let ?row = "snd sr"
  have dated: "dated_by t (movement sr d (map_option (\<lambda>r. toISOString (pr_receivedAt r)) (looked_up (anchorOf ?row) (ed_receipt ev))) r x n)
      \<longleftrightarrow> receipt_dated ev t ?row" for d r x n
    by (auto simp: dated_by_def receipt_dated_def)
  from assms consider "is_event INVOICE_PAYMENT_RECEIVED ?row" | "is_event MERCHANT_PAYABLE_ACCRUED ?row"
    | "is_event MERCHANT_REMITTANCE_PAID ?row" | "is_event REFUND_PAID ?row" | "is_event MERCHANT_RECEIVABLE_RECOVERED ?row"
    | "is_event INTERNAL_TRANSFER_COMPLETED ?row"
    unfolding GATHERED_EVENTS_def is_event_def by auto
  then show ?thesis
  proof cases
    case 1
    then have "\<not> is_event MERCHANT_PAYABLE_ACCRUED ?row" by (rule event_names_differ) simp
    moreover have "\<not> is_sweep (movement sr d v r x n)" for d v r x n using 1 by (rule not_sweep) simp_all
    ultimately show ?thesis using 1
      by (simp add: contribution_def received_contribution_def Let_def leg_delta_simps dated book_delta_def client_cash_def
          client_payable_def signed_def)
  next
    case 2
    then have "\<not> is_event INVOICE_PAYMENT_RECEIVED ?row" by (rule event_names_differ) simp
    with 2 show ?thesis
      by (simp add: contribution_def payable_contribution_def Let_def leg_delta_simps dated book_delta_def client_cash_def
          client_payable_def signed_def)
  next
    case 3
    then have n: "\<not> is_event INVOICE_PAYMENT_RECEIVED ?row" "\<not> is_event MERCHANT_PAYABLE_ACCRUED ?row"
      by (rule event_names_differ; simp)+
    moreover have "\<not> is_sweep (movement sr d v r x n)" for d v r x n using 3 by (rule not_sweep) simp_all
    ultimately show ?thesis using 3
      by (simp add: contribution_def remittance_contribution_def Let_def leg_delta_simps book_delta_def client_cash_def client_payable_def)
  next
    case 4
    then have n: "\<not> is_event INVOICE_PAYMENT_RECEIVED ?row" "\<not> is_event MERCHANT_PAYABLE_ACCRUED ?row" "\<not> is_event MERCHANT_REMITTANCE_PAID ?row"
      by (rule event_names_differ; simp)+
    moreover have "\<not> is_sweep (movement sr d v r x n)" for d v r x n using 4 by (rule not_sweep) simp_all
    ultimately show ?thesis using 4
      by (simp add: contribution_def refund_contribution_def Let_def leg_delta_simps book_delta_def client_cash_def client_payable_def)
  next
    case 5
    then have n: "\<not> is_event INVOICE_PAYMENT_RECEIVED ?row" "\<not> is_event MERCHANT_PAYABLE_ACCRUED ?row" "\<not> is_event MERCHANT_REMITTANCE_PAID ?row"
      "\<not> is_event REFUND_PAID ?row" "\<not> is_event INTERNAL_TRANSFER_COMPLETED ?row"
      by (rule event_names_differ; simp)+
    moreover have "\<not> is_sweep (movement sr d v r x n)" for d v r x n using 5 by (rule not_sweep) simp_all
    ultimately show ?thesis using 5
      by (simp add: contribution_def recovery_contribution_def Let_def leg_delta_simps book_delta_def client_cash_def client_payable_def)
  next
    case 6
    then have n: "\<not> is_event INVOICE_PAYMENT_RECEIVED ?row" "\<not> is_event MERCHANT_PAYABLE_ACCRUED ?row" "\<not> is_event MERCHANT_REMITTANCE_PAID ?row"
      "\<not> is_event REFUND_PAID ?row"
      by (rule event_names_differ; simp)+
    moreover have "is_sweep (movement sr d v r x n)" for d v r x n using 6 by (simp add: is_sweep_def is_event_def)
    ultimately show ?thesis using 6
      by (simp add: contribution_def transfer_contribution_def Let_def leg_delta_simps book_delta_def client_cash_def client_payable_def)
  qed
qed

lemma sum_concat: "sum_list (map f (filter p (filter q (concat (map g xs))))) = (\<Sum>x \<leftarrow> xs. sum_list (map f (filter p (filter q (g x)))) :: int)"
  by (induction xs) simp_all

lemma sweeps_go_out:
  assumes "m \<in> set (ct_cash (contribution ev sr))" and "is_sweep m"
  shows "tm_direction m = Out"
proof (rule ccontr)
  assume "tm_direction m \<noteq> Out"
  then have "is_event INVOICE_PAYMENT_RECEIVED (snd sr) \<and> tm_eventType m = le_eventType (snd sr)"
    using assms(1)
    by (auto simp: contribution_def received_contribution_def payable_contribution_def remittance_contribution_def
        refund_contribution_def transfer_contribution_def recovery_contribution_def Let_def both_legs_def cash_only_def
        obligations_only_def exclude_def split: if_splits)
  with assms(2) show False by (simp add: is_event_def is_sweep_def)
qed

lemma legs_delta:
  "cashVsObligations (legs_of (run_inputs d att (gatherMovements e s) pending)) =
     (\<Sum>r \<leftarrow> db_ledger s. book_delta (evidence_of (map snd (gathered_rows e s)) s) (toISOString d) r)"
proof -
  let ?ev = "evidence_of (map snd (gathered_rows e s)) s"
  let ?t = "toISOString d"
  let ?i = "run_inputs d att (gatherMovements e s) pending"
  have cash: "tn_cashMovements ?i = concat (map (\<lambda>sr. ct_cash (contribution ?ev sr)) (gathered_rows e s))"
    and obl: "tn_obligationMovements ?i = concat (map (\<lambda>sr. ct_obligations (contribution ?ev sr)) (gathered_rows e s))"
    and d: "tn_asOfDate ?i = ?t"
    by (simp_all add: run_inputs_def gatherMovements_def Let_def comp_def)
  have sw: "\<forall>m \<in> set (tn_cashMovements ?i). is_sweep m \<longrightarrow> tm_direction m = Out"
    unfolding cash using sweeps_go_out by fastforce
  have "cashVsObligations (legs_of ?i) = (\<Sum>sr \<leftarrow> gathered_rows e s. leg_delta ?t (contribution ?ev sr))"
    unfolding leg_delta_def sum_list_subtractf adjusted_sum [OF sw] cash obl d sum_concat ..
  also have "\<dots> = (\<Sum>sr \<leftarrow> gathered_rows e s. book_delta ?ev ?t (snd sr))"
    by (rule arg_cong [where f = sum_list], rule map_cong [OF refl], rule contribution_delta) (simp add: gathered_rows_def)
  also have "\<dots> = (\<Sum>sr \<leftarrow> stamped_ledger e s. book_delta ?ev ?t (snd sr))"
    unfolding gathered_rows_def
    by (rule sum_list_map_filter) (auto simp: book_delta_def client_cash_def client_payable_def is_event_def GATHERED_EVENTS_def)
  also have "\<dots> = (\<Sum>r \<leftarrow> db_ledger s. book_delta ?ev ?t r)"
  proof -
    have "mset (map snd (stamped_ledger e s)) = mset (map snd (map (\<lambda>n. (en_ledgerStamp e n, db_ledger s ! n)) [0..<length (db_ledger s)]))"
      unfolding stamped_ledger_def mset_map mset_sort ..
    also have "map snd (map (\<lambda>n. (en_ledgerStamp e n, db_ledger s ! n)) [0..<length (db_ledger s)]) = db_ledger s"
      by (simp add: comp_def map_nth)
    finally have "mset (map (book_delta ?ev ?t) (map snd (stamped_ledger e s))) = mset (map (book_delta ?ev ?t) (db_ledger s))"
      by (simp only: mset_map)
    then show ?thesis by (metis (no_types, lifting) map_map comp_apply map_eq_conv sum_mset_sum_list)
  qed
  finally show ?thesis .
qed

lemma books_delta: "(\<Sum>r \<leftarrow> books t. book_delta ev u r) = (\<Sum>r \<leftarrow> t. book_delta ev u r)"
  by (induction t) (auto simp: books_def book_delta_def)

lemma paired_delta: "paired t \<Longrightarrow> (\<Sum>r \<leftarrow> t. book_delta ev u r) = 0"
proof (induction rule: paired.induct)
  case (pair t r p)
  have "\<not> client_cash p" using pair(3) by (auto simp: client_cash_def client_payable_def is_event_def)
  moreover have "receipt_dated ev u p = receipt_dated ev u r" by (simp add: receipt_dated_def pair(4))
  ultimately have "book_delta ev u r + book_delta ev u p = 0"
    using pair(2,3,5) by (simp add: book_delta_def amount_minor_def)
  with pair.IH show ?case by simp
qed simp

lemma books_reconcile:
  "books_paired s \<Longrightarrow> cashVsObligations (legs_of (run_inputs d att (gatherMovements e s) pending)) = 0"
  using paired_delta [of "books (db_ledger s)"] by (simp add: legs_delta books_delta books_paired_def)

section \<open>Who writes the books\<close>

definition books_view :: "db \<Rightarrow> LedgerEntry list" where
  "books_view s = books (db_ledger s)"

definition posts_other :: "RecordLedgerInput \<Rightarrow> bool" where
  "posts_other i \<longleftrightarrow> (\<exists>v. li_eventType i = event_name v \<and> v \<noteq> INVOICE_PAYMENT_RECEIVED \<and> v \<noteq> MERCHANT_PAYABLE_ACCRUED)"

lemma js_trim_event: "js_trim (event_name v) = event_name v"
  by (cases v; simp only:; code_simp)

lemma event_name_inj: "event_name v = event_name w \<longleftrightarrow> v = w"
  by (cases v; cases w; simp)

lemma posts_other_simps [simp]:
  "posts_other (ledger_base v r a x c d) \<longleftrightarrow> v \<noteq> INVOICE_PAYMENT_RECEIVED \<and> v \<noteq> MERCHANT_PAYABLE_ACCRUED"
  "posts_other (i\<lparr> li_counterpartyType := p \<rparr>) = posts_other i" "posts_other (i\<lparr> li_campaignId := q \<rparr>) = posts_other i"
  "posts_other (i\<lparr> li_orgId := q \<rparr>) = posts_other i" "posts_other (i\<lparr> li_storeId := q \<rparr>) = posts_other i"
  "posts_other (i\<lparr> li_idempotencyKey := q \<rparr>) = posts_other i" "posts_other (i\<lparr> li_metadata := m \<rparr>) = posts_other i"
  by (auto simp: posts_other_def ledger_base_def event_name_inj)

lemma posts_other_fee [simp]:
  "posts_other (fee_base v r a x c d m) \<longleftrightarrow> v \<noteq> INVOICE_PAYMENT_RECEIVED \<and> v \<noteq> MERCHANT_PAYABLE_ACCRUED"
  by (simp add: fee_base_def)

lemma validate_entry_event: "validate_entry i = Inr r \<Longrightarrow> le_eventType r = js_trim (li_eventType i)"
  by (auto simp: validate_entry_def Let_def prog_iff split: if_splits)

lemma posts_leave_books: "posts_other i \<Longrightarrow> leaves books_view (ledger_record i)"
proof (rule leavesI)
  fix s :: db assume other: "posts_other i"
  then obtain v where v: "li_eventType i = event_name v" "v \<noteq> INVOICE_PAYMENT_RECEIVED" "v \<noteq> MERCHANT_PAYABLE_ACCRUED"
    by (auto simp: posts_other_def)
  have new: "books (t @ [r]) = books t" if "validate_entry i = Inr r" for r t
    using validate_entry_event [OF that] v
    by (simp add: books_def client_cash_def client_payable_def is_event_def js_trim_event event_name_inj del: event_name.simps)
  obtain x t' where run: "record_entry i (db_ledger s) = (x, t')" by (cases "record_entry i (db_ledger s)")
  then have "books t' = books (db_ledger s)" using record_entry_cases [OF run] new by auto
  with run show "books_view (snd (ledger_record i s)) = books_view s"
    by (simp add: ledger_record_def on_table_def books_view_def)
qed

lemma books_view_simps [simp]:
  "books_view (db_items_update f1 s) = books_view s" "books_view (db_audit_update f2 s) = books_view s"
  "books_view (db_receivables_update f3 s) = books_view s" "books_view (db_sequences_update f4 s) = books_view s"
  "books_view (db_creditNotes_update f5 s) = books_view s" "books_view (db_corporate_update f6 s) = books_view s"
  "books_view (db_creditNoteVersions_update f7 s) = books_view s" "books_view (db_batches_update f8 s) = books_view s"
  "books_view (db_remittances_update f9 s) = books_view s" "books_view (db_refunds_update g1 s) = books_view s"
  "books_view (db_receipts_update g2 s) = books_view s" "books_view (db_merchant_update g3 s) = books_view s"
  "books_view (db_statements_update g4 s) = books_view s" "books_view (db_transfers_update g5 s) = books_view s"
  by (simp_all add: books_view_def)

lemma leaves_load [leaves_intros]: "leaves g (loadBatch i)"
  by (rule leavesI) (simp add: loadBatch_def found_def)

lemma leaves_update_row [leaves_intros]: "(\<And>f s. g (upd f s) = g s) \<Longrightarrow> leaves g (update_row get upd p f)"
  by (rule leavesI) (simp add: update_row_def split: option.split)

lemma books_bind_items [leaves_intros]: "leaves books_view (bind_items b is)"
proof (induction "is")
  case (Cons i "is")
  then show ?case by (simp only: bind_items.simps) (intro leaves_intros; simp)
qed (simp add: leaves_def keeps_def)

lemma books_assembly [leaves_intros]: "leaves books_view (assembly_transaction e u p r i)"
  unfolding assembly_transaction_def create_batch_def stage_receivable_def Let_def
  by (intro leaves_intros posts_leave_books; simp)

lemma books_attempts: "leaves books_view (assembly_attempts n e u p k)"
proof (induction n arbitrary: k)
  case (Suc n)
  show ?case unfolding assembly_attempts.simps by (intro leaves_intros Suc.IH)
qed (simp add: leaves_basic)

lemma books_assemble [leaves_intros]: "leaves books_view (assembleBatch e u st c)"
  unfolding assembleBatch_def by (intro leaves_intros books_attempts)

lemma books_supersede [leaves_intros]: "leaves books_view (supersede u b c a h)"
  unfolding supersede_def supersede_transaction_def set_status_def release_item_def Let_def
  by (intro leaves_intros posts_leave_books; simp)

lemma books_close: "leaves books_view (close_batch b c d)"
  unfolding close_batch_def by (intro leaves_intros; simp)

lemma books_consume: "leaves books_view (consumeRecoveryAllocation u b d m)"
  unfolding consumeRecoveryAllocation_def consume_one_def Let_def
  by (intro leaves_intros posts_leave_books; simp)

lemma books_settled: "leaves books_view (markSettled e u b ev)"
  unfolding markSettled_def settle_transaction_def settle_record_def
  by (intro leaves_intros books_close books_consume posts_leave_books; simp)

lemma books_settled_zero: "leaves books_view (markSettledZeroNet e u b)"
  unfolding markSettledZeroNet_def zero_net_transaction_def zero_net_record_def
  by (intro leaves_intros books_close books_consume posts_leave_books; simp)

lemma books_statement: "leaves books_view (create_statement r)"
  unfolding create_statement_def by (intro leaves_intros; simp)

lemma books_attach: "leaves books_view (attachStatementToCreditNotes e u z)"
  unfolding attachStatementToCreditNotes_def attach_one_def Let_def by (intro leaves_intros; simp)

lemma books_complete: "leaves books_view (completeChain e u z r t)" "leaves books_view (completeChainZeroNet e u z d t)"
  unfolding completeChain_def completeChainZeroNet_def ensureStatement_def ensureStatementZeroNet_def Let_def
  by (intro leaves_intros books_statement books_attach posts_leave_books; simp)+

lemma books_execute [leaves_intros]: "leaves books_view (execute e u b i)"
  unfolding execute_def frozenRecord_def batchItems_def Let_def
  by (intro leaves_intros books_complete books_settled)

lemma books_zero_net [leaves_intros]: "leaves books_view (closeZeroNet e u b p)"
proof -
  have pick: "leaves books_view (case x of (True, Some d) \<Rightarrow> m d | _ \<Rightarrow> raise ex)" if "\<And>d. leaves books_view (m d)"
    for x :: "bool \<times> instant option" and m :: "instant \<Rightarrow> (db, ExecutionResult) prog" and ex
    using that by (cases x) (auto split: bool.split option.split intro: leaves_basic)
  show ?thesis
    unfolding closeZeroNet_def frozenRecord_def batchItems_def Let_def
    by (intro leaves_intros pick books_complete books_settled_zero)
qed

lemma books_transfer [leaves_intros]: "leaves books_view (recordInternalTransfer e u i)"
  unfolding recordInternalTransfer_def land_transfer_def transfer_transaction_def transfer_posting_def Let_def
  by (intro leaves_intros posts_leave_books; simp)

lemma books_goods [leaves_intros]: "leaves books_view (recordGoodsRefund e u i)"
  unfolding recordGoodsRefund_def goods_transaction_def goods_refund_def goods_posting_def accrue_receivable_def Let_def
  by (intro leaves_intros posts_leave_books; simp)

lemma books_artifacts: "leaves books_view (ensureCoverageArtifacts e u t v)"
  unfolding ensureCoverageArtifacts_def Let_def by (intro leaves_intros posts_leave_books; simp)

lemma books_derive: "leaves books_view (deriveAndApplyCoverage e u t i)"
  unfolding deriveAndApplyCoverage_def heal_paid_def flip_paid_def close_by_credit_def Let_def
  by (intro books_artifacts leaves_intros; simp)

lemma books_fee [leaves_intros]: "leaves books_view (recordFeeRefund e u i)"
  unfolding recordFeeRefund_def fee_transaction_def fee_refund_def fee_postings_def Let_def
  by (intro books_derive leaves_intros posts_leave_books; simp)

lemma books_refund [leaves_intros]: "leaves books_view (recordRefund e u i)"
  unfolding recordRefund_def by (intro leaves_intros)

section \<open>Recording a receipt\<close>

lemma record_new:
  assumes "record_entry i t = (Inr x, t')" and "li_idempotencyKey i = Some k" "js_trim k \<noteq> []"
    and "\<forall>r \<in> set t. le_idempotencyKey r \<noteq> Some (js_trim k)"
  shows "validate_entry i = Inr x \<and> t' = t @ [x] \<and> le_idempotencyKey x = Some (js_trim k)"
  using record_entry_cases [OF assms(1)] validate_entry_key [of i] assms(2-4)
  by (auto simp: trimmed_or_null_def non_blank_def)

definition rtrim :: "string \<Rightarrow> string" where
  "rtrim a = rev (dropWhile js_space (rev a))"

lemma js_trim_prefix:
  assumes "p \<noteq> []" "\<not> js_space (hd p)" "\<not> js_space (last p)"
  shows "js_trim (p @ a) = p @ rtrim a"
proof -
  have front: "dropWhile js_space (p @ a) = p @ a" using assms(1,2) by (cases p) simp_all
  have keep: "dropWhile js_space (rev p) = rev p" using assms(1,3) by (cases p rule: rev_cases) simp_all
  have "dropWhile js_space (xs @ rev p) = dropWhile js_space xs @ rev p" for xs
    by (induction xs) (simp_all add: keep)
  then show ?thesis by (simp add: js_trim_def front rtrim_def)
qed

lemma key_trim: "js_trim (ledgerIdempotencyKey v a) = event_name v @ '':'' @ rtrim a"
proof -
  have "event_name v \<noteq> [] \<and> \<not> js_space (hd (event_name v))" by (cases v; simp only:; code_simp)
  moreover have "\<not> js_space (CHR '':'')" by code_simp
  ultimately show ?thesis
    using js_trim_prefix [of "event_name v @ '':''" a] by (simp add: ledgerIdempotencyKey_def del: event_name.simps)
qed

lemma anchor_of_key:
  "le_idempotencyKey r = Some (js_trim (ledgerIdempotencyKey v a)) \<Longrightarrow> le_eventType r = event_name v \<Longrightarrow> anchorOf r = Some (rtrim a)"
  by (simp add: anchorOf_def key_trim strip_prefix_def del: event_name.simps)

lemma jfield_strip:
  "js_lower k \<notin> set deny \<Longrightarrow> map_of fs k = Some (JStr x) \<Longrightarrow> jfield (strip_keys deny (JObj fs)) k = JStr x"
proof -
  assume k: "js_lower k \<notin> set deny" "map_of fs k = Some (JStr x)"
  have "map_of (map (\<lambda>(k, v). (k, strip_keys deny v)) (filter (\<lambda>(k, v). js_lower k \<notin> set deny) fs)) k = map_option (strip_keys deny) (map_of fs k)"
    using k(1) by (induction fs) auto
  with k(2) show ?thesis by (simp add: jfield_def)
qed

lemma validate_entry_parts:
  assumes "validate_entry i = Inr r"
  shows "le_orderId r = li_orderId i" "to_dec (number_value (li_amount i)) = Inr (le_amount r)"
    "li_metadata i = Some m \<Longrightarrow> le_metadata r = stripSensitive m"
  using assms by (auto simp: validate_entry_def Let_def prog_iff sanitizeLedgerMetadata_def split: if_splits)

lemma metadata_field:
  "validate_entry i = Inr r \<Longrightarrow> li_metadata i = Some (JObj fs) \<Longrightarrow> js_lower k \<notin> set SENSITIVE_METADATA_KEYS
     \<Longrightarrow> map_of fs k = Some (JStr x) \<Longrightarrow> jfield (le_metadata r) k = JStr x"
  using validate_entry_parts(3) [of i r "JObj fs"] jfield_strip [of k SENSITIVE_METADATA_KEYS fs x]
  unfolding stripSensitive_def by simp

definition fresh_anchor :: "string \<Rightarrow> db \<Rightarrow> bool" where
  "fresh_anchor a s \<longleftrightarrow> (\<forall>r \<in> set (db_ledger s).
     le_idempotencyKey r \<noteq> Some (js_trim (ledgerIdempotencyKey INVOICE_PAYMENT_RECEIVED a))
     \<and> le_idempotencyKey r \<noteq> Some (js_trim (ledgerIdempotencyKey MERCHANT_PAYABLE_ACCRUED a)))"

lemma account_kept: "js_lower ''account'' \<notin> set SENSITIVE_METADATA_KEYS"
  by code_simp

lemma receipt_ledger_books:
  assumes run: "receipt_ledger u t v created amount s = (Inr x, s')" and fresh: "fresh_anchor (pr_id created) s"
    and inv: "books_paired s"
  shows "books_paired s'"
proof -
  let ?acc = "if t = merchant_type then ''safeguarding'' else ''operating''"
  let ?fs = "[(''invoiceType'', JStr t), (''invoiceId'', JStr (if_id v)),
                 (''invoiceNumber'', jopt (if_invoiceNumber v)), (''bankReference'', JStr (pr_bankReference created)),
                 (''rail'', JStr (pr_rail created)), (''account'', JStr ?acc)]"
  let ?i = "(ledger_base INVOICE_PAYMENT_RECEIVED ''INVOICE_PAYMENT'' u (Fin amount) ''SAR'' ''credit'')
            \<lparr> li_campaignId := Some (if_campaignId v), li_orgId := Some (if_orgId v), li_storeId := if_storeId v,
              li_idempotencyKey := Some (ledgerIdempotencyKey INVOICE_PAYMENT_RECEIVED (pr_id created)),
              li_metadata := Some (JObj ?fs) \<rparr>"
  obtain r t1 where r: "record_entry ?i (db_ledger s) = (Inr r, t1)"
    using run by (cases "record_entry ?i (db_ledger s)")
      (auto simp: receipt_ledger_def seq_def ledger_record_def on_table_def split: prod.splits sum.splits)
  have nonempty: "js_trim (ledgerIdempotencyKey w a) \<noteq> []" for w a by (simp add: key_trim)
  have new: "validate_entry ?i = Inr r \<and> t1 = db_ledger s @ [r] \<and> le_idempotencyKey r = Some (js_trim (ledgerIdempotencyKey INVOICE_PAYMENT_RECEIVED (pr_id created)))"
    by (rule record_new [OF r _ nonempty]) (use fresh in \<open>simp_all add: fresh_anchor_def\<close>)
  have ev: "le_eventType r = event_name INVOICE_PAYMENT_RECEIVED"
    using validate_entry_event [of ?i r] new by (simp add: ledger_base_def js_trim_event del: event_name.simps)
  have acc: "jfield (le_metadata r) ''account'' = JStr ?acc"
    by (rule metadata_field [where i = ?i and fs = ?fs]) (use new in \<open>simp_all add: account_kept\<close>)
  show ?thesis
  proof (cases "t = merchant_type")
    case False
    then have "s' = s\<lparr> db_ledger := t1 \<rparr>"
      using run r by (simp add: receipt_ledger_def seq_def ledger_record_def on_table_def)
    moreover have "\<not> client_cash r" "\<not> client_payable r"
      using False acc ev by (simp_all add: client_cash_def client_payable_def is_event_def SAFEGUARDING_def)
    ultimately show ?thesis using inv new by (simp add: books_paired_def books_def)
  next
    case True
    let ?j = "(ledger_base MERCHANT_PAYABLE_ACCRUED ''MERCHANT_PAYABLE'' u (Fin amount) ''SAR'' ''debit'')
            \<lparr> li_counterpartyType := Some ''merchant'', li_campaignId := Some (if_campaignId v),
              li_orgId := Some (if_orgId v), li_storeId := if_storeId v,
              li_idempotencyKey := Some (ledgerIdempotencyKey MERCHANT_PAYABLE_ACCRUED (pr_id created)),
              li_metadata := Some (JObj
                [(''invoiceId'', JStr (if_id v)), (''invoiceNumber'', jopt (if_invoiceNumber v)),
                 (''passThrough'', JBool True)]) \<rparr>"
    obtain p t2 where p: "record_entry ?j t1 = (Inr p, t2)" "s' = s\<lparr> db_ledger := t2 \<rparr>"
      using run r True by (cases "record_entry ?j t1")
        (auto simp: receipt_ledger_def seq_def ledger_record_def on_table_def split: prod.splits sum.splits)
    have "\<forall>r' \<in> set t1. le_idempotencyKey r' \<noteq> Some (js_trim (ledgerIdempotencyKey MERCHANT_PAYABLE_ACCRUED (pr_id created)))"
      using fresh new by (auto simp: fresh_anchor_def key_trim)
    from record_new [OF p(1) _ nonempty this] have new2: "validate_entry ?j = Inr p" "t2 = t1 @ [p]"
      "le_idempotencyKey p = Some (js_trim (ledgerIdempotencyKey MERCHANT_PAYABLE_ACCRUED (pr_id created)))" by simp_all
    have ev2: "le_eventType p = event_name MERCHANT_PAYABLE_ACCRUED"
      using validate_entry_event [OF new2(1)] by (simp add: ledger_base_def js_trim_event del: event_name.simps)
    have "client_cash r" using ev acc True by (simp add: client_cash_def is_event_def SAFEGUARDING_def)
    moreover have "client_payable p"
      using ev2 validate_entry_parts(1) [OF new2(1)] by (simp add: client_payable_def is_event_def has_order_def truthy_def ledger_base_def)
    moreover have "anchorOf r = anchorOf p"
      using anchor_of_key [of r] anchor_of_key [of p] new ev new2(3) ev2 by simp
    moreover have "le_amount r = le_amount p"
      using validate_entry_parts(2) [of ?i r] validate_entry_parts(2) [OF new2(1)] new by (simp add: ledger_base_def)
    ultimately have "paired (books (db_ledger s) @ [r, p])"
      using inv by (intro paired.pair) (simp_all add: books_paired_def)
    then show ?thesis using p(2) new2(2) new \<open>client_cash r\<close> \<open>client_payable p\<close> by (simp add: books_paired_def books_def)
  qed
qed

lemma receipt_transaction_books:
  assumes inv: "books_paired s" and fresh: "fresh_anchor (en_uuid e 0) s"
  shows "books_paired (snd (receipt_transaction e u input ref d m s))"
proof (cases "receipt_transaction e u input ref d m s")
  case (Pair x s')
  show ?thesis
  proof (cases x)
    case (Inl ex)
    have "s' = s" by (rule transaction_rollback [OF Pair [unfolded receipt_transaction_def Let_def Inl]])
    with Pair inv show ?thesis by simp
  next
    case (Inr landing)
    show ?thesis
    proof (cases "\<exists>r v. landing = Existing r v \<and> s' = s")
      case True
      with Pair inv show ?thesis by auto
    next
      case False
      obtain v r t amount where "receipt_ledger u t v r amount (db_receipts_update (\<lambda>t. t @ [r]) s) = (Inr (), s')" "pr_id r = en_uuid e 0"
        using Pair [unfolded Inr] False
        by (auto simp: receipt_transaction_def Let_def transaction_iff seq_iff reads_iff lift_iff require_iff create_iff ret_iff
            simp del: require_run reads_run split: option.splits)
      moreover have "fresh_anchor (en_uuid e 0) (db_receipts_update (\<lambda>t. t @ [r]) s)" "books_paired (db_receipts_update (\<lambda>t. t @ [r]) s)"
        using fresh inv by (simp_all add: fresh_anchor_def books_paired_def)
      ultimately show ?thesis using receipt_ledger_books Pair by simp
    qed
  qed
qed

lemma books_paired_view: "books_view s' = books_view s \<Longrightarrow> books_paired s' = books_paired s"
  by (simp add: books_paired_def books_view_def)

lemma leaves_landing [leaves_intros]:
  "(\<And>r v. leaves g (m r v)) \<Longrightarrow> (\<And>r v. leaves g (n r v)) \<Longrightarrow>
     leaves g (case x of Landed r v \<Rightarrow> m r v | Existing r v \<Rightarrow> n r v)"
  by (cases x) simp_all

lemma leaves_sum [leaves_intros]: "(\<And>r. leaves g (m r)) \<Longrightarrow> (\<And>r. leaves g (n r)) \<Longrightarrow> leaves g (case x of Inl r \<Rightarrow> m r | Inr r \<Rightarrow> n r)"
  by (cases x) simp_all

lemma land_receipt_books:
  assumes "books_paired s" and "fresh_anchor (en_uuid e 0) s"
  shows "books_paired (snd (land_receipt e u input ref d m s))"
proof -
  have "books_view (snd (land_receipt e u input ref d m s)) = books_view (snd (receipt_transaction e u input ref d m s))"
    unfolding land_receipt_def Let_def receipt_audit_def
    by (subst leaves_handler, (intro leaves_intros books_derive; simp)[1], subst leaves_tail)
      ((intro leaves_intros books_derive; simp)[1], rule refl)
  then show ?thesis using receipt_transaction_books [OF assms] books_paired_view by blast
qed

lemma record_receipt_books:
  assumes "books_paired s" and "fresh_anchor (en_uuid e 0) s"
  shows "books_paired (snd (recordReceipt e u input s))"
proof -
  have "books_view (snd (seq (land_receipt e u input ref d m) (\<lambda>landed. case landed of
       Inl result \<Rightarrow> ret result
     | Inr (receipt, v) \<Rightarrow>
         seq (receipt_audit u (ri_invoiceType input) v receipt (fromMinor m SAR) ref) (\<lambda>_.
         seq (deriveAndApplyCoverage e u (ri_invoiceType input) (if_id v)) (\<lambda>cov.
         ret \<lparr> rc_receipt = receipt, rc_replayed = False, rc_coverage = cov \<rparr>))) s))
     = books_view (snd (land_receipt e u input ref d m s))" for ref d m
    unfolding receipt_audit_def by (rule leaves_tail) (intro leaves_intros books_derive; simp)
  then have final: "books_paired (snd (seq (land_receipt e u input ref d m) (\<lambda>landed. case landed of
       Inl result \<Rightarrow> ret result
     | Inr (receipt, v) \<Rightarrow>
         seq (receipt_audit u (ri_invoiceType input) v receipt (fromMinor m SAR) ref) (\<lambda>_.
         seq (deriveAndApplyCoverage e u (ri_invoiceType input) (if_id v)) (\<lambda>cov.
         ret \<lparr> rc_receipt = receipt, rc_replayed = False, rc_coverage = cov \<rparr>))) s))" for ref d m
    using land_receipt_books [OF assms] books_paired_view by blast
  show ?thesis
    unfolding recordReceipt_def Let_def by (rule final still_step [where Q = books_paired] still_simps assms(1))+
qed

section \<open>The operations on the books\<close>

text \<open>
  Any sequence of the operations of the receipt, refund, settlement and treasury services; a
  receipt gets an id no posting is anchored on yet.
\<close>

inductive books_reached :: "db \<Rightarrow> db \<Rightarrow> bool" for s0 where
  here: "books_reached s0 s0"
| receipt: "books_reached s0 s \<Longrightarrow> fresh_anchor (en_uuid e 0) s \<Longrightarrow> books_reached s0 (snd (recordReceipt e u ri s))"
| refund: "books_reached s0 s \<Longrightarrow> books_reached s0 (snd (recordRefund e u fi s))"
| assembly: "books_reached s0 s \<Longrightarrow> books_reached s0 (snd (assembleBatch e u store currency s))"
| supersession: "books_reached s0 s \<Longrightarrow> books_reached s0 (snd (supersede u b c a h s))"
| execution: "books_reached s0 s \<Longrightarrow> books_reached s0 (snd (execute e u b xi s))"
| zero_net: "books_reached s0 s \<Longrightarrow> books_reached s0 (snd (closeZeroNet e u b p s))"
| internal: "books_reached s0 s \<Longrightarrow> books_reached s0 (snd (recordInternalTransfer e u ti s))"

lemma leaves_paired: "leaves books_view m \<Longrightarrow> books_paired s \<Longrightarrow> books_paired (snd (m s))"
  using books_paired_view [of "snd (m s)" s] by (simp add: leavesD)

section \<open>Properties\<close>

lemma to_dec14_zero: "to_dec14 (fromMinor 0 SAR) = Inr 0"
  by code_simp

lemma run_transaction_row:
  assumes "run_transaction e u d att built s = (Inr r, s')"
  shows "to_dec14 (fromMinor (tz_cashVsObligationsMinor built) SAR) = Inr (tr_cashVsObligationsDelta r)"
    and "tr_attestationId r = map_option at_id att" and "tr_status r = tz_status built"
  using assms by (auto simp: run_transaction_def transaction_iff seq_iff lift_iff create_iff ret_iff
      simp del: require_run reads_run)

text \<open>
  C6: the books reconcile. As long as every receipt of client money has posted its payable, a
  reconciliation run at any cut-off finds the safeguarding cash equal to the obligations, after
  the enumerated internal transfers: the stored delta is zero, and a run without an attested bank
  balance whose postings all have their evidence is pending, never mismatched.
\<close>

theorem treasury_reconciles:
  assumes "books_paired s" and "runReconciliation e u (Some d) i s = (Inr r, s')"
  shows "tr_cashVsObligationsDelta r = 0
    \<and> (tr_attestationId r = None
         \<and> list_all (\<lambda>m. tm_valueDate m \<noteq> None) (gm_cashMovements (gatherMovements e s) @ gm_obligationMovements (gatherMovements e s))
       \<longrightarrow> tr_status r = ''pending'')"
proof -
  obtain att pending where run: "run_transaction e u d att (buildTreasurySnapshot (en_sha e) (run_inputs d att (gatherMovements e s) pending)) s = (Inr r, s')"
    using assms(2) by (auto simp: runReconciliation_def seq_iff bank_leg_def pendingInternalTransfers_def reads_iff found_iff lift_iff require_iff ret_iff split: if_splits)
  let ?i = "run_inputs d att (gatherMovements e s) pending"
  have zero: "cashVsObligations (legs_of ?i) = 0" by (rule books_reconcile [OF assms(1)])
  then have z: "tz_cashVsObligationsMinor (buildTreasurySnapshot (en_sha e) ?i) = 0"
    by (simp add: buildTreasurySnapshot_def Let_def)
  have "tr_cashVsObligationsDelta r = 0"
    using run_transaction_row(1) [OF run] unfolding z to_dec14_zero by simp
  moreover have "tr_status r = ''pending''" if "tr_attestationId r = None"
    "list_all (\<lambda>m. tm_valueDate m \<noteq> None) (gm_cashMovements (gatherMovements e s) @ gm_obligationMovements (gatherMovements e s))"
  proof -
    have "att = None" using run_transaction_row(2) [OF run] that(1) by simp
    then have "tn_attestation ?i = None" by (simp add: run_inputs_def)
    moreover have "tn_cashMovements ?i = gm_cashMovements (gatherMovements e s)"
      "tn_obligationMovements ?i = gm_obligationMovements (gatherMovements e s)" by (simp_all add: run_inputs_def)
    ultimately show ?thesis
      using run_transaction_row(3) [OF run] zero that(2)
      by (simp add: buildTreasurySnapshot_def Let_def run_status_def differences_Nil)
  qed
  ultimately show ?thesis by blast
qed

text \<open>A receipt of 100.50 on the corporate lane with its two postings.\<close>

definition books_row :: "FinancialEventType \<Rightarrow> LedgerEntry" where
  "books_row v = \<lparr> le_eventType = event_name v, le_reasonCode = [], le_actorType = ''admin'', le_actorId = None,
     le_amount = 10050, le_currency = ''SAR'', le_direction = ''credit'', le_counterpartyType = None,
     le_orderId = None, le_paymentId = None, le_campaignId = None, le_orgId = None, le_storeId = None,
     le_metadata = JObj [(''account'', JStr SAFEGUARDING), (''receiptId'', JStr ''P1'')],
     le_idempotencyKey = Some (event_name v @ '':P1'') \<rparr>"

definition books_db :: db where
  "books_db = demo_db\<lparr> db_ledger := [books_row INVOICE_PAYMENT_RECEIVED, books_row MERCHANT_PAYABLE_ACCRUED],
     db_receipts := [\<lparr> pr_id = ''P1'', pr_invoiceType = ''merchant'', pr_invoiceId = ''V1'', pr_orgId = None, pr_campaignId = None,
       pr_storeId = None, pr_amount = 10050, pr_currency = ''SAR'', pr_rail = ''bank_transfer'', pr_bankReference = ''B1'',
       pr_receivedAt = 0, pr_recordedBy = ''u1'' \<rparr>] \<rparr>"

lemma books_db_paired: "books_paired books_db"
proof -
  have "books (db_ledger books_db) = [] @ [books_row INVOICE_PAYMENT_RECEIVED, books_row MERCHANT_PAYABLE_ACCRUED]" by code_simp
  moreover have "client_cash (books_row INVOICE_PAYMENT_RECEIVED)" "client_payable (books_row MERCHANT_PAYABLE_ACCRUED)"
    "anchorOf (books_row INVOICE_PAYMENT_RECEIVED) = anchorOf (books_row MERCHANT_PAYABLE_ACCRUED)"
    "le_amount (books_row INVOICE_PAYMENT_RECEIVED) = le_amount (books_row MERCHANT_PAYABLE_ACCRUED)" by code_simp+
  ultimately show ?thesis unfolding books_paired_def by (simp only:) (rule pair [OF none])
qed

lemma books_db_rows: "gathered_rows (demo_env k) books_db = [(([], 0), books_row INVOICE_PAYMENT_RECEIVED), (([], 0), books_row MERCHANT_PAYABLE_ACCRUED)]"
proof -
  have "stamped_ledger (demo_env k) books_db = [(([], 0), books_row INVOICE_PAYMENT_RECEIVED), (([], 0), books_row MERCHANT_PAYABLE_ACCRUED)]"
    by (simp add: stamped_ledger_def books_db_def demo_env_def upt_rec)
  then show ?thesis by (simp add: gathered_rows_def GATHERED_EVENTS_def books_row_def del: event_name.simps)
qed

lemma books_row_event: "is_event w (books_row v) \<longleftrightarrow> event_name w = event_name v" "\<not> has_order (books_row v)"
  by (auto simp: is_event_def has_order_def books_row_def truthy_def simp del: event_name.simps)

lemma books_db_evidence:
  "looked_up (anchorOf (books_row INVOICE_PAYMENT_RECEIVED)) (ed_receipt (evidence_of (map snd (gathered_rows (demo_env k) books_db)) books_db)) = Some (hd (db_receipts books_db))"
  "looked_up (anchorOf (books_row MERCHANT_PAYABLE_ACCRUED)) (ed_receipt (evidence_of (map snd (gathered_rows (demo_env k) books_db)) books_db)) = Some (hd (db_receipts books_db))"
  unfolding books_db_rows by code_simp+

lemma books_db_gathered:
  "\<exists>m n x. gatherMovements (demo_env k) books_db = \<lparr> gm_cashMovements = [m], gm_obligationMovements = [n], gm_excluded = x \<rparr>
     \<and> (tm_direction m, tm_valueDate m, tm_amountMinor m, tm_nonCash m) = (In, Some (toISOString 0), amount_minor (books_row INVOICE_PAYMENT_RECEIVED), None)
     \<and> (tm_direction n, tm_valueDate n, tm_amountMinor n, tm_nonCash n) = (In, Some (toISOString 0), amount_minor (books_row MERCHANT_PAYABLE_ACCRUED), None)"
proof -
  have acc: "jfield (le_metadata (books_row v)) ''account'' = JStr SAFEGUARDING" for v
    by (simp add: books_row_def jfield_def)
  have "\<exists>m. contribution (evidence_of (map snd (gathered_rows (demo_env k) books_db)) books_db) (([], 0), books_row INVOICE_PAYMENT_RECEIVED) = cash_only m
     \<and> (tm_direction m, tm_valueDate m, tm_amountMinor m, tm_nonCash m) = (In, Some (toISOString 0), amount_minor (books_row INVOICE_PAYMENT_RECEIVED), None)"
    by (simp add: contribution_def received_contribution_def Let_def books_row_event acc books_db_evidence del: event_name.simps)
       (auto simp: books_db_def)
  moreover have "\<exists>n. contribution (evidence_of (map snd (gathered_rows (demo_env k) books_db)) books_db) (([], 0), books_row MERCHANT_PAYABLE_ACCRUED) = obligations_only n
     \<and> (tm_direction n, tm_valueDate n, tm_amountMinor n, tm_nonCash n) = (In, Some (toISOString 0), amount_minor (books_row MERCHANT_PAYABLE_ACCRUED), None)"
    by (simp add: contribution_def payable_contribution_def Let_def books_row_event acc books_db_evidence)
       (auto simp: books_db_def)
  ultimately show ?thesis
    by (auto simp: gatherMovements_def Let_def books_db_rows cash_only_def obligations_only_def)
qed

lemma books_db_runs:
  "\<exists>r s'. runReconciliation (demo_env ''t1'') ''u1'' (Some 0) None books_db = (Inr r, s') \<and> tr_ledgerCashBalance r = 10050
     \<and> tr_attestationId r = None
     \<and> list_all (\<lambda>m. tm_valueDate m \<noteq> None) (gm_cashMovements (gatherMovements (demo_env ''t1'') books_db) @ gm_obligationMovements (gatherMovements (demo_env ''t1'') books_db))"
proof -
  let ?e = "demo_env ''t1''"
  obtain m n x where g: "gatherMovements ?e books_db = \<lparr> gm_cashMovements = [m], gm_obligationMovements = [n], gm_excluded = x \<rparr>"
    and m: "tm_direction m = In" "tm_valueDate m = Some (toISOString 0)" "tm_amountMinor m = amount_minor (books_row INVOICE_PAYMENT_RECEIVED)" "tm_nonCash m = None"
    and n: "tm_direction n = In" "tm_valueDate n = Some (toISOString 0)" "tm_amountMinor n = amount_minor (books_row MERCHANT_PAYABLE_ACCRUED)" "tm_nonCash n = None"
    using books_db_gathered [of "''t1''"] by auto
  have amount: "amount_minor (books_row v) = 10050" for v
  proof -
    have "to_minor (dec_num 10050) SAR = 10050" by code_simp
    then show ?thesis by (simp add: amount_minor_def books_row_def)
  qed
  let ?i = "run_inputs 0 None (gatherMovements ?e books_db) []"
  have legs: "lg_ledgerCash (legs_of ?i) = 10050" "lg_obligationsMinor (legs_of ?i) = 10050"
    by (simp_all add: legs_of_def Let_def run_inputs_def g splitByAsOf_filter byDeterministicOrder_def dated_by_def
        sumMinor_sum signed_def m n amount)
  have "gatherDues ?e books_db = Inr []"
  proof -
    have "filter (\<lambda>r. le_eventType r = event_name MERCHANT_RECEIVABLE_RECOVERED) (map snd (stamped_ledger ?e books_db)) = []"
      by (simp add: stamped_ledger_def books_db_def books_row_def upt_rec demo_env_def)
    then show ?thesis by (simp add: gatherDues_def)
  qed
  then have p: "pendingInternalTransfers ?e books_db = (Inr [], books_db)"
    by (simp add: pendingInternalTransfers_def seq_def)
  have zero: "cashVsObligations (legs_of ?i) = 0" by (rule books_reconcile [OF books_db_paired])
  have d: "to_dec14 (fromMinor 10050 SAR) = Inr 10050" "to_dec14 0 = Inr 0" by code_simp+
  have "non_blank (''finance.treasury.reconciled:'' @ ''t1'')" by code_simp
  from audit_returns [OF this] obtain f where aud: "\<And>i s. audit_guaranteed i (''finance.treasury.reconciled:'' @ ''t1'') s = (Inr (), s\<lparr> db_audit := f i s \<rparr>)"
    by metis
  have tz: "tz_ledgerCashMinor (buildTreasurySnapshot sha ?i) = 10050" "tz_obligationsMinor (buildTreasurySnapshot sha ?i) = 10050"
    "tz_bankVsCashMinor (buildTreasurySnapshot sha ?i) = None" "tz_cashVsObligationsMinor (buildTreasurySnapshot sha ?i) = 0" for sha
    using legs zero by (simp_all add: buildTreasurySnapshot_def Let_def bankVsCash_def run_inputs_def)
  have none: "db_attestations books_db = []" "db_reconciliations books_db = []" by (simp_all add: books_db_def demo_db_def)
  have bank: "bank_leg 0 None books_db = (Inr None, books_db)"
    by (simp add: bank_leg_def truthy_def none first_of_def order_by_def)
  have uuid: "en_uuid ?e n = ''t1''" "en_dbNow ?e = 0" for n by (simp_all add: demo_env_def)
  have "\<exists>r s'. runReconciliation ?e ''u1'' (Some 0) None books_db = (Inr r, s') \<and> tr_ledgerCashBalance r = 10050 \<and> tr_attestationId r = None"
    unfolding runReconciliation_def
    by (simp add: seq_def found_def bank none p run_transaction_def transaction_def dec14_opt_def
        d tz create_def uuid aud [simplified])
  then show ?thesis by (auto simp: g m n)
qed

lemma treasury_reconciles_witness:
  "\<exists>r s'. runReconciliation (demo_env ''t1'') ''u1'' (Some 0) None books_db = (Inr r, s') \<and> tr_ledgerCashBalance r = 10050
     \<and> tr_cashVsObligationsDelta r = 0 \<and> tr_status r = ''pending''"
  using books_db_runs treasury_reconciles [OF books_db_paired, of "demo_env ''t1''" "''u1''" 0 None] by blast

text \<open>
  C8: the books stay paired. Whatever sequence of receipts, refunds, assemblies, supersessions,
  executions, zero-net closes and internal transfers runs, each failing or succeeding, every cash
  posting of client money is followed by its payable of the same amount and anchor.
\<close>

theorem books_stay_paired:
  assumes "books_reached s s'" and "books_paired s"
  shows "books_paired s'"
  using assms
proof (induction rule: books_reached.induct)
  case (receipt s e u ri)
  then show ?case by (intro record_receipt_books)
qed (simp_all add: leaves_paired books_refund books_assemble books_supersede books_execute books_zero_net books_transfer)

lemma books_stay_paired_witness:
  "\<exists>s'. books_reached books_db s' \<and> db_ledger books_db \<noteq> [] \<and> books_paired s'"
proof -
  have "fresh_anchor (en_uuid (demo_env ''P2'') 0) books_db" by code_simp
  then have r: "books_reached books_db (snd (assembleBatch (demo_env ''b1'') ''u1'' ''A'' ''SAR'' (snd (recordReceipt (demo_env ''P2'') ''u1'' ri books_db))))" for ri
    by (intro books_reached.intros)
  from books_stay_paired [OF r books_db_paired] r show ?thesis by (auto simp: books_db_def)
qed

end
