(* ===== verification/Payout.thy ===== *)
theory Payout
  imports Execution Assembly
begin

text \<open>
  What the execution surface guarantees: money leaves only through a recorded preview, enough
  unlapsed approvals by distinct people other than the executor, and an undrifted batch; the
  completion tail can be run again without a second effect; an issued statement replays.
\<close>

section \<open>Frames\<close>

text \<open>Programs that cannot touch the remittances.\<close>

definition remits :: "SettlementRemittance list \<Rightarrow> db \<Rightarrow> bool" where
  "remits R s \<longleftrightarrow> db_remittances s = R"

lemma remits_ledger [keeps_intros]: "keeps (remits R) (ledger_record i)"
  by (rule keepsI) (auto simp: ledger_record_def on_table_iff remits_def)

lemma remits_guaranteed [keeps_intros]: "keeps (remits R) (audit_guaranteed i k)"
  by (rule keepsI) (auto simp: audit_guaranteed_def on_table_iff remits_def)

lemma remits_statement [keeps_intros]: "keeps (remits R) (create_statement r)"
proof -
  have "keeps (remits R) (case ex of P2002 c \<Rightarrow> reads f | _ \<Rightarrow> raise ex)" for ex f
    by (cases ex) (simp_all add: keeps_intros)
  moreover have "keeps (remits R) (create db_statements db_statements_update (\<lambda>x y. st_settlementId y = st_settlementId x) r)"
    by (rule keeps_create) (simp add: remits_def)
  ultimately show ?thesis unfolding create_statement_def by (intro keeps_intros)
qed

lemma remits_attach [keeps_intros]: "keeps (remits R) (attachStatementToCreditNotes e u frozen)"
  unfolding attachStatementToCreditNotes_def attach_one_def Let_def
  by (intro keeps_intros keeps_create keeps_updateMany) (simp_all add: remits_def)

lemma remits_complete [keeps_intros]: "keeps (remits R) (completeChain e u frozen r trail)"
  unfolding completeChain_def ensureStatement_def Let_def by (intro keeps_intros)

lemma complete_remittances: "completeChain e u frozen r trail s = (x, s') \<Longrightarrow> db_remittances s' = db_remittances s"
  using keepsD [OF remits_complete, of "db_remittances s" s e u frozen r trail x s'] by (simp add: remits_def)

section \<open>Votes\<close>

lemma latest_votes:
  "set (latest_by_approver rows) \<subseteq> set rows" "distinct (map sa_approvedBy (latest_by_approver rows))"
proof -
  let ?pick = "\<lambda>u. last (filter (\<lambda>a. sa_approvedBy a = u) rows)"
  have pick: "?pick u \<in> set rows \<and> sa_approvedBy (?pick u) = u" if "u \<in> sa_approvedBy ` set rows" for u
  proof -
    have "filter (\<lambda>a. sa_approvedBy a = u) rows \<noteq> []" using that by (auto simp: filter_empty_conv)
    from last_in_set [OF this] show ?thesis by auto
  qed
  show "set (latest_by_approver rows) \<subseteq> set rows" using pick by (auto simp: latest_by_approver_def)
  have "map sa_approvedBy (latest_by_approver rows) = rev (remdups (rev (map sa_approvedBy rows)))"
    using pick by (auto simp: latest_by_approver_def intro!: map_idI)
  then show "distinct (map sa_approvedBy (latest_by_approver rows))" by simp
qed

definition active_votes :: "instant \<Rightarrow> string \<Rightarrow> db \<Rightarrow> SettlementApproval list" where
  "active_votes nowMs settlementId s =
     filter (\<lambda>a. nowMs - sa_approvedAt a \<le> ttl_ms) (latest_by_approver (approval_rows settlementId s))"

lemma active_votes_rows:
  "v \<in> set (active_votes t sid s) \<Longrightarrow> v \<in> set (db_approvals s) \<and> sa_settlementId v = sid \<and> t - sa_approvedAt v \<le> ttl_ms"
  using latest_votes(1) [of "approval_rows sid s"] by (auto simp: active_votes_def approval_rows_def)

lemma active_votes_distinct: "distinct (map sa_approvedBy (active_votes t sid s))"
  using latest_votes(2) by (simp add: active_votes_def distinct_map_filter)

lemma active_approvals_votes: "active_approvals t (approval_rows sid s) = map to_approval (active_votes t sid s)"
  by (simp add: active_approvals_def active_votes_def)

section \<open>The authorisation of a payout\<close>

definition votes_bind :: "env \<Rightarrow> string \<Rightarrow> SettlementBatch \<Rightarrow> SettlementApproval list \<Rightarrow> db \<Rightarrow> bool" where
  "votes_bind e executor b votes s \<longleftrightarrow>
     votes \<noteq> [] \<and> set votes \<subseteq> set (db_approvals s) \<and> distinct (map sa_approvedBy votes)
     \<and> (\<forall>v \<in> set votes. sa_settlementId v = sb_id b \<and> sa_approvedBy v \<noteq> executor
          \<and> sa_calculationHash v = calculationHash (en_sha e) (sb_calculationSnapshot b)
          \<and> clk e 0 - sa_approvedAt v \<le> ttl_ms)"

text \<open>
  Enough votes for the money: two with a senior seat among them when the batch's net, alone or
  together with what the store was paid on the bank-value day or on the recording day,
  exceeds the upper threshold.
\<close>

definition votes_cover :: "env \<Rightarrow> SettlementBatch \<Rightarrow> instant \<Rightarrow> SettlementApproval list \<Rightarrow> db \<Rightarrow> bool" where
  "votes_cover e b executedAt votes s \<longleftrightarrow>
     (\<exists>net a1 a2. authorizationBasisMinor (frozen_of b) = Inr net
        \<and> dayAggregateMinor (sb_id b) (sb_storeId b) (sb_currency b) executedAt ByExecutedAt s = Inr a1
        \<and> dayAggregateMinor (sb_id b) (sb_storeId b) (sb_currency b) (clk e 2) ByCreatedAt s = Inr a2
        \<and> (t2Minor < max net (net + max a1 a2) \<longrightarrow>
             2 \<le> length votes \<and> (\<exists>v \<in> set votes. sa_approvedBy v \<in> set (senior_list e))))"

definition payout_authorised ::
  "env \<Rightarrow> string \<Rightarrow> SettlementBatch \<Rightarrow> ExecuteInput \<Rightarrow> instant \<Rightarrow> SettlementApproval list \<Rightarrow> db \<Rightarrow> bool"
where
  "payout_authorised e executor b input executedAt votes s \<longleftrightarrow>
     en_gates e = Some ''true'' \<and> sb_status b = B_ready
     \<and> js_trim (xi_bankTransferReference input) \<noteq> [] \<and> xi_executedAt input = Some executedAt
     \<and> xi_previewHash input = calculationHash (en_sha e) (sb_calculationSnapshot b)
     \<and> fresh_preview_act (clk e 0) (sb_id b) (calculationHash (en_sha e) (sb_calculationSnapshot b)) s
     \<and> clk e 0 - executedAt \<le> executedAtMaxAgeHours * hour_ms \<and> executedAt - clk e 0 \<le> executedAtMaxSkewHours * hour_ms
     \<and> votes_bind e executor b votes s \<and> votes_cover e b executedAt votes s
     \<and> (\<forall>k \<in> set (member_ids b). \<exists>i \<in> set (db_items s). si_id i = k \<and> si_batchId i = Some (sb_id b) \<and> si_state i = I_ready)"

lemma frozen_of_sel [simp]:
  "fz_settlementId (frozen_of b) = sb_id b" "fz_settlementReference (frozen_of b) = sb_settlementReference b"
  "fz_storeId (frozen_of b) = sb_storeId b" "fz_currency (frozen_of b) = sb_currency b"
  "fz_calculationSnapshot (frozen_of b) = sb_calculationSnapshot b" "fz_composition (frozen_of b) = sb_composition b"
  "fz_recoveryAllocation (frozen_of b) = sb_recoveryAllocation b"
  by (simp_all add: frozen_of_def)

lemma preview_hash: "buildExecutionPreview sha frozen t = Inr pv \<Longrightarrow> ep_calculationHash pv = calculationHash sha (fz_calculationSnapshot frozen)"
  by (auto simp: buildExecutionPreview_def prog_iff Let_def)

lemma gate_binding_iff:
  "gate_binding sha frozen pv approvals rows u = Inr x \<longleftrightarrow> assertExecutionBinding sha frozen pv approvals u = Inr ()"
  by (auto simp: gate_binding_def split: sum.splits)

lemma binding_votes:
  assumes "assertExecutionBinding sha frozen pv approvals u = Inr ()"
  shows "approvals \<noteq> [] \<and> ep_replayVerified pv
    \<and> (\<forall>a \<in> set approvals. ea_settlementId a = fz_settlementId frozen
        \<and> ea_calculationHash a = calculationHash sha (fz_calculationSnapshot frozen) \<and> ea_approvedBy a \<noteq> u)"
  using assms by (auto simp: assertExecutionBinding_def Let_def check_approvals_iff split: if_splits)

lemma authorize_votes:
  assumes "authorize_execution e u (frozen_of b) h t s = Inr (approvals, req)"
  shows "h = calculationHash (en_sha e) (sb_calculationSnapshot b)"
    and "fresh_preview_act (clk e 0) (sb_id b) (calculationHash (en_sha e) (sb_calculationSnapshot b)) s"
    and "clk e 0 - t \<le> executedAtMaxAgeHours * hour_ms" "t - clk e 0 \<le> executedAtMaxSkewHours * hour_ms"
    and "votes_bind e u b (active_votes (clk e 0) (sb_id b) s) s"
    and "votes_cover e b t (active_votes (clk e 0) (sb_id b) s) s"
proof -
  let ?votes = "active_votes (clk e 0) (sb_id b) s"
  from assms obtain pv a1 a2 net where pv: "buildExecutionPreview (en_sha e) (frozen_of b) (toISOString (clk e 1)) = Inr pv"
    and h: "h = ep_calculationHash pv" and act: "fresh_preview_act (clk e 0) (sb_id b) (ep_calculationHash pv) s"
    and win: "\<not> (clk e 0 - t > executedAtMaxAgeHours * hour_ms \<or> t - clk e 0 > executedAtMaxSkewHours * hour_ms)"
    and gate: "assertExecutionBinding (en_sha e) (frozen_of b) pv (map to_approval ?votes) u = Inr ()"
    and agg: "dayAggregateMinor (sb_id b) (sb_storeId b) (sb_currency b) t ByExecutedAt s = Inr a1"
      "dayAggregateMinor (sb_id b) (sb_storeId b) (sb_currency b) (clk e 2) ByCreatedAt s = Inr a2"
      "authorizationBasisMinor (frozen_of b) = Inr net"
    and suff: "approvals_suffice e (requiredExecutionApproval net (max a1 a2)) (map to_approval ?votes) = Inr ()"
    by (auto simp: authorize_execution_def Let_def prog_iff active_approvals_votes gate_binding_iff)
  have hash: "ep_calculationHash pv = calculationHash (en_sha e) (sb_calculationSnapshot b)"
    using preview_hash [OF pv] by simp
  show "h = calculationHash (en_sha e) (sb_calculationSnapshot b)" using h hash by simp
  show "fresh_preview_act (clk e 0) (sb_id b) (calculationHash (en_sha e) (sb_calculationSnapshot b)) s" using act hash by simp
  show "clk e 0 - t \<le> executedAtMaxAgeHours * hour_ms" "t - clk e 0 \<le> executedAtMaxSkewHours * hour_ms" using win by auto
  show "votes_bind e u b ?votes s"
    using binding_votes [OF gate] active_votes_rows [of _ "clk e 0" "sb_id b" s] active_votes_distinct [of "clk e 0" "sb_id b" s]
    by (auto simp: votes_bind_def to_approval_def)
  show "votes_cover e b t ?votes s"
    using suff agg by (auto simp: votes_cover_def approvals_suffice_def prog_iff requirement_approvals requirement_senior to_approval_def)
qed

section \<open>Running the execution\<close>

lemma loadBatch_run:
  "find (\<lambda>b. sb_id b = bid) (db_batches s) = Some b \<Longrightarrow> loadBatch bid s = (Inr b, s)"
  "find (\<lambda>b. sb_id b = bid) (db_batches s) = None \<Longrightarrow> \<exists>ex. loadBatch bid s = (Inl ex, s)"
  by (simp_all add: loadBatch_def)

definition view_of :: "SettlementBatch \<Rightarrow> FrozenView" where
  "view_of b = \<lparr> fv_status = sb_status b, fv_assembledBy = sb_assembledBy b, fv_closureType = sb_closureType b,
     fv_closedAt = sb_closedAt b, fv_frozen = frozen_of b \<rparr>"

lemma frozenRecord_run:
  "find (\<lambda>b. sb_id b = bid) (db_batches s) = Some b \<Longrightarrow> frozenRecord bid s = (Inr (view_of b), s)"
  by (simp add: frozenRecord_def loadBatch_run view_of_def)

lemma view_of_sel [simp]:
  "fv_status (view_of b) = sb_status b" "fv_frozen (view_of b) = frozen_of b" "fv_assembledBy (view_of b) = sb_assembledBy b"
  "fv_closureType (view_of b) = sb_closureType b" "fv_closedAt (view_of b) = sb_closedAt b"
  by (simp_all add: view_of_def)

lemma still_load [simp]: "still (loadBatch bid)"
  by (auto simp: still_def loadBatch_def found_def)

lemma still_frozenRecord [simp]: "still (frozenRecord bid)"
  unfolding frozenRecord_def by (intro still_seq) simp_all

lemma still_batchItems [simp]: "still (batchItems bid)"
  unfolding batchItems_def by (intro still_seq) simp_all

text \<open>The close inside an execution: nothing, a replay, or one new remittance.\<close>

lemma settle_adds:
  assumes "settle_transaction e u b ev s = (Inr r, s')"
  shows "r = new_remittance e b ev \<and> db_remittances s' = db_remittances s @ [r]"
proof -
  from assms obtain s1 where close: "close_batch b remitted_type (clk e 10) s = (Inr (), s1)"
    and rest: "settle_record u b ev (new_remittance e b ev) (db_remittances_update (\<lambda>t. t @ [new_remittance e b ev]) s1) = (Inr r, s')"
    by (auto simp: settle_transaction_def prog_iff)
  have "keeps (remits R) (settle_record u b ev c)" for R c
    unfolding settle_record_def consumeRecoveryAllocation_def consume_one_def Let_def
    by (intro keeps_intros keeps_updateMany) (simp_all add: remits_def)
  from keepsD [OF this _ rest] have "db_remittances s' = db_remittances s1 @ [new_remittance e b ev]"
    by (simp add: remits_def)
  moreover have "db_remittances s1 = db_remittances s" using close by (auto simp: close_batch_def prog_iff)
  moreover have "r = new_remittance e b ev" using rest by (auto simp: settle_record_def prog_iff)
  ultimately show ?thesis by simp
qed

lemma markSettled_outcome:
  assumes "find (\<lambda>b. sb_id b = bid) (db_batches s) = Some b"
  shows "snd (markSettled e u bid ev s) = s
    \<or> db_remittances (snd (markSettled e u bid ev s)) = db_remittances s @ [new_remittance e b ev]"
proof (cases "sb_status b = B_settled")
  case True
  have "still (seq (reads (\<lambda>s. find (\<lambda>r. rm_settlementId r = bid) (db_remittances s)))
     (\<lambda>read. seq (found read (Conflict ''settled_without_remittance''))
       (\<lambda>remittance. ret \<lparr> sd_batch = b, sd_remittance = remittance, sd_replayed = True \<rparr>)))"
    by (intro still_seq) simp_all
  with True assms show ?thesis
    by (auto simp: markSettled_def loadBatch_run still_def)
next
  case False
  show ?thesis
  proof (cases "assertBatchTransition (sb_status b) B_settled")
    case (Inl ex)
    with False assms show ?thesis by (simp add: markSettled_def loadBatch_run)
  next
    case (Inr x)
    show ?thesis
    proof (cases "settle_transaction e u b ev s")
      case (Pair y s1)
      show ?thesis
      proof (cases y)
        case (Inl ex)
        have "s1 = s" by (rule transaction_rollback [OF Pair [unfolded settle_transaction_def Inl]])
        with False assms Inr Pair Inl show ?thesis by (simp add: markSettled_def loadBatch_run)
      next
        case (Inr r)
        have "snd (seq (loadBatch bid) k s1) = s1" if "\<And>x. still (k x)" for k :: "SettlementBatch \<Rightarrow> (db, Settled) prog"
          using still_seq [OF still_load that] by (simp add: still_def)
        with False assms \<open>assertBatchTransition (sb_status b) B_settled = Inr x\<close> Pair Inr settle_adds [OF Pair [unfolded Inr]]
        show ?thesis by (simp add: markSettled_def loadBatch_run)
      qed
    qed
  qed
qed

lemma undrifted_ready:
  assumes "undrifted (frozen_of b) items" "items = items_of_batch (sb_id b) s"
  shows "\<forall>k \<in> set (member_ids b). \<exists>i \<in> set (db_items s). si_id i = k \<and> si_batchId i = Some (sb_id b) \<and> si_state i = I_ready"
proof
  fix k assume "k \<in> set (member_ids b)"
  then obtain c where c: "c \<in> set (sb_composition b)" "k = fc_itemId c" by (auto simp: member_ids_def)
  with assms(1) obtain i where i: "find (\<lambda>i. si_id i = k) (rev items) = Some i" "si_state i = I_ready"
    by (auto simp: undrifted_def split: option.splits)
  from find_in_set [OF i(1)] i(2) assms(2)
  show "\<exists>i \<in> set (db_items s). si_id i = k \<and> si_batchId i = Some (sb_id b) \<and> si_state i = I_ready"
    by (auto simp: items_of_batch_def)
qed

lemma keeps_step: "keeps (remits R) m \<Longrightarrow> db_remittances s = R \<Longrightarrow> db_remittances (snd (m s)) = R"
  by (auto simp: keeps_def remits_def)

lemma run_after:
  assumes "\<And>x. keeps (remits (db_remittances (snd (m s)))) (k x)"
  shows "db_remittances (snd (seq m k s)) = db_remittances (snd (m s))"
proof (cases "m s")
  case (Pair r t)
  then show ?thesis using assms keeps_step by (cases r) auto
qed

definition ready_lane ::
  "env \<Rightarrow> string \<Rightarrow> string \<Rightarrow> ExecuteInput \<Rightarrow> instant \<Rightarrow> CurrencyCode \<Rightarrow> SettlementBatch \<Rightarrow> (db, ExecutionResult) prog"
where
  "ready_lane e u bid input t currency b =
     (let ref = js_trim (xi_bankTransferReference input);
          netMinor = to_minor (calc_netAmount (sb_calculationSnapshot b)) currency in
      seq (reads (authorize_execution e u (frozen_of b) (xi_previewHash input) t)) (\<lambda>authorized.
      seq (lift authorized) (\<lambda>(approvals, requirement).
      seq (batchItems bid) (\<lambda>items.
      seq (require (undrifted (frozen_of b) items) (Conflict ''batch_drifted'')) (\<lambda>_.
      seq (markSettled e u bid \<lparr> ev_bankTransferReference = ref, ev_executedAt = t, ev_executedBy = u \<rparr>) (\<lambda>settled.
      seq (lift (if sd_replayed settled
                 then assertRemittanceIdentity (sd_remittance settled) ref t netMinor currency else Inr ())) (\<lambda>_.
      completeChain e u (frozen_of b) (sd_remittance settled)
        \<lparr> ct_healed = False, ct_proposer = sb_assembledBy b, ct_approvedBy = Some (map ea_approvedBy approvals),
          ct_requirement = Some requirement \<rparr>)))))))"

lemma ready_lane_pays:
  assumes b: "find (\<lambda>b. sb_id b = bid) (db_batches s) = Some b"
    and front: "en_gates e = Some ''true''" "sb_status b = B_ready" "js_trim (xi_bankTransferReference input) \<noteq> []"
      "xi_executedAt input = Some t"
  shows "db_remittances (snd (ready_lane e u bid input t currency b s)) = db_remittances s
    \<or> (\<exists>votes. payout_authorised e u b input t votes s
        \<and> db_remittances (snd (ready_lane e u bid input t currency b s)) = db_remittances s
            @ [new_remittance e b \<lparr> ev_bankTransferReference = js_trim (xi_bankTransferReference input),
                 ev_executedAt = t, ev_executedBy = u \<rparr>])" (is "?Q (snd (ready_lane e u bid input t currency b s))")
proof -
  have id: "sb_id b = bid" using find_in_set [OF b] by simp
  let ?ev = "\<lparr> ev_bankTransferReference = js_trim (xi_bankTransferReference input), ev_executedAt = t, ev_executedBy = u \<rparr>"
  let ?tail = "\<lambda>approvals requirement settled. seq (lift (if sd_replayed settled
                 then assertRemittanceIdentity (sd_remittance settled) (js_trim (xi_bankTransferReference input)) t
                   (to_minor (calc_netAmount (sb_calculationSnapshot b)) currency) currency else Inr ())) (\<lambda>_.
      completeChain e u (frozen_of b) (sd_remittance settled)
        \<lparr> ct_healed = False, ct_proposer = sb_assembledBy b, ct_approvedBy = Some (map ea_approvedBy approvals),
          ct_requirement = Some requirement \<rparr>)"
  have pay: "?Q (snd (seq (markSettled e u bid ?ev) (?tail approvals requirement) s))"
    if auth: "authorize_execution e u (frozen_of b) (xi_previewHash input) t s = Inr (approvals, requirement)"
      and drift: "undrifted (frozen_of b) (items_of_batch bid s)" for approvals requirement
  proof -
    have "payout_authorised e u b input t (active_votes (clk e 0) (sb_id b) s) s"
      using front authorize_votes [OF auth] undrifted_ready [OF drift] id by (simp add: payout_authorised_def)
    moreover have "db_remittances (snd (seq (markSettled e u bid ?ev) (?tail approvals requirement) s))
        = db_remittances (snd (markSettled e u bid ?ev s))"
      by (rule run_after) (intro keeps_intros)
    ultimately show ?thesis using markSettled_outcome [OF b, of e u ?ev] by auto
  qed
  have items: "batchItems bid s = (Inr (items_of_batch bid s), s)"
    by (simp add: batchItems_def loadBatch_run(1) [OF b])
  show ?thesis
  proof (cases "authorize_execution e u (frozen_of b) (xi_previewHash input) t s")
    case (Inl ex)
    then show ?thesis by (simp add: ready_lane_def Let_def)
  next
    case (Inr ar)
    obtain approvals requirement where ar: "ar = (approvals, requirement)" by (cases ar)
    show ?thesis
    proof (cases "undrifted (frozen_of b) (items_of_batch bid s)")
      case True
      have "ready_lane e u bid input t currency b s = seq (markSettled e u bid ?ev) (?tail approvals requirement) s"
        using Inr True by (simp add: ready_lane_def Let_def items ar)
      with pay [OF Inr [unfolded ar] True] show ?thesis by simp
    next
      case False
      with Inr show ?thesis by (simp add: ready_lane_def Let_def items ar)
    qed
  qed
qed

lemma execute_front:
  assumes b: "find (\<lambda>b. sb_id b = bid) (db_batches s) = Some b"
  shows "snd (execute e u bid input s) = s
    \<or> (\<exists>t c. en_gates e = Some ''true'' \<and> js_trim (xi_bankTransferReference input) \<noteq> [] \<and> xi_executedAt input = Some t
        \<and> asCurrencyCode (sb_currency b) = Inr c \<and> 0 < to_minor (calc_netAmount (sb_calculationSnapshot b)) c
        \<and> (sb_status b = B_settled \<or> sb_status b = B_ready \<and> execute e u bid input s = ready_lane e u bid input t c b s))"
proof -
  have view: "frozenRecord bid s = (Inr (view_of b), s)" by (rule frozenRecord_run [OF b])
  show ?thesis
  proof (cases "en_gates e = Some ''true'' \<and> js_trim (xi_bankTransferReference input) \<noteq> []")
    case False
    then show ?thesis by (cases "en_gates e = Some ''true''") (simp_all add: execute_def assertGatesOpen_def Let_def)
  next
    case gates: True
    show ?thesis
    proof (cases "xi_executedAt input")
      case None
      with gates show ?thesis by (simp add: execute_def assertGatesOpen_def Let_def)
    next
      case (Some t)
      note front = gates Some
      show ?thesis
      proof (cases "sb_status b = B_ready \<or> sb_status b = B_settled")
        case False
        with front show ?thesis by (simp add: execute_def assertGatesOpen_def Let_def view)
      next
        case True
        show ?thesis
        proof (cases "asCurrencyCode (sb_currency b)")
          case (Inl ex)
          with True front show ?thesis by (auto simp: execute_def assertGatesOpen_def Let_def view)
        next
          case (Inr c)
          consider "to_minor (calc_netAmount (sb_calculationSnapshot b)) c = 0"
            | "to_minor (calc_netAmount (sb_calculationSnapshot b)) c < 0"
            | "0 < to_minor (calc_netAmount (sb_calculationSnapshot b)) c" by linarith
          then show ?thesis
            using True front Inr
            by cases (auto simp: execute_def assertGatesOpen_def Let_def view ready_lane_def cong: if_cong)
        qed
      qed
    qed
  qed
qed

lemma keeps_attachment: "keeps (remits R) (seq (found v ex) (\<lambda>x. seq (lift (f x)) (\<lambda>_. completeChain e u frozen x trail)))"
  by (intro keeps_intros)

lemma execute_settled:
  assumes b: "find (\<lambda>b. sb_id b = bid) (db_batches s) = Some b" and "sb_status b = B_settled"
    and "en_gates e = Some ''true''" "js_trim (xi_bankTransferReference input) \<noteq> []" "xi_executedAt input = Some t"
      "asCurrencyCode (sb_currency b) = Inr c" "0 < to_minor (calc_netAmount (sb_calculationSnapshot b)) c"
  shows "db_remittances (snd (execute e u bid input s)) = db_remittances s"
proof -
  have "frozenRecord bid s = (Inr (view_of b), s)" by (rule frozenRecord_run [OF b])
  then show ?thesis
    using assms(2-) by (simp add: execute_def assertGatesOpen_def Let_def keeps_step [OF keeps_attachment])
qed

lemma execute_unknown:
  assumes "find (\<lambda>b. sb_id b = bid) (db_batches s) = None"
  shows "snd (execute e u bid input s) = s"
proof -
  obtain ex where "frozenRecord bid s = (Inl ex, s)"
    using loadBatch_run(2) [OF assms] by (auto simp: frozenRecord_def)
  then show ?thesis
    by (auto simp: execute_def assertGatesOpen_def Let_def check_def require_def found_def seq_def split: option.splits)
qed

section \<open>Running the completion tail again\<close>

lemma ledger_record_again:
  assumes "ledger_record i s = (Inr r, s1)" and "trimmed_or_null (li_idempotencyKey i) \<noteq> None" and "db_ledger s2 = db_ledger s1"
  shows "\<exists>r'. ledger_record i s2 = (Inr r', s2)"
proof -
  from assms(1) have run: "record_entry i (db_ledger s) = (Inr r, db_ledger s1)"
    by (auto simp: ledger_record_def on_table_iff)
  then obtain v where v: "validate_entry i = Inr v" by (auto simp: record_entry_def prog_iff)
  obtain k where k: "trimmed_or_null (li_idempotencyKey i) = Some k" using assms(2) by auto
  have "\<exists>r' \<in> set (db_ledger s2). le_idempotencyKey r' = Some k" using record_entry_key [OF run] k assms(3) by auto
  moreover have "le_idempotencyKey v = Some k" using validate_entry_key [OF v] k by simp
  ultimately obtain r0 where "keyed_post le_idempotencyKey insert_entry v (db_ledger s2) = (Inr r0, db_ledger s2)"
    using ledger.post_existing by blast
  then show ?thesis using v by (simp add: ledger_record_def on_table_def record_entry_def)
qed

lemma audit_again:
  assumes "audit_guaranteed i k s = (Inr u, s1)" and "non_blank k"
  shows "audit_guaranteed j k s1 = (Inr (), s1)"
proof -
  have "db_audit s1 = snd (recordGuaranteed i k (db_audit s))" using assms(1) by (auto simp: audit_guaranteed_def on_table_iff)
  then have "audited k (db_audit s1)" using recordGuaranteed_audited [OF assms(2)] by simp
  then show ?thesis using assms(2) by (simp add: audit_guaranteed_def on_table_def recordGuaranteed_replay)
qed

lemma create_statement_effect:
  assumes "create_statement r s = (Inr v, s1)"
  shows "find (\<lambda>x. st_settlementId x = st_settlementId r) (db_statements s1) = v \<and> v \<noteq> None
    \<and> db_ledger s1 = db_ledger s"
proof (cases "\<exists>y \<in> set (db_statements s). st_settlementId y = st_settlementId r")
  case True
  then have "find (\<lambda>x. st_settlementId x = st_settlementId r) (db_statements s) \<noteq> None" by (auto simp: find_None_iff)
  with True assms show ?thesis by (auto simp: create_statement_def create_def attempt_def seq_def)
next
  case False
  then have new: "find (\<lambda>x. st_settlementId x = st_settlementId r) (db_statements s @ [r]) = Some r"
    by (intro find_snoc) auto
  have "create_statement r s = (Inr (Some r), db_statements_update (\<lambda>t. t @ [r]) s)"
    using False by (auto simp: create_statement_def create_def attempt_def seq_def)
  with assms have "v = Some r" "s1 = db_statements_update (\<lambda>t. t @ [r]) s" by simp_all
  with new show ?thesis by simp
qed

lemma create_statement_again:
  assumes "find (\<lambda>x. st_settlementId x = st_settlementId r) (db_statements s) = Some v"
  shows "create_statement r s = (Inr (Some v), s)"
  using assms find_in_set [OF assms] by (auto simp: create_statement_def create_def attempt_def seq_def)

text \<open>The note of an allocation, if there is one, already carries its statement.\<close>

definition note_attached :: "RecoveryAllocation \<Rightarrow> db \<Rightarrow> bool" where
  "note_attached a s \<longleftrightarrow>
     (case find (\<lambda>n. nf_refundId (cn_facts n) = ra_occurrenceId a) (db_creditNotes s) of
        None \<Rightarrow> True | Some n \<Rightarrow> nf_statementSettlementId (cn_facts n) \<noteq> None)"

lemma note_attached_audit [keeps_intros]: "keeps (note_attached a) (audit_guaranteed i k)"
  by (rule keepsI) (auto simp: audit_guaranteed_def on_table_iff note_attached_def)

lemma note_attached_update:
  "keeps (note_attached a) (updateMany db_creditNotes db_creditNotes_update
     (\<lambda>n. nf_refundId (cn_facts n) = oc \<and> nf_statementSettlementId (cn_facts n) = None)
     (\<lambda>n. n\<lparr> cn_facts := (cn_facts n)\<lparr> nf_statementSettlementId := Some sid \<rparr>, cn_canonicalJson := cj,
             cn_documentHash := dh, cn_currentVersion := v \<rparr>))"
  by (auto simp: keeps_def note_attached_def find_update_where split: option.splits)

lemma note_attached_keeps: "keeps (note_attached a) (attach_one e u frozen a')"
  unfolding attach_one_def Let_def
  by (intro keeps_intros note_attached_update keeps_create) (simp add: note_attached_def)

lemma note_update_attaches:
  assumes "find (\<lambda>n. nf_refundId (cn_facts n) = ra_occurrenceId a) (db_creditNotes s) = Some cn"
    and "nf_statementSettlementId (cn_facts cn) = None"
  shows "note_attached a (snd (updateMany db_creditNotes db_creditNotes_update
     (\<lambda>n. nf_refundId (cn_facts n) = ra_occurrenceId a \<and> nf_statementSettlementId (cn_facts n) = None)
     (\<lambda>n. n\<lparr> cn_facts := (cn_facts n)\<lparr> nf_statementSettlementId := Some sid \<rparr>, cn_canonicalJson := cj,
             cn_documentHash := dh, cn_currentVersion := v \<rparr>) s))"
  using assms find_in_set [OF assms(1)] by (simp add: note_attached_def find_update_where)

lemma after_update:
  assumes "seq (updateMany get upd p f) k s = (Inr x, s1)" and "I (snd (updateMany get upd p f s))" and "\<And>n. keeps I (k n)"
  shows "I s1"
  using assms keepsD [of I] by (fastforce simp: seq_iff)

lemma attach_one_attaches:
  assumes "attach_one e u frozen a s = (Inr x, s1)"
  shows "note_attached a s1"
proof (cases "find (\<lambda>n. nf_refundId (cn_facts n) = ra_occurrenceId a) (db_creditNotes s)")
  case None
  with assms show ?thesis by (auto simp: attach_one_def note_attached_def)
next
  case (Some cn)
  show ?thesis
  proof (cases "nf_statementSettlementId (cn_facts cn)")
    case (Some y)
    with assms \<open>find (\<lambda>n. nf_refundId (cn_facts n) = ra_occurrenceId a) (db_creditNotes s) = Some cn\<close>
    show ?thesis by (auto simp: attach_one_def note_attached_def)
  next
    case None
    with assms Some show ?thesis
      unfolding attach_one_def Let_def
      by (simp del: updateMany_run One_nat_def)
         (erule after_update; (intro note_update_attaches keeps_intros keeps_create; simp add: note_attached_def)?)
  qed
qed

lemma attach_again: "note_attached a s \<Longrightarrow> attach_one e u frozen a s = (Inr (), s)"
  by (auto simp: note_attached_def attach_one_def split: option.splits)

lemma each_attaches:
  assumes "each (attach_one e u frozen) as s = (Inr (), s1)" and "a \<in> set as"
  shows "note_attached a s1"
  using assms
proof (induction "as" arbitrary: s)
  case (Cons a' "as")
  then obtain s2 where s2: "attach_one e u frozen a' s = (Inr (), s2)" "each (attach_one e u frozen) as s2 = (Inr (), s1)"
    by (auto simp: each_Cons_iff simp del: each.simps)
  show ?case
  proof (cases "a \<in> set as")
    case True
    then show ?thesis by (rule Cons.IH [OF s2(2)])
  next
    case False
    then have "a = a'" using Cons.prems(2) by simp
    then have "note_attached a s2" using attach_one_attaches s2(1) by blast
    moreover have "keeps (note_attached a) (each (attach_one e u frozen) as)" by (rule keeps_each) (rule note_attached_keeps)
    ultimately show ?thesis using keepsD [of "note_attached a" "each (attach_one e u frozen) as" s2 "Inr ()" s1] s2(2) by simp
  qed
qed simp

lemma each_attach_again:
  "\<forall>a \<in> set as. note_attached a s \<Longrightarrow> each (attach_one e u frozen) as s = (Inr (), s)"
  by (induction "as") (simp_all add: attach_again)

definition posted :: "LedgerEntry list \<Rightarrow> SettlementStatementRecord list \<Rightarrow> db \<Rightarrow> bool" where
  "posted L T s \<longleftrightarrow> db_ledger s = L \<and> db_statements s = T"

lemma posted_audit [keeps_intros]: "keeps (posted L T) (audit_guaranteed i k)"
  by (rule keepsI) (auto simp: audit_guaranteed_def on_table_iff posted_def)

lemma posted_attach: "keeps (posted L T) (attachStatementToCreditNotes e u frozen)"
  unfolding attachStatementToCreditNotes_def attach_one_def Let_def
  by (intro keeps_intros keeps_create keeps_updateMany) (simp_all add: posted_def)

lemma notes_audit: "keeps (\<lambda>s. \<forall>a \<in> set as. note_attached a s) (audit_guaranteed i k)"
  by (rule keepsI) (auto simp: audit_guaranteed_def on_table_iff note_attached_def)

lemma ensure_statement_record:
  assumes "ensureStatement e frozen r s = (Inr v, s1)"
  shows "\<exists>rec. st_settlementId rec = fz_settlementId frozen \<and> create_statement rec s = (Inr v, s1)"
proof -
  from assms obtain stm where "create_statement (statement_record e frozen stm (clk e 20)) s = (Inr v, s1)"
    unfolding ensureStatement_def Let_def seq_iff lift_iff by blast
  then show ?thesis by (intro exI [of _ "statement_record e frozen stm (clk e 20)"]) (simp add: statement_record_def Let_def)
qed

lemma ensure_statement_again:
  assumes "find (\<lambda>x. st_settlementId x = fz_settlementId frozen) (db_statements s) = Some v"
  shows "ensureStatement e frozen r s = (Inr (Some v), s)"
proof -
  obtain stm where stm: "generateSettlementStatement (en_sha e) frozen (toISOString (clk e 20)) (Some (remittance_evidence r)) None = Inr stm"
    by (simp add: generateSettlementStatement_def Let_def)
  have "st_settlementId (statement_record e frozen stm (clk e 20)) = fz_settlementId frozen"
    by (simp add: statement_record_def Let_def)
  with assms create_statement_again [of "statement_record e frozen stm (clk e 20)"] stm
  show ?thesis by (simp add: ensureStatement_def Let_def)
qed

lemma completion_key: "non_blank (''settlement.execution.completed:'' @ k)"
  using settlement_audit_key [of "''execution.completed:'' @ k"] by simp

lemma completeChain_iff:
  "completeChain e u frozen r trail s = (Inr x, s') \<longleftrightarrow>
     (\<exists>v s1 s2 s3. ledger_record ((ledger_base MERCHANT_REMITTANCE_PAID ''MERCHANT_REMITTANCE'' u
            (Fin (moneyToNumber (MoneyDecimal (rm_amount r)))) (fz_currency frozen) ''credit'')
            \<lparr> li_counterpartyType := Some ''merchant'', li_storeId := Some (fz_storeId frozen),
              li_idempotencyKey := Some (ledgerIdempotencyKey MERCHANT_REMITTANCE_PAID (rm_id r)),
              li_metadata := Some (JObj
                [(''settlementId'', JStr (fz_settlementId frozen)),
                 (''settlementReference'', JStr (fz_settlementReference frozen)),
                 (''bankTransferReference'', JStr (rm_bankTransferReference r)),
                 (''account'', JStr ''safeguarding'')]) \<rparr>) s = (Inr v, s1)
      \<and> ensureStatement e frozen r s1 = (Inr (er_statement x), s2)
      \<and> attachStatementToCreditNotes e u frozen s2 = (Inr (), s3)
      \<and> audit_guaranteed (audit_input u
            (if ct_healed trail then ''settlement.execution.healed'' else ''settlement.batch.executed'')
            ''store'' (Some (fz_storeId frozen))
            ([(''settlementId'', JStr (fz_settlementId frozen)),
              (''settlementReference'', JStr (fz_settlementReference frozen)),
              (''remittanceId'', JStr (rm_id r)),
              (''bankTransferReference'', JStr (rm_bankTransferReference r)),
              (''amount'', JNum (moneyToNumber (MoneyDecimal (rm_amount r)))),
              (''currency'', JStr (fz_currency frozen)), (''executedBy'', JStr u)]
             @ trail_fields trail (er_statement x)))
            (''settlement.execution.completed:'' @ fz_settlementId frozen) s3 = (Inr (), s')
      \<and> x = \<lparr> er_settlementReference = fz_settlementReference frozen, er_remittance = Some r, er_statement = er_statement x \<rparr>)"
  unfolding completeChain_def seq_iff ret_iff by (auto simp del: append.simps)

lemma completion_again:
  assumes "completeChain e u frozen r trail s = (Inr x, s')"
  shows "\<exists>x'. completeChain e' u frozen r trail' s' = (Inr x', s') \<and> er_statement x' = er_statement x
    \<and> er_statement x \<noteq> None"
proof -
  let ?post = "ledger_record ((ledger_base MERCHANT_REMITTANCE_PAID ''MERCHANT_REMITTANCE'' u
            (Fin (moneyToNumber (MoneyDecimal (rm_amount r)))) (fz_currency frozen) ''credit'')
            \<lparr> li_counterpartyType := Some ''merchant'', li_storeId := Some (fz_storeId frozen),
              li_idempotencyKey := Some (ledgerIdempotencyKey MERCHANT_REMITTANCE_PAID (rm_id r)),
              li_metadata := Some (JObj
                [(''settlementId'', JStr (fz_settlementId frozen)),
                 (''settlementReference'', JStr (fz_settlementReference frozen)),
                 (''bankTransferReference'', JStr (rm_bankTransferReference r)),
                 (''account'', JStr ''safeguarding'')]) \<rparr>)"
  let ?as = "case fz_recoveryAllocation frozen of None \<Rightarrow> [] | Some a \<Rightarrow> a"
  from assms obtain v s1 s2 s3 i where post: "?post s = (Inr v, s1)"
    and st: "ensureStatement e frozen r s1 = (Inr (er_statement x), s2)"
    and att0: "attachStatementToCreditNotes e u frozen s2 = (Inr (), s3)"
    and aud: "audit_guaranteed i (''settlement.execution.completed:'' @ fz_settlementId frozen) s3 = (Inr (), s')"
    unfolding completeChain_iff by blast
  from ensure_statement_record [OF st] obtain rec where "st_settlementId rec = fz_settlementId frozen"
    "create_statement rec s1 = (Inr (er_statement x), s2)" by blast
  from create_statement_effect [OF this(2)] this(1) obtain w where
    w: "find (\<lambda>y. st_settlementId y = fz_settlementId frozen) (db_statements s2) = Some w" "er_statement x = Some w"
      "db_ledger s2 = db_ledger s1" by auto
  have "posted (db_ledger s2) (db_statements s2) s3" by (rule keepsD [OF posted_attach _ att0]) (simp add: posted_def)
  from keepsD [OF posted_audit this aud] have same: "db_ledger s' = db_ledger s1" "db_statements s' = db_statements s2"
    using w(3) by (simp_all add: posted_def)
  have "\<forall>a \<in> set ?as. note_attached a s3"
    using each_attaches [OF att0 [unfolded attachStatementToCreditNotes_def]] by blast
  from keepsD [OF notes_audit this aud] have att: "\<forall>a \<in> set ?as. note_attached a s'" .
  have "\<exists>v'. ?post s' = (Inr v', s')"
    by (rule ledger_record_again [OF post _ same(1)]) (simp add: order_key_some)
  then obtain v' where post': "?post s' = (Inr v', s')" by blast
  have st': "ensureStatement e' frozen r s' = (Inr (Some w), s')"
    by (rule ensure_statement_again) (simp add: same(2) w(1))
  have att': "attachStatementToCreditNotes e' u frozen s' = (Inr (), s')"
    using each_attach_again [OF att] by (simp add: attachStatementToCreditNotes_def)
  let ?x = "\<lparr> er_settlementReference = fz_settlementReference frozen, er_remittance = Some r, er_statement = Some w \<rparr>"
  have "completeChain e' u frozen r trail' s' = (Inr ?x, s')"
    unfolding completeChain_iff using post' st' att' audit_again [OF aud completion_key]
    by (intro exI conjI) (assumption | simp)+
  then show ?thesis using w(2) by auto
qed

lemma completion_returns:
  assumes "0 < rm_amount r" "rm_amount r < 10 ^ 12" "ledger_currency (fz_currency frozen)" "fz_recoveryAllocation frozen = None"
  shows "\<exists>x s'. completeChain e u frozen r trail s = (Inr x, s')"
proof -
  let ?post = "ledger_record ((ledger_base MERCHANT_REMITTANCE_PAID ''MERCHANT_REMITTANCE'' u
            (Fin (moneyToNumber (MoneyDecimal (rm_amount r)))) (fz_currency frozen) ''credit'')
            \<lparr> li_counterpartyType := Some ''merchant'', li_storeId := Some (fz_storeId frozen),
              li_idempotencyKey := Some (ledgerIdempotencyKey MERCHANT_REMITTANCE_PAID (rm_id r)),
              li_metadata := Some (JObj
                [(''settlementId'', JStr (fz_settlementId frozen)),
                 (''settlementReference'', JStr (fz_settlementReference frozen)),
                 (''bankTransferReference'', JStr (rm_bankTransferReference r)),
                 (''account'', JStr ''safeguarding'')]) \<rparr>)"
  have "\<exists>v. validate_entry ((ledger_base MERCHANT_REMITTANCE_PAID ''MERCHANT_REMITTANCE'' u
            (Fin (dec_num (rm_amount r))) (fz_currency frozen) ''credit'')
            \<lparr> li_counterpartyType := Some ''merchant'', li_storeId := Some (fz_storeId frozen),
              li_idempotencyKey := Some (ledgerIdempotencyKey MERCHANT_REMITTANCE_PAID (rm_id r)),
              li_metadata := Some (JObj
                [(''settlementId'', JStr (fz_settlementId frozen)),
                 (''settlementReference'', JStr (fz_settlementReference frozen)),
                 (''bankTransferReference'', JStr (rm_bankTransferReference r)),
                 (''account'', JStr ''safeguarding'')]) \<rparr>) = Inr v"
    using assms(1-3) by (intro money_valid) (simp_all add: js_trim_def js_space_def)
  then have "\<exists>v lg. ?post s = (Inr v, s\<lparr> db_ledger := lg \<rparr>)"
    by (elim exE, intro ledger_returns) (simp_all add: ledger_base_def)
  then obtain v lg where post: "?post s = (Inr v, s\<lparr> db_ledger := lg \<rparr>)" by blast
  obtain stm where stm: "generateSettlementStatement (en_sha e) frozen (toISOString (clk e 20)) (Some (remittance_evidence r)) None = Inr stm"
    by (simp add: generateSettlementStatement_def Let_def)
  have "\<exists>w s2. create_statement (statement_record e frozen stm (clk e 20)) (s\<lparr> db_ledger := lg \<rparr>) = (Inr w, s2)"
    by (auto simp: create_statement_def create_def attempt_def seq_def)
  then obtain w s2 where st: "ensureStatement e frozen r (s\<lparr> db_ledger := lg \<rparr>) = (Inr w, s2)"
    using stm by (elim exE) (simp add: ensureStatement_def Let_def)
  have notes0: "attachStatementToCreditNotes e u frozen s2 = (Inr (), s2)"
    by (simp add: attachStatementToCreditNotes_def assms(4))
  have "\<forall>i. \<exists>s'. audit_guaranteed i (''settlement.execution.completed:'' @ fz_settlementId frozen) s2 = (Inr (), s')"
    using audit_returns [OF completion_key] by blast
  then obtain f where aud: "\<And>i. audit_guaranteed i (''settlement.execution.completed:'' @ fz_settlementId frozen) s2 = (Inr (), f i)"
    by (auto simp: choice_iff)
  let ?x = "\<lparr> er_settlementReference = fz_settlementReference frozen, er_remittance = Some r, er_statement = w \<rparr>"
  have "\<exists>s'. completeChain e u frozen r trail s = (Inr ?x, s')"
    unfolding completeChain_iff using post st notes0 aud
    by (intro exI conjI) (assumption | simp)+
  then show ?thesis by blast
qed

section \<open>Properties\<close>

text \<open>
  C3: money leaves only when it is authorised. Whatever input it is given, an execution
  either leaves the remittances as they were, or adds exactly one, for a ready batch, with the
  batch's frozen net, currency, store and reference and the evidence supplied; and then the
  deployment's gates were attested, a preview of exactly the frozen calculation was recorded
  within the time to live, distinct people other than the executor approved that calculation
  within it, in the number and with the senior seat the day's total requires, the value date
  lies in the window, and every member of the batch was still ready and bound to it.
\<close>

theorem execute_pays_only_when_authorised:
  "db_remittances (snd (execute e u bid input s)) = db_remittances s
    \<or> (\<exists>b t votes. find (\<lambda>b. sb_id b = bid) (db_batches s) = Some b \<and> payout_authorised e u b input t votes s
        \<and> db_remittances (snd (execute e u bid input s)) = db_remittances s
            @ [new_remittance e b \<lparr> ev_bankTransferReference = js_trim (xi_bankTransferReference input),
                 ev_executedAt = t, ev_executedBy = u \<rparr>])"
proof (cases "find (\<lambda>b. sb_id b = bid) (db_batches s)")
  case None
  from execute_unknown [OF this] show ?thesis by simp
next
  case (Some b)
  from execute_front [OF Some, of e u input] show ?thesis
  proof (elim disjE exE conjE)
    fix t c assume "sb_status b = B_settled" "en_gates e = Some ''true''" "js_trim (xi_bankTransferReference input) \<noteq> []"
      "xi_executedAt input = Some t" "asCurrencyCode (sb_currency b) = Inr c"
      "0 < to_minor (calc_netAmount (sb_calculationSnapshot b)) c"
    from execute_settled [OF Some this] show ?thesis by simp
  next
    fix t c assume front: "en_gates e = Some ''true''" "sb_status b = B_ready" "js_trim (xi_bankTransferReference input) \<noteq> []"
      "xi_executedAt input = Some t" and lane: "execute e u bid input s = ready_lane e u bid input t c b s"
    from ready_lane_pays [OF Some front, where u = u and currency = c] show ?thesis unfolding lane using Some by blast
  qed simp
qed

text \<open>
  C12: finishing a payout is idempotent. Once the completion tail has returned (the remittance
  posting, the statement, the credit-note attachments and the audit), running it again, at any
  later clock and on whatever trail, returns the same statement and leaves the whole database
  exactly as it is.
\<close>

theorem completion_idempotent:
  assumes "completeChain e u frozen r trail s = (Inr x, s')"
  shows "\<exists>x'. completeChain e' u frozen r trail' s' = (Inr x', s') \<and> er_statement x' = er_statement x
    \<and> er_statement x \<noteq> None"
  by (rule completion_again [OF assms])

definition demo_frozen :: FrozenBatchRecord where
  "demo_frozen = \<lparr> fz_settlementId = ''b1'', fz_settlementReference = ''QS-1'', fz_storeId = ''A'', fz_currency = ''SAR'',
     fz_windowType = ''manual'', fz_composition = [], fz_calculationSnapshot = settlement_calculation SAR 10050 no_adjustments 1,
     fz_recoveryAllocation = None \<rparr>"

definition demo_remittance :: SettlementRemittance where
  "demo_remittance = \<lparr> rm_id = ''m1'', rm_settlementId = ''b1'', rm_settlementReference = ''QS-1'', rm_storeId = ''A'',
     rm_currency = ''SAR'', rm_amount = 10050, rm_bankTransferReference = ''T1'', rm_executedAt = 0,
     rm_executedBy = ''u2'', rm_createdAt = 0 \<rparr>"

definition demo_trail :: ChainTrail where
  "demo_trail = \<lparr> ct_healed = False, ct_proposer = None, ct_approvedBy = Some [''u3''], ct_requirement = None \<rparr>"

lemma completion_idempotent_witness:
  "\<exists>x s' x'. completeChain (demo_env ''x'') ''u2'' demo_frozen demo_remittance demo_trail demo_db = (Inr x, s')
     \<and> completeChain (demo_env ''y'') ''u2'' demo_frozen demo_remittance (demo_trail\<lparr> ct_healed := True \<rparr>) s' = (Inr x', s')
     \<and> er_statement x' = er_statement x"
proof -
  have "ledger_currency (fz_currency demo_frozen)" using ledger_currency_str [of SAR] by (simp add: demo_frozen_def)
  then obtain x s' where "completeChain (demo_env ''x'') ''u2'' demo_frozen demo_remittance demo_trail demo_db = (Inr x, s')"
    using completion_returns [of demo_remittance demo_frozen] by (fastforce simp: demo_frozen_def demo_remittance_def)
  with completion_idempotent [OF this, of "demo_env ''y''" "demo_trail\<lparr> ct_healed := True \<rparr>"] show ?thesis by blast
qed

text \<open>
  C16: an approval is a second person's vote on exact content. When \<open>approve\<close> returns, it
  has appended one vote and touched no other vote; the vote quotes the hash of the frozen
  calculation, is not by the batch's proposer, and its author had no other vote on this batch
  within the time to live.
\<close>

theorem approval_is_a_second_pair_of_eyes:
  assumes "approve e u bid quoted note s = (Inr (vote, requirement), s')"
  shows "\<exists>b proposer. find (\<lambda>b. sb_id b = bid) (db_batches s) = Some b \<and> sb_status b = B_ready
    \<and> sb_assembledBy b = Some proposer \<and> u \<noteq> proposer
    \<and> db_approvals s' = db_approvals s @ [vote]
    \<and> sa_approvedBy vote = u \<and> sa_settlementId vote = bid
    \<and> sa_calculationHash vote = calculationHash (en_sha e) (sb_calculationSnapshot b) \<and> quoted = sa_calculationHash vote
    \<and> (\<forall>a \<in> set (db_approvals s). sa_settlementId a = bid \<and> sa_approvedBy a = u \<longrightarrow> ttl_ms < clk e 0 - sa_approvedAt a)"
proof -
  obtain b where b: "find (\<lambda>b. sb_id b = bid) (db_batches s) = Some b"
    using assms by (cases "find (\<lambda>b. sb_id b = bid) (db_batches s)")
      (auto simp: approve_def seq_iff frozenRecord_def loadBatch_def found_iff)
  then have id: "sb_id b = bid" using find_in_set [OF b] by simp
  note view = frozenRecord_run [OF b]
  have guard: "(if c then Inr () else Inl ex) = Inr y \<longleftrightarrow> c" for c :: bool and ex :: exn and y :: unit
    by simp
  have raised: "(case ex of P2002 c \<Rightarrow> raise x | _ \<Rightarrow> raise ex) s1 = (Inr y, s2) \<longleftrightarrow> False"
    for ex x y and s1 s2 :: db
    by (cases ex) simp_all
  have att: "attempt m (\<lambda>ex. case ex of P2002 c \<Rightarrow> raise x | _ \<Rightarrow> raise ex) s1 = (Inr y, s2) \<longleftrightarrow> m s1 = (Inr y, s2)"
    for m :: "(db, SettlementApproval) prog" and x y s1 s2
    by (auto simp: attempt_def raised split: prod.splits sum.splits)
  from assms view id have front: "sb_status b = B_ready" "truthy (sb_assembledBy b)" "Some u \<noteq> sb_assembledBy b"
      "quoted = calculationHash (en_sha e) (sb_calculationSnapshot b)"
      "\<not> (\<exists>r \<in> set (filter (\<lambda>a. sa_settlementId a = bid \<and> sa_approvedBy a = u) (db_approvals s)). clk e 0 - sa_approvedAt r \<le> ttl_ms)"
    and tx: "vote = \<lparr> sa_id = en_uuid e 0, sa_settlementId = sb_id b,
               sa_settlementReference = sb_settlementReference b,
               sa_calculationHash = calculationHash (en_sha e) (sb_calculationSnapshot b),
               sa_requiredLevel = rq_level requirement, sa_approvedBy = u,
               sa_approvedAt = clk e 2, sa_note = trimmed_or_null note \<rparr>"
      "\<exists>i k. audit_guaranteed i k (db_approvals_update (\<lambda>t. t @ [vote]) s) = (Inr (), s')"
    by (auto simp: approve_def Let_def guard seq_iff require_iff lift_iff reads_iff ret_iff transaction_iff create_iff att
        simp del: append.simps split: prod.splits)
  from tx have "db_approvals s' = db_approvals s @ [vote]" "sa_approvedBy vote = u" "sa_settlementId vote = bid"
      "sa_calculationHash vote = calculationHash (en_sha e) (sb_calculationSnapshot b)"
    using id by (auto simp: audit_guaranteed_def on_table_iff simp del: append.simps)
  moreover obtain proposer where "sb_assembledBy b = Some proposer" using front(2) by (auto simp: truthy_def split: option.splits)
  ultimately show ?thesis
    using b front by (intro exI [of _ b] exI [of _ proposer]) auto
qed

definition demo_batch :: SettlementBatch where
  "demo_batch = \<lparr> sb_id = ''b1'', sb_settlementReference = ''QS-1'', sb_storeId = ''A'', sb_currency = ''SAR'',
     sb_status = B_ready, sb_windowType = ''manual'', sb_grossAmount = 10050, sb_netAmount = 10050, sb_composition = [],
     sb_calculationSnapshot = settlement_calculation SAR 10050 no_adjustments 1, sb_supersededById = None,
     sb_failureEvidence = None, sb_closureType = None, sb_closedAt = None, sb_assembledBy = Some ''u1'',
     sb_recoveryAllocation = None, sb_createdAt = 0 \<rparr>"

lemma approval_is_a_second_pair_of_eyes_witness:
  "\<exists>vote requirement s'. approve (demo_env ''v1'') ''u2'' ''b1''
       (calculationHash (\<lambda>x. x) (sb_calculationSnapshot demo_batch)) None (demo_db\<lparr> db_batches := [demo_batch] \<rparr>)
       = (Inr (vote, requirement), s')
     \<and> db_approvals s' = [vote] \<and> sa_approvedBy vote = ''u2''"
proof -
  let ?s = "demo_db\<lparr> db_batches := [demo_batch] \<rparr>" and ?h = "calculationHash (\<lambda>x. x) (sb_calculationSnapshot demo_batch)"
  have find: "find (\<lambda>b. sb_id b = ''b1'') (db_batches ?s) = Some demo_batch" by (simp add: demo_batch_def)
  obtain net where net: "authorizationBasisMinor (frozen_of demo_batch) = Inr net"
    by (simp add: authorizationBasisMinor_def demo_batch_def sar_code Let_def)
  have agg: "dayAggregateMinor ''b1'' ''A'' ''SAR'' 0 ByCreatedAt ?s = Inr 0"
    by (simp add: dayAggregateMinor_def zeroNetClosedGrossMinor_def sar_code demo_db_def demo_batch_def Let_def)
  have sel: "sb_status demo_batch = B_ready" "sb_assembledBy demo_batch = Some ''u1''" "sb_id demo_batch = ''b1''"
    "sb_storeId demo_batch = ''A''" "sb_currency demo_batch = ''SAR''" "clk (demo_env ''v1'') n = 0"
    "en_sha (demo_env ''v1'') = (\<lambda>x. x)" "db_approvals ?s = []" for n
    by (simp_all add: demo_batch_def demo_env_def demo_db_def)
  have "\<exists>au. audit_guaranteed i (''settlement.execution.approved:'' @ k) s1 = (Inr (), s1\<lparr> db_audit := au \<rparr>)" for i k s1
    using audit_returns [OF settlement_audit_key [of "''execution.approved:'' @ k"]] by simp
  then obtain f where aud: "\<And>i k s1. audit_guaranteed i (''settlement.execution.approved:'' @ k) s1 = (Inr (), s1\<lparr> db_audit := f i k s1 \<rparr>)"
    by metis
  have "\<exists>vote requirement s'. approve (demo_env ''v1'') ''u2'' ''b1'' ?h None ?s = (Inr (vote, requirement), s')"
    by (simp add: approve_def frozenRecord_run [OF find] sel net agg truthy_def Let_def create_def attempt_def
        transaction_def seq_def aud del: append.simps)
  then obtain vote requirement s' where run: "approve (demo_env ''v1'') ''u2'' ''b1'' ?h None ?s = (Inr (vote, requirement), s')"
    by blast
  from approval_is_a_second_pair_of_eyes [OF run] have "db_approvals s' = [vote]" "sa_approvedBy vote = ''u2''"
    using sel(8) by auto
  with run show ?thesis by blast
qed

text \<open>
  C13: what was issued replays. If the statement of a closed batch was issued for the
  remittance it still has, then a later replay, whoever runs it and whenever, reproduces the
  stored statement bit for bit: its integrity holds and the regenerated hash equals the stored
  one; the replay is recorded, and the statement itself is untouched.
\<close>

theorem issued_statement_replays:
  assumes "ensureStatement e (frozen_of b) r s = (Inr (Some st), s1)"
    and "\<forall>y \<in> set (db_statements s). st_settlementId y \<noteq> sb_id b"
    and "find (\<lambda>x. sb_id x = sb_id b) (db_batches s2) = Some b2" "frozen_of b2 = frozen_of b"
    and "find (\<lambda>y. st_settlementId y = sb_id b) (db_statements s2) = Some st"
    and "find (\<lambda>y. rm_settlementId y = sb_id b) (db_remittances s2) = Some r"
    and "recompute (frozen_of b) = Inr calc" and "en_sha e' = en_sha e"
    and "\<forall>y \<in> set (db_replays s2). rp_id y \<noteq> en_uuid e' 0"
  shows "\<exists>x s3 row. replay e' u (sb_id b) s2 = (Inr x, s3)
    \<and> rr_statementIdentical x \<and> rr_statementIntegrityVerified x
    \<and> rr_regeneratedStatementHash x = rr_storedStatementHash x
    \<and> db_replays s3 = db_replays s2 @ [row] \<and> rp_statementIdentical row \<and> db_statements s3 = db_statements s2"
proof -
  let ?issued = "clk e 20" and ?sha = "en_sha e"
  let ?gen = "\<lambda>t. generateSettlementStatement ?sha (frozen_of b) t (Some (remittance_evidence r)) None"
  obtain stm where stm: "?gen (toISOString ?issued) = Inr stm" and closure: "ss_closure stm = None"
    by (simp add: generateSettlementStatement_def Let_def)
  have new: "st = statement_record e (frozen_of b) stm ?issued"
  proof -
    have "create_statement (statement_record e (frozen_of b) stm ?issued) s = (Inr (Some st), s1)"
      using assms(1) stm by (simp add: ensureStatement_def Let_def)
    then show ?thesis
      using assms(2) by (auto simp: create_statement_def create_def attempt_def seq_def statement_record_def Let_def split: if_splits)
  qed
  have st: "st_issuedAt st = ?issued" "st_payload st = stm" "st_canonicalJson st = canonicalJson (statement_json stm)"
    "st_statementHash st = hashCanonical ?sha (canonicalJson (statement_json stm))"
    by (simp_all add: new statement_record_def Let_def)
  have integrity: "statementIntegrityOk e' st" using assms(8) by (simp add: statementIntegrityOk_def st)
  obtain pv where pv: "buildExecutionPreview ?sha (frozen_of b) (toISOString ?issued) = Inr pv"
    using assms(7) by (simp add: buildExecutionPreview_def generateSettlementStatement_def Let_def)
  have hash: "statementHash ?sha stm = st_statementHash st" by (simp add: statementHash_def st)
  obtain vw where view: "frozenRecord (sb_id b) s2 = (Inr vw, s2)" "fv_frozen vw = frozen_of b"
    using frozenRecord_run [OF assms(3)] assms(4) by simp
  define row where "row = \<lparr> rp_id = en_uuid e' 0, rp_settlementId = sb_id b,
             rp_settlementReference = sb_settlementReference b,
             rp_replayEngineVersion = REPLAY_ENGINE_VERSION,
             rp_calculationReplayVerified = ep_replayVerified pv,
             rp_statementIntegrityVerified = True, rp_statementIdentical = True,
             rp_ranBy = u, rp_ranAt = clk e' 0 \<rparr>"
  let ?s3 = "db_replays_update (\<lambda>t. t @ [row]) s2"
  have create: "create db_replays db_replays_update (\<lambda>x y. rp_id y = rp_id x) row s2 = (Inr row, ?s3)"
    using assms(9) by (auto simp: create_def row_def)
  have "\<exists>au. audit_record i s3 = (Inr (), s3\<lparr> db_audit := au \<rparr>)" for i s3
    by (simp add: audit_record_def on_table_def) (cases s3; simp)
  then obtain f where aud: "\<And>i s3. audit_record i s3 = (Inr (), s3\<lparr> db_audit := f i s3 \<rparr>)" by metis
  have "\<exists>x s3. replay e' u (sb_id b) s2 = (Inr x, s3) \<and> rr_statementIdentical x \<and> rr_statementIntegrityVerified x
    \<and> rr_regeneratedStatementHash x = rr_storedStatementHash x
    \<and> db_replays s3 = db_replays s2 @ [row] \<and> db_statements s3 = db_statements s2"
    using assms(8) stm pv
    by (simp add: replay_def Let_def view assms(5,6) integrity st(1,2) closure hash create aud
        row_def [symmetric])
  then show ?thesis by (auto simp: row_def)
qed

definition demo_entry :: FrozenCompositionEntry where
  "demo_entry = \<lparr> fc_itemId = ''i1'', fc_occurrenceType = ''gift'', fc_occurrenceId = ''i1'', fc_amount = 100,
     fc_currency = ''SAR'', fc_references = None \<rparr>"

lemma issued_statement_replays_witness:
  "\<exists>st s1 x s3. ensureStatement (demo_env ''x'') (frozen_of (demo_batch\<lparr> sb_composition := [demo_entry] \<rparr>)) demo_remittance demo_db = (Inr (Some st), s1)
     \<and> replay (demo_env ''y'') ''u9'' ''b1'' (demo_db\<lparr> db_batches := [demo_batch\<lparr> sb_composition := [demo_entry], sb_status := B_settled \<rparr>],
          db_statements := [st], db_remittances := [demo_remittance] \<rparr>) = (Inr x, s3)
     \<and> rr_statementIdentical x"
proof -
  let ?b = "demo_batch\<lparr> sb_composition := [demo_entry] \<rparr>"
  have sel: "sb_id ?b = ''b1''" "sb_id (?b\<lparr> sb_status := B_settled \<rparr>) = ''b1''" "frozen_of (?b\<lparr> sb_status := B_settled \<rparr>) = frozen_of ?b"
    "rm_settlementId demo_remittance = ''b1''" "en_sha (demo_env k) = (\<lambda>x. x)" for k
    by (simp_all add: demo_batch_def frozen_of_def demo_remittance_def demo_env_def)
  have empty: "db_statements demo_db = []" "db_replays demo_db = []" by (simp_all add: demo_db_def)
  obtain st s1 where st: "ensureStatement (demo_env ''x'') (frozen_of ?b) demo_remittance demo_db = (Inr (Some st), s1)"
    by (simp add: ensureStatement_def generateSettlementStatement_def Let_def create_statement_def create_def attempt_def seq_def empty)
  then have id: "st_settlementId st = ''b1''"
    by (auto simp: ensureStatement_def generateSettlementStatement_def Let_def create_statement_def create_def attempt_def
        seq_def empty statement_record_def sel demo_batch_def)
  have "\<exists>calc. recompute (frozen_of ?b) = Inr calc"
    using sar_code by (simp add: recompute_def calculateSettlement_def demo_entry_def replay_item_def prog_iff bindr_def)
  then obtain calc where calc: "recompute (frozen_of ?b) = Inr calc" by blast
  let ?s2 = "demo_db\<lparr> db_batches := [?b\<lparr> sb_status := B_settled \<rparr>], db_statements := [st], db_remittances := [demo_remittance] \<rparr>"
  have "\<exists>x s3 row. replay (demo_env ''y'') ''u9'' (sb_id ?b) ?s2 = (Inr x, s3)
    \<and> rr_statementIdentical x \<and> rr_statementIntegrityVerified x
    \<and> rr_regeneratedStatementHash x = rr_storedStatementHash x
    \<and> db_replays s3 = db_replays ?s2 @ [row] \<and> rp_statementIdentical row \<and> db_statements s3 = db_statements ?s2"
    by (rule issued_statement_replays [OF st _ _ sel(3) _ _ calc]) (simp_all add: empty sel id)
  then show ?thesis using st unfolding sel(1) by (simp add: demo_batch_def) blast
qed

end
