(* ===== verification/Collection.thy ===== *)
theory Collection
  imports Receipts
begin

text \<open>
  What collecting money guarantees: a bank transfer is recorded at most once and never beyond
  what the invoice still owes, whatever happens after it in the same call; and an invoice only
  ever reads as paid because receipts cover it.
\<close>

section \<open>Frames\<close>

definition receipts_are :: "PaymentReceipt list \<Rightarrow> db \<Rightarrow> bool" where
  "receipts_are R s \<longleftrightarrow> db_receipts s = R"

lemma receipts_ledger [keeps_intros]: "keeps (receipts_are R) (ledger_record i)"
  by (rule keepsI) (auto simp: ledger_record_def on_table_iff receipts_are_def)

lemma receipts_guaranteed [keeps_intros]: "keeps (receipts_are R) (audit_guaranteed i k)"
  by (rule keepsI) (auto simp: audit_guaranteed_def on_table_iff receipts_are_def)

lemma receipts_audit [keeps_intros]: "keeps (receipts_are R) (audit_record i)"
  by (rule keepsI) (auto simp: audit_record_def on_table_iff receipts_are_def)

lemma receipts_corporate [keeps_intros]: "keeps (receipts_are R) (updateMany db_corporate db_corporate_update p f)"
  by (rule keeps_updateMany) (simp add: receipts_are_def)

lemma receipts_merchant [keeps_intros]: "keeps (receipts_are R) (updateMany db_merchant db_merchant_update p f)"
  by (rule keeps_updateMany) (simp add: receipts_are_def)

lemma receipts_items [keeps_intros]: "keeps (receipts_are R) (create db_items db_items_update cl i)"
  by (rule keeps_create) (simp add: receipts_are_def)

lemma keeps_swallow [keeps_intros]: "keeps I (m ()) \<Longrightarrow> keeps I (case ex of P2002 c \<Rightarrow> m () | _ \<Rightarrow> raise ex)"
  by (cases ex) (simp_all add: keeps_intros)

lemma receipts_artifacts [keeps_intros]: "keeps (receipts_are R) (ensureCoverageArtifacts e u t v)"
  unfolding ensureCoverageArtifacts_def Let_def
  by (intro keeps_intros keeps_swallow [where m = "\<lambda>_. ret ()"])

lemma receipts_close [keeps_intros]: "keeps (receipts_are R) (close_by_credit u i v p)"
  unfolding close_by_credit_def by (intro keeps_intros)

lemma receipts_paid [keeps_intros]: "keeps (receipts_are R) (paid_audit u t i v c x)"
  unfolding paid_audit_def by (intro keeps_intros)

lemma receipts_flip [keeps_intros]: "keeps (receipts_are R) (flip_paid t i d)"
  unfolding flip_paid_def by (intro keeps_intros)

lemma receipts_heal [keeps_intros]: "keeps (receipts_are R) (heal_paid e u t i v c)"
  unfolding heal_paid_def by (intro keeps_intros)

lemma receipts_derive [keeps_intros]: "keeps (receipts_are R) (deriveAndApplyCoverage e u t i)"
  unfolding deriveAndApplyCoverage_def Let_def by (intro keeps_intros)

lemma receipts_receipt_audit [keeps_intros]: "keeps (receipts_are R) (receipt_audit u t v r a b)"
  unfolding receipt_audit_def by (intro keeps_intros)

lemma keeps_run: "keeps (receipts_are R) m \<Longrightarrow> db_receipts s = R \<Longrightarrow> db_receipts (snd (m s)) = R"
  by (auto simp: keeps_def receipts_are_def)

section \<open>The receipt transaction\<close>

text \<open>One receipt, within what the invoice owes, under a reference not used before.\<close>

definition lands :: "string \<Rightarrow> RecordReceiptInput \<Rightarrow> int \<Rightarrow> PaymentReceipt \<Rightarrow> db \<Rightarrow> bool" where
  "lands actor input amountMinor r s \<longleftrightarrow>
     (\<exists>v. loadInvoice (ri_invoiceType input) (ri_invoiceId input) s = Inr v \<and> if_status v = ''issued''
        \<and> pr_invoiceType r = ri_invoiceType input \<and> pr_invoiceId r = ri_invoiceId input
        \<and> pr_bankReference r = js_trim (ri_bankReference input) \<and> Some (pr_receivedAt r) = ri_receivedAt input
        \<and> pr_amount r = amountMinor \<and> 0 < amountMinor \<and> pr_recordedBy r = actor
        \<and> find_receipt (pr_invoiceType r) (pr_invoiceId r) (pr_bankReference r) s = None
        \<and> receiptTotalMinor (pr_invoiceType r) (pr_invoiceId r) s + amountMinor
            \<le> to_minor (if_totalAmount v) SAR - feeCreditsMinor (pr_invoiceType r) (pr_invoiceId r) s)"

lemma loadInvoice_id: "loadInvoice t i s = Inr v \<Longrightarrow> if_id v = i"
  by (auto simp: loadInvoice_def prog_iff split: if_splits option.splits dest: find_in_set)

lemma sar_digits [simp]: "minorDigitsFor SAR = 2"
  by simp

lemma receipt_transaction_effect:
  assumes "receipt_transaction e u input ref d m s = (Inr landing, s')" and "0 < m"
    and "ref = js_trim (ri_bankReference input)" "ri_receivedAt input = Some d"
  shows "(\<exists>r v. landing = Existing r v \<and> s' = s)
    \<or> (\<exists>r v. landing = Landed r v \<and> lands u input m r s \<and> db_receipts s' = db_receipts s @ [r])"
proof -
  from assms(1) obtain v where v: "loadInvoice (ri_invoiceType input) (ri_invoiceId input) s = Inr v"
    by (auto simp: receipt_transaction_def Let_def transaction_iff seq_iff lift_iff reads_iff)
  note id = loadInvoice_id [OF v]
  show ?thesis
  proof (cases "find_receipt (ri_invoiceType input) (ri_invoiceId input) ref s")
    case (Some r)
    with assms(1) v id show ?thesis
      by (auto simp: receipt_transaction_def Let_def transaction_iff)
  next
    case None
    let ?amount = "fromMinor m SAR"
    from assms(1) v id None obtain k r where issued: "if_status v = ''issued''"
      and bal: "receiptTotalMinor (ri_invoiceType input) (ri_invoiceId input) s + m
        \<le> to_minor (if_totalAmount v) SAR - feeCreditsMinor (ri_invoiceType input) (ri_invoiceId input) s"
      and k: "to_dec ?amount = Inr k"
      and r: "r = \<lparr> pr_id = en_uuid e 0, pr_invoiceType = ri_invoiceType input, pr_invoiceId = ri_invoiceId input,
                  pr_orgId = Some (if_orgId v), pr_campaignId = Some (if_campaignId v),
                  pr_storeId = if_storeId v, pr_amount = k, pr_currency = ''SAR'',
                  pr_rail = (case ri_rail input of None \<Rightarrow> ''manual_bank_transfer'' | Some x \<Rightarrow> x),
                  pr_bankReference = ref, pr_receivedAt = d, pr_recordedBy = u \<rparr>"
      and rest: "receipt_ledger u (ri_invoiceType input) v r ?amount (db_receipts_update (\<lambda>t. t @ [r]) s) = (Inr (), s')"
      and landing: "landing = Landed r v"
      by (auto simp: receipt_transaction_def Let_def transaction_iff seq_iff reads_iff lift_iff require_iff create_iff ret_iff
          simp del: require_run reads_run)
    have "keeps (receipts_are R) (receipt_ledger u (ri_invoiceType input) v r ?amount)" for R
      unfolding receipt_ledger_def by (intro keeps_intros)
    from keepsD [OF this _ rest] have "db_receipts s' = db_receipts s @ [r]" by (simp add: receipts_are_def)
    moreover have "k = m" using k to_dec_fromMinorD [OF sar_digits] by blast
    ultimately show ?thesis
      using landing v id issued bal r None assms(2-4) by (auto simp: lands_def)
  qed
qed

section \<open>Recording a receipt\<close>

lemma land_receipt_receipts:
  assumes "0 < m" "ref = js_trim (ri_bankReference input)" "ri_receivedAt input = Some d"
  shows "db_receipts (snd (land_receipt e u input ref d m s)) = db_receipts s
    \<or> (\<exists>r. lands u input m r s \<and> db_receipts (snd (land_receipt e u input ref d m s)) = db_receipts s @ [r])"
proof -
  let ?tx = "receipt_transaction e u input ref d m"
  let ?k = "\<lambda>landing. case landing of
           Landed r v \<Rightarrow> ret (Inr (r, v))
         | Existing r v \<Rightarrow>
             seq (require (receipt_matches r m d) (Conflict ''receipt_reference_conflict'')) (\<lambda>_.
             seq (deriveAndApplyCoverage e u (ri_invoiceType input) (ri_invoiceId input)) (\<lambda>cov.
             ret (Inl \<lparr> rc_receipt = r, rc_replayed = True, rc_coverage = cov \<rparr>)))"
  let ?h = "\<lambda>ex. case ex of
           P2002 c \<Rightarrow>
             seq (reads (find_receipt (ri_invoiceType input) (ri_invoiceId input) ref)) (\<lambda>existing.
             case existing of
               None \<Rightarrow> raise ex
             | Some r \<Rightarrow>
                 seq (require (receipt_matches r m d) (Conflict ''receipt_reference_conflict'')) (\<lambda>_.
                 seq (reads (loadInvoice (ri_invoiceType input) (ri_invoiceId input))) (\<lambda>loaded.
                 seq (lift loaded) (\<lambda>v.
                 seq (receipt_audit u (ri_invoiceType input) v r (fromMinor m SAR) ref) (\<lambda>_.
                 seq (deriveAndApplyCoverage e u (ri_invoiceType input) (ri_invoiceId input)) (\<lambda>cov.
                 ret (Inl \<lparr> rc_receipt = r, rc_replayed = True, rc_coverage = cov \<rparr>)))))))
         | _ \<Rightarrow> raise ex"
  have land: "land_receipt e u input ref d m = attempt (seq ?tx ?k) ?h"
    by (simp add: land_receipt_def Let_def)
  have h: "keeps (receipts_are R) (?h ex)" for R ex
    by (cases ex; simp only: exn.case; intro keeps_intros)
  have k: "keeps (receipts_are R) (?k landing)" for R landing
    by (cases landing; simp only: ReceiptLanding.case; intro keeps_intros)
  have rest: "db_receipts (snd (attempt (seq ?tx ?k) ?h s)) = db_receipts (snd (?tx s))"
  proof (cases "?tx s")
    case (Pair x s1)
    show ?thesis
    proof (cases x)
      case (Inl ex)
      with Pair keeps_run [OF h refl] show ?thesis by (simp add: attempt_def)
    next
      case (Inr landing)
      with Pair have step: "seq ?tx ?k s = ?k landing s1" by simp
      obtain y s2 where y: "?k landing s1 = (y, s2)" by (cases "?k landing s1")
      then have "db_receipts s2 = db_receipts s1" using keeps_run [OF k refl, of landing s1] by simp
      moreover have "db_receipts (snd (?h ex s2)) = db_receipts s2" for ex by (rule keeps_run [OF h refl])
      ultimately show ?thesis using step y Pair by (cases y) (simp_all add: attempt_def)
    qed
  qed
  show ?thesis
  proof (cases "?tx s")
    case (Pair x s1)
    show ?thesis
    proof (cases x)
      case (Inl ex)
      have "s1 = s" by (rule transaction_rollback [OF Pair [unfolded receipt_transaction_def Let_def Inl]])
      with rest Pair show ?thesis unfolding land by simp
    next
      case (Inr landing)
      from receipt_transaction_effect [OF Pair [unfolded Inr] assms] rest Pair show ?thesis unfolding land by auto
    qed
  qed
qed

section \<open>Payment statuses\<close>

type_synonym status_row = "string \<times> string \<times> instant option"

definition invoice_statuses :: "db \<Rightarrow> status_row list \<times> status_row list" where
  "invoice_statuses s =
     (map (\<lambda>c. (ci_id c, ci_status c, ci_paidAt c)) (db_corporate s),
      map (\<lambda>m. (mi_id m, mi_status m, mi_paidAt m)) (db_merchant s))"

definition mark_paid :: "string \<Rightarrow> instant \<Rightarrow> status_row list \<Rightarrow> status_row list" where
  "mark_paid i d rows = map (\<lambda>(k, st, p). if k = i \<and> st = ''issued'' then (k, ''paid'', Some d) else (k, st, p)) rows"

definition statuses_are :: "status_row list \<times> status_row list \<Rightarrow> db \<Rightarrow> bool" where
  "statuses_are S s \<longleftrightarrow> invoice_statuses s = S"

lemma statuses_ledger [keeps_intros]: "keeps (statuses_are S) (ledger_record i)"
  by (rule keepsI) (auto simp: ledger_record_def on_table_iff statuses_are_def invoice_statuses_def)

lemma statuses_guaranteed [keeps_intros]: "keeps (statuses_are S) (audit_guaranteed i k)"
  by (rule keepsI) (auto simp: audit_guaranteed_def on_table_iff statuses_are_def invoice_statuses_def)

lemma statuses_audit [keeps_intros]: "keeps (statuses_are S) (audit_record i)"
  by (rule keepsI) (auto simp: audit_record_def on_table_iff statuses_are_def invoice_statuses_def)

lemma statuses_balance [keeps_intros]:
  "keeps (statuses_are S) (updateMany db_corporate db_corporate_update p (\<lambda>c. c\<lparr> ci_balanceStatus := b \<rparr>))"
  by (simp add: keeps_def statuses_are_def invoice_statuses_def map_update_where)

lemma statuses_artifacts [keeps_intros]: "keeps (statuses_are S) (ensureCoverageArtifacts e u t v)"
  unfolding ensureCoverageArtifacts_def Let_def
  by (intro keeps_intros keeps_swallow [where m = "\<lambda>_. ret ()"] keeps_create)
     (simp_all add: statuses_are_def invoice_statuses_def)

lemma statuses_close [keeps_intros]: "keeps (statuses_are S) (close_by_credit u i v p)"
  unfolding close_by_credit_def by (intro keeps_intros)

lemma statuses_paid [keeps_intros]: "keeps (statuses_are S) (paid_audit u t i v c x)"
  unfolding paid_audit_def by (intro keeps_intros)

lemma statuses_heal [keeps_intros]: "keeps (statuses_are S) (heal_paid e u t i v c)"
  unfolding heal_paid_def by (intro keeps_intros)

lemma statuses_run: "keeps (statuses_are S) m \<Longrightarrow> invoice_statuses s = S \<Longrightarrow> invoice_statuses (snd (m s)) = S"
  by (auto simp: keeps_def statuses_are_def)

lemma flip_statuses:
  "invoice_statuses (snd (flip_paid t i d s)) =
     (if t = merchant_type then (fst (invoice_statuses s), mark_paid i d (snd (invoice_statuses s)))
      else (mark_paid i d (fst (invoice_statuses s)), snd (invoice_statuses s)))"
  by (auto simp: flip_paid_def invoice_statuses_def mark_paid_def update_where_def)

text \<open>Receipts cover what the invoice owes after its credits.\<close>

definition covered_by_receipts :: "string \<Rightarrow> string \<Rightarrow> db \<Rightarrow> bool" where
  "covered_by_receipts t i s \<longleftrightarrow> receipts_of t i s \<noteq> []
     \<and> (case loadInvoice t i s of Inl ex \<Rightarrow> False
        | Inr v \<Rightarrow> to_minor (if_totalAmount v) SAR - feeCreditsMinor t i s \<le> receiptTotalMinor t i s)"

definition ordered_receipts :: "string \<Rightarrow> string \<Rightarrow> db \<Rightarrow> PaymentReceipt list" where
  "ordered_receipts t i s = order_by (\<lambda>r. (pr_receivedAt r, pr_id r)) (receipts_of t i s)"

lemma ordered_receipts_minor: "receipts_minor (ordered_receipts t i s) = receiptTotalMinor t i s"
proof -
  have "mset (ordered_receipts t i s) = mset (receipts_of t i s)"
    by (simp add: ordered_receipts_def order_by_def)
  then have "mset (map f (ordered_receipts t i s)) = mset (map f (receipts_of t i s))" for f :: "PaymentReceipt \<Rightarrow> int"
    by simp
  then show ?thesis unfolding receipts_minor_def receiptTotalMinor_def by (metis sum_mset_sum_list)
qed

lemma position_covered:
  "loadInvoice t i s = Inr v \<Longrightarrow>
     ps_coveredByPayment (position_of t i v (ordered_receipts t i s) s) = covered_by_receipts t i s"
proof -
  have "ordered_receipts t i s = [] \<longleftrightarrow> receipts_of t i s = []"
    by (metis ordered_receipts_def set_empty set_order_by)
  then show "loadInvoice t i s = Inr v \<Longrightarrow> ?thesis"
    by (simp add: position_of_def covered_by_receipts_def ordered_receipts_minor Let_def)
qed

section \<open>Properties\<close>

text \<open>
  C9: a bank transfer is recorded at most once and never beyond the balance. Whatever happens
  in a call of \<open>recordReceipt\<close>, failures after the transaction included, the receipts table
  either stays as it was or gains exactly one row: for an issued invoice, with the amount
  asked for to the last minor unit, under a bank reference that had no receipt on this
  invoice, and with the receipts of the invoice still within its total less its credits.
\<close>

theorem receipts_never_exceed_balance:
  "db_receipts (snd (recordReceipt e u input s)) = db_receipts s
    \<or> (\<exists>m r. toMinor (ri_amount input) SAR = Inr m \<and> lands u input m r s
         \<and> db_receipts (snd (recordReceipt e u input s)) = db_receipts s @ [r])" (is "?Q (snd (recordReceipt e u input s))")
proof -
  have core: "?Q (snd (seq (land_receipt e u input (js_trim (ri_bankReference input)) d m) (\<lambda>landed.
     case landed of
       Inl result \<Rightarrow> ret result
     | Inr (receipt, v) \<Rightarrow>
         seq (receipt_audit u (ri_invoiceType input) v receipt (fromMinor m SAR) (js_trim (ri_bankReference input))) (\<lambda>_.
         seq (deriveAndApplyCoverage e u (ri_invoiceType input) (if_id v)) (\<lambda>cov.
         ret \<lparr> rc_receipt = receipt, rc_replayed = False, rc_coverage = cov \<rparr>))) s))"
    if "toMinor (ri_amount input) SAR = Inr m" "0 < m" "ri_receivedAt input = Some d" for d m
  proof -
    let ?land = "land_receipt e u input (js_trim (ri_bankReference input)) d m"
    have tail: "keeps (receipts_are R) (case landed of
       Inl result \<Rightarrow> ret result
     | Inr (receipt, v) \<Rightarrow>
         seq (receipt_audit u (ri_invoiceType input) v receipt (fromMinor m SAR) (js_trim (ri_bankReference input))) (\<lambda>_.
         seq (deriveAndApplyCoverage e u (ri_invoiceType input) (if_id v)) (\<lambda>cov.
         ret \<lparr> rc_receipt = receipt, rc_replayed = False, rc_coverage = cov \<rparr>)))" for R landed
      by (cases landed) (auto intro: keeps_intros split: prod.splits)
    have "db_receipts (snd (seq ?land k s)) = db_receipts (snd (?land s))"
      if "\<And>x R. keeps (receipts_are R) (k x)" for k :: "ReceiptResult + PaymentReceipt \<times> InvoiceFacts \<Rightarrow> (db, ReceiptResult) prog"
    proof (cases "?land s")
      case (Pair x s1)
      then show ?thesis using keeps_run [OF that refl] by (cases x) simp_all
    qed
    from this [OF tail] land_receipt_receipts [OF that(2) refl that(3), of e u s] that(1) show ?thesis by auto
  qed
  show ?thesis
    unfolding recordReceipt_def Let_def
    by ((rule still_step [where Q = ?Q and s = s], (rule still_simps), (rule disjI1 [OF refl]))+, rule core)
       (simp_all add: found_iff split: if_splits)
qed

text \<open>
  C10: paid means paid. Deriving the coverage of an invoice leaves the status and the payment
  date of every invoice alone, unless the receipts recorded for it cover its total less its
  credits; then it turns exactly that invoice, if it was issued, into a paid one, dated with
  the last receipt. In particular a credit never makes an invoice read as paid.
\<close>

theorem paid_only_by_receipts:
  "invoice_statuses (snd (deriveAndApplyCoverage e u t i s)) = invoice_statuses s
    \<or> (covered_by_receipts t i s
       \<and> invoice_statuses (snd (deriveAndApplyCoverage e u t i s)) =
           (let d = pr_receivedAt (last (ordered_receipts t i s)) in
            if t = merchant_type then (fst (invoice_statuses s), mark_paid i d (snd (invoice_statuses s)))
            else (mark_paid i d (fst (invoice_statuses s)), snd (invoice_statuses s))))"
proof (cases "loadInvoice t i s")
  case (Inl ex)
  then show ?thesis by (simp add: deriveAndApplyCoverage_def)
next
  case (Inr v)
  let ?r = "ordered_receipts t i s" and ?p = "position_of t i v (ordered_receipts t i s) s"
  let ?S = "invoice_statuses s" and ?res = "coverage_of t i v (ordered_receipts t i s) (position_of t i v (ordered_receipts t i s) s)"
  let ?bal = "if t = corporate_type \<and> balance_status ?p = ''partially_credited''
          then updateMany db_corporate db_corporate_update
                 (\<lambda>c. ci_id c = i \<and> ci_balanceStatus c = ''open'')
                 (\<lambda>c. c\<lparr> ci_balanceStatus := ''partially_credited'' \<rparr>)
          else ret 0"
  let ?tail = "\<lambda>flipped. seq (if flipped = 1
          then paid_audit u t i v ?res (''paidAt'', JStr (toISOString (pr_receivedAt (last ?r))))
          else ret ()) (\<lambda>_.
     seq (ensureCoverageArtifacts e u t v) (\<lambda>_.
     ret (?res\<lparr> cov_status := ''paid'' \<rparr>)))"
  have run: "deriveAndApplyCoverage e u t i s =
      (if t = corporate_type \<and> balance_status ?p \<noteq> ''open'' \<and> ps_coveredByCredit ?p
       then seq (close_by_credit u i v ?p) (\<lambda>_. ret ?res) s
       else seq ?bal (\<lambda>_. if \<not> ps_coveredByPayment ?p \<or> if_status v = ''paid''
         then (if if_status v = ''paid'' then heal_paid e u t i v ?res else ret ?res)
         else seq (flip_paid t i (pr_receivedAt (last ?r))) ?tail) s)"
    unfolding deriveAndApplyCoverage_def Let_def by (simp only: seq_def reads_def lift_def Inr prod.case sum.case
        ordered_receipts_def if_distribR)
  have bal: "\<exists>n s1. ?bal s = (Inr n, s1) \<and> invoice_statuses s1 = ?S"
    by (simp add: invoice_statuses_def map_update_where)
  then obtain n s1 where bal: "?bal s = (Inr n, s1)" "invoice_statuses s1 = ?S" by blast
  have tail: "keeps (statuses_are S) (?tail k)" for S k by (intro keeps_intros)
  consider "t = corporate_type \<and> balance_status ?p \<noteq> ''open'' \<and> ps_coveredByCredit ?p"
    | "\<not> (t = corporate_type \<and> balance_status ?p \<noteq> ''open'' \<and> ps_coveredByCredit ?p)"
      "\<not> ps_coveredByPayment ?p \<or> if_status v = ''paid''"
    | "\<not> (t = corporate_type \<and> balance_status ?p \<noteq> ''open'' \<and> ps_coveredByCredit ?p)"
      "ps_coveredByPayment ?p" "if_status v \<noteq> ''paid''" by blast
  then show ?thesis
  proof cases
    case 1
    have "keeps (statuses_are ?S) (seq (close_by_credit u i v ?p) (\<lambda>_. ret ?res))" by (intro keeps_intros)
    from statuses_run [OF this refl] have "invoice_statuses (snd (deriveAndApplyCoverage e u t i s)) = ?S"
      unfolding run if_P [OF 1] .
    then show ?thesis by (rule disjI1)
  next
    case 2
    have "keeps (statuses_are ?S) (if if_status v = ''paid'' then heal_paid e u t i v ?res else ret ?res)"
      by (intro keeps_intros)
    from statuses_run [OF this bal(2)] have "invoice_statuses (snd (deriveAndApplyCoverage e u t i s)) = ?S"
      unfolding run if_not_P [OF 2(1)] if_P [OF 2(2)] seq_Inr [where m = ?bal, OF bal(1)] .
    then show ?thesis by (rule disjI1)
  next
    case 3
    let ?flip = "flip_paid t i (pr_receivedAt (last ?r))"
    have "\<exists>k. ?flip s1 = (Inr k, snd (?flip s1))"
      by (cases "t = merchant_type") (auto simp: flip_paid_def updateMany_def)
    then obtain k where flip: "?flip s1 = (Inr k, snd (?flip s1))" by blast
    have "\<not> (\<not> ps_coveredByPayment ?p \<or> if_status v = ''paid'')" using 3 by blast
    then have "deriveAndApplyCoverage e u t i s = ?tail k (snd (?flip s1))"
      unfolding run if_not_P [OF 3(1)] seq_Inr [where m = ?bal, OF bal(1)]
      by (simp only: if_False seq_Inr [where m = ?flip, OF flip])
    moreover have "invoice_statuses (snd (?tail k (snd (?flip s1)))) = invoice_statuses (snd (?flip s1))"
      by (rule statuses_run [OF tail refl])
    ultimately have "invoice_statuses (snd (deriveAndApplyCoverage e u t i s)) = invoice_statuses (snd (?flip s1))"
      by (simp only:)
    moreover have "covered_by_receipts t i s" using 3(2) position_covered [OF Inr] by simp
    ultimately show ?thesis using bal(2) by (simp add: flip_statuses Let_def)
  qed
qed

end
