(* ===== verification/Refund_Requests.thy ===== *)
theory Refund_Requests
  imports Refunds
begin

text \<open>
  The maker-checker workflow of refunds (\<open>settlement-refunds.service.ts\<close>, \<open>requestRefund\<close>
  to \<open>verifySnapshot\<close>): a request quotes the frozen invoice in a hashed snapshot, somebody
  else approves it, somebody other than the approver executes it against bank evidence, and
  the row is latched while cash may move.
\<close>

section \<open>The snapshot\<close>

definition refundSnapshot ::
  "string \<Rightarrow> string \<Rightarrow> string option \<Rightarrow> rat \<Rightarrow> rat \<Rightarrow> string \<Rightarrow> string option \<Rightarrow> string \<Rightarrow> string \<Rightarrow> string \<Rightarrow> json"
where
  "refundSnapshot invoiceType invoiceId invoiceNumber amount vatComponent reason reasonCode recipientType recipientOrgId method =
     JObj [(''invoiceType'', JStr invoiceType), (''invoiceId'', JStr invoiceId),
           (''invoiceNumber'', jopt invoiceNumber), (''amount'', JNum amount),
           (''vatComponent'', JNum vatComponent), (''reason'', JStr reason), (''reasonCode'', jopt reasonCode),
           (''recipientType'', JStr recipientType), (''recipientOrgId'', JStr recipientOrgId),
           (''method'', JStr method)]"

definition refundSnapshotHash :: "(string \<Rightarrow> string) \<Rightarrow> json \<Rightarrow> string" where
  "refundSnapshotHash sha row = hashCanonical sha (canonicalJson row)"

definition request_snapshot :: "RefundRequest \<Rightarrow> string option \<Rightarrow> json" where
  "request_snapshot r invoiceNumber =
     refundSnapshot (rx_invoiceType r) (rx_invoiceId r) invoiceNumber
       (moneyToNumber (MoneyDecimal (rx_amount r))) (moneyToNumber (MoneyDecimal (rx_vatComponent r)))
       (rx_reason r) (rx_reasonCode r) (rx_recipientType r) (rx_orgId r) (rx_method r)"

text \<open>The legal number of the invoice as it is now.\<close>

definition current_number :: "string \<Rightarrow> string \<Rightarrow> db \<Rightarrow> string option" where
  "current_number invoiceType invoiceId s =
     (if invoiceType = corporate_type
      then map_option ci_invoiceNumber (find (\<lambda>v. ci_id v = invoiceId) (db_corporate s))
      else (case find (\<lambda>v. mi_id v = invoiceId) (db_merchant s) of
              None \<Rightarrow> None | Some v \<Rightarrow> mi_merchantInvoiceNumber v))"

definition snapshot_intact :: "env \<Rightarrow> RefundRequest \<Rightarrow> db \<Rightarrow> bool" where
  "snapshot_intact e r s =
     (let invoiceNumber = current_number (rx_invoiceType r) (rx_invoiceId r) s in
      refundSnapshotHash (en_sha e) (request_snapshot r invoiceNumber) = rx_snapshotHash r
      \<or> invoiceNumber \<noteq> None
        \<and> refundSnapshotHash (en_sha e) (request_snapshot r None) = rx_snapshotHash r)"

definition verifySnapshot :: "env \<Rightarrow> RefundRequest \<Rightarrow> (db, unit) prog" where
  "verifySnapshot e r =
     seq (reads (snapshot_intact e r)) (\<lambda>intact. require intact (Conflict ''refund_snapshot_tampered''))"

definition loadRequest :: "string \<Rightarrow> (db, RefundRequest) prog" where
  "loadRequest requestId =
     seq (require (non_blank requestId) (BadRequest ''refund_request_id_required'')) (\<lambda>_.
     seq (reads (\<lambda>s. find (\<lambda>r. rx_id r = requestId) (db_refundRequests s))) (\<lambda>read.
     found read (NotFound ''refund_request_not_found'')))"

section \<open>Request\<close>

record RequestRefundInput =
  ri_refundInvoiceType :: string
  ri_refundInvoiceId :: string
  ri_refundAmount :: js_number
  ri_refundReason :: string
  ri_refundReasonCode :: "string option"

text \<open>What both kinds of invoice row offer to the snapshot.\<close>

record QuotedInvoice =
  qi_id :: string
  qi_orgId :: string
  qi_storeId :: "string option"
  qi_number :: "string option"
  qi_totalMinor :: int
  qi_vatMinor :: int

definition quoted_invoice :: "string \<Rightarrow> string \<Rightarrow> db \<Rightarrow> QuotedInvoice option" where
  "quoted_invoice invoiceType invoiceId s =
     (if invoiceType = corporate_type
      then map_option (\<lambda>v. \<lparr> qi_id = ci_id v, qi_orgId = ci_orgId v, qi_storeId = None,
             qi_number = Some (ci_invoiceNumber v),
             qi_totalMinor = to_minor (moneyToNumber (MoneyDecimal (ci_totalAmount v))) SAR,
             qi_vatMinor = (case ci_vatAmount v of None \<Rightarrow> 0
                            | Some w \<Rightarrow> to_minor (moneyToNumber (MoneyDecimal w)) SAR) \<rparr>)
             (find (\<lambda>v. ci_id v = invoiceId) (db_corporate s))
      else map_option (\<lambda>v. \<lparr> qi_id = mi_id v, qi_orgId = mi_orgId v, qi_storeId = Some (mi_storeId v),
             qi_number = mi_merchantInvoiceNumber v,
             qi_totalMinor = to_minor (moneyToNumber (MoneyDecimal (mi_totalAmount v))) SAR,
             qi_vatMinor = to_minor (moneyToNumber (MoneyDecimal (mi_vatAmount v))) SAR \<rparr>)
             (find (\<lambda>v. mi_id v = invoiceId) (db_merchant s)))"

definition advisory_vat :: "int \<Rightarrow> QuotedInvoice \<Rightarrow> rat" where
  "advisory_vat amountMinor q =
     fromMinor (if qi_totalMinor q = 0 then 0
                else min (vat_proportion amountMinor (qi_vatMinor q) (qi_totalMinor q)) (qi_vatMinor q)) SAR"

definition file_request ::
  "env \<Rightarrow> string \<Rightarrow> string \<Rightarrow> QuotedInvoice \<Rightarrow> rat \<Rightarrow> rat \<Rightarrow> string \<Rightarrow> string option \<Rightarrow> (db, RefundRequest) prog"
where
  "file_request e actorUserId invoiceType q amount vatComponent reason reasonCode =
     transaction (
       seq (lift (to_dec amount)) (\<lambda>amountDec.
       seq (lift (to_dec vatComponent)) (\<lambda>vatDec.
       seq (create db_refundRequests db_refundRequests_update (\<lambda>r r'. rx_id r' = rx_id r)
             \<lparr> rx_id = en_uuid e 23, rx_invoiceType = invoiceType, rx_invoiceId = qi_id q,
               rx_orgId = qi_orgId q, rx_storeId = qi_storeId q, rx_currency = ''SAR'',
               rx_amount = amountDec, rx_vatComponent = vatDec, rx_reason = reason,
               rx_reasonCode = reasonCode, rx_recipientType = ''company'', rx_method = ''manual_bank_transfer'',
               rx_snapshotHash = refundSnapshotHash (en_sha e)
                 (refundSnapshot invoiceType (qi_id q) (qi_number q) amount vatComponent reason reasonCode
                    ''company'' (qi_orgId q) ''manual_bank_transfer''),
               rx_state = ''requested'', rx_requestedBy = actorUserId, rx_requestedAt = clk e 24,
               rx_approvedBy = None, rx_approvedAt = None, rx_executedBy = None, rx_executedAt = None,
               rx_cancelledBy = None, rx_cancelledAt = None, rx_refundId = None,
               rx_createdAt = en_dbNow e \<rparr>) (\<lambda>created.
       seq (audit_guaranteed (audit_input actorUserId ''finance.refund.requested'' ''organization'' (Some (qi_orgId q))
              [(''requestId'', JStr (rx_id created)), (''invoiceType'', JStr invoiceType),
               (''invoiceId'', JStr (qi_id q)), (''amount'', JNum amount), (''vatComponent'', JNum vatComponent),
               (''reasonCode'', jopt reasonCode), (''snapshotHash'', JStr (rx_snapshotHash created))])
              (''finance.refund.requested:'' @ rx_id created)) (\<lambda>_.
       ret created)))))"

definition requestRefund :: "env \<Rightarrow> string \<Rightarrow> RequestRefundInput \<Rightarrow> (db, RefundRequest) prog" where
  "requestRefund e actorUserId input =
     (let invoiceType = ri_refundInvoiceType input; reason = js_trim (ri_refundReason input);
          reasonCode = trim_opt (ri_refundReasonCode input) in
      seq (lift (refund_gates_open e)) (\<lambda>_.
      seq (require (invoiceType = merchant_type \<or> invoiceType = corporate_type) (BadRequest ''refund_invoice_type_unknown'')) (\<lambda>_.
      seq (require (non_blank (ri_refundInvoiceId input)) (BadRequest ''refund_invoice_id_required'')) (\<lambda>_.
      seq (require (reason \<noteq> []) (BadRequest ''refund_reason_required'')) (\<lambda>_.
      seq (require (invoiceType = corporate_type \<longrightarrow> (\<exists>c. reasonCode = Some c \<and> c \<in> set FEE_REFUND_REASON_CODES))
            (BadRequest ''fee_refund_reason_code_required'')) (\<lambda>_.
      seq (lift (refund_amount (ri_refundAmount input))) (\<lambda>amountMinor.
      seq (reads (quoted_invoice invoiceType (ri_refundInvoiceId input))) (\<lambda>read.
      seq (found read (NotFound ''invoice_not_found'')) (\<lambda>q.
      file_request e actorUserId invoiceType q (fromMinor amountMinor SAR) (advisory_vat amountMinor q) reason reasonCode)))))))))"

section \<open>Approval and cancellation\<close>

definition approve_transaction :: "env \<Rightarrow> string \<Rightarrow> RefundRequest \<Rightarrow> (db, unit) prog" where
  "approve_transaction e actorUserId request =
     transaction (
       seq (updateMany db_refundRequests db_refundRequests_update
             (\<lambda>r. rx_id r = rx_id request \<and> rx_state r = ''requested'')
             (\<lambda>r. r\<lparr> rx_state := ''approved'', rx_approvedBy := Some actorUserId, rx_approvedAt := Some (clk e 24) \<rparr>)) (\<lambda>moved.
       seq (require (moved = 1) (Conflict ''refund_request_contended'')) (\<lambda>_.
       audit_guaranteed (audit_input actorUserId ''finance.refund.approved'' ''organization'' (Some (rx_orgId request))
           [(''requestId'', JStr (rx_id request)), (''snapshotHash'', JStr (rx_snapshotHash request)),
            (''requestedBy'', JStr (rx_requestedBy request))])
         (''finance.refund.approved:'' @ rx_id request))))"

definition approveRefund :: "env \<Rightarrow> string \<Rightarrow> string \<Rightarrow> (db, RefundRequest) prog" where
  "approveRefund e actorUserId requestId =
     seq (loadRequest requestId) (\<lambda>request.
     seq (require (rx_state request = ''requested'') (Conflict (''refund_request_not_requested:'' @ rx_state request))) (\<lambda>_.
     seq (require (rx_requestedBy request \<noteq> actorUserId) (Conflict ''refund_self_approval_rejected'')) (\<lambda>_.
     seq (verifySnapshot e request) (\<lambda>_.
     seq (approve_transaction e actorUserId request) (\<lambda>_.
     loadRequest requestId)))))"

definition cancel_transaction :: "env \<Rightarrow> string \<Rightarrow> RefundRequest \<Rightarrow> (db, unit) prog" where
  "cancel_transaction e actorUserId request =
     transaction (
       seq (updateMany db_refundRequests db_refundRequests_update
             (\<lambda>r. rx_id r = rx_id request \<and> rx_state r = rx_state request)
             (\<lambda>r. r\<lparr> rx_state := ''cancelled'', rx_cancelledBy := Some actorUserId, rx_cancelledAt := Some (clk e 24) \<rparr>)) (\<lambda>moved.
       seq (require (moved = 1) (Conflict ''refund_request_contended'')) (\<lambda>_.
       audit_guaranteed (audit_input actorUserId ''finance.refund.cancelled'' ''organization'' (Some (rx_orgId request))
           [(''requestId'', JStr (rx_id request)), (''priorState'', JStr (rx_state request))])
         (''finance.refund.cancelled:'' @ rx_id request))))"

definition cancelRefundRequest :: "env \<Rightarrow> string \<Rightarrow> string \<Rightarrow> (db, RefundRequest) prog" where
  "cancelRefundRequest e actorUserId requestId =
     seq (loadRequest requestId) (\<lambda>request.
     seq (require (rx_state request = ''requested'' \<or> rx_state request = ''approved'')
           (Conflict (''refund_request_not_cancellable:'' @ rx_state request))) (\<lambda>_.
     seq (cancel_transaction e actorUserId request) (\<lambda>_.
     loadRequest requestId)))"

section \<open>Execution\<close>

record ExecuteRefundInput =
  ei_evidenceRef :: string
  ei_refundedAt :: "instant option"
  ei_confirmedAmount :: js_number

text \<open>The latch, taken before any cash moves; a row that is latched already only for its executor.\<close>

definition latch_request :: "string \<Rightarrow> RefundRequest \<Rightarrow> (db, unit) prog" where
  "latch_request actorUserId request =
     seq (updateMany db_refundRequests db_refundRequests_update
           (\<lambda>r. rx_id r = rx_id request \<and> rx_state r = rx_state request
                \<and> (rx_state request = ''executing'' \<longrightarrow> rx_executedBy r = Some actorUserId))
           (\<lambda>r. r\<lparr> rx_state := ''executing'', rx_executedBy := Some actorUserId \<rparr>)) (\<lambda>latched.
     require (latched = 1) (Conflict ''refund_request_contended''))"

definition unlatch :: "RefundRequest \<Rightarrow> (db, unit) prog" where
  "unlatch request =
     seq (updateMany db_refundRequests db_refundRequests_update
           (\<lambda>r. rx_id r = rx_id request \<and> rx_state r = ''executing'')
           (\<lambda>r. r\<lparr> rx_state := ''approved'', rx_executedBy := None \<rparr>)) (\<lambda>_. ret ())"

fun typed_refusal :: "exn \<Rightarrow> bool" where
  "typed_refusal (Conflict c) = True"
| "typed_refusal (BadRequest c) = True"
| "typed_refusal (NotFound c) = True"
| "typed_refusal _ = False"

definition request_input :: "RefundRequest \<Rightarrow> ExecuteRefundInput \<Rightarrow> RecordRefundInput" where
  "request_input request input =
     \<lparr> ru_invoiceType = rx_invoiceType request, ru_invoiceId = rx_invoiceId request,
       ru_amount = Fin (moneyToNumber (MoneyDecimal (rx_amount request))), ru_reason = rx_reason request,
       ru_evidenceRef = ei_evidenceRef input, ru_refundedAt = ei_refundedAt input,
       ru_merchantCreditNoteNumber = None, ru_issuanceSource = None, ru_onBehalfAuthorizationRef = None,
       ru_reasonCode = rx_reasonCode request \<rparr>"

text \<open>Posting the refund, and the refusal of evidence that another request owns.\<close>

definition post_refund ::
  "env \<Rightarrow> string \<Rightarrow> RefundRequest \<Rightarrow> ExecuteRefundInput \<Rightarrow> (db, RefundResult) prog"
where
  "post_refund e actorUserId request input =
     attempt
       (seq (recordRefund e actorUserId (request_input request input)) (\<lambda>result.
        seq (reads (\<lambda>s. find (\<lambda>r. rx_refundId r = Some (rf_id (rs_refund result))) (db_refundRequests s))) (\<lambda>owner.
        seq (require (\<not> (rs_replayed result \<and> (case owner of None \<Rightarrow> False | Some r \<Rightarrow> rx_id r \<noteq> rx_id request)))
              (Conflict ''refund_evidence_already_used'')) (\<lambda>_.
        seq (require (\<not> (rs_replayed result
                \<and> to_minor (moneyToNumber (MoneyDecimal (rf_amount (rs_refund result)))) SAR
                    \<noteq> to_minor (moneyToNumber (MoneyDecimal (rx_amount request))) SAR))
              (Conflict ''refund_evidence_already_used'')) (\<lambda>_.
        ret result)))))
       (\<lambda>ex. if typed_refusal ex then seq (unlatch request) (\<lambda>_. raise ex) else raise ex)"

text \<open>\<open>refundId\<close> is unique: binding a refund that another row holds is a unique violation.\<close>

definition bind_refund :: "env \<Rightarrow> string \<Rightarrow> RefundRequest \<Rightarrow> string \<Rightarrow> (db, nat) prog" where
  "bind_refund e actorUserId request refundId =
     (let p = (\<lambda>r. rx_id r = rx_id request \<and> rx_state r = ''executing'') in
      seq (reads (\<lambda>s. (\<exists>r \<in> set (db_refundRequests s). p r)
             \<and> (\<exists>r \<in> set (db_refundRequests s). rx_refundId r = Some refundId \<and> \<not> p r))) (\<lambda>clash.
      seq (require (\<not> clash) (P2002 ''refundId'')) (\<lambda>_.
      updateMany db_refundRequests db_refundRequests_update p
        (\<lambda>r. r\<lparr> rx_state := ''executed'', rx_executedBy := Some actorUserId,
                rx_executedAt := Some (clk e 25), rx_refundId := Some refundId \<rparr>))))"

definition finish_transaction ::
  "env \<Rightarrow> string \<Rightarrow> RefundRequest \<Rightarrow> RefundResult \<Rightarrow> (db, nat) prog"
where
  "finish_transaction e actorUserId request result =
     transaction (
       seq (bind_refund e actorUserId request (rf_id (rs_refund result))) (\<lambda>moved.
       seq (if moved = 1 \<or> rs_replayed result
            then audit_guaranteed (audit_input actorUserId ''finance.refund.executed'' ''organization'' (Some (rx_orgId request))
              [(''requestId'', JStr (rx_id request)), (''refundId'', JStr (rf_id (rs_refund result))),
               (''snapshotHash'', JStr (rx_snapshotHash request)), (''requestedBy'', JStr (rx_requestedBy request)),
               (''approvedBy'', jopt (rx_approvedBy request)), (''executedBy'', JStr actorUserId),
               (''replayed'', JBool (rs_replayed result))])
              (''finance.refund.executed:'' @ rx_id request)
            else ret ()) (\<lambda>_.
       ret moved)))"

definition finish_request ::
  "env \<Rightarrow> string \<Rightarrow> RefundRequest \<Rightarrow> RefundResult \<Rightarrow> (db, nat) prog"
where
  "finish_request e actorUserId request result =
     attempt (finish_transaction e actorUserId request result)
       (\<lambda>ex. case ex of
          P2002 c \<Rightarrow> seq (unlatch request) (\<lambda>_. raise (Conflict ''refund_evidence_already_used''))
        | _ \<Rightarrow> raise ex)"

definition executeRefund ::
  "env \<Rightarrow> string \<Rightarrow> string \<Rightarrow> ExecuteRefundInput \<Rightarrow> (db, RefundRequest \<times> RefundResult) prog"
where
  "executeRefund e actorUserId requestId input =
     seq (loadRequest requestId) (\<lambda>request.
     seq (require (rx_state request = ''approved'' \<or> rx_state request = ''executing'')
           (Conflict (''refund_request_not_approved:'' @ rx_state request))) (\<lambda>_.
     seq (require (rx_approvedBy request \<noteq> Some actorUserId) (Conflict ''refund_approver_cannot_execute'')) (\<lambda>_.
     seq (require (rx_state request = ''executing'' \<longrightarrow> rx_executedBy request = Some actorUserId)
           (Conflict ''refund_request_contended'')) (\<lambda>_.
     seq (verifySnapshot e request) (\<lambda>_.
     seq (lift (toMinor (ei_confirmedAmount input) SAR)) (\<lambda>confirmed.
     seq (require (confirmed = to_minor (moneyToNumber (MoneyDecimal (rx_amount request))) SAR)
           (Conflict ''refund_confirmed_amount_mismatch'')) (\<lambda>_.
     seq (latch_request actorUserId request) (\<lambda>_.
     seq (post_refund e actorUserId request input) (\<lambda>result.
     seq (finish_request e actorUserId request result) (\<lambda>done_count.
     seq (require (done_count = 1 \<or> rs_replayed result) (Conflict ''refund_request_contended'')) (\<lambda>_.
     seq (loadRequest requestId) (\<lambda>after.
     ret (after, result)))))))))))))"

definition listRefundRequests :: "string option \<Rightarrow> db \<Rightarrow> RefundRequest list" where
  "listRefundRequests state s =
     take 200 (rev (order_by rx_createdAt
       (filter (\<lambda>r. truthy state \<longrightarrow> Some (rx_state r) = state) (db_refundRequests s))))"

end
