(* ===== verification/Refund_Workflow.thy ===== *)
theory Refund_Workflow
  imports Refund_Requests Refund_Laws Assembly
begin

text \<open>
  The maker-checker workflow of refunds under concurrency. As for the engine, a history is the
  list of database states so far, and a step runs the writes of one handler on the current
  state with a request row read from any earlier state. What the guards buy: whoever approved
  is neither the requester nor the executor, what was quoted never changes, a decision is final,
  and a refund is bound to one request. Every whole run of a handler is made of such steps.
\<close>

section \<open>One request row\<close>

definition request_ok :: "RefundRequest \<Rightarrow> bool" where
  "request_ok r \<longleftrightarrow>
     rx_state r \<in> {''requested'', ''approved'', ''executing'', ''executed'', ''cancelled''}
     \<and> (rx_state r = ''requested'' \<longrightarrow> rx_approvedBy r = None)
     \<and> (rx_state r \<in> {''approved'', ''executing'', ''executed''} \<longrightarrow>
          rx_approvedBy r \<noteq> None \<and> rx_approvedBy r \<noteq> Some (rx_requestedBy r))
     \<and> (rx_state r \<in> {''executing'', ''executed''} \<longrightarrow>
          rx_executedBy r \<noteq> None \<and> rx_executedBy r \<noteq> rx_approvedBy r)
     \<and> (rx_refundId r \<noteq> None \<longleftrightarrow> rx_state r = ''executed'')"

text \<open>What was quoted, and by whom.\<close>

type_synonym quote = "(string \<times> string \<times> string \<times> string \<times> string option \<times> string \<times> dec2 \<times> dec2)
  \<times> (string \<times> string option \<times> string \<times> string \<times> string) \<times> (string \<times> instant \<times> instant)"

definition quote_of :: "RefundRequest \<Rightarrow> quote" where
  "quote_of r = ((rx_id r, rx_invoiceType r, rx_invoiceId r, rx_orgId r, rx_storeId r, rx_currency r, rx_amount r, rx_vatComponent r),
     (rx_reason r, rx_reasonCode r, rx_recipientType r, rx_method r, rx_snapshotHash r),
     (rx_requestedBy r, rx_requestedAt r, rx_createdAt r))"

definition final :: "RefundRequest \<Rightarrow> bool" where
  "final r \<longleftrightarrow> rx_state r = ''executed'' \<or> rx_state r = ''cancelled''"

definition follows :: "RefundRequest \<Rightarrow> RefundRequest \<Rightarrow> bool" where
  "follows r r' \<longleftrightarrow> quote_of r' = quote_of r
     \<and> (rx_approvedBy r \<noteq> None \<longrightarrow> rx_approvedBy r' = rx_approvedBy r)
     \<and> (final r \<longrightarrow> r' = r)"

lemma follows_refl [simp]: "follows r r"
  by (simp add: follows_def)

lemma follows_trans: "follows r r1 \<Longrightarrow> follows r1 r2 \<Longrightarrow> follows r r2"
  by (auto simp: follows_def)

lemma quote_of_update [simp]:
  "quote_of (r\<lparr> rx_state := a \<rparr>) = quote_of r" "quote_of (r\<lparr> rx_approvedBy := b \<rparr>) = quote_of r"
  "quote_of (r\<lparr> rx_approvedAt := c \<rparr>) = quote_of r" "quote_of (r\<lparr> rx_executedBy := d \<rparr>) = quote_of r"
  "quote_of (r\<lparr> rx_executedAt := f \<rparr>) = quote_of r" "quote_of (r\<lparr> rx_cancelledBy := g \<rparr>) = quote_of r"
  "quote_of (r\<lparr> rx_cancelledAt := h \<rparr>) = quote_of r" "quote_of (r\<lparr> rx_refundId := k \<rparr>) = quote_of r"
  by (simp_all add: quote_of_def)

lemma quote_ofD: "quote_of r' = quote_of r \<Longrightarrow> rx_id r' = rx_id r \<and> rx_requestedBy r' = rx_requestedBy r"
  by (simp add: quote_of_def)

lemma followsD:
  "follows r r' \<Longrightarrow> rx_id r' = rx_id r \<and> rx_requestedBy r' = rx_requestedBy r
     \<and> (rx_approvedBy r \<noteq> None \<longrightarrow> rx_approvedBy r' = rx_approvedBy r)"
  unfolding follows_def using quote_ofD [of r' r] by blast

lemma follows_open:
  "rx_state r \<notin> {''executed'', ''cancelled''} \<Longrightarrow>
     follows r r' \<longleftrightarrow> quote_of r' = quote_of r \<and> (rx_approvedBy r \<noteq> None \<longrightarrow> rx_approvedBy r' = rx_approvedBy r)"
  by (simp add: follows_def final_def)

section \<open>The table\<close>

definition requests_ok :: "db \<Rightarrow> bool" where
  "requests_ok s \<longleftrightarrow> distinct (map rx_id (db_refundRequests s))
     \<and> (\<forall>r \<in> set (db_refundRequests s). request_ok r)
     \<and> (\<forall>r \<in> set (db_refundRequests s). \<forall>r' \<in> set (db_refundRequests s).
          rx_refundId r \<noteq> None \<and> rx_refundId r' = rx_refundId r \<longrightarrow> r' = r)"

definition requests_persist :: "db \<Rightarrow> db \<Rightarrow> bool" where
  "requests_persist s s' \<longleftrightarrow> (\<forall>r \<in> set (db_refundRequests s). \<exists>r' \<in> set (db_refundRequests s'). follows r r')"

definition requests_since :: "db \<Rightarrow> db \<Rightarrow> bool" where
  "requests_since s0 s \<longleftrightarrow> requests_ok s \<and> requests_persist s0 s"

lemma requests_since_refl: "requests_ok s \<Longrightarrow> requests_since s s"
  unfolding requests_since_def requests_persist_def using follows_refl by blast

lemma requests_since_trans: "requests_since s0 s1 \<Longrightarrow> requests_since s1 s2 \<Longrightarrow> requests_since s0 s2"
  unfolding requests_since_def requests_persist_def by (meson follows_trans)

lemma requests_since_same:
  "requests_ok s \<Longrightarrow> db_refundRequests s' = db_refundRequests s \<Longrightarrow> requests_since s s'"
  using requests_since_refl [of s] by (simp add: requests_since_def requests_persist_def requests_ok_def)

text \<open>The row of an earlier state, as it is now.\<close>

lemma requests_now:
  assumes "requests_ok s" "requests_persist s0 s" "r0 \<in> set (db_refundRequests s0)"
    and "r \<in> set (db_refundRequests s)" "rx_id r = rx_id r0"
  shows "follows r0 r"
proof -
  from assms(2,3) obtain r' where r': "r' \<in> set (db_refundRequests s)" "follows r0 r'"
    by (auto simp: requests_persist_def)
  have "distinct (map rx_id (db_refundRequests s))" using assms(1) by (simp add: requests_ok_def)
  from distinct_key_eq [OF this assms(4) r'(1)] assms(5) followsD [OF r'(2)] r'(2) show ?thesis by simp
qed

text \<open>A guarded update that leaves every touched row in order.\<close>

lemma requests_update:
  assumes inv: "requests_ok s"
    and rows: "db_refundRequests s' = update_where p f (db_refundRequests s)"
    and f: "\<And>r. r \<in> set (db_refundRequests s) \<Longrightarrow> p r \<Longrightarrow> request_ok (f r) \<and> follows r (f r)"
    and ref: "\<And>r r'. r \<in> set (db_refundRequests s) \<Longrightarrow> p r \<Longrightarrow> rx_refundId (f r) \<noteq> None \<Longrightarrow>
        r' \<in> set (db_refundRequests s) \<Longrightarrow>
        (rx_refundId r' \<noteq> rx_refundId (f r) \<or> p r') \<and> (p r' \<longrightarrow> r' = r)"
  shows "requests_since s s'"
proof -
  have fid: "rx_id (f r) = rx_id r" if "r \<in> set (db_refundRequests s)" "p r" for r
    using f [OF that] followsD by blast
  have keys: "map rx_id (db_refundRequests s') = map rx_id (db_refundRequests s)"
    unfolding rows by (rule map_update_where) (rule fid)
  have "r' = r" if "r \<in> set (db_refundRequests s')" "r' \<in> set (db_refundRequests s')"
      "rx_refundId r \<noteq> None" "rx_refundId r' = rx_refundId r" for r r'
    using that inv ref unfolding rows in_update_where requests_ok_def by metis
  moreover have "request_ok r" if "r \<in> set (db_refundRequests s')" for r
    using that inv f unfolding rows in_update_where requests_ok_def by blast
  ultimately have "requests_ok s'"
    using inv unfolding requests_ok_def keys by blast
  moreover have "requests_persist s s'"
    unfolding requests_persist_def
  proof
    fix r assume "r \<in> set (db_refundRequests s)"
    then show "\<exists>r' \<in> set (db_refundRequests s'). follows r r'"
      unfolding rows using f follows_refl by (metis in_update_where)
  qed
  ultimately show ?thesis by (simp add: requests_since_def)
qed

lemma requests_one_owner:
  "requests_ok s \<Longrightarrow> r \<in> set (db_refundRequests s) \<Longrightarrow> r' \<in> set (db_refundRequests s) \<Longrightarrow>
     rx_refundId r \<noteq> None \<and> rx_refundId r' = rx_refundId r \<longrightarrow> r' = r"
  unfolding requests_ok_def by blast

lemma requests_okD: "requests_ok s \<Longrightarrow> r \<in> set (db_refundRequests s) \<Longrightarrow> request_ok r"
  by (simp add: requests_ok_def)

text \<open>An update of rows that hold no refund, and get none.\<close>

lemma requests_update_open:
  assumes inv: "requests_ok s"
    and rows: "db_refundRequests s' = update_where p f (db_refundRequests s)"
    and f: "\<And>r. r \<in> set (db_refundRequests s) \<Longrightarrow> request_ok r \<Longrightarrow> p r \<Longrightarrow>
        rx_state r \<noteq> ''executed'' \<and> rx_refundId (f r) = rx_refundId r \<and> request_ok (f r) \<and> follows r (f r)"
  shows "requests_since s s'"
proof (rule requests_update [OF inv rows])
  show "request_ok (f r) \<and> follows r (f r)" if "r \<in> set (db_refundRequests s)" "p r" for r
    using f that requests_okD [OF inv] by blast
next
  fix r r' assume r: "r \<in> set (db_refundRequests s)" "p r" "rx_refundId (f r) \<noteq> None"
  then have "request_ok r" by (intro requests_okD [OF inv])
  with f [OF r(1) _ r(2)] r(3) show "(rx_refundId r' \<noteq> rx_refundId (f r) \<or> p r') \<and> (p r' \<longrightarrow> r' = r)"
    by (auto simp: request_ok_def)
qed

lemmas request_row_simps = request_ok_def follows_open

section \<open>Histories\<close>

definition may_execute :: "string \<Rightarrow> RefundRequest \<Rightarrow> bool" where
  "may_execute u r \<longleftrightarrow> (rx_state r = ''approved'' \<or> rx_state r = ''executing'')
     \<and> rx_approvedBy r \<noteq> Some u \<and> (rx_state r = ''executing'' \<longrightarrow> rx_executedBy r = Some u)"

inductive request_history :: "db list \<Rightarrow> bool" where
  opened: "db_refundRequests s = [] \<Longrightarrow> request_history [s]"
| filed: "request_history (s # h) \<Longrightarrow> request_history (snd (file_request e u t q a v reason code s) # s # h)"
| approved: "request_history (s # h) \<Longrightarrow> s0 \<in> set (s # h) \<Longrightarrow> r \<in> set (db_refundRequests s0)
    \<Longrightarrow> rx_state r = ''requested'' \<Longrightarrow> rx_requestedBy r \<noteq> u
    \<Longrightarrow> request_history (snd (approve_transaction e u r s) # s # h)"
| cancelled: "request_history (s # h) \<Longrightarrow> s0 \<in> set (s # h) \<Longrightarrow> r \<in> set (db_refundRequests s0)
    \<Longrightarrow> rx_state r = ''requested'' \<or> rx_state r = ''approved''
    \<Longrightarrow> request_history (snd (cancel_transaction e u r s) # s # h)"
| latched: "request_history (s # h) \<Longrightarrow> s0 \<in> set (s # h) \<Longrightarrow> r \<in> set (db_refundRequests s0)
    \<Longrightarrow> may_execute u r \<Longrightarrow> request_history (snd (latch_request u r s) # s # h)"
| unlatched: "request_history (s # h) \<Longrightarrow> s0 \<in> set (s # h) \<Longrightarrow> r \<in> set (db_refundRequests s0)
    \<Longrightarrow> request_history (snd (unlatch r s) # s # h)"
| finished: "request_history (s # h) \<Longrightarrow> s0 \<in> set (s # h) \<Longrightarrow> r \<in> set (db_refundRequests s0)
    \<Longrightarrow> may_execute u r \<Longrightarrow> request_history (snd (finish_transaction e u r result s) # s # h)"
| elsewhere: "request_history (s # h) \<Longrightarrow> db_refundRequests s' = db_refundRequests s \<Longrightarrow> request_history (s' # s # h)"

section \<open>The steps\<close>

lemma request_rows_simp:
  "snd (updateMany db_refundRequests db_refundRequests_update p f s) = db_refundRequests_update (update_where p f) s"
  by (simp add: updateMany_def)

lemma request_rows_upd: "db_refundRequests (db_refundRequests_update f s) = f (db_refundRequests s)"
  by simp

text \<open>A transaction that is one guarded update and writes elsewhere.\<close>

lemma guarded_transaction:
  assumes "requests_ok s" and "\<And>c. leaves db_refundRequests (k c)"
    and "\<And>s' :: db. db_refundRequests s' = update_where p f (db_refundRequests s) \<Longrightarrow> requests_since s s'"
  shows "requests_since s (snd (transaction (seq (updateMany db_refundRequests db_refundRequests_update p f) k) s))"
proof -
  let ?m = "seq (updateMany db_refundRequests db_refundRequests_update p f) k"
  have "db_refundRequests (snd (?m s)) = update_where p f (db_refundRequests s)"
    using leaves_tail [where g = db_refundRequests and k = k and s = s, OF assms(2)] by (simp only: request_rows_simp request_rows_upd)
  then have "requests_since s (snd (?m s))" by (rule assms(3))
  then show ?thesis using transaction_cases [of ?m s] requests_since_refl [OF assms(1)] by (metis snd_conv)
qed

lemma file_request_row:
  assumes "file_request e u t q a v reason code s = (Inr r, s')"
  shows "db_refundRequests s' = db_refundRequests s @ [r] \<and> request_ok r \<and> rx_refundId r = None
        \<and> rx_id r \<notin> rx_id ` set (db_refundRequests s)
        \<and> rx_state r = ''requested'' \<and> rx_requestedBy r = u \<and> rx_approvedBy r = None"
proof -
  have aud: "db_refundRequests s2 = db_refundRequests s1" if "audit_guaranteed i k s1 = (x, s2)" for i k x and s1 s2 :: db
    by (rule leaves_runD [where g = db_refundRequests and r = x and m = "audit_guaranteed i k"]) (intro leaves_guaranteed, simp, rule that)
  from assms show ?thesis
    by (auto simp: file_request_def prog_iff create_def request_ok_def image_iff split: if_splits dest!: aud)
qed

lemma filed_since:
  assumes inv: "requests_ok s"
  shows "requests_since s (snd (file_request e u t q a v reason code s))"
proof (cases "file_request e u t q a v reason code s")
  case (Pair x s')
  show ?thesis
  proof (cases x)
    case (Inl ex)
    with Pair have "s' = s" unfolding file_request_def by (auto dest: transaction_rollback)
    with Pair requests_since_refl [OF inv] show ?thesis by simp
  next
    case (Inr r)
    with Pair have filed: "db_refundRequests s' = db_refundRequests s @ [r]" "request_ok r" "rx_refundId r = None"
        "rx_id r \<notin> rx_id ` set (db_refundRequests s)"
      using file_request_row [of e u t q a v reason code s r s'] by simp_all
    then have "requests_ok s'" using inv by (auto simp: requests_ok_def)
    moreover have "requests_persist s s'" unfolding requests_persist_def filed(1) using follows_refl by fastforce
    ultimately show ?thesis using Pair by (simp add: requests_since_def)
  qed
qed

lemma approved_since:
  assumes inv: "requests_ok s" "requests_persist s0 s" and r: "r \<in> set (db_refundRequests s0)" "rx_requestedBy r \<noteq> u"
  shows "requests_since s (snd (approve_transaction e u r s))"
  unfolding approve_transaction_def
proof (rule guarded_transaction [OF inv(1)])
  fix s' :: db assume s': "db_refundRequests s' = update_where (\<lambda>r'. rx_id r' = rx_id r \<and> rx_state r' = ''requested'')
     (\<lambda>r. r\<lparr> rx_state := ''approved'', rx_approvedBy := Some u, rx_approvedAt := Some (clk e 24) \<rparr>) (db_refundRequests s)"
  show "requests_since s s'"
  proof (rule requests_update_open [OF inv(1) s'])
    fix r' assume r': "r' \<in> set (db_refundRequests s)" "request_ok r'" "rx_id r' = rx_id r \<and> rx_state r' = ''requested''"
    from requests_now [OF inv r(1) r'(1)] r' followsD r(2) have "rx_requestedBy r' \<noteq> u" by metis
    with r'(2,3) show "rx_state r' \<noteq> ''executed''
        \<and> rx_refundId (r'\<lparr> rx_state := ''approved'', rx_approvedBy := Some u, rx_approvedAt := Some (clk e 24) \<rparr>) = rx_refundId r'
        \<and> request_ok (r'\<lparr> rx_state := ''approved'', rx_approvedBy := Some u, rx_approvedAt := Some (clk e 24) \<rparr>)
        \<and> follows r' (r'\<lparr> rx_state := ''approved'', rx_approvedBy := Some u, rx_approvedAt := Some (clk e 24) \<rparr>)"
      by (auto simp: request_row_simps)
  qed
qed (intro leaves_intros; simp)

lemma cancelled_since:
  assumes inv: "requests_ok s" and r: "rx_state r = ''requested'' \<or> rx_state r = ''approved''"
  shows "requests_since s (snd (cancel_transaction e u r s))"
  unfolding cancel_transaction_def
proof (rule guarded_transaction [OF inv(1)])
  fix s' :: db assume s': "db_refundRequests s' = update_where (\<lambda>r'. rx_id r' = rx_id r \<and> rx_state r' = rx_state r)
     (\<lambda>r. r\<lparr> rx_state := ''cancelled'', rx_cancelledBy := Some u, rx_cancelledAt := Some (clk e 24) \<rparr>) (db_refundRequests s)"
  show "requests_since s s'"
    using r by (elim disjE; intro requests_update_open [OF inv s']) (simp_all add: request_row_simps)
qed (intro leaves_intros; simp)

lemma executor_now:
  assumes "requests_ok s0" "requests_ok s" "requests_persist s0 s" "r \<in> set (db_refundRequests s0)" "may_execute u r"
    and "r' \<in> set (db_refundRequests s)" "rx_id r' = rx_id r"
  shows "rx_approvedBy r' \<noteq> Some u"
proof -
  have "rx_approvedBy r \<noteq> None" "rx_approvedBy r \<noteq> Some u"
    using assms(1,4,5) by (auto simp: requests_ok_def request_ok_def may_execute_def)
  moreover have "follows r r'" using requests_now assms by blast
  ultimately show ?thesis using followsD by metis
qed

lemma latched_since:
  assumes inv: "requests_ok s0" "requests_ok s" "requests_persist s0 s" and r: "r \<in> set (db_refundRequests s0)" "may_execute u r"
  shows "requests_since s (snd (latch_request u r s))"
proof -
  let ?p = "\<lambda>r'. rx_id r' = rx_id r \<and> rx_state r' = rx_state r \<and> (rx_state r = ''executing'' \<longrightarrow> rx_executedBy r' = Some u)"
  let ?f = "\<lambda>r. r\<lparr> rx_state := ''executing'', rx_executedBy := Some u \<rparr>"
  have rows: "db_refundRequests (snd (latch_request u r s)) = update_where ?p ?f (db_refundRequests s)"
    by (simp add: latch_request_def seq_def updateMany_def)
  have st: "rx_state r \<in> {''approved'', ''executing''}" using r(2) by (auto simp: may_execute_def)
  show ?thesis
  proof (rule requests_update_open [OF inv(2) rows])
    fix r' assume r': "r' \<in> set (db_refundRequests s)" "request_ok r'" "?p r'"
    with executor_now [OF inv r] have "rx_approvedBy r' \<noteq> Some u" by blast
    moreover have "rx_state r' \<in> {''approved'', ''executing''}" using st r'(3) by simp
    ultimately show "rx_state r' \<noteq> ''executed'' \<and> rx_refundId (?f r') = rx_refundId r' \<and> request_ok (?f r') \<and> follows r' (?f r')"
      using r'(2) by (elim insertE) (simp_all add: request_row_simps)
  qed
qed

lemma unlatched_since:
  assumes inv: "requests_ok s"
  shows "requests_since s (snd (unlatch r s))"
proof -
  have rows: "db_refundRequests (snd (unlatch r s)) = update_where (\<lambda>r'. rx_id r' = rx_id r \<and> rx_state r' = ''executing'')
      (\<lambda>r. r\<lparr> rx_state := ''approved'', rx_executedBy := None \<rparr>) (db_refundRequests s)"
    by (simp add: unlatch_def seq_def updateMany_def)
  show ?thesis
    by (rule requests_update_open [OF inv rows]) (auto simp: request_row_simps)
qed

lemma bound_since:
  assumes inv: "requests_ok s0" "requests_ok s" "requests_persist s0 s" and r: "r \<in> set (db_refundRequests s0)" "may_execute u r"
  shows "requests_since s (snd (bind_refund e u r f s))"
proof -
  let ?p = "\<lambda>r'. rx_id r' = rx_id r \<and> rx_state r' = ''executing''"
  let ?f = "\<lambda>r. r\<lparr> rx_state := ''executed'', rx_executedBy := Some u, rx_executedAt := Some (clk e 25), rx_refundId := Some f \<rparr>"
  let ?clash = "(\<exists>r' \<in> set (db_refundRequests s). ?p r') \<and> (\<exists>r' \<in> set (db_refundRequests s). rx_refundId r' = Some f \<and> \<not> ?p r')"
  show ?thesis
  proof (cases ?clash)
    case True
    then have "snd (bind_refund e u r f s) = s" by (simp add: bind_refund_def Let_def seq_def)
    with requests_since_refl [OF inv(2)] show ?thesis by simp
  next
    case False
    then have rows: "db_refundRequests (snd (bind_refund e u r f s)) = update_where ?p ?f (db_refundRequests s)"
      by (auto simp: bind_refund_def Let_def seq_def updateMany_def)
    show ?thesis
    proof (rule requests_update [OF inv(2) rows])
      fix r' assume r': "r' \<in> set (db_refundRequests s)" "?p r'"
      with executor_now [OF inv r] have "rx_approvedBy r' \<noteq> Some u" by blast
      with r' requests_okD [OF inv(2) r'(1)] show "request_ok (?f r') \<and> follows r' (?f r')"
        by (auto simp: request_row_simps)
    next
      fix r1 r2 assume 1: "r1 \<in> set (db_refundRequests s)" "?p r1" "r2 \<in> set (db_refundRequests s)"
      have "distinct (map rx_id (db_refundRequests s))" using inv(2) by (simp add: requests_ok_def)
      from distinct_key_eq [OF this 1(1,3)] False 1
      show "(rx_refundId r2 \<noteq> rx_refundId (?f r1) \<or> ?p r2) \<and> (?p r2 \<longrightarrow> r2 = r1)" by auto
    qed
  qed
qed

lemma finished_since:
  assumes inv: "requests_ok s0" "requests_ok s" "requests_persist s0 s" and r: "r \<in> set (db_refundRequests s0)" "may_execute u r"
  shows "requests_since s (snd (finish_transaction e u r result s))"
proof -
  let ?b = "bind_refund e u r (rf_id (rs_refund result))"
  let ?k = "\<lambda>moved. seq (if moved = 1 \<or> rs_replayed result
            then audit_guaranteed (audit_input u ''finance.refund.executed'' ''organization'' (Some (rx_orgId r))
              [(''requestId'', JStr (rx_id r)), (''refundId'', JStr (rf_id (rs_refund result))),
               (''snapshotHash'', JStr (rx_snapshotHash r)), (''requestedBy'', JStr (rx_requestedBy r)),
               (''approvedBy'', jopt (rx_approvedBy r)), (''executedBy'', JStr u),
               (''replayed'', JBool (rs_replayed result))])
              (''finance.refund.executed:'' @ rx_id r)
            else ret ()) (\<lambda>_. ret moved)"
  have "db_refundRequests (snd (seq ?b ?k s)) = db_refundRequests (snd (?b s))"
    by (rule leaves_tail) (intro leaves_intros; simp)
  then have "requests_since s (snd (seq ?b ?k s))"
    using bound_since [OF inv r, of e "rf_id (rs_refund result)"]
    by (simp add: requests_since_def requests_ok_def requests_persist_def)
  then show ?thesis
    using transaction_cases [of "seq ?b ?k" s] requests_since_refl [OF inv(2)]
    unfolding finish_transaction_def by (elim disjE exE conjE) simp_all
qed

section \<open>All histories\<close>

definition requests_past :: "db list \<Rightarrow> bool" where
  "requests_past h \<longleftrightarrow> h \<noteq> [] \<and> (\<forall>s0 \<in> set h. requests_ok s0 \<and> requests_since s0 (hd h))"

lemma requests_past_step: "requests_past (s # h) \<Longrightarrow> requests_since s s' \<Longrightarrow> requests_past (s' # s # h)"
  unfolding requests_past_def list.sel set_simps
  using requests_since_trans [of _ s s'] requests_since_refl [of s'] by (metis (no_types, lifting) insertE list.distinct(1) requests_since_def)

lemma requests_pastD:
  assumes "requests_past (s # h)" and "s0 \<in> set (s # h)"
  shows "requests_ok s0" "requests_ok s" "requests_persist s0 s"
  using assms by (auto simp: requests_past_def requests_since_def)

lemma request_history_past: "request_history h \<Longrightarrow> requests_past h"
proof (induction rule: request_history.induct)
  case (opened s)
  then show ?case by (simp add: requests_past_def requests_since_def requests_ok_def requests_persist_def)
next
  case filed
  then show ?case by (intro requests_past_step filed_since) (auto dest: requests_pastD)
next
  case (approved s h s0 r u e)
  note past = requests_pastD [OF approved.IH approved(2)]
  show ?case by (rule requests_past_step [OF approved.IH approved_since [OF past(2,3) approved(3,5)]])
next
  case (cancelled s h s0 r e u)
  note past = requests_pastD [OF cancelled.IH cancelled(2)]
  show ?case by (rule requests_past_step [OF cancelled.IH cancelled_since [OF past(2) cancelled(4)]])
next
  case (latched s h s0 r u)
  note past = requests_pastD [OF latched.IH latched(2)]
  show ?case by (rule requests_past_step [OF latched.IH latched_since [OF past latched(3,4)]])
next
  case unlatched
  then show ?case by (intro requests_past_step unlatched_since) (auto dest: requests_pastD)
next
  case (finished s h s0 r u e result)
  note past = requests_pastD [OF finished.IH finished(2)]
  show ?case by (rule requests_past_step [OF finished.IH finished_since [OF past finished(3,4)]])
next
  case elsewhere
  then show ?case by (intro requests_past_step requests_since_same) (auto dest: requests_pastD)
qed

section \<open>Whole handlers\<close>

text \<open>The states a history \<open>h0\<close> can be continued to.\<close>

definition continues :: "db list \<Rightarrow> db \<Rightarrow> bool" where
  "continues h0 s \<longleftrightarrow> (\<exists>l. request_history (s # l @ h0))"

lemma continuesE:
  assumes "continues h0 s" obtains l where "request_history (s # l @ h0)"
  using assms by (auto simp: continues_def)

lemma continuesI: "request_history (s' # s # l @ h0) \<Longrightarrow> continues h0 s'"
  unfolding continues_def by (rule exI [of _ "s # l"]) simp

lemma continues_start: "request_history (s # h) \<Longrightarrow> continues (s # h) s"
  unfolding continues_def using elsewhere [of s h s] by (metis append_Nil)

lemma walks_elsewhere: "leaves db_refundRequests m \<Longrightarrow> keeps (continues h0) m"
  by (rule keepsI) (metis continuesE continuesI elsewhere leaves_runD)

lemma walks_file: "keeps (continues h0) (file_request e u t q a v reason code)"
  unfolding keeps_def by (metis continuesE continuesI filed)

text \<open>The steps with a row read in a state of \<open>h0\<close>.\<close>

lemma walks_row:
  assumes "s0 \<in> set h0" "r \<in> set (db_refundRequests s0)"
  shows "rx_state r = ''requested'' \<Longrightarrow> rx_requestedBy r \<noteq> u \<Longrightarrow> keeps (continues h0) (approve_transaction e u r)"
    and "rx_state r = ''requested'' \<or> rx_state r = ''approved'' \<Longrightarrow> keeps (continues h0) (cancel_transaction e u r)"
    and "may_execute u r \<Longrightarrow> keeps (continues h0) (latch_request u r)"
    and "keeps (continues h0) (unlatch r)"
    and "may_execute u r \<Longrightarrow> keeps (continues h0) (finish_transaction e u r result)"
proof -
  have mem: "s0 \<in> set (s # l @ h0)" for s l using assms(1) by simp
  show "keeps (continues h0) (approve_transaction e u r)" if "rx_state r = ''requested''" "rx_requestedBy r \<noteq> u"
    unfolding keeps_def using that mem assms(2) by (metis continuesE continuesI approved)
  show "keeps (continues h0) (cancel_transaction e u r)" if "rx_state r = ''requested'' \<or> rx_state r = ''approved''"
    unfolding keeps_def using that mem assms(2) by (metis continuesE continuesI cancelled)
  show "keeps (continues h0) (latch_request u r)" if "may_execute u r"
    unfolding keeps_def using that mem assms(2) by (metis continuesE continuesI latched)
  show "keeps (continues h0) (unlatch r)"
    unfolding keeps_def using mem assms(2) by (metis continuesE continuesI unlatched)
  show "keeps (continues h0) (finish_transaction e u r result)" if "may_execute u r"
    unfolding keeps_def using that mem assms(2) by (metis continuesE continuesI finished)
qed

lemma refund_leaves_requests: "leaves db_refundRequests (recordRefund e u input)"
  unfolding recordRefund_def recordFeeRefund_def recordGoodsRefund_def goods_transaction_def fee_transaction_def
    goods_refund_def fee_refund_def Let_def
  by (intro leaves_intros leaves_ledger; simp)

lemma walks_post:
  assumes "s0 \<in> set h0" "r \<in> set (db_refundRequests s0)"
  shows "keeps (continues h0) (post_refund e u r input)"
  unfolding post_refund_def
  by (intro keeps_intros walks_row(4) [OF assms] walks_elsewhere [OF refund_leaves_requests])

lemma walks_finish:
  assumes "s0 \<in> set h0" "r \<in> set (db_refundRequests s0)" "may_execute u r"
  shows "keeps (continues h0) (finish_request e u r result)"
  unfolding finish_request_def by (intro keeps_intros walks_row [OF assms(1,2)] assms(3))

lemma keeps_load [keeps_intros]: "keeps I (loadRequest k)"
  unfolding loadRequest_def by (intro keeps_intros)

lemma keeps_verify [keeps_intros]: "keeps I (verifySnapshot e r)"
  unfolding verifySnapshot_def by (intro keeps_intros)

text \<open>Reading the row first, and stopping when it is not there.\<close>

lemma load_then:
  assumes "request_history (s # h)"
    and "\<And>r. r \<in> set (db_refundRequests s) \<Longrightarrow> continues (s # h) (snd (k r s))"
  shows "continues (s # h) (snd (seq (loadRequest i) k s))"
  using continues_start [OF assms(1)] assms(2)
  by (auto simp: loadRequest_def seq_def found_def split: option.split dest: find_in_set)

lemma require_then:
  assumes "request_history (s # h)" and "b \<Longrightarrow> continues (s # h) (snd (m s))"
  shows "continues (s # h) (snd (seq (require b ex) (\<lambda>_. m) s))"
  using continues_start [OF assms(1)] assms(2) by (simp add: seq_def)

lemma walks_from: "request_history (s # h) \<Longrightarrow> keeps (continues (s # h)) m \<Longrightarrow> continues (s # h) (snd (m s))"
  by (simp add: keeps_def continues_start)

lemma approve_walks: "request_history (s # h) \<Longrightarrow> continues (s # h) (snd (approveRefund e u i s))"
  unfolding approveRefund_def
  by (intro load_then require_then walks_from keeps_intros walks_row(1); assumption?) simp_all

lemma cancel_walks: "request_history (s # h) \<Longrightarrow> continues (s # h) (snd (cancelRefundRequest e u i s))"
  unfolding cancelRefundRequest_def
  by (intro load_then require_then walks_from keeps_intros walks_row(2); assumption?) simp_all

lemma execute_walks:
  assumes h: "request_history (s # h)"
  shows "continues (s # h) (snd (executeRefund e u i input s))"
  unfolding executeRefund_def
proof (intro load_then require_then h)
  fix r assume r: "r \<in> set (db_refundRequests s)" "rx_state r = ''approved'' \<or> rx_state r = ''executing''"
    "rx_approvedBy r \<noteq> Some u" "rx_state r = ''executing'' \<longrightarrow> rx_executedBy r = Some u"
  then have m: "may_execute u r" by (simp add: may_execute_def)
  have s: "s \<in> set (s # h)" by simp
  show "continues (s # h) (snd (seq (verifySnapshot e r) (\<lambda>_.
     seq (lift (toMinor (ei_confirmedAmount input) SAR)) (\<lambda>confirmed.
     seq (require (confirmed = to_minor (moneyToNumber (MoneyDecimal (rx_amount r))) SAR)
           (Conflict ''refund_confirmed_amount_mismatch'')) (\<lambda>_.
     seq (latch_request u r) (\<lambda>_.
     seq (post_refund e u r input) (\<lambda>result.
     seq (finish_request e u r result) (\<lambda>done_count.
     seq (require (done_count = 1 \<or> rs_replayed result) (Conflict ''refund_request_contended'')) (\<lambda>_.
     seq (loadRequest i) (\<lambda>after.
     ret (after, result))))))))) s))"
    by (rule walks_from [OF h])
      (intro keeps_intros walks_row(3) [OF s r(1) m] walks_post [OF s r(1)] walks_finish [OF s r(1) m])
qed

lemma request_walks:
  assumes h: "request_history (s # h)"
  shows "continues (s # h) (snd (requestRefund e u input s))"
  unfolding requestRefund_def Let_def by (rule walks_from [OF h]) (intro keeps_intros walks_file)

section \<open>A request carried through\<close>

lemma transaction_moves:
  assumes "count_where p (db_refundRequests s) = 1" "non_blank k"
  shows "db_refundRequests (snd (transaction (seq (updateMany db_refundRequests db_refundRequests_update p f)
      (\<lambda>moved. seq (require (moved = 1) ex) (\<lambda>_. audit_guaranteed i k))) s)) = update_where p f (db_refundRequests s)"
proof -
  let ?s = "db_refundRequests_update (update_where p f) s"
  obtain au where "audit_guaranteed i k ?s = (Inr (), ?s\<lparr> db_audit := au \<rparr>)" using audit_returns [OF assms(2)] by blast
  then show ?thesis using assms(1) by (simp add: transaction_def seq_def updateMany_def)
qed

lemma keyed_action: "non_blank (''finance.refund.'' @ k)"
  unfolding non_blank_def by (rule js_trim_nonempty [of "CHR ''f''"]) (simp_all add: js_space_def)

lemma file_commits:
  assumes "\<bar>m\<bar> < 10 ^ 12" "\<bar>w\<bar> < 10 ^ 12" and "db_refundRequests s = []"
  shows "\<exists>r s'. file_request e u t q (fromMinor m SAR) (fromMinor w SAR) reason code s = (Inr r, s')"
proof -
  have k: "non_blank (''finance.refund.requested:'' @ i)" for i using keyed_action [of "''requested:'' @ i"] by simp
  have "to_dec (fromMinor m SAR) = Inr m" "to_dec (fromMinor w SAR) = Inr w"
    using to_dec_fromMinor [of SAR] assms(1,2) by simp_all
  then show ?thesis using assms(3) audit_returns [OF k]
    unfolding file_request_def by (auto simp: transaction_iff seq_iff lift_iff ret_iff create_iff) metis
qed

lemma one_row_update: "db_refundRequests s = [r] \<Longrightarrow> p r \<Longrightarrow> update_where p f (db_refundRequests s) = [f r] \<and> count_where p (db_refundRequests s) = 1"
  by (simp add: update_where_def count_where_def)

lemma finish_commits:
  assumes "bind_refund e u r (rf_id (rs_refund result)) s = (Inr 1, s1)"
  shows "db_refundRequests (snd (finish_transaction e u r result s)) = db_refundRequests s1"
proof -
  have "\<forall>i. \<exists>au. audit_guaranteed i (''finance.refund.executed:'' @ rx_id r) s1 = (Inr (), s1\<lparr> db_audit := au \<rparr>)"
    using audit_returns keyed_action [of "''executed:'' @ rx_id r"] by simp
  from choice [OF this] obtain F where
    "\<forall>i. audit_guaranteed i (''finance.refund.executed:'' @ rx_id r) s1 = (Inr (), s1\<lparr> db_audit := F i \<rparr>)" by blast
  then show ?thesis by (simp add: finish_transaction_def transaction_def seq_def assms)
qed

lemma filter_single: "distinct t \<Longrightarrow> r \<in> set t \<Longrightarrow> filter (\<lambda>x. x = r) t = [r]"
  by (induction t) (auto simp: filter_empty_conv)

text \<open>Filed by one, approved by a second, executed by a third.\<close>

lemma executed_history:
  "\<exists>s h r s0 r0. request_history (s # h) \<and> db_refundRequests s = [r] \<and> rx_state r = ''executed''
     \<and> s0 \<in> set (s # h) \<and> db_refundRequests s0 = [r0] \<and> rx_state r0 = ''requested''"
proof -
  let ?e = "demo_env ''q1''"
  let ?q = "\<lparr> qi_id = ''v1'', qi_orgId = ''o1'', qi_storeId = None, qi_number = None, qi_totalMinor = 1000, qi_vatMinor = 0 \<rparr>"
  let ?file = "file_request ?e ''maker'' merchant_type ?q (fromMinor 1000 SAR) (fromMinor 0 SAR) ''r'' None"
  have h0: "request_history [demo_db]" and empty: "db_refundRequests demo_db = []"
    by (simp_all add: opened demo_db_def)
  have "\<exists>r1 s1. ?file demo_db = (Inr r1, s1)" by (rule file_commits) (simp_all add: empty)
  then obtain r1 s1 where run1: "?file demo_db = (Inr r1, s1)" by blast
  from file_request_row [OF run1] have r1: "db_refundRequests s1 = [r1]" "rx_state r1 = ''requested''"
    "rx_requestedBy r1 = ''maker''" "rx_approvedBy r1 = None" by (simp_all add: empty)
  have h1: "request_history [s1, demo_db]"
    using filed [OF h0, of ?e "''maker''" merchant_type ?q "fromMinor 1000 SAR" "fromMinor 0 SAR" "''r''" None] by (simp only: run1 snd_conv)
  define s2 where "s2 = snd (approve_transaction ?e ''checker'' r1 s1)"
  define r2 where "r2 = r1\<lparr> rx_state := ''approved'', rx_approvedBy := Some ''checker'', rx_approvedAt := Some (clk ?e 24) \<rparr>"
  have h2: "request_history [s2, s1, demo_db]"
    unfolding s2_def by (rule approved [OF h1, of s1]) (simp_all add: r1)
  have r2: "db_refundRequests s2 = [r2]"
    unfolding s2_def r2_def approve_transaction_def using one_row_update [OF r1(1)] r1(2) keyed_action [of "''approved:'' @ rx_id r1"]
    by (subst transaction_moves) (simp_all add: r1 update_where_def)
  define s3 where "s3 = snd (latch_request ''executor'' r2 s2)"
  define r3 where "r3 = r2\<lparr> rx_state := ''executing'', rx_executedBy := Some ''executor'' \<rparr>"
  have m2: "may_execute ''executor'' r2" by (simp add: may_execute_def r2_def)
  have h3: "request_history [s3, s2, s1, demo_db]"
    unfolding s3_def by (rule latched [OF h2, of s2]) (simp_all add: r2 m2)
  have r3: "db_refundRequests s3 = [r3]"
    by (simp add: s3_def r3_def latch_request_def seq_def updateMany_def r2 update_where_def r2_def)
  define result :: RefundResult where
    "result = undefined\<lparr> rs_refund := undefined\<lparr> rf_id := ''f1'' \<rparr>, rs_replayed := False \<rparr>"
  define s4 where "s4 = snd (finish_transaction ?e ''executor'' r2 result s3)"
  define r4 where "r4 = r3\<lparr> rx_state := ''executed'', rx_executedBy := Some ''executor'', rx_executedAt := Some (clk ?e 25), rx_refundId := Some ''f1'' \<rparr>"
  have h4: "request_history [s4, s3, s2, s1, demo_db]"
    unfolding s4_def by (rule finished [OF h3, of s2]) (simp_all add: r2 m2)
  have b: "bind_refund ?e ''executor'' r2 ''f1'' s3 = (Inr 1, db_refundRequests_update (\<lambda>_. [r4]) s3)"
    by (simp add: bind_refund_def Let_def seq_def updateMany_def r3 update_where_def count_where_def r3_def r2_def r4_def)
  have r4: "db_refundRequests s4 = [r4]"
  proof -
    have "bind_refund ?e ''executor'' r2 (rf_id (rs_refund result)) s3 = (Inr 1, db_refundRequests_update (\<lambda>_. [r4]) s3)"
      using b by (simp add: result_def)
    from finish_commits [OF this] show ?thesis unfolding s4_def request_rows_upd .
  qed
  have "rx_state r4 = ''executed''" by (simp add: r4_def)
  moreover have "s1 \<in> set [s4, s3, s2, s1, demo_db]" by simp
  ultimately show ?thesis using h4 r4 r1(1,2) by blast
qed

section \<open>Properties\<close>

text \<open>
  C18: separation of duties. However the handlers of any number of users interleave, an executed
  refund request was approved by somebody other than its requester and executed by somebody
  other than its approver, and the refund it is bound to is bound to no other request.
\<close>

theorem refund_duties_segregated:
  assumes "request_history (s # h)" and "r \<in> set (db_refundRequests s)" and "rx_state r = ''executed''"
  shows "\<exists>a x f. rx_approvedBy r = Some a \<and> rx_executedBy r = Some x \<and> rx_refundId r = Some f
    \<and> a \<noteq> rx_requestedBy r \<and> x \<noteq> a \<and> filter (\<lambda>r'. rx_refundId r' = Some f) (db_refundRequests s) = [r]"
proof -
  have ok: "requests_ok s" by (rule requests_pastD(1) [OF request_history_past [OF assms(1)] list.set_intros(1)])
  from requests_okD [OF ok assms(2)] assms(3) obtain a x f where r: "rx_approvedBy r = Some a" "rx_executedBy r = Some x"
    "rx_refundId r = Some f" "a \<noteq> rx_requestedBy r" "x \<noteq> a"
    by (auto simp: request_ok_def)
  have "(rx_refundId r' = Some f) = (r' = r)" if "r' \<in> set (db_refundRequests s)" for r'
    using requests_one_owner [OF ok assms(2) that] r(3) by auto
  then have "filter (\<lambda>r'. rx_refundId r' = Some f) (db_refundRequests s) = filter (\<lambda>r'. r' = r) (db_refundRequests s)"
    by (rule filter_cong [OF refl])
  moreover have "distinct (db_refundRequests s)" using ok unfolding requests_ok_def distinct_map by blast
  ultimately have "filter (\<lambda>r'. rx_refundId r' = Some f) (db_refundRequests s) = [r]"
    by (simp only: filter_single [OF _ assms(2)])
  with r show ?thesis by blast
qed

lemma refund_duties_segregated_witness:
  "\<exists>s h r a x. request_history (s # h) \<and> r \<in> set (db_refundRequests s) \<and> rx_state r = ''executed''
     \<and> rx_approvedBy r = Some a \<and> rx_executedBy r = Some x \<and> a \<noteq> rx_requestedBy r \<and> x \<noteq> a"
proof -
  from executed_history obtain s h r where r: "request_history (s # h)" "r \<in> set (db_refundRequests s)" "rx_state r = ''executed''"
    by auto
  from refund_duties_segregated [OF r] r show ?thesis by blast
qed

text \<open>
  C19: quotes and decisions are final. A request filed at any moment of a history is there ever
  after with the same quote, requester and snapshot hash; its approver is never replaced, and
  once it is executed or cancelled the row does not change again.
\<close>

theorem refund_decisions_final:
  assumes "request_history (s # h)" and "s0 \<in> set (s # h)" and "r \<in> set (db_refundRequests s0)"
  shows "\<exists>r' \<in> set (db_refundRequests s). quote_of r' = quote_of r
    \<and> (rx_approvedBy r \<noteq> None \<longrightarrow> rx_approvedBy r' = rx_approvedBy r)
    \<and> (rx_state r = ''executed'' \<or> rx_state r = ''cancelled'' \<longrightarrow> r' = r)"
  using requests_pastD(3) [OF request_history_past [OF assms(1)] assms(2)] assms(3)
  by (auto simp: requests_persist_def follows_def final_def)

lemma refund_decisions_final_witness:
  "\<exists>s s0 h r. request_history (s # h) \<and> s0 \<in> set (s # h) \<and> db_refundRequests s0 = [r] \<and> rx_state r = ''requested''
     \<and> (\<exists>r' \<in> set (db_refundRequests s). quote_of r' = quote_of r \<and> rx_state r' = ''executed'')"
proof -
  from executed_history obtain s h r s0 r0 where w: "request_history (s # h)" "db_refundRequests s = [r]" "rx_state r = ''executed''"
    "s0 \<in> set (s # h)" "db_refundRequests s0 = [r0]" "rx_state r0 = ''requested''" by blast
  have "r0 \<in> set (db_refundRequests s0)" using w(5) by simp
  from refund_decisions_final [OF w(1,4) this] w show ?thesis
    by (intro exI [of _ s] exI [of _ s0] exI [of _ h] exI [of _ r0]) simp
qed

text \<open>
  C20: the handlers refine the steps. Run whole in the last state of a history, each handler of
  the workflow ends in a state that a history continues to, refusals and failed postings
  included, so what holds of all histories holds of all runs.
\<close>

theorem refund_handlers_are_steps:
  assumes "request_history (s # h)"
    and "s' \<in> {snd (requestRefund e u input s), snd (approveRefund e u i s), snd (cancelRefundRequest e u i s),
               snd (executeRefund e u i evidence s)}"
  shows "\<exists>l. request_history (s' # l @ s # h)"
  using assms(2) request_walks [OF assms(1)] approve_walks [OF assms(1)] cancel_walks [OF assms(1)] execute_walks [OF assms(1)]
  by (auto simp: continues_def)

lemma refund_handlers_are_steps_witness:
  "\<exists>l. request_history (snd (approveRefund (demo_env ''q'') ''u'' ''q1'' demo_db) # l @ [demo_db])"
  using refund_handlers_are_steps [of demo_db "[]" "snd (approveRefund (demo_env ''q'') ''u'' ''q1'' demo_db)" "demo_env ''q''" "''u''" undefined "''q1''" undefined]
  by (simp add: opened demo_db_def)

text \<open>
  C21: a filed snapshot verifies. The row a request leaves is pending, holds the quoted amount
  to the minor unit, and its snapshot hash is reproduced from the row alone whenever the invoice
  carries the number it had at filing, or had none then.
\<close>

theorem filed_snapshot_verifies:
  assumes "requestRefund e u input s = (Inr r, s')" and "en_sha e' = en_sha e"
    and "current_number (rx_invoiceType r) (rx_invoiceId r) s
           \<in> {None, current_number (rx_invoiceType r) (rx_invoiceId r) s2}"
  shows "rx_state r = ''requested'' \<and> toMinor (ri_refundAmount input) SAR = Inr (rx_amount r)
    \<and> r \<in> set (db_refundRequests s') \<and> verifySnapshot e' r s2 = (Inr (), s2)"
proof -
  from assms(1) obtain m q where m: "refund_amount (ri_refundAmount input) = Inr m"
    and q: "quoted_invoice (ri_refundInvoiceType input) (ri_refundInvoiceId input) s = Some q"
    and filing: "file_request e u (ri_refundInvoiceType input) q (fromMinor m SAR) (advisory_vat m q)
      (js_trim (ri_refundReason input)) (trim_opt (ri_refundReasonCode input)) s = (Inr r, s')"
    by (auto simp: requestRefund_def Let_def seq_iff lift_iff require_iff reads_iff found_iff simp del: require_run reads_run lift_run)
  from file_request_row [OF filing] have row: "r \<in> set (db_refundRequests s')" "rx_state r = ''requested''" by simp_all
  obtain w where w: "advisory_vat m q = fromMinor w SAR" by (simp add: advisory_vat_def)
  from filing obtain a v where a: "to_dec (fromMinor m SAR) = Inr a" "to_dec (fromMinor w SAR) = Inr v"
    and r: "rx_invoiceType r = ri_refundInvoiceType input" "rx_invoiceId r = qi_id q" "rx_orgId r = qi_orgId q"
      "rx_amount r = a" "rx_vatComponent r = v" "rx_reason r = js_trim (ri_refundReason input)"
      "rx_reasonCode r = trim_opt (ri_refundReasonCode input)" "rx_recipientType r = ''company''"
      "rx_method r = ''manual_bank_transfer''"
      "rx_snapshotHash r = refundSnapshotHash (en_sha e) (refundSnapshot (ri_refundInvoiceType input) (qi_id q) (qi_number q)
         (fromMinor m SAR) (fromMinor w SAR) (js_trim (ri_refundReason input)) (trim_opt (ri_refundReasonCode input))
         ''company'' (qi_orgId q) ''manual_bank_transfer'')"
    by (auto simp: file_request_def w transaction_iff seq_iff lift_iff create_iff ret_iff)
  have am: "a = m" "v = w" using a to_dec_fromMinorD [of SAR] by auto
  have snap: "refundSnapshotHash (en_sha e) (request_snapshot r (qi_number q)) = rx_snapshotHash r"
    by (simp add: request_snapshot_def r am dec_num_fromMinor [of SAR])
  have quote_id: "qi_id q = ri_refundInvoiceId input"
    using q by (auto simp: quoted_invoice_def dest: find_in_set split: if_splits)
  have "qi_number q = current_number (rx_invoiceType r) (rx_invoiceId r) s"
    using q unfolding r(1,2) quote_id by (auto simp: quoted_invoice_def current_number_def split: if_splits option.splits)
  with assms(3) consider "qi_number q = None" | "qi_number q = current_number (rx_invoiceType r) (rx_invoiceId r) s2" by auto
  then have "snapshot_intact e' r s2"
    using snap assms(2) by cases (auto simp: snapshot_intact_def Let_def)
  moreover have "toMinor (ri_refundAmount input) SAR = Inr m" using m by (auto simp: refund_amount_def bindr_iff check_iff)
  ultimately show ?thesis using row r(4) am by (simp add: verifySnapshot_def seq_def)
qed

text \<open>An invoice without a number when the request is filed, and with one afterwards.\<close>

definition numberless_invoice :: MerchantInvoice where
  "numberless_invoice = \<lparr> mi_id = ''v1'', mi_storeId = ''A'', mi_orgId = ''o1'', mi_campaignId = ''c1'', mi_status = ''paid'',
     mi_merchantInvoiceNumber = None, mi_externalId = None, mi_url = None, mi_invoiceNumberSource = ''MERCHANT'',
     mi_onBehalfAuthorizationRef = None, mi_storeName = None, mi_currency = ''SAR'', mi_goodsSubtotal = 1000, mi_vatAmount = 150, mi_totalAmount = 1150,
     mi_recipientCount = 10, mi_issuedAt = None, mi_dueDate = None, mi_paidAt = None \<rparr>"

lemma filed_snapshot_verifies_witness:
  "\<exists>e r s'. requestRefund e ''maker'' \<lparr> ri_refundInvoiceType = merchant_type, ri_refundInvoiceId = ''v1'',
        ri_refundAmount = Fin (fromMinor 1000 SAR), ri_refundReason = ''r'', ri_refundReasonCode = None \<rparr>
        (demo_db\<lparr> db_merchant := [numberless_invoice] \<rparr>) = (Inr r, s')
     \<and> rx_amount r = 1000 \<and> verifySnapshot e r (demo_db\<lparr> db_merchant := [numberless_invoice\<lparr> mi_merchantInvoiceNumber := Some ''INV-1'' \<rparr>] \<rparr>)
         = (Inr (), demo_db\<lparr> db_merchant := [numberless_invoice\<lparr> mi_merchantInvoiceNumber := Some ''INV-1'' \<rparr>] \<rparr>)"
proof -
  let ?e = "(demo_env ''q1'')\<lparr> en_gates := Some ''true'' \<rparr>"
  let ?input = "\<lparr> ri_refundInvoiceType = merchant_type, ri_refundInvoiceId = ''v1'',
        ri_refundAmount = Fin (fromMinor 1000 SAR), ri_refundReason = ''r'', ri_refundReasonCode = None \<rparr>"
  let ?s = "demo_db\<lparr> db_merchant := [numberless_invoice] \<rparr>"
  let ?s2 = "demo_db\<lparr> db_merchant := [numberless_invoice\<lparr> mi_merchantInvoiceNumber := Some ''INV-1'' \<rparr>] \<rparr>"
  let ?q = "\<lparr> qi_id = ''v1'', qi_orgId = ''o1'', qi_storeId = Some ''A'', qi_number = None, qi_totalMinor = 1150, qi_vatMinor = 150 \<rparr>"
  have trim: "js_trim ''r'' = ''r''" "js_trim ''v1'' = ''v1''" by (simp_all add: js_trim_def js_space_def)
  have m: "refund_amount (Fin (fromMinor 1000 SAR)) = Inr 1000" "toMinor (Fin (fromMinor 1000 SAR)) SAR = Inr 1000"
    by (simp_all add: refund_amount_def toMinor_def)
  have q: "quoted_invoice merchant_type ''v1'' ?s = Some ?q"
    by (simp add: quoted_invoice_def numberless_invoice_def)
  have "vat_proportion 1000 150 1150 = 130" by code_simp
  then have w: "advisory_vat 1000 ?q = fromMinor 130 SAR" by (simp add: advisory_vat_def)
  have "\<exists>r s'. file_request ?e ''maker'' merchant_type ?q (fromMinor 1000 SAR) (fromMinor 130 SAR) ''r'' None ?s = (Inr r, s')"
    by (rule file_commits) (simp_all add: demo_db_def)
  then obtain r s' where "file_request ?e ''maker'' merchant_type ?q (fromMinor 1000 SAR) (advisory_vat 1000 ?q) ''r'' None ?s = (Inr r, s')"
    unfolding w by blast
  then have run: "requestRefund ?e ''maker'' ?input ?s = (Inr r, s')"
    by (simp add: requestRefund_def Let_def m q trim trim_opt_def refund_gates_open_def non_blank_def)
  have "current_number (rx_invoiceType r) (rx_invoiceId r) ?s = None"
    by (simp add: current_number_def numberless_invoice_def demo_db_def)
  then have "current_number (rx_invoiceType r) (rx_invoiceId r) ?s \<in> {None, current_number (rx_invoiceType r) (rx_invoiceId r) ?s2}"
    by simp
  from filed_snapshot_verifies [OF run refl this] run m(2) show ?thesis
    by (intro exI [of _ ?e] exI [of _ r] exI [of _ s']) simp
qed

end
