(* ===== verification/Credit_Notes.thy ===== *)
theory Credit_Notes
  imports Refund_Laws Execution Assembly
begin

text \<open>
  The integrity of credit notes over everything that writes them: issuing a note with a refund
  and attaching the statement of the batch that recovered it. A stored note is authentic when
  its facts, as read back from its columns, serialise to the stored bytes and hash.
\<close>

definition authentic :: "(string \<Rightarrow> string) \<Rightarrow> CreditNote \<Rightarrow> bool" where
  "authentic sha n \<longleftrightarrow> cn_canonicalJson n = creditNoteCanonical (cn_facts n)
     \<and> cn_documentHash n = creditNoteHash sha (cn_facts n)"

definition notes_ok :: "(string \<Rightarrow> string) \<Rightarrow> db \<Rightarrow> bool" where
  "notes_ok sha s \<longleftrightarrow> distinct (map (\<lambda>n. nf_refundId (cn_facts n)) (db_creditNotes s))
     \<and> (\<forall>n \<in> set (db_creditNotes s). authentic sha n)"

lemma leaves_notes: "leaves db_creditNotes m \<Longrightarrow> keeps (notes_ok sha) m"
  by (rule keepsI) (auto simp: notes_ok_def dest: leaves_runD)

section \<open>Issuing\<close>

text \<open>The money columns read back as the numbers that were hashed.\<close>

lemma issue_keeps:
  assumes "nf_amount facts = fromMinor a SAR" "nf_vatComponent facts = fromMinor v SAR"
    and "nf_netComponent facts = map_option (\<lambda>k. fromMinor k SAR) net"
  shows "keeps (notes_ok (en_sha e)) (issue_credit_note e u facts)"
proof (rule keepsI)
  fix s x s' assume inv: "notes_ok (en_sha e) s" and run: "issue_credit_note e u facts s = (x, s')"
  have facts: "facts\<lparr> nf_netComponent := map_option dec_num n', nf_amount := dec_num a', nf_vatComponent := dec_num v' \<rparr> = facts"
    if "opt_dec (nf_netComponent facts) = Inr n'" "to_dec (nf_amount facts) = Inr a'" "to_dec (nf_vatComponent facts) = Inr v'"
    for n' a' v'
  proof -
    have "a' = a" "v' = v" using that(2,3) assms(1,2) to_dec_fromMinorD [of SAR] by auto
    moreover have "n' = net"
      using that(1) assms(3) to_dec_fromMinorD [of SAR] by (cases net) (auto simp: opt_dec_def prog_iff)
    ultimately show ?thesis using assms by (cases net) (simp_all add: dec_num_fromMinor [of SAR])
  qed
  show "notes_ok (en_sha e) s'"
  proof (cases "opt_dec (nf_netComponent facts)")
    case (Inl ex)
    with run inv show ?thesis by (auto simp: issue_credit_note_def Let_def)
  next
    case n: (Inr n')
    show ?thesis
    proof (cases "to_dec (nf_amount facts)")
      case (Inl ex)
      with run inv n show ?thesis by (auto simp: issue_credit_note_def Let_def)
    next
      case a: (Inr a')
      show ?thesis
      proof (cases "to_dec (nf_vatComponent facts)")
        case (Inl ex)
        with run inv n a show ?thesis by (auto simp: issue_credit_note_def Let_def)
      next
        case v: (Inr v')
        let ?n = "\<lparr> cn_id = en_uuid e 21, cn_facts = facts, cn_currentVersion = 1,
          cn_canonicalJson = creditNoteCanonical facts, cn_documentHash = creditNoteHash (en_sha e) facts \<rparr>"
        let ?rest = "\<lambda>note. seq (create db_creditNoteVersions db_creditNoteVersions_update
            (\<lambda>v v'. cv_creditNoteId v' = cv_creditNoteId v \<and> cv_versionNumber v' = cv_versionNumber v)
            \<lparr> cv_creditNoteId = cn_id note, cv_versionNumber = 1, cv_changeReason = ''issued'',
              cv_canonicalJson = creditNoteCanonical facts, cv_documentHash = creditNoteHash (en_sha e) facts,
              cv_statementSettlementId = None, cv_createdBy = u \<rparr>) (\<lambda>_. ret note)"
        have run': "seq (create db_creditNotes db_creditNotes_update note_clash ?n) ?rest s = (x, s')"
          using run by (simp add: issue_credit_note_def Let_def n a v facts [OF n a v])
        have "leaves db_creditNotes (?rest cn)" for cn by (intro leaves_intros) simp
        from leaves_tail [where g = db_creditNotes and m = "create db_creditNotes db_creditNotes_update note_clash ?n" and k = ?rest and s = s, OF this] run'
        have "db_creditNotes s' = db_creditNotes (snd (create db_creditNotes db_creditNotes_update note_clash ?n s))" by simp
        with inv show ?thesis by (auto simp: create_def notes_ok_def note_clash_def authentic_def)
      qed
    qed
  qed
qed

text \<open>The recording of a refund keeps every stored note authentic.\<close>

lemma keeps_outcome [keeps_intros]:
  "(\<And>r. keeps I (m r)) \<Longrightarrow> (\<And>r n. keeps I (k r n)) \<Longrightarrow>
     keeps I (case v of ReplayedRefund r \<Rightarrow> m r | NewRefund r n \<Rightarrow> k r n)"
  by (cases v) simp_all

lemma goods_issue_keeps [keeps_intros]:
  "keeps (notes_ok (en_sha e)) (issue_credit_note e u (goods_facts e u input v r qn source (fromMinor a SAR) (fromMinor w SAR)))"
  by (rule issue_keeps [where net = None]) (simp_all add: goods_facts_def)

lemma fee_issue_keeps [keeps_intros]:
  "keeps (notes_ok (en_sha e)) (issue_credit_note e u (fee_facts e u rc v r qd qn (fromMinor a SAR) (fromMinor w SAR) (fromMinor n SAR)))"
  by (rule issue_keeps [where net = "Some n"]) (simp_all add: fee_facts_def)

lemma ledger_notes: "leaves db_creditNotes (ledger_record i)"
  by (rule leaves_ledger) simp

lemma goods_refund_notes [keeps_intros]: "keeps (notes_ok (en_sha e)) (goods_refund e u input v ev reason d m)"
  unfolding goods_refund_def Let_def
  by (intro keeps_intros; (rule leaves_notes, intro leaves_intros ledger_notes; simp))

lemma fee_refund_notes [keeps_intros]: "keeps (notes_ok (en_sha e)) (fee_refund e u rc v ev reason d m)"
  unfolding fee_refund_def Let_def
  by (intro keeps_intros; (rule leaves_notes, intro leaves_intros ledger_notes; simp))

lemma resolve_notes [keeps_intros]: "keeps (notes_ok sha) m \<Longrightarrow> keeps (notes_ok sha) (resolve_replay t i ev m)"
  unfolding resolve_replay_def
  by (intro keeps_intros; (assumption | rule leaves_notes, intro leaves_intros))

lemma recordRefund_notes: "keeps (notes_ok (en_sha e)) (recordRefund e u input)"
  unfolding recordRefund_def recordFeeRefund_def recordGoodsRefund_def goods_transaction_def fee_transaction_def Let_def
  by (intro keeps_intros keeps_transaction_body; (rule leaves_notes, intro leaves_intros ledger_notes; simp))

section \<open>Attaching the statement\<close>

lemma attach_notes: "keeps (notes_ok (en_sha e)) (attach_one e u frozen alloc)"
proof (rule keepsI)
  fix s x s' assume inv: "notes_ok (en_sha e) s" and run: "attach_one e u frozen alloc s = (x, s')"
  show "notes_ok (en_sha e) s'"
  proof (cases "find (\<lambda>n. nf_refundId (cn_facts n) = ra_occurrenceId alloc) (db_creditNotes s)")
    case None
    with run inv show ?thesis by (simp add: attach_one_def)
  next
    case (Some n)
    show ?thesis
    proof (cases "nf_statementSettlementId (cn_facts n) = None")
      case False
      with run inv Some show ?thesis by (simp add: attach_one_def)
    next
      case True
      let ?facts = "(cn_facts n)\<lparr> nf_statementSettlementId := Some (fz_settlementId frozen) \<rparr>"
      let ?p = "\<lambda>n. nf_refundId (cn_facts n) = ra_occurrenceId alloc \<and> nf_statementSettlementId (cn_facts n) = None"
      let ?f = "\<lambda>m. m\<lparr> cn_facts := (cn_facts m)\<lparr> nf_statementSettlementId := Some (fz_settlementId frozen) \<rparr>,
          cn_canonicalJson := creditNoteCanonical ?facts, cn_documentHash := creditNoteHash (en_sha e) ?facts,
          cn_currentVersion := cn_currentVersion n + 1 \<rparr>"
      let ?upd = "updateMany db_creditNotes db_creditNotes_update ?p ?f"
      let ?k = "\<lambda>attached. if attached = 1
         then
           seq (create db_creditNoteVersions db_creditNoteVersions_update
                 (\<lambda>v v'. cv_creditNoteId v' = cv_creditNoteId v \<and> cv_versionNumber v' = cv_versionNumber v)
                 \<lparr> cv_creditNoteId = cn_id n, cv_versionNumber = cn_currentVersion n + 1,
                   cv_changeReason = ''statement_attached'', cv_canonicalJson = creditNoteCanonical ?facts,
                   cv_documentHash = creditNoteHash (en_sha e) ?facts,
                   cv_statementSettlementId = Some (fz_settlementId frozen), cv_createdBy = u \<rparr>) (\<lambda>_.
           audit_guaranteed (audit_input u ''settlement.credit_note.statement_attached'' ''store''
               (Some (fz_storeId frozen))
               [(''creditNoteReference'', JStr (nf_referenceNumber (cn_facts n))),
                (''refundId'', JStr (nf_refundId (cn_facts n))),
                (''settlementId'', JStr (fz_settlementId frozen)),
                (''settlementReference'', JStr (fz_settlementReference frozen)),
                (''documentVersion'', JStr ''v1'')])
               (''settlement.credit_note.statement_attached:'' @ nf_refundId (cn_facts n)))
         else ret ()"
      have run': "seq ?upd ?k s = (x, s')"
        using run Some True unfolding attach_one_def Let_def by (simp only: seq_def reads_def prod.case sum.case option.case simp_thms if_False)
      have "db_creditNotes (snd (seq ?upd ?k s)) = db_creditNotes (snd (?upd s))"
        by (rule leaves_tail) (intro leaves_intros; simp)
      then have "db_creditNotes s' = db_creditNotes (snd (?upd s))" unfolding run' snd_conv .
      then have rows: "db_creditNotes s' = update_where ?p ?f (db_creditNotes s)" by simp
      have dist: "distinct (map (\<lambda>n. nf_refundId (cn_facts n)) (db_creditNotes s))" using inv by (simp add: notes_ok_def)
      from find_in_set [OF Some] have n: "n \<in> set (db_creditNotes s)" "nf_refundId (cn_facts n) = ra_occurrenceId alloc" by simp_all
      have "m = n" if "m \<in> set (db_creditNotes s)" "?p m" for m
        using distinct_key_eq [OF dist that(1) n(1)] that(2) n(2) by simp
      then have "authentic (en_sha e) m'" if "m' \<in> set (update_where ?p ?f (db_creditNotes s))" for m'
        using that inv by (auto simp: in_update_where notes_ok_def authentic_def)
      moreover have "map (\<lambda>n. nf_refundId (cn_facts n)) (update_where ?p ?f (db_creditNotes s)) = map (\<lambda>n. nf_refundId (cn_facts n)) (db_creditNotes s)"
        by (rule map_update_where) simp
      ultimately show ?thesis using dist by (simp add: notes_ok_def rows)
    qed
  qed
qed

lemma attach_all_notes: "keeps (notes_ok (en_sha e)) (attachStatementToCreditNotes e u frozen)"
  unfolding attachStatementToCreditNotes_def by (rule keeps_each) (rule attach_notes)

section \<open>Properties\<close>

text \<open>
  C22: credit notes replay. While every stored note is authentic and belongs to a refund of its
  own, recording any refund and attaching any statement leave it so, and replaying any note,
  now or after either of them, reports it identical, its regenerated hash equal to the stored
  one: a note can only stop replaying when something else rewrites it.
\<close>

theorem credit_notes_replay:
  assumes "notes_ok (en_sha e) s" and "s' \<in> {s, snd (recordRefund e u input s), snd (attachStatementToCreditNotes e u frozen s)}"
    and "replayCreditNote e' u' refundId s' = (Inr x, s2)" and "en_sha e' = en_sha e"
  shows "cr_identical x \<and> cr_regeneratedHash x = cr_storedHash x \<and> notes_ok (en_sha e) s2"
proof -
  have ok: "notes_ok (en_sha e) s'"
    using assms(1,2) recordRefund_notes [of e u input] attach_all_notes [of e u frozen] by (auto simp: keeps_def)
  have "leaves db_creditNotes (replayCreditNote e' u' refundId)"
    unfolding replayCreditNote_def by (intro leaves_intros) simp
  from leaves_notes [OF this] ok assms(3) have "notes_ok (en_sha e) s2" by (rule keepsD)
  moreover from assms(3) obtain n where "find (\<lambda>n. nf_refundId (cn_facts n) = refundId) (db_creditNotes s') = Some n"
    and x: "cr_identical x = (creditNoteCanonical (cn_facts n) = cn_canonicalJson n \<and> creditNoteHash (en_sha e') (cn_facts n) = cn_documentHash n)"
      "cr_regeneratedHash x = creditNoteHash (en_sha e') (cn_facts n)" "cr_storedHash x = cn_documentHash n"
    by (auto simp: replayCreditNote_def Let_def seq_iff reads_iff require_iff found_iff ret_iff simp del: require_run reads_run)
  with ok assms(4) find_in_set have "authentic (en_sha e') n" by (metis notes_ok_def)
  ultimately show ?thesis using x by (simp add: authentic_def)
qed

definition demo_facts :: CreditNoteFacts where
  "demo_facts = \<lparr> nf_referenceNumber = ''QN-AAAA-2222'', nf_refundId = ''f1'', nf_noteType = ''merchant_goods'',
     nf_invoiceType = merchant_type, nf_invoiceId = ''v1'', nf_merchantInvoiceNumber = None,
     nf_merchantCreditNoteNumber = None, nf_qiftCreditNoteNumber = None, nf_issuerType = ''MERCHANT'',
     nf_issuanceSource = ''MERCHANT'', nf_onBehalfAuthorizationRef = None, nf_creditNoteUuid = None,
     nf_originalInvoiceNumber = None, nf_netComponent = None, nf_reasonCode = None, nf_taxRuleVersion = None,
     nf_buyerSnapshot = None, nf_issuerSnapshot = None, nf_storeId = Some ''st'', nf_orgId = ''o'',
     nf_campaignId = ''c'', nf_currency = ''SAR'', nf_amount = 10, nf_vatComponent = 1, nf_reason = ''r'',
     nf_issuedAt = ''2026-01-01T00:00:00.000Z'', nf_issuedBy = ''u'', nf_statementSettlementId = None \<rparr>"

definition demo_note :: "env \<Rightarrow> CreditNote" where
  "demo_note e = \<lparr> cn_id = ''n1'', cn_facts = demo_facts, cn_currentVersion = 1,
     cn_canonicalJson = creditNoteCanonical demo_facts, cn_documentHash = creditNoteHash (en_sha e) demo_facts \<rparr>"

lemma credit_notes_replay_witness:
  "\<exists>x s2. replayCreditNote (demo_env ''i'') ''u'' ''f1'' (demo_db\<lparr> db_creditNotes := [demo_note (demo_env ''i'')] \<rparr>) = (Inr x, s2)
     \<and> cr_identical x"
proof -
  let ?e = "demo_env ''i''" and ?s = "demo_db\<lparr> db_creditNotes := [demo_note (demo_env ''i'')] \<rparr>"
  have ok: "notes_ok (en_sha ?e) ?s" by (simp add: notes_ok_def authentic_def demo_note_def)
  obtain x s2 where run: "replayCreditNote ?e ''u'' ''f1'' ?s = (Inr x, s2)"
    by (simp add: replayCreditNote_def Let_def demo_note_def demo_facts_def non_blank_def js_trim_def js_space_def
        audit_record_def on_table_def record_best_effort_def insert_audit_def key_taken_def audit_row_def truthy_def)
  from credit_notes_replay [where u = "''u''" and input = undefined and frozen = undefined, OF ok _ run refl]
  show ?thesis using run by auto
qed

end
