(* ===== verification/Market.thy ===== *)
theory Market
  imports Database Fees Dates
begin

text \<open>
  The database of the consumer lane: users, addresses, blocks, catalog, gifts, orders and
  payments, added to the tables of the financial services (the ledger is shared). Two of its
  fields are not tables: what was handed to the notification service and what the payment
  gateway was asked to capture, in order. Place names are lists of UTF-16 code units, because
  the services fold Arabic spellings; other strings keep to Latin-1, and the Arabic texts of
  messages are named, not spelled.
\<close>

section \<open>Rows\<close>

type_synonym utext = "int list"

record User =
  us_id :: string
  us_qiftUsername :: string
  us_fullName :: "string option"
  us_deletedAt :: "instant option"

record Address =
  ad_id :: string
  ad_userId :: string
  ad_label :: "string option"
  ad_country :: utext
  ad_region :: "utext option"
  ad_city :: utext
  ad_governorate :: "string option"
  ad_district :: utext
  ad_street :: "string option"
  ad_buildingNumber :: "string option"
  ad_unitNumber :: "string option"
  ad_postalCode :: "string option"
  ad_additionalNumber :: "string option"
  ad_shortAddress :: "string option"
  ad_deliveryPhone :: "string option"
  ad_details :: string
  ad_isDefault :: bool

record Block =
  bl_blockerId :: string
  bl_blockedId :: string

record Follow =
  fo_followerId :: string
  fo_followingId :: string

text \<open>A JSON value whose strings are Unicode: the delivery zones as a merchant saved them.\<close>

datatype uvalue =
    UString utext
  | UArray "uvalue list"
  | UObject "(string \<times> uvalue) list"
  | UOther

record StoreFront =
  sf_id :: string
  sf_ownerId :: string
  sf_status :: string
  sf_city :: utext
  sf_deliveryZones :: uvalue

record Product =
  pd_id :: string
  pd_storeId :: string
  pd_price :: rat
  pd_category :: string
  pd_isFastDelivery :: bool
  pd_stockStatus :: string
  pd_isAvailable :: bool
  pd_giftedByCount :: int
  pd_trendingAt :: "instant option"

record Occasion =
  oc_id :: string
  oc_userId :: string
  oc_deactivatedAt :: "instant option"

record Wish =
  wi_id :: string
  wi_userId :: string
  wi_productId :: "string option"
  wi_deactivatedAt :: "instant option"
  wi_deactivatedReason :: "string option"

record GiftPost =
  gp_id :: string
  gp_giftId :: string
  gp_deactivatedAt :: "instant option"
  gp_deactivatedReason :: "string option"

record GiftAttempt =
  ga_senderId :: string
  ga_receiverId :: string
  ga_receiverUsername :: string
  ga_productName :: "string option"
  ga_storeName :: "string option"

record Gift =
  gf_id :: string
  gf_fulfillmentNumber :: string
  gf_senderId :: string
  gf_receiverId :: string
  gf_productName :: string
  gf_storeName :: string
  gf_storeId :: "string option"
  gf_productId :: "string option"
  gf_occasionId :: "string option"
  gf_messageText :: "string option"
  gf_mediaUrl :: "string option"
  gf_mediaType :: "string option"
  gf_status :: string
  gf_isAnonymous :: bool
  gf_isSurprise :: bool
  gf_addressId :: "string option"
  gf_confirmedAt :: "instant option"
  gf_shippedAt :: "instant option"
  gf_deliveredAt :: "instant option"
  gf_trackingNumber :: "string option"
  gf_carrier :: "string option"
  gf_createdAt :: instant
  gf_idempotencyKey :: "string option"
  gf_idempotencyRequestHash :: "string option"

record Shipment =
  sh_id :: string
  sh_giftId :: string
  sh_provider :: string
  sh_trackingNumber :: "string option"
  sh_trackingUrl :: "string option"
  sh_status :: string

record ShipmentEvent =
  se_shipmentId :: string
  se_status :: string
  se_note :: "string option"
  se_occurredAt :: instant

text \<open>The money columns of orders and payments are floats.\<close>

record Order =
  or_id :: string
  or_orderNumber :: string
  or_userId :: string
  or_giftId :: "string option"
  or_receiverUsername :: string
  or_productName :: string
  or_storeName :: string
  or_productId :: "string option"
  or_storeId :: "string option"
  or_productPrice :: rat
  or_serviceFee :: rat
  or_deliveryFee :: rat
  or_totalAmount :: rat
  or_currency :: string
  or_country :: string
  or_paymentProvider :: string
  or_message :: "string option"
  or_mediaUrl :: "string option"
  or_mediaType :: "string option"
  or_isSurprise :: bool
  or_isAnonymous :: bool
  or_occasionId :: "string option"
  or_status :: string
  or_createdAt :: instant

record Payment =
  py_id :: string
  py_orderId :: string
  py_provider :: string
  py_providerPaymentId :: "string option"
  py_amount :: rat
  py_currency :: string
  py_status :: string

section \<open>What leaves the service\<close>

datatype NotificationType =
    GiftReceived | GiftConfirmAddress | GiftAddressConfirmed | GiftDefaultAddressUsed | GiftPreparing
  | GiftShipped | GiftDelivered | GiftCancelled | GiftAttemptedNoAddress | GiftAutoFallbackBlocked

text \<open>The titles, by what they announce.\<close>

datatype NotificationTitle =
    T_new_gift | T_surprise_gift | T_confirm_address | T_address_confirmed | T_gift_cancelled
  | T_attempt_without_address | T_auto_confirm_failed | T_waiting_for_supported_address
  | T_saved_address_used | T_default_address_used | T_your_gift_preparing | T_gift_preparing
  | T_your_gift_shipped | T_gift_shipped | T_message_from_sender | T_gift_arrived

record Trigger =
  tg_userId :: string
  tg_type :: NotificationType
  tg_title :: NotificationTitle
  tg_body :: "string option"
  tg_link :: "string option"

record Capture =
  cp_orderId :: string
  cp_providerPaymentId :: string
  cp_amount :: rat
  cp_currency :: string

section \<open>The database\<close>

record market = db +
  mk_users :: "User list"
  mk_addresses :: "Address list"
  mk_blocks :: "Block list"
  mk_follows :: "Follow list"
  mk_stores :: "StoreFront list"
  mk_products :: "Product list"
  mk_occasions :: "Occasion list"
  mk_wishes :: "Wish list"
  mk_giftPosts :: "GiftPost list"
  mk_attempts :: "GiftAttempt list"
  mk_gifts :: "Gift list"
  mk_shipments :: "Shipment list"
  mk_shipmentEvents :: "ShipmentEvent list"
  mk_orders :: "Order list"
  mk_payments :: "Payment list"
  mk_outbox :: "Trigger list"
  mk_captures :: "Capture list"

text \<open>
  The surroundings: \<open>me_fold\<close> is Unicode normalisation (NFKC) followed by lower-casing;
  \<open>me_paid\<close> is the gateway's answer for an order, \<open>me_storeUsers\<close> the environment variable
  STORE_USER_IDS.
\<close>

record menv = env +
  me_fold :: "utext \<Rightarrow> utext"
  me_paid :: "string \<Rightarrow> bool"
  me_storeUsers :: "string option"

definition market_ledger_record :: "RecordLedgerInput \<Rightarrow> (market, LedgerEntry) prog" where
  "market_ledger_record i = on_table db_ledger db_ledger_update (record_entry i)"

text \<open>\<open>void notifications.trigger(...)\<close>: handed over, never awaited, never raising.\<close>

definition notify :: "string \<Rightarrow> NotificationType \<Rightarrow> NotificationTitle \<Rightarrow> string option \<Rightarrow> string \<Rightarrow> (market, unit) prog" where
  "notify userId kind title body link =
     writes (mk_outbox_update (\<lambda>t. t @ [\<lparr> tg_userId = userId, tg_type = kind, tg_title = title, tg_body = body, tg_link = Some link \<rparr>]))"

definition gift_link :: "string \<Rightarrow> string" where
  "gift_link giftId = ''/gifts/'' @ giftId"


section \<open>An empty database\<close>

definition empty_market :: market where
  "empty_market =
     \<lparr> db_items = [], db_batches = [], db_receivables = [], db_remittances = [], db_approvals = [], db_previews = [],
       db_statements = [], db_signatures = [], db_replays = [], db_receipts = [], db_corporate = [], db_merchant = [],
       db_refunds = [], db_refundRequests = [], db_sequences = [], db_creditNotes = [], db_creditNoteVersions = [],
       db_campaigns = [], db_claims = [], db_stores = [], db_attestations = [], db_reconciliations = [], db_transfers = [],
       db_ledger = [], db_audit = [], mk_users = [], mk_addresses = [], mk_blocks = [], mk_follows = [], mk_stores = [],
       mk_products = [], mk_occasions = [], mk_wishes = [], mk_giftPosts = [], mk_attempts = [], mk_gifts = [],
       mk_shipments = [], mk_shipmentEvents = [], mk_orders = [], mk_payments = [], mk_outbox = [], mk_captures = [] \<rparr>"

end
