(* ===== verification/Gift_Rules.thy ===== *)
theory Gift_Rules
  imports Market
begin

text \<open>
  The rules of the gift flow that read and write nothing: the status graph
  (\<open>gifts/gift-status.ts\<close>), who sees what of a gift (\<open>gifts/gift-visibility.ts\<close>), what a
  notification may say (\<open>notifications/notification-privacy.ts\<close>) and whether a store delivers
  to an address (\<open>stores/delivery-zones.ts\<close>).
\<close>

section \<open>The status graph\<close>

datatype GiftStatus =
  Pending_address | Address_confirmed | Default_address_used | Preparing | Shipped | Delivered | Cancelled

fun gift_status_name :: "GiftStatus \<Rightarrow> string" where
  "gift_status_name Pending_address = ''pending_address''"
| "gift_status_name Address_confirmed = ''address_confirmed''"
| "gift_status_name Default_address_used = ''default_address_used''"
| "gift_status_name Preparing = ''preparing''"
| "gift_status_name Shipped = ''shipped''"
| "gift_status_name Delivered = ''delivered''"
| "gift_status_name Cancelled = ''cancelled''"

definition GIFT_STATUSES :: "GiftStatus list" where
  "GIFT_STATUSES = [Pending_address, Address_confirmed, Default_address_used, Preparing, Shipped, Delivered, Cancelled]"

fun ALLOWED_TRANSITIONS :: "GiftStatus \<Rightarrow> GiftStatus list" where
  "ALLOWED_TRANSITIONS Pending_address = [Address_confirmed, Default_address_used, Cancelled]"
| "ALLOWED_TRANSITIONS Address_confirmed = [Preparing, Cancelled]"
| "ALLOWED_TRANSITIONS Default_address_used = [Preparing, Cancelled]"
| "ALLOWED_TRANSITIONS Preparing = [Shipped]"
| "ALLOWED_TRANSITIONS Shipped = [Delivered]"
| "ALLOWED_TRANSITIONS Delivered = []"
| "ALLOWED_TRANSITIONS Cancelled = []"

definition asGiftStatus :: "string \<Rightarrow> GiftStatus option" where
  "asGiftStatus v = find (\<lambda>s. gift_status_name s = v) GIFT_STATUSES"

definition assertTransition :: "string \<Rightarrow> GiftStatus \<Rightarrow> unit res" where
  "assertTransition from_state to =
     (case asGiftStatus from_state of
        None \<Rightarrow> Inl (BadRequest ''unknown_gift_status'')
      | Some s \<Rightarrow> check (to \<in> set (ALLOWED_TRANSITIONS s)) (BadRequest ''gift_transition_not_allowed''))"

section \<open>Who sees what\<close>

record Party =
  pa_id :: string
  pa_qiftUsername :: string
  pa_fullName :: "string option"

text \<open>A gift as the endpoints return it: the whole row and the joined parties and address.\<close>

record GiftView = Gift +
  gv_sender :: Party
  gv_receiver :: Party
  gv_address :: "Address option"

record VisibleGift =
  vg_gift :: GiftView
  vg_productVisible :: bool
  vg_messageVisible :: bool
  vg_addressConfirmed :: bool

definition is_viewer :: "string option \<Rightarrow> string \<Rightarrow> bool" where
  "is_viewer viewer i \<longleftrightarrow> viewer = Some i"

definition maskAnonymous :: "GiftView \<Rightarrow> string option \<Rightarrow> GiftView" where
  "maskAnonymous gift viewer =
     (if \<not> gf_isAnonymous gift then gift
      else if viewer \<noteq> Some [] \<and> is_viewer viewer (gf_senderId gift) then gift
      else gift\<lparr> gf_senderId := [], gv_sender := \<lparr> pa_id = [], pa_qiftUsername = [], pa_fullName = None \<rparr> \<rparr>)"

definition applySurpriseReveal :: "GiftView \<Rightarrow> string option \<Rightarrow> GiftView \<times> bool" where
  "applySurpriseReveal gift viewer =
     (if is_viewer viewer (gf_receiverId gift) \<and> gf_isSurprise gift \<and> gf_status gift \<noteq> ''delivered''
      then (gift\<lparr> gf_productName := [], gf_storeName := [] \<rparr>, False)
      else (gift, True))"

definition applyMessageReveal :: "GiftView \<Rightarrow> string option \<Rightarrow> GiftView \<times> bool" where
  "applyMessageReveal gift viewer =
     (if is_viewer viewer (gf_receiverId gift) \<and> gf_status gift \<noteq> ''delivered''
      then (gift\<lparr> gf_messageText := None, gf_mediaUrl := None, gf_mediaType := None \<rparr>, False)
      else (gift, True))"

definition ADDRESS_LOCKED_STATUSES :: "string list" where
  "ADDRESS_LOCKED_STATUSES = [''address_confirmed'', ''default_address_used'', ''preparing'', ''shipped'', ''delivered'']"

definition applyAddressPrivacy :: "GiftView \<Rightarrow> string option \<Rightarrow> GiftView \<times> bool" where
  "applyAddressPrivacy gift viewer =
     (let addressConfirmed = truthy (gf_addressId gift) \<and> gf_status gift \<in> set ADDRESS_LOCKED_STATUSES in
      if is_viewer viewer (gf_receiverId gift) then (gift, addressConfirmed)
      else (gift\<lparr> gv_address := None, gf_addressId := None \<rparr>, addressConfirmed))"

definition applyGiftVisibility :: "GiftView \<Rightarrow> string option \<Rightarrow> VisibleGift" where
  "applyGiftVisibility gift viewer =
     (let a = maskAnonymous gift viewer;
          (b, productVisible) = applySurpriseReveal a viewer;
          (c, messageVisible) = applyMessageReveal b viewer;
          (d, addressConfirmed) = applyAddressPrivacy c viewer
      in \<lparr> vg_gift = d, vg_productVisible = productVisible, vg_messageVisible = messageVisible,
           vg_addressConfirmed = addressConfirmed \<rparr>)"

section \<open>Media\<close>

definition ALLOWED_MEDIA_TYPES :: "string list" where
  "ALLOWED_MEDIA_TYPES = [''image'', ''video'']"

definition validateGiftMedia :: "string option \<Rightarrow> string option \<Rightarrow> (string option \<times> string option) res" where
  "validateGiftMedia mediaUrl mediaType =
     (let url = (case mediaUrl of None \<Rightarrow> [] | Some u \<Rightarrow> js_trim u);
          kind = (case mediaType of None \<Rightarrow> None | Some t \<Rightarrow> if t \<in> set ALLOWED_MEDIA_TYPES then Some t else None)
      in if url = [] then Inr (None, None)
         else case kind of
             None \<Rightarrow> Inl (BadRequest ''mediaType must be image or video when mediaUrl is set'')
           | Some t \<Rightarrow> Inr (Some url, Some t))"

section \<open>What a notification may say\<close>

definition shouldMaskGiftBody :: "bool \<Rightarrow> string \<Rightarrow> bool" where
  "shouldMaskGiftBody isSurprise status \<longleftrightarrow> isSurprise \<and> status \<noteq> ''delivered''"

definition bodyForReceiverGiftUpdate :: "bool \<Rightarrow> string \<Rightarrow> string option \<Rightarrow> string option" where
  "bodyForReceiverGiftUpdate isSurprise status candidateBody =
     (if shouldMaskGiftBody isSurprise status then None else candidateBody)"

definition middle_dot :: string where
  "middle_dot = [CHR '' '', char_of (183 :: nat), CHR '' '']"

definition withFulfillmentRef :: "string option \<Rightarrow> string \<Rightarrow> string" where
  "withFulfillmentRef body ref = (if truthy body then the body @ middle_dot @ ref else ref)"

definition senderDisplayForReceiverGiftNotification :: "bool \<Rightarrow> Party option \<Rightarrow> string option" where
  "senderDisplayForReceiverGiftNotification isAnonymous sender =
     (if isAnonymous then None
      else case sender of
          None \<Rightarrow> None
        | Some p \<Rightarrow>
            (case trimmed_or_null (pa_fullName p) of
               Some fullName \<Rightarrow> Some fullName
             | None \<Rightarrow> map_option (\<lambda>h. CHR 0x40 # h) (trimmed_or_null (Some (pa_qiftUsername p)))))"

section \<open>Delivery zones\<close>

text \<open>White space and line ends of the language, by UTF-16 code unit.\<close>

definition u_space :: "int \<Rightarrow> bool" where
  "u_space c \<longleftrightarrow> c \<in> {9, 10, 11, 12, 13, 32, 0xA0, 0x1680, 0x2028, 0x2029, 0x202F, 0x205F, 0x3000, 0xFEFF}
     \<or> (0x2000 \<le> c \<and> c \<le> 0x200A)"

definition u_trim :: "utext \<Rightarrow> utext" where
  "u_trim s = rev (dropWhile u_space (rev (dropWhile u_space s)))"

definition u_text :: "string \<Rightarrow> utext" where
  "u_text s = map of_char s"

text \<open>The folds of \<open>normaliseCity\<close>, in their order.\<close>

definition is_tashkeel :: "int \<Rightarrow> bool" where
  "is_tashkeel c \<longleftrightarrow> (0x64B \<le> c \<and> c \<le> 0x652) \<or> c = 0x670 \<or> c = 0x640"

definition fold_letter :: "int \<Rightarrow> int" where
  "fold_letter c =
     (if c \<in> {0x622, 0x623, 0x625, 0x671} then 0x627
      else if c = 0x649 then 0x64A
      else if c = 0x629 then 0x647
      else c)"

definition is_mark :: "int \<Rightarrow> bool" where
  "is_mark c \<longleftrightarrow> c \<in> {0x61B, 0x61F, 0x60C, 0x200E, 0x200F} \<or> (0x202A \<le> c \<and> c \<le> 0x202E)"

definition drop_article :: "utext \<Rightarrow> utext" where
  "drop_article s = (if take 2 s = [0x627, 0x644] then drop 2 s else s)"

definition drop_latin_article :: "utext \<Rightarrow> utext" where
  "drop_latin_article s =
     (if take 3 s \<in> set (map u_text [''al-'', ''el-'', ''ar-''])
        \<or> (take 2 s \<in> set (map u_text [''el'', ''al'']) \<and> (case drop 2 (take 3 s) of [c] \<Rightarrow> u_space c | _ \<Rightarrow> False))
      then drop 3 s else s)"

lemma dropWhile_shorter [termination_simp]: "length (dropWhile P xs) < Suc (length xs)"
  using length_dropWhile_le [of P xs] by simp

fun collapse_spaces :: "utext \<Rightarrow> utext" where
  "collapse_spaces [] = []"
| "collapse_spaces (c # cs) =
     (if u_space c then 32 # collapse_spaces (dropWhile u_space cs) else c # collapse_spaces cs)"

definition normaliseCity :: "(utext \<Rightarrow> utext) \<Rightarrow> utext \<Rightarrow> utext" where
  "normaliseCity unicode value =
     u_trim (collapse_spaces (drop_latin_article (drop_article
       (filter (\<lambda>c. \<not> is_mark c) (map fold_letter (filter (\<lambda>c. \<not> is_tashkeel c) (unicode value)))))))"

record DeliveryZone =
  dz_country :: utext
  dz_region :: utext
  dz_city :: utext
  dz_districts :: "utext list"

text \<open>
  A zone as the matcher reads it: an absent scope is the empty text, no whitelist the empty
  list; the operator's note is never read.
\<close>

definition ufield :: "uvalue \<Rightarrow> string \<Rightarrow> uvalue" where
  "ufield v k = (case v of UObject fs \<Rightarrow> (case map_of fs k of None \<Rightarrow> UOther | Some w \<Rightarrow> w) | _ \<Rightarrow> UOther)"

definition utrimmed :: "uvalue \<Rightarrow> utext" where
  "utrimmed v = (case v of UString t \<Rightarrow> u_trim t | _ \<Rightarrow> [])"

definition ustrings :: "uvalue \<Rightarrow> utext list" where
  "ustrings v = (case v of
       UArray vs \<Rightarrow> filter (\<lambda>d. d \<noteq> []) (map u_trim (concat (map (\<lambda>d. case d of UString t \<Rightarrow> [t] | _ \<Rightarrow> []) vs)))
     | _ \<Rightarrow> [])"

definition is_object :: "uvalue \<Rightarrow> bool" where
  "is_object v = (case v of UObject _ \<Rightarrow> True | UArray _ \<Rightarrow> True | _ \<Rightarrow> False)"

definition has_scope :: "DeliveryZone \<Rightarrow> bool" where
  "has_scope z \<longleftrightarrow> dz_country z \<noteq> [] \<or> dz_region z \<noteq> [] \<or> dz_city z \<noteq> [] \<or> dz_districts z \<noteq> []"

definition parse_zone :: "uvalue \<Rightarrow> DeliveryZone" where
  "parse_zone raw =
     \<lparr> dz_country = utrimmed (ufield raw ''country''), dz_region = utrimmed (ufield raw ''region''),
       dz_city = utrimmed (ufield raw ''city''), dz_districts = ustrings (ufield raw ''districts'') \<rparr>"

definition parseStoreZones :: "uvalue \<Rightarrow> DeliveryZone list" where
  "parseStoreZones value =
     (case value of
        UArray raws \<Rightarrow> filter has_scope (map parse_zone (filter is_object raws))
      | _ \<Rightarrow> [])"

text \<open>Country codes are ASCII; that is all the upper-casing is modelled for.\<close>

definition u_upper :: "utext \<Rightarrow> utext" where
  "u_upper = map (\<lambda>c. if 97 \<le> c \<and> c \<le> 122 then c - 32 else c)"

definition sameCountry :: "utext \<Rightarrow> utext \<Rightarrow> bool" where
  "sameCountry a b \<longleftrightarrow> a \<noteq> [] \<and> b \<noteq> [] \<and> u_upper (u_trim a) = u_upper (u_trim b)"

definition sameRegion :: "(utext \<Rightarrow> utext) \<Rightarrow> utext \<Rightarrow> utext \<Rightarrow> bool" where
  "sameRegion unicode a b \<longleftrightarrow>
     (let na = normaliseCity unicode a; nb = normaliseCity unicode b in na \<noteq> [] \<and> nb \<noteq> [] \<and> na = nb)"

record AddressScope =
  sc_country :: "utext option"
  sc_region :: "utext option"
  sc_city :: "utext option"
  sc_district :: "utext option"

datatype CoverageMatch = Match_ok | City_mismatch | District_mismatch

definition u_or_empty :: "utext option \<Rightarrow> utext" where
  "u_or_empty v = (case v of None \<Rightarrow> [] | Some t \<Rightarrow> t)"

text \<open>A zone's country and region gates, applied only where both sides carry the field.\<close>

definition gate_open :: "(utext \<Rightarrow> utext) \<Rightarrow> utext \<Rightarrow> utext \<Rightarrow> DeliveryZone \<Rightarrow> bool" where
  "gate_open unicode addrCountry addrRegion z \<longleftrightarrow>
     \<not> (dz_country z \<noteq> [] \<and> addrCountry \<noteq> [] \<and> \<not> sameCountry (dz_country z) addrCountry)
   \<and> \<not> (dz_region z \<noteq> [] \<and> addrRegion \<noteq> [] \<and> \<not> sameRegion unicode (dz_region z) addrRegion)"

definition is_wildcard :: "DeliveryZone \<Rightarrow> bool" where
  "is_wildcard z \<longleftrightarrow> dz_city z = [] \<and> dz_districts z = []"

fun wildcard_pass :: "(utext \<Rightarrow> utext) \<Rightarrow> utext \<Rightarrow> utext \<Rightarrow> DeliveryZone list \<Rightarrow> bool" where
  "wildcard_pass unicode addrCountry addrRegion [] = False"
| "wildcard_pass unicode addrCountry addrRegion (z # zs) =
     (if \<not> is_wildcard z then wildcard_pass unicode addrCountry addrRegion zs
      else if \<not> gate_open unicode addrCountry addrRegion z then wildcard_pass unicode addrCountry addrRegion zs
      else if dz_country z \<noteq> [] \<and> addrCountry = [] then wildcard_pass unicode addrCountry addrRegion zs
      else if dz_region z \<noteq> [] \<and> addrRegion = [] then wildcard_pass unicode addrCountry addrRegion zs
      else True)"

fun city_pass ::
  "(utext \<Rightarrow> utext) \<Rightarrow> utext \<Rightarrow> utext \<Rightarrow> utext \<Rightarrow> utext \<Rightarrow> bool \<Rightarrow> DeliveryZone list \<Rightarrow> CoverageMatch"
where
  "city_pass unicode addrCountry addrRegion addrCity addrDistrict cityMatched [] =
     (if cityMatched then District_mismatch else City_mismatch)"
| "city_pass unicode addrCountry addrRegion addrCity addrDistrict cityMatched (z # zs) =
     (if is_wildcard z \<or> \<not> gate_open unicode addrCountry addrRegion z
         \<or> (dz_city z \<noteq> [] \<and> normaliseCity unicode (dz_city z) \<noteq> addrCity)
      then city_pass unicode addrCountry addrRegion addrCity addrDistrict cityMatched zs
      else if dz_districts z = [] then Match_ok
      else if addrDistrict = [] then city_pass unicode addrCountry addrRegion addrCity addrDistrict True zs
      else if addrDistrict \<in> set (map (normaliseCity unicode) (dz_districts z)) then Match_ok
      else city_pass unicode addrCountry addrRegion addrCity addrDistrict True zs)"

definition matchAddressToStoreZones ::
  "(utext \<Rightarrow> utext) \<Rightarrow> AddressScope \<Rightarrow> utext \<Rightarrow> uvalue \<Rightarrow> bool \<Rightarrow> CoverageMatch"
where
  "matchAddressToStoreZones unicode address storeCity deliveryZones isFastDelivery =
     (if \<not> isFastDelivery then Match_ok
      else let addrCountry = u_trim (u_or_empty (sc_country address));
               addrRegion = u_trim (u_or_empty (sc_region address));
               addrCity = normaliseCity unicode (u_or_empty (sc_city address));
               addrDistrict = normaliseCity unicode (u_or_empty (sc_district address));
               zones = parseStoreZones deliveryZones
           in if zones = [] then
                (if addrCity = [] then City_mismatch
                 else if normaliseCity unicode storeCity = addrCity then Match_ok else City_mismatch)
              else if wildcard_pass unicode addrCountry addrRegion zones then Match_ok
              else if addrCity = [] then City_mismatch
              else city_pass unicode addrCountry addrRegion addrCity addrDistrict False zones)"

section \<open>Properties\<close>

text \<open>What it means that a zone covers an address, read off the contract of the source.\<close>

definition zone_covers :: "(utext \<Rightarrow> utext) \<Rightarrow> utext \<Rightarrow> utext \<Rightarrow> utext \<Rightarrow> utext \<Rightarrow> DeliveryZone \<Rightarrow> bool" where
  "zone_covers unicode country region city district z \<longleftrightarrow>
     gate_open unicode country region z
   \<and> (if is_wildcard z then (dz_country z = [] \<or> country \<noteq> []) \<and> (dz_region z = [] \<or> region \<noteq> [])
      else city \<noteq> [] \<and> (dz_city z = [] \<or> normaliseCity unicode (dz_city z) = city)
         \<and> (dz_districts z = [] \<or> (district \<noteq> [] \<and> (\<exists>d \<in> set (dz_districts z). normaliseCity unicode d = district))))"

lemma wildcard_pass_iff: "wildcard_pass unicode c r zs \<longleftrightarrow> (\<exists>z \<in> set zs. is_wildcard z \<and> zone_covers unicode c r ci di z)"
  by (induction zs) (auto simp: zone_covers_def)

lemma city_pass_Cons:
  "ci \<noteq> [] \<Longrightarrow> city_pass unicode c r ci di b (z # zs) =
     (if \<not> is_wildcard z \<and> zone_covers unicode c r ci di z then Match_ok
      else city_pass unicode c r ci di
        (b \<or> (\<not> is_wildcard z \<and> gate_open unicode c r z \<and> (dz_city z = [] \<or> normaliseCity unicode (dz_city z) = ci))) zs)"
  by (cases b) (auto simp: zone_covers_def image_iff)

lemma city_pass_iff:
  "ci \<noteq> [] \<Longrightarrow> city_pass unicode c r ci di b zs = Match_ok \<longleftrightarrow> (\<exists>z \<in> set zs. \<not> is_wildcard z \<and> zone_covers unicode c r ci di z)"
proof (induction zs arbitrary: b)
  case (Cons z zs)
  then show ?case by (simp only: city_pass_Cons [OF Cons.prems] split: if_split) auto
qed simp

text \<open>
  Coverage is "any zone matches". For a fast-delivery product an address is accepted
  exactly when one of the store's zones covers it, whatever the order of the zones, and a store
  without usable zones accepts exactly the addresses in its own city; other products are
  accepted everywhere.
\<close>

theorem coverage_matches:
  "matchAddressToStoreZones unicode a storeCity value isFast = Match_ok \<longleftrightarrow>
     (isFast \<longrightarrow>
       (let city = normaliseCity unicode (u_or_empty (sc_city a)) in
        if parseStoreZones value = [] then city \<noteq> [] \<and> normaliseCity unicode storeCity = city
        else \<exists>z \<in> set (parseStoreZones value).
          zone_covers unicode (u_trim (u_or_empty (sc_country a))) (u_trim (u_or_empty (sc_region a))) city
            (normaliseCity unicode (u_or_empty (sc_district a))) z))"
proof (cases "isFast \<and> parseStoreZones value \<noteq> []")
  case True
  let ?c = "u_trim (u_or_empty (sc_country a))" and ?r = "u_trim (u_or_empty (sc_region a))"
  let ?ci = "normaliseCity unicode (u_or_empty (sc_city a))" and ?di = "normaliseCity unicode (u_or_empty (sc_district a))"
  have empty: "\<not> zone_covers unicode ?c ?r ?ci ?di z" if "?ci = []" "\<not> is_wildcard z" for z
    using that by (simp add: zone_covers_def)
  show ?thesis
    using True empty
    by (auto simp: matchAddressToStoreZones_def Let_def wildcard_pass_iff [where ci = ?ci and di = ?di] city_pass_iff)
qed (auto simp: matchAddressToStoreZones_def Let_def)

text \<open>Riyadh with two whitelisted districts, and an address in one of them.\<close>

definition riyadh :: utext where "riyadh = [0x627, 0x644, 0x631, 0x64A, 0x627, 0x636]"

definition narjis :: utext where "narjis = [0x627, 0x644, 0x646, 0x631, 0x62C, 0x633]"

definition riyadh_zones :: uvalue where
  "riyadh_zones = UArray [UObject [(''city'', UString riyadh), (''districts'', UArray [UString [0x639, 0x644, 0x64A, 0x627], UString narjis])]]"

lemma coverage_matches_witness:
  "zone_covers (\<lambda>x. x) [] [] (normaliseCity (\<lambda>x. x) riyadh) (normaliseCity (\<lambda>x. x) narjis) (parse_zone (case riyadh_zones of UArray (z # _) \<Rightarrow> z))"
proof -
  let ?a = "\<lparr> sc_country = None, sc_region = None, sc_city = Some riyadh, sc_district = Some narjis \<rparr>"
  have ok: "matchAddressToStoreZones (\<lambda>x. x) ?a [] riyadh_zones True = Match_ok" by code_simp
  have z: "parseStoreZones riyadh_zones = [parse_zone (case riyadh_zones of UArray (z # _) \<Rightarrow> z)]" by code_simp
  show ?thesis
    using ok [unfolded coverage_matches] by (simp add: z Let_def u_or_empty_def u_trim_def)
qed

definition faceless :: "GiftView \<Rightarrow> GiftView" where
  "faceless g = g\<lparr> gf_senderId := [], gv_sender := \<lparr> pa_id = [], pa_qiftUsername = [], pa_fullName = None \<rparr> \<rparr>"

definition nameless :: "GiftView \<Rightarrow> GiftView" where
  "nameless g = g\<lparr> gf_productName := [], gf_storeName := [] \<rparr>"

definition wordless :: "GiftView \<Rightarrow> GiftView" where
  "wordless g = g\<lparr> gf_messageText := None, gf_mediaUrl := None, gf_mediaType := None \<rparr>"

lemma receiver_view:
  assumes "gf_status g \<noteq> ''delivered''" "gf_isSurprise g" "gf_isAnonymous g" "gf_receiverId g \<noteq> gf_senderId g"
  shows "applyGiftVisibility g (Some (gf_receiverId g)) =
     \<lparr> vg_gift = wordless (nameless (faceless g)),
       vg_productVisible = False, vg_messageVisible = False,
       vg_addressConfirmed = (truthy (gf_addressId g) \<and> gf_status g \<in> set ADDRESS_LOCKED_STATUSES) \<rparr>"
proof -
  let ?v = "Some (gf_receiverId g)"
  have 1: "maskAnonymous g ?v = faceless g" using assms by (simp add: maskAnonymous_def faceless_def is_viewer_def)
  have 2: "applySurpriseReveal (faceless g) ?v = (nameless (faceless g), False)"
    using assms by (simp add: applySurpriseReveal_def is_viewer_def faceless_def [of g] nameless_def)
  have k: "gf_receiverId (nameless (faceless g)) = gf_receiverId g" "gf_status (nameless (faceless g)) = gf_status g"
    "gf_receiverId (wordless (nameless (faceless g))) = gf_receiverId g" "gf_status (wordless (nameless (faceless g))) = gf_status g"
    "gf_addressId (wordless (nameless (faceless g))) = gf_addressId g"
    by (simp_all add: faceless_def nameless_def wordless_def)
  have 3: "applyMessageReveal (nameless (faceless g)) ?v = (wordless (nameless (faceless g)), False)"
    using assms k by (simp add: applyMessageReveal_def is_viewer_def wordless_def)
  have 4: "applyAddressPrivacy (wordless (nameless (faceless g))) ?v
      = (wordless (nameless (faceless g)), truthy (gf_addressId g) \<and> gf_status g \<in> set ADDRESS_LOCKED_STATUSES)"
    using k by (simp add: applyAddressPrivacy_def Let_def is_viewer_def)
  show ?thesis unfolding applyGiftVisibility_def Let_def 1 2 prod.case 3 4 ..
qed

definition placeless :: "GiftView \<Rightarrow> GiftView" where
  "placeless g = g\<lparr> gv_address := None, gf_addressId := None \<rparr>"

lemma other_view:
  assumes "viewer \<noteq> Some (gf_receiverId g)"
  shows "applyGiftVisibility g viewer =
     \<lparr> vg_gift = placeless (maskAnonymous g viewer), vg_productVisible = True, vg_messageVisible = True,
       vg_addressConfirmed = (truthy (gf_addressId g) \<and> gf_status g \<in> set ADDRESS_LOCKED_STATUSES) \<rparr>"
proof -
  let ?m = "maskAnonymous g viewer"
  have k: "gf_receiverId ?m = gf_receiverId g" "gf_status ?m = gf_status g" "gf_addressId ?m = gf_addressId g"
    by (simp_all add: maskAnonymous_def)
  have 2: "applySurpriseReveal ?m viewer = (?m, True)"
    using assms k by (simp add: applySurpriseReveal_def is_viewer_def)
  have 3: "applyMessageReveal ?m viewer = (?m, True)"
    using assms k by (simp add: applyMessageReveal_def is_viewer_def)
  have 4: "applyAddressPrivacy ?m viewer = (placeless ?m, truthy (gf_addressId g) \<and> gf_status g \<in> set ADDRESS_LOCKED_STATUSES)"
    using assms k by (simp add: applyAddressPrivacy_def Let_def is_viewer_def placeless_def)
  show ?thesis unfolding applyGiftVisibility_def Let_def 2 prod.case 3 4 ..
qed

text \<open>
  What the sender hid stays hidden. The receiver's view of an anonymous surprise gift that
  is not delivered does not depend on the product and store names, the message, the media or
  who sent it; and nobody but the receiver sees anything of the address but whether one is fixed.
\<close>

theorem masked_fields_hidden:
  "\<lbrakk> gf_isSurprise g; gf_isAnonymous g; gf_status g \<noteq> ''delivered''; gf_receiverId g \<notin> {gf_senderId g, sender} \<rbrakk> \<Longrightarrow>
     applyGiftVisibility (g\<lparr> gf_productName := p, gf_storeName := n, gf_messageText := m, gf_mediaUrl := u, gf_mediaType := t,
         gf_senderId := sender, gv_sender := party \<rparr>) (Some (gf_receiverId g))
     = applyGiftVisibility g (Some (gf_receiverId g))
   \<and> (viewer \<noteq> Some (gf_receiverId g) \<and> truthy a = truthy (gf_addressId g) \<longrightarrow>
     applyGiftVisibility (g\<lparr> gv_address := row, gf_addressId := a \<rparr>) viewer = applyGiftVisibility g viewer)"
proof (intro conjI impI)
  let ?g2 = "g\<lparr> gf_productName := p, gf_storeName := n, gf_messageText := m, gf_mediaUrl := u, gf_mediaType := t,
         gf_senderId := sender, gv_sender := party \<rparr>"
  assume a: "gf_isSurprise g" "gf_isAnonymous g" "gf_status g \<noteq> ''delivered''" "gf_receiverId g \<notin> {gf_senderId g, sender}"
  have "wordless (nameless (faceless ?g2)) = wordless (nameless (faceless g))"
    by (simp add: wordless_def nameless_def faceless_def)
  moreover have "gf_receiverId ?g2 = gf_receiverId g" "gf_status ?g2 = gf_status g" "gf_addressId ?g2 = gf_addressId g" by simp_all
  moreover note receiver_view [of g] receiver_view [of ?g2]
  ultimately show "applyGiftVisibility ?g2 (Some (gf_receiverId g)) = applyGiftVisibility g (Some (gf_receiverId g))"
    using a by simp
next
  let ?g2 = "g\<lparr> gv_address := row, gf_addressId := a \<rparr>"
  assume v: "viewer \<noteq> Some (gf_receiverId g) \<and> truthy a = truthy (gf_addressId g)"
  have "placeless (maskAnonymous ?g2 viewer) = placeless (maskAnonymous g viewer)"
    by (simp add: placeless_def maskAnonymous_def)
  then show "applyGiftVisibility ?g2 viewer = applyGiftVisibility g viewer"
    using v other_view [of viewer g] other_view [of viewer ?g2] by simp
qed

definition demo_view :: GiftView where
  "demo_view = \<lparr> gf_id = ''g1'', gf_fulfillmentNumber = ''QF-AAAA-AAAA'', gf_senderId = ''s'', gf_receiverId = ''r'',
     gf_productName = ''Roses'', gf_storeName = ''Flora'', gf_storeId = Some ''st1'', gf_productId = Some ''pd1'', gf_occasionId = Some ''oc1'',
     gf_messageText = Some ''hello'', gf_mediaUrl = None, gf_mediaType = None, gf_status = ''shipped'', gf_isAnonymous = True,
     gf_isSurprise = True, gf_addressId = Some ''ad1'', gf_confirmedAt = None, gf_shippedAt = None, gf_deliveredAt = None,
     gf_trackingNumber = None, gf_carrier = None, gf_createdAt = 0, gf_idempotencyKey = None, gf_idempotencyRequestHash = None,
     gv_sender = \<lparr> pa_id = ''s'', pa_qiftUsername = ''sara'', pa_fullName = None \<rparr>,
     gv_receiver = \<lparr> pa_id = ''r'', pa_qiftUsername = ''rima'', pa_fullName = None \<rparr>, gv_address = None \<rparr>"

lemma masked_fields_hidden_witness:
  "applyGiftVisibility (demo_view\<lparr> gf_productName := ''Cake'', gf_storeName := ''Bakery'', gf_messageText := None, gf_mediaUrl := None,
       gf_mediaType := None, gf_senderId := ''t'', gv_sender := \<lparr> pa_id = ''t'', pa_qiftUsername = ''tala'', pa_fullName = None \<rparr> \<rparr>) (Some ''r'')
   = applyGiftVisibility demo_view (Some ''r'')
   \<and> applyGiftVisibility (demo_view\<lparr> gv_address := None, gf_addressId := Some ''ad2'' \<rparr>) (Some ''s'') = applyGiftVisibility demo_view (Some ''s'')"
proof -
  have d: "gf_isSurprise demo_view" "gf_isAnonymous demo_view" "gf_status demo_view \<noteq> ''delivered''"
    "gf_receiverId demo_view = ''r''" "gf_senderId demo_view = ''s''" "gf_addressId demo_view = Some ''ad1''"
    by (simp_all add: demo_view_def)
  have "gf_receiverId demo_view \<notin> {gf_senderId demo_view, ''t''}" using d by simp
  from masked_fields_hidden [OF d(1-3) this, where viewer = "Some ''s''" and a = "Some ''ad2''" and row = None]
  show ?thesis using d(4,6) by (simp add: truthy_def)
qed

text \<open>
  The reveal gate masks names only: the ids of the product, the store and the sender's occasion
  are in every view, also in the receiver's view of an undelivered surprise gift.
\<close>

theorem surprise_view_carries_ids:
  "gf_productId (vg_gift (applyGiftVisibility g viewer)) = gf_productId g
   \<and> gf_storeId (vg_gift (applyGiftVisibility g viewer)) = gf_storeId g
   \<and> gf_occasionId (vg_gift (applyGiftVisibility g viewer)) = gf_occasionId g"
proof -
  have m: "gf_productId (maskAnonymous x v) = gf_productId x" "gf_storeId (maskAnonymous x v) = gf_storeId x"
    "gf_occasionId (maskAnonymous x v) = gf_occasionId x" for x v
    by (simp_all add: maskAnonymous_def)
  have s: "gf_productId (fst (applySurpriseReveal x v)) = gf_productId x" "gf_storeId (fst (applySurpriseReveal x v)) = gf_storeId x"
    "gf_occasionId (fst (applySurpriseReveal x v)) = gf_occasionId x" for x v
    by (simp_all add: applySurpriseReveal_def)
  have w: "gf_productId (fst (applyMessageReveal x v)) = gf_productId x" "gf_storeId (fst (applyMessageReveal x v)) = gf_storeId x"
    "gf_occasionId (fst (applyMessageReveal x v)) = gf_occasionId x" for x v
    by (simp_all add: applyMessageReveal_def)
  have a: "gf_productId (fst (applyAddressPrivacy x v)) = gf_productId x" "gf_storeId (fst (applyAddressPrivacy x v)) = gf_storeId x"
    "gf_occasionId (fst (applyAddressPrivacy x v)) = gf_occasionId x" for x v
    by (simp_all add: applyAddressPrivacy_def Let_def)
  have v: "vg_gift (applyGiftVisibility g viewer)
      = fst (applyAddressPrivacy (fst (applyMessageReveal (fst (applySurpriseReveal (maskAnonymous g viewer) viewer)) viewer)) viewer)"
    by (simp add: applyGiftVisibility_def Let_def split: prod.split)
  show ?thesis unfolding v a w s m by simp
qed

section \<open>The status law\<close>

lemma asGiftStatus_name [simp]: "asGiftStatus (gift_status_name s) = Some s"
  by (cases s) (simp_all add: asGiftStatus_def GIFT_STATUSES_def)

interpretation gift_law: lifecycle ALLOWED_TRANSITIONS "\<lambda>s. assertTransition (gift_status_name s)"
  by unfold_locales (simp add: assertTransition_def check_def)

lemma asGiftStatus_Some: "asGiftStatus v = Some s \<longleftrightarrow> v = gift_status_name s"
proof
  assume "asGiftStatus v = Some s"
  then show "v = gift_status_name s"
    by (auto simp: asGiftStatus_def find_Some_iff)
qed simp

lemma assertTransition_iff:
  "assertTransition v t = Inr () \<longleftrightarrow> (\<exists>s. v = gift_status_name s \<and> t \<in> set (ALLOWED_TRANSITIONS s))"
proof (cases "asGiftStatus v")
  case None
  then show ?thesis by (auto simp: assertTransition_def)
next
  case (Some s)
  then have "v = gift_status_name s" by (simp add: asGiftStatus_Some)
  then show ?thesis
    by (auto simp: assertTransition_def check_def) (metis asGiftStatus_name option.inject)
qed

end
