(* ===== verification/Gifts.thy ===== *)
theory Gifts
  imports Gift_Rules
begin

text \<open>
  The gift services: \<open>gifts/gifts.service.ts\<close> (creation with its idempotency key, the
  receiver's confirmation, cancellation, the reads), \<open>gifts/gifts-auto-default.service.ts\<close> (the
  sweep that confirms overdue gifts), \<open>blocks/blocks.service.ts\<close> and the merchant's handlers of
  \<open>store/store.service.ts\<close>. A handler that writes after reading outside a transaction is split
  into its plan and its write, so that the interleavings can put other writes between them.
\<close>

section \<open>Blocks\<close>

definition isBlockedEitherWay :: "string \<Rightarrow> string \<Rightarrow> market \<Rightarrow> bool" where
  "isBlockedEitherWay viewerId otherId s \<longleftrightarrow>
     viewerId \<noteq> otherId
   \<and> (\<exists>b \<in> set (mk_blocks s). (bl_blockerId b = viewerId \<and> bl_blockedId b = otherId)
        \<or> (bl_blockerId b = otherId \<and> bl_blockedId b = viewerId))"

definition block_user :: "string \<Rightarrow> string \<Rightarrow> (market, unit) prog" where
  "block_user blockerId blockedId =
     seq (require (blockerId \<noteq> blockedId) (BadRequest ''cannot_block_self'')) (\<lambda>_.
     seq (reads (\<lambda>s. find (\<lambda>u. us_id u = blockedId) (mk_users s))) (\<lambda>target.
     seq (require (case target of None \<Rightarrow> False | Some u \<Rightarrow> us_deletedAt u = None) (NotFound ''user_not_found'')) (\<lambda>_.
     writes (\<lambda>s. mk_follows_update (filter (\<lambda>f. \<not> ((fo_followerId f = blockerId \<and> fo_followingId f = blockedId)
                                                 \<or> (fo_followerId f = blockedId \<and> fo_followingId f = blockerId))))
       (if \<exists>b \<in> set (mk_blocks s). bl_blockerId b = blockerId \<and> bl_blockedId b = blockedId then s
        else mk_blocks_update (\<lambda>t. t @ [\<lparr> bl_blockerId = blockerId, bl_blockedId = blockedId \<rparr>]) s)))))"

definition unblock_user :: "string \<Rightarrow> string \<Rightarrow> (market, nat) prog" where
  "unblock_user blockerId blockedId =
     seq (reads (\<lambda>s. count_where (\<lambda>b. bl_blockerId b = blockerId \<and> bl_blockedId b = blockedId) (mk_blocks s))) (\<lambda>removed.
     seq (writes (mk_blocks_update (filter (\<lambda>b. \<not> (bl_blockerId b = blockerId \<and> bl_blockedId b = blockedId))))) (\<lambda>_.
     ret removed))"

definition listBlockedIds :: "string \<Rightarrow> market \<Rightarrow> string list" where
  "listBlockedIds viewerId s = map bl_blockedId (filter (\<lambda>b. bl_blockerId b = viewerId) (mk_blocks s))"

definition listExcludedIds :: "string \<Rightarrow> market \<Rightarrow> string list" where
  "listExcludedIds viewerId s =
     fold (\<lambda>k ks. if k \<in> set ks then ks else ks @ [k])
       (map bl_blockedId (filter (\<lambda>b. bl_blockerId b = viewerId) (mk_blocks s))
        @ map bl_blockerId (filter (\<lambda>b. bl_blockedId b = viewerId) (mk_blocks s))) []"

section \<open>Rows of a gift\<close>

definition party_of :: "market \<Rightarrow> string \<Rightarrow> Party" where
  "party_of s i =
     (case find (\<lambda>u. us_id u = i) (mk_users s) of
        None \<Rightarrow> \<lparr> pa_id = i, pa_qiftUsername = [], pa_fullName = None \<rparr>
      | Some u \<Rightarrow> \<lparr> pa_id = us_id u, pa_qiftUsername = us_qiftUsername u, pa_fullName = us_fullName u \<rparr>)"

text \<open>GIFT_INCLUDE: the row with its parties and its address.\<close>

definition gift_view :: "market \<Rightarrow> Gift \<Rightarrow> GiftView" where
  "gift_view s g = Gift.extend g (GiftView.fields (party_of s (gf_senderId g)) (party_of s (gf_receiverId g))
     (case gf_addressId g of None \<Rightarrow> None | Some i \<Rightarrow> find (\<lambda>a. ad_id a = i) (mk_addresses s)))"

definition load_gift :: "string \<Rightarrow> (market, Gift) prog" where
  "load_gift giftId =
     seq (reads (\<lambda>s. find (\<lambda>g. gf_id g = giftId) (mk_gifts s))) (\<lambda>g. found g (NotFound ''Gift not found''))"

definition visible_gift :: "Gift \<Rightarrow> string \<Rightarrow> (market, VisibleGift) prog" where
  "visible_gift g viewer = reads (\<lambda>s. applyGiftVisibility (gift_view s g) (Some viewer))"

definition getDefaultAddressForUser :: "string \<Rightarrow> market \<Rightarrow> Address option" where
  "getDefaultAddressForUser userId s =
     (if userId = [] then None else find (\<lambda>a. ad_userId a = userId \<and> ad_isDefault a) (mk_addresses s))"

section \<open>Creation\<close>

record CreateGiftInput =
  cg_receiverUsername :: "string option"
  cg_productName :: "string option"
  cg_storeName :: "string option"
  cg_messageText :: "string option"
  cg_message :: "string option"
  cg_mediaUrl :: "string option"
  cg_mediaType :: "string option"
  cg_isAnonymous :: bool
  cg_isSurprise :: bool
  cg_isFastDelivery :: bool
  cg_storeCity :: "utext option"
  cg_productId :: "string option"
  cg_storeId :: "string option"
  cg_occasionId :: "string option"

definition MAX_IDEMPOTENCY_KEY_LENGTH :: nat where "MAX_IDEMPOTENCY_KEY_LENGTH = 255"

text \<open>\<open>x?.trim()\<close> and \<open>a || b\<close> on optional strings.\<close>

definition opt_trim :: "string option \<Rightarrow> string option" where
  "opt_trim = map_option js_trim"

definition or_other :: "string option \<Rightarrow> string option \<Rightarrow> string option" where
  "or_other a b = (if truthy a then a else b)"

definition message_of :: "CreateGiftInput \<Rightarrow> string option" where
  "message_of body = or_other (trimmed_or_null (cg_messageText body)) (trimmed_or_null (cg_message body))"

text \<open>The city is hashed as its UTF-16 units; only equality of hashed texts matters.\<close>

definition units_str :: "utext \<Rightarrow> string" where
  "units_str t = concat (map (\<lambda>c. int_str c @ '','') t)"

definition gift_request_json :: "CreateGiftInput \<Rightarrow> json" where
  "gift_request_json body = JObj
     [(''receiverUsername'', jopt (map_option (js_lower \<circ> js_trim) (cg_receiverUsername body))),
      (''productName'', jopt (opt_trim (cg_productName body))), (''storeName'', jopt (opt_trim (cg_storeName body))),
      (''productId'', jopt (trimmed_or_null (cg_productId body))), (''storeId'', jopt (trimmed_or_null (cg_storeId body))),
      (''messageText'', jopt (message_of body)), (''isAnonymous'', JBool (cg_isAnonymous body)),
      (''isSurprise'', JBool (cg_isSurprise body)), (''isFastDelivery'', JBool (cg_isFastDelivery body)),
      (''storeCity'', jopt (case cg_storeCity body of None \<Rightarrow> None | Some c \<Rightarrow> if u_trim c = [] then None else Some (units_str (u_trim c)))),
      (''occasionId'', jopt (trimmed_or_null (cg_occasionId body))), (''mediaUrl'', jopt (trimmed_or_null (cg_mediaUrl body))),
      (''mediaType'', jopt (cg_mediaType body))]"

definition computeGiftRequestHash :: "(string \<Rightarrow> string) \<Rightarrow> CreateGiftInput \<Rightarrow> string" where
  "computeGiftRequestHash sha body = sha (canonicalJson (gift_request_json body))"

datatype CreatedGift = Fresh GiftView | Replayed VisibleGift

definition by_key :: "string \<Rightarrow> string \<Rightarrow> market \<Rightarrow> Gift option" where
  "by_key senderId key s = find (\<lambda>g. gf_senderId g = senderId \<and> gf_idempotencyKey g = Some key) (mk_gifts s)"

definition replay_gift :: "string \<Rightarrow> string \<Rightarrow> Gift \<Rightarrow> (market, CreatedGift) prog" where
  "replay_gift senderId requestHash existing =
     seq (require (gf_idempotencyRequestHash existing = Some requestHash) (Conflict ''idempotency_key_reused'')) (\<lambda>_.
     seq (visible_gift existing senderId) (\<lambda>v. ret (Replayed v)))"

definition canDeliverFastInline :: "(utext \<Rightarrow> utext) \<Rightarrow> string \<Rightarrow> utext \<Rightarrow> market \<Rightarrow> bool" where
  "canDeliverFastInline unicode receiverId storeCity s \<longleftrightarrow>
     (let target = normaliseCity unicode storeCity in
      target \<noteq> [] \<and> (\<exists>a \<in> set (mk_addresses s). ad_userId a = receiverId \<and> normaliseCity unicode (ad_city a) = target))"

definition gift_clash :: "Gift \<Rightarrow> Gift \<Rightarrow> bool" where
  "gift_clash r r' \<longleftrightarrow> gf_id r' = gf_id r \<or> gf_fulfillmentNumber r' = gf_fulfillmentNumber r
     \<or> (gf_idempotencyKey r \<noteq> None \<and> gf_senderId r' = gf_senderId r \<and> gf_idempotencyKey r' = gf_idempotencyKey r)"

definition is_P2002 :: "exn \<Rightarrow> bool" where
  "is_P2002 ex = (case ex of P2002 _ \<Rightarrow> True | _ \<Rightarrow> False)"

definition swallow :: "('s, 'a) prog \<Rightarrow> ('s, unit) prog" where
  "swallow m = attempt (seq m (\<lambda>_. ret ())) (\<lambda>_. ret ())"

text \<open>The row a request makes, once its references are resolved.\<close>

definition new_gift ::
  "menv \<Rightarrow> CreateGiftInput \<Rightarrow> string \<Rightarrow> string \<Rightarrow> string option \<Rightarrow> string option \<Rightarrow> string option \<Rightarrow> string option
     \<Rightarrow> string option \<Rightarrow> string option \<Rightarrow> string \<Rightarrow> Gift"
where
  "new_gift e body senderId receiverId storeId occasionId mediaUrl mediaType key requestHash fulfillmentNumber =
     \<lparr> gf_id = en_uuid e 0, gf_fulfillmentNumber = fulfillmentNumber, gf_senderId = senderId, gf_receiverId = receiverId,
       gf_productName = js_trim (the (cg_productName body)), gf_storeName = js_trim (the (cg_storeName body)),
       gf_storeId = storeId, gf_productId = trimmed_or_null (cg_productId body), gf_occasionId = occasionId,
       gf_messageText = message_of body, gf_mediaUrl = mediaUrl, gf_mediaType = mediaType,
       gf_status = ''pending_address'', gf_isAnonymous = cg_isAnonymous body, gf_isSurprise = cg_isSurprise body,
       gf_addressId = None, gf_confirmedAt = None, gf_shippedAt = None, gf_deliveredAt = None,
       gf_trackingNumber = None, gf_carrier = None, gf_createdAt = en_dbNow e,
       gf_idempotencyKey = key, gf_idempotencyRequestHash = requestHash \<rparr>"

text \<open>The other party: the receiver of a request, checked against the sender.\<close>

definition resolve_receiver :: "string \<Rightarrow> string \<Rightarrow> (market, User) prog" where
  "resolve_receiver senderId receiverUsername =
     seq (reads (\<lambda>s. find (\<lambda>u. us_id u = senderId) (mk_users s))) (\<lambda>read.
     seq (found read (NotFound ''Sender not found'')) (\<lambda>sender.
     seq (require (js_lower (us_qiftUsername sender) \<noteq> receiverUsername) (BadRequest ''cannot_send_to_self'')) (\<lambda>_.
     seq (reads (\<lambda>s. find (\<lambda>u. us_qiftUsername u = receiverUsername \<and> us_deletedAt u = None) (mk_users s))) (\<lambda>read2.
     found read2 (NotFound ''Receiver not found'')))))"

text \<open>No default address: the attempt is kept, the receiver is told and the sender refused.\<close>

definition refuse_without_address :: "string \<Rightarrow> string \<Rightarrow> string \<Rightarrow> string \<Rightarrow> string \<Rightarrow> (market, 'a) prog" where
  "refuse_without_address senderId receiverId receiverUsername productName storeName =
     seq (writes (mk_attempts_update (\<lambda>t. t @ [\<lparr> ga_senderId = senderId, ga_receiverId = receiverId,
            ga_receiverUsername = receiverUsername, ga_productName = Some productName, ga_storeName = Some storeName \<rparr>]))) (\<lambda>_.
     seq (notify receiverId GiftAttemptedNoAddress T_attempt_without_address None ''/profile'') (\<lambda>_.
     raise (Unprocessable ''recipient_no_default_address'')))"

definition product_store :: "string option \<Rightarrow> (market, string option) prog" where
  "product_store productId =
     (if truthy productId
      then seq (reads (\<lambda>s. find (\<lambda>p. Some (pd_id p) = productId) (mk_products s))) (\<lambda>read.
           seq (found read (BadRequest ''product_not_found'')) (\<lambda>p.
           seq (require (pd_isAvailable p \<and> pd_stockStatus p = ''in_stock'') (BadRequest ''product_unavailable'')) (\<lambda>_.
           ret (Some (pd_storeId p)))))
      else ret None)"

definition resolve_occasion :: "string option \<Rightarrow> string \<Rightarrow> string \<Rightarrow> market \<Rightarrow> string option" where
  "resolve_occasion requested senderId receiverId s =
     (case trimmed_or_null requested of
        None \<Rightarrow> None
      | Some k \<Rightarrow>
          (case find (\<lambda>c. oc_id c = k \<and> oc_deactivatedAt c = None) (mk_occasions s) of
             None \<Rightarrow> None
           | Some c \<Rightarrow> if oc_userId c = senderId \<or> oc_userId c = receiverId then Some (oc_id c) else None))"

text \<open>The insertion; a lost race on the idempotency key returns the winner.\<close>

definition store_known :: "string option \<Rightarrow> market \<Rightarrow> bool" where
  "store_known storeId s \<longleftrightarrow> (case storeId of None \<Rightarrow> True | Some k \<Rightarrow> \<exists>f \<in> set (mk_stores s). sf_id f = k)"

definition insert_gift :: "Gift \<Rightarrow> (market, Gift) prog" where
  "insert_gift g =
     seq (reads (store_known (gf_storeId g))) (\<lambda>known.
     seq (require known (JsError ''P2003'')) (\<lambda>_.
     create mk_gifts mk_gifts_update gift_clash g))"

definition fulfil_wish :: "menv \<Rightarrow> string \<Rightarrow> string \<Rightarrow> (market, unit) prog" where
  "fulfil_wish e receiverId productId =
     swallow (updateMany mk_wishes mk_wishes_update
       (\<lambda>w. wi_userId w = receiverId \<and> wi_productId w = Some productId \<and> wi_deactivatedAt w = None)
       (\<lambda>w. w\<lparr> wi_deactivatedAt := Some (clk e 0), wi_deactivatedReason := Some ''purchased_for_recipient'' \<rparr>))"

definition count_gifted :: "menv \<Rightarrow> string \<Rightarrow> (market, unit) prog" where
  "count_gifted e productId =
     swallow (update_row mk_products mk_products_update (\<lambda>p. pd_id p = productId)
       (\<lambda>p. p\<lparr> pd_giftedByCount := pd_giftedByCount p + 1, pd_trendingAt := Some (clk e 1) \<rparr>))"

text \<open>The dash between product and store, by its UTF-8 bytes.\<close>

definition spaced_dash :: string where
  "spaced_dash = map char_of [32, 226, 128, 148, 32 :: nat]"

definition gift_created :: "menv \<Rightarrow> Gift \<Rightarrow> (market, CreatedGift) prog" where
  "gift_created e g =
     seq (if truthy (gf_productId g)
          then seq (fulfil_wish e (gf_receiverId g) (the (gf_productId g))) (\<lambda>_. count_gifted e (the (gf_productId g)))
          else ret ()) (\<lambda>_.
     seq (notify (gf_receiverId g) GiftReceived (if gf_isSurprise g then T_surprise_gift else T_new_gift)
            (Some (withFulfillmentRef (if gf_isSurprise g then None else Some (gf_productName g @ spaced_dash @ gf_storeName g))
               (gf_fulfillmentNumber g))) (gift_link (gf_id g))) (\<lambda>_.
     seq (notify (gf_receiverId g) GiftConfirmAddress T_confirm_address
            (Some (withFulfillmentRef None (gf_fulfillmentNumber g))) (gift_link (gf_id g))) (\<lambda>_.
     reads (\<lambda>s. Fresh (gift_view s g)))))"

definition place_gift :: "menv \<Rightarrow> string option \<Rightarrow> string \<Rightarrow> Gift \<Rightarrow> (market, CreatedGift) prog" where
  "place_gift e key requestHash g =
     seq (attempt (seq (insert_gift g) (\<lambda>r. ret (Inr r)))
            (\<lambda>ex. if is_P2002 ex \<and> key \<noteq> None
                  then seq (reads (by_key (gf_senderId g) (the key))) (\<lambda>winner.
                       case winner of
                         Some w \<Rightarrow> seq (replay_gift (gf_senderId g) requestHash w) (\<lambda>c. ret (Inl c))
                       | None \<Rightarrow> raise ex)
                  else raise ex)) (\<lambda>r.
     case r of Inl c \<Rightarrow> ret c | Inr g \<Rightarrow> gift_created e g)"

text \<open>Everything the request is checked for before the row is made.\<close>

definition prepare_gift ::
  "menv \<Rightarrow> CreateGiftInput \<Rightarrow> string \<Rightarrow> string \<Rightarrow> string option \<Rightarrow> string option \<Rightarrow> string option \<Rightarrow> string option \<Rightarrow> (market, Gift) prog"
where
  "prepare_gift e body senderId receiverUsername mediaUrl mediaType key requestHash =
     seq (resolve_receiver senderId receiverUsername) (\<lambda>receiver.
     seq (reads (isBlockedEitherWay senderId (us_id receiver))) (\<lambda>blocked.
     seq (require (\<not> blocked) (Forbidden ''Recipient unavailable'')) (\<lambda>_.
     seq (reads (getDefaultAddressForUser (us_id receiver))) (\<lambda>defaultAddress.
     seq (if defaultAddress = None
          then refuse_without_address senderId (us_id receiver) receiverUsername
                 (js_trim (the (cg_productName body))) (js_trim (the (cg_storeName body)))
          else ret ()) (\<lambda>_.
     seq (if cg_isFastDelivery body
          then seq (require (u_or_empty (map_option u_trim (cg_storeCity body)) \<noteq> [])
                      (BadRequest ''storeCity is required for fast-delivery products'')) (\<lambda>_.
               seq (reads (canDeliverFastInline (me_fold e) (us_id receiver) (u_trim (the (cg_storeCity body))))) (\<lambda>ok.
               require ok (BadRequest ''cannot_deliver_to_user'')))
          else ret ()) (\<lambda>_.
     seq (product_store (cg_productId body)) (\<lambda>storeIdFromProduct.
     let storeId = (case trimmed_or_null (cg_storeId body) of Some k \<Rightarrow> Some k | None \<Rightarrow> storeIdFromProduct) in
     seq (reads (resolve_occasion (cg_occasionId body) senderId (us_id receiver))) (\<lambda>occasionId.
     seq (reads (\<lambda>s. allocateReference QF (\<lambda>c. \<exists>g \<in> set (mk_gifts s). gf_fulfillmentNumber g = c) (en_draw e 0))) (\<lambda>allocated.
     seq (lift allocated) (\<lambda>fulfillmentNumber.
     ret (new_gift e body senderId (us_id receiver) storeId occasionId mediaUrl mediaType key requestHash
            fulfillmentNumber)))))))))))"

definition create_gift :: "menv \<Rightarrow> CreateGiftInput \<Rightarrow> string \<Rightarrow> string option \<Rightarrow> (market, CreatedGift) prog" where
  "create_gift e body viewerUserId idempotencyKey =
     seq (lift (validateGiftMedia (cg_mediaUrl body) (cg_mediaType body))) (\<lambda>(mediaUrl, mediaType).
     let receiverUsername = map_option (js_lower \<circ> js_trim) (cg_receiverUsername body);
         key = trimmed_or_null idempotencyKey;
         requestHash = computeGiftRequestHash (en_sha e) body in
     seq (require (truthy receiverUsername \<and> truthy (opt_trim (cg_productName body)) \<and> truthy (opt_trim (cg_storeName body)))
            (BadRequest ''receiverUsername, productName and storeName are required'')) (\<lambda>_.
     seq (require (key = None \<or> length (the key) \<le> MAX_IDEMPOTENCY_KEY_LENGTH) (BadRequest ''invalid_idempotency_key'')) (\<lambda>_.
     seq (reads (\<lambda>s. case key of None \<Rightarrow> None | Some k \<Rightarrow> by_key viewerUserId k s)) (\<lambda>existing.
     case existing of
       Some g \<Rightarrow> replay_gift viewerUserId requestHash g
     | None \<Rightarrow>
         seq (prepare_gift e body viewerUserId (the receiverUsername) mediaUrl mediaType key
                (if key = None then None else Some requestHash)) (place_gift e key requestHash)))))"

section \<open>Coverage of a gift\<close>

definition FAST_DELIVERY_CATEGORIES :: "string list" where
  "FAST_DELIVERY_CATEGORIES = [''flowers'', ''chocolate'', ''cake'', ''perishable'']"

definition is_fast :: "Product \<Rightarrow> bool" where
  "is_fast p \<longleftrightarrow> pd_isFastDelivery p \<or> js_lower (pd_category p) \<in> set FAST_DELIVERY_CATEGORIES"

definition store_of :: "string option \<Rightarrow> market \<Rightarrow> StoreFront option" where
  "store_of i s = (if truthy i then find (\<lambda>f. Some (sf_id f) = i) (mk_stores s) else None)"

definition product_of :: "string option \<Rightarrow> market \<Rightarrow> Product option" where
  "product_of i s = (if truthy i then find (\<lambda>p. Some (pd_id p) = i) (mk_products s) else None)"

definition fast_product :: "string option \<Rightarrow> market \<Rightarrow> bool" where
  "fast_product i s = (case product_of i s of None \<Rightarrow> False | Some p \<Rightarrow> is_fast p)"

definition scope_of :: "Address \<Rightarrow> AddressScope" where
  "scope_of a = \<lparr> sc_country = Some (ad_country a), sc_region = ad_region a, sc_city = Some (ad_city a), sc_district = Some (ad_district a) \<rparr>"

definition delivers_to :: "(utext \<Rightarrow> utext) \<Rightarrow> StoreFront \<Rightarrow> Address \<Rightarrow> bool" where
  "delivers_to unicode f a \<longleftrightarrow> matchAddressToStoreZones unicode (scope_of a) (sf_city f) (sf_deliveryZones f) True = Match_ok"

record CoverageSnapshot =
  cs_storeCity :: "utext option"
  cs_deliveryZones :: "uvalue option"
  cs_category :: "string option"
  cs_isFastDelivery :: "bool option"

definition loadCoverageSnapshot :: "Gift \<Rightarrow> market \<Rightarrow> CoverageSnapshot" where
  "loadCoverageSnapshot g s =
     (let f = store_of (gf_storeId g) s; p = product_of (gf_productId g) s in
      \<lparr> cs_storeCity = map_option sf_city f, cs_deliveryZones = map_option sf_deliveryZones f,
        cs_category = map_option pd_category p, cs_isFastDelivery = map_option is_fast p \<rparr>)"

definition loadShipmentSnapshot :: "string \<Rightarrow> market \<Rightarrow> (Shipment \<times> ShipmentEvent list) option" where
  "loadShipmentSnapshot giftId s =
     (case find (\<lambda>h. sh_giftId h = giftId) (mk_shipments s) of
        None \<Rightarrow> None
      | Some h \<Rightarrow> Some (h, order_by se_occurredAt (filter (\<lambda>v. se_shipmentId v = sh_id h) (mk_shipmentEvents s))))"

section \<open>Confirmation by the receiver\<close>

text \<open>The address chosen: one of the receiver's own, or the default one.\<close>

definition chosen_address :: "string option \<Rightarrow> string \<Rightarrow> (market, Address) prog" where
  "chosen_address addressId viewerUserId =
     (if truthy addressId
      then seq (reads (\<lambda>s. find (\<lambda>a. Some (ad_id a) = addressId \<and> ad_userId a = viewerUserId) (mk_addresses s))) (\<lambda>read.
           found read (BadRequest ''address_not_yours''))
      else seq (reads (getDefaultAddressForUser viewerUserId)) (\<lambda>read.
           found read (BadRequest ''no_default_address'')))"

definition coverage_gate :: "menv \<Rightarrow> Gift \<Rightarrow> Address \<Rightarrow> (market, unit) prog" where
  "coverage_gate e gift a =
     seq (reads (store_of (gf_storeId gift))) (\<lambda>store.
     seq (reads (fast_product (gf_productId gift))) (\<lambda>fast.
     require (case store of None \<Rightarrow> True | Some f \<Rightarrow> fast \<longrightarrow> delivers_to (me_fold e) f a)
       (BadRequest ''address_unsupported_for_store'')))"

text \<open>What \<open>confirmAddress\<close> decides from its reads, and the update it then makes by id alone.\<close>

definition plan_confirm :: "menv \<Rightarrow> Gift \<Rightarrow> string \<Rightarrow> string option \<Rightarrow> (market, Address) prog" where
  "plan_confirm e gift viewerUserId addressId =
     seq (lift (assertTransition (gf_status gift) Address_confirmed)) (\<lambda>_.
     seq (chosen_address addressId viewerUserId) (\<lambda>a.
     seq (coverage_gate e gift a) (\<lambda>_.
     ret a)))"

definition confirmed_row :: "menv \<Rightarrow> Gift \<Rightarrow> string \<Rightarrow> Gift \<Rightarrow> Gift" where
  "confirmed_row e read addressId g =
     g\<lparr> gf_status := ''address_confirmed'', gf_addressId := Some addressId,
        gf_confirmedAt := (case gf_confirmedAt read of Some t \<Rightarrow> Some t | None \<Rightarrow> Some (clk e 0)) \<rparr>"

definition confirm_write :: "menv \<Rightarrow> Gift \<Rightarrow> string \<Rightarrow> (market, Gift) prog" where
  "confirm_write e gift addressId =
     update_row mk_gifts mk_gifts_update (\<lambda>g. gf_id g = gf_id gift) (confirmed_row e gift addressId)"

definition with_snapshot :: "Gift \<Rightarrow> string \<Rightarrow> (market, VisibleGift \<times> CoverageSnapshot) prog" where
  "with_snapshot g viewer = reads (\<lambda>s. (applyGiftVisibility (gift_view s g) (Some viewer), loadCoverageSnapshot g s))"

definition confirmAddress :: "menv \<Rightarrow> string \<Rightarrow> string \<Rightarrow> string option \<Rightarrow> (market, VisibleGift \<times> CoverageSnapshot) prog" where
  "confirmAddress e giftId viewerUserId addressId =
     seq (load_gift giftId) (\<lambda>gift.
     seq (require (gf_receiverId gift = viewerUserId) (Forbidden ''forbidden'')) (\<lambda>_.
     if gf_status gift \<noteq> ''pending_address''
     then seq (load_gift giftId) (\<lambda>fresh. with_snapshot fresh viewerUserId)
     else
       seq (plan_confirm e gift viewerUserId addressId) (\<lambda>a.
       seq (confirm_write e gift (ad_id a)) (\<lambda>updated.
       seq (notify (gf_senderId gift) GiftAddressConfirmed T_address_confirmed
              (Some (withFulfillmentRef (Some (gf_productName updated)) (gf_fulfillmentNumber updated))) (gift_link (gf_id gift))) (\<lambda>_.
       with_snapshot updated viewerUserId)))))"

section \<open>Cancellation by the sender\<close>

definition CANCELLABLE :: "string list" where
  "CANCELLABLE = [''pending_address'', ''address_confirmed'', ''default_address_used'']"

definition cancel_write :: "string \<Rightarrow> (market, nat) prog" where
  "cancel_write giftId =
     updateMany mk_gifts mk_gifts_update (\<lambda>g. gf_id g = giftId \<and> gf_status g \<in> set CANCELLABLE)
       (\<lambda>g. g\<lparr> gf_status := ''cancelled'' \<rparr>)"

definition restore_wish :: "string \<Rightarrow> string \<Rightarrow> (market, unit) prog" where
  "restore_wish receiverId productId =
     swallow (updateMany mk_wishes mk_wishes_update
       (\<lambda>w. wi_userId w = receiverId \<and> wi_productId w = Some productId \<and> wi_deactivatedReason w = Some ''purchased_for_recipient'')
       (\<lambda>w. w\<lparr> wi_deactivatedAt := None, wi_deactivatedReason := None \<rparr>))"

definition uncount_gifted :: "string \<Rightarrow> (market, unit) prog" where
  "uncount_gifted productId =
     swallow (update_row mk_products mk_products_update (\<lambda>p. pd_id p = productId)
       (\<lambda>p. p\<lparr> pd_giftedByCount := pd_giftedByCount p - 1 \<rparr>))"

definition retire_posts :: "menv \<Rightarrow> string \<Rightarrow> (market, unit) prog" where
  "retire_posts e giftId =
     swallow (updateMany mk_giftPosts mk_giftPosts_update (\<lambda>p. gp_giftId p = giftId \<and> gp_deactivatedAt p = None)
       (\<lambda>p. p\<lparr> gp_deactivatedAt := Some (clk e 0), gp_deactivatedReason := Some ''gift_cancelled'' \<rparr>))"

definition cancel_gift :: "menv \<Rightarrow> string \<Rightarrow> string \<Rightarrow> (market, VisibleGift) prog" where
  "cancel_gift e giftId viewerUserId =
     seq (load_gift giftId) (\<lambda>gift.
     seq (require (gf_senderId gift = viewerUserId) (Forbidden ''forbidden'')) (\<lambda>_.
     if gf_status gift = ''cancelled'' then visible_gift gift viewerUserId
     else
       seq (require (gf_status gift \<in> set CANCELLABLE) (BadRequest ''gift_not_cancellable'')) (\<lambda>_.
       seq (cancel_write giftId) (\<lambda>count.
       if count = 0 then seq (load_gift giftId) (\<lambda>fresh. visible_gift fresh viewerUserId)
       else
         seq (if truthy (gf_productId gift)
              then seq (restore_wish (gf_receiverId gift) (the (gf_productId gift))) (\<lambda>_. uncount_gifted (the (gf_productId gift)))
              else ret ()) (\<lambda>_.
         seq (retire_posts e (gf_id gift)) (\<lambda>_.
         seq (notify (gf_receiverId gift) GiftCancelled T_gift_cancelled
                (Some (withFulfillmentRef (bodyForReceiverGiftUpdate (gf_isSurprise gift) ''cancelled'' (Some (gf_productName gift)))
                   (gf_fulfillmentNumber gift))) (gift_link (gf_id gift))) (\<lambda>_.
         seq (load_gift giftId) (\<lambda>updated. visible_gift updated viewerUserId))))))))"

section \<open>The sweep over overdue gifts\<close>

definition AUTO_DEFAULT_TTL_MS :: int where "AUTO_DEFAULT_TTL_MS = 24 * 60 * 60 * 1000"

datatype SweepOutcome = Promoted | Skipped | Blocked

definition candidate_addresses :: "string \<Rightarrow> market \<Rightarrow> Address list" where
  "candidate_addresses userId s =
     order_by (\<lambda>a. (\<not> ad_isDefault a, ad_id a)) (filter (\<lambda>a. ad_userId a = userId) (mk_addresses s))"

text \<open>The first candidate, or the first one the store delivers to when that matters.\<close>

definition sweep_choice :: "menv \<Rightarrow> Gift \<Rightarrow> market \<Rightarrow> Address option" where
  "sweep_choice e gift s =
     (let candidates = candidate_addresses (gf_receiverId gift) s in
      case store_of (gf_storeId gift) s of
        Some f \<Rightarrow> if fast_product (gf_productId gift) s then find (delivers_to (me_fold e) f) candidates
                  else find (\<lambda>_. True) candidates
      | None \<Rightarrow> find (\<lambda>_. True) candidates)"

definition sweep_write :: "menv \<Rightarrow> string \<Rightarrow> string \<Rightarrow> (market, nat) prog" where
  "sweep_write e giftId addressId =
     updateMany mk_gifts mk_gifts_update (\<lambda>g. gf_id g = giftId \<and> gf_status g = ''pending_address'')
       (\<lambda>g. g\<lparr> gf_status := ''default_address_used'', gf_addressId := Some addressId, gf_confirmedAt := Some (clk e 1) \<rparr>)"

definition receiver_body :: "Gift \<Rightarrow> string \<Rightarrow> string option" where
  "receiver_body gift status =
     Some (withFulfillmentRef (bodyForReceiverGiftUpdate (gf_isSurprise gift) status (Some (gf_productName gift))) (gf_fulfillmentNumber gift))"

definition sender_body :: "Gift \<Rightarrow> string option" where
  "sender_body gift = Some (withFulfillmentRef (Some (gf_productName gift)) (gf_fulfillmentNumber gift))"

definition sweep_one :: "menv \<Rightarrow> Gift \<Rightarrow> (market, SweepOutcome) prog" where
  "sweep_one e gift =
     attempt (
       seq (reads (candidate_addresses (gf_receiverId gift))) (\<lambda>candidates.
       if candidates = [] then ret Skipped
       else
         seq (reads (sweep_choice e gift)) (\<lambda>chosen.
         case chosen of
           None \<Rightarrow>
             seq (notify (gf_receiverId gift) GiftAutoFallbackBlocked T_auto_confirm_failed
                    (receiver_body gift ''pending_address'') (gift_link (gf_id gift))) (\<lambda>_.
             seq (notify (gf_senderId gift) GiftAutoFallbackBlocked T_waiting_for_supported_address
                    (sender_body gift) (gift_link (gf_id gift))) (\<lambda>_.
             ret Blocked))
         | Some a \<Rightarrow>
             seq (sweep_write e (gf_id gift) (ad_id a)) (\<lambda>count.
             if count = 0 then ret Skipped
             else
               seq (notify (gf_receiverId gift) GiftDefaultAddressUsed T_saved_address_used
                      (receiver_body gift ''default_address_used'') (gift_link (gf_id gift))) (\<lambda>_.
               seq (notify (gf_senderId gift) GiftDefaultAddressUsed T_default_address_used
                      (sender_body gift) (gift_link (gf_id gift))) (\<lambda>_.
               ret Promoted)))))) (\<lambda>_. ret Skipped)"

fun sweep_loop :: "menv \<Rightarrow> Gift list \<Rightarrow> nat \<times> nat \<times> nat \<Rightarrow> (market, nat \<times> nat \<times> nat) prog" where
  "sweep_loop e [] counts = ret counts"
| "sweep_loop e (gift # gifts) (promoted, skipped, blocked) =
     seq (sweep_one e gift) (\<lambda>outcome.
     sweep_loop e gifts (case outcome of
         Promoted \<Rightarrow> (Suc promoted, skipped, blocked)
       | Skipped \<Rightarrow> (promoted, Suc skipped, blocked)
       | Blocked \<Rightarrow> (promoted, skipped, Suc blocked)))"

definition runOnce :: "menv \<Rightarrow> (market, nat \<times> nat \<times> nat) prog" where
  "runOnce e =
     seq (reads (\<lambda>s. filter (\<lambda>g. gf_status g = ''pending_address'' \<and> gf_createdAt g < clk e 0 - AUTO_DEFAULT_TTL_MS) (mk_gifts s))) (\<lambda>overdue.
     sweep_loop e overdue (0, 0, 0))"

section \<open>Reads of the parties\<close>

definition findOne ::
  "string \<Rightarrow> string \<Rightarrow> (market, VisibleGift \<times> CoverageSnapshot \<times> (Shipment \<times> ShipmentEvent list) option) prog"
where
  "findOne giftId viewerUserId =
     seq (load_gift giftId) (\<lambda>gift.
     seq (require (viewerUserId = gf_senderId gift \<or> viewerUserId = gf_receiverId gift) (Forbidden ''forbidden'')) (\<lambda>_.
     reads (\<lambda>s. (applyGiftVisibility (gift_view s gift) (Some viewerUserId), loadCoverageSnapshot gift s,
                 loadShipmentSnapshot (gf_id gift) s))))"

definition findSent :: "string \<Rightarrow> string \<Rightarrow> (market, VisibleGift list) prog" where
  "findSent senderId viewerUserId =
     seq (require (senderId = viewerUserId) (Forbidden ''forbidden'')) (\<lambda>_.
     reads (\<lambda>s. map (\<lambda>g. applyGiftVisibility (gift_view s g) (Some senderId))
       (rev (order_by gf_createdAt (filter (\<lambda>g. gf_senderId g = senderId) (mk_gifts s))))))"

definition findReceived :: "string \<Rightarrow> string \<Rightarrow> (market, VisibleGift list) prog" where
  "findReceived receiverId viewerUserId =
     seq (require (receiverId = viewerUserId) (Forbidden ''forbidden'')) (\<lambda>_.
     reads (\<lambda>s. map (\<lambda>g. applyGiftVisibility (gift_view s g) (Some receiverId))
       (rev (order_by gf_createdAt (filter (\<lambda>g. gf_receiverId g = receiverId) (mk_gifts s))))))"

section \<open>The merchant's handlers\<close>

definition split_commas :: "string \<Rightarrow> string list" where
  "split_commas s = foldr (\<lambda>c ws. if c = CHR '','' then [] # ws else case ws of [] \<Rightarrow> [[c]] | w # r \<Rightarrow> (c # w) # r) s [[]]"

definition store_admin :: "menv \<Rightarrow> string \<Rightarrow> bool" where
  "store_admin e viewerUserId \<longleftrightarrow>
     viewerUserId \<in> set (filter (\<lambda>x. x \<noteq> []) (map js_trim (split_commas (case me_storeUsers e of None \<Rightarrow> [] | Some v \<Rightarrow> v))))"

definition ownedStoreIds :: "string \<Rightarrow> market \<Rightarrow> string list" where
  "ownedStoreIds viewerUserId s = map sf_id (filter (\<lambda>f. sf_ownerId f = viewerUserId) (mk_stores s))"

definition assertCanMutate :: "menv \<Rightarrow> string \<Rightarrow> string option \<Rightarrow> (market, unit) prog" where
  "assertCanMutate e viewerUserId giftStoreId =
     (if store_admin e viewerUserId then ret ()
      else seq (require (truthy giftStoreId) (Forbidden ''order_not_yours'')) (\<lambda>_.
           seq (reads (ownedStoreIds viewerUserId)) (\<lambda>owned.
           require (the giftStoreId \<in> set owned) (Forbidden ''order_not_yours''))))"

record StoreMutationResult =
  mr_giftId :: string
  mr_status :: string
  mr_shippedAt :: "instant option"
  mr_deliveredAt :: "instant option"
  mr_trackingNumber :: "string option"
  mr_carrier :: "string option"

definition toSafeStoreMutationResult :: "Gift \<Rightarrow> StoreMutationResult" where
  "toSafeStoreMutationResult g =
     \<lparr> mr_giftId = gf_id g, mr_status = gf_status g, mr_shippedAt = gf_shippedAt g, mr_deliveredAt = gf_deliveredAt g,
       mr_trackingNumber = gf_trackingNumber g, mr_carrier = gf_carrier g \<rparr>"

definition write_gift :: "string \<Rightarrow> (Gift \<Rightarrow> Gift) \<Rightarrow> (market, Gift) prog" where
  "write_gift giftId f = update_row mk_gifts mk_gifts_update (\<lambda>g. gf_id g = giftId) f"

definition markPreparing :: "menv \<Rightarrow> string \<Rightarrow> string \<Rightarrow> (market, StoreMutationResult) prog" where
  "markPreparing e viewerUserId giftId =
     seq (load_gift giftId) (\<lambda>gift.
     seq (assertCanMutate e viewerUserId (gf_storeId gift)) (\<lambda>_.
     if gf_status gift = ''preparing'' then ret (toSafeStoreMutationResult gift)
     else
       seq (lift (assertTransition (gf_status gift) Preparing)) (\<lambda>_.
       seq (write_gift giftId (\<lambda>g. g\<lparr> gf_status := ''preparing'' \<rparr>)) (\<lambda>updated.
       seq (notify (gf_receiverId gift) GiftPreparing T_your_gift_preparing
              (receiver_body updated (gf_status updated)) (gift_link (gf_id gift))) (\<lambda>_.
       seq (notify (gf_senderId gift) GiftPreparing T_gift_preparing (sender_body updated) (gift_link (gf_id gift))) (\<lambda>_.
       ret (toSafeStoreMutationResult updated)))))))"

definition markDelivered :: "menv \<Rightarrow> string \<Rightarrow> string \<Rightarrow> (market, StoreMutationResult) prog" where
  "markDelivered e viewerUserId giftId =
     seq (load_gift giftId) (\<lambda>gift.
     seq (assertCanMutate e viewerUserId (gf_storeId gift)) (\<lambda>_.
     if gf_status gift = ''delivered'' then ret (toSafeStoreMutationResult gift)
     else
       seq (lift (assertTransition (gf_status gift) Delivered)) (\<lambda>_.
       seq (write_gift giftId (\<lambda>g. g\<lparr> gf_status := ''delivered'', gf_deliveredAt := Some (clk e 0) \<rparr>)) (\<lambda>updated.
       seq (notify (gf_receiverId gift) GiftDelivered T_message_from_sender (sender_body updated) (gift_link (gf_id gift))) (\<lambda>_.
       seq (notify (gf_senderId gift) GiftDelivered T_gift_arrived (sender_body updated) (gift_link (gf_id gift))) (\<lambda>_.
       ret (toSafeStoreMutationResult updated)))))))"

section \<open>Shipping\<close>

text \<open>The courier catalog; the Arabic names by their UTF-8 bytes, the template up to the number.\<close>

record ShippingProvider =
  sv_code :: string
  sv_nameAr :: string
  sv_trackingUrlTemplate :: "string option"

definition SHIPPING_PROVIDERS :: "ShippingProvider list" where
  "SHIPPING_PROVIDERS =
     [\<lparr> sv_code = ''smsa'', sv_nameAr = map char_of [83, 77, 83, 65, 32, 216, 165, 217, 131, 216, 179, 216, 168, 216, 177, 216, 179 :: nat], sv_trackingUrlTemplate = Some ''https://www.smsaexpress.com/trackingdetails?tracknumbers='' \<rparr>,
      \<lparr> sv_code = ''aramex'', sv_nameAr = map char_of [216, 163, 216, 177, 216, 167, 217, 133, 217, 131, 216, 179 :: nat], sv_trackingUrlTemplate = Some ''https://www.aramex.com/track/results?ShipmentNumber='' \<rparr>,
      \<lparr> sv_code = ''dhl'', sv_nameAr = ''DHL'', sv_trackingUrlTemplate = Some ''https://www.dhl.com/global-en/home/tracking.html?tracking-id='' \<rparr>,
      \<lparr> sv_code = ''spl'', sv_nameAr = map char_of [216, 167, 217, 132, 216, 168, 216, 177, 217, 138, 216, 175, 32, 216, 167, 217, 132, 216, 179, 216, 185, 217, 136, 216, 175, 217, 138, 32, 40, 216, 179, 216, 168, 217, 132, 41 :: nat], sv_trackingUrlTemplate = Some ''https://splonline.com.sa/en/track-trace/?article='' \<rparr>,
      \<lparr> sv_code = ''manual'', sv_nameAr = map char_of [216, 170, 216, 179, 217, 132, 217, 138, 217, 133, 32, 217, 138, 216, 175, 217, 136, 217, 138 :: nat], sv_trackingUrlTemplate = None \<rparr>,
      \<lparr> sv_code = ''other'', sv_nameAr = map char_of [217, 133, 216, 178, 217, 136, 216, 175, 32, 216, 162, 216, 174, 216, 177 :: nat], sv_trackingUrlTemplate = None \<rparr>]"

definition isKnownProvider :: "string \<Rightarrow> bool" where
  "isKnownProvider code \<longleftrightarrow> (\<exists>p \<in> set SHIPPING_PROVIDERS. sv_code p = code)"

text \<open>\<open>encodeURIComponent\<close> on Latin-1: letters, digits and eight marks stay, other characters become their UTF-8 bytes.\<close>

definition uri_unreserved :: "nat \<Rightarrow> bool" where
  "uri_unreserved n \<longleftrightarrow> (48 \<le> n \<and> n \<le> 57) \<or> (65 \<le> n \<and> n \<le> 90) \<or> (97 \<le> n \<and> n \<le> 122)
     \<or> n \<in> {45, 95, 46, 33, 126, 42, 39, 40, 41}"

definition percent :: "nat \<Rightarrow> string" where
  "percent n = map (\<lambda>d. if d < 10 then char_of (48 + d) else char_of (55 + d)) [n div 16, n mod 16]"

definition uri_char :: "char \<Rightarrow> string" where
  "uri_char c = (let n = of_char c in
     if uri_unreserved n then [c]
     else if n < 128 then CHR 0x25 # percent n
     else CHR 0x25 # percent (192 + n div 64) @ CHR 0x25 # percent (128 + n mod 64))"

definition encodeURIComponent :: "string \<Rightarrow> string" where
  "encodeURIComponent s = concat (map uri_char s)"

definition buildTrackingUrl :: "string \<Rightarrow> string option \<Rightarrow> string option" where
  "buildTrackingUrl providerCode trackingNumber =
     (if \<not> truthy trackingNumber then None
      else case find (\<lambda>p. sv_code p = providerCode) SHIPPING_PROVIDERS of
          None \<Rightarrow> None
        | Some p \<Rightarrow> map_option (\<lambda>t. t @ encodeURIComponent (the trackingNumber)) (sv_trackingUrlTemplate p))"

definition SHIPMENT_STATUSES :: "string list" where
  "SHIPMENT_STATUSES = [''registered'', ''in_transit'', ''out_for_delivery'', ''delivered'', ''exception'', ''cancelled'']"

definition provider_name :: "string \<Rightarrow> string option" where
  "provider_name code = map_option sv_nameAr (find (\<lambda>p. sv_code p = code) SHIPPING_PROVIDERS)"

definition registered_event :: "menv \<Rightarrow> string \<Rightarrow> string option \<Rightarrow> ShipmentEvent" where
  "registered_event e shipmentId trackingNumber =
     \<lparr> se_shipmentId = shipmentId, se_status = ''registered'',
       se_note = (if truthy trackingNumber then Some (''Tracking '' @ the trackingNumber) else None), se_occurredAt = clk e 1 \<rparr>"

text \<open>\<open>shipment.upsert\<close>: a new row comes with its first event; an existing one is refreshed.\<close>

definition upsert_shipment :: "menv \<Rightarrow> string \<Rightarrow> string \<Rightarrow> string option \<Rightarrow> (Shipment \<Rightarrow> Shipment) \<Rightarrow> (market, unit) prog" where
  "upsert_shipment e giftId provider trackingNumber refresh =
     seq (reads (\<lambda>s. \<exists>h \<in> set (mk_shipments s). sh_giftId h = giftId)) (\<lambda>present.
     if present
     then seq (updateMany mk_shipments mk_shipments_update (\<lambda>h. sh_giftId h = giftId) refresh) (\<lambda>_. ret ())
     else writes (\<lambda>s. mk_shipmentEvents_update (\<lambda>t. t @ [registered_event e (en_uuid e 1) trackingNumber])
            (mk_shipments_update (\<lambda>t. t @ [\<lparr> sh_id = en_uuid e 1, sh_giftId = giftId, sh_provider = provider,
               sh_trackingNumber = trackingNumber, sh_trackingUrl = buildTrackingUrl provider trackingNumber,
               sh_status = ''registered'' \<rparr>]) s)))"

record ShipOptions =
  so_trackingNumber :: "string option"
  so_carrier :: "string option"
  so_provider :: "string option"

definition ship_row :: "menv \<Rightarrow> string option \<Rightarrow> string option \<Rightarrow> Gift \<Rightarrow> Gift" where
  "ship_row e trackingNumber carrier g =
     g\<lparr> gf_status := ''shipped'', gf_shippedAt := Some (clk e 0), gf_trackingNumber := trackingNumber, gf_carrier := carrier \<rparr>"

definition markShipped :: "menv \<Rightarrow> string \<Rightarrow> string \<Rightarrow> ShipOptions \<Rightarrow> (market, StoreMutationResult) prog" where
  "markShipped e viewerUserId giftId opts =
     seq (load_gift giftId) (\<lambda>gift.
     seq (assertCanMutate e viewerUserId (gf_storeId gift)) (\<lambda>_.
     if gf_status gift = ''shipped'' then ret (toSafeStoreMutationResult gift)
     else
       seq (lift (assertTransition (gf_status gift) Shipped)) (\<lambda>_.
       let trackingNumber = trimmed_or_null (so_trackingNumber opts);
           provider = (case trimmed_or_null (so_provider opts) of
               None \<Rightarrow> None | Some p \<Rightarrow> if isKnownProvider p then Some p else None);
           carrier = (case trimmed_or_null (so_carrier opts) of
               Some c \<Rightarrow> Some c | None \<Rightarrow> Option.bind provider provider_name) in
       seq (write_gift giftId (ship_row e trackingNumber carrier)) (\<lambda>updated.
       seq (case provider of
              None \<Rightarrow> ret ()
            | Some p \<Rightarrow> upsert_shipment e giftId p trackingNumber
                (\<lambda>h. h\<lparr> sh_provider := p, sh_trackingNumber := trackingNumber,
                        sh_trackingUrl := buildTrackingUrl p trackingNumber, sh_status := ''registered'' \<rparr>)) (\<lambda>_.
       seq (notify (gf_receiverId gift) GiftShipped T_your_gift_shipped
              (receiver_body updated (gf_status updated)) (gift_link (gf_id gift))) (\<lambda>_.
       seq (notify (gf_senderId gift) GiftShipped T_gift_shipped (sender_body updated) (gift_link (gf_id gift))) (\<lambda>_.
       ret (toSafeStoreMutationResult updated))))))))"

record ShipmentRead =
  sx_shipment :: "(Shipment \<times> ShipmentEvent list) option"
  sx_legacyTrackingNumber :: "string option"
  sx_legacyCarrier :: "string option"

definition getShipmentForOrder :: "menv \<Rightarrow> string \<Rightarrow> string \<Rightarrow> (market, ShipmentRead) prog" where
  "getShipmentForOrder e viewerUserId giftId =
     seq (load_gift giftId) (\<lambda>gift.
     seq (assertCanMutate e viewerUserId (gf_storeId gift)) (\<lambda>_.
     reads (\<lambda>s. case loadShipmentSnapshot giftId s of
         None \<Rightarrow> \<lparr> sx_shipment = None, sx_legacyTrackingNumber = gf_trackingNumber gift, sx_legacyCarrier = gf_carrier gift \<rparr>
       | Some h \<Rightarrow> \<lparr> sx_shipment = Some h, sx_legacyTrackingNumber = None, sx_legacyCarrier = None \<rparr>)))"

definition upsertShipment ::
  "menv \<Rightarrow> string \<Rightarrow> string \<Rightarrow> string option \<Rightarrow> string option \<Rightarrow> (market, (Shipment \<times> ShipmentEvent list) option) prog"
where
  "upsertShipment e viewerUserId giftId providerInput trackingInput =
     seq (load_gift giftId) (\<lambda>gift.
     seq (assertCanMutate e viewerUserId (gf_storeId gift)) (\<lambda>_.
     let provider = opt_trim providerInput; trackingNumber = trimmed_or_null trackingInput in
     seq (require (truthy provider \<and> isKnownProvider (the provider)) (Forbidden ''unknown_shipping_provider'')) (\<lambda>_.
     let p = the provider in
     seq (upsert_shipment e giftId p trackingNumber
            (\<lambda>h. h\<lparr> sh_provider := p, sh_trackingNumber := trackingNumber, sh_trackingUrl := buildTrackingUrl p trackingNumber \<rparr>)) (\<lambda>_.
     seq (reads (loadShipmentSnapshot giftId)) (\<lambda>shipment.
     seq (if provider_name p \<noteq> gf_carrier gift \<or> trackingNumber \<noteq> gf_trackingNumber gift
          then seq (write_gift giftId (\<lambda>g. g\<lparr> gf_carrier := provider_name p, gf_trackingNumber := trackingNumber \<rparr>)) (\<lambda>_. ret ())
          else ret ()) (\<lambda>_.
     ret shipment))))))"

text \<open>A delivered event is mirrored on the gift when the status law allows it, and dropped otherwise.\<close>

definition mirror_delivery :: "Gift \<Rightarrow> string \<Rightarrow> string \<Rightarrow> instant \<Rightarrow> (market, unit) prog" where
  "mirror_delivery gift giftId status occurredAt =
     (if status = ''delivered'' \<and> gf_status gift \<noteq> ''delivered''
      then swallow (
        seq (lift (assertTransition (gf_status gift) Delivered)) (\<lambda>_.
        write_gift giftId (\<lambda>g. g\<lparr> gf_status := ''delivered'', gf_deliveredAt := Some occurredAt \<rparr>)))
      else ret ())"

definition appendShipmentEvent ::
  "menv \<Rightarrow> string \<Rightarrow> string \<Rightarrow> string option \<Rightarrow> string option \<Rightarrow> string option \<Rightarrow> (market, ShipmentRead) prog"
where
  "appendShipmentEvent e viewerUserId giftId statusInput noteInput occurredAtInput =
     seq (load_gift giftId) (\<lambda>gift.
     seq (assertCanMutate e viewerUserId (gf_storeId gift)) (\<lambda>_.
     seq (reads (\<lambda>s. find (\<lambda>h. sh_giftId h = giftId) (mk_shipments s))) (\<lambda>read.
     seq (found read (NotFound ''No shipment for this order'')) (\<lambda>shipment.
     let status = (case opt_trim statusInput of None \<Rightarrow> [] | Some t \<Rightarrow> t) in
     seq (require (status \<in> set SHIPMENT_STATUSES) (Forbidden ''unknown_shipment_status'')) (\<lambda>_.
     seq (found (if truthy occurredAtInput then date_parse (the occurredAtInput) else Some (clk e 0)) (JsError ''invalid_date'')) (\<lambda>occurredAt.
     seq (writes (mk_shipmentEvents_update (\<lambda>t. t @ [\<lparr> se_shipmentId = sh_id shipment, se_status = status,
            se_note = trimmed_or_null noteInput, se_occurredAt = occurredAt \<rparr>]))) (\<lambda>_.
     seq (update_row mk_shipments mk_shipments_update (\<lambda>h. sh_id h = sh_id shipment) (\<lambda>h. h\<lparr> sh_status := status \<rparr>)) (\<lambda>_.
     seq (mirror_delivery gift giftId status occurredAt) (\<lambda>_.
     getShipmentForOrder e viewerUserId giftId)))))))))"

end
