(* ===== verification/Orders.thy ===== *)
theory Orders
  imports Gifts
begin

text \<open>
  Orders and payments: \<open>payments/providers.ts\<close>, \<open>payments/gateways/\<close>, \<open>orders/orders.service.ts\<close>
  and \<open>payments/payments.service.ts\<close>. A capture by the gateway is recorded in \<open>mk_captures\<close>; the
  confirmation of a payment is split at its database writes for the interleavings.
\<close>

section \<open>Providers\<close>

definition FALLBACK_PROVIDERS :: "string list" where
  "FALLBACK_PROVIDERS = [''visa'', ''mastercard'']"

definition COUNTRY_PROVIDERS :: "string \<Rightarrow> string list option" where
  "COUNTRY_PROVIDERS = map_of
     [(''SA'', [''mada'', ''apple_pay'', ''visa'', ''mastercard'']), (''KW'', [''knet'', ''apple_pay'', ''visa'', ''mastercard'']),
      (''AE'', [''apple_pay'', ''visa'', ''mastercard'']), (''QA'', [''qpay'', ''apple_pay'', ''visa'', ''mastercard'']),
      (''BH'', [''benefit'', ''apple_pay'', ''visa'', ''mastercard'']), (''OM'', [''oman_net'', ''apple_pay'', ''visa'', ''mastercard''])]"

definition getPaymentProvidersByCountry :: "string option \<Rightarrow> string list" where
  "getPaymentProvidersByCountry country =
     (if \<not> truthy country then FALLBACK_PROVIDERS
      else case COUNTRY_PROVIDERS (js_upper (js_trim (the country))) of None \<Rightarrow> FALLBACK_PROVIDERS | Some ps \<Rightarrow> ps)"

definition validatePaymentProvider :: "string option \<Rightarrow> string option \<Rightarrow> bool" where
  "validatePaymentProvider country provider \<longleftrightarrow>
     truthy provider \<and> the provider \<in> set (getPaymentProvidersByCountry country)"

section \<open>Orders\<close>

record CreateOrderInput =
  co_receiverUsername :: "string option"
  co_productName :: "string option"
  co_storeName :: "string option"
  co_productPrice :: "js_number option"
  co_deliverySpeed :: "string option"
  co_deliveryFee :: "js_number option"
  co_currency :: "string option"
  co_country :: "string option"
  co_paymentProvider :: "string option"
  co_message :: "string option"
  co_isAnonymous :: bool
  co_isSurprise :: bool
  co_mediaUrl :: "string option"
  co_mediaType :: "string option"
  co_isFastDelivery :: bool
  co_storeCity :: "utext option"
  co_productId :: "string option"
  co_storeId :: "string option"
  co_occasionId :: "string option"

definition numberOr :: "js_number option \<Rightarrow> rat option" where
  "numberOr v = (case v of Some (Fin x) \<Rightarrow> Some x | Some NegZero \<Rightarrow> Some 0 | _ \<Rightarrow> None)"

definition resolveDeliverySpeed :: "CreateOrderInput \<Rightarrow> DeliverySpeed res" where
  "resolveDeliverySpeed body =
     (if co_deliverySpeed body = Some ''fast'' then Inr Fast
      else if co_deliverySpeed body = Some ''same_day'' then Inr Same_day
      else case numberOr (co_deliveryFee body) of
          None \<Rightarrow> Inr Same_day
        | Some legacy \<Rightarrow>
            if legacy = of_int STANDARD_DELIVERY_FEE then Inr Same_day
            else if legacy = of_int FAST_DELIVERY_FEE then Inr Fast
            else Inl (BadRequest ''Invalid delivery option''))"

text \<open>\<open>users.canDeliverFast\<close> and \<open>products.checkAvailability\<close>.\<close>

definition canDeliverFast :: "(utext \<Rightarrow> utext) \<Rightarrow> string \<Rightarrow> utext \<Rightarrow> market \<Rightarrow> bool" where
  "canDeliverFast unicode receiverId storeCity s \<longleftrightarrow>
     (let city = u_trim storeCity; target = normaliseCity unicode city in
      city \<noteq> [] \<and> (\<exists>a \<in> set (mk_addresses s). ad_userId a = receiverId \<and> normaliseCity unicode (ad_city a) = target))"

definition PUBLIC_STORE_STATUSES :: "string list" where
  "PUBLIC_STORE_STATUSES = [''approved'', ''pending'']"

definition checkAvailability :: "string option \<Rightarrow> (market, Product option) prog" where
  "checkAvailability productId =
     (if \<not> truthy productId then ret None
      else
        seq (reads (\<lambda>s. find (\<lambda>p. Some (pd_id p) = productId) (mk_products s))) (\<lambda>read.
        seq (found read (BadRequest ''product_not_found'')) (\<lambda>p.
        seq (require (pd_isAvailable p \<and> pd_stockStatus p = ''in_stock'') (BadRequest ''product_unavailable'')) (\<lambda>_.
        seq (reads (\<lambda>s. find (\<lambda>f. sf_id f = pd_storeId p) (mk_stores s))) (\<lambda>store.
        seq (require (case store of None \<Rightarrow> False | Some f \<Rightarrow> sf_status f \<in> set PUBLIC_STORE_STATUSES)
               (BadRequest ''product_unavailable'')) (\<lambda>_.
        ret (Some p)))))))"

definition order_clash :: "Order \<Rightarrow> Order \<Rightarrow> bool" where
  "order_clash r r' \<longleftrightarrow> or_id r' = or_id r \<or> or_orderNumber r' = or_orderNumber r
     \<or> (or_giftId r \<noteq> None \<and> or_giftId r' = or_giftId r)"

definition new_order ::
  "menv \<Rightarrow> CreateOrderInput \<Rightarrow> string \<Rightarrow> string option \<Rightarrow> FeeBreakdown \<Rightarrow> string option \<Rightarrow> string option \<Rightarrow> string \<Rightarrow> Order"
where
  "new_order e body viewerUserId storeId fees mediaUrl mediaType orderNumber =
     \<lparr> or_id = en_uuid e 0, or_orderNumber = orderNumber, or_userId = viewerUserId, or_giftId = None,
       or_receiverUsername = js_lower (js_trim (the (co_receiverUsername body))),
       or_productName = js_trim (the (co_productName body)), or_storeName = js_trim (the (co_storeName body)),
       or_productId = trimmed_or_null (co_productId body), or_storeId = storeId,
       or_productPrice = fb_itemSubtotal fees, or_serviceFee = of_int (fb_serviceFee fees),
       or_deliveryFee = of_int (fb_deliveryFee fees), or_totalAmount = fb_grandTotal fees,
       or_currency = js_upper (js_trim (the (co_currency body))), or_country = js_upper (js_trim (the (co_country body))),
       or_paymentProvider = js_trim (the (co_paymentProvider body)), or_message = trimmed_or_null (co_message body),
       or_mediaUrl = mediaUrl, or_mediaType = mediaType, or_isSurprise = co_isSurprise body,
       or_isAnonymous = co_isAnonymous body, or_occasionId = trimmed_or_null (co_occasionId body),
       or_status = ''pending'', or_createdAt = en_dbNow e \<rparr>"

text \<open>\<open>createWithReference\<close>: three attempts at most, each with fresh candidates.\<close>

fun order_attempts :: "nat \<Rightarrow> menv \<Rightarrow> nat \<Rightarrow> (string \<Rightarrow> Order) \<Rightarrow> (market, Order) prog" where
  "order_attempts n e k row =
     seq (reads (\<lambda>s. allocateReference QP (\<lambda>c. \<exists>r \<in> set (mk_orders s). or_orderNumber r = c) (en_draw e k))) (\<lambda>allocated.
     seq (lift allocated) (\<lambda>orderNumber.
     attempt (create mk_orders mk_orders_update order_clash (row orderNumber))
       (\<lambda>ex. case n of 0 \<Rightarrow> raise ex | Suc m \<Rightarrow> if is_P2002 ex then order_attempts m e (Suc k) row else raise ex)))"

definition create_order :: "menv \<Rightarrow> CreateOrderInput \<Rightarrow> string \<Rightarrow> (market, Order) prog" where
  "create_order e body viewerUserId =
     seq (lift (validateGiftMedia (co_mediaUrl body) (co_mediaType body))) (\<lambda>(mediaUrl, mediaType).
     seq (require (truthy (opt_trim (co_receiverUsername body)) \<and> truthy (opt_trim (co_productName body))
                   \<and> truthy (opt_trim (co_storeName body)) \<and> truthy (opt_trim (co_currency body))
                   \<and> truthy (opt_trim (co_country body)) \<and> truthy (opt_trim (co_paymentProvider body)))
            (BadRequest ''receiverUsername, productName, storeName, currency, country and paymentProvider are required'')) (\<lambda>_.
     seq (lift (resolveDeliverySpeed body)) (\<lambda>deliverySpeed.
     seq (require (validatePaymentProvider (Some (js_upper (js_trim (the (co_country body))))) (opt_trim (co_paymentProvider body)))
            (BadRequest ''payment_provider_not_allowed'')) (\<lambda>_.
     seq (resolve_receiver viewerUserId (js_lower (js_trim (the (co_receiverUsername body))))) (\<lambda>receiver.
     seq (reads (getDefaultAddressForUser (us_id receiver))) (\<lambda>defaultAddress.
     seq (require (defaultAddress \<noteq> None) (Unprocessable ''recipient_no_default_address'')) (\<lambda>_.
     seq (if co_isFastDelivery body
          then seq (require (u_or_empty (map_option u_trim (co_storeCity body)) \<noteq> [])
                      (BadRequest ''storeCity is required for fast-delivery products'')) (\<lambda>_.
               seq (reads (canDeliverFast (me_fold e) (us_id receiver) (u_trim (the (co_storeCity body))))) (\<lambda>ok.
               require ok (BadRequest ''cannot_deliver_to_user'')))
          else ret ()) (\<lambda>_.
     seq (checkAvailability (co_productId body)) (\<lambda>productInfo.
     let storeId = (case trimmed_or_null (co_storeId body) of Some k \<Rightarrow> Some k | None \<Rightarrow> map_option pd_storeId productInfo);
         itemSubtotal = (case productInfo of Some p \<Rightarrow> Some (pd_price p) | None \<Rightarrow> numberOr (co_productPrice body)) in
     seq (found itemSubtotal (BadRequest ''productPrice is required (no authoritative catalog price available)'')) (\<lambda>subtotal.
     seq (require (0 \<le> subtotal) (BadRequest ''productPrice is required (no authoritative catalog price available)'')) (\<lambda>_.
     order_attempts 2 e 0 (new_order e body viewerUserId storeId
       (computeFees \<lparr> fi_itemSubtotal = subtotal, fi_deliverySpeed = deliverySpeed \<rparr>) mediaUrl mediaType))))))))))))"

definition listForUser :: "string \<Rightarrow> market \<Rightarrow> Order list" where
  "listForUser viewerUserId s = take 100 (rev (order_by or_createdAt (filter (\<lambda>r. or_userId r = viewerUserId) (mk_orders s))))"

definition load_order :: "string \<Rightarrow> (market, Order) prog" where
  "load_order i =
     seq (reads (\<lambda>s. find (\<lambda>r. or_id r = i) (mk_orders s))) (\<lambda>read. found read (NotFound ''Order not found''))"

definition find_order :: "string \<Rightarrow> string \<Rightarrow> (market, Order) prog" where
  "find_order i viewerUserId =
     seq (load_order i) (\<lambda>r.
     seq (require (or_userId r = viewerUserId) (Forbidden ''forbidden'')) (\<lambda>_. ret r))"


section \<open>Payments\<close>

text \<open>\<open>include: { payment, gift }\<close>.\<close>

definition payment_of :: "string \<Rightarrow> market \<Rightarrow> Payment option" where
  "payment_of orderId s = find (\<lambda>p. py_orderId p = orderId) (mk_payments s)"

definition gift_of :: "Order \<Rightarrow> market \<Rightarrow> Gift option" where
  "gift_of r s = Option.bind (or_giftId r) (\<lambda>i. find (\<lambda>g. gf_id g = i) (mk_gifts s))"

definition mock_initiate :: "menv \<Rightarrow> string \<Rightarrow> string" where
  "mock_initiate e key = ''mock_'' @ key @ ''_'' @ en_uuid e 3"

text \<open>\<open>ensureLedgerForPaidOrder\<close>: skipped when the order has any row; no failure leaves it.\<close>

definition paid_order :: "Order \<Rightarrow> PaidOrderForLedger" where
  "paid_order r =
     \<lparr> po_id = or_id r, po_userId = or_userId r, po_storeId = or_storeId r, po_productPrice = or_productPrice r,
       po_serviceFee = or_serviceFee r, po_deliveryFee = or_deliveryFee r, po_totalAmount = or_totalAmount r,
       po_currency = or_currency r, po_paymentProvider = or_paymentProvider r \<rparr>"

definition post_leg :: "RecordLedgerInput \<Rightarrow> (market, unit) prog" where
  "post_leg entry =
     attempt (seq (market_ledger_record entry) (\<lambda>_. ret ())) (\<lambda>ex. if is_P2002 ex then ret () else raise ex)"

definition ensureLedgerForPaidOrder :: "Order \<Rightarrow> (market, unit) prog" where
  "ensureLedgerForPaidOrder r =
     swallow (
       seq (reads (\<lambda>s. findByOrder (or_id r) (db_ledger s))) (\<lambda>existing.
       if existing \<noteq> [] then ret ()
       else seq (reads (payment_of (or_id r))) (\<lambda>payment.
            each post_leg (buildOrderLedgerEntries (paid_order r) (map_option py_id payment)))))"

definition upsert_payment :: "menv \<Rightarrow> Order \<Rightarrow> string \<Rightarrow> string \<Rightarrow> (Payment \<Rightarrow> Payment) \<Rightarrow> (market, unit) prog" where
  "upsert_payment e r providerPaymentId status refresh =
     seq (reads (payment_of (or_id r))) (\<lambda>present.
     if present \<noteq> None
     then seq (updateMany mk_payments mk_payments_update (\<lambda>p. py_orderId p = or_id r) refresh) (\<lambda>_. ret ())
     else writes (mk_payments_update (\<lambda>t. t @ [\<lparr> py_id = en_uuid e 2, py_orderId = or_id r, py_provider = or_paymentProvider r,
            py_providerPaymentId = Some providerPaymentId, py_amount = or_totalAmount r, py_currency = or_currency r,
            py_status = status \<rparr>])))"

definition write_order :: "string \<Rightarrow> (Order \<Rightarrow> Order) \<Rightarrow> (market, Order) prog" where
  "write_order i f = update_row mk_orders mk_orders_update (\<lambda>r. or_id r = i) f"

definition recordFailedPayment :: "menv \<Rightarrow> Order \<Rightarrow> string \<Rightarrow> (market, unit) prog" where
  "recordFailedPayment e r providerPaymentId =
     transaction (
       seq (upsert_payment e r providerPaymentId ''failed''
              (\<lambda>p. p\<lparr> py_providerPaymentId := Some providerPaymentId, py_status := ''failed'' \<rparr>)) (\<lambda>_.
       seq (write_order (or_id r) (\<lambda>x. x\<lparr> or_status := ''failed'' \<rparr>)) (\<lambda>_. ret ())))"

text \<open>The phases of a confirmation: the lock, the charge, the gift, the link.\<close>

definition lock_order :: "string \<Rightarrow> (market, nat) prog" where
  "lock_order i =
     updateMany mk_orders mk_orders_update (\<lambda>r. or_id r = i \<and> or_status r = ''pending'') (\<lambda>r. r\<lparr> or_status := ''processing'' \<rparr>)"

definition charge_order :: "menv \<Rightarrow> Order \<Rightarrow> (market, string) prog" where
  "charge_order e r =
     (let providerPaymentId = mock_initiate e (or_paymentProvider r) in
      if me_paid e (or_id r)
      then seq (writes (mk_captures_update (\<lambda>t. t @ [\<lparr> cp_orderId = or_id r, cp_providerPaymentId = providerPaymentId,
             cp_amount = or_totalAmount r, cp_currency = or_currency r \<rparr>]))) (\<lambda>_. ret providerPaymentId)
      else seq (recordFailedPayment e r providerPaymentId) (\<lambda>_. raise (BadRequest ''Payment was not authorized'')))"

definition gift_body :: "Order \<Rightarrow> CreateGiftInput" where
  "gift_body r =
     \<lparr> cg_receiverUsername = Some (or_receiverUsername r), cg_productName = Some (or_productName r),
       cg_storeName = Some (or_storeName r), cg_messageText = or_message r, cg_message = None, cg_mediaUrl = or_mediaUrl r,
       cg_mediaType = (if or_mediaType r \<in> {Some ''image'', Some ''video''} then or_mediaType r else None),
       cg_isAnonymous = or_isAnonymous r, cg_isSurprise = or_isSurprise r, cg_isFastDelivery = False, cg_storeCity = None,
       cg_productId = or_productId r, cg_storeId = or_storeId r, cg_occasionId = or_occasionId r \<rparr>"

definition created_id :: "CreatedGift \<Rightarrow> string" where
  "created_id c = (case c of Fresh v \<Rightarrow> gf_id v | Replayed v \<Rightarrow> gf_id (vg_gift v))"

definition gift_for_order :: "menv \<Rightarrow> Order \<Rightarrow> string \<Rightarrow> string \<Rightarrow> (market, CreatedGift) prog" where
  "gift_for_order e r viewerUserId providerPaymentId =
     attempt (create_gift e (gift_body r) viewerUserId None)
       (\<lambda>ex. seq (recordFailedPayment e r providerPaymentId) (\<lambda>_. raise ex))"

definition link_gift :: "menv \<Rightarrow> Order \<Rightarrow> string \<Rightarrow> string \<Rightarrow> (market, Order) prog" where
  "link_gift e r providerPaymentId giftId =
     transaction (
       seq (upsert_payment e r providerPaymentId ''paid''
              (\<lambda>p. p\<lparr> py_provider := or_paymentProvider r, py_providerPaymentId := Some providerPaymentId, py_status := ''paid'' \<rparr>)) (\<lambda>_.
       seq (reads (\<lambda>s. \<exists>x \<in> set (mk_orders s). or_giftId x = Some giftId \<and> or_id x \<noteq> or_id r)) (\<lambda>taken.
       seq (require (\<not> taken) (P2002 ''giftId'')) (\<lambda>_.
       write_order (or_id r) (\<lambda>x. x\<lparr> or_status := ''paid'', or_giftId := Some giftId \<rparr>)))))"

datatype Confirmation = AlreadyPaid Order Gift | NowPaid Order CreatedGift

definition paid_snapshot :: "Order option \<Rightarrow> market \<Rightarrow> (Order \<times> Gift) option" where
  "paid_snapshot read s = (case read of None \<Rightarrow> None
     | Some r \<Rightarrow> if or_status r = ''paid'' then map_option (Pair r) (gift_of r s) else None)"

definition return_paid :: "Order \<times> Gift \<Rightarrow> (market, Confirmation) prog" where
  "return_paid p = seq (ensureLedgerForPaidOrder (fst p)) (\<lambda>_. ret (AlreadyPaid (fst p) (snd p)))"

definition pay_order :: "menv \<Rightarrow> Order \<Rightarrow> string \<Rightarrow> (market, Confirmation) prog" where
  "pay_order e r viewerUserId =
     seq (charge_order e r) (\<lambda>providerPaymentId.
     seq (gift_for_order e r viewerUserId providerPaymentId) (\<lambda>gift.
     seq (link_gift e r providerPaymentId (created_id gift)) (\<lambda>updated.
     seq (ensureLedgerForPaidOrder updated) (\<lambda>_.
     ret (NowPaid updated gift)))))"

definition confirmMock :: "menv \<Rightarrow> string \<Rightarrow> string \<Rightarrow> (market, Confirmation) prog" where
  "confirmMock e orderId viewerUserId =
     seq (require (js_trim orderId \<noteq> []) (BadRequest ''orderId is required'')) (\<lambda>_.
     seq (load_order (js_trim orderId)) (\<lambda>r.
     seq (require (or_userId r = viewerUserId) (Forbidden ''forbidden'')) (\<lambda>_.
     seq (reads (paid_snapshot (Some r))) (\<lambda>finished.
     case finished of
       Some p \<Rightarrow> return_paid p
     | None \<Rightarrow>
         seq (require (validatePaymentProvider (Some (or_country r)) (Some (or_paymentProvider r)))
                (BadRequest ''Invalid payment provider for country'')) (\<lambda>_.
         seq (lock_order (or_id r)) (\<lambda>count.
         if count = 0
         then seq (reads (\<lambda>s. paid_snapshot (find (\<lambda>x. or_id x = or_id r) (mk_orders s)) s)) (\<lambda>refreshed.
              case refreshed of
                Some p \<Rightarrow> return_paid p
              | None \<Rightarrow> raise (BadRequest ''Order is not in a payable state''))
         else pay_order e r viewerUserId))))))"


section \<open>Sample rows\<close>

definition sample_paid_order :: Order where
  "sample_paid_order =
     \<lparr> or_id = ''o1'', or_orderNumber = ''QP-0000-0001'', or_userId = ''u1'', or_giftId = Some ''g1'', or_receiverUsername = ''noura'',
       or_productName = ''roses'', or_storeName = ''bloom'', or_productId = None, or_storeId = Some ''s1'', or_productPrice = 100,
       or_serviceFee = 15, or_deliveryFee = 0, or_totalAmount = 115, or_currency = ''SAR'', or_country = ''SA'',
       or_paymentProvider = ''mada'', or_message = None, or_mediaUrl = None, or_mediaType = None, or_isSurprise = False,
       or_isAnonymous = False, or_occasionId = None, or_status = ''paid'', or_createdAt = 0 \<rparr>"

end
