(* ===== verification/Payment_Flow.thy ===== *)
theory Payment_Flow
  imports Orders Frame_Rules
begin

text \<open>
  Concurrent confirmations of payments. The flow is the database with the confirmations under
  way, each in the phase it has reached; a step advances one of them by one phase, lets it die,
  places an order, or is any other program, which leaves orders, payments and captures alone.
  Whatever the interleaving, the gateway captures an order at most once, and a paid order has its
  gift and a payment of its total.
\<close>

section \<open>Steps\<close>

datatype call = Reading Order | Locked Order | Charged Order string | Gifted Order string string

fun order_of :: "call \<Rightarrow> Order" where
  "order_of (Reading r) = r"
| "order_of (Locked r) = r"
| "order_of (Charged r _) = r"
| "order_of (Gifted r _ _) = r"

fun holds_lock :: "call \<Rightarrow> bool" where
  "holds_lock (Reading _) = False"
| "holds_lock _ = True"

definition busy :: "string \<Rightarrow> call multiset \<Rightarrow> call multiset" where
  "busy i C = filter_mset (\<lambda>c. holds_lock c \<and> or_id (order_of c) = i) C"

text \<open>What every other handler leaves as it was: the tables of the payments, and that a gift exists.\<close>

definition aside :: "market \<Rightarrow> market \<Rightarrow> bool" where
  "aside s s' \<longleftrightarrow> mk_orders s' = mk_orders s \<and> mk_payments s' = mk_payments s \<and> mk_captures s' = mk_captures s
     \<and> gf_id ` set (mk_gifts s) \<subseteq> gf_id ` set (mk_gifts s')"

inductive flow :: "market \<Rightarrow> market \<Rightarrow> call multiset \<Rightarrow> bool" for s0 where
  start: "flow s0 s0 {#}"
| read: "flow s0 s C \<Longrightarrow> r \<in> set (mk_orders s) \<Longrightarrow> flow s0 s (add_mset (Reading r) C)"
| lock: "flow s0 s (add_mset (Reading r) C) \<Longrightarrow> lock_order (or_id r) s = (Inr n, s') \<Longrightarrow> n \<noteq> 0
    \<Longrightarrow> flow s0 s' (add_mset (Locked r) C)"
| charge: "flow s0 s (add_mset (Locked r) C) \<Longrightarrow> charge_order e r s = (Inr pid, s') \<Longrightarrow> flow s0 s' (add_mset (Charged r pid) C)"
| refuse: "flow s0 s (add_mset (Locked r) C) \<Longrightarrow> charge_order e r s = (Inl ex, s') \<Longrightarrow> flow s0 s' C"
| gift: "flow s0 s (add_mset (Charged r pid) C) \<Longrightarrow> gift_for_order e r u pid s = (Inr c, s')
    \<Longrightarrow> flow s0 s' (add_mset (Gifted r pid (created_id c)) C)"
| no_gift: "flow s0 s (add_mset (Charged r pid) C) \<Longrightarrow> gift_for_order e r u pid s = (Inl ex, s') \<Longrightarrow> flow s0 s' C"
| link: "flow s0 s (add_mset (Gifted r pid g) C) \<Longrightarrow> link_gift e r pid g s = (res, s') \<Longrightarrow> flow s0 s' C"
| die: "flow s0 s (add_mset c C) \<Longrightarrow> flow s0 s C"
| place: "flow s0 s C \<Longrightarrow> create_order e body u s = (res, s') \<Longrightarrow> flow s0 s' C"
| other: "flow s0 s C \<Longrightarrow> aside s s' \<Longrightarrow> flow s0 s' C"

section \<open>The invariant\<close>

definition captures_of :: "string \<Rightarrow> market \<Rightarrow> Capture list" where
  "captures_of i s = filter (\<lambda>c. cp_orderId c = i) (mk_captures s)"

text \<open>The columns of an order that no confirmation writes.\<close>

definition same_order :: "Order \<Rightarrow> Order \<Rightarrow> bool" where
  "same_order r r' \<longleftrightarrow> r'\<lparr> or_status := [], or_giftId := None \<rparr> = r\<lparr> or_status := [], or_giftId := None \<rparr>"

definition capture_of :: "Order \<Rightarrow> string \<Rightarrow> Capture" where
  "capture_of r pid = \<lparr> cp_orderId = or_id r, cp_providerPaymentId = pid, cp_amount = or_totalAmount r, cp_currency = or_currency r \<rparr>"

fun call_ok :: "string set \<Rightarrow> Capture list \<Rightarrow> call \<Rightarrow> bool" where
  "call_ok gifts caps (Reading r) = True"
| "call_ok gifts caps (Locked r) = (caps = [])"
| "call_ok gifts caps (Charged r pid) = (caps = [capture_of r pid])"
| "call_ok gifts caps (Gifted r pid g) = (caps = [capture_of r pid] \<and> g \<in> gifts)"

definition paid_ok :: "string set \<Rightarrow> Capture list \<Rightarrow> Payment option \<Rightarrow> Order \<Rightarrow> bool" where
  "paid_ok gifts caps pay r \<longleftrightarrow> (\<exists>pid p g. caps = [capture_of r pid] \<and> pay = Some p \<and> py_status p = ''paid''
     \<and> py_providerPaymentId p = Some pid \<and> py_amount p = or_totalAmount r \<and> py_currency p = or_currency r
     \<and> or_giftId r = Some g \<and> g \<in> gifts)"

definition order_ok :: "string set \<Rightarrow> Capture list \<Rightarrow> Payment option \<Rightarrow> call multiset \<Rightarrow> Order \<Rightarrow> bool" where
  "order_ok gifts caps pay calls r \<longleftrightarrow>
     (if or_status r = ''pending'' then caps = [] \<and> pay = None \<and> calls = {#}
      else if or_status r = ''processing''
      then length caps \<le> 1 \<and> pay = None \<and> (calls = {#} \<or> (\<exists>c. calls = {#c#} \<and> call_ok gifts caps c))
      else if or_status r = ''paid'' then paid_ok gifts caps pay r \<and> calls = {#}
      else length caps \<le> 1 \<and> calls = {#})"

definition gift_ids :: "market \<Rightarrow> string set" where
  "gift_ids s = gf_id ` set (mk_gifts s)"

definition flow_ok :: "market \<Rightarrow> call multiset \<Rightarrow> bool" where
  "flow_ok s C \<longleftrightarrow>
     distinct (map or_id (mk_orders s))
   \<and> (\<forall>r \<in> set (mk_orders s). order_ok (gift_ids s) (captures_of (or_id r) s) (payment_of (or_id r) s) (busy (or_id r) C) r)
   \<and> (\<forall>c \<in># C. \<exists>r \<in> set (mk_orders s). same_order (order_of c) r)
   \<and> cp_orderId ` set (mk_captures s) \<subseteq> or_id ` set (mk_orders s)
   \<and> py_orderId ` set (mk_payments s) \<subseteq> or_id ` set (mk_orders s)"

section \<open>Lemmas\<close>

lemma same_orderD: "same_order r r' \<Longrightarrow> or_id r' = or_id r \<and> or_totalAmount r' = or_totalAmount r \<and> or_currency r' = or_currency r"
  unfolding same_order_def
  by (drule arg_cong [where f = "\<lambda>r. (or_id r, or_totalAmount r, or_currency r)"]) simp

lemma same_order_refl [simp]: "same_order r r"
  by (simp add: same_order_def)

lemma same_order_trans: "same_order r r' \<Longrightarrow> same_order r' r'' \<Longrightarrow> same_order r r''"
  by (simp add: same_order_def)

lemma same_order_writes [simp]: "same_order r (r\<lparr> or_status := x \<rparr>)" "same_order r (r\<lparr> or_status := x, or_giftId := y \<rparr>)"
  by (simp_all add: same_order_def)

lemma capture_of_same: "same_order r r' \<Longrightarrow> capture_of r' pid = capture_of r pid"
  using same_orderD by (simp add: capture_of_def)

lemma busy_add [simp]: "busy i (add_mset c C) = (if holds_lock c \<and> or_id (order_of c) = i then add_mset c (busy i C) else busy i C)"
  by (simp add: busy_def)

lemma busy_empty [simp]: "busy i {#} = {#}"
  by (simp add: busy_def)

lemma call_ok_gifts: "call_ok G caps c \<Longrightarrow> G \<subseteq> G' \<Longrightarrow> call_ok G' caps c"
  by (cases c) auto

lemma order_ok_gifts: "order_ok G caps pay calls r \<Longrightarrow> G \<subseteq> G' \<Longrightarrow> order_ok G' caps pay calls r"
  unfolding order_ok_def paid_ok_def using call_ok_gifts by (auto split: if_splits)

lemma order_ok_dies: "order_ok G caps pay (add_mset c calls) r \<Longrightarrow> order_ok G caps pay calls r"
  by (auto simp: order_ok_def split: if_splits)


text \<open>A step that rewrites one order and leaves what belongs to the others.\<close>

lemma flow_ok_local:
  assumes ok: "flow_ok s C" and r: "r \<in> set (mk_orders s)" "or_id r = i"
    and orders: "mk_orders s' = update_where (\<lambda>x. or_id x = i) f (mk_orders s)" "same_order r (f r)"
    and others: "\<And>j. j \<noteq> i \<Longrightarrow> captures_of j s' = captures_of j s \<and> payment_of j s' = payment_of j s \<and> busy j C' = busy j C"
    and gifts: "gift_ids s \<subseteq> gift_ids s'"
    and one: "order_ok (gift_ids s') (captures_of i s') (payment_of i s') (busy i C') (f r)"
    and calls: "\<And>c. c \<in># C' \<Longrightarrow> c \<in># C \<or> same_order (order_of c) r"
    and caps: "cp_orderId ` set (mk_captures s') \<subseteq> insert i (cp_orderId ` set (mk_captures s))"
    and pays_for: "py_orderId ` set (mk_payments s') \<subseteq> insert i (py_orderId ` set (mk_payments s))"
  shows "flow_ok s' C'"
proof -
  have dist: "distinct (map or_id (mk_orders s))" using ok by (simp add: flow_ok_def)
  have only: "x = r" if "x \<in> set (mk_orders s)" "or_id x = i" for x
    using distinct_key_eq [OF dist that(1) r(1)] that r by simp
  have fid: "or_id (f r) = i" using same_orderD [OF orders(2)] r by simp
  have ids: "map or_id (mk_orders s') = map or_id (mk_orders s)"
    unfolding orders(1) by (rule map_update_where) (use only fid in auto)
  have idset: "or_id ` set (mk_orders s') = or_id ` set (mk_orders s)" using ids by (metis list.set_map)
  have "order_ok (gift_ids s') (captures_of (or_id x') s') (payment_of (or_id x') s') (busy (or_id x') C') x'"
    if "x' \<in> set (mk_orders s')" for x'
  proof -
    from that obtain x where x: "x \<in> set (mk_orders s)" "or_id x = i \<and> x' = f x \<or> or_id x \<noteq> i \<and> x' = x"
      by (auto simp: orders(1) in_update_where)
    then consider "x = r" "x' = f r" | "or_id x \<noteq> i" "x' = x" using only by blast
    then show ?thesis
    proof cases
      case 1
      with one fid show ?thesis by simp
    next
      case 2
      from ok x(1) have "order_ok (gift_ids s) (captures_of (or_id x) s) (payment_of (or_id x) s) (busy (or_id x) C) x"
        by (simp add: flow_ok_def)
      with order_ok_gifts [OF this gifts] others [OF 2(1)] 2(2) show ?thesis by simp
    qed
  qed
  moreover have "\<exists>x' \<in> set (mk_orders s'). same_order (order_of c) x'" if "c \<in># C'" for c
  proof -
    from calls [OF that] ok r(1) obtain x where x: "x \<in> set (mk_orders s)" "same_order (order_of c) x"
      by (auto simp: flow_ok_def)
    show ?thesis
    proof (cases "or_id x = i")
      case True
      with only x r orders show ?thesis
        by (metis in_update_where same_order_trans)
    next
      case False
      with x(1) have "x \<in> set (mk_orders s')" unfolding orders(1) in_update_where by blast
      with x(2) show ?thesis by blast
    qed
  qed
  moreover have "i \<in> or_id ` set (mk_orders s)" using r by auto
  with ok caps pays_for have "cp_orderId ` set (mk_captures s') \<subseteq> or_id ` set (mk_orders s')"
    "py_orderId ` set (mk_payments s') \<subseteq> or_id ` set (mk_orders s')"
    unfolding flow_ok_def idset by (meson insert_subset order_trans)+
  moreover have "distinct (map or_id (mk_orders s'))" using dist ids by simp
  ultimately show ?thesis unfolding flow_ok_def by simp
qed

text \<open>A step that leaves the orders and what belongs to them.\<close>

lemma flow_ok_aside: "flow_ok s C \<Longrightarrow> aside s s' \<Longrightarrow> flow_ok s' C"
proof -
  assume ok: "flow_ok s C" and a: "aside s s'"
  then have "gift_ids s \<subseteq> gift_ids s'" by (simp add: aside_def gift_ids_def)
  with ok a show ?thesis
    unfolding flow_ok_def aside_def captures_of_def payment_of_def
    by (auto intro: order_ok_gifts)
qed

text \<open>The order a call is about, as it is now.\<close>

lemma call_order:
  assumes "flow_ok s (add_mset c C)"
  obtains r where "r \<in> set (mk_orders s)" "same_order (order_of c) r" "or_id r = or_id (order_of c)"
    "order_ok (gift_ids s) (captures_of (or_id r) s) (payment_of (or_id r) s) (busy (or_id r) (add_mset c C)) r"
proof -
  have "c \<in># add_mset c C" by simp
  with assms obtain r where r: "r \<in> set (mk_orders s)" "same_order (order_of c) r" unfolding flow_ok_def by blast
  have "order_ok (gift_ids s) (captures_of (or_id r) s) (payment_of (or_id r) s) (busy (or_id r) (add_mset c C)) r"
    using assms r(1) unfolding flow_ok_def by blast
  with r same_orderD [OF r(2)] that show ?thesis by blast
qed


section \<open>What the phases write\<close>

definition new_payment :: "menv \<Rightarrow> Order \<Rightarrow> string \<Rightarrow> string \<Rightarrow> Payment" where
  "new_payment e r pid status =
     \<lparr> py_id = en_uuid e 2, py_orderId = or_id r, py_provider = or_paymentProvider r, py_providerPaymentId = Some pid,
       py_amount = or_totalAmount r, py_currency = or_currency r, py_status = status \<rparr>"

text \<open>One order's payment rewritten or added, nothing else.\<close>

definition pays_for :: "string \<Rightarrow> market \<Rightarrow> market \<Rightarrow> bool" where
  "pays_for i s s' \<longleftrightarrow> mk_orders s' = mk_orders s \<and> mk_captures s' = mk_captures s \<and> mk_gifts s' = mk_gifts s
     \<and> (\<forall>j. j \<noteq> i \<longrightarrow> payment_of j s' = payment_of j s)
     \<and> py_orderId ` set (mk_payments s') \<subseteq> insert i (py_orderId ` set (mk_payments s))"

lemma find_append_other: "find p (t @ [x]) = (if find p t = None then if p x then Some x else None else find p t)"
  by (induction t) auto

lemma upsert_pays:
  assumes "\<And>p. py_orderId (f p) = py_orderId p"
  obtains s' where "upsert_payment e r pid status f s = (Inr (), s')" "pays_for (or_id r) s s'"
    "payment_of (or_id r) s = None \<Longrightarrow> payment_of (or_id r) s' = Some (new_payment e r pid status)"
proof (cases "payment_of (or_id r) s")
  case None
  let ?s' = "mk_payments_update (\<lambda>t. t @ [new_payment e r pid status]) s"
  have "upsert_payment e r pid status f s = (Inr (), ?s')"
    by (simp add: upsert_payment_def None new_payment_def)
  moreover have "pays_for (or_id r) s ?s'"
    by (simp add: pays_for_def payment_of_def find_append_other new_payment_def)
  moreover have "payment_of (or_id r) ?s' = Some (new_payment e r pid status)"
    using None by (simp add: payment_of_def find_append_other new_payment_def)
  ultimately show ?thesis using that None by simp
next
  case (Some q)
  let ?s' = "mk_payments_update (update_where (\<lambda>p. py_orderId p = or_id r) f) s"
  have "upsert_payment e r pid status f s = (Inr (), ?s')"
    by (simp add: upsert_payment_def Some seq_def)
  moreover have "pays_for (or_id r) s ?s'"
  proof -
    have "payment_of j ?s' = payment_of j s" if "j \<noteq> or_id r" for j
      using that assms by (auto simp: payment_of_def find_update_where dest!: find_in_set split: option.splits)
        (cases "find (\<lambda>p. py_orderId p = j) (mk_payments s)"; auto dest!: find_in_set)
    moreover have "py_orderId ` set (update_where (\<lambda>p. py_orderId p = or_id r) f (mk_payments s)) \<subseteq> py_orderId ` set (mk_payments s)"
      using assms by (auto simp: set_update_where image_iff)
    ultimately show ?thesis by (auto simp: pays_for_def)
  qed
  ultimately show ?thesis using that Some by simp
qed

lemma write_order_run:
  assumes "r \<in> set (mk_orders s)" "or_id r = i"
  obtains x where "write_order i f s = (Inr x, mk_orders_update (update_where (\<lambda>x. or_id x = i) f) s)"
proof -
  from assms obtain x where "find (\<lambda>x. or_id x = i) (mk_orders s) = Some x"
    by (cases "find (\<lambda>x. or_id x = i) (mk_orders s)") (auto simp: find_None_iff)
  then show ?thesis using that by (simp add: write_order_def update_row_def)
qed

lemma fail_run:
  assumes "r \<in> set (mk_orders s)" "or_id r = or_id r0"
  obtains s1 where "pays_for (or_id r0) s s1"
    "recordFailedPayment e r0 pid s = (Inr (), mk_orders_update (update_where (\<lambda>x. or_id x = or_id r0) (\<lambda>x. x\<lparr> or_status := ''failed'' \<rparr>)) s1)"
proof -
  obtain s1 where s1: "upsert_payment e r0 pid ''failed'' (\<lambda>p. p\<lparr> py_providerPaymentId := Some pid, py_status := ''failed'' \<rparr>) s = (Inr (), s1)"
    "pays_for (or_id r0) s s1" by (rule upsert_pays [of "\<lambda>p. p\<lparr> py_providerPaymentId := Some pid, py_status := ''failed'' \<rparr>"]) auto
  then have "r \<in> set (mk_orders s1)" using assms by (simp add: pays_for_def)
  then obtain x where "write_order (or_id r0) (\<lambda>x. x\<lparr> or_status := ''failed'' \<rparr>) s1
      = (Inr x, mk_orders_update (update_where (\<lambda>x. or_id x = or_id r0) (\<lambda>x. x\<lparr> or_status := ''failed'' \<rparr>)) s1)"
    using write_order_run [OF _ assms(2)] by metis
  with s1 show ?thesis using that by (simp add: recordFailedPayment_def transaction_def)
qed

text \<open>An order that fails: whatever was captured stays, and nobody works on it any more.\<close>

lemma flow_ok_fails:
  assumes ok: "flow_ok s (add_mset c C)" and lock: "holds_lock c" and caps: "length (captures_of (or_id (order_of c)) s) \<le> 1"
    and run: "recordFailedPayment e (order_of c) pid s = (x, s')"
  shows "flow_ok s' C"
proof -
  let ?i = "or_id (order_of c)"
  from call_order [OF ok] obtain r where r: "r \<in> set (mk_orders s)" "same_order (order_of c) r" "or_id r = ?i"
    "order_ok (gift_ids s) (captures_of ?i s) (payment_of ?i s) (busy ?i (add_mset c C)) r" by metis
  from r(4) lock have calls: "busy ?i C = {#}" by (auto simp: order_ok_def split: if_splits)
  obtain s1 where s1: "pays_for ?i s s1"
    "recordFailedPayment e (order_of c) pid s = (Inr (), mk_orders_update (update_where (\<lambda>x. or_id x = ?i) (\<lambda>x. x\<lparr> or_status := ''failed'' \<rparr>)) s1)"
    using fail_run [OF r(1,3)] by metis
  then have s': "s' = mk_orders_update (update_where (\<lambda>x. or_id x = ?i) (\<lambda>x. x\<lparr> or_status := ''failed'' \<rparr>)) s1" using run by simp
  show ?thesis
    by (rule flow_ok_local [OF ok r(1,3), where f = "\<lambda>x. x\<lparr> or_status := ''failed'' \<rparr>"])
       (use s1(1) caps calls in \<open>auto simp: s' pays_for_def captures_of_def payment_of_def gift_ids_def order_ok_def busy_def\<close>)
qed


section \<open>The other handlers stay aside\<close>

lemma aside_refl [simp]: "aside s s"
  by (simp add: aside_def)

lemma aside_trans: "aside s s' \<Longrightarrow> aside s' s'' \<Longrightarrow> aside s s''"
  by (auto simp: aside_def)

lemma staysI:
  assumes "\<And>s. aside s (snd (m s))"
  shows "keeps (aside s0) m"
  unfolding keeps_def
proof (intro allI impI)
  fix s assume "aside s0 s"
  from aside_trans [OF this assms] show "aside s0 (snd (m s))" .
qed

lemma aside_run: "(\<And>s0. keeps (aside s0) m) \<Longrightarrow> m s = (x, s') \<Longrightarrow> aside s s'"
  by (rule keepsD [where I = "aside s", OF _ aside_refl])

lemma keeps_swallowed [keeps_intros]: "keeps I m \<Longrightarrow> keeps I (swallow m)"
  unfolding swallow_def by (intro keeps_intros)

lemma keeps_aside_notify [keeps_intros]: "keeps (aside s0) (notify u k t b l)"
  by (rule staysI) (simp add: notify_def aside_def)

lemma keeps_aside_create_gift_row [keeps_intros]: "keeps (aside s0) (create mk_gifts mk_gifts_update clash g)"
  by (rule staysI) (auto simp: create_def aside_def)

lemma keeps_aside_update_product [keeps_intros]: "keeps (aside s0) (update_row mk_products mk_products_update p f)"
  by (rule staysI) (simp add: update_row_def aside_def split: option.split)

lemma keeps_aside_update_wish [keeps_intros]: "keeps (aside s0) (updateMany mk_wishes mk_wishes_update p f)"
  by (rule staysI) (simp add: aside_def)

lemma keeps_aside_attempts [keeps_intros]: "keeps (aside s0) (writes (mk_attempts_update f))"
  by (rule staysI) (simp add: aside_def)

lemma keeps_case_sum [keeps_intros]:
  "(\<And>x. keeps I (f x)) \<Longrightarrow> (\<And>y. keeps I (g y)) \<Longrightarrow> keeps I (case r of Inl x \<Rightarrow> f x | Inr y \<Rightarrow> g y)"
  by (cases r) simp_all

lemma keeps_aside_ledger [keeps_intros]: "keeps (aside s0) (market_ledger_record i)"
  by (rule staysI) (simp add: market_ledger_record_def on_table_def aside_def split: prod.split)

lemma gift_creation_aside: "keeps (aside s0) (create_gift e body v key)"
  unfolding create_gift_def prepare_gift_def place_gift_def gift_created_def replay_gift_def visible_gift_def insert_gift_def
    resolve_receiver_def refuse_without_address_def product_store_def fulfil_wish_def count_gifted_def Let_def
  by (intro keeps_intros)

lemma ensure_ledger_aside: "keeps (aside s0) (ensureLedgerForPaidOrder r)"
  unfolding ensureLedgerForPaidOrder_def post_leg_def by (intro keeps_intros)

lemma insert_gift_run: "insert_gift g s = (Inr x, s') \<Longrightarrow> x = g \<and> gf_id g \<in> gift_ids s'"
  by (auto simp: insert_gift_def prog_iff gift_ids_def)

lemma gift_created_run:
  assumes "gift_created e g s = (Inr c, s')" "gf_id g \<in> gift_ids s"
  shows "created_id c \<in> gift_ids s'"
proof -
  have "keeps (aside s0) (gift_created e g)" for s0
    unfolding gift_created_def fulfil_wish_def count_gifted_def by (intro keeps_intros)
  from aside_run [OF this assms(1)] assms(2) have "gf_id g \<in> gift_ids s'" by (auto simp: aside_def gift_ids_def)
  moreover from assms(1) obtain t where "c = Fresh (gift_view t g)"
    by (auto simp: gift_created_def seq_iff reads_iff)
  ultimately show ?thesis by (simp add: created_id_def gift_view_def Gift.defs)
qed

lemma create_gift_run:
  assumes "create_gift e body v None s = (Inr c, s')"
  shows "created_id c \<in> gift_ids s'"
proof -
  from assms obtain g t where "place_gift e None (computeGiftRequestHash (en_sha e) body) g t = (Inr c, s')"
    by (auto simp: create_gift_def seq_iff reads_iff trimmed_or_null_def Let_def split: prod.splits)
  then obtain r t' where r: "attempt (seq (insert_gift g) (\<lambda>r. ret (Inr r))) (\<lambda>ex. raise ex) t = (Inr r, t')"
    "(case r of Inl c \<Rightarrow> ret c | Inr g \<Rightarrow> gift_created e g) t' = (Inr c, s')"
    by (auto simp: place_gift_def seq_iff)
  then have "r = Inr g \<and> gf_id g \<in> gift_ids t'"
    using insert_gift_run by (auto simp: attempt_def seq_def split: prod.splits sum.splits)
  with r(2) gift_created_run show ?thesis by simp
qed


section \<open>Placing an order\<close>

definition placed :: "market \<Rightarrow> market \<Rightarrow> bool" where
  "placed s s' \<longleftrightarrow> s' = s \<or> (\<exists>row. s' = mk_orders_update (\<lambda>t. t @ [row]) s \<and> or_status row = ''pending''
     \<and> (\<forall>r \<in> set (mk_orders s). or_id r \<noteq> or_id row))"

lemma order_attempts_placed:
  assumes "\<And>k. or_status (row k) = ''pending''"
  shows "placed s (snd (order_attempts n e k row s))"
proof (induction n arbitrary: k)
  case 0
  then show ?case using assms
    by (auto simp: placed_def seq_def attempt_def create_def order_clash_def split: sum.split)
next
  case (Suc n)
  show ?case
  proof (cases "allocateReference QP (\<lambda>c. \<exists>r \<in> set (mk_orders s). or_orderNumber r = c) (en_draw e k)")
    case (Inl ex)
    then show ?thesis by (simp add: placed_def seq_def)
  next
    case (Inr num)
    show ?thesis
    proof (cases "\<exists>r' \<in> set (mk_orders s). order_clash (row num) r'")
      case True
      then have "create mk_orders mk_orders_update order_clash (row num) s = (Inl (P2002 ''unique''), s)"
        by (simp add: create_def)
      then show ?thesis using Suc Inr by (simp add: seq_def attempt_def is_P2002_def)
    next
      case False
      then have "create mk_orders mk_orders_update order_clash (row num) s = (Inr (row num), mk_orders_update (\<lambda>t. t @ [row num]) s)"
        by (simp add: create_def)
      then show ?thesis using assms Inr False
        by (auto simp: placed_def seq_def attempt_def order_clash_def)
    qed
  qed
qed

lemma still_if [simp]: "still m \<Longrightarrow> still n \<Longrightarrow> still (if b then m else n)"
  by simp

lemma resolve_receiver_still [simp]: "still (resolve_receiver u k)"
  unfolding resolve_receiver_def by (intro still_seq) simp_all

lemma checkAvailability_still [simp]: "still (checkAvailability p)"
  unfolding checkAvailability_def by (intro still_if still_seq) simp_all

lemma placed_step:
  assumes "still m" "\<And>x. placed s (snd (k x s))"
  shows "placed s (snd (seq m k s))"
  by (rule still_step [where Q = "placed s", OF assms(1)]) (simp_all add: placed_def [of s s] assms(2))

lemma placed_prod: "(\<And>a b. placed s (snd (f a b s))) \<Longrightarrow> placed s (snd ((case p of (a, b) \<Rightarrow> f a b) s))"
  by (cases p) simp

lemma create_order_placed: "create_order e body u s = (res, s') \<Longrightarrow> placed s s'"
proof -
  have "placed s (snd (create_order e body u s))"
    unfolding create_order_def Let_def
    by (intro placed_step placed_prod order_attempts_placed still_if still_seq) (simp_all add: new_order_def)
  then show "create_order e body u s = (res, s') \<Longrightarrow> placed s s'" by simp
qed

lemma flow_ok_placed:
  assumes ok: "flow_ok s C" and step: "placed s s'"
  shows "flow_ok s' C"
proof (cases "s' = s")
  case False
  with step obtain row where row: "s' = mk_orders_update (\<lambda>t. t @ [row]) s" "or_status row = ''pending''"
    "\<And>r. r \<in> set (mk_orders s) \<Longrightarrow> or_id r \<noteq> or_id row" by (auto simp: placed_def)
  have "captures_of (or_id row) s = []"
    using ok row(3) by (auto simp: captures_of_def filter_empty_conv flow_ok_def image_subset_iff)
  moreover have "payment_of (or_id row) s = None"
    using ok row(3) by (auto simp: payment_of_def find_None_iff flow_ok_def image_subset_iff)
  moreover have "busy (or_id row) C = {#}"
    using ok row(3) same_orderD by (fastforce simp: busy_def filter_mset_eq_mempty_iff flow_ok_def)
  ultimately have "order_ok (gift_ids s) (captures_of (or_id row) s) (payment_of (or_id row) s) (busy (or_id row) C) row"
    using row(2) by (simp add: order_ok_def)
  moreover have "or_id row \<notin> or_id ` set (mk_orders s)" using row(3) by force
  ultimately show ?thesis
    using ok unfolding row(1) by (auto simp: flow_ok_def captures_of_def payment_of_def gift_ids_def)
qed (use ok in simp)

section \<open>Preservation\<close>

text \<open>A call moves on to its next phase, or ends.\<close>

lemma busy_other: "or_id (order_of c) \<noteq> j \<Longrightarrow> busy j (add_mset c C) = busy j C"
  by simp

lemma locked_order:
  assumes "flow_ok s (add_mset c C)" "holds_lock c"
  obtains r where "r \<in> set (mk_orders s)" "same_order (order_of c) r" "or_id r = or_id (order_of c)"
    "or_status r = ''processing''" "payment_of (or_id r) s = None" "busy (or_id r) C = {#}"
    "call_ok (gift_ids s) (captures_of (or_id r) s) c"
proof -
  from call_order [OF assms(1)] obtain r where r: "r \<in> set (mk_orders s)" "same_order (order_of c) r"
    "or_id r = or_id (order_of c)"
    "order_ok (gift_ids s) (captures_of (or_id r) s) (payment_of (or_id r) s) (busy (or_id r) (add_mset c C)) r" by blast
  then have "or_status r = ''processing''" "payment_of (or_id r) s = None" "busy (or_id r) C = {#}"
    "call_ok (gift_ids s) (captures_of (or_id r) s) c"
    using assms(2) by (auto simp: order_ok_def split: if_splits)
  with r that show ?thesis by blast
qed

lemma update_where_id [simp]: "update_where p (\<lambda>x. x) t = t"
  by (simp add: update_where_def)

lemma flow_ok_lock:
  assumes ok: "flow_ok s (add_mset (Reading r0) C)" and run: "lock_order (or_id r0) s = (Inr n, s')" "n \<noteq> 0"
  shows "flow_ok s' (add_mset (Locked r0) C)"
proof -
  let ?i = "or_id r0"
  let ?f = "\<lambda>x. if or_status x = ''pending'' then x\<lparr> or_status := ''processing'' \<rparr> else x"
  from call_order [OF ok] obtain r where r: "r \<in> set (mk_orders s)" "same_order r0 r" "or_id r = ?i"
    "order_ok (gift_ids s) (captures_of ?i s) (payment_of ?i s) (busy ?i C) r" by (metis busy_add holds_lock.simps(1) order_of.simps(1))
  from run have "filter (\<lambda>x. or_id x = ?i \<and> or_status x = ''pending'') (mk_orders s) \<noteq> []"
    by (auto simp: lock_order_def count_where_def)
  then obtain x where "x \<in> set (mk_orders s)" "or_id x = ?i" "or_status x = ''pending''" by (auto simp: filter_empty_conv)
  moreover have "distinct (map or_id (mk_orders s))" using ok by (simp add: flow_ok_def)
  ultimately have pending: "or_status r = ''pending''" using distinct_key_eq [of or_id "mk_orders s" x r] r by auto
  have s': "s' = mk_orders_update (update_where (\<lambda>x. or_id x = ?i) ?f) s"
    using run(1) by (auto simp: lock_order_def update_where_def intro!: arg_cong [where f = "\<lambda>g. mk_orders_update g s"])
  show ?thesis
    by (rule flow_ok_local [OF ok r(1,3), where f = ?f])
       (use r pending in \<open>auto simp: s' order_ok_def captures_of_def payment_of_def gift_ids_def\<close>)
qed

lemma flow_ok_charge:
  assumes ok: "flow_ok s (add_mset (Locked r0) C)" and run: "charge_order e r0 s = (Inr pid, s')"
  shows "flow_ok s' (add_mset (Charged r0 pid) C)"
proof -
  from locked_order [OF ok] obtain r where r: "r \<in> set (mk_orders s)" "same_order r0 r" "or_id r = or_id r0"
    "or_status r = ''processing''" "payment_of (or_id r) s = None" "busy (or_id r) C = {#}" "captures_of (or_id r) s = []" by auto
  have s': "s' = mk_captures_update (\<lambda>t. t @ [capture_of r0 pid]) s"
  proof (cases "me_paid e (or_id r0)")
    case False
    obtain s1 where "recordFailedPayment e r0 (mock_initiate e (or_paymentProvider r0)) s = (Inr (), s1)"
      using fail_run [OF r(1,3)] by metis
    with run False show ?thesis by (simp add: charge_order_def seq_def)
  qed (use run in \<open>auto simp: charge_order_def Let_def seq_def capture_of_def\<close>)
  show ?thesis
    by (rule flow_ok_local [OF ok r(1,3), where f = "\<lambda>x. x"])
       (use r in \<open>auto simp: s' order_ok_def captures_of_def payment_of_def gift_ids_def capture_of_def\<close>)
qed

lemma flow_ok_refuse:
  assumes ok: "flow_ok s (add_mset (Locked r0) C)" and run: "charge_order e r0 s = (Inl ex, s')"
  shows "flow_ok s' C"
proof -
  from locked_order [OF ok] obtain r where r: "r \<in> set (mk_orders s)" "or_id r = or_id r0" "captures_of (or_id r) s = []" by auto
  obtain x s1 where x: "recordFailedPayment e r0 (mock_initiate e (or_paymentProvider r0)) s = (x, s1)" by fastforce
  with run have "s' = s1" by (auto simp: charge_order_def Let_def seq_def split: if_splits sum.splits)
  with flow_ok_fails [OF ok, of e _ x s1] x r show ?thesis by simp
qed


lemma flow_ok_renames:
  assumes ok: "flow_ok s (add_mset c C)" and locks: "holds_lock c" "holds_lock c'" "order_of c' = order_of c"
    and call: "\<forall>caps. call_ok (gift_ids s) caps c \<longrightarrow> call_ok (gift_ids s) caps c'"
  shows "flow_ok s (add_mset c' C)"
proof -
  from locked_order [OF ok locks(1)] obtain r where r: "r \<in> set (mk_orders s)" "same_order (order_of c) r"
    "or_id r = or_id (order_of c)" "or_status r = ''processing''" "payment_of (or_id r) s = None" "busy (or_id r) C = {#}"
    "call_ok (gift_ids s) (captures_of (or_id r) s) c" by blast
  have caps: "length (captures_of (or_id r) s) \<le> 1" using r(7) locks(1) by (cases c) auto
  show ?thesis
    by (rule flow_ok_local [OF ok r(1,3), where f = "\<lambda>x. x"])
       (use r locks caps call in \<open>auto simp: order_ok_def\<close>)
qed

lemma flow_ok_gift:
  assumes ok: "flow_ok s (add_mset (Charged r0 pid) C)" and run: "gift_for_order e r0 u pid s = (Inr c, s')"
  shows "flow_ok s' (add_mset (Gifted r0 pid (created_id c)) C)"
proof -
  have made: "create_gift e (gift_body r0) u None s = (Inr c, s')"
    using run by (auto simp: gift_for_order_def attempt_def seq_def split: prod.splits sum.splits)
  have "aside s s'" by (rule aside_run [OF gift_creation_aside made])
  from flow_ok_renames [OF flow_ok_aside [OF ok this], of "Gifted r0 pid (created_id c)"] create_gift_run [OF made]
  show ?thesis by simp
qed

lemma flow_ok_no_gift:
  assumes ok: "flow_ok s (add_mset (Charged r0 pid) C)" and run: "gift_for_order e r0 u pid s = (Inl ex, s')"
  shows "flow_ok s' C"
proof -
  obtain y s1 where made: "create_gift e (gift_body r0) u None s = (y, s1)" by fastforce
  with run obtain ex' where y: "y = Inl ex'" by (cases y) (auto simp: gift_for_order_def attempt_def)
  obtain x s2 where x: "recordFailedPayment e r0 pid s1 = (x, s2)" by fastforce
  with run made y have s': "s' = s2"
    by (auto simp: gift_for_order_def attempt_def seq_def split: prod.splits sum.splits)
  have ok1: "flow_ok s1 (add_mset (Charged r0 pid) C)"
    by (rule flow_ok_aside [OF ok aside_run [OF gift_creation_aside made]])
  have "captures_of (or_id r0) s1 = [capture_of r0 pid]" by (rule locked_order [OF ok1]) auto
  with flow_ok_fails [OF ok1, of e pid x s2] x s' show ?thesis by simp
qed

lemma flow_ok_die: "flow_ok s (add_mset c C) \<Longrightarrow> flow_ok s C"
proof -
  assume ok: "flow_ok s (add_mset c C)"
  have "order_ok (gift_ids s) (captures_of (or_id r) s) (payment_of (or_id r) s) (busy (or_id r) C) r"
    if "r \<in> set (mk_orders s)" for r
  proof -
    from ok that have o: "order_ok (gift_ids s) (captures_of (or_id r) s) (payment_of (or_id r) s) (busy (or_id r) (add_mset c C)) r"
      unfolding flow_ok_def by blast
    show ?thesis
      using o order_ok_dies [of _ _ _ c "busy (or_id r) C" r] by (cases "holds_lock c \<and> or_id (order_of c) = or_id r") (simp_all add: busy_def)
  qed
  moreover have "\<exists>r \<in> set (mk_orders s). same_order (order_of d) r" if "d \<in># C" for d
  proof -
    from that have "d \<in># add_mset c C" by simp
    with ok show ?thesis unfolding flow_ok_def by blast
  qed
  ultimately show ?thesis using ok unfolding flow_ok_def by simp
qed

lemma flow_ok_link:
  assumes ok: "flow_ok s (add_mset (Gifted r0 pid g) C)" and run: "link_gift e r0 pid g s = (res, s')"
  shows "flow_ok s' C"
proof -
  let ?i = "or_id r0"
  let ?p = "\<lambda>p. p\<lparr> py_provider := or_paymentProvider r0, py_providerPaymentId := Some pid, py_status := ''paid'' \<rparr>"
  let ?f = "\<lambda>x. x\<lparr> or_status := ''paid'', or_giftId := Some g \<rparr>"
  from locked_order [OF ok] obtain r where r: "r \<in> set (mk_orders s)" "same_order r0 r" "or_id r = ?i"
    "or_status r = ''processing''" "payment_of ?i s = None" "busy ?i C = {#}" "captures_of ?i s = [capture_of r0 pid]"
    "g \<in> gift_ids s" by auto
  obtain s1 where s1: "upsert_payment e r0 pid ''paid'' ?p s = (Inr (), s1)" "pays_for ?i s s1"
    "payment_of ?i s1 = Some (new_payment e r0 pid ''paid'')"
    by (rule upsert_pays [of ?p e r0 pid "''paid''" s]) (use r(5) in auto)
  have r1: "r \<in> set (mk_orders s1)" using r s1(2) by (simp add: pays_for_def)
  obtain x where x: "write_order ?i ?f s1 = (Inr x, mk_orders_update (update_where (\<lambda>x. or_id x = ?i) ?f) s1)"
    by (rule write_order_run [OF r1 r(3)])
  show ?thesis
  proof (cases "\<exists>x \<in> set (mk_orders s1). or_giftId x = Some g \<and> or_id x \<noteq> ?i")
    case True
    then have "link_gift e r0 pid g s = (Inl (P2002 ''giftId''), s)"
      using s1(1) by (auto simp: link_gift_def transaction_def seq_def require_def)
    with run flow_ok_die [OF ok] show ?thesis by simp
  next
    case False
    then have s': "s' = mk_orders_update (update_where (\<lambda>x. or_id x = ?i) ?f) s1"
      using run s1(1) x by (auto simp: link_gift_def transaction_def seq_def)
    show ?thesis
      by (rule flow_ok_local [OF ok r(1,3), where f = ?f])
         (use r s1 same_orderD [OF r(2)] in \<open>auto simp: s' pays_for_def captures_of_def payment_of_def gift_ids_def
            order_ok_def paid_ok_def capture_of_def new_payment_def\<close>)
  qed
qed

theorem flow_invariant: "flow s0 s C \<Longrightarrow> flow_ok s0 {#} \<Longrightarrow> flow_ok s C"
proof (induction rule: flow.induct)
  case (read s C r)
  then have ok: "flow_ok s C" by simp
  have "busy i (add_mset (Reading r) C) = busy i C" for i by simp
  moreover have "same_order (order_of (Reading r)) r" by simp
  ultimately show ?case using ok read.hyps(2) unfolding flow_ok_def by (auto simp del: order_of.simps busy_add)
qed (blast intro: flow_ok_lock flow_ok_charge flow_ok_refuse flow_ok_gift flow_ok_no_gift flow_ok_link flow_ok_die
    flow_ok_placed create_order_placed flow_ok_aside)+


section \<open>Whole confirmations\<close>

lemma load_order_run: "load_order i s = (x, s') \<Longrightarrow> s' = s \<and> (\<forall>r. x = Inr r \<longrightarrow> r \<in> set (mk_orders s))"
  by (cases "find (\<lambda>r. or_id r = i) (mk_orders s)") (auto simp: load_order_def seq_def dest: find_in_set)

lemma lock_none: "lock_order i s = (Inr 0, s') \<Longrightarrow> s' = s"
  by (auto simp: lock_order_def count_where_def filter_empty_conv update_where_def map_idI
      intro!: arg_cong [where f = "\<lambda>t. mk_orders_update (\<lambda>_. t) s" and y = "mk_orders s", THEN trans])

lemma flow_pay:
  assumes "flow s0 s (add_mset (Locked r) C)" "pay_order e r u s = (res, s')"
  shows "flow s0 s' C"
proof (cases "charge_order e r s")
  case (Pair x s1)
  show ?thesis
  proof (cases x)
    case (Inl ex)
    with Pair assms show ?thesis by (auto simp: pay_order_def intro: flow.refuse)
  next
    case (Inr pid)
    with Pair assms(1) have f1: "flow s0 s1 (add_mset (Charged r pid) C)" by (auto intro: flow.charge)
    obtain y s2 where y: "gift_for_order e r u pid s1 = (y, s2)" by fastforce
    show ?thesis
    proof (cases y)
      case (Inl ex)
      with f1 y have "flow s0 s2 C" by (auto intro: flow.no_gift)
      with Inl Pair y \<open>x = Inr pid\<close> assms(2) show ?thesis by (auto simp: pay_order_def)
    next
      case (Inr c)
      with f1 y have f2: "flow s0 s2 (add_mset (Gifted r pid (created_id c)) C)" by (auto intro: flow.gift)
      obtain z s3 where z: "link_gift e r pid (created_id c) s2 = (z, s3)" by fastforce
      from f2 z have f3: "flow s0 s3 C" by (rule flow.link)
      show ?thesis
      proof (cases z)
        case (Inl ex)
        with z y Inr Pair \<open>x = Inr pid\<close> assms(2) f3 show ?thesis by (auto simp: pay_order_def)
      next
        case (Inr r')
        obtain w s4 where w: "ensureLedgerForPaidOrder r' s3 = (w, s4)" by fastforce
        with f3 have "flow s0 s4 C" by (rule flow.other [OF _ aside_run [OF ensure_ledger_aside]])
        moreover have "s' = s4"
          using w z Inr y \<open>y = Inr c\<close> Pair \<open>x = Inr pid\<close> assms(2) by (cases w) (auto simp: pay_order_def)
        ultimately show ?thesis by simp
      qed
    qed
  qed
qed

lemma return_paid_aside: "keeps (aside s0) (return_paid p)"
  unfolding return_paid_def by (intro keeps_intros ensure_ledger_aside)

lemma flow_confirm:
  assumes start: "flow s0 s C" and run: "confirmMock e i u s = (res, s')"
  shows "flow s0 s' C"
proof (cases "load_order (js_trim i) s")
  case (Pair x t)
  from load_order_run [OF Pair] have t: "t = s" "\<And>r. x = Inr r \<Longrightarrow> r \<in> set (mk_orders s)" by auto
  show ?thesis
  proof (cases "js_trim i \<noteq> [] \<and> (\<exists>r. x = Inr r \<and> or_userId r = u)")
    case False
    then have "s' = s"
      using run Pair t(1) by (cases "js_trim i = []"; cases x) (simp_all add: confirmMock_def seq_def)
    with start show ?thesis by simp
  next
    case True
    then obtain r where r: "x = Inr r" "or_userId r = u" "js_trim i \<noteq> []" by blast
    have paid: "flow s0 s'' C" if "flow s0 s1 C" "return_paid p s1 = (y, s'')" for p y s1 s''
      by (rule flow.other [OF that(1) aside_run [OF return_paid_aside that(2)]])
    show ?thesis
    proof (cases "paid_snapshot (Some r) s")
      case (Some p)
      with run Pair r t(1) have "return_paid p s = (res, s')" by (simp add: confirmMock_def seq_def)
      with paid start show ?thesis .
    next
      case None
      show ?thesis
      proof (cases "validatePaymentProvider (Some (or_country r)) (Some (or_paymentProvider r))")
        case False
        with run Pair r t(1) None start show ?thesis by (auto simp: confirmMock_def seq_def)
      next
        case True
        obtain n s1 where n: "lock_order (or_id r) s = (Inr n, s1)" by (simp add: lock_order_def)
        show ?thesis
        proof (cases "n = 0")
          case zero: True
          then have "s1 = s" using n lock_none by blast
          with run Pair r t(1) None True n zero paid start show ?thesis
            by (auto simp: confirmMock_def seq_def split: option.splits)
        next
          case False
          have "flow s0 s (add_mset (Reading r) C)" by (rule flow.read [OF start t(2) [OF r(1)]])
          from flow.lock [OF this n False] have "flow s0 s1 (add_mset (Locked r) C)" .
          moreover have "pay_order e r u s1 = (res, s')"
            using run Pair r t(1) None True n False by (simp add: confirmMock_def seq_def)
          ultimately show ?thesis by (rule flow_pay)
        qed
      qed
    qed
  qed
qed


text \<open>
  C24: whatever the interleaving of confirmations, of new orders and of the other handlers, with
  confirmations dying at any point, the gateway captures an order at most once and never while
  it is pending; and a paid order has exactly one capture of its total, the paid payment that
  names that capture, and a gift that exists.
\<close>

theorem captured_once:
  assumes "flow_ok s0 {#}" "flow s0 s C" "r \<in> set (mk_orders s)"
  shows "length (captures_of (or_id r) s) \<le> 1
    \<and> (or_status r = ''pending'' \<longrightarrow> captures_of (or_id r) s = [])
    \<and> (or_status r = ''paid'' \<longrightarrow> paid_ok (gift_ids s) (captures_of (or_id r) s) (payment_of (or_id r) s) r)"
proof -
  from flow_invariant [OF assms(2,1)] assms(3)
  have ok: "order_ok (gift_ids s) (captures_of (or_id r) s) (payment_of (or_id r) s) (busy (or_id r) C) r"
    unfolding flow_ok_def by blast
  then show ?thesis by (auto simp: order_ok_def paid_ok_def split: if_splits)
qed

section \<open>A concrete confirmation\<close>

definition sample_address :: Address where
  "sample_address = \<lparr> ad_id = ''a1'', ad_userId = ''u2'', ad_label = None, ad_country = [83, 65], ad_region = None, ad_city = [82],
     ad_governorate = None, ad_district = [68], ad_street = None, ad_buildingNumber = None, ad_unitNumber = None, ad_postalCode = None,
     ad_additionalNumber = None, ad_shortAddress = None, ad_deliveryPhone = None, ad_details = [], ad_isDefault = True \<rparr>"

definition checkout_market :: market where
  "checkout_market = empty_market\<lparr>
     mk_users := [\<lparr> us_id = ''u1'', us_qiftUsername = ''sara'', us_fullName = None, us_deletedAt = None \<rparr>,
                  \<lparr> us_id = ''u2'', us_qiftUsername = ''noura'', us_fullName = None, us_deletedAt = None \<rparr>],
     mk_addresses := [sample_address],
     mk_stores := [\<lparr> sf_id = ''s1'', sf_ownerId = ''u9'', sf_status = ''approved'', sf_city = [82], sf_deliveryZones = UOther \<rparr>],
     mk_orders := [sample_paid_order\<lparr> or_status := ''pending'', or_giftId := None \<rparr>] \<rparr>"

definition sample_menv :: menv where
  "sample_menv = \<lparr> clk = (\<lambda>_. 0), en_dbNow = 0, en_uuid = (\<lambda>n. if n = 0 then ''g1'' else ''x1''), en_draw = (\<lambda>_ _ _. 0), en_gates = None,
     en_seniors = None, en_sha = (\<lambda>x. x), en_ledgerStamp = (\<lambda>n. ([], 0)), me_fold = (\<lambda>t. t), me_paid = (\<lambda>_. True),
     me_storeUsers = None \<rparr>"

text \<open>Two confirmations of the same order, one after the other: the second captures nothing.\<close>

lemma captured_once_witness:
  "\<exists>s r. snd (confirmMock sample_menv ''o1'' ''u1'' (snd (confirmMock sample_menv ''o1'' ''u1'' checkout_market))) = s
     \<and> mk_orders s = [r] \<and> or_status r = ''paid'' \<and> paid_ok (gift_ids s) (captures_of (or_id r) s) (payment_of (or_id r) s) r
     \<and> length (captures_of (or_id r) s) = 1"
proof -
  let ?run = "\<lambda>s. snd (confirmMock sample_menv ''o1'' ''u1'' s)"
  have ok: "flow_ok checkout_market {#}"
    by (simp add: flow_ok_def checkout_market_def empty_market_def captures_of_def payment_of_def order_ok_def sample_paid_order_def)
  have f: "flow checkout_market (?run (?run checkout_market)) {#}"
    using flow_confirm [OF flow_confirm [OF flow.start prod.collapse [symmetric]] prod.collapse [symmetric]] .
  have "map or_status (mk_orders (?run (?run checkout_market))) = [''paid'']"
    by code_simp
  then obtain r where r: "mk_orders (?run (?run checkout_market)) = [r]" "or_status r = ''paid''" by auto
  from captured_once [OF ok f, of r] r show ?thesis by (auto simp: paid_ok_def)
qed

end
