(* ===== verification/Gift_Flow.thy ===== *)
theory Gift_Flow
  imports Payment_Flow
begin

text \<open>
  The life of gifts under the handlers that write them: whole runs of creation, confirmation,
  cancellation, the sweep, the merchant's handlers and the payment move a gift only along the
  status graph and never change what it is. Interleaved, the handlers that write by id alone
  break the graph; a concrete schedule shows it.
\<close>

section \<open>Evolution of the gift table\<close>

definition identity_of :: "Gift \<Rightarrow> Gift" where
  "identity_of g = g\<lparr> gf_status := [], gf_addressId := None, gf_confirmedAt := None, gf_shippedAt := None,
     gf_deliveredAt := None, gf_trackingNumber := None, gf_carrier := None \<rparr>"

definition allowed_move :: "string \<Rightarrow> string \<Rightarrow> bool" where
  "allowed_move a b \<longleftrightarrow> (case (asGiftStatus a, asGiftStatus b) of
       (Some x, Some y) \<Rightarrow> y \<in> set (ALLOWED_TRANSITIONS x) | _ \<Rightarrow> False)"

definition gift_evolves :: "Gift \<Rightarrow> Gift \<Rightarrow> bool" where
  "gift_evolves g g' \<longleftrightarrow> identity_of g' = identity_of g \<and> allowed_move\<^sup>*\<^sup>* (gf_status g) (gf_status g')"

definition evolves :: "Gift list \<Rightarrow> Gift list \<Rightarrow> bool" where
  "evolves G G' \<longleftrightarrow> (\<exists>old new. G' = old @ new \<and> list_all2 gift_evolves G old
      \<and> (\<forall>g \<in> set new. allowed_move\<^sup>*\<^sup>* ''pending_address'' (gf_status g)))
    \<and> (distinct (map gf_id G) \<longrightarrow> distinct (map gf_id G'))"

lemma gift_evolves_refl [simp]: "gift_evolves g g"
  by (simp add: gift_evolves_def)

lemma gift_evolves_trans: "gift_evolves g g' \<Longrightarrow> gift_evolves g' g'' \<Longrightarrow> gift_evolves g g''"
  by (auto simp: gift_evolves_def)

lemma gift_evolves_id: "gift_evolves g g' \<Longrightarrow> gf_id g' = gf_id g"
  unfolding gift_evolves_def identity_of_def by (auto dest: arg_cong [where f = gf_id])

lemma evolvesI:
  assumes "list_all2 gift_evolves G old" "\<forall>g \<in> set new. allowed_move\<^sup>*\<^sup>* ''pending_address'' (gf_status g)"
    and "distinct (map gf_id G) \<Longrightarrow> distinct (map gf_id (old @ new))"
  shows "evolves G (old @ new)"
  unfolding evolves_def using assms by blast

lemma gifts_same: "list_all2 gift_evolves G G"
  by (rule list_all2_refl) simp

lemma evolves_refl [simp]: "evolves G G"
  using evolvesI [OF gifts_same, of "[]"] by simp

lemma evolves_trans:
  assumes "evolves G G1" "evolves G1 G2"
  shows "evolves G G2"
proof -
  obtain o1 n1 where 1: "G1 = o1 @ n1" "list_all2 gift_evolves G o1"
    "\<forall>g \<in> set n1. allowed_move\<^sup>*\<^sup>* ''pending_address'' (gf_status g)" using assms(1) by (auto simp: evolves_def)
  obtain o2 n2 where 2: "G2 = o2 @ n2" "list_all2 gift_evolves (o1 @ n1) o2"
    "\<forall>g \<in> set n2. allowed_move\<^sup>*\<^sup>* ''pending_address'' (gf_status g)" using assms(2) 1(1) by (auto simp: evolves_def)
  obtain p q where pq: "o2 = p @ q" "list_all2 gift_evolves o1 p" "list_all2 gift_evolves n1 q"
    using 2(2) by (auto simp: list_all2_append1)
  have "list_all2 gift_evolves G p" by (rule list_all2_trans [OF gift_evolves_trans 1(2) pq(2)])
  moreover have "allowed_move\<^sup>*\<^sup>* ''pending_address'' (gf_status g)" if "g \<in> set q" for g
  proof -
    from pq(3) that obtain g1 where "g1 \<in> set n1" "gift_evolves g1 g" by (metis list_all2_conv_all_nth in_set_conv_nth)
    with 1(3) show ?thesis by (auto simp: gift_evolves_def intro: rtranclp_trans)
  qed
  ultimately have "\<exists>old new. G2 = old @ new \<and> list_all2 gift_evolves G old
      \<and> (\<forall>g \<in> set new. allowed_move\<^sup>*\<^sup>* ''pending_address'' (gf_status g))"
    using 2(1,3) pq(1) by (intro exI [of _ p] exI [of _ "q @ n2"]) auto
  with assms show ?thesis by (auto simp: evolves_def)
qed

lemma evolves_map:
  assumes "\<And>g. g \<in> set G \<Longrightarrow> gift_evolves g (f g)"
  shows "evolves G (map f G)"
proof -
  have "list_all2 gift_evolves G (map f G)" using assms by (simp add: list_all2_conv_all_nth)
  moreover have "map gf_id (map f G) = map gf_id G" using assms gift_evolves_id by auto
  ultimately show ?thesis using evolvesI [of G "map f G" "[]"] by (simp del: map_map)
qed

lemma evolves_snoc:
  assumes "gf_status g = ''pending_address''" "\<forall>x \<in> set G. gf_id x \<noteq> gf_id g"
  shows "evolves G (G @ [g])"
  by (rule evolvesI [OF gifts_same]) (use assms in auto)

section \<open>Writes\<close>

lemma assertTransition_move:
  "assertTransition a to = Inr u \<Longrightarrow> b = gift_status_name to \<Longrightarrow> allowed_move a b"
  by (auto simp: assertTransition_def allowed_move_def check_iff split: option.splits)

text \<open>A write by id, of the row that was read.\<close>

lemma write_gift_evolves:
  assumes g: "g \<in> set G" "gf_id g = i" "distinct (map gf_id G)"
    and f: "identity_of (f g) = identity_of g" "gf_status (f g) = gf_status g \<or> allowed_move (gf_status g) (gf_status (f g))"
  shows "evolves G (update_where (\<lambda>x. gf_id x = i) f G)"
  unfolding update_where_def
proof (rule evolves_map)
  fix x assume "x \<in> set G"
  with g distinct_key_eq [OF g(3), of x g] f show "gift_evolves x (if gf_id x = i then f x else x)"
    by (auto simp: gift_evolves_def)
qed

text \<open>A write guarded by the status itself.\<close>

lemma guarded_evolves:
  assumes "\<And>g. p g \<Longrightarrow> identity_of (f g) = identity_of g \<and> allowed_move (gf_status g) (gf_status (f g))"
  shows "evolves G (update_where p f G)"
  unfolding update_where_def using assms by (intro evolves_map) (auto simp: gift_evolves_def)

section \<open>Handlers\<close>

text \<open>Up to the write, nothing touches the gifts; after it, nothing does either.\<close>

lemma leaves_writes [leaves_intros]: "(\<And>s. g (f s) = g s) \<Longrightarrow> leaves g (writes f)"
  by (rule leavesI) simp

lemma leaves_row_update [leaves_intros]: "(\<And>f s. g (upd f s) = g s) \<Longrightarrow> leaves g (update_row get upd p f)"
  by (rule leavesI) (simp add: update_row_def split: option.split)

lemma leaves_swallow [leaves_intros]: "leaves g m \<Longrightarrow> leaves g (swallow m)"
  unfolding swallow_def by (intro leaves_intros)

lemma leaves_case_sum [leaves_intros]:
  "(\<And>x. leaves g (f x)) \<Longrightarrow> (\<And>y. leaves g (h y)) \<Longrightarrow> leaves g (case r of Inl x \<Rightarrow> f x | Inr y \<Rightarrow> h y)"
  by (cases r) simp_all

lemma leaves_market_ledger [leaves_intros]: "leaves mk_gifts (market_ledger_record li)"
  by (rule leavesI) (simp add: market_ledger_record_def on_table_def split: prod.split)

lemma leaves_gifts [leaves_intros]:
  "leaves mk_gifts (notify u k t b l)" "leaves mk_gifts (load_gift i)" "leaves mk_gifts (with_snapshot x v)"
  "leaves mk_gifts (visible_gift x v)" "leaves mk_gifts (assertCanMutate e v st)" "leaves mk_gifts (restore_wish u p)"
  "leaves mk_gifts (uncount_gifted p)" "leaves mk_gifts (retire_posts e i)" "leaves mk_gifts (fulfil_wish e u p)"
  "leaves mk_gifts (count_gifted e p)" "leaves mk_gifts (resolve_receiver u n)" "leaves mk_gifts (product_store pr)"
  "leaves mk_gifts (refuse_without_address ua ub uc ud ue)"
  unfolding notify_def load_gift_def with_snapshot_def visible_gift_def assertCanMutate_def restore_wish_def uncount_gifted_def
    retire_posts_def fulfil_wish_def count_gifted_def resolve_receiver_def product_store_def refuse_without_address_def
  by (intro leaves_intros; simp)+

lemma leaves_gifts2 [leaves_intros]:
  "leaves mk_gifts (upsert_shipment e i p n f)" "leaves mk_gifts (getShipmentForOrder e v i)"
  "leaves mk_gifts (plan_confirm e x v a)" "leaves mk_gifts (replay_gift v h x)" "leaves mk_gifts (gift_created e x)"
  "leaves mk_gifts (prepare_gift e body u rn m1 m2 k rh)"
  unfolding upsert_shipment_def getShipmentForOrder_def plan_confirm_def chosen_address_def coverage_gate_def
    replay_gift_def gift_created_def prepare_gift_def
  by (intro leaves_intros; simp)+

lemma leaves_payment [leaves_intros]:
  "leaves mk_gifts (upsert_payment e r pid st f)" "leaves mk_gifts (write_order i f')"
  "leaves mk_gifts (load_order i)" "leaves mk_gifts (lock_order i)"
  "leaves mk_gifts (ensureLedgerForPaidOrder r)"
  unfolding upsert_payment_def write_order_def load_order_def lock_order_def ensureLedgerForPaidOrder_def post_leg_def
  by (intro leaves_intros; simp)+

lemma leaves_payment2 [leaves_intros]:
  "leaves mk_gifts (recordFailedPayment e r pid)" "leaves mk_gifts (link_gift e r pid g)" "leaves mk_gifts (return_paid p)"
  unfolding recordFailedPayment_def link_gift_def return_paid_def
  by (intro leaves_intros; simp)+

lemma leaves_charge [leaves_intros]: "leaves mk_gifts (charge_order e r)"
  unfolding charge_order_def by (intro leaves_intros; simp)+

text \<open>A program evolves the gifts from a table when it does so from every state with that table.\<close>

definition turns :: "Gift list \<Rightarrow> (market, 'a) prog \<Rightarrow> bool" where
  "turns G m \<longleftrightarrow> (\<forall>s. mk_gifts s = G \<longrightarrow> evolves G (mk_gifts (snd (m s))))"

lemma turns_leaves: "leaves mk_gifts m \<Longrightarrow> turns G m"
  unfolding turns_def using leavesD [of mk_gifts m] by auto

lemma turns_step:
  assumes "leaves mk_gifts m" "\<And>x s s'. mk_gifts s = G \<Longrightarrow> m s = (Inr x, s') \<Longrightarrow> turns G (k x)"
  shows "turns G (seq m k)"
  unfolding turns_def
proof (intro allI impI)
  fix s :: market
  assume s: "mk_gifts s = G"
  obtain r s1 where m: "m s = (r, s1)" by fastforce
  then have s1: "mk_gifts s1 = G" using leaves_runD [OF assms(1)] s by metis
  show "evolves G (mk_gifts (snd (seq m k s)))"
    using assms(2) [OF s] m s1 by (cases r) (auto simp: seq_def turns_def)
qed

lemma turns_tail:
  assumes "turns G m" "\<And>x. leaves mk_gifts (k x)"
  shows "turns G (seq m k)"
  unfolding turns_def using leaves_tail [of mk_gifts k m] assms by (simp add: turns_def)

lemma turns_attempt:
  assumes "turns G m" "\<And>ex. leaves mk_gifts (h ex)"
  shows "turns G (attempt m h)"
  unfolding turns_def using leaves_handler [of mk_gifts h m] assms by (simp add: turns_def)

lemma turns_swallow: "turns G m \<Longrightarrow> turns G (swallow m)"
  unfolding swallow_def by (intro turns_attempt turns_tail leaves_intros)

lemma turns_if: "(b \<Longrightarrow> turns G m) \<Longrightarrow> (\<not> b \<Longrightarrow> turns G n) \<Longrightarrow> turns G (if b then m else n)"
  by simp

lemma turns_option:
  "turns G m \<Longrightarrow> (\<And>x. turns G (k x)) \<Longrightarrow> turns G (case v of None \<Rightarrow> m | Some x \<Rightarrow> k x)"
  by (cases v) simp_all

lemma turns_updateMany:
  "(\<And>g. p g \<Longrightarrow> identity_of (f g) = identity_of g \<and> allowed_move (gf_status g) (gf_status (f g))) \<Longrightarrow>
     turns G (updateMany mk_gifts mk_gifts_update p f)"
  unfolding turns_def using guarded_evolves by simp

lemma turns_write:
  assumes "g \<in> set G" "gf_id g = i" "distinct (map gf_id G)" "identity_of (f g) = identity_of g"
    "gf_status (f g) = gf_status g \<or> allowed_move (gf_status g) (gf_status (f g))"
  shows "turns G (update_row mk_gifts mk_gifts_update (\<lambda>x. gf_id x = i) f)"
  unfolding turns_def using write_gift_evolves [where f = f and g = g and G = G and i = i, OF assms]
  by (simp add: update_row_def split: option.split)

lemma load_gift_found: "load_gift i s = (Inr g, s') \<Longrightarrow> g \<in> set (mk_gifts s) \<and> gf_id g = i"
  by (auto simp: load_gift_def prog_iff dest: find_in_set)

lemma turns_load:
  assumes "\<And>g. g \<in> set G \<Longrightarrow> gf_id g = i \<Longrightarrow> turns G (k g)"
  shows "turns G (seq (load_gift i) k)"
  by (rule turns_step) (use assms load_gift_found in \<open>auto intro: leaves_gifts\<close>)

lemma turns_skip: "leaves mk_gifts m \<Longrightarrow> (\<And>x. turns G (k x)) \<Longrightarrow> turns G (seq m k)"
  by (rule turns_step)

lemma turns_assert:
  assumes "assertTransition a to = Inr () \<Longrightarrow> turns G (k ())"
  shows "turns G (seq (lift (assertTransition a to)) k)"
  by (rule turns_step) (use assms in \<open>auto intro: leaves_intros\<close>)

text \<open>The common shape of the handlers: the status law, the write, then the notifications.\<close>

lemma seq_assoc: "seq (seq m k) h = seq m (\<lambda>x. seq (k x) h)"
  by (rule ext) (simp add: seq_def split: prod.split sum.split)

lemma turns_law:
  assumes "g \<in> set G" "gf_id g = i" "distinct (map gf_id G)" "identity_of (f g) = identity_of g"
    "gf_status (f g) = gift_status_name to"
  shows "turns G (seq (lift (assertTransition (gf_status g) to)) (\<lambda>_. write_gift i f))"
  unfolding write_gift_def
  by (rule turns_assert, rule turns_write [where g = g and f = f, OF assms(1-4)])
    (use assms(5) in \<open>auto intro: assertTransition_move\<close>)

lemma turns_move:
  assumes "g \<in> set G" "gf_id g = i" "distinct (map gf_id G)" "identity_of (f g) = identity_of g"
    "gf_status (f g) = gift_status_name to" "\<And>x. leaves mk_gifts (k x)"
  shows "turns G (seq (lift (assertTransition (gf_status g) to)) (\<lambda>_. seq (write_gift i f) k))"
  unfolding seq_assoc [symmetric]
  by (rule turns_tail [OF turns_law [where g = g and f = f, OF assms(1-5)] assms(6)])

subsection \<open>The merchant\<close>

lemma merchant_turns:
  assumes "distinct (map gf_id G)"
  shows "turns G (markPreparing e u i)" "turns G (markDelivered e u i)" "turns G (markShipped e u i opts)"
  unfolding markPreparing_def markDelivered_def markShipped_def Let_def
  by (rule turns_load, rule turns_skip [OF leaves_gifts(5)], rule turns_if,
      (intro turns_leaves leaves_intros)[1], rule turns_move, assumption, assumption, rule assms,
      (simp add: identity_of_def ship_row_def)[1], (simp add: ship_row_def)[1], (intro leaves_intros)[1])+

lemma shipping_turns:
  assumes "distinct (map gf_id G)"
  shows "turns G (upsertShipment e u i p t)"
  unfolding upsertShipment_def Let_def
proof (rule turns_load, rule turns_skip [OF leaves_gifts(5)],  (rule turns_skip, ((intro leaves_intros; simp); fail)[1])+, rule turns_tail)
  fix g and x :: unit assume g: "g \<in> set G" "gf_id g = i"
  have "turns G (write_gift i (\<lambda>g. g\<lparr> gf_carrier := c, gf_trackingNumber := n \<rparr>))" for c n
    unfolding write_gift_def by (rule turns_write [OF g assms]) (simp_all add: identity_of_def)
  then show "turns G (if provider_name (the (opt_trim p)) \<noteq> gf_carrier g \<or> trimmed_or_null t \<noteq> gf_trackingNumber g
      then seq (write_gift i (\<lambda>g. g\<lparr> gf_carrier := provider_name (the (opt_trim p)), gf_trackingNumber := trimmed_or_null t \<rparr>)) (\<lambda>_. ret ())
      else ret ())"
    by (auto intro: turns_tail turns_leaves leaves_intros)
qed (intro leaves_intros)

lemma mirror_turns:
  assumes "g \<in> set G" "gf_id g = i" "distinct (map gf_id G)"
  shows "turns G (mirror_delivery g i st t)"
proof -
  have "turns G (seq (lift (assertTransition (gf_status g) Delivered))
      (\<lambda>_. write_gift i (\<lambda>g. g\<lparr> gf_status := ''delivered'', gf_deliveredAt := Some t \<rparr>)))"
    by (rule turns_law [OF assms]) (simp_all add: identity_of_def)
  then show ?thesis
    by (cases "st = ''delivered'' \<and> gf_status g \<noteq> ''delivered''")
      (auto simp: mirror_delivery_def intro: turns_swallow turns_leaves leaves_basic)
qed

lemma event_turns:
  assumes "distinct (map gf_id G)"
  shows "turns G (appendShipmentEvent e u i st n t)"
  unfolding appendShipmentEvent_def Let_def
  by (rule turns_load, (rule turns_skip, ((intro leaves_intros; simp); fail)[1])+, rule turns_tail,
      rule mirror_turns [OF _ _ assms]) (simp_all add: leaves_intros)

subsection \<open>The parties and the sweep\<close>

lemma confirm_turns:
  assumes "distinct (map gf_id G)"
  shows "turns G (confirmAddress e i u a)"
  unfolding confirmAddress_def
proof (rule turns_load, rule turns_skip, (intro leaves_intros)[1], rule turns_if)
  fix g assume g: "g \<in> set G" "gf_id g = i" "\<not> gf_status g \<noteq> ''pending_address''"
  have "turns G (confirm_write e g b)" for b
    unfolding confirm_write_def
    by (rule turns_write [OF g(1) refl assms])
      (use g(3) in \<open>simp_all add: identity_of_def confirmed_row_def allowed_move_def asGiftStatus_def GIFT_STATUSES_def\<close>)
  then show "turns G (seq (plan_confirm e g u a) (\<lambda>a.
       seq (confirm_write e g (ad_id a)) (\<lambda>updated.
       seq (notify (gf_senderId g) GiftAddressConfirmed T_address_confirmed
              (Some (withFulfillmentRef (Some (gf_productName updated)) (gf_fulfillmentNumber updated))) (gift_link (gf_id g))) (\<lambda>_.
       with_snapshot updated u))))"
    by (intro turns_skip turns_tail leaves_intros)
qed (intro turns_leaves leaves_intros)

lemma cancel_turns: "turns G (cancel_gift e i u)"
proof -
  have w: "turns G (cancel_write i)"
    unfolding cancel_write_def
    by (rule turns_updateMany) (auto simp: CANCELLABLE_def identity_of_def allowed_move_def asGiftStatus_def GIFT_STATUSES_def)
  show ?thesis
    unfolding cancel_gift_def
    by (rule turns_load, rule turns_skip [OF leaves_basic(5)], rule turns_if, (intro turns_leaves leaves_intros)[1],
        rule turns_skip [OF leaves_basic(5)], rule turns_tail [OF w]) (intro leaves_intros)
qed

lemma sweep_one_turns: "turns G (sweep_one e g)"
proof -
  have w: "turns G (sweep_write e i a)" for i a
    unfolding sweep_write_def
    by (rule turns_updateMany) (auto simp: identity_of_def allowed_move_def asGiftStatus_def GIFT_STATUSES_def)
  show ?thesis
    unfolding sweep_one_def
    by (rule turns_attempt, rule turns_skip [OF leaves_basic(3)], rule turns_if, (intro turns_leaves leaves_intros)[1],
        rule turns_skip [OF leaves_basic(3)], rule turns_option, (intro turns_leaves leaves_intros)[1], rule turns_tail [OF w])
      (intro leaves_intros)+
qed

lemma turns_keeps: "(\<And>G. turns G m) \<Longrightarrow> keeps (\<lambda>s. evolves G0 (mk_gifts s)) m"
  by (rule keepsI) (metis evolves_trans snd_conv turns_def)

lemma sweep_turns: "turns G (runOnce e)"
proof -
  have loop: "turns G (sweep_loop e gs counts)" for gs counts
  proof (induction gs arbitrary: counts G)
    case Nil
    show ?case unfolding sweep_loop.simps by (intro turns_leaves leaves_basic)
  next
    case (Cons g gs)
    obtain a b c where "counts = (a, b, c)" by (cases counts)
    have "keeps (\<lambda>s. evolves G (mk_gifts s)) (sweep_loop e (g # gs) counts)"
      unfolding \<open>counts = _\<close> sweep_loop.simps
      by (intro keeps_seq turns_keeps sweep_one_turns Cons.IH)
    then show ?case unfolding turns_def keeps_def by auto
  qed
  show ?thesis unfolding runOnce_def by (rule turns_skip [OF leaves_basic(3) loop])
qed

subsection \<open>Creation and payment\<close>

lemma prepare_gift_pending: "prepare_gift e body u rn m1 m2 k rh s = (Inr g, s') \<Longrightarrow> gf_status g = ''pending_address''"
  unfolding prepare_gift_def Let_def by (auto simp: prog_iff new_gift_def)

lemma insert_turns: "gf_status g = ''pending_address'' \<Longrightarrow> turns G (insert_gift g)"
  unfolding insert_gift_def turns_def
  by (auto simp: seq_def create_def gift_clash_def intro: evolves_snoc)

lemma place_turns: "gf_status g = ''pending_address'' \<Longrightarrow> turns G (place_gift e key h g)"
  unfolding place_gift_def
  by (rule turns_tail, rule turns_attempt, rule turns_tail, rule insert_turns) (assumption, (intro leaves_intros)+)

lemma create_turns: "turns G (create_gift e body u key)"
proof -
  have new: "turns G (seq (prepare_gift e body u rn m1 m2 k rh) (place_gift e k' h))" for rn m1 m2 k rh k' h
    by (rule turns_step [OF leaves_gifts2(6)]) (blast intro: place_turns prepare_gift_pending)
  show ?thesis
    unfolding create_gift_def Let_def case_prod_beta
    by (rule turns_skip, (intro leaves_intros)[1])+ (auto intro: new turns_leaves leaves_gifts2 split: option.split)
qed

lemma pay_turns: "turns G (confirmMock e i u)"
proof -
  have "turns G (gift_for_order e r u' pid)" for r u' pid
    unfolding gift_for_order_def by (rule turns_attempt [OF create_turns]) (intro leaves_intros)
  then have w: "turns G (pay_order e r u')" for r u'
    unfolding pay_order_def by (rule turns_skip [OF leaves_charge turns_tail]) (intro leaves_intros)
  show ?thesis
    unfolding confirmMock_def
    by (rule turns_skip, (intro leaves_intros)[1])+
      (rule turns_option, (rule turns_skip, (intro leaves_intros)[1])+, rule turns_if,
       (intro turns_leaves leaves_intros)[1], rule w, intro turns_leaves leaves_intros)
qed

section \<open>Whole runs\<close>

text \<open>
  The handlers one after another, each run whole, whatever it returns, and anything else that
  leaves the gifts as they are.
\<close>

inductive gift_runs :: "market \<Rightarrow> market \<Rightarrow> bool" for s0 where
  start: "gift_runs s0 s0"
| create: "gift_runs s0 s \<Longrightarrow> gift_runs s0 (snd (create_gift e body u key s))"
| confirm: "gift_runs s0 s \<Longrightarrow> gift_runs s0 (snd (confirmAddress e i u a s))"
| cancel: "gift_runs s0 s \<Longrightarrow> gift_runs s0 (snd (cancel_gift e i u s))"
| sweep: "gift_runs s0 s \<Longrightarrow> gift_runs s0 (snd (runOnce e s))"
| preparing: "gift_runs s0 s \<Longrightarrow> gift_runs s0 (snd (markPreparing e u i s))"
| shipped: "gift_runs s0 s \<Longrightarrow> gift_runs s0 (snd (markShipped e u i opts s))"
| delivered: "gift_runs s0 s \<Longrightarrow> gift_runs s0 (snd (markDelivered e u i s))"
| shipment: "gift_runs s0 s \<Longrightarrow> gift_runs s0 (snd (upsertShipment e u i p t s))"
| event: "gift_runs s0 s \<Longrightarrow> gift_runs s0 (snd (appendShipmentEvent e u i st n t s))"
| pay: "gift_runs s0 s \<Longrightarrow> gift_runs s0 (snd (confirmMock e i u s))"
| other: "gift_runs s0 s \<Longrightarrow> mk_gifts s' = mk_gifts s \<Longrightarrow> gift_runs s0 s'"

lemma turns_run: "turns (mk_gifts s) m \<Longrightarrow> evolves (mk_gifts s) (mk_gifts (snd (m s)))"
  by (simp add: turns_def)

lemma evolves_distinct: "evolves G G' \<Longrightarrow> distinct (map gf_id G) \<Longrightarrow> distinct (map gf_id G')"
  by (simp add: evolves_def)

lemma runs_evolve:
  assumes "gift_runs s0 s" "distinct (map gf_id (mk_gifts s0))"
  shows "evolves (mk_gifts s0) (mk_gifts s)"
  using assms
proof (induction rule: gift_runs.induct)
  case start
  show ?case by simp
next
  case (other s s')
  then show ?case by simp
qed (blast intro: evolves_trans turns_run create_turns confirm_turns cancel_turns sweep_turns merchant_turns shipping_turns
    event_turns pay_turns evolves_distinct)+

lemma final_stays: "allowed_move\<^sup>*\<^sup>* a b \<Longrightarrow> a = ''delivered'' \<or> a = ''cancelled'' \<Longrightarrow> b = a"
  by (erule converse_rtranclpE) (auto simp: allowed_move_def asGiftStatus_def GIFT_STATUSES_def split: option.splits)

lemma evolves_old:
  assumes "evolves G G'" "g \<in> set G"
  shows "\<exists>g' \<in> set G'. gift_evolves g g'"
proof -
  obtain old new where G': "G' = old @ new" "list_all2 gift_evolves G old" using assms(1) by (auto simp: evolves_def)
  from G'(2) assms(2) have "\<exists>g' \<in> set old. gift_evolves g g'" by (induction rule: list_all2_induct) auto
  with G'(1) show ?thesis by auto
qed

text \<open>
  C25: whatever runs whole, a gift never leaves the table, never changes its parties, product,
  message or key, and its status moves only along the status graph; a delivered or cancelled gift
  stays so, and a new gift starts pending.
\<close>

theorem gifts_follow_graph:
  assumes "gift_runs s0 s" "distinct (map gf_id (mk_gifts s0))"
  shows "(\<forall>g \<in> set (mk_gifts s0). \<exists>g' \<in> set (mk_gifts s). gf_id g' = gf_id g \<and> identity_of g' = identity_of g
        \<and> allowed_move\<^sup>*\<^sup>* (gf_status g) (gf_status g') \<and> (gf_status g \<in> {''delivered'', ''cancelled''} \<longrightarrow> gf_status g' = gf_status g))
    \<and> (\<forall>g' \<in> set (mk_gifts s). gf_id g' \<notin> gf_id ` set (mk_gifts s0) \<longrightarrow> allowed_move\<^sup>*\<^sup>* ''pending_address'' (gf_status g'))
    \<and> distinct (map gf_id (mk_gifts s))"
proof (intro conjI ballI impI)
  note ev = runs_evolve [OF assms]
  fix g assume "g \<in> set (mk_gifts s0)"
  with ev obtain g' where "g' \<in> set (mk_gifts s)" "gift_evolves g g'" using evolves_old by blast
  then show "\<exists>g' \<in> set (mk_gifts s). gf_id g' = gf_id g \<and> identity_of g' = identity_of g
        \<and> allowed_move\<^sup>*\<^sup>* (gf_status g) (gf_status g') \<and> (gf_status g \<in> {''delivered'', ''cancelled''} \<longrightarrow> gf_status g' = gf_status g)"
    using gift_evolves_id [of g g'] final_stays [of "gf_status g" "gf_status g'"] by (auto simp: gift_evolves_def)
next
  fix g' assume g': "g' \<in> set (mk_gifts s)" "gf_id g' \<notin> gf_id ` set (mk_gifts s0)"
  from runs_evolve [OF assms] obtain old new where s: "mk_gifts s = old @ new" "list_all2 gift_evolves (mk_gifts s0) old"
    "\<forall>g \<in> set new. allowed_move\<^sup>*\<^sup>* ''pending_address'' (gf_status g)" by (auto simp: evolves_def)
  have "map gf_id old = map gf_id (mk_gifts s0)"
    using s(2) by (induction rule: list_all2_induct) (auto dest: gift_evolves_id)
  then have "gf_id ` set old = gf_id ` set (mk_gifts s0)" by (metis list.set_map)
  with g' s show "allowed_move\<^sup>*\<^sup>* ''pending_address'' (gf_status g')" by auto
next
  show "distinct (map gf_id (mk_gifts s))" by (rule evolves_distinct [OF runs_evolve [OF assms] assms(2)])
qed

section \<open>Refusals\<close>

text \<open>A careful program: when it fails, the database is as it was.\<close>

definition careful :: "('s, 'a) prog \<Rightarrow> bool" where
  "careful m \<longleftrightarrow> (\<forall>s ex s'. m s = (Inl ex, s') \<longrightarrow> s' = s)"

lemma careful_pure: "leaves (\<lambda>s. s) m \<Longrightarrow> careful m"
  by (auto simp: careful_def dest: leaves_runD)

lemma careful_seq:
  assumes "leaves (\<lambda>s. s) m" "\<And>x. careful (k x)"
  shows "careful (seq m k)"
  unfolding careful_def
proof (intro allI impI)
  fix s ex s' assume run: "seq m k s = (Inl ex, s')"
  obtain r t where m: "m s = (r, t)" by fastforce
  have "t = s" using leaves_runD [OF assms(1) m] .
  with run m assms(2) show "s' = s" by (cases r) (auto simp: seq_def careful_def)
qed

text \<open>A program that never fails.\<close>

definition succeeds :: "('s, 'a) prog \<Rightarrow> bool" where
  "succeeds m \<longleftrightarrow> (\<forall>s. \<exists>x s'. m s = (Inr x, s'))"

lemma succeeds_intros:
  "succeeds (ret x)" "succeeds (reads f)" "succeeds (writes w)" "succeeds (swallow m)" "succeeds (notify u k t b l)"
  by (auto simp: succeeds_def ret_def reads_def writes_def swallow_def notify_def attempt_def seq_def split: prod.split sum.split)

lemma succeeds_seq: "succeeds m \<Longrightarrow> (\<And>x. succeeds (k x)) \<Longrightarrow> succeeds (seq m k)"
  unfolding succeeds_def
proof
  fix s
  assume m: "\<forall>s. \<exists>x s'. m s = (Inr x, s')" and k: "\<And>x. \<forall>s. \<exists>y s'. k x s = (Inr y, s')"
  from m obtain x t where "m s = (Inr x, t)" by blast
  with k [of x] show "\<exists>y s'. seq m k s = (Inr y, s')" by (simp add: seq_def)
qed

lemma succeeds_if: "succeeds m \<Longrightarrow> succeeds n \<Longrightarrow> succeeds (if b then m else n)"
  by simp

lemma succeeds_tail: "careful m \<Longrightarrow> (\<And>x. succeeds (k x)) \<Longrightarrow> careful (seq m k)"
  unfolding careful_def
proof (intro allI impI)
  assume m: "\<forall>s ex s'. m s = (Inl ex, s') \<longrightarrow> s' = s" and k: "\<And>x. succeeds (k x)"
  fix s ex s' assume run: "seq m k s = (Inl ex, s')"
  obtain r t where rt: "m s = (r, t)" by fastforce
  show "s' = s"
  proof (cases r)
    case (Inl a)
    with m rt run show ?thesis by (simp add: seq_def)
  next
    case (Inr x)
    from k [of x] obtain y u where "k x t = (Inr y, u)" unfolding succeeds_def by blast
    with Inr rt run show ?thesis by (simp add: seq_def)
  qed
qed

lemma gift_created_succeeds: "succeeds (gift_created e g)"
  unfolding gift_created_def fulfil_wish_def count_gifted_def
  by (intro succeeds_seq succeeds_if succeeds_intros)

lemma careful_create: "careful (create get upd clash r)"
  by (simp add: careful_def create_def)

lemma careful_attempt:
  assumes "careful m" "\<And>ex. careful (h ex)"
  shows "careful (attempt m h)"
  unfolding careful_def
proof (intro allI impI)
  fix s ex s' assume run: "attempt m h s = (Inl ex, s')"
  obtain r t where m: "m s = (r, t)" by fastforce
  with run assms show "s' = s" unfolding careful_def attempt_def by (cases r) (simp, metis, simp)
qed

lemma pure_gift [leaves_intros]:
  "leaves (\<lambda>s. s) (replay_gift v h x)" "leaves (\<lambda>s. s) (visible_gift x v)" "leaves (\<lambda>s. s) (resolve_receiver u n)"
  "leaves (\<lambda>s. s) (product_store pr)"
  unfolding replay_gift_def visible_gift_def resolve_receiver_def product_store_def
  by (intro leaves_intros)+

lemma place_careful: "careful (place_gift e key h g)"
  unfolding place_gift_def insert_gift_def
  by (rule succeeds_tail, rule careful_attempt, rule succeeds_tail, rule careful_seq,
      (intro leaves_intros)[1], rule careful_seq, (intro leaves_intros)[1], rule careful_create,
      (intro succeeds_intros)[1], (intro careful_pure leaves_intros)[1])
    (simp add: succeeds_intros gift_created_succeeds split: sum.split)

text \<open>What a request that finds no address leaves behind: the attempt, and the note to the receiver.\<close>

definition turned_away :: "string \<Rightarrow> market \<Rightarrow> exn \<Rightarrow> market \<Rightarrow> bool" where
  "turned_away u s ex s' \<longleftrightarrow> ex = Unprocessable ''recipient_no_default_address''
     \<and> (\<exists>a t. s' = mk_outbox_update (\<lambda>l. l @ [t]) (mk_attempts_update (\<lambda>x. x @ [a]) s)
          \<and> ga_senderId a = u \<and> tg_userId t = ga_receiverId a \<and> tg_type t = GiftAttemptedNoAddress)"

definition refuses :: "('s \<Rightarrow> exn \<Rightarrow> 's \<Rightarrow> bool) \<Rightarrow> ('s, 'a) prog \<Rightarrow> bool" where
  "refuses P m \<longleftrightarrow> (\<forall>s ex s'. m s = (Inl ex, s') \<longrightarrow> s' = s \<or> P s ex s')"

definition steady :: "('s, 'a) prog \<Rightarrow> bool" where
  "steady m \<longleftrightarrow> (\<forall>s x s'. m s = (Inr x, s') \<longrightarrow> s' = s)"

lemma refuses_careful: "careful m \<Longrightarrow> refuses P m"
  by (simp add: careful_def refuses_def)

lemma refuses_pure: "leaves (\<lambda>s. s) m \<Longrightarrow> refuses P m"
  by (rule refuses_careful [OF careful_pure])

lemma steady_pure: "leaves (\<lambda>s. s) m \<Longrightarrow> steady m"
  by (auto simp: steady_def dest: leaves_runD)

lemma steady_seq: "steady m \<Longrightarrow> (\<And>x. steady (k x)) \<Longrightarrow> steady (seq m k)"
  unfolding steady_def seq_iff by blast

lemma refuses_seq:
  assumes "refuses P m" "steady m" "\<And>x. refuses P (k x)"
  shows "refuses P (seq m k)"
  unfolding refuses_def
proof (intro allI impI)
  fix s ex s' assume run: "seq m k s = (Inl ex, s')"
  obtain r t where m: "m s = (r, t)" by fastforce
  show "s' = s \<or> P s ex s'"
  proof (cases r)
    case (Inl a)
    with m run have "m s = (Inl ex, s')" by (simp add: seq_def)
    with assms(1) show ?thesis unfolding refuses_def by blast
  next
    case (Inr x)
    with m assms(2) have "t = s" unfolding steady_def by blast
    with m Inr run have "k x s = (Inl ex, s')" by (simp add: seq_def)
    with assms(3) show ?thesis unfolding refuses_def by blast
  qed
qed

lemma refuses_step: "leaves (\<lambda>s. s) m \<Longrightarrow> (\<And>x. refuses P (k x)) \<Longrightarrow> refuses P (seq m k)"
  by (rule refuses_seq [OF refuses_pure steady_pure])

lemma steady_step: "leaves (\<lambda>s. s) m \<Longrightarrow> (\<And>x. steady (k x)) \<Longrightarrow> steady (seq m k)"
  by (rule steady_seq [OF steady_pure])

lemma turned_away_refuses:
  "refuses (turned_away u) (if b then refuse_without_address u r n p q else ret ())"
  "steady (if b then refuse_without_address u r n p q else ret ())"
proof -
  let ?a = "\<lparr> ga_senderId = u, ga_receiverId = r, ga_receiverUsername = n, ga_productName = Some p, ga_storeName = Some q \<rparr>"
  let ?t = "\<lparr> tg_userId = r, tg_type = GiftAttemptedNoAddress, tg_title = T_attempt_without_address, tg_body = None,
     tg_link = Some ''/profile'' \<rparr>"
  have run: "refuse_without_address u r n p q s = (Inl (Unprocessable ''recipient_no_default_address''),
      mk_outbox_update (\<lambda>l. l @ [?t]) (mk_attempts_update (\<lambda>x. x @ [?a]) s))" for s
    by (simp add: refuse_without_address_def notify_def seq_def)
  have "turned_away u s (Unprocessable ''recipient_no_default_address'')
      (mk_outbox_update (\<lambda>l. l @ [?t]) (mk_attempts_update (\<lambda>x. x @ [?a]) s))" for s
    unfolding turned_away_def by (intro conjI exI [of _ ?a] exI [of _ ?t]) simp_all
  then show "refuses (turned_away u) (if b then refuse_without_address u r n p q else ret ())"
    by (simp add: refuses_def run ret_def)
  show "steady (if b then refuse_without_address u r n p q else ret ())"
    by (simp add: steady_def run ret_def)
qed

lemma prepare_refuses: "refuses (turned_away u) (prepare_gift e body u rn m1 m2 k rh)"
  unfolding prepare_gift_def Let_def
  by (rule refuses_step, ((intro leaves_intros); fail)[1])+
    (rule refuses_seq [OF turned_away_refuses], intro refuses_pure leaves_intros)

lemma prepare_steady: "steady (prepare_gift e body u rn m1 m2 k rh)"
  unfolding prepare_gift_def Let_def
  by (rule steady_step, ((intro leaves_intros); fail)[1])+
    (rule steady_seq [OF turned_away_refuses(2)], intro steady_pure leaves_intros)

text \<open>
  C27: a refused creation leaves no trace: whatever the reason, the database is as it was, except
  that a request for a receiver without a default address keeps the attempt and tells the receiver.
\<close>

theorem refused_gift_leaves_no_trace:
  assumes "create_gift e body u key s = (Inl ex, s')"
  shows "s' = s \<or> turned_away u s ex s'"
proof -
  have "refuses (turned_away u) (create_gift e body u key)"
    unfolding create_gift_def Let_def case_prod_beta
    by (rule refuses_step, ((intro leaves_intros); fail)[1])+
      (auto intro: refuses_seq prepare_refuses prepare_steady refuses_careful place_careful refuses_pure leaves_intros split: option.split)
  with assms show ?thesis unfolding refuses_def by blast
qed

section \<open>Replays\<close>

lemma gift_view_id [simp]: "gf_id (gift_view s g) = gf_id g"
  by (simp add: gift_view_def Gift.defs)

lemma visible_id [simp]: "gf_id (vg_gift (applyGiftVisibility g v)) = gf_id g"
  by (simp add: applyGiftVisibility_def maskAnonymous_def applySurpriseReveal_def applyMessageReveal_def
      applyAddressPrivacy_def Let_def split: prod.split)

text \<open>What a keyed request is checked for before its key is looked up.\<close>

definition request_ok :: "CreateGiftInput \<Rightarrow> string \<Rightarrow> bool" where
  "request_ok body key \<longleftrightarrow> (\<exists>m. validateGiftMedia (cg_mediaUrl body) (cg_mediaType body) = Inr m)
     \<and> truthy (map_option (js_lower \<circ> js_trim) (cg_receiverUsername body))
     \<and> truthy (opt_trim (cg_productName body)) \<and> truthy (opt_trim (cg_storeName body))
     \<and> length key \<le> MAX_IDEMPOTENCY_KEY_LENGTH"

lemma create_known:
  assumes "trimmed_or_null kk = Some k" "by_key u k s = Some w"
  shows "create_gift e body u kk s = (Inr x, t) \<longleftrightarrow>
    request_ok body k \<and> gf_idempotencyRequestHash w = Some (computeGiftRequestHash (en_sha e) body)
    \<and> x = Replayed (applyGiftVisibility (gift_view s w) (Some u)) \<and> t = s"
  using assms unfolding create_gift_def Let_def request_ok_def
  by (auto simp: prog_iff replay_gift_def visible_gift_def split: prod.splits)

lemma prepare_row:
  "prepare_gift e body u rn m1 m2 k rh s = (Inr g, s') \<Longrightarrow>
     s' = s \<and> gf_senderId g = u \<and> gf_idempotencyKey g = k \<and> gf_idempotencyRequestHash g = rh"
proof (intro conjI)
  assume run: "prepare_gift e body u rn m1 m2 k rh s = (Inr g, s')"
  show "s' = s" using prepare_steady run unfolding steady_def by blast
  obtain rc st oc m where "g = new_gift e body u rc st oc m1 m2 k rh m"
    using run unfolding prepare_gift_def Let_def prog_iff by blast
  then show "gf_senderId g = u" "gf_idempotencyKey g = k" "gf_idempotencyRequestHash g = rh"
    by (simp_all add: new_gift_def)
qed

lemma gift_created_fresh: "gift_created e g s = (Inr x, s') \<Longrightarrow> mk_gifts s' = mk_gifts s \<and> (\<exists>t. x = Fresh (gift_view t g))"
  by (rule conjI, erule leaves_runD [OF leaves_gifts2(5)]) (auto simp: gift_created_def prog_iff)

lemma place_fresh:
  assumes "place_gift e key h g s = (Inr (Fresh v), s')"
  shows "mk_gifts s' = mk_gifts s @ [g] \<and> gf_id v = gf_id g"
proof (cases "insert_gift g s")
  case (Pair r t)
  show ?thesis
  proof (cases r)
    case (Inr y)
    with Pair have "y = g" "mk_gifts t = mk_gifts s @ [g]" by (auto simp: insert_gift_def prog_iff create_def split: if_splits)
    moreover have "gift_created e y t = (Inr (Fresh v), s')"
      using assms Pair Inr by (simp add: place_gift_def seq_def attempt_def ret_def)
    ultimately show ?thesis by (auto dest!: gift_created_fresh)
  next
    case (Inl ex)
    with Pair assms show ?thesis
      by (auto simp: place_gift_def seq_def attempt_def ret_def raise_def reads_def replay_gift_def visible_gift_def require_def
          split: if_splits option.splits)
  qed
qed

lemma create_fresh:
  assumes "create_gift e body u kk s = (Inr (Fresh v), s')" "trimmed_or_null kk = Some k"
  obtains g where "mk_gifts s' = mk_gifts s @ [g]" "gf_id v = gf_id g" "gf_senderId g = u" "gf_idempotencyKey g = Some k"
    "gf_idempotencyRequestHash g = Some (computeGiftRequestHash (en_sha e) body)" "by_key u k s = None" "request_ok body k"
proof -
  have none: "by_key u k s = None"
    using create_known [OF assms(2)] assms(1) by (cases "by_key u k s") auto
  from assms none obtain m rn m1 m2 g t where v: "validateGiftMedia (cg_mediaUrl body) (cg_mediaType body) = Inr m" "request_ok body k"
    and g: "prepare_gift e body u rn m1 m2 (Some k) (Some (computeGiftRequestHash (en_sha e) body)) s = (Inr g, t)"
      "place_gift e (Some k) (computeGiftRequestHash (en_sha e) body) g t = (Inr (Fresh v), s')"
    unfolding create_gift_def Let_def request_ok_def by (auto simp: prog_iff split: prod.splits if_splits)
  from prepare_row [OF g(1)] place_fresh [OF g(2)] none v(2) that show ?thesis by auto
qed

lemma find_app: "find P xs = Some x \<Longrightarrow> find P (xs @ ys) = Some x"
  by (induction xs) auto

lemma find_evolved:
  assumes "list_all2 R xs ys" "\<And>x y. R x y \<Longrightarrow> P y = P x" "find P xs = Some x"
  shows "\<exists>y. find P ys = Some y \<and> R x y"
  using assms(1,3) by (induction rule: list_all2_induct) (auto split: if_splits simp: assms(2))

lemma by_key_evolves:
  assumes "evolves (mk_gifts s) (mk_gifts s')" "by_key u k s = Some g"
  obtains g' where "by_key u k s' = Some g'" "gift_evolves g g'"
proof -
  obtain old new where s': "mk_gifts s' = old @ new" "list_all2 gift_evolves (mk_gifts s) old"
    using assms(1) by (auto simp: evolves_def)
  have same: "(gf_senderId y = u \<and> gf_idempotencyKey y = Some k) = (gf_senderId x = u \<and> gf_idempotencyKey x = Some k)"
    if "gift_evolves x y" for x y
    using that unfolding gift_evolves_def identity_of_def
    by (auto dest!: arg_cong [where f = "\<lambda>g. (gf_senderId g, gf_idempotencyKey g)"])
  from find_evolved [OF s'(2), of "\<lambda>g. gf_senderId g = u \<and> gf_idempotencyKey g = Some k" g] assms(2) same
  obtain g' where "find (\<lambda>g. gf_senderId g = u \<and> gf_idempotencyKey g = Some k) old = Some g'" "gift_evolves g g'"
    unfolding by_key_def by blast
  with s'(1) that show ?thesis by (simp add: by_key_def find_app)
qed

text \<open>
  C26: creation is idempotent under its key: once a gift is made, whatever the handlers run whole
  do afterwards, the same request under the same key returns that gift and changes nothing; and
  no request under that key by that sender succeeds with another gift or with another content.
\<close>

theorem create_gift_idempotent:
  assumes "create_gift e body u kk s = (Inr (Fresh v), s')" "trimmed_or_null kk = Some k"
    and "distinct (map gf_id (mk_gifts s))" "gift_runs s' s''" "en_sha e' = en_sha e"
  shows "(\<exists>w. create_gift e' body u kk s'' = (Inr (Replayed w), s'') \<and> gf_id (vg_gift w) = gf_id v)
    \<and> (\<forall>body' x t. create_gift e' body' u kk s'' = (Inr x, t) \<longrightarrow> t = s'' \<and> (\<exists>w. x = Replayed w \<and> gf_id (vg_gift w) = gf_id v)
      \<and> computeGiftRequestHash (en_sha e) body' = computeGiftRequestHash (en_sha e) body)"
proof -
  obtain g where g: "mk_gifts s' = mk_gifts s @ [g]" "gf_id v = gf_id g" "gf_senderId g = u" "gf_idempotencyKey g = Some k"
    "gf_idempotencyRequestHash g = Some (computeGiftRequestHash (en_sha e) body)" "by_key u k s = None" "request_ok body k"
    using create_fresh [OF assms(1,2)] by blast
  have "evolves (mk_gifts s) (mk_gifts s')"
    using turns_run [OF create_turns, of s e body u kk] assms(1) by simp
  from evolves_distinct [OF this assms(3)] have ev: "evolves (mk_gifts s') (mk_gifts s'')"
    by (rule runs_evolve [OF assms(4)])
  have "by_key u k s' = Some g" using g by (simp add: by_key_def find_append_other)
  from by_key_evolves [OF ev this] obtain w where w: "by_key u k s'' = Some w" "gift_evolves g w" by blast
  have hash: "gf_idempotencyRequestHash w = Some (computeGiftRequestHash (en_sha e) body)"
    using w(2) g(5) unfolding gift_evolves_def identity_of_def
    by (auto dest!: arg_cong [where f = gf_idempotencyRequestHash])
  show ?thesis
    using create_known [OF assms(2) w(1), of e'] hash g(2,7) gift_evolves_id [OF w(2)] assms(5) by auto
qed

section \<open>Concrete runs\<close>

definition gifted_market :: market where
  "gifted_market = snd (create_gift sample_menv (gift_body sample_paid_order) ''u1'' (Some ''k1'') checkout_market)"

definition cancelled_market :: market where
  "cancelled_market = snd (cancel_gift sample_menv ''g1'' ''u1'' gifted_market)"

lemma gifted_run:
  obtains v where "create_gift sample_menv (gift_body sample_paid_order) ''u1'' (Some ''k1'') checkout_market = (Inr (Fresh v), gifted_market)"
proof -
  let ?run = "create_gift sample_menv (gift_body sample_paid_order) ''u1'' (Some ''k1'') checkout_market"
  have "case fst ?run of Inr (Fresh v) \<Rightarrow> True | _ \<Rightarrow> False" by code_simp
  then obtain v where "fst ?run = Inr (Fresh v)" by (auto split: sum.splits CreatedGift.splits)
  then show ?thesis using that [of v] by (simp add: gifted_market_def prod_eq_iff)
qed

lemma gifted_distinct: "distinct (map gf_id (mk_gifts gifted_market))" "distinct (map gf_id (mk_gifts checkout_market))"
  by code_simp+

text \<open>The gift is cancelled, then confirmed by its receiver, whose confirmation comes too late.\<close>

lemma gifts_follow_graph_witness:
  "map gf_status (mk_gifts cancelled_market) = [''cancelled'']
   \<and> map gf_status (mk_gifts (snd (confirmAddress sample_menv ''g1'' ''u2'' None cancelled_market))) = [''cancelled'']"
proof
  have s: "map gf_status (mk_gifts cancelled_market) = [''cancelled'']" by code_simp
  then show "map gf_status (mk_gifts cancelled_market) = [''cancelled'']" .
  let ?s = "snd (confirmAddress sample_menv ''g1'' ''u2'' None cancelled_market)"
  have d: "distinct (map gf_id (mk_gifts cancelled_market))" by code_simp
  have one: "length (mk_gifts ?s) = 1" by code_simp
  obtain g where g: "mk_gifts cancelled_market = [g]" "gf_status g = ''cancelled''" using s by auto
  from gifts_follow_graph [OF gift_runs.confirm [OF gift_runs.start] d, of sample_menv "''g1''" "''u2''" None] g
  obtain g' where "g' \<in> set (mk_gifts ?s)" "gf_status g' = ''cancelled''" by auto
  with one show "map gf_status (mk_gifts ?s) = [''cancelled'']" by (auto simp: length_Suc_conv)
qed

lemma refused_gift_leaves_no_trace_witness:
  "\<exists>ex s'. create_gift sample_menv (gift_body sample_paid_order) ''u2'' None checkout_market = (Inl ex, s')
     \<and> (s' = checkout_market \<or> turned_away ''u2'' checkout_market ex s')"
proof -
  let ?run = "create_gift sample_menv (gift_body sample_paid_order) ''u2'' None checkout_market"
  have "case fst ?run of Inl ex \<Rightarrow> True | _ \<Rightarrow> False" by code_simp
  then obtain ex where "?run = (Inl ex, snd ?run)" by (auto split: sum.splits simp: prod_eq_iff)
  from this refused_gift_leaves_no_trace [OF this] show ?thesis by blast
qed

lemma create_gift_idempotent_witness:
  "\<exists>w. create_gift sample_menv (gift_body sample_paid_order) ''u1'' (Some ''k1'') cancelled_market = (Inr (Replayed w), cancelled_market)"
proof -
  obtain v where v: "create_gift sample_menv (gift_body sample_paid_order) ''u1'' (Some ''k1'') checkout_market = (Inr (Fresh v), gifted_market)"
    by (rule gifted_run)
  have "gift_runs gifted_market cancelled_market"
    unfolding cancelled_market_def by (rule gift_runs.cancel [OF gift_runs.start])
  moreover have "trimmed_or_null (Some ''k1'') = Some ''k1''" by code_simp
  ultimately show ?thesis using create_gift_idempotent [OF v _ gifted_distinct(2) _ refl] by blast
qed

text \<open>
  Interleaved, the confirmation does break the graph: it reads the pending gift, the sender
  cancels, and the write by id alone then confirms the cancelled gift.
\<close>

lemma late_confirmation_revives:
  "case mk_gifts gifted_market of
     [g] \<Rightarrow> fst (plan_confirm sample_menv g ''u2'' None gifted_market) = Inr sample_address
       \<and> map gf_status (mk_gifts cancelled_market) = [''cancelled'']
       \<and> map gf_status (mk_gifts (snd (confirm_write sample_menv g ''a1'' cancelled_market))) = [''address_confirmed'']
   | _ \<Rightarrow> False"
  by code_simp

end
