(* ===== verification/Ledger_Repair.thy ===== *)
theory Ledger_Repair
  imports Orders
begin

text \<open>
  The reconciliation of the documents with the ledger, \<open>financial/ledger-reconciliation.service.ts\<close>:
  which issued invoices and paid orders have no posting, and the repair that posts what is
  missing from the persisted rows.
\<close>

record MissingLedgerReport =
  ml_corporateInvoiceIds :: "string list"
  ml_merchantInvoiceIds :: "string list"
  ml_orderIds :: "string list"

record RepairOutcome =
  ro_posted :: nat
  ro_alreadyPresent :: nat

section \<open>Visibility\<close>

text \<open>A posting counts under its deterministic key or, for rows from before the keys, under its campaign.\<close>

definition unposted_invoice :: "FinancialEventType \<Rightarrow> string \<Rightarrow> string \<Rightarrow> string \<Rightarrow> LedgerEntry list \<Rightarrow> bool" where
  "unposted_invoice event reason invoiceId campaignId t \<longleftrightarrow>
     (let entries = filter (\<lambda>r. le_reasonCode r = reason) t in
      Some (ledgerIdempotencyKey event invoiceId) \<notin> set (map le_idempotencyKey entries)
      \<and> Some campaignId \<notin> set (map le_campaignId entries))"

definition missingCorporateInvoicePostings :: "market \<Rightarrow> string list" where
  "missingCorporateInvoicePostings s =
     map ci_id (filter (\<lambda>i. unposted_invoice CORPORATE_INVOICE_ISSUED ''CORPORATE_RECEIVABLE'' (ci_id i) (ci_campaignId i) (db_ledger s))
       (filter (\<lambda>i. ci_status i = ''issued'') (db_corporate s)))"

definition missingMerchantInvoicePostings :: "market \<Rightarrow> string list" where
  "missingMerchantInvoicePostings s =
     map mi_id (filter (\<lambda>i. unposted_invoice MERCHANT_INVOICE_ISSUED ''MERCHANT_GOODS_INVOICED'' (mi_id i) (mi_campaignId i) (db_ledger s))
       (filter (\<lambda>i. mi_status i = ''issued'') (db_merchant s)))"

definition missingOrderPostings :: "market \<Rightarrow> string list" where
  "missingOrderPostings s =
     map or_id (filter (\<lambda>r. Some (or_id r) \<notin> set (map le_orderId (filter (\<lambda>l. le_reasonCode l = ''ORDER_PAID'') (db_ledger s))))
       (filter (\<lambda>r. or_status r = ''paid'') (mk_orders s)))"

definition findMissing :: "market \<Rightarrow> MissingLedgerReport" where
  "findMissing s =
     \<lparr> ml_corporateInvoiceIds = missingCorporateInvoicePostings s,
       ml_merchantInvoiceIds = missingMerchantInvoicePostings s, ml_orderIds = missingOrderPostings s \<rparr>"

section \<open>Repair\<close>

definition posted_one :: RepairOutcome where
  "posted_one = \<lparr> ro_posted = 1, ro_alreadyPresent = 0 \<rparr>"

definition present_one :: RepairOutcome where
  "present_one = \<lparr> ro_posted = 0, ro_alreadyPresent = 1 \<rparr>"

text \<open>The posting of an invoice, from its row.\<close>

definition system_posting :: "FinancialEventType \<Rightarrow> string \<Rightarrow> rat \<Rightarrow> string \<Rightarrow> string \<Rightarrow> RecordLedgerInput" where
  "system_posting event reason amount currency anchor =
     (ledger_base event reason [] (Fin amount) currency ''credit'')
       \<lparr> li_actorType := ''system'', li_actorId := None, li_counterpartyType := Some ''company'',
         li_idempotencyKey := Some (ledgerIdempotencyKey event anchor) \<rparr>"

definition corporate_posting :: "CorporateInvoice \<Rightarrow> RecordLedgerInput" where
  "corporate_posting i =
     (system_posting CORPORATE_INVOICE_ISSUED ''CORPORATE_RECEIVABLE'' (moneyToNumber (MoneyDecimal (ci_totalAmount i))) (ci_currency i) (ci_id i))
       \<lparr> li_campaignId := Some (ci_campaignId i), li_orgId := Some (ci_orgId i),
         li_metadata := Some (JObj [(''invoiceId'', JStr (ci_id i)), (''recipientCount'', JNum (of_int (ci_recipientCount i))),
                                    (''repairedBackfill'', JBool True)]) \<rparr>"

definition merchant_posting :: "MerchantInvoice \<Rightarrow> RecordLedgerInput" where
  "merchant_posting i =
     (system_posting MERCHANT_INVOICE_ISSUED ''MERCHANT_GOODS_INVOICED'' (moneyToNumber (MoneyDecimal (mi_totalAmount i))) (mi_currency i) (mi_id i))
       \<lparr> li_campaignId := Some (mi_campaignId i), li_orgId := Some (mi_orgId i), li_storeId := Some (mi_storeId i),
         li_metadata := Some (JObj [(''invoiceId'', JStr (mi_id i)), (''recipientCount'', JNum (of_int (mi_recipientCount i))),
                                    (''passThrough'', JBool True), (''repairedBackfill'', JBool True)]) \<rparr>"

text \<open>The repair of one document: nothing when its key is there, one posting otherwise.\<close>

definition ensure_posting :: "RecordLedgerInput \<Rightarrow> (market, RepairOutcome) prog" where
  "ensure_posting i =
     seq (reads (\<lambda>s. case li_idempotencyKey i of None \<Rightarrow> None
            | Some k \<Rightarrow> if k = [] then None else findByIdempotencyKey k (db_ledger s))) (\<lambda>existing.
     if existing \<noteq> None then ret present_one
     else seq (market_ledger_record i) (\<lambda>_. ret posted_one))"

definition repairCorporateInvoice :: "string \<Rightarrow> (market, RepairOutcome) prog" where
  "repairCorporateInvoice invoiceId =
     seq (reads (\<lambda>s. find (\<lambda>i. ci_id i = invoiceId) (db_corporate s))) (\<lambda>read.
     seq (found read (NotFound ''invoice_not_found'')) (\<lambda>invoice.
     ensure_posting (corporate_posting invoice)))"

definition repairMerchantInvoice :: "string \<Rightarrow> (market, RepairOutcome) prog" where
  "repairMerchantInvoice invoiceId =
     seq (reads (\<lambda>s. find (\<lambda>i. mi_id i = invoiceId) (db_merchant s))) (\<lambda>read.
     seq (found read (NotFound ''invoice_not_found'')) (\<lambda>invoice.
     ensure_posting (merchant_posting invoice)))"

definition mark_backfill :: "RecordLedgerInput \<Rightarrow> RecordLedgerInput" where
  "mark_backfill i = i\<lparr> li_metadata := Some (case li_metadata i of
       Some (JObj fs) \<Rightarrow> JObj (fs @ [(''repairedBackfill'', JBool True)])
     | _ \<Rightarrow> JObj [(''repairedBackfill'', JBool True)]) \<rparr>"

fun repair_legs :: "RecordLedgerInput list \<Rightarrow> RepairOutcome \<Rightarrow> (market, RepairOutcome) prog" where
  "repair_legs [] counts = ret counts"
| "repair_legs (i # is) counts =
     seq (ensure_posting (mark_backfill i)) (\<lambda>one.
     repair_legs is \<lparr> ro_posted = ro_posted counts + ro_posted one,
                      ro_alreadyPresent = ro_alreadyPresent counts + ro_alreadyPresent one \<rparr>)"

definition repairOrder :: "string \<Rightarrow> (market, RepairOutcome) prog" where
  "repairOrder orderId =
     seq (reads (\<lambda>s. find (\<lambda>r. or_id r = orderId) (mk_orders s))) (\<lambda>read.
     seq (found read (NotFound ''order_not_found'')) (\<lambda>r.
     if or_status r \<noteq> ''paid'' then ret \<lparr> ro_posted = 0, ro_alreadyPresent = 0 \<rparr>
     else
       seq (reads (payment_of orderId)) (\<lambda>payment.
       repair_legs (buildOrderLedgerEntries (paid_order r) (map_option py_id payment))
         \<lparr> ro_posted = 0, ro_alreadyPresent = 0 \<rparr>)))"

text \<open>The sweep: one repair per missing document; the postings are added up.\<close>

fun repair_each :: "(string \<Rightarrow> (market, RepairOutcome) prog) \<Rightarrow> string list \<Rightarrow> nat \<Rightarrow> (market, nat) prog" where
  "repair_each repair [] posted = ret posted"
| "repair_each repair (i # is) posted = seq (repair i) (\<lambda>one. repair_each repair is (posted + ro_posted one))"

definition repairAll :: "(market, MissingLedgerReport \<times> nat) prog" where
  "repairAll =
     seq (reads findMissing) (\<lambda>missing.
     seq (repair_each repairCorporateInvoice (ml_corporateInvoiceIds missing) 0) (\<lambda>a.
     seq (repair_each repairMerchantInvoice (ml_merchantInvoiceIds missing) a) (\<lambda>b.
     seq (repair_each repairOrder (ml_orderIds missing) b) (\<lambda>c.
     ret (missing, c)))))"

section \<open>Lemmas\<close>

definition has_key :: "string \<Rightarrow> LedgerEntry list \<Rightarrow> bool" where
  "has_key k t \<longleftrightarrow> (\<exists>r \<in> set t. le_idempotencyKey r = Some k)"

lemma has_key_append [simp]: "has_key k (t @ us) \<longleftrightarrow> has_key k t \<or> has_key k us"
  by (auto simp: has_key_def)

lemma has_key_find: "findByIdempotencyKey k t = None \<longleftrightarrow> \<not> has_key k t"
  by (auto simp: findByIdempotencyKey_def has_key_def find_None_iff)

text \<open>What the checks of \<open>record\<close> ask of a posting of the producers.\<close>

lemma validate_accepts:
  assumes "li_amount i = Fin x" "0 < x" "to_dec x = Inr k" "js_upper (js_trim (li_currency i)) \<noteq> []"
    "li_direction i = ''credit'' \<or> li_direction i = ''debit''" "li_eventType i = event_name e"
    "li_reasonCode i \<noteq> []" "js_trim (li_reasonCode i) = li_reasonCode i"
    "li_actorType i \<noteq> []" "js_trim (li_actorType i) = li_actorType i"
  shows "\<exists>r. validate_entry i = Inr r \<and> le_reasonCode r = li_reasonCode i \<and> le_orderId r = li_orderId i
    \<and> le_idempotencyKey r = trimmed_or_null (li_idempotencyKey i) \<and> le_amount r = k
    \<and> le_direction r = li_direction i \<and> le_currency r = js_upper (js_trim (li_currency i))
    \<and> le_eventType r = event_name e \<and> le_campaignId r = li_campaignId i"
  using assms event_name_positive [of e]
  by (auto simp: validate_entry_def is_lifecycle_marker_def Let_def number_value_def)

text \<open>Event names carry no colon, so a key determines its event and its anchor.\<close>

lemma event_name_no_colon: "CHR '':'' \<notin> set (event_name e)"
  by (cases e) simp_all

lemma ledger_key_inj:
  "ledgerIdempotencyKey e a = ledgerIdempotencyKey e' a' \<longleftrightarrow> event_name e = event_name e' \<and> a = a'"
proof
  assume "ledgerIdempotencyKey e a = ledgerIdempotencyKey e' a'"
  then have eq: "event_name e @ CHR '':'' # a = event_name e' @ CHR '':'' # a'" by (simp add: ledgerIdempotencyKey_def)
  moreover have "takeWhile (\<lambda>c. c \<noteq> CHR '':'') (event_name e @ CHR '':'' # a) = event_name e"
    "takeWhile (\<lambda>c. c \<noteq> CHR '':'') (event_name e' @ CHR '':'' # a') = event_name e'"
    using event_name_no_colon [of e] event_name_no_colon [of e'] by (auto simp: takeWhile_append)
  ultimately have "event_name e = event_name e'" by metis
  with eq show "event_name e = event_name e' \<and> a = a'" by simp
qed (simp add: ledgerIdempotencyKey_def)

definition sound_posting :: "RecordLedgerInput \<Rightarrow> string \<Rightarrow> LedgerEntry \<Rightarrow> LedgerEntry list \<Rightarrow> bool" where
  "sound_posting i k r t \<longleftrightarrow> li_idempotencyKey i = Some k \<and> trimmed_or_null (Some k) = Some k
     \<and> validate_entry i = Inr r \<and> (has_key k t \<or> \<not> order_reason_taken r t)"

text \<open>A posting is made exactly when its key is not there; its key is there afterwards.\<close>

lemma ensure_posting_run:
  assumes "sound_posting i k r t"
  shows "\<exists>us. ensure_posting i (s\<lparr> db_ledger := t \<rparr>)
        = (Inr \<lparr> ro_posted = length us, ro_alreadyPresent = 1 - length us \<rparr>, s\<lparr> db_ledger := t @ us \<rparr>)
    \<and> us = (if has_key k t then [] else [r]) \<and> le_idempotencyKey r = Some k"
proof -
  have k: "li_idempotencyKey i = Some k" "k \<noteq> []" "trimmed_or_null (Some k) = Some k"
    using assms trimmed_or_null_Some by (auto simp: sound_posting_def)
  have rk: "le_idempotencyKey r = Some k" using assms validate_entry_key by (fastforce simp: sound_posting_def)
  show ?thesis
  proof (cases "has_key k t")
    case True
    then have "findByIdempotencyKey k t \<noteq> None" by (simp add: has_key_find)
    with k rk True show ?thesis by (intro exI [of _ "[]"]) (simp add: ensure_posting_def present_one_def)
  next
    case False
    then have "findByIdempotencyKey k t = None" by (simp add: has_key_find)
    moreover from False have "insert_entry r t = Inr (t @ [r])"
      using assms rk by (auto simp: sound_posting_def insert_entry_def key_taken_def has_key_def)
    then have "record_entry i t = (Inr r, t @ [r])"
      using assms by (simp add: sound_posting_def record_entry_def keyed_post_def)
    ultimately show ?thesis using k rk False
      by (intro exI [of _ "[r]"])
         (simp add: ensure_posting_def posted_one_def market_ledger_record_def on_table_def seq_def)
  qed
qed

text \<open>
  Rows under the keys of the producers are theirs, and the rows of an order carry the keys of
  their legs: what every posting since the keys were introduced satisfies.
\<close>

definition ORDER_LEGS :: "(FinancialEventType \<times> string) list" where
  "ORDER_LEGS = [(ORDER_PAID, ''ORDER_PAID''), (QIFT_SERVICE_FEE_ACCRUED, ''QIFT_SERVICE_FEE''),
     (MERCHANT_PAYABLE_ACCRUED, ''MERCHANT_PAYABLE''), (DELIVERY_FEE_ACCRUED, ''DELIVERY_FEE'')]"

definition row_keyed :: "LedgerEntry \<Rightarrow> bool" where
  "row_keyed r \<longleftrightarrow>
     (\<forall>a. le_idempotencyKey r = Some (ledgerIdempotencyKey CORPORATE_INVOICE_ISSUED a) \<longrightarrow> le_reasonCode r = ''CORPORATE_RECEIVABLE'')
   \<and> (\<forall>a. le_idempotencyKey r = Some (ledgerIdempotencyKey MERCHANT_INVOICE_ISSUED a) \<longrightarrow> le_reasonCode r = ''MERCHANT_GOODS_INVOICED'')
   \<and> (\<forall>a. le_idempotencyKey r = Some (ledgerIdempotencyKey ORDER_PAID a) \<longrightarrow> le_reasonCode r = ''ORDER_PAID'' \<and> le_orderId r = Some a)
   \<and> (\<forall>(event, reason) \<in> set ORDER_LEGS. \<forall>a. le_orderId r = Some a \<and> le_reasonCode r = reason \<longrightarrow>
        le_idempotencyKey r = Some (ledgerIdempotencyKey event a))"

definition ledger_keyed :: "LedgerEntry list \<Rightarrow> bool" where
  "ledger_keyed t \<longleftrightarrow> (\<forall>r \<in> set t. row_keyed r)"

lemma ledger_keyed_append: "ledger_keyed t \<Longrightarrow> us = [] \<or> us = [r] \<Longrightarrow> row_keyed r \<Longrightarrow> ledger_keyed (t @ us)"
  by (auto simp: ledger_keyed_def)

subsection \<open>What is owed\<close>

text \<open>
  The postings a sweep owes, read off the columns of the documents: key, event, reason,
  direction, amount in minor units, currency, and the order or campaign of one posting for every
  missing invoice, and of up to four for every missing order.
\<close>

type_synonym due_posting =
  "string option \<times> string \<times> string \<times> string \<times> int \<times> string \<times> string option \<times> string option"

definition gist :: "LedgerEntry \<Rightarrow> due_posting" where
  "gist r = (le_idempotencyKey r, le_eventType r, le_reasonCode r, le_direction r, le_amount r, le_currency r,
     le_orderId r, le_campaignId r)"

definition due_for ::
  "FinancialEventType \<Rightarrow> string \<Rightarrow> string \<Rightarrow> string \<Rightarrow> int \<Rightarrow> string \<Rightarrow> string option \<Rightarrow> string option \<Rightarrow> due_posting"
where
  "due_for event anchor reason direction amount currency orderId campaignId =
     (Some (ledgerIdempotencyKey event anchor), event_name event, reason, direction, amount, js_upper (js_trim currency),
      orderId, campaignId)"

definition corporate_due :: "CorporateInvoice \<Rightarrow> due_posting" where
  "corporate_due i =
     due_for CORPORATE_INVOICE_ISSUED (ci_id i) ''CORPORATE_RECEIVABLE'' ''credit'' (ci_totalAmount i) (ci_currency i)
       None (Some (ci_campaignId i))"

definition merchant_due :: "MerchantInvoice \<Rightarrow> due_posting" where
  "merchant_due i =
     due_for MERCHANT_INVOICE_ISSUED (mi_id i) ''MERCHANT_GOODS_INVOICED'' ''credit'' (mi_totalAmount i) (mi_currency i)
       None (Some (mi_campaignId i))"

definition leg_due :: "Order \<Rightarrow> FinancialEventType \<Rightarrow> string \<Rightarrow> string \<Rightarrow> rat \<Rightarrow> due_posting" where
  "leg_due r event reason direction x =
     due_for event (or_id r) reason direction (dec_round (100 * x)) (or_currency r) (Some (or_id r)) None"

definition order_dues :: "Order \<Rightarrow> due_posting list" where
  "order_dues r =
     [leg_due r ORDER_PAID ''ORDER_PAID'' ''credit'' (or_totalAmount r)]
     @ (if 0 < or_serviceFee r then [leg_due r QIFT_SERVICE_FEE_ACCRUED ''QIFT_SERVICE_FEE'' ''credit'' (or_serviceFee r)] else [])
     @ (if truthy (or_storeId r) \<and> 0 < or_productPrice r
        then [leg_due r MERCHANT_PAYABLE_ACCRUED ''MERCHANT_PAYABLE'' ''debit'' (or_productPrice r)] else [])
     @ (if 0 < or_deliveryFee r then [leg_due r DELIVERY_FEE_ACCRUED ''DELIVERY_FEE'' ''debit'' (or_deliveryFee r)] else [])"

definition due_postings :: "market \<Rightarrow> due_posting list" where
  "due_postings s =
     map corporate_due (filter (\<lambda>i. ci_id i \<in> set (missingCorporateInvoicePostings s)) (db_corporate s))
     @ map merchant_due (filter (\<lambda>i. mi_id i \<in> set (missingMerchantInvoicePostings s)) (db_merchant s))
     @ concat (map order_dues (filter (\<lambda>r. or_id r \<in> set (missingOrderPostings s)) (mk_orders s)))"

definition unkeyed :: "LedgerEntry list \<Rightarrow> due_posting \<Rightarrow> bool" where
  "unkeyed t d \<longleftrightarrow> fst d \<notin> set (map le_idempotencyKey t)"

lemma fst_due_for [simp]: "fst (due_for event a reason direction x c oid cid) = Some (ledgerIdempotencyKey event a)"
  by (simp add: due_for_def)

lemma fst_gist [simp]: "fst (gist r) = le_idempotencyKey r"
  by (simp add: gist_def)

lemma has_key_set: "has_key k t \<longleftrightarrow> Some k \<in> set (map le_idempotencyKey t)"
  by (force simp: has_key_def image_iff)

lemma dues_on_books:
  assumes "map gist us = filter (unkeyed t) ds" "d \<in> set ds"
  shows "fst d \<in> set (map le_idempotencyKey (t @ us))"
proof (cases "unkeyed t d")
  case True
  with assms have "d \<in> set (map gist us)" by simp
  then show ?thesis by auto
qed (simp add: unkeyed_def)

text \<open>What two repairs post one after the other, when they owe different keys.\<close>

lemma gists_append:
  assumes us: "map gist us = filter (unkeyed t) ds" and vs: "map gist vs = filter (unkeyed (t @ us)) es"
    and keys: "distinct (map fst (ds @ es))"
  shows "map gist (us @ vs) = filter (unkeyed t) (ds @ es)"
proof -
  have "le_idempotencyKey r \<in> fst ` set ds" if "r \<in> set us" for r
  proof -
    have "gist r \<in> set (filter (unkeyed t) ds)" using that us [symmetric] by simp
    then show ?thesis by (intro image_eqI [of _ _ "gist r"]) simp_all
  qed
  then have "unkeyed (t @ us) e \<longleftrightarrow> unkeyed t e" if "e \<in> set es" for e
    using that keys by (fastforce simp: unkeyed_def)
  then have "filter (unkeyed (t @ us)) es = filter (unkeyed t) es" by (intro filter_cong) simp_all
  with us vs show ?thesis by simp
qed

text \<open>The repair of one document, from any ledger with keyed rows: it posts what is owed and not yet keyed.\<close>

definition heals :: "market \<Rightarrow> (market, RepairOutcome) prog \<Rightarrow> due_posting list \<Rightarrow> bool" where
  "heals s repair ds \<longleftrightarrow> (\<forall>t. ledger_keyed t \<longrightarrow>
     (\<exists>us out. repair (s\<lparr> db_ledger := t \<rparr>) = (Inr out, s\<lparr> db_ledger := t @ us \<rparr>) \<and> ro_posted out = length us
        \<and> ledger_keyed (t @ us) \<and> map gist us = filter (unkeyed t) ds))"

lemma healsE:
  assumes "heals s repair ds" "ledger_keyed t"
  obtains us out where "repair (s\<lparr> db_ledger := t \<rparr>) = (Inr out, s\<lparr> db_ledger := t @ us \<rparr>)" "ro_posted out = length us"
    "ledger_keyed (t @ us)" "map gist us = filter (unkeyed t) ds"
  using assms unfolding heals_def by blast

lemma ensure_posting_heals:
  assumes "\<And>t. ledger_keyed t \<Longrightarrow> sound_posting i k r t" "row_keyed r" "gist r = d"
  shows "heals s (ensure_posting i) [d]"
  unfolding heals_def
proof (intro allI impI)
  fix t assume t: "ledger_keyed t"
  from ensure_posting_run [OF assms(1) [OF t], of s] obtain us where us:
    "ensure_posting i (s\<lparr> db_ledger := t \<rparr>)
       = (Inr \<lparr> ro_posted = length us, ro_alreadyPresent = 1 - length us \<rparr>, s\<lparr> db_ledger := t @ us \<rparr>)"
    "us = (if has_key k t then [] else [r])" "le_idempotencyKey r = Some k" by blast
  then have "fst d = Some k" using assms(3) fst_gist by metis
  with us have "map gist us = filter (unkeyed t) [d]"
    using assms(3) by (simp add: unkeyed_def has_key_set)
  moreover have "ledger_keyed (t @ us)" using us(2) t assms(2) by (intro ledger_keyed_append) auto
  ultimately show "\<exists>us out. ensure_posting i (s\<lparr> db_ledger := t \<rparr>) = (Inr out, s\<lparr> db_ledger := t @ us \<rparr>)
      \<and> ro_posted out = length us \<and> ledger_keyed (t @ us) \<and> map gist us = filter (unkeyed t) [d]"
    using us(1) by (intro exI [of _ us]) simp
qed

lemma repair_each_run:
  assumes "\<And>x. x \<in> set xs \<Longrightarrow> heals s (repair (f x)) (ds x)" "distinct (map fst (concat (map ds xs)))" "ledger_keyed t"
  shows "\<exists>us. repair_each repair (map f xs) n (s\<lparr> db_ledger := t \<rparr>) = (Inr (n + length us), s\<lparr> db_ledger := t @ us \<rparr>)
    \<and> ledger_keyed (t @ us) \<and> map gist us = filter (unkeyed t) (concat (map ds xs))"
  using assms
proof (induction xs arbitrary: n t)
  case Nil
  then show ?case by (intro exI [of _ "[]"]) simp
next
  case (Cons x xs)
  obtain us out where one:
    "repair (f x) (s\<lparr> db_ledger := t \<rparr>) = (Inr out, s\<lparr> db_ledger := t @ us \<rparr>)" "ro_posted out = length us"
    "ledger_keyed (t @ us)" "map gist us = filter (unkeyed t) (ds x)"
    by (rule healsE [OF Cons.prems(1) [OF list.set_intros(1)] Cons.prems(3)])
  from Cons.IH [OF _ _ one(3), of "n + length us"] Cons.prems obtain vs where rest:
    "repair_each repair (map f xs) (n + length us) (s\<lparr> db_ledger := t @ us \<rparr>)
       = (Inr (n + length us + length vs), s\<lparr> db_ledger := (t @ us) @ vs \<rparr>)"
    "ledger_keyed ((t @ us) @ vs)" "map gist vs = filter (unkeyed (t @ us)) (concat (map ds xs))" by auto
  from gists_append [OF one(4) rest(3)] Cons.prems(2) one rest show ?case
    by (intro exI [of _ "us @ vs"]) (simp add: seq_def add.assoc)
qed

lemma repair_legs_run:
  assumes "list_all2 (\<lambda>i d. heals s (ensure_posting (mark_backfill i)) [d]) is ds" "distinct (map fst ds)" "ledger_keyed t"
  shows "\<exists>us out. repair_legs is counts (s\<lparr> db_ledger := t \<rparr>) = (Inr out, s\<lparr> db_ledger := t @ us \<rparr>)
    \<and> ro_posted out = ro_posted counts + length us \<and> ledger_keyed (t @ us) \<and> map gist us = filter (unkeyed t) ds"
  using assms
proof (induction "is" ds arbitrary: counts t rule: list_all2_induct)
  case Nil
  then show ?case by (intro exI [of _ "[]"]) simp
next
  case (Cons i "is" d ds)
  obtain us out where one:
    "ensure_posting (mark_backfill i) (s\<lparr> db_ledger := t \<rparr>) = (Inr out, s\<lparr> db_ledger := t @ us \<rparr>)" "ro_posted out = length us"
    "ledger_keyed (t @ us)" "map gist us = filter (unkeyed t) [d]"
    by (rule healsE [OF Cons.hyps(1) Cons.prems(2)])
  let ?counts = "\<lparr> ro_posted = ro_posted counts + ro_posted out, ro_alreadyPresent = ro_alreadyPresent counts + ro_alreadyPresent out \<rparr>"
  from Cons.IH [OF _ one(3), of ?counts] Cons.prems obtain vs out' where rest:
    "repair_legs is ?counts (s\<lparr> db_ledger := t @ us \<rparr>) = (Inr out', s\<lparr> db_ledger := (t @ us) @ vs \<rparr>)"
    "ro_posted out' = ro_posted ?counts + length vs" "ledger_keyed ((t @ us) @ vs)"
    "map gist vs = filter (unkeyed (t @ us)) ds" by auto
  from gists_append [OF one(4) rest(4)] Cons.prems(1) have "map gist (us @ vs) = filter (unkeyed t) (d # ds)" by simp
  with one rest show ?case by (intro exI [of _ "us @ vs"] exI [of _ out']) (simp add: seq_def)
qed

subsection \<open>The documents\<close>

text \<open>
  Documents as the services write them: ids that a key can carry, amounts a column can hold,
  a currency; the ids of a table are unique.
\<close>

definition anchor_ok :: "string \<Rightarrow> bool" where
  "anchor_ok a \<longleftrightarrow> js_trim a = a \<and> a \<noteq> []"

definition postable :: "dec2 \<Rightarrow> string \<Rightarrow> bool" where
  "postable amount currency \<longleftrightarrow> 0 < amount \<and> amount < 10 ^ 12 \<and> js_upper (js_trim currency) \<noteq> []"

definition column_fits :: "rat \<Rightarrow> bool" where
  "column_fits x \<longleftrightarrow> (case to_dec x of Inr _ \<Rightarrow> True | Inl _ \<Rightarrow> False)"

definition order_postable :: "Order \<Rightarrow> bool" where
  "order_postable r \<longleftrightarrow> anchor_ok (or_id r) \<and> js_upper (js_trim (or_currency r)) \<noteq> [] \<and> 0 < or_totalAmount r
     \<and> column_fits (or_totalAmount r) \<and> column_fits (or_serviceFee r) \<and> column_fits (or_productPrice r)
     \<and> column_fits (or_deliveryFee r)"

definition documents_ok :: "market \<Rightarrow> bool" where
  "documents_ok s \<longleftrightarrow>
     distinct (map ci_id (db_corporate s)) \<and> distinct (map mi_id (db_merchant s)) \<and> distinct (map or_id (mk_orders s))
   \<and> (\<forall>i \<in> set (db_corporate s). ci_status i = ''issued'' \<longrightarrow> anchor_ok (ci_id i) \<and> postable (ci_totalAmount i) (ci_currency i))
   \<and> (\<forall>i \<in> set (db_merchant s). mi_status i = ''issued'' \<longrightarrow> anchor_ok (mi_id i) \<and> postable (mi_totalAmount i) (mi_currency i))
   \<and> (\<forall>r \<in> set (mk_orders s). or_status r = ''paid'' \<longrightarrow> order_postable r)"

lemmas trim_eval = js_trim_def js_space_def

lemma corporate_sound:
  assumes "anchor_ok (ci_id i)" "postable (ci_totalAmount i) (ci_currency i)"
  shows "\<exists>r. row_keyed r \<and> gist r = corporate_due i \<and> (\<forall>t. sound_posting (corporate_posting i) (ledgerIdempotencyKey CORPORATE_INVOICE_ISSUED (ci_id i)) r t)"
proof -
  let ?k = "ledgerIdempotencyKey CORPORATE_INVOICE_ISSUED (ci_id i)"
  have key: "trimmed_or_null (Some ?k) = Some ?k" using assms order_key_trimmed by (simp add: anchor_ok_def)
  have "to_dec (dec_num (ci_totalAmount i)) = Inr (ci_totalAmount i)" "0 < dec_num (ci_totalAmount i)"
    using assms dec_num_pos_iff [of "ci_totalAmount i"] by (simp_all add: postable_def to_dec_dec_num)
  then obtain r where r: "validate_entry (corporate_posting i) = Inr r" "le_reasonCode r = ''CORPORATE_RECEIVABLE''"
      "le_orderId r = None" "le_idempotencyKey r = Some ?k" "le_amount r = ci_totalAmount i" "le_direction r = ''credit''"
      "le_currency r = js_upper (js_trim (ci_currency i))" "le_eventType r = event_name CORPORATE_INVOICE_ISSUED"
      "le_campaignId r = Some (ci_campaignId i)"
    using validate_accepts [of "corporate_posting i" _ _ CORPORATE_INVOICE_ISSUED] assms key
    by (force simp: corporate_posting_def system_posting_def ledger_base_def postable_def trim_eval)
  then have "row_keyed r" "gist r = corporate_due i"
    by (auto simp: row_keyed_def ledger_key_inj gist_def corporate_due_def due_for_def)
  with r key show ?thesis
    by (auto simp: sound_posting_def order_reason_taken_def corporate_posting_def system_posting_def)
qed

lemma merchant_sound:
  assumes "anchor_ok (mi_id i)" "postable (mi_totalAmount i) (mi_currency i)"
  shows "\<exists>r. row_keyed r \<and> gist r = merchant_due i \<and> (\<forall>t. sound_posting (merchant_posting i) (ledgerIdempotencyKey MERCHANT_INVOICE_ISSUED (mi_id i)) r t)"
proof -
  let ?k = "ledgerIdempotencyKey MERCHANT_INVOICE_ISSUED (mi_id i)"
  have key: "trimmed_or_null (Some ?k) = Some ?k" using assms order_key_trimmed by (simp add: anchor_ok_def)
  have "to_dec (dec_num (mi_totalAmount i)) = Inr (mi_totalAmount i)" "0 < dec_num (mi_totalAmount i)"
    using assms dec_num_pos_iff [of "mi_totalAmount i"] by (simp_all add: postable_def to_dec_dec_num)
  then obtain r where r: "validate_entry (merchant_posting i) = Inr r" "le_reasonCode r = ''MERCHANT_GOODS_INVOICED''"
      "le_orderId r = None" "le_idempotencyKey r = Some ?k" "le_amount r = mi_totalAmount i" "le_direction r = ''credit''"
      "le_currency r = js_upper (js_trim (mi_currency i))" "le_eventType r = event_name MERCHANT_INVOICE_ISSUED"
      "le_campaignId r = Some (mi_campaignId i)"
    using validate_accepts [of "merchant_posting i" _ _ MERCHANT_INVOICE_ISSUED] assms key
    by (force simp: merchant_posting_def system_posting_def ledger_base_def postable_def trim_eval)
  then have "row_keyed r" "gist r = merchant_due i"
    by (auto simp: row_keyed_def ledger_key_inj gist_def merchant_due_def due_for_def)
  with r key show ?thesis
    by (auto simp: sound_posting_def order_reason_taken_def merchant_posting_def system_posting_def)
qed

text \<open>One leg of an order: its event and reason are a row of the table of legs.\<close>

lemma leg_heals:
  assumes ord: "order_postable r" and leg: "(event, reason) \<in> set ORDER_LEGS"
    and amount: "0 < x" "column_fits x" and actor: "actorType \<noteq> []" "js_trim actorType = actorType"
    and dir: "dir = ''credit'' \<or> dir = ''debit''"
  shows "heals s (ensure_posting (mark_backfill (order_entry (paid_order r) pid event reason actorType actorId x dir cp)))
    [leg_due r event reason dir x]"
proof -
  let ?k = "ledgerIdempotencyKey event (or_id r)"
  let ?i = "mark_backfill (order_entry (paid_order r) pid event reason actorType actorId x dir cp)"
  have key: "trimmed_or_null (Some ?k) = Some ?k" using ord order_key_trimmed by (simp add: order_postable_def anchor_ok_def)
  have reason: "reason \<noteq> []" "js_trim reason = reason" using leg by (auto simp: ORDER_LEGS_def trim_eval)
  have m: "to_dec x = Inr (dec_round (100 * x))"
    using amount(2) by (auto simp: column_fits_def to_dec_def Let_def split: if_splits)
  obtain row where row: "validate_entry ?i = Inr row" "le_reasonCode row = reason"
      "le_orderId row = Some (or_id r)" "le_idempotencyKey row = Some ?k" "le_amount row = dec_round (100 * x)"
      "le_direction row = dir" "le_currency row = js_upper (js_trim (or_currency r))" "le_eventType row = event_name event"
      "le_campaignId row = None"
    using validate_accepts [of ?i x "dec_round (100 * x)" event] m ord amount actor dir reason key
    by (force simp: mark_backfill_def order_entry_def paid_order_def order_postable_def)
  have "row_keyed row" using leg row by (auto simp: row_keyed_def ledger_key_inj ORDER_LEGS_def)
  moreover have "gist row = leg_due r event reason dir x"
    using row by (simp add: gist_def leg_due_def due_for_def)
  moreover have "has_key ?k t \<or> \<not> order_reason_taken row t" if "ledger_keyed t" for t
    using that leg row by (auto simp: ledger_keyed_def row_keyed_def has_key_def order_reason_taken_def) blast
  ultimately show ?thesis
    using row key
    by (intro ensure_posting_heals [of ?i ?k row]) (auto simp: sound_posting_def mark_backfill_def order_entry_def paid_order_def)
qed

subsection \<open>The repairs\<close>

lemma heals_unfold:
  "(\<And>t. repair (s\<lparr> db_ledger := t \<rparr>) = repair' (s\<lparr> db_ledger := t \<rparr>)) \<Longrightarrow> heals s repair' P \<Longrightarrow> heals s repair P"
  by (simp add: heals_def)

lemma find_id: "distinct (map key t) \<Longrightarrow> r \<in> set t \<Longrightarrow> find (\<lambda>x. key x = key r) t = Some r"
  by (simp add: find_Some_iff_key)

lemma corporate_heals:
  assumes ok: "documents_ok s" and i: "i \<in> set (db_corporate s)" "ci_status i = ''issued''"
  shows "heals s (repairCorporateInvoice (ci_id i)) [corporate_due i]"
proof -
  have "anchor_ok (ci_id i)" "postable (ci_totalAmount i) (ci_currency i)" using ok i by (auto simp: documents_ok_def)
  from corporate_sound [OF this] obtain r where r: "row_keyed r" "gist r = corporate_due i"
    "\<And>t. sound_posting (corporate_posting i) (ledgerIdempotencyKey CORPORATE_INVOICE_ISSUED (ci_id i)) r t" by blast
  have "find (\<lambda>x. ci_id x = ci_id i) (db_corporate s) = Some i"
    using ok i by (intro find_id) (auto simp: documents_ok_def)
  then show ?thesis
    by (intro heals_unfold [OF _ ensure_posting_heals [OF r(3) r(1,2)]]) (simp add: repairCorporateInvoice_def seq_def)
qed

lemma merchant_heals:
  assumes ok: "documents_ok s" and i: "i \<in> set (db_merchant s)" "mi_status i = ''issued''"
  shows "heals s (repairMerchantInvoice (mi_id i)) [merchant_due i]"
proof -
  have "anchor_ok (mi_id i)" "postable (mi_totalAmount i) (mi_currency i)" using ok i by (auto simp: documents_ok_def)
  from merchant_sound [OF this] obtain r where r: "row_keyed r" "gist r = merchant_due i"
    "\<And>t. sound_posting (merchant_posting i) (ledgerIdempotencyKey MERCHANT_INVOICE_ISSUED (mi_id i)) r t" by blast
  have "find (\<lambda>x. mi_id x = mi_id i) (db_merchant s) = Some i"
    using ok i by (intro find_id) (auto simp: documents_ok_def)
  then show ?thesis
    by (intro heals_unfold [OF _ ensure_posting_heals [OF r(3) r(1,2)]]) (simp add: repairMerchantInvoice_def seq_def)
qed


lemma paid_order_sel [simp]:
  "po_totalAmount (paid_order r) = or_totalAmount r" "po_serviceFee (paid_order r) = or_serviceFee r"
  "po_productPrice (paid_order r) = or_productPrice r" "po_deliveryFee (paid_order r) = or_deliveryFee r"
  "po_userId (paid_order r) = or_userId r" "po_storeId (paid_order r) = or_storeId r"
  by (simp_all add: paid_order_def)

text \<open>The entries of an order and what it owes, leg by leg.\<close>

lemma order_legs_heal:
  assumes ord: "order_postable r"
  shows "list_all2 (\<lambda>i d. heals s (ensure_posting (mark_backfill i)) [d])
    (buildOrderLedgerEntries (paid_order r) pid) (order_dues r)"
proof -
  note leg = leg_heals [OF ord]
  have fits: "0 < or_totalAmount r" "column_fits (or_totalAmount r)" "column_fits (or_serviceFee r)"
    "column_fits (or_productPrice r)" "column_fits (or_deliveryFee r)" using ord by (simp_all add: order_postable_def)
  show ?thesis
    unfolding buildOrderLedgerEntries_def order_dues_def paid_order_sel
    by (intro list_all2_appendI) (use fits in \<open>auto intro!: leg simp: ORDER_LEGS_def trim_eval\<close>)
qed

lemma order_dues_keys:
  assumes "d \<in> set (order_dues r)"
  shows "\<exists>event \<in> set (map fst ORDER_LEGS). fst d = Some (ledgerIdempotencyKey event (or_id r))"
proof -
  have "fst d \<in> {Some (ledgerIdempotencyKey ORDER_PAID (or_id r)), Some (ledgerIdempotencyKey QIFT_SERVICE_FEE_ACCRUED (or_id r)),
      Some (ledgerIdempotencyKey MERCHANT_PAYABLE_ACCRUED (or_id r)), Some (ledgerIdempotencyKey DELIVERY_FEE_ACCRUED (or_id r))}"
    using assms by (auto simp: order_dues_def leg_due_def split: if_splits)
  then show ?thesis by (simp add: ORDER_LEGS_def)
qed

lemma order_dues_distinct: "distinct (map fst (order_dues r))"
  by (cases "0 < or_serviceFee r"; cases "truthy (or_storeId r)"; cases "0 < or_productPrice r"; cases "0 < or_deliveryFee r")
     (simp_all add: order_dues_def leg_due_def ledger_key_inj)

lemma order_heals:
  assumes ok: "documents_ok s" and r: "r \<in> set (mk_orders s)" "or_status r = ''paid''"
  shows "heals s (repairOrder (or_id r)) (order_dues r)"
  unfolding heals_def
proof (intro allI impI)
  fix t assume t: "ledger_keyed t"
  let ?is = "buildOrderLedgerEntries (paid_order r) (map_option py_id (payment_of (or_id r) s))"
  let ?zero = "\<lparr> ro_posted = 0, ro_alreadyPresent = 0 \<rparr>"
  have post: "order_postable r" using ok r by (auto simp: documents_ok_def)
  have "find (\<lambda>x. or_id x = or_id r) (mk_orders s) = Some r"
    using ok r by (intro find_id) (auto simp: documents_ok_def)
  then have "repairOrder (or_id r) (s\<lparr> db_ledger := t \<rparr>) = repair_legs ?is ?zero (s\<lparr> db_ledger := t \<rparr>)"
    using r(2) by (simp add: repairOrder_def seq_def payment_of_def)
  with repair_legs_run [OF order_legs_heal [OF post] order_dues_distinct t, of _ ?zero s]
  show "\<exists>us out. repairOrder (or_id r) (s\<lparr> db_ledger := t \<rparr>) = (Inr out, s\<lparr> db_ledger := t @ us \<rparr>)
      \<and> ro_posted out = length us \<and> ledger_keyed (t @ us) \<and> map gist us = filter (unkeyed t) (order_dues r)"
    by auto
qed

lemma orders_dues_distinct:
  "distinct (map or_id rs) \<Longrightarrow> distinct (map fst (concat (map order_dues rs)))"
proof (induction rs)
  case (Cons r rs)
  have "fst d \<noteq> fst d'" if "d \<in> set (order_dues r)" "r' \<in> set rs" "d' \<in> set (order_dues r')" for d d' r'
  proof -
    have "or_id r \<noteq> or_id r'" using Cons.prems that(2) by force
    with order_dues_keys [OF that(1)] order_dues_keys [OF that(3)] show ?thesis by (auto simp: ledger_key_inj)
  qed
  with Cons order_dues_distinct [of r] show ?case by fastforce
qed simp

subsection \<open>The sweep\<close>

lemma unposted_append: "unposted_invoice event reason i c (t @ us) \<Longrightarrow> unposted_invoice event reason i c t"
  by (auto simp: unposted_invoice_def Let_def)

lemma corporate_posted:
  assumes "ledger_keyed t" "has_key (ledgerIdempotencyKey CORPORATE_INVOICE_ISSUED i) t"
  shows "\<not> unposted_invoice CORPORATE_INVOICE_ISSUED ''CORPORATE_RECEIVABLE'' i c t"
proof -
  obtain r where "r \<in> set t" "le_idempotencyKey r = Some (ledgerIdempotencyKey CORPORATE_INVOICE_ISSUED i)" "le_reasonCode r = ''CORPORATE_RECEIVABLE''"
    using assms unfolding ledger_keyed_def row_keyed_def has_key_def by blast
  then have "Some (ledgerIdempotencyKey CORPORATE_INVOICE_ISSUED i) \<in> set (map le_idempotencyKey (filter (\<lambda>r. le_reasonCode r = ''CORPORATE_RECEIVABLE'') t))"
    unfolding set_map set_filter by (intro image_eqI [of _ _ r]) simp_all
  then show ?thesis unfolding unposted_invoice_def Let_def by blast
qed

lemma merchant_posted:
  assumes "ledger_keyed t" "has_key (ledgerIdempotencyKey MERCHANT_INVOICE_ISSUED i) t"
  shows "\<not> unposted_invoice MERCHANT_INVOICE_ISSUED ''MERCHANT_GOODS_INVOICED'' i c t"
proof -
  obtain r where "r \<in> set t" "le_idempotencyKey r = Some (ledgerIdempotencyKey MERCHANT_INVOICE_ISSUED i)" "le_reasonCode r = ''MERCHANT_GOODS_INVOICED''"
    using assms unfolding ledger_keyed_def row_keyed_def has_key_def by blast
  then have "Some (ledgerIdempotencyKey MERCHANT_INVOICE_ISSUED i) \<in> set (map le_idempotencyKey (filter (\<lambda>r. le_reasonCode r = ''MERCHANT_GOODS_INVOICED'') t))"
    unfolding set_map set_filter by (intro image_eqI [of _ _ r]) simp_all
  then show ?thesis unfolding unposted_invoice_def Let_def by blast
qed

lemma order_posted:
  assumes "ledger_keyed t" "has_key (ledgerIdempotencyKey ORDER_PAID i) t"
  shows "Some i \<in> set (map le_orderId (filter (\<lambda>l. le_reasonCode l = ''ORDER_PAID'') t))"
proof -
  obtain r where "r \<in> set t" "le_orderId r = Some i" "le_reasonCode r = ''ORDER_PAID''"
    using assms unfolding ledger_keyed_def row_keyed_def has_key_def by blast
  then show ?thesis unfolding set_map set_filter by (intro image_eqI [of _ _ r]) simp_all
qed

definition healthy :: "MissingLedgerReport" where
  "healthy = \<lparr> ml_corporateInvoiceIds = [], ml_merchantInvoiceIds = [], ml_orderIds = [] \<rparr>"

lemma nothing_missing:
  assumes keyed: "ledger_keyed (db_ledger s @ us)"
    and c: "\<forall>i \<in> set (missingCorporateInvoicePostings s). has_key (ledgerIdempotencyKey CORPORATE_INVOICE_ISSUED i) (db_ledger s @ us)"
    and m: "\<forall>i \<in> set (missingMerchantInvoicePostings s). has_key (ledgerIdempotencyKey MERCHANT_INVOICE_ISSUED i) (db_ledger s @ us)"
    and o: "\<forall>i \<in> set (missingOrderPostings s). has_key (ledgerIdempotencyKey ORDER_PAID i) (db_ledger s @ us)"
  shows "findMissing (s\<lparr> db_ledger := db_ledger s @ us \<rparr>) = healthy"
proof -
  have "\<not> unposted_invoice CORPORATE_INVOICE_ISSUED ''CORPORATE_RECEIVABLE'' (ci_id i) (ci_campaignId i) (db_ledger s @ us)"
    if "i \<in> set (db_corporate s)" "ci_status i = ''issued''" for i
  proof
    assume un: "unposted_invoice CORPORATE_INVOICE_ISSUED ''CORPORATE_RECEIVABLE'' (ci_id i) (ci_campaignId i) (db_ledger s @ us)"
    from unposted_append [OF un] that have "ci_id i \<in> set (missingCorporateInvoicePostings s)" by (simp add: missingCorporateInvoicePostings_def)
    with c have "has_key (ledgerIdempotencyKey CORPORATE_INVOICE_ISSUED (ci_id i)) (db_ledger s @ us)" by blast
    from corporate_posted [OF keyed this] un show False by blast
  qed
  moreover have "\<not> unposted_invoice MERCHANT_INVOICE_ISSUED ''MERCHANT_GOODS_INVOICED'' (mi_id i) (mi_campaignId i) (db_ledger s @ us)"
    if "i \<in> set (db_merchant s)" "mi_status i = ''issued''" for i
  proof
    assume un: "unposted_invoice MERCHANT_INVOICE_ISSUED ''MERCHANT_GOODS_INVOICED'' (mi_id i) (mi_campaignId i) (db_ledger s @ us)"
    from unposted_append [OF un] that have "mi_id i \<in> set (missingMerchantInvoicePostings s)" by (simp add: missingMerchantInvoicePostings_def)
    with m have "has_key (ledgerIdempotencyKey MERCHANT_INVOICE_ISSUED (mi_id i)) (db_ledger s @ us)" by blast
    from merchant_posted [OF keyed this] un show False by blast
  qed
  moreover have "Some (or_id r) \<in> set (map le_orderId (filter (\<lambda>l. le_reasonCode l = ''ORDER_PAID'') (db_ledger s @ us)))"
    if "r \<in> set (mk_orders s)" "or_status r = ''paid''" for r
  proof (cases "Some (or_id r) \<in> set (map le_orderId (filter (\<lambda>l. le_reasonCode l = ''ORDER_PAID'') (db_ledger s)))")
    case False
    with that have "or_id r \<in> set (missingOrderPostings s)" by (simp add: missingOrderPostings_def)
    with o order_posted [OF keyed] show ?thesis by blast
  qed simp
  ultimately show ?thesis
    unfolding findMissing_def healthy_def missingCorporateInvoicePostings_def missingMerchantInvoicePostings_def
      missingOrderPostings_def
    by (simp add: filter_empty_conv)
qed

lemma healthy_sweep: "findMissing s = healthy \<Longrightarrow> repairAll s = (Inr (healthy, 0), s)"
  by (simp add: repairAll_def healthy_def seq_def)

lemma due_rows:
  assumes "documents_ok s"
  shows "missingCorporateInvoicePostings s = map ci_id (filter (\<lambda>i. ci_id i \<in> set (missingCorporateInvoicePostings s)) (db_corporate s))"
    and "missingMerchantInvoicePostings s = map mi_id (filter (\<lambda>i. mi_id i \<in> set (missingMerchantInvoicePostings s)) (db_merchant s))"
    and "missingOrderPostings s = map or_id (filter (\<lambda>r. or_id r \<in> set (missingOrderPostings s)) (mk_orders s))"
proof -
  have ids: "map key (filter P (filter Q t)) = map key (filter (\<lambda>x. key x \<in> set (map key (filter P (filter Q t)))) t)"
    if "distinct (map key t)" for key :: "'a \<Rightarrow> string" and P Q t
  proof -
    have "inj_on key (set t)" using that by (simp add: distinct_map)
    then have "key x \<in> key ` {x \<in> set t. Q x \<and> P x} \<longleftrightarrow> Q x \<and> P x" if "x \<in> set t" for x
      using that by (auto simp: inj_on_def)
    then have "filter (\<lambda>x. key x \<in> set (map key (filter P (filter Q t)))) t = filter P (filter Q t)"
      by (simp add: conj_commute cong: filter_cong)
    then show ?thesis by simp
  qed
  show "missingCorporateInvoicePostings s = map ci_id (filter (\<lambda>i. ci_id i \<in> set (missingCorporateInvoicePostings s)) (db_corporate s))"
    unfolding missingCorporateInvoicePostings_def by (rule ids) (use assms in \<open>simp add: documents_ok_def\<close>)
  show "missingMerchantInvoicePostings s = map mi_id (filter (\<lambda>i. mi_id i \<in> set (missingMerchantInvoicePostings s)) (db_merchant s))"
    unfolding missingMerchantInvoicePostings_def by (rule ids) (use assms in \<open>simp add: documents_ok_def\<close>)
  show "missingOrderPostings s = map or_id (filter (\<lambda>r. or_id r \<in> set (missingOrderPostings s)) (mk_orders s))"
    unfolding missingOrderPostings_def by (rule ids) (use assms in \<open>simp add: documents_ok_def\<close>)
qed

text \<open>The whole sweep is its three loops, one after the other.\<close>

lemma due_postings_distinct: "documents_ok s \<Longrightarrow> distinct (map fst (due_postings s))"
proof -
  assume ok: "documents_ok s"
  have cs: "distinct (map fst (map corporate_due (filter P (db_corporate s))))" for P
    using ok by (auto simp: documents_ok_def corporate_due_def distinct_map inj_on_def ledger_key_inj)
  have ms: "distinct (map fst (map merchant_due (filter P (db_merchant s))))" for P
    using ok by (auto simp: documents_ok_def merchant_due_def distinct_map inj_on_def ledger_key_inj)
  have os: "distinct (map fst (concat (map order_dues (filter P (mk_orders s)))))" for P
    using ok by (intro orders_dues_distinct) (simp add: documents_ok_def distinct_map_filter)
  have leg: "\<exists>event \<in> set (map fst ORDER_LEGS). fst d = Some (ledgerIdempotencyKey event (or_id r))"
    if "d \<in> set (order_dues r)" for d r using that by (rule order_dues_keys)
  show ?thesis
    unfolding due_postings_def map_append distinct_append
    using cs ms os by (auto simp: corporate_due_def merchant_due_def ledger_key_inj ORDER_LEGS_def dest!: leg)
qed

lemma repairAll_run:
  assumes ok: "documents_ok s" and keyed: "ledger_keyed (db_ledger s)"
  shows "\<exists>us. repairAll s = (Inr (findMissing s, length us), s\<lparr> db_ledger := db_ledger s @ us \<rparr>)
    \<and> ledger_keyed (db_ledger s @ us) \<and> map gist us = filter (unkeyed (db_ledger s)) (due_postings s)"
proof -
  define cs where "cs = filter (\<lambda>i. ci_id i \<in> set (missingCorporateInvoicePostings s)) (db_corporate s)"
  define ms where "ms = filter (\<lambda>i. mi_id i \<in> set (missingMerchantInvoicePostings s)) (db_merchant s)"
  define os where "os = filter (\<lambda>r. or_id r \<in> set (missingOrderPostings s)) (mk_orders s)"
  note rows = due_rows [OF ok, folded cs_def ms_def os_def]
  have dues: "due_postings s = concat (map (\<lambda>i. [corporate_due i]) cs) @ concat (map (\<lambda>i. [merchant_due i]) ms) @ concat (map order_dues os)"
    by (simp add: due_postings_def cs_def ms_def os_def)
  note keys = due_postings_distinct [OF ok, unfolded dues map_append distinct_append]
  have c: "heals s (repairCorporateInvoice (ci_id i)) [corporate_due i]" if "i \<in> set cs" for i
    using that ok corporate_heals [OF ok] by (auto simp: cs_def missingCorporateInvoicePostings_def documents_ok_def distinct_map inj_on_def)
  have m: "heals s (repairMerchantInvoice (mi_id i)) [merchant_due i]" if "i \<in> set ms" for i
    using that ok merchant_heals [OF ok] by (auto simp: ms_def missingMerchantInvoicePostings_def documents_ok_def distinct_map inj_on_def)
  have o: "heals s (repairOrder (or_id r)) (order_dues r)" if "r \<in> set os" for r
    using that ok order_heals [OF ok] by (auto simp: os_def missingOrderPostings_def documents_ok_def distinct_map inj_on_def)
  from repair_each_run [where xs = cs and f = ci_id and ds = "\<lambda>i. [corporate_due i]" and n = 0, OF c _ keyed] keys obtain u1 where u1:
    "repair_each repairCorporateInvoice (map ci_id cs) 0 s = (Inr (length u1), s\<lparr> db_ledger := db_ledger s @ u1 \<rparr>)"
    "ledger_keyed (db_ledger s @ u1)"
    "map gist u1 = filter (unkeyed (db_ledger s)) (concat (map (\<lambda>i. [corporate_due i]) cs))" by auto
  from repair_each_run [where xs = ms and f = mi_id and ds = "\<lambda>i. [merchant_due i]" and n = "length u1", OF m _ u1(2)] keys obtain u2 where u2:
    "repair_each repairMerchantInvoice (map mi_id ms) (length u1) (s\<lparr> db_ledger := db_ledger s @ u1 \<rparr>)
       = (Inr (length (u1 @ u2)), s\<lparr> db_ledger := (db_ledger s @ u1) @ u2 \<rparr>)"
    "ledger_keyed ((db_ledger s @ u1) @ u2)"
    "map gist u2 = filter (unkeyed (db_ledger s @ u1)) (concat (map (\<lambda>i. [merchant_due i]) ms))" by auto
  from repair_each_run [where xs = os and f = or_id and ds = order_dues and n = "length (u1 @ u2)", OF o _ u2(2)] keys obtain u3 where u3:
    "repair_each repairOrder (map or_id os) (length (u1 @ u2)) (s\<lparr> db_ledger := (db_ledger s @ u1) @ u2 \<rparr>)
       = (Inr (length (u1 @ u2) + length u3), s\<lparr> db_ledger := ((db_ledger s @ u1) @ u2) @ u3 \<rparr>)"
    "ledger_keyed (((db_ledger s @ u1) @ u2) @ u3)"
    "map gist u3 = filter (unkeyed ((db_ledger s @ u1) @ u2)) (concat (map order_dues os))" by auto
  have "map gist (u2 @ u3) = filter (unkeyed (db_ledger s @ u1)) (concat (map (\<lambda>i. [merchant_due i]) ms) @ concat (map order_dues os))"
    by (rule gists_append [OF u2(3) u3(3)]) (use keys in simp)
  from gists_append [OF u1(3) this] keys have "map gist (u1 @ u2 @ u3) = filter (unkeyed (db_ledger s)) (due_postings s)"
    by (simp add: dues)
  moreover have "repairAll s = (Inr (findMissing s, length (u1 @ u2 @ u3)), s\<lparr> db_ledger := db_ledger s @ u1 @ u2 @ u3 \<rparr>)"
    using u1(1) u2(1) u3(1) by (simp add: repairAll_def findMissing_def seq_def rows [symmetric] add.assoc)
  ultimately show ?thesis using u3(2) by (intro exI [of _ "u1 @ u2 @ u3"]) simp
qed

lemma swept_healthy:
  assumes ok: "documents_ok s" and keyed: "ledger_keyed (db_ledger s @ us)"
    and books: "set (map fst (due_postings s)) \<subseteq> set (map le_idempotencyKey (db_ledger s @ us))"
  shows "findMissing (s\<lparr> db_ledger := db_ledger s @ us \<rparr>) = healthy"
proof (rule nothing_missing [OF keyed]; rule ballI)
  have on: "has_key k (db_ledger s @ us)" if "d \<in> set (due_postings s)" "fst d = Some k" for d k
    using that books unfolding has_key_set by force
  fix i
  show "has_key (ledgerIdempotencyKey CORPORATE_INVOICE_ISSUED i) (db_ledger s @ us)" if i: "i \<in> set (missingCorporateInvoicePostings s)"
  proof -
    from i obtain x where x: "x \<in> set (db_corporate s)" "ci_id x = i" by (auto simp: missingCorporateInvoicePostings_def)
    with i have "corporate_due x \<in> set (due_postings s)" by (auto simp: due_postings_def)
    from on [OF this] x(2) show ?thesis by (simp add: corporate_due_def)
  qed
  show "has_key (ledgerIdempotencyKey MERCHANT_INVOICE_ISSUED i) (db_ledger s @ us)" if i: "i \<in> set (missingMerchantInvoicePostings s)"
  proof -
    from i obtain x where x: "x \<in> set (db_merchant s)" "mi_id x = i" by (auto simp: missingMerchantInvoicePostings_def)
    with i have "merchant_due x \<in> set (due_postings s)" by (auto simp: due_postings_def)
    from on [OF this] x(2) show ?thesis by (simp add: merchant_due_def)
  qed
  show "has_key (ledgerIdempotencyKey ORDER_PAID i) (db_ledger s @ us)" if i: "i \<in> set (missingOrderPostings s)"
  proof -
    from i obtain x where x: "x \<in> set (mk_orders s)" "or_id x = i" by (auto simp: missingOrderPostings_def)
    let ?d = "leg_due x ORDER_PAID ''ORDER_PAID'' ''credit'' (or_totalAmount x)"
    have "?d \<in> set (order_dues x)" by (simp add: order_dues_def)
    with x i have "?d \<in> set (due_postings s)" by (auto simp: due_postings_def)
    from on [OF this] x(2) show ?thesis by (simp add: leg_due_def)
  qed
qed

text \<open>
  C35: the sweep heals the ledger. Whenever the documents are ones a posting accepts
  (\<open>documents_ok\<close>: unique ids, positive amounts within their columns) and the rows of the ledger
  carry the producers' keys (\<open>ledger_keyed\<close>; a row from before the keys can make a posting fail),
  \<open>repairAll\<close> returns. It appends exactly the postings that the missing documents owe and whose
  key is not on the ledger yet, every leg of an order included, each with its key, event,
  reason, direction, amount, currency and order or campaign, in order; it reports their number and changes nothing else.
  Afterwards every posting owed is on the books, no document is missing, and a second sweep
  changes nothing at all. An order counts as missing when its \<open>ORDER_PAID\<close> row is: one that has
  this row and lacks another is not seen by the sweep.
\<close>

theorem repair_heals:
  assumes ok: "documents_ok s" and keyed: "ledger_keyed (db_ledger s)"
  shows "\<exists>us s'. repairAll s = (Inr (findMissing s, length us), s') \<and> s' = s\<lparr> db_ledger := db_ledger s @ us \<rparr>
    \<and> map gist us = filter (\<lambda>d. fst d \<notin> set (map le_idempotencyKey (db_ledger s))) (due_postings s)
    \<and> set (map fst (due_postings s)) \<subseteq> set (map le_idempotencyKey (db_ledger s'))
    \<and> findMissing s' = healthy \<and> repairAll s' = (Inr (healthy, 0), s')"
proof -
  obtain us where us: "repairAll s = (Inr (findMissing s, length us), s\<lparr> db_ledger := db_ledger s @ us \<rparr>)"
    "ledger_keyed (db_ledger s @ us)" "map gist us = filter (unkeyed (db_ledger s)) (due_postings s)"
    using repairAll_run [OF ok keyed] by blast
  have books: "set (map fst (due_postings s)) \<subseteq> set (map le_idempotencyKey (db_ledger s @ us))"
    unfolding set_map image_subset_iff using dues_on_books [OF us(3)] unfolding set_map by blast
  show ?thesis
    using us(1) us(3) [unfolded unkeyed_def [abs_def]] books swept_healthy [OF ok us(2) books] healthy_sweep
    by (intro exI [of _ us]) (simp add: image_Un)
qed

definition unposted_market :: market where
  "unposted_market = empty_market\<lparr> mk_orders := [sample_paid_order],
     db_corporate := [\<lparr> ci_id = ''v1'', ci_invoiceNumber = ''QI-1'', ci_orgId = ''org'', ci_campaignId = ''c1'', ci_status = ''issued'',
       ci_balanceStatus = ''unpaid'', ci_currency = ''SAR'', ci_platformFeeAmount = 5000, ci_vatAmount = Some 750, ci_totalAmount = 5750,
       ci_recipientCount = 5, ci_taxSnapshot = None, ci_buyerSnapshot = None, ci_sellerSnapshot = None, ci_issuedAt = None,
       ci_dueDate = None, ci_paidAt = None \<rparr>] \<rparr>"

lemma repair_heals_witness:
  "findMissing unposted_market = \<lparr> ml_corporateInvoiceIds = [''v1''], ml_merchantInvoiceIds = [], ml_orderIds = [''o1''] \<rparr>
   \<and> (\<exists>us s'. repairAll unposted_market = (Inr (findMissing unposted_market, length us), s') \<and> findMissing s' = healthy
        \<and> map gist us =
          [(Some ''corporate.invoice.issued:v1'', ''corporate.invoice.issued'', ''CORPORATE_RECEIVABLE'', ''credit'', 5750, ''SAR'', None, Some ''c1''),
           (Some ''order.paid:o1'', ''order.paid'', ''ORDER_PAID'', ''credit'', 11500, ''SAR'', Some ''o1'', None),
           (Some ''qift.service_fee.accrued:o1'', ''qift.service_fee.accrued'', ''QIFT_SERVICE_FEE'', ''credit'', 1500, ''SAR'', Some ''o1'', None),
           (Some ''merchant.payable.accrued:o1'', ''merchant.payable.accrued'', ''MERCHANT_PAYABLE'', ''debit'', 10000, ''SAR'', Some ''o1'', None)])"
proof -
  have "documents_ok unposted_market" by code_simp
  moreover have "ledger_keyed (db_ledger unposted_market)" by (simp add: unposted_market_def empty_market_def ledger_keyed_def)
  moreover have "findMissing unposted_market = \<lparr> ml_corporateInvoiceIds = [''v1''], ml_merchantInvoiceIds = [], ml_orderIds = [''o1''] \<rparr>"
    by code_simp
  moreover have "filter (\<lambda>d. fst d \<notin> set (map le_idempotencyKey (db_ledger unposted_market))) (due_postings unposted_market) =
      [(Some ''corporate.invoice.issued:v1'', ''corporate.invoice.issued'', ''CORPORATE_RECEIVABLE'', ''credit'', 5750, ''SAR'', None, Some ''c1''),
       (Some ''order.paid:o1'', ''order.paid'', ''ORDER_PAID'', ''credit'', 11500, ''SAR'', Some ''o1'', None),
       (Some ''qift.service_fee.accrued:o1'', ''qift.service_fee.accrued'', ''QIFT_SERVICE_FEE'', ''credit'', 1500, ''SAR'', Some ''o1'', None),
       (Some ''merchant.payable.accrued:o1'', ''merchant.payable.accrued'', ''MERCHANT_PAYABLE'', ''debit'', 10000, ''SAR'', Some ''o1'', None)]"
    by code_simp
  ultimately show ?thesis using repair_heals [of unposted_market] by metis
qed

text \<open>
  Why the rows must be keyed: a leg posted before the keys existed is not found by its key, the
  second posting of its order and reason is refused by the table, and the refusal leaves the
  sweep, with every later document unrepaired.
\<close>

definition keyless_leg :: LedgerEntry where
  "keyless_leg = sample_marker_row\<lparr> le_eventType := ''merchant.payable.accrued'', le_reasonCode := ''MERCHANT_PAYABLE'',
     le_amount := 10000, le_orderId := Some ''o1'', le_metadata := JNull, le_idempotencyKey := None \<rparr>"

lemma keyless_leg_aborts:
  "fst (repairAll (unposted_market\<lparr> db_ledger := [keyless_leg] \<rparr>)) = Inl (P2002 ''orderId_reasonCode'')"
  by code_simp

end
