(* ===== verification/Otp.thy ===== *)
theory Otp
  imports Frame_Rules Gift_Rules
begin

text \<open>
  Possession proofs: the canonical phone number (\<open>auth/phone-normalize.ts\<close>), the sliding-window
  rate limiter (\<open>common/rate-limiter.ts\<close>) and the one-time codes of \<open>otp/otp.service.ts\<close>, with
  their lockouts. Whatever sequence of sends and verifications runs, a target never carries more
  wrong guesses in its window than the cap.
\<close>

section \<open>Phone numbers\<close>

datatype CountryCode = C_SA | C_AE | C_KW | C_QA | C_BH | C_OM

definition SUPPORTED_COUNTRIES :: "CountryCode list" where
  "SUPPORTED_COUNTRIES = [C_SA, C_AE, C_KW, C_QA, C_BH, C_OM]"

fun dial :: "CountryCode \<Rightarrow> string" where
  "dial C_SA = ''966''"
| "dial C_AE = ''971''"
| "dial C_KW = ''965''"
| "dial C_QA = ''974''"
| "dial C_BH = ''973''"
| "dial C_OM = ''968''"

text \<open>A first digit from the list, then exactly so many digits.\<close>

definition digits_from :: "string \<Rightarrow> nat \<Rightarrow> string \<Rightarrow> bool" where
  "digits_from firsts n s = (case s of [] \<Rightarrow> False | c # r \<Rightarrow> c \<in> set firsts \<and> length r = n \<and> list_all is_digit r)"

fun mobileLocal :: "CountryCode \<Rightarrow> string \<Rightarrow> bool" where
  "mobileLocal C_SA s = digits_from ''5'' 8 s"
| "mobileLocal C_AE s = digits_from ''5'' 8 s"
| "mobileLocal C_KW s = digits_from ''569'' 7 s"
| "mobileLocal C_QA s = digits_from ''3567'' 7 s"
| "mobileLocal C_BH s = digits_from ''36'' 7 s"
| "mobileLocal C_OM s = digits_from ''79'' 7 s"

definition plus :: char where "plus = CHR ''+''"
definition zero :: char where "zero = CHR ''0''"

definition E164_REGEX :: "string \<Rightarrow> bool" where
  "E164_REGEX s = (case s of
       p # d # r \<Rightarrow> p = plus \<and> is_digit d \<and> d \<noteq> zero \<and> list_all is_digit r \<and> 7 \<le> length r \<and> length r \<le> 14
     | _ \<Rightarrow> False)"

definition if_e164 :: "string \<Rightarrow> string option" where
  "if_e164 s = (if E164_REGEX s then Some s else None)"

text \<open>Step 1: digits and at most one plus, in front.\<close>

definition phone_chars :: "string \<Rightarrow> string" where
  "phone_chars raw =
     (let s = filter (\<lambda>c. is_digit c \<or> c = plus) raw in
      if plus \<in> set s then plus # filter (\<lambda>c. c \<noteq> plus) s else s)"

definition normalizePhone :: "CountryCode \<Rightarrow> string \<Rightarrow> string option" where
  "normalizePhone defaultCountry raw =
     (let s = phone_chars raw in
      if s = [] then None
      else
        let s = (if starts_with s ''00'' then plus # drop 2 s else s) in
        if starts_with s [plus]
        then if_e164 (case find (\<lambda>c. starts_with s (plus # dial c @ [zero])) SUPPORTED_COUNTRIES of
               None \<Rightarrow> s
             | Some c \<Rightarrow> plus # dial c @ drop (length (plus # dial c @ [zero])) s)
        else case find (\<lambda>c. starts_with s (dial c)) SUPPORTED_COUNTRIES of
            Some c \<Rightarrow> if_e164 (plus # dial c @ dropWhile (\<lambda>d. d = zero) (drop (length (dial c)) s))
          | None \<Rightarrow>
              (let localDigits = dropWhile (\<lambda>d. d = zero) s in
               if localDigits = [] then None else if_e164 (plus # dial defaultCountry @ localDigits)))"

datatype MobileFault = Phone_invalid | Phone_not_mobile

definition validateMobile :: "string \<Rightarrow> CountryCode option \<Rightarrow> MobileFault option" where
  "validateMobile e164 country =
     (if \<not> E164_REGEX e164 then Some Phone_invalid
      else
        let detected = (case country of
            Some c \<Rightarrow> Some c | None \<Rightarrow> find (\<lambda>c. starts_with e164 (plus # dial c)) SUPPORTED_COUNTRIES) in
        case detected of
          None \<Rightarrow> None
        | Some c \<Rightarrow> if mobileLocal c (drop (length (plus # dial c)) e164) then None else Some Phone_not_mobile)"

section \<open>The rate limiter\<close>

text \<open>The hits of a key in time order; a key never hit has none.\<close>

definition hit :: "nat \<Rightarrow> instant \<Rightarrow> instant \<Rightarrow> utext \<Rightarrow> (utext \<Rightarrow> instant list) \<Rightarrow> bool \<times> (utext \<Rightarrow> instant list)" where
  "hit cap windowMs now key hits =
     (let recent = filter (\<lambda>t. now - windowMs < t) (hits key) in
      if cap \<le> length recent then (False, hits(key := recent)) else (True, hits(key := recent @ [now])))"

definition remaining :: "nat \<Rightarrow> instant \<Rightarrow> instant \<Rightarrow> utext \<Rightarrow> (utext \<Rightarrow> instant list) \<Rightarrow> nat" where
  "remaining cap windowMs now key hits = cap - length (filter (\<lambda>t. now - windowMs < t) (hits key))"

section \<open>One-time codes\<close>

datatype OtpType = By_phone | By_email

record Otp =
  ot_id :: string
  ot_target :: utext
  ot_code :: string
  ot_type :: OtpType
  ot_expiresAt :: instant
  ot_attempts :: nat
  ot_createdAt :: instant

text \<open>The table, the limiter of this process, and what went out to the transports.\<close>

record otp_state =
  os_rows :: "Otp list"
  os_hits :: "utext \<Rightarrow> instant list"
  os_sent :: "(OtpType \<times> utext \<times> string) list"

text \<open>
  A call's surroundings: the lower-casing of the language, its readings of the clock, the time the database stamps, the id and the
  code it draws, whether the transports are configured, and whether they take the message.
\<close>

record otp_env =
  oe_lower :: "utext \<Rightarrow> utext"
  oe_now :: "nat \<Rightarrow> instant"
  oe_dbNow :: instant
  oe_id :: string
  oe_draw :: nat
  oe_sms :: "nat \<Rightarrow> bool"
  oe_mail :: bool
  oe_taken :: bool

definition CODE_LENGTH :: nat where "CODE_LENGTH = 6"
definition TTL_MINUTES :: int where "TTL_MINUTES = 5"
definition MAX_VERIFY_ATTEMPTS :: nat where "MAX_VERIFY_ATTEMPTS = 5"
definition MAX_TARGET_ATTEMPTS :: nat where "MAX_TARGET_ATTEMPTS = 10"
definition TARGET_ATTEMPT_WINDOW_MS :: instant where "TARGET_ATTEMPT_WINDOW_MS = 15 * 60 * 1000"
definition OTP_SENDS :: nat where "OTP_SENDS = 5"
definition OTP_SEND_WINDOW_MS :: instant where "OTP_SEND_WINDOW_MS = 5 * 60 * 1000"

definition generateCode :: "nat \<Rightarrow> string" where
  "generateCode draw = nat_str (10 ^ (CODE_LENGTH - 1) + draw mod (10 ^ CODE_LENGTH - 10 ^ (CODE_LENGTH - 1)))"

text \<open>The shape of an address: one at sign, no white space, a dot inside the domain with \<open>n\<close> or more characters after it.\<close>

definition email_shape :: "nat \<Rightarrow> utext \<Rightarrow> bool" where
  "email_shape n s \<longleftrightarrow>
     (let local_part = takeWhile (\<lambda>c. c \<noteq> 64) s; domain = drop (Suc (length local_part)) s in
      list_all (\<lambda>c. \<not> u_space c) s \<and> 64 \<in> set s \<and> 64 \<notin> set domain \<and> local_part \<noteq> []
      \<and> list_ex (\<lambda>i. domain ! i = 46 \<and> i + n < length domain) [1..<length domain])"

text \<open>Only ASCII digits and the plus sign of a number survive its normalisation.\<close>

definition normalize_text :: "utext \<Rightarrow> string option" where
  "normalize_text t = normalizePhone C_SA (map (\<lambda>c. char_of (nat c)) (filter (\<lambda>c. 0 \<le> c \<and> c < 128) t))"

record SendOtpResult =
  sr_expiresAt :: instant
  sr_dispatched :: bool
  sr_channel :: OtpType

text \<open>The transport: a code goes out when it is configured, and counts as sent when it is taken.\<close>

definition dispatch_code :: "otp_env \<Rightarrow> OtpType \<Rightarrow> utext \<Rightarrow> string \<Rightarrow> (otp_state, bool) prog" where
  "dispatch_code e kind target code =
     (if kind = By_phone \<and> \<not> oe_sms e 1 then ret False
      else seq (writes (os_sent_update (\<lambda>t. t @ [(kind, target, code)]))) (\<lambda>_. ret (oe_taken e)))"

definition otp_limit :: "otp_env \<Rightarrow> utext \<Rightarrow> (otp_state, bool) prog" where
  "otp_limit e target =
     seq (reads (\<lambda>s. hit OTP_SENDS OTP_SEND_WINDOW_MS (oe_now e 0) (u_text ''otp:'' @ target) (os_hits s))) (\<lambda>(ok, hits).
     seq (writes (os_hits_update (\<lambda>_. hits))) (\<lambda>_. ret ok))"

definition otp_send :: "otp_env \<Rightarrow> utext option \<Rightarrow> OtpType \<Rightarrow> (otp_state, SendOtpResult) prog" where
  "otp_send e rawInput kind =
     (let rawTarget = (case rawInput of None \<Rightarrow> [] | Some t \<Rightarrow> u_trim t);
          normal = (if kind = By_phone then map_option u_text (normalize_text rawTarget) else Some (oe_lower e rawTarget)) in
      seq (require (rawTarget \<noteq> []) (BadRequest ''target is required'')) (\<lambda>_.
      seq (found normal (BadRequest (if kind = By_phone then ''invalid_phone'' else ''invalid_email''))) (\<lambda>target.
      seq (require (kind = By_email \<longrightarrow> email_shape 1 target) (BadRequest ''invalid_email'')) (\<lambda>_.
      seq (require (kind = By_phone \<longrightarrow> oe_sms e 0) (HttpError 503 ''sms_unavailable'')) (\<lambda>_.
      seq (require (kind = By_email \<longrightarrow> oe_mail e) (HttpError 503 ''email_unavailable'')) (\<lambda>_.
      seq (otp_limit e target) (\<lambda>allowed.
      seq (require allowed (HttpError 429 ''otp_rate_limited'')) (\<lambda>_.
      let code = generateCode (oe_draw e); expiresAt = oe_now e 1 + TTL_MINUTES * 60 * 1000 in
      seq (create os_rows os_rows_update (\<lambda>r r'. ot_id r' = ot_id r)
             \<lparr> ot_id = oe_id e, ot_target = target, ot_code = code, ot_type = kind,
               ot_expiresAt = expiresAt, ot_attempts = 0, ot_createdAt = oe_dbNow e \<rparr>) (\<lambda>_.
      seq (dispatch_code e kind target code) (\<lambda>dispatched.
      ret \<lparr> sr_expiresAt = expiresAt, sr_dispatched = dispatched, sr_channel = kind \<rparr>))))))))))"

text \<open>The target a verification is about, in the form the send stored it.\<close>

definition verify_target :: "otp_env \<Rightarrow> utext \<Rightarrow> utext" where
  "verify_target e rawTarget =
     (if 64 \<in> set rawTarget then oe_lower e rawTarget
      else case normalize_text rawTarget of None \<Rightarrow> rawTarget | Some p \<Rightarrow> u_text p)"

definition window_rows :: "utext \<Rightarrow> instant \<Rightarrow> Otp list \<Rightarrow> Otp list" where
  "window_rows target since rows = filter (\<lambda>r. ot_target r = target \<and> since \<le> ot_createdAt r) rows"

definition wrong_guesses :: "utext \<Rightarrow> instant \<Rightarrow> Otp list \<Rightarrow> nat" where
  "wrong_guesses target since rows = sum_list (map ot_attempts (window_rows target since rows))"

text \<open>\<open>findFirst\<close> in descending order of creation.\<close>

definition latest_code :: "utext \<Rightarrow> OtpType option \<Rightarrow> otp_state \<Rightarrow> Otp option" where
  "latest_code target kind s =
     (case rev (order_by ot_createdAt (filter (\<lambda>r. ot_target r = target \<and> (kind = None \<or> kind = Some (ot_type r))) (os_rows s))) of
        [] \<Rightarrow> None | r # _ \<Rightarrow> Some r)"

text \<open>Everything a verification decides before it writes: the code it accepts, or rejects.\<close>

definition verify_reads :: "otp_env \<Rightarrow> utext \<Rightarrow> OtpType option \<Rightarrow> (otp_state, Otp) prog" where
  "verify_reads e target kind =
     seq (reads (\<lambda>s. wrong_guesses target (oe_now e 0 - TARGET_ATTEMPT_WINDOW_MS) (os_rows s))) (\<lambda>guesses.
     seq (require (guesses < MAX_TARGET_ATTEMPTS) (BadRequest ''otp_locked'')) (\<lambda>_.
     seq (reads (latest_code target kind)) (\<lambda>read.
     seq (found read (BadRequest ''invalid_code'')) (\<lambda>otp.
     seq (require (ot_attempts otp < MAX_VERIFY_ATTEMPTS) (BadRequest ''otp_locked'')) (\<lambda>_.
     seq (require (oe_now e 1 \<le> ot_expiresAt otp) (BadRequest ''expired_code'')) (\<lambda>_.
     ret otp))))))"

text \<open>The increment by id, and the removal of an accepted row.\<close>

definition count_wrong :: "string \<Rightarrow> (otp_state, unit) prog" where
  "count_wrong i =
     attempt (seq (update_row os_rows os_rows_update (\<lambda>r. ot_id r = i) (\<lambda>r. r\<lparr> ot_attempts := Suc (ot_attempts r) \<rparr>)) (\<lambda>_. ret ()))
       (\<lambda>_. ret ())"

definition burn :: "string \<Rightarrow> (otp_state, unit) prog" where
  "burn i = writes (os_rows_update (filter (\<lambda>r. ot_id r \<noteq> i)))"

definition otp_verify ::
  "otp_env \<Rightarrow> utext option \<Rightarrow> utext option \<Rightarrow> OtpType option \<Rightarrow> bool \<Rightarrow> (otp_state, string) prog"
where
  "otp_verify e rawInput codeInput kind consume =
     (let rawTarget = (case rawInput of None \<Rightarrow> [] | Some t \<Rightarrow> u_trim t);
          code = (case codeInput of None \<Rightarrow> [] | Some t \<Rightarrow> u_trim t) in
      seq (require (rawTarget \<noteq> [] \<and> code \<noteq> []) (BadRequest ''target and code are required'')) (\<lambda>_.
      seq (verify_reads e (verify_target e rawTarget) kind) (\<lambda>otp.
      if u_text (ot_code otp) \<noteq> code
      then seq (count_wrong (ot_id otp)) (\<lambda>_. raise (BadRequest ''invalid_code''))
      else seq (if consume then burn (ot_id otp) else ret ()) (\<lambda>_. ret (ot_id otp)))))"

section \<open>Canonical numbers\<close>

lemma normalizePhone_e164: "normalizePhone c raw = Some p \<Longrightarrow> E164_REGEX p"
  by (auto simp: normalizePhone_def Let_def if_e164_def split: if_splits option.splits)

lemma starts_with_append:
  assumes "starts_with s (p @ [c])"
  shows "starts_with s p \<and> hd (drop (length p) s) = c"
proof -
  from assms have t: "take (length (p @ [c])) s = p @ [c]" unfolding starts_with_def .
  have "s = (p @ [c]) @ drop (length (p @ [c])) s"
    using append_take_drop_id [of "length (p @ [c])" s] unfolding t by simp
  then obtain r where "s = p @ c # r" by (metis append.assoc append_Cons append_Nil)
  then show ?thesis by (simp add: starts_with_def)
qed

lemma e164_chars:
  assumes "E164_REGEX p"
  shows "phone_chars p = p \<and> \<not> starts_with p ''00'' \<and> starts_with p [plus] \<and> p \<noteq> []"
  using assms unfolding E164_REGEX_def phone_chars_def starts_with_def plus_def
  by (auto simp: Let_def is_digit_def list_all_iff split: list.splits intro!: filter_True)

lemma dial_unique: "starts_with p (plus # dial c) \<Longrightarrow> starts_with p (plus # dial c') \<Longrightarrow> c' = c"
  by (cases c; cases c') (auto simp: starts_with_def)

lemma mobile_not_zero: "mobileLocal c s \<Longrightarrow> hd s \<noteq> zero"
  by (cases c) (auto simp: digits_from_def zero_def split: list.splits)

lemma phone_canonical:
  assumes "normalizePhone c raw = Some p" "validateMobile p country = None" "country = None"
  shows "normalizePhone c' p = Some p"
proof -
  have e: "E164_REGEX p" using normalizePhone_e164 [OF assms(1)] .
  have "\<not> starts_with p (plus # dial k @ [zero])" for k
  proof
    assume "starts_with p (plus # dial k @ [zero])"
    from starts_with_append [of p "plus # dial k" zero] this
    have k: "starts_with p (plus # dial k)" "hd (drop (length (plus # dial k)) p) = zero" by simp_all
    have "k \<in> set SUPPORTED_COUNTRIES" by (cases k) (simp_all add: SUPPORTED_COUNTRIES_def)
    with k(1) obtain c where c: "find (\<lambda>c. starts_with p (plus # dial c)) SUPPORTED_COUNTRIES = Some c"
      by (metis find_None_iff not_None_eq)
    with find_in_set [OF c] dial_unique [OF k(1)] have "c = k" by simp
    with c assms(2,3) e have "mobileLocal k (drop (length (plus # dial k)) p)"
      by (auto simp: validateMobile_def split: if_splits)
    with mobile_not_zero k(2) show False by blast
  qed
  then have "find (\<lambda>c. starts_with p (plus # dial c @ [zero])) SUPPORTED_COUNTRIES = None"
    by (simp add: find_None_iff)
  with e e164_chars [OF e] show ?thesis by (simp add: normalizePhone_def Let_def if_e164_def)
qed


text \<open>
  C34: a normalised mobile number is canonical: normalising it again, whatever the default
  country, gives it back.
\<close>

theorem phone_fixed_point:
  assumes "normalizePhone c raw = Some p" "validateMobile p None = None"
  shows "normalizePhone c' p = Some p"
  by (rule phone_canonical [OF assms refl])

lemma phone_fixed_point_witness:
  "\<exists>p. normalizePhone C_SA ''0501234567'' = Some p \<and> normalizePhone C_AE p = Some p"
proof -
  have "normalizePhone C_SA ''0501234567'' = Some ''+966501234567''" "validateMobile ''+966501234567'' None = None"
    by code_simp+
  with phone_fixed_point [OF this] show ?thesis by blast
qed

text \<open>The seven spellings of one number; and the double zero after the country code, of which only one is dropped.\<close>

lemma phone_spellings:
  "set (map (normalizePhone C_SA) [''0501234567'', ''501234567'', ''966501234567'', ''+966501234567'', ''+966 50 123 4567'',
     ''00966501234567'', ''+9660501234567'']) = {Some ''+966501234567''}"
  by code_simp

lemma phone_double_zero:
  "normalizePhone C_SA ''+96600501234567'' = Some ''+9660501234567'' \<and> normalizePhone C_SA ''+9660501234567'' = Some ''+966501234567''"
  by code_simp

section \<open>The lockout\<close>

definition otp_ok :: "instant \<Rightarrow> otp_state \<Rightarrow> bool" where
  "otp_ok t s \<longleftrightarrow> distinct (map ot_id (os_rows s))
     \<and> (\<forall>r \<in> set (os_rows s). ot_attempts r \<le> MAX_VERIFY_ATTEMPTS \<and> ot_expiresAt r \<le> ot_createdAt r + TTL_MINUTES * 60 * 1000)
     \<and> (\<forall>target. wrong_guesses target (t - TARGET_ATTEMPT_WINDOW_MS) (os_rows s) \<le> MAX_TARGET_ATTEMPTS)"

text \<open>The calls one after another, each with a clock that has not gone back.\<close>

inductive otp_runs :: "otp_state \<Rightarrow> instant \<Rightarrow> otp_state \<Rightarrow> bool" for s0 where
  start: "otp_runs s0 t s0"
| send: "otp_runs s0 t s \<Longrightarrow> t \<le> oe_now e 0 \<Longrightarrow> oe_now e 0 \<le> oe_now e 1 \<Longrightarrow> oe_now e 1 \<le> oe_dbNow e
    \<Longrightarrow> otp_runs s0 (oe_dbNow e) (snd (otp_send e target kind s))"
| verify: "otp_runs s0 t s \<Longrightarrow> t \<le> oe_now e 0 \<Longrightarrow> oe_now e 0 \<le> oe_now e 1
    \<Longrightarrow> otp_runs s0 (oe_now e 1) (snd (otp_verify e target code kind' consume s))"

lemma wrong_guesses_later: "since \<le> since' \<Longrightarrow> wrong_guesses target since' rows \<le> wrong_guesses target since rows"
  unfolding wrong_guesses_def window_rows_def by (induction rows) auto

lemma otp_ok_later: "otp_ok t s \<Longrightarrow> t \<le> t' \<Longrightarrow> otp_ok t' s"
  unfolding otp_ok_def by (meson diff_right_mono le_trans wrong_guesses_later)

lemma otp_ok_rows: "otp_ok t s \<Longrightarrow> os_rows s' = os_rows s \<Longrightarrow> otp_ok t s'"
  by (simp add: otp_ok_def)

lemma otp_ok_add:
  assumes "otp_ok t s" "ot_attempts r = 0" "ot_expiresAt r \<le> ot_createdAt r + TTL_MINUTES * 60 * 1000" "ot_id r \<notin> ot_id ` set (os_rows s)"
  shows "otp_ok t (os_rows_update (\<lambda>t. t @ [r]) s)"
  using assms by (auto simp: otp_ok_def wrong_guesses_def window_rows_def)

lemma otp_ok_burn: "otp_ok t s \<Longrightarrow> otp_ok t (os_rows_update (filter P) s)"
proof -
  have le: "wrong_guesses target since (filter P rows) \<le> wrong_guesses target since rows" for target since rows
    unfolding wrong_guesses_def window_rows_def by (induction rows) auto
  assume "otp_ok t s"
  then show ?thesis unfolding otp_ok_def by (auto simp: distinct_map_filter intro: order_trans [OF le])
qed

lemma sum_list_one:
  assumes "distinct (map k xs)" "r \<in> set xs"
  shows "sum_list (map (\<lambda>x. if k x = k r then Suc (f x) else f x) xs) = Suc (sum_list (map f xs) :: nat)"
  using assms
proof (induction xs)
  case (Cons x xs)
  show ?case
  proof (cases "x = r")
    case True
    with Cons.prems(1) have "\<And>y. y \<in> set xs \<Longrightarrow> k y \<noteq> k r" by (auto simp: image_iff)
    then have "sum_list (map (\<lambda>x. if k x = k r then Suc (f x) else f x) xs) = sum_list (map f xs)"
      by (intro arg_cong [where f = sum_list] map_cong) auto
    with True show ?thesis by simp
  next
    case False
    with Cons.prems have "r \<in> set xs" by simp
    moreover from this Cons.prems(1) have "k x \<noteq> k r" by (auto simp: image_iff)
    ultimately show ?thesis using Cons by simp
  qed
qed simp

text \<open>A wrong guess against a live code below both caps.\<close>

lemma otp_ok_count:
  assumes ok: "otp_ok t s" and r: "r \<in> set (os_rows s)" "ot_attempts r < MAX_VERIFY_ATTEMPTS" "t' \<le> ot_expiresAt r"
    and below: "wrong_guesses (ot_target r) (t' - TARGET_ATTEMPT_WINDOW_MS) (os_rows s) < MAX_TARGET_ATTEMPTS" and "t \<le> t'"
  shows "otp_ok t' (snd (count_wrong (ot_id r) s))"
proof -
  let ?f = "\<lambda>x. if ot_id x = ot_id r then x\<lparr> ot_attempts := Suc (ot_attempts x) \<rparr> else x"
  have ok': "otp_ok t' s" by (rule otp_ok_later [OF ok \<open>t \<le> t'\<close>])
  have d: "distinct (map ot_id (os_rows s))" using ok by (simp add: otp_ok_def)
  have only: "x = r" if "x \<in> set (os_rows s)" "ot_id x = ot_id r" for x
    using distinct_key_eq [OF d that(1) r(1) that(2)] .
  have "find (\<lambda>x. ot_id x = ot_id r) (os_rows s) \<noteq> None" using r(1) by (auto simp: find_None_iff)
  then obtain q where "find (\<lambda>x. ot_id x = ot_id r) (os_rows s) = Some q" by blast
  then have run: "os_rows (snd (count_wrong (ot_id r) s)) = map ?f (os_rows s)"
    by (simp add: count_wrong_def attempt_def seq_def update_row_def update_where_def)
  have rows: "window_rows target since (map ?f (os_rows s)) = map ?f (window_rows target since (os_rows s))" for target since
    unfolding window_rows_def filter_map by (rule arg_cong [where f = "map ?f"], rule filter_cong) auto
  have sum: "wrong_guesses target since (map ?f (os_rows s)) \<le> MAX_TARGET_ATTEMPTS" if since: "since = t' - TARGET_ATTEMPT_WINDOW_MS" for target since
  proof (cases "target = ot_target r")
    case False
    with only have "map ?f (window_rows target since (os_rows s)) = window_rows target since (os_rows s)"
      unfolding window_rows_def by (intro map_idI) auto
    with rows have "window_rows target since (map ?f (os_rows s)) = window_rows target since (os_rows s)" by simp
    with ok' since show ?thesis by (simp add: otp_ok_def wrong_guesses_def)
  next
    case True
    have "r \<in> set (window_rows target since (os_rows s))"
      using ok r True since by (auto simp: otp_ok_def window_rows_def TARGET_ATTEMPT_WINDOW_MS_def TTL_MINUTES_def)
    moreover have "distinct (map ot_id (window_rows target since (os_rows s)))"
      using d by (simp add: window_rows_def distinct_map_filter)
    ultimately have "wrong_guesses target since (map ?f (os_rows s)) = Suc (wrong_guesses target since (os_rows s))"
      using sum_list_one [of ot_id "window_rows target since (os_rows s)" r ot_attempts]
      by (simp add: wrong_guesses_def rows comp_def if_distrib cong: if_cong)
    with below since True show ?thesis by simp
  qed
  have "map ot_id (map ?f (os_rows s)) = map ot_id (os_rows s)" by simp
  with d have "distinct (map ot_id (map ?f (os_rows s)))" by metis
  moreover have "ot_attempts x \<le> MAX_VERIFY_ATTEMPTS \<and> ot_expiresAt x \<le> ot_createdAt x + TTL_MINUTES * 60 * 1000"
    if x: "x \<in> set (map ?f (os_rows s))" for x
  proof -
    from x obtain y where y: "y \<in> set (os_rows s)" "x = ?f y" by auto
    with ok only [of y] r(2) show ?thesis by (auto simp: otp_ok_def)
  qed
  ultimately show ?thesis unfolding otp_ok_def run using sum by blast
qed

lemma otp_limit_rows: "otp_limit e target s = (r, s') \<Longrightarrow> os_rows s' = os_rows s"
  by (auto simp: otp_limit_def seq_def hit_def Let_def split: if_splits)

lemma dispatch_code_rows [simp]: "os_rows (snd (dispatch_code e kind target code s)) = os_rows s"
  by (simp add: dispatch_code_def seq_def)

text \<open>A send adds at most one fresh row.\<close>

definition grows :: "otp_env \<Rightarrow> (otp_state, 'a) prog \<Rightarrow> bool" where
  "grows e m \<longleftrightarrow> (\<forall>s. os_rows (snd (m s)) = os_rows s
     \<or> (\<exists>r. os_rows (snd (m s)) = os_rows s @ [r] \<and> ot_attempts r = 0 \<and> ot_id r \<notin> ot_id ` set (os_rows s)
          \<and> ot_createdAt r = oe_dbNow e \<and> ot_expiresAt r = oe_now e 1 + TTL_MINUTES * 60 * 1000))"

lemma grows_step:
  assumes "leaves os_rows m" "\<And>x. grows e (k x)"
  shows "grows e (seq m k)"
  unfolding grows_def
proof
  fix s
  obtain r t where m: "m s = (r, t)" by fastforce
  have t: "os_rows t = os_rows s" by (rule leaves_runD [OF assms(1) m])
  show "os_rows (snd (seq m k s)) = os_rows s
     \<or> (\<exists>r. os_rows (snd (seq m k s)) = os_rows s @ [r] \<and> ot_attempts r = 0 \<and> ot_id r \<notin> ot_id ` set (os_rows s)
          \<and> ot_createdAt r = oe_dbNow e \<and> ot_expiresAt r = oe_now e 1 + TTL_MINUTES * 60 * 1000)"
  proof (cases r)
    case (Inl a)
    with m t show ?thesis by (simp add: seq_def)
  next
    case (Inr x)
    then have "seq m k s = k x t" using m by (simp add: seq_def)
    with assms(2) [of x] t show ?thesis unfolding grows_def by metis
  qed
qed

lemma grows_tail:
  assumes "grows e m" "\<And>x. leaves os_rows (k x)"
  shows "grows e (seq m k)"
  using assms(1) unfolding grows_def leaves_tail [of os_rows k m, OF assms(2)] .

lemma leaves_writes_rows: "(\<And>s. os_rows (f s) = os_rows s) \<Longrightarrow> leaves os_rows (writes f)"
  by (rule leavesI) simp

lemma leaves_otp [leaves_intros]: "leaves os_rows (otp_limit e target)" "leaves os_rows (dispatch_code e kind target code)"
  by (rule leavesI, simp add: otp_limit_def seq_def split: prod.split) (rule leavesI, simp)

lemma send_grows: "grows e (otp_send e raw kind)"
  unfolding otp_send_def Let_def
  by (rule grows_step, ((intro leaves_intros); fail)[1])+
    (rule grows_tail, auto simp: grows_def create_def image_iff intro!: leaves_intros)

lemma otp_ok_send:
  assumes "otp_ok t s" "t \<le> oe_now e 0" "oe_now e 0 \<le> oe_now e 1" "oe_now e 1 \<le> oe_dbNow e"
  shows "otp_ok (oe_dbNow e) (snd (otp_send e raw kind s))"
proof -
  have ok: "otp_ok (oe_dbNow e) s" by (rule otp_ok_later [OF assms(1)]) (use assms in linarith)
  show ?thesis
  proof (cases "os_rows (snd (otp_send e raw kind s)) = os_rows s")
    case True
    with ok show ?thesis by (rule otp_ok_rows)
  next
    case False
    with send_grows [of e raw kind] obtain r where r: "os_rows (snd (otp_send e raw kind s)) = os_rows s @ [r]"
      "ot_attempts r = 0" "ot_id r \<notin> ot_id ` set (os_rows s)" "ot_createdAt r = oe_dbNow e"
      "ot_expiresAt r = oe_now e 1 + TTL_MINUTES * 60 * 1000" unfolding grows_def by blast
    have "otp_ok (oe_dbNow e) (os_rows_update (\<lambda>t. t @ [r]) s)"
      by (rule otp_ok_add [OF ok r(2) _ r(3)]) (use r(4,5) assms(4) in linarith)
    from otp_ok_rows [OF this] r(1) show ?thesis by simp
  qed
qed

lemma latest_code_in: "latest_code target kind s = Some r \<Longrightarrow> r \<in> set (os_rows s) \<and> ot_target r = target \<and> (kind = None \<or> kind = Some (ot_type r))"
  by (auto simp: latest_code_def split: list.splits dest!: arg_cong [where f = set])

lemma latest_code_latest:
  assumes "latest_code target kind s = Some r" "q \<in> set (os_rows s)" "ot_target q = target" "kind = None \<or> kind = Some (ot_type q)"
  shows "ot_createdAt q \<le> ot_createdAt r"
proof -
  let ?l = "order_by ot_createdAt (filter (\<lambda>r. ot_target r = target \<and> (kind = None \<or> kind = Some (ot_type r))) (os_rows s))"
  obtain rest where "rev ?l = r # rest" using assms(1) by (auto simp: latest_code_def split: list.splits)
  then have l: "?l = rev rest @ [r]" by simp
  have "sorted (map ot_createdAt ?l)" by (simp add: order_by_def)
  with l have "\<forall>x \<in> set (rev rest). ot_createdAt x \<le> ot_createdAt r" by (simp add: sorted_append)
  moreover have "q \<in> set ?l" using assms(2-4) by (simp add: order_by_def)
  ultimately show ?thesis using l by auto
qed

lemma verify_reads_iff:
  "verify_reads e target kind s = (Inr r, s') \<longleftrightarrow> s' = s \<and> latest_code target kind s = Some r
     \<and> wrong_guesses target (oe_now e 0 - TARGET_ATTEMPT_WINDOW_MS) (os_rows s) < MAX_TARGET_ATTEMPTS
     \<and> ot_attempts r < MAX_VERIFY_ATTEMPTS \<and> oe_now e 1 \<le> ot_expiresAt r"
  unfolding verify_reads_def by (auto simp: prog_iff)

lemma verify_reads_fails: "verify_reads e target kind s = (Inl ex, s') \<Longrightarrow> s' = s"
  by (auto simp: verify_reads_def seq_def require_def found_def reads_def ret_def split: if_splits option.splits)

lemma otp_ok_verify:
  assumes "otp_ok t s" "t \<le> oe_now e 0" "oe_now e 0 \<le> oe_now e 1"
  shows "otp_ok (oe_now e 1) (snd (otp_verify e raw code kind consume s))"
proof -
  have ok: "otp_ok (oe_now e 1) s" by (rule otp_ok_later [OF assms(1)]) (use assms in linarith)
  let ?raw = "case raw of None \<Rightarrow> [] | Some t \<Rightarrow> u_trim t" and ?code = "case code of None \<Rightarrow> [] | Some t \<Rightarrow> u_trim t"
  let ?read = "verify_reads e (verify_target e ?raw) kind s"
  show ?thesis
  proof (cases "?raw \<noteq> [] \<and> ?code \<noteq> [] \<and> (\<exists>r. fst ?read = Inr r)")
    case False
    then have "snd (otp_verify e raw code kind consume s) = s"
      by (cases ?read; cases "fst ?read") (auto simp: otp_verify_def Let_def seq_def require_def dest: verify_reads_fails)
    with ok show ?thesis by simp
  next
    case True
    then obtain r where "?read = (Inr r, snd ?read)" by (auto simp: prod_eq_iff)
    then have r: "?read = (Inr r, s)" "latest_code (verify_target e ?raw) kind s = Some r"
      "wrong_guesses (verify_target e ?raw) (oe_now e 0 - TARGET_ATTEMPT_WINDOW_MS) (os_rows s) < MAX_TARGET_ATTEMPTS"
      "ot_attempts r < MAX_VERIFY_ATTEMPTS" "oe_now e 1 \<le> ot_expiresAt r"
      using verify_reads_iff by (metis snd_conv)+
    note run = True r(1)
    show ?thesis
    proof (cases "u_text (ot_code r) = ?code")
      case True
      with run have "snd (otp_verify e raw code kind consume s) = (if consume then os_rows_update (filter (\<lambda>x. ot_id x \<noteq> ot_id r)) s else s)"
        by (simp add: otp_verify_def Let_def seq_def require_def burn_def)
      with ok otp_ok_burn show ?thesis by simp
    next
      case False
      with run have step: "snd (otp_verify e raw code kind consume s) = snd (count_wrong (ot_id r) s)"
        by (simp add: otp_verify_def Let_def seq_def require_def split: prod.split sum.split)
      have in_s: "r \<in> set (os_rows s)" "ot_target r = verify_target e ?raw" using latest_code_in [OF r(2)] by simp_all
      have "wrong_guesses (ot_target r) (oe_now e 1 - TARGET_ATTEMPT_WINDOW_MS) (os_rows s) < MAX_TARGET_ATTEMPTS"
        using wrong_guesses_later [of "oe_now e 0 - TARGET_ATTEMPT_WINDOW_MS" "oe_now e 1 - TARGET_ATTEMPT_WINDOW_MS" "ot_target r" "os_rows s"]
          r(3) in_s(2) assms(3) by simp
      from otp_ok_count [OF ok in_s(1) r(4,5) this order_refl] show ?thesis unfolding step .
    qed
  qed
qed

lemma runs_ok:
  assumes "otp_runs s0 t s" "os_rows s0 = []"
  shows "otp_ok t s"
  using assms
proof (induction rule: otp_runs.induct)
  case (start t)
  then show ?case by (simp add: otp_ok_def wrong_guesses_def window_rows_def)
qed (blast intro: otp_ok_send otp_ok_verify)+

text \<open>
  C28: the lockout holds across resends. Whatever sequence of sends and verifications runs, for
  whatever targets and spellings, no code carries more than five wrong guesses, and the codes a
  target was sent in the last fifteen minutes carry at most ten together.
\<close>

theorem guesses_bounded:
  assumes "otp_runs s0 t s" "os_rows s0 = []"
  shows "(\<forall>r \<in> set (os_rows s). ot_attempts r \<le> MAX_VERIFY_ATTEMPTS)
    \<and> wrong_guesses target (t - TARGET_ATTEMPT_WINDOW_MS) (os_rows s) \<le> MAX_TARGET_ATTEMPTS"
  using runs_ok [OF assms] by (simp add: otp_ok_def)

text \<open>
  C29: a verification accepts only the last code sent to the target on that channel, unexpired
  and below both caps, and burns it unless told to keep it.
\<close>

theorem verify_accepts_last_code:
  assumes "otp_verify e raw code kind consume s = (Inr i, s')"
  shows "\<exists>r rawTarget entered. raw = Some rawTarget \<and> code = Some entered \<and> r \<in> set (os_rows s) \<and> ot_id r = i
    \<and> u_text (ot_code r) = u_trim entered \<and> ot_target r = verify_target e (u_trim rawTarget)
    \<and> (kind = None \<or> kind = Some (ot_type r)) \<and> oe_now e 1 \<le> ot_expiresAt r \<and> ot_attempts r < MAX_VERIFY_ATTEMPTS
    \<and> wrong_guesses (ot_target r) (oe_now e 0 - TARGET_ATTEMPT_WINDOW_MS) (os_rows s) < MAX_TARGET_ATTEMPTS
    \<and> (\<forall>q \<in> set (os_rows s). ot_target q = ot_target r \<and> (kind = None \<or> kind = Some (ot_type q)) \<longrightarrow> ot_createdAt q \<le> ot_createdAt r)
    \<and> s' = (if consume then os_rows_update (filter (\<lambda>q. ot_id q \<noteq> i)) s else s)"
proof -
  let ?raw = "case raw of None \<Rightarrow> [] | Some t \<Rightarrow> u_trim t" and ?code = "case code of None \<Rightarrow> [] | Some t \<Rightarrow> u_trim t"
  obtain r where r: "verify_reads e (verify_target e ?raw) kind s = (Inr r, s)" "?raw \<noteq> []" "?code \<noteq> []"
    "u_text (ot_code r) = ?code" "ot_id r = i" "s' = (if consume then os_rows_update (filter (\<lambda>q. ot_id q \<noteq> i)) s else s)"
    using assms unfolding otp_verify_def Let_def
    by (auto simp: prog_iff burn_def verify_reads_iff split: if_splits)
  then obtain rawTarget entered where some: "raw = Some rawTarget" "code = Some entered" by (auto split: option.splits)
  note v = r(1) [unfolded verify_reads_iff]
  from v have last: "latest_code (verify_target e ?raw) kind s = Some r" by blast
  note here = latest_code_in [OF last]
  have "\<forall>q \<in> set (os_rows s). ot_target q = ot_target r \<and> (kind = None \<or> kind = Some (ot_type q)) \<longrightarrow> ot_createdAt q \<le> ot_createdAt r"
    using latest_code_latest [OF last] here by auto
  with r v here some show ?thesis by (intro exI [of _ r] exI [of _ rawTarget] exI [of _ entered]) simp
qed

section \<open>Concrete calls\<close>

definition otp_at :: "instant \<Rightarrow> string \<Rightarrow> otp_env" where
  "otp_at t i = \<lparr> oe_lower = (\<lambda>x. x), oe_now = (\<lambda>_. t), oe_dbNow = t, oe_id = i, oe_draw = 0, oe_sms = (\<lambda>_. True), oe_mail = True, oe_taken = True \<rparr>"

definition no_codes :: otp_state where
  "no_codes = \<lparr> os_rows = [], os_hits = (\<lambda>_. []), os_sent = [] \<rparr>"

text \<open>The state after one send.\<close>

definition one_code :: otp_state where
  "one_code = \<lparr> os_rows = [\<lparr> ot_id = ''c1'', ot_target = u_text ''+966501234567'', ot_code = ''100000'', ot_type = By_phone,
       ot_expiresAt = 300000, ot_attempts = 0, ot_createdAt = 0 \<rparr>],
     os_hits = (\<lambda>_. [])(u_text ''otp:+966501234567'' := [0]), os_sent = [(By_phone, u_text ''+966501234567'', ''100000'')] \<rparr>"

lemma one_code_sent: "snd (otp_send (otp_at 0 ''c1'') (Some (u_text ''0501234567'')) By_phone no_codes) = one_code"
proof -
  have code: "generateCode 0 = ''100000''"
    by (simp add: generateCode_def CODE_LENGTH_def nat_str.simps digit_char_def) code_simp
  have raw: "u_trim (u_text ''0501234567'') = u_text ''0501234567''" "u_text ''0501234567'' \<noteq> []" by code_simp+
  have target: "normalize_text (u_text ''0501234567'') = Some ''+966501234567''" by code_simp
  have key: "u_text ''otp:'' @ u_text ''+966501234567'' = u_text ''otp:+966501234567''" by (simp add: u_text_def)
  show ?thesis
    by (simp add: otp_send_def Let_def raw target otp_limit_def hit_def OTP_SENDS_def key dispatch_code_def otp_at_def
        no_codes_def one_code_def code create_def TTL_MINUTES_def seq_def)
qed

definition guess :: "instant \<Rightarrow> otp_state \<Rightarrow> string res \<times> otp_state" where
  "guess t = otp_verify (otp_at t ''x'') (Some (u_text ''+966 50 123 4567'')) (Some (u_text ''000000'')) None True"

text \<open>Six wrong guesses, under another spelling of the number: the sixth is not counted any more.\<close>

lemma guesses_bounded_witness:
  "\<exists>s. snd (guess 6 (snd (guess 5 (snd (guess 4 (snd (guess 3 (snd (guess 2 (snd (guess 1 one_code))))))))))) = s
     \<and> map ot_attempts (os_rows s) = [5] \<and> list_all (\<lambda>r. ot_attempts r \<le> MAX_VERIFY_ATTEMPTS) (os_rows s)"
proof -
  let ?s = "snd (guess 6 (snd (guess 5 (snd (guess 4 (snd (guess 3 (snd (guess 2 (snd (guess 1 one_code)))))))))))"
  have one: "otp_runs no_codes 0 one_code"
    using otp_runs.send [OF otp_runs.start, of 0 "otp_at 0 ''c1''" no_codes] unfolding one_code_sent [symmetric] by (simp add: otp_at_def)
  have step: "otp_runs no_codes t' (snd (guess t' s))" if "otp_runs no_codes t s" "t \<le> t'" for t t' s
    using otp_runs.verify [OF that(1), of "otp_at t' ''x''"] that(2) by (simp add: guess_def otp_at_def)
  have "otp_runs no_codes 6 ?s"
    by (rule step [OF step [OF step [OF step [OF step [OF step [OF one]]]]]]) simp_all
  from guesses_bounded [OF this] have "list_all (\<lambda>r. ot_attempts r \<le> MAX_VERIFY_ATTEMPTS) (os_rows ?s)" by (simp add: no_codes_def list_all_iff)
  moreover have "map ot_attempts (os_rows ?s) = [5]" by code_simp
  ultimately show ?thesis by (intro exI [of _ ?s] conjI refl)
qed

lemma verify_accepts_last_code_witness:
  "\<exists>s'. otp_verify (otp_at 9 ''x'') (Some (u_text ''0501234567'')) (Some (u_text ''100000'')) None True one_code = (Inr ''c1'', s') \<and> os_rows s' = []"
proof -
  let ?v = "otp_verify (otp_at 9 ''x'') (Some (u_text ''0501234567'')) (Some (u_text ''100000'')) None True one_code"
  have "fst ?v = Inr ''c1''" by code_simp
  then have run: "?v = (Inr ''c1'', snd ?v)" by (simp add: prod_eq_iff)
  have "map ot_id (os_rows one_code) = [''c1'']" by code_simp
  then have "filter (\<lambda>q. ot_id q \<noteq> ''c1'') (os_rows one_code) = []" by (auto simp: filter_empty_conv)
  with verify_accepts_last_code [OF run] have "os_rows (snd ?v) = []" by auto
  with run show ?thesis by blast
qed

text \<open>Run concurrently, verifications that read before any of them counts all pass the cap.\<close>

lemma concurrent_guesses_overshoot:
  "let s = snd (guess 4 (snd (guess 3 (snd (guess 2 (snd (guess 1 one_code)))))));
       read = verify_reads (otp_at 5 ''x'') (u_text ''+966501234567'') None s
   in case fst read of Inl _ \<Rightarrow> False
      | Inr r \<Rightarrow> map ot_attempts (os_rows (snd (count_wrong (ot_id r) (snd (count_wrong (ot_id r) (snd read)))))) = [6]"
  by code_simp

end
