(* ===== verification/Roster.thy ===== *)
theory Roster
  imports Otp
begin

text \<open>
  The company roster: the CSV parser, header policy and row validation of
  \<open>corporate/roster-csv.ts\<close>. Text is a list of UTF-16 code units; lower-casing is an argument.
  The parser returns on every text, and inverts the quoting of RFC 4180; a file with an
  address column is refused, and what is imported is reachable and free of duplicates.
\<close>

section \<open>The CSV parser\<close>

text \<open>The local variables of \<open>parseCsv\<close>.\<close>

record csv =
  cv_rows :: "utext list list"
  cv_row :: "utext list"
  cv_cell :: utext
  cv_inQuotes :: bool
  cv_i :: nat

definition quote :: int where "quote = 34"
definition comma :: int where "comma = 44"
definition cr :: int where "cr = 13"
definition lf :: int where "lf = 10"

text \<open>\<open>src[i]\<close>: nothing past the end.\<close>

definition char_at :: "utext \<Rightarrow> nat \<Rightarrow> int option" where
  "char_at src i = (if i < length src then Some (src ! i) else None)"

definition pushCell :: "csv \<Rightarrow> csv" where
  "pushCell st = st\<lparr> cv_row := cv_row st @ [cv_cell st], cv_cell := [] \<rparr>"

definition blank_row :: "utext list \<Rightarrow> bool" where
  "blank_row row \<longleftrightarrow> list_all (\<lambda>c. u_trim c = []) row"

definition pushRow :: "csv \<Rightarrow> csv" where
  "pushRow st = (let st = pushCell st in
     st\<lparr> cv_rows := (if blank_row (cv_row st) then cv_rows st else cv_rows st @ [cv_row st]), cv_row := [] \<rparr>)"

definition advance :: "nat \<Rightarrow> csv \<Rightarrow> csv" where
  "advance n st = st\<lparr> cv_i := cv_i st + n \<rparr>"

definition take_char :: "int \<Rightarrow> csv \<Rightarrow> csv" where
  "take_char ch st = st\<lparr> cv_cell := cv_cell st @ [ch] \<rparr>"

text \<open>One turn of the loop.\<close>

definition csv_step :: "utext \<Rightarrow> csv \<Rightarrow> csv" where
  "csv_step src st =
     (let ch = src ! cv_i st; following = char_at src (cv_i st + 1) in
      if cv_inQuotes st then
        if ch = quote then
          if following = Some quote then advance 2 (take_char quote st)
          else advance 1 (st\<lparr> cv_inQuotes := False \<rparr>)
        else advance 1 (take_char ch st)
      else if ch = quote \<and> cv_cell st = [] then advance 1 (st\<lparr> cv_inQuotes := True \<rparr>)
      else if ch = comma then advance 1 (pushCell st)
      else if ch = cr then advance (if following = Some lf then 2 else 1) (pushRow st)
      else if ch = lf then advance 1 (pushRow st)
      else advance 1 (take_char ch st))"

text \<open>The loop, with no bound of its own: it is proved to end.\<close>

partial_function (option) csv_loop :: "utext \<Rightarrow> csv \<Rightarrow> csv option" where
  "csv_loop src st = (if cv_i st < length src then csv_loop src (csv_step src st) else Some st)"

definition csv_start :: csv where
  "csv_start = \<lparr> cv_rows = [], cv_row = [], cv_cell = [], cv_inQuotes = False, cv_i = 0 \<rparr>"

definition csv_end :: "csv \<Rightarrow> utext list list" where
  "csv_end st = cv_rows (if cv_cell st \<noteq> [] \<or> cv_row st \<noteq> [] then pushRow st else st)"

definition strip_bom :: "utext \<Rightarrow> utext" where
  "strip_bom text = (case text of c # r \<Rightarrow> if c = 0xFEFF then r else text | [] \<Rightarrow> [])"

definition parseCsv :: "utext \<Rightarrow> utext list list option" where
  "parseCsv text = map_option csv_end (csv_loop (strip_bom text) csv_start)"

section \<open>Header policy\<close>

text \<open>
  \<open>Inherited\<close> is what the alias table, a plain object, answers for the header
  \<open>constructor\<close>: a property of every object.
\<close>

datatype RosterField = FullName | Email | Phone | Department | EmployeeRef | Inherited

definition HEADER_ALIASES :: "(utext \<times> RosterField) list" where
  "HEADER_ALIASES =
     [(u_text ''name'', FullName), (u_text ''fullname'', FullName), (u_text ''full name'', FullName),
      (u_text ''employee name'', FullName), ([1575, 1604, 1575, 1587, 1605], FullName),
      ([1575, 1587, 1605, 32, 1575, 1604, 1605, 1608, 1592, 1601], FullName),
      ([1575, 1604, 1575, 1587, 1605, 32, 1575, 1604, 1603, 1575, 1605, 1604], FullName), (u_text ''email'', Email),
      (u_text ''email address'', Email), (u_text ''work email'', Email), ([1575, 1604, 1576, 1585, 1610, 1583], Email),
      ([1575, 1604, 1576, 1585, 1610, 1583, 32, 1575, 1604, 1573, 1604, 1603, 1578, 1585, 1608, 1606, 1610], Email),
      ([1575, 1604, 1576, 1585, 1610, 1583, 32, 1575, 1604, 1575, 1604, 1603, 1578, 1585, 1608, 1606, 1610], Email),
      ([1575, 1610, 1605, 1610, 1604], Email), ([1573, 1610, 1605, 1610, 1604], Email), (u_text ''phone'', Phone),
      (u_text ''mobile'', Phone), (u_text ''phone number'', Phone), (u_text ''mobile number'', Phone),
      ([1580, 1608, 1575, 1604], Phone), ([1575, 1604, 1580, 1608, 1575, 1604], Phone),
      ([1585, 1602, 1605, 32, 1575, 1604, 1580, 1608, 1575, 1604], Phone), ([1575, 1604, 1607, 1575, 1578, 1601], Phone),
      ([1585, 1602, 1605, 32, 1575, 1604, 1607, 1575, 1578, 1601], Phone), (u_text ''department'', Department),
      (u_text ''dept'', Department), (u_text ''team'', Department), ([1575, 1604, 1602, 1587, 1605], Department),
      ([1575, 1604, 1573, 1583, 1575, 1585, 1577], Department), ([1575, 1604, 1575, 1583, 1575, 1585, 1577], Department),
      (u_text ''employee id'', EmployeeRef), (u_text ''employeeid'', EmployeeRef), (u_text ''employee ref'', EmployeeRef),
      (u_text ''staff id'', EmployeeRef),
      ([1575, 1604, 1585, 1602, 1605, 32, 1575, 1604, 1608, 1592, 1610, 1601, 1610], EmployeeRef),
      ([1585, 1602, 1605, 32, 1575, 1604, 1605, 1608, 1592, 1601], EmployeeRef)]"

definition FORBIDDEN_HEADER_FRAGMENTS :: "utext list" where
  "FORBIDDEN_HEADER_FRAGMENTS =
     [u_text ''address'', u_text ''street'', u_text ''city'', u_text ''district'', u_text ''region'', u_text ''postal'',
      u_text ''zip'', u_text ''po box'', u_text ''pobox'', u_text ''location'', u_text ''building'', u_text ''apartment'',
      u_text ''villa'', [1593, 1606, 1608, 1575, 1606], [1575, 1604, 1593, 1606, 1608, 1575, 1606],
      [1588, 1575, 1585, 1593], [1605, 1583, 1610, 1606, 1577], [1575, 1604, 1605, 1583, 1610, 1606, 1577], [1581, 1610],
      [1575, 1604, 1581, 1610], [1605, 1606, 1591, 1602, 1577], [1575, 1604, 1605, 1606, 1591, 1602, 1577],
      [1585, 1605, 1586, 32, 1576, 1585, 1610, 1583, 1610],
      [1575, 1604, 1585, 1605, 1586, 32, 1575, 1604, 1576, 1585, 1610, 1583, 1610],
      [1589, 1606, 1583, 1608, 1602, 32, 1576, 1585, 1610, 1583], [1605, 1608, 1602, 1593], [1605, 1576, 1606, 1609],
      [1588, 1602, 1577], [1601, 1610, 1604, 1575]]"

definition alias_of :: "utext \<Rightarrow> RosterField option" where
  "alias_of nrm = (if nrm = u_text ''constructor'' then Some Inherited else map_of HEADER_ALIASES nrm)"

text \<open>A run of the characters becomes one space.\<close>

fun squeeze :: "(int \<Rightarrow> bool) \<Rightarrow> utext \<Rightarrow> utext" where
  "squeeze p [] = []"
| "squeeze p (c # cs) = (if p c then 32 # squeeze p (dropWhile p cs) else c # squeeze p cs)"

definition normalizeHeader :: "(utext \<Rightarrow> utext) \<Rightarrow> utext \<Rightarrow> utext" where
  "normalizeHeader lower h = u_trim (squeeze u_space (squeeze (\<lambda>c. c = 95 \<or> c = 45) (lower h)))"

fun u_includes :: "utext \<Rightarrow> utext \<Rightarrow> bool" where
  "u_includes [] f = (f = [])"
| "u_includes (c # cs) f = (take (length f) (c # cs) = f \<or> u_includes cs f)"

definition address_like :: "utext \<Rightarrow> bool" where
  "address_like nrm \<longleftrightarrow> list_ex (u_includes nrm) FORBIDDEN_HEADER_FRAGMENTS"

datatype RosterRejection =
    AddressColumnsForbidden "utext list"
  | HeadersUnusable
  | FileTooLarge
  | RosterEmpty
  | TooManyRows

text \<open>The columns seen so far: the offending ones, the mapping in order, the ignored ones.\<close>

record HeaderScan =
  hs_forbidden :: "utext list"
  hs_mapping :: "(nat \<times> RosterField) list"
  hs_ignored :: "utext list"

definition scan_header :: "(utext \<Rightarrow> utext) \<Rightarrow> nat \<times> utext \<Rightarrow> HeaderScan \<Rightarrow> HeaderScan" where
  "scan_header lower col h =
     (let (idx, raw) = col; nrm = normalizeHeader lower raw in
      if nrm = [] then h
      else if address_like nrm then h\<lparr> hs_forbidden := hs_forbidden h @ [u_trim raw] \<rparr>
      else case alias_of nrm of
          Some field \<Rightarrow>
            if field \<in> set (map snd (hs_mapping h)) then h\<lparr> hs_ignored := hs_ignored h @ [u_trim raw] \<rparr>
            else h\<lparr> hs_mapping := hs_mapping h @ [(idx, field)] \<rparr>
        | None \<Rightarrow> h\<lparr> hs_ignored := hs_ignored h @ [u_trim raw] \<rparr>)"

definition scan_headers :: "(utext \<Rightarrow> utext) \<Rightarrow> utext list \<Rightarrow> HeaderScan" where
  "scan_headers lower headerRow = fold (scan_header lower) (enumerate 0 headerRow)
     \<lparr> hs_forbidden = [], hs_mapping = [], hs_ignored = [] \<rparr>"

definition planHeaders :: "(utext \<Rightarrow> utext) \<Rightarrow> utext list \<Rightarrow> RosterRejection + ((nat \<times> RosterField) list \<times> utext list)" where
  "planHeaders lower headerRow =
     (let h = scan_headers lower headerRow; seen = set (map snd (hs_mapping h)) in
      if hs_forbidden h \<noteq> [] then Inl (AddressColumnsForbidden (hs_forbidden h))
      else if FullName \<notin> seen \<or> (Email \<notin> seen \<and> Phone \<notin> seen) then Inl HeadersUnusable
      else Inr (hs_mapping h, hs_ignored h))"

section \<open>Row validation\<close>

record RosterRow =
  rr_line :: nat
  rr_fullName :: utext
  rr_email :: "utext option"
  rr_phone :: "string option"
  rr_department :: "utext option"
  rr_employeeRef :: "utext option"

datatype SkipReason = Name_missing | Channel_missing | R_phone_invalid | Email_invalid | Duplicate_in_file | Duplicate_existing

type_synonym SkippedRow = "nat \<times> SkipReason"

datatype channel_key = E_key utext | P_key string

definition MAX_CSV_BYTES :: int where "MAX_CSV_BYTES = 512 * 1024"
definition MAX_ROSTER_ROWS :: int where "MAX_ROSTER_ROWS = 2000"

text \<open>\<open>Buffer.byteLength(text, 'utf8')\<close>: surrogate pairs take four bytes, a lone surrogate three.\<close>

fun utf8_length :: "utext \<Rightarrow> int" where
  "utf8_length (c # d # r) =
     (if 0xD800 \<le> c \<and> c < 0xDC00 \<and> 0xDC00 \<le> d \<and> d < 0xE000 then 4 + utf8_length r
      else (if c < 0x80 then 1 else if c < 0x800 then 2 else 3) + utf8_length (d # r))"
| "utf8_length [c] = (if c < 0x80 then 1 else if c < 0x800 then 2 else 3)"
| "utf8_length [] = 0"

text \<open>\<open>raw[field]\<close>: the trimmed cell of the field's column, when there is one and it is not empty.\<close>

definition raw_field :: "(nat \<times> RosterField) list \<Rightarrow> utext list \<Rightarrow> RosterField \<Rightarrow> utext option" where
  "raw_field mapping cells field =
     (case find (\<lambda>m. snd m = field) mapping of
        None \<Rightarrow> None
      | Some (idx, _) \<Rightarrow> (let v = u_trim (if idx < length cells then cells ! idx else []) in if v = [] then None else Some v))"

definition row_email :: "(utext \<Rightarrow> utext) \<Rightarrow> utext option \<Rightarrow> SkipReason + utext option" where
  "row_email lower raw =
     (case raw of None \<Rightarrow> Inr None
      | Some v \<Rightarrow> if email_shape 2 (lower v) then Inr (Some (lower v)) else Inl Email_invalid)"

definition row_phone :: "utext option \<Rightarrow> SkipReason + string option" where
  "row_phone raw =
     (case raw of None \<Rightarrow> Inr None
      | Some v \<Rightarrow> (case normalize_text v of
            None \<Rightarrow> Inl R_phone_invalid
          | Some p \<Rightarrow> if validateMobile p None = None then Inr (Some p) else Inl R_phone_invalid))"

definition channel_keys :: "utext option \<Rightarrow> string option \<Rightarrow> channel_key list" where
  "channel_keys email phone =
     (case email of None \<Rightarrow> [] | Some v \<Rightarrow> if v = [] then [] else [E_key v]) @ (case phone of None \<Rightarrow> [] | Some p \<Rightarrow> [P_key p])"

text \<open>One row, given the channels taken by the rows before it.\<close>

definition validate_row ::
  "(utext \<Rightarrow> utext) \<Rightarrow> (nat \<times> RosterField) list \<Rightarrow> channel_key list \<Rightarrow> nat \<Rightarrow> utext list \<Rightarrow> SkipReason + RosterRow"
where
  "validate_row lower mapping taken line cells =
     (let raw = raw_field mapping cells; fullName = (case raw FullName of None \<Rightarrow> [] | Some v \<Rightarrow> v) in
      if length fullName < 2 then Inl Name_missing
      else case row_email lower (raw Email) of
          Inl why \<Rightarrow> Inl why
        | Inr email \<Rightarrow>
            (case row_phone (raw Phone) of
               Inl why \<Rightarrow> Inl why
             | Inr phone \<Rightarrow>
                 if channel_keys email phone = [] then Inl Channel_missing
                 else if list_ex (\<lambda>k. k \<in> set taken) (channel_keys email phone) then Inl Duplicate_in_file
                 else Inr \<lparr> rr_line = line, rr_fullName = fullName, rr_email = email, rr_phone = phone,
                            rr_department = raw Department, rr_employeeRef = raw EmployeeRef \<rparr>))"

fun validate_rows ::
  "(utext \<Rightarrow> utext) \<Rightarrow> (nat \<times> RosterField) list \<Rightarrow> channel_key list \<Rightarrow> nat \<Rightarrow> utext list list \<Rightarrow> RosterRow list \<times> SkippedRow list"
where
  "validate_rows lower mapping taken line [] = ([], [])"
| "validate_rows lower mapping taken line (cells # rest) =
     (case validate_row lower mapping taken line cells of
        Inl why \<Rightarrow> (let (rows, skipped) = validate_rows lower mapping taken (Suc line) rest in (rows, (line, why) # skipped))
      | Inr row \<Rightarrow>
          (let (rows, skipped) = validate_rows lower mapping (taken @ channel_keys (rr_email row) (rr_phone row)) (Suc line) rest
           in (row # rows, skipped)))"

record ParsedRoster =
  pr_rows :: "RosterRow list"
  pr_skipped :: "SkippedRow list"
  pr_ignoredColumns :: "utext list"

definition parseRoster :: "(utext \<Rightarrow> utext) \<Rightarrow> utext \<Rightarrow> (RosterRejection + ParsedRoster) option" where
  "parseRoster lower text =
     (if MAX_CSV_BYTES < utf8_length text then Some (Inl FileTooLarge)
      else case parseCsv text of
          None \<Rightarrow> None
        | Some table \<Rightarrow> Some (
            if length table < 2 then Inl RosterEmpty
            else if MAX_ROSTER_ROWS < int (length table) - 1 then Inl TooManyRows
            else case planHeaders lower (hd table) of
                Inl rejection \<Rightarrow> Inl rejection
              | Inr (mapping, ignoredColumns) \<Rightarrow>
                  (let (rows, skipped) = validate_rows lower mapping [] 2 (tl table) in
                   Inr \<lparr> pr_rows = rows, pr_skipped = skipped, pr_ignoredColumns = ignoredColumns \<rparr>)))"

section \<open>The parser returns\<close>

lemma csv_step_advances: "cv_i st < cv_i (csv_step src st)"
  by (simp add: csv_step_def Let_def advance_def take_char_def pushCell_def pushRow_def)

definition no_blank :: "csv \<Rightarrow> bool" where
  "no_blank st \<longleftrightarrow> (\<forall>row \<in> set (cv_rows st). \<not> blank_row row)"

lemma no_blank_push: "no_blank st \<Longrightarrow> no_blank (pushRow st)"
  by (auto simp: no_blank_def pushRow_def pushCell_def Let_def)

lemma no_blank_step: "no_blank st \<Longrightarrow> no_blank (csv_step src st)"
  using no_blank_push [of st]
  by (simp add: csv_step_def Let_def advance_def take_char_def pushCell_def no_blank_def)

lemma csv_loop_returns: "no_blank st \<Longrightarrow> \<exists>st'. csv_loop src st = Some st' \<and> no_blank st'"
proof (induction "length src - cv_i st" arbitrary: st rule: less_induct)
  case less
  show ?case
  proof (cases "cv_i st < length src")
    case True
    then have "length src - cv_i (csv_step src st) < length src - cv_i st"
      using csv_step_advances [of st src] by linarith
    from less.hyps [OF this no_blank_step [OF less.prems]] True show ?thesis
      by (subst csv_loop.simps) simp
  next
    case False
    with less.prems show ?thesis by (subst csv_loop.simps) simp
  qed
qed

text \<open>
  C31: the parser returns on every text, well quoted or not, and drops every blank line.
\<close>

theorem parseCsv_returns: "\<exists>rows. parseCsv text = Some rows \<and> list_all (\<lambda>row. \<not> blank_row row) rows"
proof -
  have "no_blank csv_start" by (simp add: no_blank_def csv_start_def)
  then obtain st where st: "csv_loop (strip_bom text) csv_start = Some st" "no_blank st"
    using csv_loop_returns by blast
  then have "\<forall>row \<in> set (csv_end st). \<not> blank_row row"
    using no_blank_push [OF st(2)] by (simp add: csv_end_def no_blank_def)
  with st(1) show ?thesis by (simp add: parseCsv_def list_all_iff)
qed

section \<open>Quoting\<close>

text \<open>RFC 4180: every cell quoted, quotes doubled, cells separated by commas, lines ended by a line feed.\<close>

definition escape_cell :: "utext \<Rightarrow> utext" where
  "escape_cell c = concat (map (\<lambda>x. if x = quote then [quote, quote] else [x]) c)"

fun csv_cells :: "utext list \<Rightarrow> utext" where
  "csv_cells [] = []"
| "csv_cells [c] = quote # escape_cell c @ [quote]"
| "csv_cells (c # d # r) = quote # escape_cell c @ [quote, comma] @ csv_cells (d # r)"

definition csv_text :: "utext list list \<Rightarrow> utext" where
  "csv_text rows = concat (map (\<lambda>row. csv_cells row @ [lf]) rows)"

text \<open>The loop at a position, in terms of what is left of the text.\<close>

lemma char_here: "drop i src = c # r \<Longrightarrow> i < length src \<and> src ! i = c"
  by (metis Cons_nth_drop_Suc drop_eq_Nil leI list.distinct(1) list.inject)

lemma char_after: "drop i src = c # r \<Longrightarrow> char_at src (Suc i) = (case r of [] \<Rightarrow> None | d # _ \<Rightarrow> Some d) \<and> drop (Suc i) src = r"
proof -
  assume d: "drop i src = c # r"
  then have r: "drop (Suc i) src = r" by (metis drop_Suc list.sel(3) tl_drop)
  moreover have "char_at src (Suc i) = (case r of [] \<Rightarrow> None | d # _ \<Rightarrow> Some d)"
    using r char_here [of "Suc i" src] by (cases r) (auto simp: char_at_def)
  ultimately show ?thesis by simp
qed

lemma loop_turn: "drop (cv_i st) src = c # r \<Longrightarrow> csv_loop src st = csv_loop src (csv_step src st)"
  by (subst csv_loop.simps) (simp add: char_here)

text \<open>Inside quotes the escaped cell is read back, up to the closing quote.\<close>

lemma loop_cell:
  assumes "drop i src = escape_cell c @ quote # r" "take 1 r \<noteq> [quote]"
  shows "csv_loop src \<lparr> cv_rows = rows, cv_row = row, cv_cell = cell, cv_inQuotes = True, cv_i = i \<rparr>
    = csv_loop src \<lparr> cv_rows = rows, cv_row = row, cv_cell = cell @ c, cv_inQuotes = False, cv_i = i + length (escape_cell c) + 1 \<rparr>"
  using assms
proof (induction c arbitrary: i cell)
  case Nil
  then have d: "drop i src = quote # r" by (simp add: escape_cell_def)
  from loop_turn [of "\<lparr> cv_rows = rows, cv_row = row, cv_cell = cell, cv_inQuotes = True, cv_i = i \<rparr>" src quote r]
    char_here [OF d] char_after [OF d] Nil.prems(2) d
  show ?case by (cases r) (auto simp: csv_step_def advance_def escape_cell_def Let_def)
next
  case (Cons x c)
  show ?case
  proof (cases "x = quote")
    case True
    then have d: "drop i src = quote # quote # escape_cell c @ quote # r" using Cons.prems(1) by (simp add: escape_cell_def)
    then have d2: "drop (i + 2) src = escape_cell c @ quote # r" by (metis add_2_eq_Suc' char_after)
    from loop_turn [of "\<lparr> cv_rows = rows, cv_row = row, cv_cell = cell, cv_inQuotes = True, cv_i = i \<rparr>" src quote "quote # escape_cell c @ quote # r"]
      d char_here [OF d] char_after [OF d] Cons.IH [OF d2 Cons.prems(2), of "cell @ [quote]"] True
    show ?thesis by (simp add: csv_step_def advance_def take_char_def escape_cell_def)
  next
    case False
    then have d: "drop i src = x # escape_cell c @ quote # r" using Cons.prems(1) by (simp add: escape_cell_def)
    then have d2: "drop (i + 1) src = escape_cell c @ quote # r" by (simp add: char_after)
    from loop_turn [of "\<lparr> cv_rows = rows, cv_row = row, cv_cell = cell, cv_inQuotes = True, cv_i = i \<rparr>" src x "escape_cell c @ quote # r"]
      d char_here [OF d] Cons.IH [OF d2 Cons.prems(2), of "cell @ [x]"] False
    show ?thesis by (simp add: csv_step_def advance_def take_char_def escape_cell_def)
  qed
qed

lemma loop_quoted:
  assumes "drop i src = quote # escape_cell c @ quote # r" "take 1 r \<noteq> [quote]"
  shows "csv_loop src \<lparr> cv_rows = rows, cv_row = row, cv_cell = [], cv_inQuotes = False, cv_i = i \<rparr>
    = csv_loop src \<lparr> cv_rows = rows, cv_row = row, cv_cell = c, cv_inQuotes = False, cv_i = i + length (escape_cell c) + 2 \<rparr>"
proof -
  let ?st = "\<lparr> cv_rows = rows, cv_row = row, cv_cell = [], cv_inQuotes = False, cv_i = i \<rparr>"
  have "drop (Suc i) src = escape_cell c @ quote # r" using char_after [OF assms(1)] by simp
  from loop_cell [OF this assms(2), of rows row "[]"]
    loop_turn [of ?st src quote "escape_cell c @ quote # r"] assms(1) char_here [OF assms(1)]
  show ?thesis by (simp add: csv_step_def advance_def)
qed

text \<open>A whole line.\<close>

lemma loop_line:
  assumes "drop i src = csv_cells (c # cs) @ lf # r"
  shows "csv_loop src \<lparr> cv_rows = rows, cv_row = row, cv_cell = [], cv_inQuotes = False, cv_i = i \<rparr>
    = csv_loop src (pushRow \<lparr> cv_rows = rows, cv_row = row @ butlast (c # cs), cv_cell = last (c # cs), cv_inQuotes = False,
        cv_i = i + length (csv_cells (c # cs)) + 1 \<rparr>)"
  using assms
proof (induction cs arbitrary: c i row)
  case Nil
  let ?j = "i + length (escape_cell c) + 2"
  have i: "drop i src = quote # escape_cell c @ quote # lf # r" using Nil by simp
  have j: "drop ?j src = lf # r"
    using arg_cong [where f = "drop (length (escape_cell c) + 2)", OF i] by (simp add: add.commute)
  from loop_quoted [OF i, of rows row] loop_turn [of "\<lparr> cv_rows = rows, cv_row = row, cv_cell = c, cv_inQuotes = False, cv_i = ?j \<rparr>" src lf r]
    j char_here [OF j]
  show ?case by (simp add: csv_step_def advance_def quote_def lf_def comma_def cr_def pushRow_def pushCell_def Let_def)
next
  case (Cons d cs)
  let ?j = "i + length (escape_cell c) + 2"
  have i: "drop i src = quote # escape_cell c @ quote # comma # csv_cells (d # cs) @ lf # r" using Cons.prems by simp
  have j: "drop ?j src = comma # csv_cells (d # cs) @ lf # r"
    using arg_cong [where f = "drop (length (escape_cell c) + 2)", OF i] by (simp add: add.commute)
  have next_cell: "drop (Suc ?j) src = csv_cells (d # cs) @ lf # r" using char_after [OF j] by simp
  from loop_quoted [OF i, of rows row] loop_turn [of "\<lparr> cv_rows = rows, cv_row = row, cv_cell = c, cv_inQuotes = False, cv_i = ?j \<rparr>"
      src comma "csv_cells (d # cs) @ lf # r"] j char_here [OF j] Cons.IH [OF next_cell, of "row @ [c]"]
  show ?case by (simp add: csv_step_def advance_def quote_def lf_def comma_def cr_def pushCell_def add.assoc)
qed

lemma loop_lines:
  assumes "drop i src = csv_text rows" "\<forall>row \<in> set rows. \<not> blank_row row"
  shows "csv_loop src \<lparr> cv_rows = before, cv_row = [], cv_cell = [], cv_inQuotes = False, cv_i = i \<rparr>
    = Some \<lparr> cv_rows = before @ rows, cv_row = [], cv_cell = [], cv_inQuotes = False, cv_i = i + length (csv_text rows) \<rparr>"
  using assms
proof (induction rows arbitrary: i before)
  case Nil
  then have "\<not> i < length src" by (simp add: csv_text_def)
  then show ?case by (subst csv_loop.simps) (simp add: csv_text_def)
next
  case (Cons row rows)
  then obtain c cs where row: "row = c # cs" by (cases row) (auto simp: blank_row_def)
  have d: "drop i src = csv_cells (c # cs) @ lf # csv_text rows" using Cons.prems(1) by (simp add: csv_text_def row)
  have d2: "drop (i + length (csv_cells (c # cs)) + 1) src = csv_text rows"
    using arg_cong [where f = "drop (length (csv_cells (c # cs)) + 1)", OF d] by (simp add: add.commute)
  from loop_line [OF d, of before "[]"] Cons.IH [OF d2, of "before @ [row]"] Cons.prems(2)
  show ?case by (simp add: pushRow_def pushCell_def Let_def row csv_text_def del: csv_cells.simps butlast.simps last.simps)
qed

lemma csv_text_hd: "csv_text rows \<noteq> 0xFEFF # r"
proof (cases rows)
  case (Cons row rest)
  show ?thesis
    by (cases row rule: csv_cells.cases) (simp_all add: csv_text_def Cons quote_def lf_def)
qed (simp add: csv_text_def)

text \<open>
  C30: quoting round trip. Any table without blank rows, written with quoted cells, commas and
  line feeds, whatever the cells hold, quotes, commas and line ends included, is read back as it was.
\<close>

theorem csv_roundtrip:
  assumes "\<forall>row \<in> set rows. \<not> blank_row row"
  shows "parseCsv (csv_text rows) = Some rows"
proof -
  have "strip_bom (csv_text rows) = csv_text rows"
    using csv_text_hd [of rows] by (auto simp: strip_bom_def split: list.split)
  with loop_lines [of 0 "csv_text rows" rows "[]"] assms show ?thesis
    by (simp add: parseCsv_def csv_start_def csv_end_def)
qed

lemma csv_roundtrip_witness:
  "parseCsv (csv_text [[u_text ''na,me'', [34, 10]], [[], [1575, 44, 34]]]) = Some [[u_text ''na,me'', [34, 10]], [[], [1575, 44, 34]]]"
  by (rule csv_roundtrip) (simp add: blank_row_def u_text_def u_trim_def u_space_def)

lemma parseCsv_table: "\<exists>table. parseCsv text = Some table"
proof -
  have "no_blank csv_start" by (simp add: no_blank_def csv_start_def)
  then obtain st where "csv_loop (strip_bom text) csv_start = Some st" using csv_loop_returns by blast
  then show ?thesis by (simp add: parseCsv_def)
qed

section \<open>What an accepted file holds\<close>

lemma scan_forbidden:
  "set (hs_forbidden (fold (scan_header lower) cols h)) =
     set (hs_forbidden h) \<union> {u_trim raw | i raw. (i, raw) \<in> set cols \<and> normalizeHeader lower raw \<noteq> [] \<and> address_like (normalizeHeader lower raw)}"
proof (induction cols arbitrary: h)
  case (Cons col cols)
  obtain i raw where col: "col = (i, raw)" by fastforce
  have "set (hs_forbidden (scan_header lower col h)) = set (hs_forbidden h)
      \<union> (if normalizeHeader lower raw \<noteq> [] \<and> address_like (normalizeHeader lower raw) then {u_trim raw} else {})"
    by (auto simp: scan_header_def col Let_def split: option.split)
  with Cons.IH [of "scan_header lower col h"] show ?case by (auto simp: col)
qed simp

lemma scan_headers_set:
  "set (hs_forbidden (scan_headers lower row)) =
     {u_trim raw | raw. raw \<in> set row \<and> normalizeHeader lower raw \<noteq> [] \<and> address_like (normalizeHeader lower raw)}"
proof -
  have "raw \<in> set row \<longleftrightarrow> (\<exists>i. (i, raw) \<in> set (enumerate 0 row))" for raw
  proof -
    have "raw \<in> set row \<longleftrightarrow> raw \<in> snd ` set (enumerate 0 row)" by (metis list.set_map map_snd_enumerate)
    then show ?thesis by force
  qed
  then show ?thesis unfolding scan_headers_def scan_forbidden by auto
qed

lemma scan_headers_forbidden:
  "hs_forbidden (scan_headers lower row) = [] \<longleftrightarrow>
     (\<forall>raw \<in> set row. normalizeHeader lower raw = [] \<or> \<not> address_like (normalizeHeader lower raw))"
  using scan_headers_set [of lower row] by (auto simp flip: set_empty)

lemma parseRoster_table:
  obtains table where "parseCsv text = Some table"
    "parseRoster lower text = Some (
       if MAX_CSV_BYTES < utf8_length text then Inl FileTooLarge
       else if length table < 2 then Inl RosterEmpty
       else if MAX_ROSTER_ROWS < int (length table) - 1 then Inl TooManyRows
       else case planHeaders lower (hd table) of
           Inl rejection \<Rightarrow> Inl rejection
         | Inr (mapping, ignoredColumns) \<Rightarrow>
             (let (rows, skipped) = validate_rows lower mapping [] 2 (tl table) in
              Inr \<lparr> pr_rows = rows, pr_skipped = skipped, pr_ignoredColumns = ignoredColumns \<rparr>))"
  using parseCsv_table [of "text"] by (auto simp: parseRoster_def)

text \<open>
  C33: no addresses. A file is imported only when no header, in English or Arabic, looks like an
  address; a refusal for that reason names exactly the columns that do.
\<close>

theorem address_columns_refused:
  "\<exists>table. parseCsv text = Some table
    \<and> (\<forall>p. parseRoster lower text = Some (Inr p) \<longrightarrow>
         (\<forall>raw \<in> set (hd table). normalizeHeader lower raw = [] \<or> \<not> address_like (normalizeHeader lower raw)))
    \<and> (\<forall>columns. parseRoster lower text = Some (Inl (AddressColumnsForbidden columns)) \<longrightarrow> columns \<noteq> [] \<and>
         set columns = {u_trim raw | raw. raw \<in> set (hd table) \<and> normalizeHeader lower raw \<noteq> [] \<and> address_like (normalizeHeader lower raw)})"
proof -
  obtain table where t: "parseCsv text = Some table"
    "parseRoster lower text = Some (
       if MAX_CSV_BYTES < utf8_length text then Inl FileTooLarge
       else if length table < 2 then Inl RosterEmpty
       else if MAX_ROSTER_ROWS < int (length table) - 1 then Inl TooManyRows
       else case planHeaders lower (hd table) of
           Inl rejection \<Rightarrow> Inl rejection
         | Inr (mapping, ignoredColumns) \<Rightarrow>
             (let (rows, skipped) = validate_rows lower mapping [] 2 (tl table) in
              Inr \<lparr> pr_rows = rows, pr_skipped = skipped, pr_ignoredColumns = ignoredColumns \<rparr>))"
    by (rule parseRoster_table)
  note cols = scan_headers_set [of lower "hd table"]
  have plan: "planHeaders lower (hd table) = Inr q \<Longrightarrow> hs_forbidden (scan_headers lower (hd table)) = []"
    "planHeaders lower (hd table) = Inl (AddressColumnsForbidden columns) \<Longrightarrow>
       columns = hs_forbidden (scan_headers lower (hd table)) \<and> columns \<noteq> []" for q columns
    by (auto simp: planHeaders_def Let_def split: if_splits)
  show ?thesis
    using t plan scan_headers_forbidden [of lower "hd table"] cols
    by (intro exI [of _ table]) (auto split: if_splits sum.splits prod.splits)
qed

definition ascii_lower :: "utext \<Rightarrow> utext" where
  "ascii_lower = map (\<lambda>c. if 65 \<le> c \<and> c \<le> 90 then c + 32 else c)"

definition sample_headers :: "utext list" where
  "sample_headers = [u_text ''Full_Name'', u_text ''email'', u_text ''Home-Address'']"

lemma parse_quoted: "parseCsv (csv_text [sample_headers, [u_text ''Sara'', u_text ''s@a.sa'', u_text ''x'']]) =
    Some [sample_headers, [u_text ''Sara'', u_text ''s@a.sa'', u_text ''x'']]"
  by (rule csv_roundtrip) (simp add: blank_row_def u_text_def u_trim_def u_space_def sample_headers_def)

lemma address_columns_refused_witness:
  "\<exists>columns. parseRoster ascii_lower (csv_text [sample_headers, [u_text ''Sara'', u_text ''s@a.sa'', u_text ''x'']]) =
      Some (Inl (AddressColumnsForbidden columns)) \<and> u_text ''Home-Address'' \<in> set columns"
proof -
  let ?text = "csv_text [sample_headers, [u_text ''Sara'', u_text ''s@a.sa'', u_text ''x'']]"
  have size: "\<not> MAX_CSV_BYTES < utf8_length ?text" by code_simp
  have "case planHeaders ascii_lower sample_headers of Inl (AddressColumnsForbidden _) \<Rightarrow> True | _ \<Rightarrow> False" by code_simp
  then obtain columns where plan: "planHeaders ascii_lower sample_headers = Inl (AddressColumnsForbidden columns)"
    by (auto split: sum.splits RosterRejection.splits)
  have refused: "parseRoster ascii_lower ?text = Some (Inl (AddressColumnsForbidden columns))"
    using size plan by (simp add: parseRoster_def parse_quoted MAX_ROSTER_ROWS_def)
  have like: "normalizeHeader ascii_lower (u_text ''Home-Address'') \<noteq> []" "address_like (normalizeHeader ascii_lower (u_text ''Home-Address''))"
    "u_trim (u_text ''Home-Address'') = u_text ''Home-Address''" by code_simp+
  from address_columns_refused [of ?text ascii_lower] refused
  have "set columns = {u_trim raw | raw. raw \<in> set sample_headers \<and> normalizeHeader ascii_lower raw \<noteq> [] \<and> address_like (normalizeHeader ascii_lower raw)}"
    unfolding parse_quoted by auto
  moreover have "u_text ''Home-Address'' \<in> set sample_headers" by (simp add: sample_headers_def)
  ultimately have "u_text ''Home-Address'' \<in> set columns" using like by force
  with refused show ?thesis by blast
qed

text \<open>What makes a row worth importing.\<close>

definition row_keys :: "RosterRow \<Rightarrow> channel_key list" where
  "row_keys r = channel_keys (rr_email r) (rr_phone r)"

definition roster_row_ok :: "RosterRow \<Rightarrow> bool" where
  "roster_row_ok r \<longleftrightarrow> 2 \<le> length (rr_fullName r) \<and> row_keys r \<noteq> []
     \<and> (\<forall>v. rr_email r = Some v \<longrightarrow> email_shape 2 v)
     \<and> (\<forall>q. rr_phone r = Some q \<longrightarrow> E164_REGEX q \<and> validateMobile q None = None \<and> normalizePhone C_SA q = Some q)"

lemma mobile_canonical:
  "normalizePhone c raw = Some p \<Longrightarrow> validateMobile p None = None \<Longrightarrow> normalizePhone c' p = Some p"
  by (rule phone_canonical) simp_all

lemma validate_row_ok:
  assumes "validate_row lower mapping taken line cells = Inr r"
  shows "roster_row_ok r \<and> rr_line r = line \<and> distinct (row_keys r) \<and> set (row_keys r) \<inter> set taken = {}"
proof -
  let ?raw = "raw_field mapping cells"
  obtain e p where e: "row_email lower (?raw Email) = Inr e" and p: "row_phone (?raw Phone) = Inr p"
    and r: "r = \<lparr> rr_line = line, rr_fullName = (case ?raw FullName of None \<Rightarrow> [] | Some v \<Rightarrow> v), rr_email = e, rr_phone = p,
      rr_department = ?raw Department, rr_employeeRef = ?raw EmployeeRef \<rparr>"
    and more: "2 \<le> length (rr_fullName r)" "channel_keys e p \<noteq> []" "\<forall>k \<in> set (channel_keys e p). k \<notin> set taken"
    using assms by (auto simp: validate_row_def Let_def list_ex_iff split: if_splits sum.splits)
  have "\<forall>v. e = Some v \<longrightarrow> email_shape 2 v" using e by (auto simp: row_email_def split: option.splits if_splits)
  moreover have "\<forall>q. p = Some q \<longrightarrow> E164_REGEX q \<and> validateMobile q None = None \<and> normalizePhone C_SA q = Some q"
    using p by (auto simp: row_phone_def normalize_text_def split: option.splits if_splits
        intro: normalizePhone_e164 mobile_canonical)
  moreover have "distinct (channel_keys e p)" by (auto simp: channel_keys_def split: option.split)
  ultimately show ?thesis using more r by (auto simp: roster_row_ok_def row_keys_def)
qed

lemma validate_rows_ok:
  assumes "validate_rows lower mapping taken line cells = (rows, skipped)"
  shows "(\<forall>r \<in> set rows. roster_row_ok r) \<and> distinct (concat (map row_keys rows)) \<and> set (concat (map row_keys rows)) \<inter> set taken = {}
    \<and> mset (map rr_line rows) + mset (map fst skipped) = mset [line..<line + length cells]"
  using assms
proof (induction cells arbitrary: taken line rows skipped)
  case (Cons c cells)
  have lines: "mset [line..<line + length (c # cells)] = add_mset line (mset [Suc line..<Suc line + length cells])"
    by (simp add: upt_conv_Cons del: mset_upt upt_Suc)
  show ?case
  proof (cases "validate_row lower mapping taken line c")
    case (Inl why)
    obtain rows' skipped' where rest: "validate_rows lower mapping taken (Suc line) cells = (rows', skipped')" by fastforce
    with Cons.prems Inl have "rows = rows'" "skipped = (line, why) # skipped'" by auto
    with Cons.IH [OF rest] show ?thesis unfolding lines by simp
  next
    case (Inr r)
    let ?taken = "taken @ row_keys r"
    obtain rows' skipped' where rest: "validate_rows lower mapping ?taken (Suc line) cells = (rows', skipped')" by fastforce
    with Cons.prems Inr have "rows = r # rows'" "skipped = skipped'" by (auto simp: row_keys_def)
    moreover note Cons.IH [OF rest] validate_row_ok [OF Inr]
    ultimately show ?thesis unfolding lines by auto
  qed
qed simp

text \<open>
  C32: what an import keeps. Every row kept has a name and a channel, its email has the shape of
  an address and its phone number is a canonical mobile number; no two rows kept share a channel;
  and every data line of the file is either kept or reported as skipped, once.
\<close>

theorem roster_rows_sound:
  assumes "parseRoster lower text = Some (Inr p)"
  shows "\<exists>table. parseCsv text = Some table \<and> (\<forall>r \<in> set (pr_rows p). roster_row_ok r)
    \<and> distinct (concat (map row_keys (pr_rows p)))
    \<and> mset (map rr_line (pr_rows p)) + mset (map fst (pr_skipped p)) = mset [2..<Suc (length table)]"
proof -
  obtain table mapping ignored where t: "parseCsv text = Some table" "2 \<le> length table"
    "validate_rows lower mapping [] 2 (tl table) = (pr_rows p, pr_skipped p)"
    using assms unfolding parseRoster_def by (auto split: if_splits option.splits sum.splits prod.splits)
  have lines: "2 + length (tl table) = Suc (length table)" using t(2) by simp
  from t(1) validate_rows_ok [OF t(3)] show ?thesis unfolding lines by blast
qed

definition sample_roster :: "utext list list" where
  "sample_roster = [[u_text ''name'', u_text ''mobile'', u_text ''email''], [u_text ''Sara'', u_text ''050 123 4567'', []],
     [u_text ''Noura'', u_text ''+966501234567'', u_text ''n@corp.sa'']]"

text \<open>The second row repeats the number of the first, in another spelling.\<close>

lemma roster_rows_sound_witness:
  "\<exists>p. parseRoster ascii_lower (csv_text sample_roster) = Some (Inr p) \<and> map rr_line (pr_rows p) = [2]
     \<and> mset (map rr_line (pr_rows p)) + mset (map fst (pr_skipped p)) = mset [2, 3]"
proof -
  have parse: "parseCsv (csv_text sample_roster) = Some sample_roster"
    by (rule csv_roundtrip) (simp add: blank_row_def u_text_def u_trim_def u_space_def sample_roster_def)
  have size: "\<not> MAX_CSV_BYTES < utf8_length (csv_text sample_roster)" by code_simp
  have "case planHeaders ascii_lower (hd sample_roster) of Inl _ \<Rightarrow> False
      | Inr (mapping, _) \<Rightarrow> map rr_line (fst (validate_rows ascii_lower mapping [] 2 (tl sample_roster))) = [2]" by code_simp
  then obtain mapping ignored where plan: "planHeaders ascii_lower (hd sample_roster) = Inr (mapping, ignored)"
    "map rr_line (fst (validate_rows ascii_lower mapping [] 2 (tl sample_roster))) = [2]"
    by (auto split: sum.splits)
  have three: "length sample_roster = 3" by (simp add: sample_roster_def)
  obtain rows skipped where rows: "validate_rows ascii_lower mapping [] 2 (tl sample_roster) = (rows, skipped)" by fastforce
  have ok: "parseRoster ascii_lower (csv_text sample_roster) =
      Some (Inr \<lparr> pr_rows = rows, pr_skipped = skipped, pr_ignoredColumns = ignored \<rparr>)"
    using size plan rows three by (simp add: parseRoster_def parse MAX_ROSTER_ROWS_def)
  from roster_rows_sound [OF ok] have "mset (map rr_line rows) + mset (map fst skipped) = mset [2..<Suc 3]"
    unfolding parse using three by auto
  moreover have "[2..<Suc 3] = [2, 3::nat]" by code_simp
  ultimately have lines: "mset (map rr_line rows) + mset (map fst skipped) = mset [2, 3]" by (simp only:)
  from plan(2) rows have "map rr_line rows = [2]" by simp
  with ok lines show ?thesis by (metis ParsedRoster.select_convs(1,2))
qed

end
