(* ===== verification/Corp_Data.thy ===== *)
theory Corp_Data
  imports Roster Gifts Tax
begin

text \<open>
  The corporate lane's tables and its roster: organisations, contacts, campaigns with their
  options and recipients, dispatch jobs, claims and claim addresses, beside the invoices, ledger
  and audit trail of the common database. The roster services are \<open>corporate/roster.service.ts\<close>
  and \<open>corporate/roster-purge.service.ts\<close>.
\<close>

section \<open>Tables\<close>

record Organization =
  og_id :: string
  og_legalName :: string
  og_displayName :: string
  og_displayNameAr :: "string option"
  og_crNumber :: "string option"
  og_vatNumber :: "string option"
  og_status :: string

record CorporateContact =
  cc_id :: string
  cc_orgId :: string
  cc_fullName :: utext
  cc_email :: "utext option"
  cc_phone :: "string option"
  cc_department :: "utext option"
  cc_employeeRef :: "utext option"
  cc_status :: string
  cc_importBatchId :: "string option"
  cc_purgeAfter :: instant
  cc_archivedAt :: "instant option"

record Campaign =
  ca_id :: string
  ca_orgId :: string
  ca_referenceNumber :: string
  ca_name :: string
  ca_occasion :: "string option"
  ca_message :: "string option"
  ca_status :: string
  ca_createdBy :: string
  ca_submittedAt :: "instant option"
  ca_approvedBy :: "string option"
  ca_approvedAt :: "instant option"
  ca_reviewNote :: "string option"
  ca_cancelledBy :: "string option"
  ca_cancelledAt :: "instant option"
  ca_createdAt :: instant

text \<open>The copy of product and store an approval freezes.\<close>

record ApprovalSnapshot =
  as_productId :: string
  as_productName :: string
  as_price :: rat
  as_imageUrl :: "string option"
  as_category :: string
  as_storeId :: string
  as_storeName :: string

record CampaignGiftOption =
  op_id :: string
  op_campaignId :: string
  op_productId :: string
  op_approvalSnapshot :: "ApprovalSnapshot option"
  op_snapshotAt :: "instant option"

record CampaignRecipient =
  cr_id :: string
  cr_campaignId :: string
  cr_contactId :: string

record DispatchJob =
  dj_id :: string
  dj_campaignId :: string
  dj_contactId :: string
  dj_idempotencyKey :: string
  dj_status :: string
  dj_attempts :: nat
  dj_lastError :: "string option"
  dj_claimRef :: "string option"
  dj_processedAt :: "instant option"
  dj_createdAt :: instant

record Claim =
  cl_id :: string
  cl_campaignId :: string
  cl_contactId :: string
  cl_jobId :: "string option"
  cl_tokenHash :: string
  cl_giftReference :: string
  cl_status :: string
  cl_recipientName :: utext
  cl_channel :: OtpType
  cl_channelValue :: utext
  cl_orgDisplayName :: string
  cl_campaignMessage :: "string option"
  cl_giftSnapshot :: ApprovalSnapshot
  cl_sessionTokenHash :: "string option"
  cl_sessionExpiresAt :: "instant option"
  cl_otpVerifiedAt :: "instant option"
  cl_claimedAt :: "instant option"
  cl_declinedAt :: "instant option"
  cl_expiresAt :: instant

record ClaimAddress =
  ad_claimId :: string
  ad_fullName :: "utext option"
  ad_phone :: string
  ad_ccountry :: utext
  ad_cregion :: "utext option"
  ad_ccity :: utext
  ad_cdistrict :: "utext option"
  ad_line1 :: utext
  ad_notes :: "utext option"

record CorpProduct =
  kp_id :: string
  kp_storeId :: string
  kp_name :: string
  kp_price :: rat
  kp_imageUrl :: "string option"
  kp_category :: string
  kp_isFastDelivery :: bool
  kp_isAvailable :: bool
  kp_stockStatus :: string

record CorpStore =
  ks_id :: string
  ks_name :: string
  ks_status :: string
  ks_city :: utext
  ks_deliveryZones :: uvalue
  ks_legalEntityName :: "string option"
  ks_commercialRegistrationNumber :: "string option"
  ks_vatNumber :: "string option"
  ks_vatRegistered :: bool
  ks_pricesIncludeVat :: bool
  ks_taxCountry :: string

text \<open>What the dispatch provider was handed: the claim link of a job.\<close>

record Delivery =
  dv_jobId :: string
  dv_channel :: OtpType
  dv_channelValue :: utext
  dv_claimUrl :: string
  dv_giftReference :: string

record corp = db +
  co_orgs :: "Organization list"
  co_contacts :: "CorporateContact list"
  co_campaigns :: "Campaign list"
  co_options :: "CampaignGiftOption list"
  co_recipients :: "CampaignRecipient list"
  co_jobs :: "DispatchJob list"
  co_claims :: "Claim list"
  co_addresses :: "ClaimAddress list"
  co_products :: "CorpProduct list"
  co_stores :: "CorpStore list"
  co_delivered :: "Delivery list"
  co_otp :: otp_state

text \<open>
  The surroundings of a call: \<open>ce_var\<close> is the process environment, \<open>ce_number\<close> what
  \<open>Number(...)\<close> makes of a variable when that is finite, \<open>ce_token\<close> the random tokens drawn,
  \<open>ce_lower\<close> and \<open>ce_fold\<close> the language's lower-casing and Unicode normalisation, \<open>ce_otp\<close> the
  surroundings of the code service, \<open>ce_deliver\<close> the provider's answer for a job: fine, or an
  error that is permanent or not.
\<close>

record cenv = env +
  ce_var :: "string \<Rightarrow> string option"
  ce_number :: "string option \<Rightarrow> rat option"
  ce_token :: "nat \<Rightarrow> string"
  ce_lower :: "utext \<Rightarrow> utext"
  ce_fold :: "utext \<Rightarrow> utext"
  ce_otp :: otp_env
  ce_deliver :: "string \<Rightarrow> (string \<times> bool) option"

definition corp_audit :: "AuditRecordInput \<Rightarrow> (corp, unit) prog" where
  "corp_audit i = on_table db_audit db_audit_update (record_best_effort i)"

definition corp_ledger :: "RecordLedgerInput \<Rightarrow> (corp, LedgerEntry) prog" where
  "corp_ledger i = on_table db_ledger db_ledger_update (record_entry i)"

text \<open>An audit row of an organisation.\<close>

definition org_audit :: "string option \<Rightarrow> string \<Rightarrow> string \<Rightarrow> string option \<Rightarrow> (string \<times> json) list \<Rightarrow> (corp, unit) prog" where
  "org_audit actor actorType action orgId metadata =
     corp_audit \<lparr> ai_actorUserId = actor, ai_actorType = actorType, ai_action = action, ai_targetType = ''organization'',
       ai_targetId = orgId, ai_metadata = Some (JObj metadata) \<rparr>"

section \<open>The roster service\<close>

definition DAY_MS :: instant where "DAY_MS = 24 * 60 * 60 * 1000"
definition DEFAULT_RETENTION_DAYS :: int where "DEFAULT_RETENTION_DAYS = 365"
definition DEFAULT_ARCHIVE_GRACE_DAYS :: int where "DEFAULT_ARCHIVE_GRACE_DAYS = 30"
definition LIST_PAGE_SIZE :: nat where "LIST_PAGE_SIZE = 200"

definition envDays :: "cenv \<Rightarrow> string \<Rightarrow> int \<Rightarrow> int" where
  "envDays e v fallback = (case ce_number e (ce_var e v) of None \<Rightarrow> fallback | Some n \<Rightarrow> if 1 \<le> n then \<lfloor>n\<rfloor> else fallback)"

text \<open>Why a file is refused: one stable code per reason.\<close>

fun rejection_code :: "RosterRejection \<Rightarrow> string" where
  "rejection_code (AddressColumnsForbidden _) = ''roster_address_columns_forbidden''"
| "rejection_code HeadersUnusable = ''roster_headers_unusable''"
| "rejection_code FileTooLarge = ''roster_file_too_large''"
| "rejection_code RosterEmpty = ''roster_empty''"
| "rejection_code TooManyRows = ''roster_too_many_rows''"

definition contact_keys :: "CorporateContact \<Rightarrow> channel_key list" where
  "contact_keys c = channel_keys (cc_email c) (case cc_phone c of Some p \<Rightarrow> if p = [] then None else Some p | None \<Rightarrow> None)"

definition taken_keys :: "string \<Rightarrow> corp \<Rightarrow> channel_key list" where
  "taken_keys orgId s =
     concat (map contact_keys (filter (\<lambda>c. cc_orgId c = orgId \<and> cc_status c = ''active'') (co_contacts s)))"

definition fresh_row :: "channel_key list \<Rightarrow> RosterRow \<Rightarrow> bool" where
  "fresh_row taken row \<longleftrightarrow> list_all (\<lambda>k. k \<notin> set taken) (channel_keys (rr_email row) (rr_phone row))"

definition contact_of :: "cenv \<Rightarrow> string \<Rightarrow> string \<Rightarrow> instant \<Rightarrow> nat \<times> RosterRow \<Rightarrow> CorporateContact" where
  "contact_of e orgId batchId purgeAfter numbered =
     (let (n, row) = numbered in
      \<lparr> cc_id = en_uuid e (Suc n), cc_orgId = orgId, cc_fullName = rr_fullName row, cc_email = rr_email row, cc_phone = rr_phone row,
        cc_department = rr_department row, cc_employeeRef = rr_employeeRef row, cc_status = ''active'',
        cc_importBatchId = Some batchId, cc_purgeAfter = purgeAfter, cc_archivedAt = None \<rparr>)"

record ImportResult =
  ir_batchId :: string
  ir_imported :: nat
  ir_skipped :: "SkippedRow list"
  ir_ignoredColumns :: "utext list"

text \<open>A text that does not parse would be a parser that does not return; there is none.\<close>

definition importRoster :: "cenv \<Rightarrow> string \<Rightarrow> string \<Rightarrow> utext \<Rightarrow> (corp, ImportResult) prog" where
  "importRoster e actorUserId orgId csv =
     seq (require (u_trim csv \<noteq> []) (BadRequest ''roster_csv_required'')) (\<lambda>_.
     seq (reads (\<lambda>s. find (\<lambda>g. og_id g = orgId) (co_orgs s))) (\<lambda>read.
     seq (found read (NotFound ''org_not_found'')) (\<lambda>org.
     seq (require (og_status org = ''approved'') (BadRequest ''org_not_approved'')) (\<lambda>_.
     seq (found (parseRoster (ce_lower e) csv) (JsError ''does not return'')) (\<lambda>parsed.
     case parsed of
       Inl rejection \<Rightarrow> raise (BadRequest (rejection_code rejection))
     | Inr p \<Rightarrow>
         seq (reads (taken_keys orgId)) (\<lambda>taken.
         let toInsert = filter (fresh_row taken) (pr_rows p);
             skipped = pr_skipped p @ map (\<lambda>r. (rr_line r, Duplicate_existing)) (filter (\<lambda>r. \<not> fresh_row taken r) (pr_rows p));
             batchId = en_uuid e 0;
             purgeAfter = clk e 0 + envDays e ''QIFT_ROSTER_RETENTION_DAYS'' DEFAULT_RETENTION_DAYS * DAY_MS in
         seq (if toInsert \<noteq> [] then writes (co_contacts_update (\<lambda>t. t @ map (contact_of e orgId batchId purgeAfter) (enumerate 0 toInsert)))
              else ret ()) (\<lambda>_.
         seq (org_audit (Some actorUserId) ''user'' ''org.roster.import'' (Some orgId)
                [(''batchId'', JStr batchId), (''imported'', JNum (of_nat (length toInsert))), (''skipped'', JNum (of_nat (length skipped))),
                 (''ignoredColumns'', JArr (map (\<lambda>t. JStr (units_str t)) (pr_ignoredColumns p)))]) (\<lambda>_.
         ret \<lparr> ir_batchId = batchId, ir_imported = length toInsert, ir_skipped = sort_key fst skipped,
               ir_ignoredColumns = pr_ignoredColumns p \<rparr>))))))))"

text \<open>A page in id order, after the cursor's row.\<close>

definition listContacts :: "string \<Rightarrow> string option \<Rightarrow> string option \<Rightarrow> corp \<Rightarrow> CorporateContact list \<times> string option" where
  "listContacts orgId status cursor s =
     (let st = (if status = Some ''archived'' then ''archived'' else ''active'');
          rows = order_by cc_id (filter (\<lambda>c. cc_orgId c = orgId \<and> cc_status c = st) (co_contacts s));
          items = take (LIST_PAGE_SIZE + 1)
            (if truthy cursor then drop 1 (dropWhile (\<lambda>c. Some (cc_id c) \<noteq> cursor) rows) else rows);
          hasMore = LIST_PAGE_SIZE < length items;
          page = (if hasMore then take LIST_PAGE_SIZE items else items)
      in (page, if hasMore then Some (cc_id (last page)) else None))"

definition archiveContact :: "cenv \<Rightarrow> string \<Rightarrow> string \<Rightarrow> string \<Rightarrow> (corp, unit) prog" where
  "archiveContact e actorUserId orgId contactId =
     seq (updateMany co_contacts co_contacts_update
            (\<lambda>c. cc_id c = contactId \<and> cc_orgId c = orgId \<and> cc_status c = ''active'')
            (\<lambda>c. c\<lparr> cc_status := ''archived'', cc_archivedAt := Some (clk e 0),
                    cc_purgeAfter := clk e 1 + envDays e ''QIFT_ROSTER_ARCHIVE_GRACE_DAYS'' DEFAULT_ARCHIVE_GRACE_DAYS * DAY_MS \<rparr>)) (\<lambda>count.
     seq (require (count \<noteq> 0) (NotFound ''contact_not_found'')) (\<lambda>_.
     org_audit (Some actorUserId) ''user'' ''org.roster.archive'' (Some orgId) [(''contactId'', JStr contactId)]))"

section \<open>The purge\<close>

definition PURGE_PROTECTING_CAMPAIGN_STATES :: "string list" where
  "PURGE_PROTECTING_CAMPAIGN_STATES = [''pending_approval'', ''approved'', ''dispatching'']"

text \<open>A contact of a campaign that is submitted, approved or under way is kept.\<close>

definition protected_contact :: "corp \<Rightarrow> string \<Rightarrow> bool" where
  "protected_contact s contactId \<longleftrightarrow>
     (\<exists>r \<in> set (co_recipients s). cr_contactId r = contactId
        \<and> (\<exists>c \<in> set (co_campaigns s). ca_id c = cr_campaignId r \<and> ca_status c \<in> set PURGE_PROTECTING_CAMPAIGN_STATES))"

definition due_for_purge :: "cenv \<Rightarrow> corp \<Rightarrow> CorporateContact \<Rightarrow> bool" where
  "due_for_purge e s c \<longleftrightarrow> cc_purgeAfter c < clk e 0 \<and> \<not> protected_contact s (cc_id c)"

text \<open>Deleting a contact deletes its memberships, as the foreign key cascades.\<close>

definition purge_once :: "cenv \<Rightarrow> (corp, nat) prog" where
  "purge_once e =
     seq (reads (\<lambda>s. map cc_id (filter (due_for_purge e s) (co_contacts s)))) (\<lambda>ids.
     seq (writes (\<lambda>s. co_recipients_update (filter (\<lambda>r. cr_contactId r \<notin> set ids))
            (co_contacts_update (filter (\<lambda>c. cc_id c \<notin> set ids)) s))) (\<lambda>_.
     seq (if ids \<noteq> [] then corp_audit \<lparr> ai_actorUserId = None, ai_actorType = ''system'', ai_action = ''system.roster.purge'',
            ai_targetType = ''system'', ai_targetId = None, ai_metadata = Some (JObj [(''deleted'', JNum (of_nat (length ids)))]) \<rparr>
          else ret ()) (\<lambda>_.
     ret (length ids))))"

end
