(* ===== verification/Invoicing.thy ===== *)
theory Invoicing
  imports Corp_Data
begin

text \<open>
  The two invoices of a campaign: Qift's service invoice with its gap-free number
  (\<open>corporate/invoice.service.ts\<close>, \<open>corporate/invoice-amounts.ts\<close>), the merchant's goods invoice
  and its legal reference (\<open>corporate/merchant-invoice.service.ts\<close>), the frozen party snapshots
  (\<open>corporate/party-snapshot.ts\<close>) and the summary of both (\<open>corporate/billing-summary.service.ts\<close>).
\<close>

section \<open>Amounts and parties\<close>

record InvoiceAmounts =
  im_unitAmount :: rat
  im_recipientCount :: int
  im_subtotalAmount :: rat
  im_platformFeeAmount :: rat
  im_totalAmount :: rat

definition computeInvoiceAmounts :: "rat \<Rightarrow> int \<Rightarrow> InvoiceAmounts res" where
  "computeInvoiceAmounts unitAmount recipientCount =
     bindr (mulMoney unitAmount (of_int recipientCount) SAR) (\<lambda>subtotalAmount.
     bindr (mulMoney (of_int (serviceFeeFor unitAmount)) (of_int recipientCount) SAR) (\<lambda>platformFeeAmount.
     Inr \<lparr> im_unitAmount = unitAmount, im_recipientCount = recipientCount, im_subtotalAmount = subtotalAmount,
           im_platformFeeAmount = platformFeeAmount, im_totalAmount = addMoney [subtotalAmount, platformFeeAmount] SAR \<rparr>))"

definition buildOrgBuyerSnapshot :: "string \<Rightarrow> Organization option \<Rightarrow> json" where
  "buildOrgBuyerSnapshot orgId org = JObj
     [(''partyType'', JStr ''organization''), (''orgId'', JStr orgId), (''legalName'', jopt (map_option og_legalName org)),
      (''crNumber'', jopt (Option.bind org og_crNumber)), (''vatNumber'', jopt (Option.bind org og_vatNumber)), (''country'', JStr ''SA'')]"

definition qift_var :: "cenv \<Rightarrow> string \<Rightarrow> string option" where
  "qift_var e v = trimmed_or_null (ce_var e v)"

definition buildQiftSellerSnapshot :: "cenv \<Rightarrow> json" where
  "buildQiftSellerSnapshot e = JObj
     [(''partyType'', JStr ''qift''), (''legalName'', jopt (qift_var e ''QIFT_LEGAL_NAME'')), (''crNumber'', jopt (qift_var e ''QIFT_CR_NUMBER'')),
      (''vatNumber'', jopt (qift_var e ''QIFT_VAT_NUMBER'')),
      (''country'', JStr (case qift_var e ''QIFT_TAX_COUNTRY'' of None \<Rightarrow> ''SA'' | Some c \<Rightarrow> c)),
      (''configured'', JBool (qift_var e ''QIFT_LEGAL_NAME'' \<noteq> None))]"

definition buildMerchantSellerSnapshot :: "string \<Rightarrow> CorpStore option \<Rightarrow> json" where
  "buildMerchantSellerSnapshot storeId store = JObj
     [(''partyType'', JStr ''merchant''), (''storeId'', JStr storeId), (''legalName'', jopt (Option.bind store ks_legalEntityName)),
      (''displayName'', jopt (map_option ks_name store)), (''crNumber'', jopt (Option.bind store ks_commercialRegistrationNumber)),
      (''vatNumber'', jopt (Option.bind store ks_vatNumber)),
      (''country'', JStr (case store of None \<Rightarrow> ''SA'' | Some k \<Rightarrow> ks_taxCountry k))]"

section \<open>The service invoice\<close>

text \<open>The frozen tax rule, as it is stored on the row.\<close>

fun treatment_name :: "TaxTreatment \<Rightarrow> string" where
  "treatment_name Full_value_standard = ''full_value_standard''"
| "treatment_name Agent_fee_only = ''agent_fee_only''"

definition tax_snapshot_json :: "TaxSnapshot \<Rightarrow> json" where
  "tax_snapshot_json t = JObj
     [(''ruleVersion'', JStr (ts_ruleVersion t)), (''vatRate'', JNum (ts_vatRate t)), (''taxTreatment'', JStr (treatment_name (ts_taxTreatment t))),
      (''pricesIncludeVat'', JBool (ts_pricesIncludeVat t)), (''taxableBase'', JNum (ts_taxableBase t)), (''vatAmount'', JNum (ts_vatAmount t)),
      (''facilitatedValue'', JNum (ts_facilitatedValue t)), (''notes'', JStr (ts_notes t))]"

text \<open>The upsert of a series: its first value is 1.\<close>

definition take_number :: "string \<Rightarrow> (corp, int) prog" where
  "take_number key s =
     (case find (\<lambda>n. ns_seriesKey n = key) (db_sequences s) of
        None \<Rightarrow> (Inr 1, db_sequences_update (\<lambda>t. t @ [\<lparr> ns_seriesKey = key, ns_lastValue = 1 \<rparr>]) s)
      | Some n \<Rightarrow> (Inr (ns_lastValue n + 1),
          db_sequences_update (update_where (\<lambda>n. ns_seriesKey n = key) (\<lambda>n. n\<lparr> ns_lastValue := ns_lastValue n + 1 \<rparr>)) s))"

definition corporate_clash :: "CorporateInvoice \<Rightarrow> CorporateInvoice \<Rightarrow> bool" where
  "corporate_clash r r' \<longleftrightarrow> ci_id r' = ci_id r \<or> ci_invoiceNumber r' = ci_invoiceNumber r \<or> ci_campaignId r' = ci_campaignId r"

text \<open>
  The row: of its columns, those a modelled program reads back. The amounts must fit their
  columns, the unit and subtotal ones included.
\<close>

record InvoiceDraft =
  dr_orgId :: string
  dr_campaignId :: string
  dr_amounts :: InvoiceAmounts
  dr_tax :: TaxBreakdown
  dr_buyer :: json
  dr_seller :: json
  dr_now :: instant

definition draft_row :: "cenv \<Rightarrow> InvoiceDraft \<Rightarrow> string \<Rightarrow> CorporateInvoice res" where
  "draft_row e d invoiceNumber =
     bindr (to_dec (im_unitAmount (dr_amounts d))) (\<lambda>_.
     bindr (to_dec (im_subtotalAmount (dr_amounts d))) (\<lambda>_.
     bindr (to_dec (im_platformFeeAmount (dr_amounts d))) (\<lambda>fee.
     bindr (to_dec (tb_vatAmount (dr_tax d))) (\<lambda>vat.
     bindr (to_dec (tb_totalAmount (dr_tax d))) (\<lambda>total.
     Inr \<lparr> ci_id = en_uuid e 0, ci_invoiceNumber = invoiceNumber, ci_orgId = dr_orgId d, ci_campaignId = dr_campaignId d,
           ci_status = ''issued'', ci_balanceStatus = ''open'', ci_currency = ''SAR'', ci_platformFeeAmount = fee, ci_vatAmount = Some vat,
           ci_totalAmount = total, ci_recipientCount = im_recipientCount (dr_amounts d),
           ci_taxSnapshot = Some (tax_snapshot_json (tb_taxSnapshot (dr_tax d))),
           ci_buyerSnapshot = Some (dr_buyer d), ci_sellerSnapshot = Some (dr_seller d),
           ci_issuedAt = Some (dr_now d), ci_dueDate = None, ci_paidAt = None \<rparr>)))))"

definition issue_invoice :: "cenv \<Rightarrow> InvoiceDraft \<Rightarrow> (corp, CorporateInvoice) prog" where
  "issue_invoice e d =
     transaction (
       let seriesYear = utc_year (dr_now d) in
       seq (take_number (''QC-'' @ int_str seriesYear)) (\<lambda>v.
       seq (lift (formatSequentialReference QC seriesYear v)) (\<lambda>invoiceNumber.
       seq (lift (draft_row e d invoiceNumber)) (\<lambda>row.
       create db_corporate db_corporate_update corporate_clash row))))"

text \<open>The posting of an issued invoice; a failure to post leaves the invoice.\<close>

definition invoice_posting :: "FinancialEventType \<Rightarrow> string \<Rightarrow> string option \<Rightarrow> rat \<Rightarrow> string \<Rightarrow> string \<Rightarrow> RecordLedgerInput" where
  "invoice_posting event reason actor amount currency anchor =
     (ledger_base event reason [] (Fin amount) currency ''credit'')
       \<lparr> li_actorType := (if truthy actor then ''user'' else ''system''), li_actorId := actor, li_counterpartyType := Some ''company'',
         li_idempotencyKey := Some (ledgerIdempotencyKey event anchor) \<rparr>"

definition receivable_posting :: "string option \<Rightarrow> CorporateInvoice \<Rightarrow> RecordLedgerInput" where
  "receivable_posting actor i =
     (invoice_posting CORPORATE_INVOICE_ISSUED ''CORPORATE_RECEIVABLE'' actor (moneyToNumber (MoneyDecimal (ci_totalAmount i))) (ci_currency i) (ci_id i))
       \<lparr> li_campaignId := Some (ci_campaignId i), li_orgId := Some (ci_orgId i),
         li_metadata := Some (JObj [(''invoiceId'', JStr (ci_id i)), (''recipientCount'', JNum (of_int (ci_recipientCount i))),
                                    (''feePolicyVersion'', JStr FEE_POLICY_VERSION)]) \<rparr>"

definition recordReceivableLedger :: "CorporateInvoice \<Rightarrow> string option \<Rightarrow> (corp, unit) prog" where
  "recordReceivableLedger invoice actor = swallow (corp_ledger (receivable_posting actor invoice))"

text \<open>The campaign of the organisation, its frozen snapshot and its head count.\<close>

definition org_campaign :: "string \<Rightarrow> string \<Rightarrow> (corp, Campaign) prog" where
  "org_campaign orgId campaignId =
     seq (reads (\<lambda>s. find (\<lambda>c. ca_id c = campaignId \<and> ca_orgId c = orgId) (co_campaigns s))) (\<lambda>read.
     found read (NotFound ''campaign_not_found''))"

definition first_option :: "string \<Rightarrow> corp \<Rightarrow> CampaignGiftOption option" where
  "first_option campaignId s = find (\<lambda>c. op_campaignId c = campaignId) (co_options s)"

definition frozen_snapshot :: "string \<Rightarrow> (corp, ApprovalSnapshot) prog" where
  "frozen_snapshot campaignId =
     seq (reads (\<lambda>s. Option.bind (first_option campaignId s) op_approvalSnapshot)) (\<lambda>snapshot.
     found snapshot (BadRequest ''campaign_no_snapshot''))"

definition recipient_count :: "string \<Rightarrow> corp \<Rightarrow> nat" where
  "recipient_count campaignId s = count_where (\<lambda>r. cr_campaignId r = campaignId) (co_recipients s)"

definition approved_campaign :: "string \<Rightarrow> string \<Rightarrow> (corp, Campaign) prog" where
  "approved_campaign orgId campaignId =
     seq (org_campaign orgId campaignId) (\<lambda>campaign.
     seq (require (ca_status campaign = ''approved'') (BadRequest ''campaign_not_approved'')) (\<lambda>_.
     ret campaign))"

definition counted_recipients :: "string \<Rightarrow> (corp, int) prog" where
  "counted_recipients campaignId =
     seq (reads (recipient_count campaignId)) (\<lambda>n.
     seq (require (n \<noteq> 0) (BadRequest ''campaign_recipients_required'')) (\<lambda>_.
     ret (int n)))"

definition service_tax :: "InvoiceAmounts \<Rightarrow> TaxBreakdown res" where
  "service_tax a = computeTax \<lparr> ti_subtotalAmount = im_subtotalAmount a, ti_platformFeeAmount = im_platformFeeAmount a,
     ti_treatment = None, ti_pricesIncludeVat = None, ti_vatRate = None \<rparr>"

definition draft_invoice :: "cenv \<Rightarrow> string \<Rightarrow> string \<Rightarrow> (corp, InvoiceDraft) prog" where
  "draft_invoice e orgId campaignId =
     seq (approved_campaign orgId campaignId) (\<lambda>_.
     seq (frozen_snapshot campaignId) (\<lambda>snapshot.
     seq (counted_recipients campaignId) (\<lambda>n.
     seq (lift (computeInvoiceAmounts (as_price snapshot) n)) (\<lambda>amounts.
     seq (lift (service_tax amounts)) (\<lambda>tax.
     seq (reads (\<lambda>s. find (\<lambda>g. og_id g = orgId) (co_orgs s))) (\<lambda>org.
     ret \<lparr> dr_orgId = orgId, dr_campaignId = campaignId, dr_amounts = amounts, dr_tax = tax,
           dr_buyer = buildOrgBuyerSnapshot orgId org, dr_seller = buildQiftSellerSnapshot e, dr_now = clk e 0 \<rparr>))))))"

definition corporate_of :: "string \<Rightarrow> corp \<Rightarrow> CorporateInvoice option" where
  "corporate_of campaignId s = find (\<lambda>i. ci_campaignId i = campaignId) (db_corporate s)"

definition actor_type :: "string option \<Rightarrow> string" where
  "actor_type actor = (if truthy actor then ''user'' else ''system'')"

definition ensureInvoiceForCampaign :: "cenv \<Rightarrow> string \<Rightarrow> string \<Rightarrow> string option \<Rightarrow> (corp, CorporateInvoice) prog" where
  "ensureInvoiceForCampaign e orgId campaignId actor =
     seq (reads (corporate_of campaignId)) (\<lambda>existing.
     case existing of
       Some i \<Rightarrow> ret i
     | None \<Rightarrow>
         seq (draft_invoice e orgId campaignId) (\<lambda>d.
         attempt (
           seq (issue_invoice e d) (\<lambda>invoice.
           seq (recordReceivableLedger invoice actor) (\<lambda>_.
           seq (org_audit actor (actor_type actor) ''org.invoice.issued'' (Some orgId)
                  [(''campaignId'', JStr campaignId), (''invoiceId'', JStr (ci_id invoice)), (''invoiceNumber'', JStr (ci_invoiceNumber invoice)),
                   (''totalAmount'', JNum (moneyToNumber (MoneyDecimal (ci_totalAmount invoice))))]) (\<lambda>_.
           ret invoice))))
         (\<lambda>ex. if is_P2002 ex
               then seq (reads (corporate_of campaignId)) (\<lambda>raced. case raced of Some i \<Rightarrow> ret i | None \<Rightarrow> raise ex)
               else raise ex)))"

definition getInvoiceForCampaign :: "string \<Rightarrow> string \<Rightarrow> corp \<Rightarrow> CorporateInvoice option" where
  "getInvoiceForCampaign orgId campaignId s =
     find (\<lambda>i. ci_campaignId i = campaignId \<and> ci_orgId i = orgId) (db_corporate s)"

section \<open>The merchant's goods invoice\<close>

definition MERCHANT_INVOICE_SOURCES :: "string list" where
  "MERCHANT_INVOICE_SOURCES = [''MERCHANT'', ''ACCOUNTING_CONNECTOR'', ''QIFT_ON_BEHALF'']"

definition merchant_of :: "string \<Rightarrow> corp \<Rightarrow> MerchantInvoice option" where
  "merchant_of campaignId s = find (\<lambda>i. mi_campaignId i = campaignId) (db_merchant s)"

definition merchant_clash :: "MerchantInvoice \<Rightarrow> MerchantInvoice \<Rightarrow> bool" where
  "merchant_clash r r' \<longleftrightarrow> mi_id r' = mi_id r \<or> (mi_campaignId r' = mi_campaignId r \<and> mi_storeId r' = mi_storeId r)"

text \<open>The store: the snapshot's, or for an old snapshot without one the product's.\<close>

definition snapshot_store :: "string \<Rightarrow> ApprovalSnapshot \<Rightarrow> corp \<Rightarrow> string option" where
  "snapshot_store campaignId snapshot s =
     (if as_storeId snapshot \<noteq> [] then Some (as_storeId snapshot)
      else case first_option campaignId s of
          None \<Rightarrow> None
        | Some c \<Rightarrow> if op_productId c = [] then None
            else map_option kp_storeId (find (\<lambda>p. kp_id p = op_productId c) (co_products s)))"

definition goods_tax :: "CorpStore option \<Rightarrow> InvoiceAmounts \<Rightarrow> MerchantGoodsTaxBreakdown res" where
  "goods_tax store a = computeMerchantGoodsTax
     \<lparr> mi_goodsSubtotalAmount = im_subtotalAmount a,
       mi_vatRegistered = (case store of None \<Rightarrow> False | Some k \<Rightarrow> ks_vatRegistered k),
       mi_vatNumber = Option.bind store ks_vatNumber,
       mi_pricesIncludeVat = Some (case store of None \<Rightarrow> True | Some k \<Rightarrow> ks_pricesIncludeVat k), mi_vatRate = None \<rparr>"

definition merchant_row ::
  "cenv \<Rightarrow> string \<Rightarrow> string \<Rightarrow> string \<Rightarrow> ApprovalSnapshot \<Rightarrow> InvoiceAmounts \<Rightarrow> MerchantGoodsTaxBreakdown \<Rightarrow> MerchantInvoice res"
where
  "merchant_row e orgId campaignId storeId snapshot amounts tax =
     bindr (to_dec (im_unitAmount amounts)) (\<lambda>_.
     bindr (to_dec (im_subtotalAmount amounts)) (\<lambda>goods.
     bindr (to_dec (mb_vatAmount tax)) (\<lambda>vat.
     bindr (to_dec (mb_totalAmount tax)) (\<lambda>total.
     Inr \<lparr> mi_id = en_uuid e 1, mi_storeId = storeId, mi_orgId = orgId, mi_campaignId = campaignId, mi_status = ''issued'',
           mi_merchantInvoiceNumber = None, mi_externalId = None, mi_url = None, mi_invoiceNumberSource = ''MERCHANT'',
           mi_onBehalfAuthorizationRef = None, mi_storeName = Some (as_storeName snapshot), mi_currency = ''SAR'',
           mi_goodsSubtotal = goods, mi_vatAmount = vat, mi_totalAmount = total, mi_recipientCount = im_recipientCount amounts,
           mi_issuedAt = Some (clk e 0), mi_dueDate = None, mi_paidAt = None \<rparr>))))"

definition goods_invoiced_posting :: "string option \<Rightarrow> MerchantInvoice \<Rightarrow> RecordLedgerInput" where
  "goods_invoiced_posting actor i =
     (invoice_posting MERCHANT_INVOICE_ISSUED ''MERCHANT_GOODS_INVOICED'' actor (moneyToNumber (MoneyDecimal (mi_totalAmount i))) (mi_currency i) (mi_id i))
       \<lparr> li_campaignId := Some (mi_campaignId i), li_orgId := Some (mi_orgId i), li_storeId := Some (mi_storeId i),
         li_metadata := Some (JObj [(''invoiceId'', JStr (mi_id i)), (''recipientCount'', JNum (of_int (mi_recipientCount i))),
                                    (''passThrough'', JBool True)]) \<rparr>"

definition recordGoodsInvoicedLedger :: "MerchantInvoice \<Rightarrow> string option \<Rightarrow> (corp, unit) prog" where
  "recordGoodsInvoicedLedger invoice actor = swallow (corp_ledger (goods_invoiced_posting actor invoice))"

definition draft_goods :: "cenv \<Rightarrow> string \<Rightarrow> string \<Rightarrow> (corp, Campaign \<times> MerchantInvoice res) prog" where
  "draft_goods e orgId campaignId =
     seq (approved_campaign orgId campaignId) (\<lambda>campaign.
     seq (frozen_snapshot campaignId) (\<lambda>snapshot.
     seq (reads (snapshot_store campaignId snapshot)) (\<lambda>read.
     seq (require (truthy read) (BadRequest ''campaign_no_store'')) (\<lambda>_.
     seq (counted_recipients campaignId) (\<lambda>n.
     seq (reads (\<lambda>s. find (\<lambda>k. Some (ks_id k) = read) (co_stores s))) (\<lambda>store.
     seq (lift (computeInvoiceAmounts (as_price snapshot) n)) (\<lambda>amounts.
     seq (lift (goods_tax store amounts)) (\<lambda>tax.
     ret (campaign, merchant_row e orgId campaignId (the read) snapshot amounts tax)))))))))"

definition ensureMerchantInvoiceForCampaign :: "cenv \<Rightarrow> string \<Rightarrow> string \<Rightarrow> string option \<Rightarrow> (corp, MerchantInvoice) prog" where
  "ensureMerchantInvoiceForCampaign e orgId campaignId actor =
     seq (reads (merchant_of campaignId)) (\<lambda>existing.
     case existing of
       Some i \<Rightarrow> ret i
     | None \<Rightarrow>
         seq (draft_goods e orgId campaignId) (\<lambda>(campaign, row).
         attempt (
           seq (lift row) (\<lambda>row.
           seq (create db_merchant db_merchant_update merchant_clash row) (\<lambda>invoice.
           seq (recordGoodsInvoicedLedger invoice actor) (\<lambda>_.
           seq (org_audit actor (actor_type actor) ''org.merchant_invoice.issued'' (Some orgId)
                  [(''campaignId'', JStr campaignId), (''campaignReference'', JStr (ca_referenceNumber campaign)),
                   (''invoiceId'', JStr (mi_id invoice)), (''storeId'', JStr (mi_storeId invoice)),
                   (''totalAmount'', JNum (moneyToNumber (MoneyDecimal (mi_totalAmount invoice))))]) (\<lambda>_.
           ret invoice)))))
         (\<lambda>ex. if is_P2002 ex
               then seq (reads (merchant_of campaignId)) (\<lambda>raced. case raced of Some i \<Rightarrow> ret i | None \<Rightarrow> raise ex)
               else raise ex)))"

definition getMerchantInvoiceForCampaign :: "string \<Rightarrow> string \<Rightarrow> corp \<Rightarrow> MerchantInvoice option" where
  "getMerchantInvoiceForCampaign orgId campaignId s =
     find (\<lambda>i. mi_campaignId i = campaignId \<and> mi_orgId i = orgId) (db_merchant s)"

subsection \<open>The legal reference\<close>

record LegalReferenceInput =
  lr_merchantInvoiceNumber :: "string option"
  lr_merchantInvoiceExternalId :: "string option"
  lr_merchantInvoiceUrl :: "string option"
  lr_source :: "string option"
  lr_onBehalfAuthorizationRef :: "string option"

text \<open>What the handler decides from the row it read: the update it then makes by id alone.\<close>

definition plan_reference :: "MerchantInvoice \<Rightarrow> LegalReferenceInput \<Rightarrow> (MerchantInvoice \<Rightarrow> MerchantInvoice) res" where
  "plan_reference invoice inp =
     (let source = (case opt_trim (lr_source inp) of Some v \<Rightarrow> v | None \<Rightarrow> mi_invoiceNumberSource invoice);
          authRef = or_other (trimmed_or_null (lr_onBehalfAuthorizationRef inp))
            (if truthy (mi_onBehalfAuthorizationRef invoice) then mi_onBehalfAuthorizationRef invoice else None);
          number = trimmed_or_null (lr_merchantInvoiceNumber inp) in
      bindr (check (source \<in> set MERCHANT_INVOICE_SOURCES) (BadRequest ''invalid_invoice_number_source'')) (\<lambda>_.
      bindr (check (source \<noteq> ''QIFT_ON_BEHALF'' \<or> authRef \<noteq> None) (BadRequest ''on_behalf_authorization_required'')) (\<lambda>_.
      bindr (check (truthy (mi_merchantInvoiceNumber invoice) \<and> number \<noteq> None \<longrightarrow> number = mi_merchantInvoiceNumber invoice)
               (BadRequest ''merchant_invoice_number_immutable'')) (\<lambda>_.
      bindr (check (truthy (mi_merchantInvoiceNumber invoice) \<longrightarrow> source = mi_invoiceNumberSource invoice)
               (BadRequest ''invoice_number_source_frozen'')) (\<lambda>_.
      Inr (\<lambda>i. i\<lparr> mi_merchantInvoiceNumber := (case mi_merchantInvoiceNumber invoice of Some v \<Rightarrow> Some v | None \<Rightarrow> number),
                  mi_externalId := (case opt_trim (lr_merchantInvoiceExternalId inp) of Some v \<Rightarrow> Some v | None \<Rightarrow> mi_externalId invoice),
                  mi_url := (case opt_trim (lr_merchantInvoiceUrl inp) of Some v \<Rightarrow> Some v | None \<Rightarrow> mi_url invoice),
                  mi_invoiceNumberSource := source, mi_onBehalfAuthorizationRef := authRef \<rparr>))))))"

definition attach_write :: "string \<Rightarrow> (MerchantInvoice \<Rightarrow> MerchantInvoice) \<Rightarrow> (corp, MerchantInvoice) prog" where
  "attach_write i f = update_row db_merchant db_merchant_update (\<lambda>r. mi_id r = i) f"

definition attachLegalReference :: "string \<Rightarrow> string \<Rightarrow> LegalReferenceInput \<Rightarrow> (corp, MerchantInvoice) prog" where
  "attachLegalReference actorUserId merchantInvoiceId inp =
     seq (reads (\<lambda>s. find (\<lambda>i. mi_id i = merchantInvoiceId) (db_merchant s))) (\<lambda>read.
     seq (found read (NotFound ''merchant_invoice_not_found'')) (\<lambda>invoice.
     seq (lift (plan_reference invoice inp)) (\<lambda>f.
     seq (attach_write merchantInvoiceId f) (\<lambda>updated.
     seq (org_audit (Some actorUserId) ''user'' ''org.merchant_invoice.legal_reference_attached'' (Some (mi_orgId invoice))
            [(''merchantInvoiceId'', JStr merchantInvoiceId), (''campaignId'', JStr (mi_campaignId invoice)), (''storeId'', JStr (mi_storeId invoice)),
             (''source'', JStr (mi_invoiceNumberSource (f invoice))), (''merchantInvoiceNumber'', jopt (mi_merchantInvoiceNumber updated))]) (\<lambda>_.
     ret updated)))))"

section \<open>The billing summary\<close>

record LegSummary =
  ls_invoiceId :: string
  ls_invoiceNumber :: "string option"
  ls_status :: string
  ls_issuedAt :: "instant option"
  ls_baseAmount :: rat
  ls_vatAmount :: rat
  ls_totalAmount :: rat

definition service_leg :: "CorporateInvoice \<Rightarrow> LegSummary" where
  "service_leg i =
     \<lparr> ls_invoiceId = ci_id i, ls_invoiceNumber = Some (ci_invoiceNumber i), ls_status = ci_status i, ls_issuedAt = ci_issuedAt i,
       ls_baseAmount = moneyToNumber (MoneyDecimal (ci_platformFeeAmount i)),
       ls_vatAmount = moneyToNumber (case ci_vatAmount i of None \<Rightarrow> MoneyNull | Some v \<Rightarrow> MoneyDecimal v),
       ls_totalAmount = moneyToNumber (MoneyDecimal (ci_totalAmount i)) \<rparr>"

definition goods_leg :: "MerchantInvoice \<Rightarrow> LegSummary" where
  "goods_leg i =
     \<lparr> ls_invoiceId = mi_id i, ls_invoiceNumber = mi_merchantInvoiceNumber i, ls_status = mi_status i, ls_issuedAt = mi_issuedAt i,
       ls_baseAmount = moneyToNumber (MoneyDecimal (mi_goodsSubtotal i)), ls_vatAmount = moneyToNumber (MoneyDecimal (mi_vatAmount i)),
       ls_totalAmount = moneyToNumber (MoneyDecimal (mi_totalAmount i)) \<rparr>"

record CampaignBillingSummary =
  bs_campaignId :: string
  bs_campaignReference :: string
  bs_orgId :: string
  bs_currency :: string
  bs_merchantInvoice :: "LegSummary option"
  bs_qiftInvoice :: "LegSummary option"
  bs_grandTotalAmount :: "rat option"
  bs_complete :: bool
  bs_missing :: "string list"

definition getCampaignBillingSummary :: "string \<Rightarrow> string \<Rightarrow> (corp, CampaignBillingSummary) prog" where
  "getCampaignBillingSummary orgId campaignId =
     seq (org_campaign orgId campaignId) (\<lambda>campaign.
     reads (\<lambda>s.
       let qift = getInvoiceForCampaign orgId campaignId s; merchant = getMerchantInvoiceForCampaign orgId campaignId s;
           missing = (if merchant = None then [''merchant_invoice''] else []) @ (if qift = None then [''qift_service_invoice''] else []) in
       \<lparr> bs_campaignId = campaignId, bs_campaignReference = ca_referenceNumber campaign, bs_orgId = orgId,
         bs_currency = (case qift of Some i \<Rightarrow> ci_currency i | None \<Rightarrow> (case merchant of Some i \<Rightarrow> mi_currency i | None \<Rightarrow> ''SAR'')),
         bs_merchantInvoice = map_option goods_leg merchant, bs_qiftInvoice = map_option service_leg qift,
         bs_grandTotalAmount = (case (merchant, qift) of
             (Some m, Some q) \<Rightarrow> if mi_currency m = ci_currency q
               then Some (addMoney [ls_totalAmount (goods_leg m), ls_totalAmount (service_leg q)] SAR) else None
           | _ \<Rightarrow> None),
         bs_complete = (missing = []), bs_missing = missing \<rparr>))"

end
