(* ===== verification/Spec2Isabelle.thy ===== *)
theory Spec2Isabelle
  imports Fees Tax Approval References Concurrency Recovery Treasury_Workflow Treasury_Books Payout Collection Refund_Workflow Credit_Notes
    Gift_Flow Ledger_Repair Invoicing
begin

text \<open>
  The financial core of qift-platform (\<open>src/src\<close>): the money arithmetic and the fee and
  tax rules (\<open>fees/\<close>), the financial ledger (\<open>financial/\<close>), the audit log (\<open>audit/\<close>), the
  references (\<open>references/\<close>) and the settlement services (\<open>settlement/\<close>), which turn receipts
  for invoices into payouts to merchants; and the consumer lane, from an order through its
  payment to a gift that is confirmed, prepared, shipped and delivered (\<open>orders/\<close>, \<open>payments/\<close>,
  \<open>gifts/\<close>, \<open>store/\<close>, \<open>stores/delivery-zones.ts\<close>, \<open>blocks/\<close>); and the corporate lane, whose rosters
  and invoices feed the settlement services (\<open>corporate/\<close>), with the one-time codes it rests on (\<open>otp/\<close>).

  How the parts interact. \<open>settlement-receipts.service.ts\<close> records a bank receipt against an
  invoice and, once receipts cover it, creates a pending settlement item;
  \<open>settlement-eligibility.service.ts\<close> moves the item to eligible; \<open>settlement-engine.service.ts\<close>
  assembles the eligible items of a store into a batch with a frozen calculation, and closes,
  fails, retries or supersedes batches; \<open>settlement-execution.service.ts\<close> previews a batch,
  collects approvals, executes it against a bank movement and issues the statement.
  \<open>settlement-refunds.service.ts\<close> files, approves and executes refunds of goods and of service
  fees: a refund shrinks the item that was not paid out yet, or accrues a receivable that later
  batches of the store recover, and issues a credit note. \<open>treasury/\<close> reconciles the attested bank
  balance with the cash and the obligations the ledger shows. \<open>payments.service.ts\<close> locks an order,
  charges it, has \<open>gifts.service.ts\<close> create the gift, links the two and posts the order to the same
  ledger; \<open>ledger-reconciliation.service.ts\<close> posts what such postings missed. All of them write the ledger and the audit log, and all of them compute with \<open>fees/money.ts\<close>.

  Conventions (\<^theory_text>\<open>Prelude\<close>, \<^theory_text>\<open>Database\<close>). A handler is a function from the database to a
  result and the database it leaves, so effects committed before an exception stay. A database
  transaction undoes its body when the body raises. Exceptions are values of one datatype with
  the codes of the source. Prisma's calls are \<open>create\<close>, \<open>updateMany\<close> and \<open>update_row\<close> on lists
  of records; unique keys are the clash predicates. The clock, the generated ids, the random
  draws, the environment variables and SHA-256 are the fields of \<open>env\<close>.

  Numbers (\<^theory_text>\<open>Js_Number\<close>, \<^theory_text>\<open>Money\<close>). A JavaScript number is a rational rounded to binary64 by
  \<open>fl64\<close>, or a special value at the boundary where the code tests for it; \<open>DECIMAL(12,2)\<close>
  columns are rationals with two decimals, rounded and range-checked on write. Exactness of
  the minor-unit arithmetic is proved for at most 2 to the 50 minor units, above every column.

  Theories and what they show.
    \<^item> \<^theory_text>\<open>Money\<close>, \<^theory_text>\<open>Fees\<close>, \<^theory_text>\<open>Tax\<close>: \<open>fees/*.ts\<close>; conversions and totals are exact to the minor
      unit, the tax splits leak nothing.
    \<^item> \<^theory_text>\<open>Json\<close>, \<^theory_text>\<open>Statement\<close>, \<^theory_text>\<open>Binding\<close>: canonical JSON, the statement and credit-note documents,
      the preview and the execution gate; a frozen batch reproduces itself.
    \<^item> \<^theory_text>\<open>Keyed_Log\<close>, \<^theory_text>\<open>Ledger\<close>, \<^theory_text>\<open>Audit_Trail\<close>: a locale of logs with unique keys and its two
      interpretations; both logs are append-only and idempotent by key, and every row keeps its rules.
    \<^item> \<^theory_text>\<open>References\<close>: minting, formatting and normalising references; which issued ones are canonical.
    \<^item> \<^theory_text>\<open>States\<close>, \<^theory_text>\<open>Approval\<close>, \<^theory_text>\<open>Calculator\<close>: the state laws (a locale of lifecycles with three
      interpretations), the approval policy and the calculator.
    \<^item> \<^theory_text>\<open>Engine\<close>, \<^theory_text>\<open>Execution\<close>, \<^theory_text>\<open>Receipts\<close>, \<^theory_text>\<open>Eligibility\<close>: the handlers, operation by operation.
    \<^item> \<^theory_text>\<open>Assembly\<close>: an uncontended store can always be assembled and settled, and money is conserved.
    \<^item> \<^theory_text>\<open>Concurrency\<close>: every interleaving of the engine's and the refund transactions, as an inductive set of
      histories; no item is settled twice, remittances match batches, frozen facts never change.
    \<^item> \<^theory_text>\<open>Recovery\<close>: over the same histories, a receivable has recovered exactly what the closed
      batches' allocations took, never more than it claims.
    \<^item> \<^theory_text>\<open>Payout\<close>: the authorisation of a payout, the idempotence of its completion, and replay.
    \<^item> \<^theory_text>\<open>Refunds\<close>, \<^theory_text>\<open>Refund_Requests\<close>: recording a refund on both legs, credit notes and their
      replay, and the request workflow with its execution latch.
    \<^item> \<^theory_text>\<open>Frames\<close>, \<^theory_text>\<open>Refund_Laws\<close>, \<^theory_text>\<open>Credit_Notes\<close>: what programs leave alone; refunds stay within what
      was collected and charged, fee refunds touch no merchant money, credit notes replay.
    \<^item> \<^theory_text>\<open>Refund_Workflow\<close>: every interleaving of the request handlers; duties are separated,
      decisions are final, and every whole run of a handler is made of the modelled steps.
    \<^item> \<^theory_text>\<open>Collection\<close>: receipts never exceed the balance, and only receipts mark an invoice paid.

    \<^item> \<^theory_text>\<open>Treasury_Snapshot\<close>, \<^theory_text>\<open>Treasury\<close>: \<open>treasury/*.ts\<close>, the pure snapshot builder and the services
      around it: internal transfers, attestations, runs and their investigation; the figures and the
      status of a snapshot follow from the evidenced movements, each is enumerated once, and the
      order of rows does not matter.
    \<^item> \<^theory_text>\<open>Treasury_Workflow\<close>: every interleaving of the treasury handlers; a run's figures never change
      and a mismatch closes only with an investigation, a basis and a second person.
    \<^item> \<^theory_text>\<open>Treasury_Books\<close>: what the receipt, refund, settlement and treasury services post keeps cash
      and payables paired, so a run at any cut-off finds no difference between the two legs.

    \<^item> \<^theory_text>\<open>Market\<close>, \<^theory_text>\<open>Gift_Rules\<close>, \<^theory_text>\<open>Gifts\<close>, \<^theory_text>\<open>Orders\<close>: the tables, rules and handlers of the consumer
      lane; the visibility gates reveal nothing they mask, and the zone matcher meets its contract.
    \<^item> \<^theory_text>\<open>Payment_Flow\<close>: every interleaving of payment confirmations; an order is captured at most once.
    \<^item> \<^theory_text>\<open>Gift_Flow\<close>: the life of a gift over whole handler runs, idempotent creation, refusals without trace.
    \<^item> \<^theory_text>\<open>Ledger_Repair\<close>: what a sweep owes, read off the documents; over keyed rows the repair of missing
      postings returns, posts exactly that and is idempotent; a row without its key can end it.

    \<^item> \<^theory_text>\<open>Otp\<close>: phone numbers, the send limiter and one-time codes; the lockouts hold across resends.
    \<^item> \<^theory_text>\<open>Roster\<close>: the roster files of companies; the parser returns, reads back what is quoted, and
      keeps only sound rows without addresses.
    \<^item> \<^theory_text>\<open>Corp_Data\<close>, \<^theory_text>\<open>Invoicing\<close>: the corporate tables, the roster service with its purge, and the two
      invoices of a campaign.

  Bounds and fuel. Assembly tries at most three references and each allocation at most five
  candidates, as the source does; there is no other fuel. The recovery sum of a preview is added
  up in floating point and is proved exact while the number of parts times their sum is at most 2 to
  the 49 minor units; beyond, it can be off by one (\<open>replay_drifts\<close> in \<^theory_text>\<open>Binding\<close>). Legal numbers
  normalise up to seven digits and are issued beyond (\<^theory_text>\<open>References\<close>).

  Interleaving. Reads outside a transaction see some earlier state of the history; each
  transaction is atomic. The serializable transactions of receipts and refunds run on their own,
  so their retry after a serialization failure is the identity and is not modelled.

  Not modelled. Accounts, authentication, social features, media, catalogue and back-office
  CRUD: they only store and forward. Notifications end in an outbox: what their orchestrator does with
  them (budgets, quiet hours, channels) is not modelled. The payment gateway's answer, Unicode
  normalisation and the environment are arguments. The JSON a reconciliation run stores is not
  parsed back. HTTP decoration, logging and dependency injection carry no state of their own.
\<close>

end
